(* ===== verification/Prelude.thy ===== *)
theory Prelude
  imports Main "HOL-Library.List_Lexorder" "HOL-Library.Char_ord" "HOL-Library.Sublist"
    "HOL-Library.Word"
begin

text \<open>
  What every component of the development shares.

  \<^item> The Rust \<^verbatim>\<open>str\<close> operations the program uses, on byte strings: \<^verbatim>\<open>split\<close>,
    \<^verbatim>\<open>join\<close>, \<^verbatim>\<open>split_once\<close>, \<^verbatim>\<open>rsplit_once\<close>, \<^verbatim>\<open>strip_prefix\<close>, \<^verbatim>\<open>trim_matches\<close>,
    \<^verbatim>\<open>replace\<close> and the decimal rendering of an unsigned number.
  \<^item> A redb table: an association list kept in ascending key order, because the
    program iterates its tables and the order of the iteration is observable.
  \<^item> The interface \<open>kv_store\<close>: what a client of a keyed table may rely on. Every
    table of the store is an instance of it.
  \<^item> The \<open>named_theorems\<close> collections: \<open>tbl\<close> for the table laws, \<open>store_simps\<close>
    for the frame facts of the store operations, \<open>str_simps\<close> for the string
    functions.
\<close>

named_theorems tbl
named_theorems store_simps
named_theorems str_simps

section \<open>Strings\<close>

abbreviation slash :: char where "slash \<equiv> CHR ''/''"
abbreviation dot :: char where "dot \<equiv> CHR ''.''"

fun split_on :: "'a \<Rightarrow> 'a list \<Rightarrow> 'a list list" where
  "split_on d [] = [[]]"
| "split_on d (c # cs) =
     (if c = d then [] # split_on d cs
      else case split_on d cs of [] \<Rightarrow> [[c]] | s # ss \<Rightarrow> (c # s) # ss)"

fun join_with :: "'a list \<Rightarrow> 'a list list \<Rightarrow> 'a list" where
  "join_with sep [] = []"
| "join_with sep [x] = x"
| "join_with sep (x # y # xs) = x @ sep @ join_with sep (y # xs)"

fun strip_prefix :: "'a list \<Rightarrow> 'a list \<Rightarrow> 'a list option" where
  "strip_prefix [] s = Some s"
| "strip_prefix (p # ps) [] = None"
| "strip_prefix (p # ps) (c # cs) = (if p = c then strip_prefix ps cs else None)"

definition starts_with :: "'a list \<Rightarrow> 'a list \<Rightarrow> bool" where
  "starts_with p s = (strip_prefix p s \<noteq> None)"

definition strip_suffix :: "'a list \<Rightarrow> 'a list \<Rightarrow> 'a list option" where
  "strip_suffix p s = map_option rev (strip_prefix (rev p) (rev s))"

definition ends_with :: "'a list \<Rightarrow> 'a list \<Rightarrow> bool" where
  "ends_with p s = (strip_suffix p s \<noteq> None)"

fun split_once :: "'a \<Rightarrow> 'a list \<Rightarrow> ('a list \<times> 'a list) option" where
  "split_once d [] = None"
| "split_once d (c # cs) =
     (if c = d then Some ([], cs)
      else map_option (\<lambda>(a, b). (c # a, b)) (split_once d cs))"

definition rsplit_once :: "'a \<Rightarrow> 'a list \<Rightarrow> ('a list \<times> 'a list) option" where
  "rsplit_once d s = map_option (\<lambda>(a, b). (rev b, rev a)) (split_once d (rev s))"

definition trim_start_with :: "('a \<Rightarrow> bool) \<Rightarrow> 'a list \<Rightarrow> 'a list" where
  "trim_start_with p s = dropWhile p s"

definition trim_end_with :: "('a \<Rightarrow> bool) \<Rightarrow> 'a list \<Rightarrow> 'a list" where
  "trim_end_with p s = rev (dropWhile p (rev s))"

definition trim_with :: "('a \<Rightarrow> bool) \<Rightarrow> 'a list \<Rightarrow> 'a list" where
  "trim_with p s = trim_end_with p (trim_start_with p s)"

definition replace_chars :: "char set \<Rightarrow> string \<Rightarrow> string \<Rightarrow> string" where
  "replace_chars cs r s = concat (map (\<lambda>c. if c \<in> cs then r else [c]) s)"

fun show_nat :: "nat \<Rightarrow> string" where
  "show_nat n =
     (if n < 10 then [char_of (48 + n)]
      else show_nat (n div 10) @ [char_of (48 + n mod 10)])"

declare show_nat.simps [simp del]

lemma split_on_not_Nil [simp]: "split_on d s \<noteq> []"
  by (induction s) (auto split: list.splits)

lemma join_with_Cons: "xs \<noteq> [] \<Longrightarrow> join_with sep (x # xs) = x @ sep @ join_with sep xs"
  by (cases xs) auto

lemma join_split_on [simp]: "join_with [d] (split_on d s) = s"
proof (induction s)
  case (Cons c cs)
  then show ?case
    by (cases "split_on d cs"; cases "tl (split_on d cs)") (auto simp: join_with_Cons)
qed simp

lemma split_on_inj [simp]: "split_on d a = split_on d b \<longleftrightarrow> a = b"
  by (metis join_split_on)

lemma split_on_append [str_simps]: "split_on d (a @ d # b) = split_on d a @ split_on d b"
proof (induction a)
  case (Cons c cs)
  then show ?case by (cases "split_on d cs") auto
qed simp

lemma split_on_no_sep [str_simps]: "d \<notin> set s \<Longrightarrow> split_on d s = [s]"
  by (induction s) auto

lemma split_on_pieces: "x \<in> set (split_on d s) \<Longrightarrow> d \<notin> set x"
proof (induction s arbitrary: x)
  case (Cons c cs)
  then show ?case by (cases "split_on d cs") (auto split: if_splits)
qed simp

lemma split_join_with:
  "xs \<noteq> [] \<Longrightarrow> \<forall>x\<in>set xs. d \<notin> set x \<Longrightarrow> split_on d (join_with [d] xs) = xs"
proof (induction xs)
  case (Cons x xs)
  show ?case
  proof (cases xs)
    case Nil
    then show ?thesis using Cons.prems by (simp add: split_on_no_sep)
  next
    case (Cons y ys)
    then have "split_on d (join_with [d] xs) = xs" using Cons.IH Cons.prems by simp
    then show ?thesis
      using Cons Cons.prems by (simp add: join_with_Cons split_on_append split_on_no_sep)
  qed
qed simp

lemma set_split_on_chars: "x \<in> set (split_on d s) \<Longrightarrow> set x \<subseteq> set s"
proof (induction s arbitrary: x)
  case (Cons c cs)
  then show ?case by (cases "split_on d cs") (auto split: if_splits, blast+)
qed simp

lemma strip_prefix_Some: "strip_prefix p s = Some r \<longleftrightarrow> s = p @ r"
  by (induction p s rule: strip_prefix.induct) auto

lemma strip_prefix_append [simp]: "strip_prefix p (p @ r) = Some r"
  by (simp add: strip_prefix_Some)

lemma strip_prefix_self [simp]: "strip_prefix p p = Some []"
  by (simp add: strip_prefix_Some)

lemma strip_prefix_None: "strip_prefix p s = None \<longleftrightarrow> \<not> prefix p s"
  by (metis not_None_eq prefix_def strip_prefix_Some)

lemma starts_with_iff [str_simps]: "starts_with p s \<longleftrightarrow> prefix p s"
  by (simp add: starts_with_def strip_prefix_None)

lemma strip_suffix_Some: "strip_suffix p s = Some r \<longleftrightarrow> s = r @ p"
  by (auto simp: strip_suffix_def strip_prefix_Some)
     (metis rev_append rev_rev_ident)+

lemma ends_with_iff [str_simps]: "ends_with p s \<longleftrightarrow> suffix p s"
  by (metis ends_with_def not_None_eq strip_suffix_Some suffix_def)

lemma split_once_Some: "split_once d s = Some (a, b) \<longleftrightarrow> s = a @ d # b \<and> d \<notin> set a"
proof (induction s arbitrary: a)
  case (Cons c cs)
  then show ?case by (cases a) (auto split: if_splits)
qed simp

lemma split_once_None: "split_once d s = None \<longleftrightarrow> d \<notin> set s"
  by (induction s) auto

lemma rsplit_once_Some: "rsplit_once d s = Some (a, b) \<longleftrightarrow> s = a @ d # b \<and> d \<notin> set b"
proof -
  have "rsplit_once d s = Some (a, b) \<longleftrightarrow> split_once d (rev s) = Some (rev b, rev a)"
    by (auto simp: rsplit_once_def)
  also have "\<dots> \<longleftrightarrow> s = a @ d # b \<and> d \<notin> set b"
    unfolding split_once_Some by (metis append.assoc append_Cons append_Nil rev.simps(2)
        rev_append rev_rev_ident set_rev)
  finally show ?thesis .
qed

lemma rsplit_once_None: "rsplit_once d s = None \<longleftrightarrow> d \<notin> set s"
  by (simp add: rsplit_once_def split_once_None)

lemma rsplit_once_last: "rsplit_once d s = Some (a, b) \<Longrightarrow> split_on d s = split_on d a @ [b]"
  by (simp add: rsplit_once_Some split_on_append split_on_no_sep)

lemma dropWhile_idem [simp]: "dropWhile p (dropWhile p xs) = dropWhile p xs"
  by (induction xs) auto

lemma show_nat_not_Nil [simp]: "show_nat n \<noteq> []"
  by (subst show_nat.simps) simp

lemma of_char_char_of_digit: "d < 10 \<Longrightarrow> of_char (char_of (48 + d :: nat) :: char) = (48 + d :: nat)"
  by (simp add: of_char_of)

definition is_digit :: "char \<Rightarrow> bool" where
  "is_digit c = (48 \<le> (of_char c :: nat) \<and> (of_char c :: nat) \<le> 57)"

lemma show_nat_digits: "\<forall>c\<in>set (show_nat n). is_digit c"
proof (induction n rule: show_nat.induct)
  case (1 n)
  then show ?case
    by (subst show_nat.simps) (auto simp: is_digit_def of_char_of)
qed

lemma show_nat_inj [simp]: "show_nat a = show_nat b \<longleftrightarrow> a = b"
proof
  show "show_nat a = show_nat b \<Longrightarrow> a = b"
  proof (induction a arbitrary: b rule: show_nat.induct)
    case (1 a)
    have digit: "char_of (48 + x) = (char_of (48 + y) :: char) \<Longrightarrow> x < 10 \<Longrightarrow> y < 10 \<Longrightarrow> x = y"
      for x y :: nat
      by (metis add_left_cancel of_char_char_of_digit)
    show ?case
    proof (cases "a < 10")
      case a: True
      then have "b < 10" using "1.prems"
        by (metis append_is_Nil_conv butlast.simps(2) butlast_snoc show_nat.simps show_nat_not_Nil)
      then show ?thesis using a "1.prems" digit[of a b] by (simp add: show_nat.simps)
    next
      case a: False
      then have b: "\<not> b < 10" using "1.prems"
        by (metis append_is_Nil_conv butlast.simps(2) butlast_snoc show_nat.simps show_nat_not_Nil)
      have eq: "show_nat (a div 10) @ [char_of (48 + a mod 10)]
              = show_nat (b div 10) @ [char_of (48 + b mod 10)]"
        using "1.prems" a b by (subst (asm) (1 2) show_nat.simps) simp
      then have "a div 10 = b div 10" using "1.IH"[OF a] by simp
      moreover have "a mod 10 = b mod 10" using eq digit[of "a mod 10" "b mod 10"] by simp
      ultimately show ?thesis by (metis div_mult_mod_eq)
    qed
  qed
qed simp

text \<open>
  \<^verbatim>\<open>str::trim\<close> removes the Unicode white space at both ends. On UTF-8 bytes the
  white-space characters are the byte sequences of \<open>ws_seqs\<close>; no other
  character starts or ends with one of them.
\<close>

definition ws_seqs :: "string list" where
  "ws_seqs = map (map char_of)
     ([[9], [10], [11], [12], [13], [32], [194, 133], [194, 160], [225, 154, 128],
       [226, 128, 168], [226, 128, 169], [226, 128, 175], [226, 129, 159], [227, 128, 128]]
      @ map (\<lambda>n. [226, 128, n]) [128..<139] :: nat list list)"

fun strip_any :: "'a list list \<Rightarrow> 'a list \<Rightarrow> 'a list option" where
  "strip_any [] s = None"
| "strip_any (w # ws) s =
     (case strip_prefix w s of
        Some r \<Rightarrow> if w = [] then strip_any ws s else Some r
      | None \<Rightarrow> strip_any ws s)"

lemma strip_any_shorter: "strip_any ws s = Some r \<Longrightarrow> length r < length s"
  by (induction ws s rule: strip_any.induct)
     (auto simp: strip_prefix_Some split: option.splits if_splits)

function trim_start_seqs :: "'a list list \<Rightarrow> 'a list \<Rightarrow> 'a list" where
  "trim_start_seqs ws s =
     (case strip_any ws s of None \<Rightarrow> s | Some r \<Rightarrow> trim_start_seqs ws r)"
  by pat_completeness auto
termination
  by (relation "measure (\<lambda>(ws, s). length s)") (auto simp: strip_any_shorter)

declare trim_start_seqs.simps [simp del]

definition str_trim :: "string \<Rightarrow> string" where
  "str_trim s = rev (trim_start_seqs (map rev ws_seqs) (rev (trim_start_seqs ws_seqs s)))"

section \<open>Tables\<close>

type_synonym ('k, 'v) table = "('k \<times> 'v) list"

abbreviation tget :: "('k, 'v) table \<Rightarrow> 'k \<Rightarrow> 'v option" where "tget \<equiv> map_of"

fun tput :: "'k::linorder \<Rightarrow> 'v \<Rightarrow> ('k, 'v) table \<Rightarrow> ('k, 'v) table" where
  "tput k v [] = [(k, v)]"
| "tput k v ((a, b) # t) =
     (if k < a then (k, v) # (a, b) # t
      else if k = a then (k, v) # t
      else (a, b) # tput k v t)"

definition tdel :: "'k \<Rightarrow> ('k, 'v) table \<Rightarrow> ('k, 'v) table" where
  "tdel k t = filter (\<lambda>(a, _). a \<noteq> k) t"

definition tkeys :: "('k, 'v) table \<Rightarrow> 'k list" where
  "tkeys t = map fst t"

definition tsorted :: "('k::linorder, 'v) table \<Rightarrow> bool" where
  "tsorted t = sorted_wrt (<) (map fst t)"

lemma tget_tput [simp, tbl]: "tget (tput k v t) a = (if a = k then Some v else tget t a)"
  by (induction t) auto

lemma tget_tdel [simp, tbl]: "tget (tdel k t) a = (if a = k then None else tget t a)"
  by (induction t) (auto simp: tdel_def)

lemma fst_set_tput [simp, tbl]: "fst ` set (tput k v t) = insert k (fst ` set t)"
  by (induction k v t rule: tput.induct) (simp_all add: insert_commute)

lemma fst_set_tdel [simp, tbl]: "fst ` set (tdel k t) = fst ` set t - {k}"
  by (auto simp: tdel_def image_iff)

lemma tsorted_Nil [simp, tbl]: "tsorted []"
  by (simp add: tsorted_def)

lemma tsorted_Cons: "tsorted ((k, v) # t) \<longleftrightarrow> (\<forall>a\<in>fst ` set t. k < a) \<and> tsorted t"
  by (auto simp: tsorted_def)

lemma tsorted_tput [simp, tbl]: "tsorted t \<Longrightarrow> tsorted (tput k v t)"
proof (induction t)
  case (Cons p t)
  obtain a b where p: "p = (a, b)" by (cases p)
  show ?case
    using Cons unfolding p by (auto simp: tsorted_Cons dest: less_trans)
qed (simp add: tsorted_def)

lemma tsorted_filter [simp, tbl]: "tsorted t \<Longrightarrow> tsorted (filter P t)"
  by (induction t) (auto simp: tsorted_Cons)

lemma tsorted_snoc [tbl]: "tsorted t \<Longrightarrow> \<forall>a\<in>fst ` set t. a < k \<Longrightarrow> tsorted (t @ [(k, v)])"
  by (auto simp: tsorted_def sorted_wrt_append)

lemma tsorted_tdel [simp, tbl]: "tsorted t \<Longrightarrow> tsorted (tdel k t)"
  by (simp add: tdel_def)

lemma tsorted_distinct: "tsorted t \<Longrightarrow> distinct (map fst t)"
  by (simp add: tsorted_def strict_sorted_iff)

lemma tsorted_lookup: "tsorted t \<Longrightarrow> (k, v) \<in> set t \<longleftrightarrow> tget t k = Some v"
  by (simp add: tsorted_distinct)

lemma tget_filter:
  "tsorted t \<Longrightarrow> tget (filter (\<lambda>(k, v). P k v) t) a =
     (case tget t a of None \<Rightarrow> None | Some v \<Rightarrow> if P a v then Some v else None)"
proof (induction t)
  case (Cons p t)
  obtain b w where p: "p = (b, w)" by (cases p)
  have "tget t b = None" using Cons.prems unfolding p
    by (metis less_irrefl map_of_eq_None_iff tsorted_Cons)
  then show ?case
    using Cons unfolding p by (auto simp: tsorted_Cons split: option.splits)
qed simp

lemma tget_filter_key [simp, tbl]:
  "tget (filter (\<lambda>(k, v). P k) t) a = (if P a then tget t a else None)"
  by (induction t) auto

lemma tget_map_val:
  "tget (map (\<lambda>(k, v). (k, f k v)) t) a = map_option (f a) (tget t a)"
  by (induction t) auto

lemma in_fst_tget: "a \<in> fst ` set t \<longleftrightarrow> tget t a \<noteq> None"
  by (simp add: map_of_eq_None_iff)

lemma tfilter_victims:
  assumes "distinct (map fst t)"
  shows "filter (\<lambda>(a, _). a \<notin> fst ` {x \<in> set t. P (snd x)}) t = filter (\<lambda>(_, v). \<not> P v) t"
proof (rule filter_cong[OF refl])
  fix x assume x: "x \<in> set t"
  have "fst x \<in> fst ` {y \<in> set t. P (snd y)} \<longleftrightarrow> P (snd x)"
  proof
    assume "fst x \<in> fst ` {y \<in> set t. P (snd y)}"
    then obtain y where y: "y \<in> set t" "P (snd y)" "fst y = fst x" by auto
    then have "snd y = snd x" using assms x by (metis eq_key_imp_eq_value prod.collapse)
    then show "P (snd x)" using y by simp
  qed (use x in blast)
  then show "(case x of (a, _) \<Rightarrow> a \<notin> fst ` {y \<in> set t. P (snd y)}) = (case x of (_, v) \<Rightarrow> \<not> P v)"
    by (simp add: split_def)
qed

lemma tkey_ex: "(\<exists>x\<in>set t. P (fst x)) \<longleftrightarrow> (\<exists>k. tget t k \<noteq> None \<and> P k)"
proof -
  have "(\<exists>x\<in>set t. P (fst x)) \<longleftrightarrow> (\<exists>k\<in>fst ` set t. P k)" by auto
  then show ?thesis by (simp only: Bex_def in_fst_tget)
qed

lemma tkey_all: "(\<forall>x\<in>set t. P (fst x)) \<longleftrightarrow> (\<forall>k. tget t k \<noteq> None \<longrightarrow> P k)"
  using tkey_ex[of t "\<lambda>k. \<not> P k"] by blast

lemma tput_last: "\<forall>a\<in>fst ` set t. a < k \<Longrightarrow> tput k v t = t @ [(k, v)]"
  by (induction t) (auto simp: less_le_not_le)

lemma tput_tput_same [simp]: "tput k v (tput k w t) = tput k v t"
  by (induction t) auto

section \<open>The keyed-table interface\<close>

text \<open>
  What a client of a keyed table of the store relies on: a read after a write,
  a read after a removal, and that both leave every other key alone.
\<close>

locale kv_store =
  fixes get :: "'s \<Rightarrow> 'k \<Rightarrow> 'v option"
    and put :: "'s \<Rightarrow> 'k \<Rightarrow> 'v \<Rightarrow> 's"
    and del :: "'s \<Rightarrow> 'k \<Rightarrow> 's"
  assumes get_put: "get (put s k v) a = (if a = k then Some v else get s a)"
    and get_del: "get (del s k) a = (if a = k then None else get s a)"
begin

lemma get_put_same: "get (put s k v) k = Some v"
  by (simp add: get_put)

lemma get_put_other: "a \<noteq> k \<Longrightarrow> get (put s k v) a = get s a"
  by (simp add: get_put)

lemma get_del_same: "get (del s k) k = None"
  by (simp add: get_del)

lemma get_foldl_put:
  "get (foldl (\<lambda>s (k, v). put s k v) s kvs) a =
     (case map_of (rev kvs) a of Some v \<Rightarrow> Some v | None \<Rightarrow> get s a)"
proof (induction kvs arbitrary: s)
  case (Cons p kvs)
  then show ?case
    by (cases p) (auto simp: get_put map_add_Some_iff map_add_def split: option.splits)
qed simp

lemma get_foldl_del:
  "get (foldl del s ks) a = (if a \<in> set ks then None else get s a)"
  by (induction ks arbitrary: s) (auto simp: get_del)

lemma move_get:
  assumes "get s src = Some v"
  shows "get (put (del s src) dst v) a =
     (if a = dst then Some v else if a = src then None else get s a)"
  by (simp add: get_put get_del)

end

end
