(* ===== verification/Keys.thy ===== *)
theory Keys
  imports Prelude
begin

text \<open>
  Keys and paths: the pure string functions of \<^verbatim>\<open>mirror/mod.rs\<close>, \<^verbatim>\<open>mirror/store.rs\<close>
  (\<open>under\<close>, \<open>overlaps\<close>), \<^verbatim>\<open>mirror/local.rs\<close> (\<open>check_key\<close>), \<^verbatim>\<open>mirror/hub.rs\<close>
  (\<open>encode_key\<close>) and of the path helpers of \<^verbatim>\<open>state.rs\<close> and \<^verbatim>\<open>writes.rs\<close>.

  A key is relative and \<^verbatim>\<open>/\<close>-separated. Its \<open>split_on slash\<close> is the list of its
  segments, and most lemmas here relate a byte-level function to that list:
  \<open>under\<close> is the prefix order on segment lists.
\<close>

section \<open>Options (mirror/mod.rs)\<close>

datatype conflict_mode = Prompt | RenameCopy

datatype delete_mode = Propagate | Keep

record mirror_options =
  protected :: bool
  accept_device_change :: bool
  conflicts_mode :: conflict_mode
  deletes :: delete_mode
  ignore :: "string list"
  poll_secs :: nat

definition default_options :: mirror_options where
  "default_options = \<lparr>protected = False, accept_device_change = False,
     conflicts_mode = RenameCopy, deletes = Propagate, ignore = [], poll_secs = 30\<rparr>"

section \<open>Keys (mirror/mod.rs)\<close>

definition normalize_key :: "(string \<Rightarrow> string) \<Rightarrow> string \<Rightarrow> string" where
  "normalize_key nfc raw = join_with ''/'' (filter (\<lambda>s. s \<noteq> []) (split_on slash (nfc raw)))"

definition parent_key :: "string \<Rightarrow> string" where
  "parent_key key = (case rsplit_once slash key of Some (p, _) \<Rightarrow> p | None \<Rightarrow> [])"

definition leaf_of :: "string \<Rightarrow> string" where
  "leaf_of key = last (split_on slash key)"

definition nfc_ok :: "(string \<Rightarrow> string) \<Rightarrow> bool" where
  "nfc_ok nfc \<longleftrightarrow> nfc [] = [] \<and>
     (\<forall>s. nfc (nfc s) = nfc s) \<and>
     (\<forall>s. split_on slash (nfc s) = map nfc (split_on slash s))"

fun segs_ok :: "string \<Rightarrow> bool" where
  "segs_ok key = list_all (\<lambda>s. s \<noteq> []) (split_on slash key)"

definition norm_key :: "string \<Rightarrow> bool" where
  "norm_key key \<longleftrightarrow> key = [] \<or> segs_ok key"

record 'p ignore_rules =
  patterns :: "'p list"

definition ignore_new :: "(string \<Rightarrow> 'p option) \<Rightarrow> string list \<Rightarrow> 'p ignore_rules" where
  "ignore_new glob ps =
     \<lparr>patterns = concat (map (\<lambda>p.
        let p = str_trim p in
        if p = [] then [] else (case glob p of Some pat \<Rightarrow> [pat] | None \<Rightarrow> [])) ps)\<rparr>"

definition is_ignored :: "('p \<Rightarrow> string \<Rightarrow> bool) \<Rightarrow> 'p ignore_rules \<Rightarrow> string \<Rightarrow> bool" where
  "is_ignored matches r key =
     (if list_ex (\<lambda>seg. starts_with ''.'' seg) (split_on slash key) then True
      else list_ex (\<lambda>p. matches p key) (patterns r))"

definition conflict_copy_key :: "string \<Rightarrow> string \<Rightarrow> string \<Rightarrow> string" where
  "conflict_copy_key key device stamp =
     (let (dir, name) = (case rsplit_once slash key of
            Some (d, n) \<Rightarrow> (Some d, n) | None \<Rightarrow> (None, key));
          (stem, ext) = (case rsplit_once dot name of
            Some (s, e) \<Rightarrow> if s \<noteq> [] then (s, Some e) else (name, None)
          | None \<Rightarrow> (name, None));
          dev = replace_chars {slash, CHR 0x5C} ''_'' device;
          leaf = (case ext of
            Some e \<Rightarrow> stem @ '' (conflict from '' @ dev @ '' '' @ stamp @ '').'' @ e
          | None \<Rightarrow> stem @ '' (conflict from '' @ dev @ '' '' @ stamp @ '')'')
      in case dir of Some d \<Rightarrow> d @ ''/'' @ leaf | None \<Rightarrow> leaf)"

definition hex_digit :: "8 word \<Rightarrow> char" where
  "hex_digit n = ''0123456789abcdef'' ! unat n"

definition hex :: "8 word list \<Rightarrow> string" where
  "hex bytes = concat (map (\<lambda>b. [hex_digit (drop_bit 4 b), hex_digit (and b 0xf)]) bytes)"

definition fnv1a :: "string \<Rightarrow> 64 word" where
  "fnv1a s = foldl (\<lambda>h b. xor h (of_nat (of_char b)) * 0x100000001b3) 0xcbf29ce484222325 s"

definition hex016 :: "64 word \<Rightarrow> string" where
  "hex016 w = map (\<lambda>i. ''0123456789abcdef'' ! unat (and (drop_bit (4 * i) w) 0xf)) (rev [0..<16])"

record device_identity =
  dev_id :: string
  dev_name :: string

definition device_resolve :: "string \<Rightarrow> string option \<Rightarrow> string \<Rightarrow> device_identity" where
  "device_resolve hostname device_json user =
     (let from_file = (case device_json of
            Some s \<Rightarrow> if s \<noteq> [] then Some s else None | None \<Rightarrow> None);
          i = (case from_file of Some s \<Rightarrow> s
               | None \<Rightarrow> ''fuse-'' @ hex016 (fnv1a (hostname @ [CHR 0x1F] @ user)))
      in \<lparr>dev_id = i, dev_name = hostname\<rparr>)"

definition hostname_of :: "(string \<Rightarrow> bool) \<Rightarrow> string option \<Rightarrow> string" where
  "hostname_of utf8_ok buf =
     (case buf of None \<Rightarrow> ''localhost''
      | Some b \<Rightarrow>
          let s = takeWhile (\<lambda>c. c \<noteq> CHR 0x00) b
          in if utf8_ok s \<and> s \<noteq> [] then s else ''localhost'')"

section \<open>Subtrees (mirror/store.rs)\<close>

definition under :: "string \<Rightarrow> string \<Rightarrow> bool" where
  "under key dir \<longleftrightarrow> key = dir \<or>
     (case strip_prefix dir key of Some rest \<Rightarrow> starts_with ''/'' rest | None \<Rightarrow> False)"

definition overlaps :: "string \<Rightarrow> string \<Rightarrow> bool" where
  "overlaps a b \<longleftrightarrow> under a b \<or> under b a"

section \<open>Keys that may be put on disk (mirror/local.rs)\<close>

definition MARKER :: string where
  "MARKER = ''.workspace.json''"

definition check_key :: "string \<Rightarrow> bool" where
  "check_key key \<longleftrightarrow> key \<noteq> [] \<and> hd (split_on slash key) \<noteq> MARKER \<and>
     list_all (\<lambda>seg. seg \<noteq> [] \<and> seg \<noteq> ''.'' \<and> seg \<noteq> ''..'') (split_on slash key)"

section \<open>Wire encoding of keys (mirror/hub.rs)\<close>

definition unreserved :: "nat \<Rightarrow> bool" where
  "unreserved n \<longleftrightarrow> 65 \<le> n \<and> n \<le> 90 \<or> 97 \<le> n \<and> n \<le> 122 \<or> 48 \<le> n \<and> n \<le> 57 \<or>
     n = 45 \<or> n = 95 \<or> n = 46 \<or> n = 126"

definition hexU :: "nat \<Rightarrow> char" where
  "hexU n = ''0123456789ABCDEF'' ! n"

definition encode_segment :: "string \<Rightarrow> string" where
  "encode_segment s = concat (map (\<lambda>c.
     let b = of_char c :: nat
     in if unreserved b then [c] else [CHR ''%'', hexU (b div 16), hexU (b mod 16)]) s)"

definition encode_key :: "string \<Rightarrow> string" where
  "encode_key key =
     join_with ''/'' (map encode_segment (filter (\<lambda>s. s \<noteq> []) (split_on slash key)))"

section \<open>Absolute view paths (state.rs, writes.rs)\<close>

fun norm_path_loop :: "string \<Rightarrow> string list \<Rightarrow> string" where
  "norm_path_loop out [] = out"
| "norm_path_loop out (seg # segs) =
     norm_path_loop ((if length out > 1 then out @ ''/'' else out) @ seg) segs"

definition norm_path :: "string \<Rightarrow> string" where
  "norm_path p = norm_path_loop ''/'' (filter (\<lambda>s. s \<noteq> []) (split_on slash p))"

definition parent_path :: "string \<Rightarrow> string" where
  "parent_path p = (case rsplit_once slash p of
     Some (h, _) \<Rightarrow> if h \<noteq> [] then h else ''/'' | None \<Rightarrow> ''/'')"

definition leaf_name :: "string \<Rightarrow> string" where
  "leaf_name p = last (split_on slash p)"

definition join_home_path :: "string \<Rightarrow> string \<Rightarrow> string" where
  "join_home_path dir name =
     (if dir = ''/'' \<or> dir = [] then ''/'' @ name
      else trim_end_with (\<lambda>c. c = slash) dir @ ''/'' @ name)"

definition home_key :: "string \<Rightarrow> string" where
  "home_key path = trim_with (\<lambda>c. c = slash) path"

definition join_path :: "string \<Rightarrow> string \<Rightarrow> string" where
  "join_path parent name = (if parent = ''/'' then ''/'' @ name else parent @ ''/'' @ name)"

definition parent_of :: "string \<Rightarrow> string" where
  "parent_of path = (case rsplit_once slash path of
     Some (h, _) \<Rightarrow> if h \<noteq> [] then h else ''/'' | None \<Rightarrow> ''/'')"

section \<open>Lemmas\<close>

lemma under_iff: "under k d \<longleftrightarrow> k = d \<or> (\<exists>r. k = d @ slash # r)"
  by (auto simp: under_def starts_with_iff strip_prefix_Some prefix_def split: option.splits)

lemma under_segs: "under k d \<longleftrightarrow> prefix (split_on slash d) (split_on slash k)"
proof
  assume "under k d"
  then show "prefix (split_on slash d) (split_on slash k)"
    by (auto simp: under_iff split_on_append)
next
  assume "prefix (split_on slash d) (split_on slash k)"
  then obtain zs where zs: "split_on slash k = split_on slash d @ zs" by (auto simp: prefix_def)
  show "under k d"
  proof (cases "zs = []")
    case True
    then show ?thesis using zs by (simp add: under_iff)
  next
    case False
    have "\<forall>x\<in>set zs. slash \<notin> set x"
      using zs split_on_pieces[of _ slash k] by (metis Un_iff set_append)
    then have "split_on slash (d @ slash # join_with [slash] zs) = split_on slash k"
      using False zs by (simp add: split_on_append split_join_with)
    then show ?thesis by (auto simp: under_iff)
  qed
qed

lemma under_refl [simp, intro]: "under k k"
  by (simp add: under_def)

lemma under_trans: "under a b \<Longrightarrow> under b c \<Longrightarrow> under a c"
  unfolding under_segs by (rule prefix_order.trans)

lemma under_antisym: "under a b \<Longrightarrow> under b a \<Longrightarrow> a = b"
  unfolding under_segs by (metis prefix_order.antisym split_on_inj)

lemma under_linear: "under k a \<Longrightarrow> under k b \<Longrightarrow> overlaps a b"
  unfolding under_segs overlaps_def using prefix_same_cases by blast

lemma overlaps_sym: "overlaps a b = overlaps b a"
  by (auto simp: overlaps_def)

lemma overlaps_refl [simp]: "overlaps a a"
  by (simp add: overlaps_def)

lemma under_append: "under (d @ slash # r) d"
  by (auto simp: under_iff)

lemma not_under_sub: "\<not> under d (d @ slash # r)"
  by (auto simp: under_iff)

lemma rekey_under:
  assumes "under k a"
  shows "under (b @ drop (length a) k) b"
  using assms by (auto simp: under_iff)

lemma rekey_inj:
  assumes "under k a" "under k' a" "b @ drop (length a) k = b @ drop (length a) k'"
  shows "k = k'"
  using assms by (auto simp: under_iff)

lemma filter_split_join:
  "split_on slash (join_with ''/'' (filter (\<lambda>s. s \<noteq> []) (split_on slash s))) =
     (let f = filter (\<lambda>s. s \<noteq> []) (split_on slash s) in if f = [] then [[]] else f)"
proof (cases "filter (\<lambda>s. s \<noteq> []) (split_on slash s) = []")
  case False
  then show ?thesis
    using split_on_pieces[of _ slash s] by (simp add: split_join_with)
qed simp

lemma normalize_segs:
  "filter (\<lambda>s. s \<noteq> []) (split_on slash (normalize_key nfc raw)) =
   filter (\<lambda>s. s \<noteq> []) (split_on slash (nfc raw))"
  unfolding normalize_key_def filter_split_join by (simp add: Let_def)

lemma normalize_norm_key: "norm_key (normalize_key nfc raw)"
proof (cases "filter (\<lambda>s. s \<noteq> []) (split_on slash (nfc raw)) = []")
  case True
  then show ?thesis by (simp add: normalize_key_def norm_key_def)
next
  case False
  have "segs_ok (normalize_key nfc raw)"
    using False unfolding normalize_key_def segs_ok.simps filter_split_join
    by (simp add: Let_def list_all_iff)
  then show ?thesis by (simp add: norm_key_def)
qed

lemma nfc_segs: "nfc_ok nfc \<Longrightarrow> split_on slash (nfc s) = map nfc (split_on slash s)"
  by (simp add: nfc_ok_def)

lemma segs_ok_filter: "segs_ok k \<Longrightarrow> filter (\<lambda>s. s \<noteq> []) (split_on slash k) = split_on slash k"
  by (simp add: list_all_iff)

lemma norm_key_fix: "norm_key k \<Longrightarrow> nfc k = k \<Longrightarrow> normalize_key nfc k = k"
  by (auto simp: norm_key_def normalize_key_def segs_ok_filter simp del: segs_ok.simps)

lemma nfc_normalized:
  assumes "nfc_ok nfc"
  shows "nfc (normalize_key nfc raw) = normalize_key nfc raw"
proof -
  let ?f = "filter (\<lambda>s. s \<noteq> []) (split_on slash (nfc raw))"
  have fix1: "nfc x = x" if "x \<in> set (split_on slash (nfc raw))" for x
    using that assms by (auto simp: nfc_segs nfc_ok_def)
  have "split_on slash (nfc (normalize_key nfc raw)) = split_on slash (normalize_key nfc raw)"
  proof (cases "?f = []")
    case True
    then show ?thesis using assms by (simp add: normalize_key_def nfc_ok_def)
  next
    case False
    then have "split_on slash (normalize_key nfc raw) = ?f"
      unfolding normalize_key_def filter_split_join by (simp add: Let_def)
    moreover have "map nfc ?f = ?f" using fix1 by (auto intro: map_idI)
    ultimately show ?thesis using assms by (simp add: nfc_segs)
  qed
  then show ?thesis by simp
qed

text \<open>
  Normalize_key is idempotent, and its result is in the canonical form the store
  keys rely on (no empty segment, so no leading, trailing or doubled slash), for every
  NFC function that works segment by segment and is itself idempotent.
\<close>
theorem normalize_key_canonical:
  assumes "nfc_ok nfc"
  shows "normalize_key nfc (normalize_key nfc raw) = normalize_key nfc raw
    \<and> norm_key (normalize_key nfc raw)"
proof
  show "normalize_key nfc (normalize_key nfc raw) = normalize_key nfc raw"
    by (rule norm_key_fix) (rule normalize_norm_key, rule nfc_normalized[OF assms])
qed (rule normalize_norm_key)

definition fold_A :: "string \<Rightarrow> string" where
  "fold_A s = map (\<lambda>c. if c = CHR ''A'' then CHR ''B'' else c) s"

lemma fold_A_ok: "nfc_ok fold_A"
proof -
  have "split_on slash (fold_A s) = map fold_A (split_on slash s)" for s
  proof (induction s)
    case (Cons c s)
    then show ?case by (cases "split_on slash s") (auto simp: fold_A_def)
  qed (simp add: fold_A_def)
  then show ?thesis by (auto simp: nfc_ok_def fold_A_def)
qed

lemma normalize_key_canonical_witness:
  "normalize_key fold_A (normalize_key fold_A ''/A//x/'') = normalize_key fold_A ''/A//x/''
    \<and> norm_key (normalize_key fold_A ''/A//x/'')"
  by (rule normalize_key_canonical[OF fold_A_ok])

lemma check_key_segs_ok: "check_key k \<Longrightarrow> segs_ok k"
  by (auto simp: check_key_def list_all_iff)

lemma parent_under: "parent_key k \<noteq> [] \<Longrightarrow> under k (parent_key k)"
  by (auto simp: parent_key_def rsplit_once_Some under_iff split: option.splits)

lemma parent_leaf: "slash \<in> set k \<Longrightarrow> k = parent_key k @ slash # leaf_of k"
proof -
  assume "slash \<in> set k"
  then obtain a b where ab: "rsplit_once slash k = Some (a, b)"
    by (cases "rsplit_once slash k") (auto simp: rsplit_once_None)
  then have "leaf_of k = b" by (simp add: leaf_of_def rsplit_once_last)
  moreover have "parent_key k = a" using ab by (simp add: parent_key_def)
  ultimately show ?thesis using ab by (simp add: rsplit_once_Some)
qed

lemma leaf_no_slash [simp]: "slash \<notin> set (leaf_of k)"
  unfolding leaf_of_def by (rule split_on_pieces[OF last_in_set[OF split_on_not_Nil]])

lemma parent_top: "slash \<notin> set k \<Longrightarrow> parent_key k = [] \<and> leaf_of k = k"
  by (simp add: parent_key_def leaf_of_def split_on_no_sep rsplit_once_None[THEN iffD2])

lemma parent_key_append: "slash \<notin> set l \<Longrightarrow> parent_key (p @ slash # l) = p"
  using rsplit_once_Some[of slash "p @ slash # l" p l] by (simp add: parent_key_def)

lemma replace_chars_gone: "set r \<inter> cs = {} \<Longrightarrow> set (replace_chars cs r s) \<inter> cs = {}"
  by (auto simp: replace_chars_def split: if_splits)

definition copy_leaf :: "string \<Rightarrow> string \<Rightarrow> string \<Rightarrow> string" where
  "copy_leaf name device stamp =
     (let (stem, ext) = (case rsplit_once dot name of
            Some (s, e) \<Rightarrow> if s \<noteq> [] then (s, Some e) else (name, None)
          | None \<Rightarrow> (name, None));
          dev = replace_chars {slash, CHR 0x5C} ''_'' device
      in (case ext of
            Some e \<Rightarrow> stem @ '' (conflict from '' @ dev @ '' '' @ stamp @ '').'' @ e
          | None \<Rightarrow> stem @ '' (conflict from '' @ dev @ '' '' @ stamp @ '')''))"

lemma conflict_copy_key_eq:
  "conflict_copy_key key device stamp =
     (case rsplit_once slash key of
        Some (d, n) \<Rightarrow> d @ ''/'' @ copy_leaf n device stamp
      | None \<Rightarrow> copy_leaf key device stamp)"
  by (auto simp: conflict_copy_key_def copy_leaf_def Let_def split: option.splits prod.splits if_splits)

lemma copy_leaf_longer: "length (copy_leaf name device stamp) > length name"
  by (auto simp: copy_leaf_def Let_def rsplit_once_Some split: option.splits prod.splits if_splits)

lemma copy_leaf_no_slash:
  assumes "slash \<notin> set name" "slash \<notin> set stamp"
  shows "slash \<notin> set (copy_leaf name device stamp)"
proof -
  have "slash \<notin> set (replace_chars {slash, CHR 0x5C} ''_'' device)"
    using replace_chars_gone[of "''_''" "{slash, CHR 0x5C}" device] by auto
  then show ?thesis
    using assms by (auto simp: copy_leaf_def Let_def rsplit_once_Some split: option.splits prod.splits if_splits)
qed

text \<open>
  The Dropbox-style conflict copy of a key is a different key in the same
  directory, whatever the device is called: the device name cannot smuggle in a path
  separator, and a canonical key has a canonical copy.
\<close>
theorem conflict_copy_key_sibling:
  assumes "slash \<notin> set stamp"
  shows "conflict_copy_key key device stamp \<noteq> key
    \<and> parent_key (conflict_copy_key key device stamp) = parent_key key
    \<and> (segs_ok key \<longrightarrow> segs_ok (conflict_copy_key key device stamp))"
proof (cases "rsplit_once slash key")
  case None
  then have ns: "slash \<notin> set key" by (simp add: rsplit_once_None)
  let ?c = "copy_leaf key device stamp"
  have c: "slash \<notin> set ?c" "length ?c > length key"
    using copy_leaf_no_slash[OF ns assms] copy_leaf_longer by auto
  then show ?thesis
    using None ns by (auto simp: conflict_copy_key_eq parent_top split_on_no_sep)
next
  case (Some p)
  obtain d n where p: "p = (d, n)" by (cases p)
  then have key: "key = d @ slash # n" "slash \<notin> set n" using Some by (auto simp: rsplit_once_Some)
  let ?c = "copy_leaf n device stamp"
  have c: "slash \<notin> set ?c" "length ?c > length n"
    using copy_leaf_no_slash[OF key(2) assms] copy_leaf_longer by auto
  then show ?thesis
    using Some key unfolding p
    by (auto simp: conflict_copy_key_eq parent_key_append split_on_append split_on_no_sep)
qed

lemma conflict_copy_key_sibling_witness:
  "parent_key (conflict_copy_key ''a/notes.tar.gz'' ''my/pc'' ''2024-01-02 0304'') = ''a''
    \<and> segs_ok (conflict_copy_key ''a/notes.tar.gz'' ''my/pc'' ''2024-01-02 0304'')"
proof -
  let ?c = "conflict_copy_key ''a/notes.tar.gz'' ''my/pc'' ''2024-01-02 0304''"
  have st: "slash \<notin> set ''2024-01-02 0304''" by simp
  note sib = conflict_copy_key_sibling[OF st, of "''a/notes.tar.gz''" "''my/pc''"]
  have "segs_ok ''a/notes.tar.gz''" by simp
  with sib have "segs_ok ?c" by blast
  moreover have "parent_key ?c = parent_key ''a/notes.tar.gz''" using sib by blast
  moreover have "parent_key ''a/notes.tar.gz'' = ''a''"
    using parent_key_append[of "''notes.tar.gz''" "''a''"] by simp
  ultimately show ?thesis by simp
qed

lemma unreserved_not_percent: "unreserved n \<Longrightarrow> n \<noteq> 37"
  by (auto simp: unreserved_def)

lemma hexU_inj: "a < 16 \<Longrightarrow> b < 16 \<Longrightarrow> hexU a = hexU b \<Longrightarrow> a = b"
proof -
  have "distinct ''0123456789ABCDEF''" by simp
  then show "a < 16 \<Longrightarrow> b < 16 \<Longrightarrow> hexU a = hexU b \<Longrightarrow> a = b"
    unfolding hexU_def using nth_eq_iff_index_eq[of "''0123456789ABCDEF''" a b] by simp
qed

lemma hexU_not_slash: "n < 16 \<Longrightarrow> hexU n \<noteq> slash"
proof -
  assume "n < 16"
  then have "hexU n \<in> set ''0123456789ABCDEF''" unfolding hexU_def by (intro nth_mem) simp
  then show ?thesis by auto
qed

lemma encode_segment_Nil [simp]: "encode_segment [] = []"
  by (simp add: encode_segment_def)

lemma encode_segment_Cons:
  "encode_segment (c # s) =
     (if unreserved (of_char c) then [c]
      else [CHR ''%'', hexU (of_char c div 16), hexU (of_char c mod 16)]) @ encode_segment s"
  by (simp add: encode_segment_def Let_def)

lemma encode_segment_eq_Nil [simp]: "encode_segment s = [] \<longleftrightarrow> s = []"
  by (cases s) (auto simp: encode_segment_Cons)

lemma of_char_256: "(of_char c :: nat) < 256"
  by simp

lemma encode_segment_no_slash: "slash \<notin> set (encode_segment s)"
proof (induction s)
  case (Cons c s)
  have "unreserved (of_char c) \<Longrightarrow> c \<noteq> slash" by (auto simp: unreserved_def)
  moreover have "hexU (of_char c div 16) \<noteq> slash" "hexU (of_char c mod 16) \<noteq> slash"
    using of_char_256[of c] by (auto intro!: hexU_not_slash simp: div_less_iff_less_mult)
  ultimately show ?case using Cons by (auto simp: encode_segment_Cons)
qed simp

lemma encode_segment_inj: "encode_segment a = encode_segment b \<Longrightarrow> a = b"
proof (induction a arbitrary: b)
  case (Cons c a)
  then obtain d b' where b: "b = d # b'" by (cases b) (auto simp: encode_segment_Cons split: if_splits)
  have pc: "unreserved (of_char x) \<Longrightarrow> x \<noteq> CHR ''%''" for x by (auto simp: unreserved_def)
  have lt: "of_char x div 16 < (16 :: nat)" "of_char x mod 16 < (16 :: nat)" for x :: char
    using of_char_256[of x] by (auto simp: div_less_iff_less_mult)
  have "c = d"
  proof (cases "unreserved (of_char c) \<or> unreserved (of_char d)")
    case True
    then show ?thesis using Cons.prems pc unfolding b
      by (auto simp: encode_segment_Cons split: if_splits)
  next
    case False
    then have "hexU (of_char c div 16) = hexU (of_char d div 16)"
      "hexU (of_char c mod 16) = hexU (of_char d mod 16)"
      using Cons.prems unfolding b by (auto simp: encode_segment_Cons)
    then have "(of_char c :: nat) div 16 = of_char d div 16" "(of_char c :: nat) mod 16 = of_char d mod 16"
      using hexU_inj lt by blast+
    then have "(of_char c :: nat) = of_char d" by (metis div_mult_mod_eq)
    then show ?thesis by simp
  qed
  then show ?case using Cons unfolding b by (auto simp: encode_segment_Cons split: if_splits)
qed (metis encode_segment_Nil encode_segment_eq_Nil)

lemma encode_key_segs:
  assumes "segs_ok k"
  shows "split_on slash (encode_key k) = map encode_segment (split_on slash k)"
  unfolding encode_key_def segs_ok_filter[OF assms]
  using encode_segment_no_slash by (intro split_join_with) auto

text \<open>
  The URL path of a key keeps its slashes and loses nothing: on canonical keys
  encode_key is injective, and the request path has exactly the key's segments,
  each percent-encoded.
\<close>
theorem encode_key_injective:
  assumes "segs_ok a" "segs_ok b"
  shows "split_on slash (encode_key a) = map encode_segment (split_on slash a)
    \<and> (encode_key a = encode_key b \<longleftrightarrow> a = b)"
proof -
  have "encode_key a = encode_key b \<Longrightarrow> map encode_segment (split_on slash a) = map encode_segment (split_on slash b)"
    using assms by (metis encode_key_segs)
  moreover have "inj encode_segment" using encode_segment_inj by (auto simp: inj_def)
  ultimately show ?thesis
    using assms encode_key_segs by (metis inj_map_eq_map split_on_inj)
qed

lemma encode_key_injective_witness:
  "split_on slash (encode_key ''a b/c'') = map encode_segment (split_on slash ''a b/c'')
    \<and> (encode_key ''a b/c'' = encode_key ''a%20b/c'' \<longleftrightarrow> ''a b/c'' = ''a%20b/c'')"
  by (rule encode_key_injective) simp_all

lemma norm_path_loop_eq:
  "\<forall>s\<in>set segs. s \<noteq> [] \<Longrightarrow> length out > 1 \<Longrightarrow>
     norm_path_loop out segs = out @ concat (map (\<lambda>s. slash # s) segs)"
  by (induction out segs rule: norm_path_loop.induct) auto

lemma concat_slash_join:
  "xs \<noteq> [] \<Longrightarrow> concat (map (\<lambda>s. slash # s) xs) = slash # join_with ''/'' xs"
  by (induction xs rule: induct_list012) auto

lemma norm_path_eq:
  "norm_path p = slash # join_with ''/'' (filter (\<lambda>s. s \<noteq> []) (split_on slash p))"
proof (cases "filter (\<lambda>s. s \<noteq> []) (split_on slash p)")
  case (Cons x xs)
  have "set (x # xs) = set (filter (\<lambda>s. s \<noteq> []) (split_on slash p))" using Cons by simp
  then have ne: "x \<noteq> []" "\<forall>s\<in>set xs. s \<noteq> []" by auto
  then have "norm_path_loop ''/'' (x # xs) = (slash # x) @ concat (map (\<lambda>s. slash # s) xs)"
    using ne norm_path_loop_eq[of xs "slash # x"] by simp
  also have "\<dots> = slash # join_with ''/'' (x # xs)"
    using concat_slash_join[of "x # xs"] by simp
  finally show ?thesis using Cons by (simp add: norm_path_def)
qed (simp add: norm_path_def)

lemma norm_path_idem: "norm_path (norm_path p) = norm_path p"
  unfolding norm_path_eq using filter_split_join[of p]
  by (simp add: Let_def split: if_splits)

lemma home_key_norm_path: "norm_key k \<Longrightarrow> k \<noteq> [] \<Longrightarrow> norm_path k = slash # k"
  by (auto simp: norm_path_eq norm_key_def segs_ok_filter simp del: segs_ok.simps)

end
