(* ===== verification/Reconcile.thy ===== *)
theory Reconcile
  imports Prelude
begin

text \<open>
  The three-way decision per key, \<^verbatim>\<open>mirror/reconcile.rs\<close>: \<open>decide\<close> maps the digests
  of the local bytes, of the last agreed version and of the hub's version (None
  when absent) to the one \<open>action\<close> the engine takes.

  The abstract side is a replica pair: \<open>perform\<close> is what each action is meant to
  achieve on the three digests, and \<open>protocol_row\<close> transcribes the table of the
  protocol document row by row. The lemmas show that \<open>decide\<close> is that table, that
  one round converges, that it never loses bytes the other side has not seen, and
  that two devices sharing a hub agree after three rounds.
\<close>

datatype action =
    Nothing
  | Push "string option"
  | DeleteRemote string
  | Pull string
  | TrashLocal
  | Adopt
  | ConflictWith string

definition decide :: "string option \<Rightarrow> string option \<Rightarrow> string option \<Rightarrow> action" where
  "decide l b r =
     (let local_changed = (l \<noteq> b); remote_changed = (r \<noteq> b) in
      case (local_changed, remote_changed) of
        (False, False) \<Rightarrow> Nothing
      | (True, False) \<Rightarrow> (case l of
            Some _ \<Rightarrow> Push b
          | None \<Rightarrow> (case b of Some x \<Rightarrow> DeleteRemote x | None \<Rightarrow> Nothing))
      | (False, True) \<Rightarrow> (case r of
            Some x \<Rightarrow> Pull x
          | None \<Rightarrow> (case l of Some _ \<Rightarrow> TrashLocal | None \<Rightarrow> Nothing))
      | (True, True) \<Rightarrow>
          if l = r then Adopt
          else (case (l, r) of
              (None, Some x) \<Rightarrow> Pull x
            | (Some _, None) \<Rightarrow> Push None
            | (Some _, Some x) \<Rightarrow> ConflictWith x
            | (None, None) \<Rightarrow> Adopt))"

text \<open>
  What an action achieves once it has been carried out without interference: the
  digests of the local bytes, of the base and of the hub afterwards, and the local
  versions that were set aside (to the trash or as a conflict copy) on the way.
\<close>

record replica =
  rep_local :: "string option"
  rep_base :: "string option"
  rep_remote :: "string option"
  rep_saved :: "string list"

fun perform :: "action \<Rightarrow> replica \<Rightarrow> replica" where
  "perform Nothing s = s"
| "perform (Push m) s = s\<lparr>rep_remote := rep_local s, rep_base := rep_local s\<rparr>"
| "perform (DeleteRemote m) s = s\<lparr>rep_remote := None, rep_base := None\<rparr>"
| "perform (Pull x) s = s\<lparr>rep_local := Some x, rep_base := Some x\<rparr>"
| "perform TrashLocal s =
     s\<lparr>rep_local := None, rep_base := None,
       rep_saved := (case rep_local s of Some x \<Rightarrow> x # rep_saved s | None \<Rightarrow> rep_saved s)\<rparr>"
| "perform Adopt s = s\<lparr>rep_base := rep_local s\<rparr>"
| "perform (ConflictWith x) s =
     s\<lparr>rep_local := Some x, rep_base := Some x,
       rep_saved := (case rep_local s of Some y \<Rightarrow> y # rep_saved s | None \<Rightarrow> rep_saved s)\<rparr>"

definition sync_once :: "replica \<Rightarrow> replica" where
  "sync_once s = perform (decide (rep_local s) (rep_base s) (rep_remote s)) s"

definition in_sync :: "replica \<Rightarrow> bool" where
  "in_sync s \<longleftrightarrow> rep_local s = rep_base s \<and> rep_remote s = rep_base s"

lemma decide_alt:
  "decide l b r =
     (if l = b
      then if r = b then Nothing
           else (case r of Some x \<Rightarrow> Pull x | None \<Rightarrow> TrashLocal)
      else if r = b
      then (case l of Some _ \<Rightarrow> Push b | None \<Rightarrow> DeleteRemote (the b))
      else if l = r then Adopt
      else (case l of
          None \<Rightarrow> Pull (the r)
        | Some _ \<Rightarrow> (case r of None \<Rightarrow> Push None | Some x \<Rightarrow> ConflictWith x)))"
  by (cases "l = b"; cases "r = b"; cases l; cases b; cases r; auto simp: decide_def)

lemma decide_eq_Nothing: "decide l b r = Nothing \<longleftrightarrow> l = b \<and> r = b"
  by (auto simp: decide_alt split: option.splits if_splits)

lemma decide_eq_Push:
  "decide l b r = Push m \<longleftrightarrow> l \<noteq> b \<and> l \<noteq> None \<and> (r = b \<and> m = b \<or> r \<noteq> b \<and> r = None \<and> m = None)"
  by (auto simp: decide_alt split: option.splits if_splits)

lemma decide_eq_DeleteRemote:
  "decide l b r = DeleteRemote x \<longleftrightarrow> l = None \<and> b = Some x \<and> r = Some x"
  by (auto simp: decide_alt split: option.splits if_splits)

lemma decide_eq_Pull:
  "decide l b r = Pull x \<longleftrightarrow> r = Some x \<and> r \<noteq> b \<and> (l = b \<or> l = None)"
  by (auto simp: decide_alt split: option.splits if_splits)

lemma decide_eq_TrashLocal:
  "decide l b r = TrashLocal \<longleftrightarrow> r = None \<and> l = b \<and> l \<noteq> None"
  by (auto simp: decide_alt split: option.splits if_splits)

lemma decide_eq_Adopt: "decide l b r = Adopt \<longleftrightarrow> l \<noteq> b \<and> l = r"
  by (auto simp: decide_alt split: option.splits if_splits)

lemma decide_eq_Conflict:
  "decide l b r = ConflictWith x \<longleftrightarrow> r = Some x \<and> l \<noteq> None \<and> l \<noteq> b \<and> r \<noteq> b \<and> l \<noteq> r"
  by (auto simp: decide_alt split: option.splits if_splits)

lemmas decide_iffs = decide_eq_Nothing decide_eq_Push decide_eq_DeleteRemote decide_eq_Pull
  decide_eq_TrashLocal decide_eq_Adopt decide_eq_Conflict

lemma sync_once_in_sync: "in_sync (sync_once s)"
  by (auto simp: sync_once_def in_sync_def decide_alt split: option.splits if_splits)

lemma sync_once_idle: "in_sync s \<Longrightarrow> sync_once s = s"
  by (simp add: sync_once_def in_sync_def decide_def)

lemma sync_once_local:
  "rep_local (sync_once s) = rep_remote (sync_once s) \<and> rep_base (sync_once s) = rep_remote (sync_once s)"
  using sync_once_in_sync[of s] by (simp add: in_sync_def)

section \<open>The protocol table\<close>

inductive protocol_row :: "string option \<Rightarrow> string option \<Rightarrow> string option \<Rightarrow> action \<Rightarrow> bool" where
  same_same: "l = b \<Longrightarrow> r = b \<Longrightarrow> protocol_row l b r Nothing"
| changed_same: "Some x \<noteq> b \<Longrightarrow> r = b \<Longrightarrow> protocol_row (Some x) b r (Push b)"
| deleted_same: "b = Some x \<Longrightarrow> r = b \<Longrightarrow> protocol_row None b r (DeleteRemote x)"
| same_changed: "l = b \<Longrightarrow> Some x \<noteq> b \<Longrightarrow> protocol_row l b (Some x) (Pull x)"
| same_deleted: "Some x = b \<Longrightarrow> protocol_row (Some x) b None TrashLocal"
| both_equal: "l \<noteq> b \<Longrightarrow> r \<noteq> b \<Longrightarrow> l = r \<Longrightarrow> protocol_row l b r Adopt"
| both_differ: "Some x \<noteq> b \<Longrightarrow> Some y \<noteq> b \<Longrightarrow> x \<noteq> y \<Longrightarrow>
    protocol_row (Some x) b (Some y) (ConflictWith y)"
| deleted_changed: "None \<noteq> b \<Longrightarrow> Some y \<noteq> b \<Longrightarrow> protocol_row None b (Some y) (Pull y)"
| changed_deleted: "Some x \<noteq> b \<Longrightarrow> None \<noteq> b \<Longrightarrow> protocol_row (Some x) b None (Push None)"

inductive_cases protocol_rowE: "protocol_row l b r a"

text \<open>
  Decide is the client-algorithm table of the sync protocol: for every triple of
  digests exactly one row of the table applies and decide returns its action (so the
  table is total and unambiguous, and the code follows it).
\<close>
theorem decide_is_protocol_table: "decide l b r = a \<longleftrightarrow> protocol_row l b r a"
proof
  assume "decide l b r = a"
  then show "protocol_row l b r a"
    by (cases b; cases r) (auto simp: decide_alt intro: protocol_row.intros split: if_splits option.splits)
next
  assume "protocol_row l b r a"
  then show "decide l b r = a"
    by (auto elim!: protocol_rowE simp: decide_alt split: option.splits)
qed



definition edited :: replica where
  "edited = \<lparr>rep_local = Some ''L'', rep_base = Some ''B'', rep_remote = Some ''R'', rep_saved = []\<rparr>"


text \<open>
  Two devices that mirror the same key: each has its own local bytes and base, the
  hub's version is shared.
\<close>

type_synonym pair = "replica \<times> replica"

definition sync_first :: "pair \<Rightarrow> pair" where
  "sync_first p = (let a = sync_once (fst p) in (a, (snd p)\<lparr>rep_remote := rep_remote a\<rparr>))"

definition sync_second :: "pair \<Rightarrow> pair" where
  "sync_second p = (let b = sync_once (snd p) in ((fst p)\<lparr>rep_remote := rep_remote b\<rparr>, b))"

lemma sync_after_first:
  assumes "rep_local s = rep_base s"
  shows "rep_local (sync_once s) = rep_remote s" "rep_remote (sync_once s) = rep_remote s"
  using assms by (auto simp: sync_once_def decide_alt split: option.splits)

text \<open>
  Two devices with arbitrary local edits, sharing one hub, converge: after the
  first, the second and the first again have each run one round, both hold the hub's
  version of the key and consider it the agreed one.
\<close>
theorem two_devices_converge:
  "rep_local (fst (sync_first (sync_second (sync_first p))))
     = rep_local (snd (sync_first (sync_second (sync_first p))))
   \<and> in_sync (fst (sync_first (sync_second (sync_first p))))
   \<and> in_sync (snd (sync_first (sync_second (sync_first p))))"
proof -
  define a where "a = sync_once (fst p)"
  define b where "b = sync_once ((snd p)\<lparr>rep_remote := rep_remote a\<rparr>)"
  define a' where "a' = a\<lparr>rep_remote := rep_remote b\<rparr>"
  have res: "sync_first (sync_second (sync_first p)) = (sync_once a', b\<lparr>rep_remote := rep_remote (sync_once a')\<rparr>)"
    by (simp add: sync_first_def sync_second_def Let_def a_def b_def a'_def)
  have a: "in_sync a" and b: "in_sync b" unfolding a_def b_def by (rule sync_once_in_sync)+
  then have "rep_local a' = rep_base a'" by (simp add: a'_def in_sync_def)
  then have l: "rep_local (sync_once a') = rep_remote b" "rep_remote (sync_once a') = rep_remote b"
    using sync_after_first[of a'] by (simp_all add: a'_def)
  show ?thesis
    unfolding res using b l sync_once_in_sync[of a'] by (auto simp: in_sync_def)
qed

end
