(* ===== verification/Hub.thy ===== *)
theory Hub
  imports Keys
begin

text \<open>
  The objects-protocol client, \<^verbatim>\<open>mirror/hub.rs\<close>: requests out, typed answers and the
  error classes of \<open>hub_error\<close> in.

  The server is not part of the repository: it is the parameter \<open>net\<close>, a function that
  takes a request and the server's state to an answer (None: the transport failed) and
  the state after it. JSON is the datatype \<open>json\<close>; of a float the program only ever asks
  the integer part. Unicode lower-casing and the RFC 3339 parser are the parameters
  \<open>lower\<close> and \<open>rfc3339\<close>.

  \<open>hub_api\<close> is the interface the sync engine is written against; \<open>http_hub\<close> is this
  client as an instance of it.
\<close>

section \<open>JSON\<close>

datatype json =
    JNull
  | JBool bool
  | JNat nat
  | JFloat int
  | JStr string
  | JArr "json list"
  | JObj "(string \<times> json) list"

fun jget :: "string \<Rightarrow> json \<Rightarrow> json option" where
  "jget k (JObj kvs) = map_of kvs k"
| "jget k _ = None"

fun as_str :: "json \<Rightarrow> string option" where
  "as_str (JStr s) = Some s"
| "as_str _ = None"

fun as_u64 :: "json \<Rightarrow> nat option" where
  "as_u64 (JNat n) = Some n"
| "as_u64 _ = None"

fun as_bool :: "json \<Rightarrow> bool option" where
  "as_bool (JBool b) = Some b"
| "as_bool _ = None"

fun as_array :: "json \<Rightarrow> json list option" where
  "as_array (JArr xs) = Some xs"
| "as_array _ = None"

definition jstr :: "string \<Rightarrow> json \<Rightarrow> string option" where
  "jstr k v = Option.bind (jget k v) as_str"

definition jnat :: "string \<Rightarrow> json \<Rightarrow> nat option" where
  "jnat k v = Option.bind (jget k v) as_u64"

fun or_default :: "'a \<Rightarrow> 'a option \<Rightarrow> 'a" where
  "or_default d None = d"
| "or_default d (Some x) = x"

section \<open>Wire records\<close>

record remote_stat =
  r_sha256 :: string
  r_size :: nat
  r_mtime :: nat

record listed_object =
  lo_key :: string
  lo_sha256 :: string
  lo_size :: nat
  lo_mtime :: nat

record listing =
  ls_objects :: "listed_object list"
  ls_cursor :: "string option"
  ls_head :: nat

datatype change_op = OpPut | OpDelete | OpRename

record change =
  ch_seq :: nat
  ch_op :: change_op
  ch_key :: string
  ch_from :: "string option"
  ch_sha256 :: "string option"
  ch_size :: nat
  ch_mtime :: nat
  ch_origin :: "string option"

record changes =
  cs_changes :: "change list"
  cs_head :: nat
  cs_oldest :: nat

record put_options =
  po_if_match :: "string option"
  po_if_none_match_any :: bool
  po_sha256 :: "string option"
  po_mtime :: "nat option"
  po_conflict_of :: "string option"
  po_conflict_mode :: "conflict_mode option"
  po_base_sha256 :: "string option"
  po_content_type :: "string option"

definition no_put_options :: put_options where
  "no_put_options = \<lparr>po_if_match = None, po_if_none_match_any = False, po_sha256 = None,
     po_mtime = None, po_conflict_of = None, po_conflict_mode = None, po_base_sha256 = None,
     po_content_type = None\<rparr>"

record put_result =
  pr_key :: string
  pr_sha256 :: string
  pr_size :: nat
  pr_mtime :: nat
  pr_seq :: nat
  pr_unchanged :: bool
  pr_doc_id :: "nat option"

datatype hub_error =
    Offline string
  | Unauthorized
  | UnsafeMirror string
  | PreconditionFailed "remote_stat option"
  | CursorTooOld nat nat
  | HubNotFound
  | TargetExists
  | Refused nat "string option" string
  | Retryable nat string
  | OtherHub string
  | LocalChanged string
  | Protected string

definition quoted :: "string \<Rightarrow> string" where
  "quoted s = [CHR 0x22] @ s @ [CHR 0x22]"

definition show_stat :: "remote_stat option \<Rightarrow> string" where
  "show_stat st = (case st of None \<Rightarrow> ''None''
     | Some r \<Rightarrow> ''Some(RemoteStat { sha256: '' @ quoted (r_sha256 r) @ '', size: '' @ show_nat (r_size r)
         @ '', mtime: '' @ show_nat (r_mtime r) @ '' })'')"

fun show_error :: "hub_error \<Rightarrow> string" where
  "show_error (Offline t) = ''offline: '' @ t"
| "show_error Unauthorized = ''unauthorized''"
| "show_error (UnsafeMirror t) = ''unsafe mirror: '' @ t"
| "show_error (PreconditionFailed st) = ''precondition failed (current: '' @ show_stat st @ '')''"
| "show_error (CursorTooOld oldest latest) =
     ''cursor too old (oldest '' @ show_nat oldest @ '', head '' @ show_nat latest @ '')''"
| "show_error HubNotFound = ''not found''"
| "show_error TargetExists = ''target exists''"
| "show_error (Refused s c t) = ''refused: HTTP '' @ show_nat s @ '' '' @ or_default [] c @ '' '' @ t"
| "show_error (Retryable s t) = ''HTTP '' @ show_nat s @ '': '' @ t"
| "show_error (OtherHub t) = t"
| "show_error (LocalChanged k) = k @ '': changed locally during download''"
| "show_error (Protected k) = k @ '': deferred by protected mirror mode''"

fun is_offline :: "hub_error \<Rightarrow> bool" where
  "is_offline (Offline _) = True"
| "is_offline _ = False"

fun is_permanent :: "hub_error \<Rightarrow> bool" where
  "is_permanent (Refused _ _ _) = True"
| "is_permanent HubNotFound = True"
| "is_permanent TargetExists = True"
| "is_permanent _ = False"

section \<open>Requests and answers\<close>

datatype http_body = NoBody | JsonBody json | ByteBody string

record request =
  rq_method :: string
  rq_url :: string
  rq_headers :: "(string \<times> string) list"
  rq_body :: http_body

record response =
  rs_status :: nat
  rs_headers :: "(string \<times> string) list"
  rs_json :: "json option"
  rs_bytes :: string

type_synonym 'h net = "request \<Rightarrow> 'h \<Rightarrow> response option \<times> 'h"

record client =
  hc_base :: string
  hc_token :: string
  hc_ws :: string
  hc_backend :: string
  hc_device_id :: string
  hc_device_name :: string
  hc_lower :: "string \<Rightarrow> string"
  hc_rfc3339 :: "string \<Rightarrow> int option"

definition client_new :: "string \<Rightarrow> string \<Rightarrow> string \<Rightarrow> string \<Rightarrow> device_identity
    \<Rightarrow> (string \<Rightarrow> string) \<Rightarrow> (string \<Rightarrow> int option) \<Rightarrow> client" where
  "client_new server token ws_id backend device lower rfc3339 =
     \<lparr>hc_base = trim_end_with (\<lambda>c. c = slash) server, hc_token = token, hc_ws = ws_id,
      hc_backend = backend, hc_device_id = dev_id device, hc_device_name = dev_name device,
      hc_lower = lower, hc_rfc3339 = rfc3339\<rparr>"

abbreviation RETRIES :: nat where "RETRIES \<equiv> 3"

fun parse_nat_acc :: "nat \<Rightarrow> string \<Rightarrow> nat option" where
  "parse_nat_acc n [] = Some n"
| "parse_nat_acc n (c # cs) =
     (if is_digit c then parse_nat_acc (10 * n + (of_char c - 48)) cs else None)"

definition parse_nat :: "string \<Rightarrow> nat option" where
  "parse_nat s =
     (let ds = (case s of CHR ''+'' # r \<Rightarrow> r | _ \<Rightarrow> s) in
      if ds = [] then None
      else case parse_nat_acc 0 ds of Some n \<Rightarrow> if n < 2 ^ 64 then Some n else None | None \<Rightarrow> None)"

definition parse_ms :: "client \<Rightarrow> json option \<Rightarrow> nat" where
  "parse_ms c v =
     (case v of
        Some (JNat n) \<Rightarrow> n
      | Some (JFloat i) \<Rightarrow> nat (min i (2 ^ 64 - 1))
      | Some (JStr s) \<Rightarrow> (case parse_nat s of
            Some n \<Rightarrow> n
          | None \<Rightarrow> (case hc_rfc3339 c s of Some d \<Rightarrow> nat d | None \<Rightarrow> 0))
      | _ \<Rightarrow> 0)"

definition parse_stat :: "client \<Rightarrow> json \<Rightarrow> remote_stat option" where
  "parse_stat c v =
     (case jstr ''sha256'' v of None \<Rightarrow> None
      | Some s \<Rightarrow> Some \<lparr>r_sha256 = hc_lower c s, r_size = or_default 0 (jnat ''size'' v),
                        r_mtime = parse_ms c (jget ''mtime'' v)\<rparr>)"

definition etag_of :: "client \<Rightarrow> (string \<times> string) list \<Rightarrow> string option" where
  "etag_of c hs =
     (case (case map_of hs ''x-canvas-sha256'' of
              Some s \<Rightarrow> if s \<noteq> [] then Some (hc_lower c s) else None | None \<Rightarrow> None) of
        Some s \<Rightarrow> Some s
      | None \<Rightarrow> map_option (\<lambda>s. hc_lower c (trim_with (\<lambda>x. x = CHR 0x22)
            (trim_start_seqs [''W/''] s))) (map_of hs ''etag''))"

definition stat_from_headers :: "client \<Rightarrow> (string \<times> string) list \<Rightarrow> remote_stat option" where
  "stat_from_headers c hs =
     (case etag_of c hs of None \<Rightarrow> None
      | Some sha \<Rightarrow>
          let size = (case Option.bind (map_of hs ''x-canvas-size'') parse_nat of
                 Some n \<Rightarrow> n
               | None \<Rightarrow> or_default 0 (Option.bind (map_of hs ''content-length'') parse_nat));
              mtime = or_default 0 (Option.bind (map_of hs ''x-canvas-mtime'') parse_nat)
          in Some \<lparr>r_sha256 = sha, r_size = size, r_mtime = mtime\<rparr>)"

definition classify :: "client \<Rightarrow> response \<Rightarrow> hub_error" where
  "classify c resp =
     (let body = or_default JNull (rs_json resp);
          code = jstr ''code'' body;
          message = or_default [] (jstr ''message'' body);
          payload = or_default JNull (jget ''payload'' body);
          s = rs_status resp
      in if s = 401 then Unauthorized
         else if s = 404 then HubNotFound
         else if s = 409 \<and> code = Some ''TARGET_EXISTS'' then TargetExists
         else if s = 410 then CursorTooOld (or_default 0 (jnat ''oldest'' payload)) (or_default 0 (jnat ''head'' payload))
         else if s = 412 then PreconditionFailed (Option.bind (jget ''current'' payload) (parse_stat c))
         else if s = 429 \<or> 500 \<le> s \<and> s \<le> 599 then Retryable s message
         else Refused s code message)"

text \<open>\<^verbatim>\<open>with_retries\<close>: the loop over the attempts, with what the last failed one answered.\<close>

fun retry_loop :: "client \<Rightarrow> 'h net \<Rightarrow> request \<Rightarrow> nat \<Rightarrow> hub_error option \<Rightarrow> 'h \<Rightarrow> (hub_error + response) \<times> 'h" where
  "retry_loop c net rq 0 lst h = (Inl (or_default (OtherHub ''retries exhausted'') lst), h)"
| "retry_loop c net rq (Suc n) lst h =
     (case net (rq\<lparr>rq_headers := (''authorization'', ''Bearer '' @ hc_token c) # rq_headers rq\<rparr>) h of
        (None, h') \<Rightarrow> (Inl (Offline ''transport''), h')
      | (Some resp, h') \<Rightarrow>
          if rs_status resp = 429 \<or> 500 \<le> rs_status resp \<and> rs_status resp < 600
          then retry_loop c net rq n (Some (classify c resp)) h'
          else (Inr resp, h'))"

definition with_retries :: "client \<Rightarrow> 'h net \<Rightarrow> request \<Rightarrow> 'h \<Rightarrow> (hub_error + response) \<times> 'h" where
  "with_retries c net rq h = retry_loop c net rq RETRIES None h"

definition is_success :: "nat \<Rightarrow> bool" where
  "is_success s \<longleftrightarrow> 200 \<le> s \<and> s < 300"

definition json_ok :: "client \<Rightarrow> response \<Rightarrow> hub_error + json" where
  "json_ok c resp =
     (if \<not> is_success (rs_status resp) then Inl (classify c resp)
      else case rs_json resp of Some v \<Rightarrow> Inr v | None \<Rightarrow> Inl (OtherHub ''invalid JSON''))"

definition call_json :: "client \<Rightarrow> 'h net \<Rightarrow> request \<Rightarrow> 'h \<Rightarrow> (hub_error + json) \<times> 'h" where
  "call_json c net rq h =
     (case with_retries c net rq h of
        (Inl e, h') \<Rightarrow> (Inl e, h')
      | (Inr resp, h') \<Rightarrow> (json_ok c resp, h'))"

definition payload_of :: "json \<Rightarrow> json" where
  "payload_of body = or_default JNull (jget ''payload'' body)"

definition rq :: "string \<Rightarrow> string \<Rightarrow> (string \<times> string) list \<Rightarrow> http_body \<Rightarrow> request" where
  "rq m u hs b = \<lparr>rq_method = m, rq_url = u, rq_headers = hs, rq_body = b\<rparr>"

definition backend_url :: "client \<Rightarrow> string" where
  "backend_url c = hc_base c @ ''/rest/v2/workspaces/'' @ encode_segment (hc_ws c)
     @ ''/backends/file/'' @ encode_segment (hc_backend c)"

definition object_url :: "client \<Rightarrow> string \<Rightarrow> string" where
  "object_url c key = backend_url c @ ''/objects/'' @ encode_key key"

section \<open>Identity and configuration\<close>

definition ping :: "client \<Rightarrow> 'h net \<Rightarrow> 'h \<Rightarrow> (hub_error + json) \<times> 'h" where
  "ping c net h =
     (case call_json c net (rq ''GET'' (hc_base c @ ''/rest/v2/ping'') [] NoBody) h of
        (r, h') \<Rightarrow> (map_sum id payload_of r, h'))"

definition instance_id :: "client \<Rightarrow> 'h net \<Rightarrow> 'h \<Rightarrow> (hub_error + string option) \<times> 'h" where
  "instance_id c net h =
     (case ping c net h of (r, h') \<Rightarrow> (map_sum id (jstr ''instanceId'') r, h'))"

definition exclusions_of :: "json \<Rightarrow> string list" where
  "exclusions_of body =
     (let payload = payload_of body;
          payload = or_default payload (jget ''backend'' payload);
          lst = (case Option.bind (jget ''config'' payload) (jget ''effectiveExclusions'') of
                   Some v \<Rightarrow> Some v | None \<Rightarrow> jget ''effectiveExclusions'' payload)
      in case Option.bind lst as_array of
           None \<Rightarrow> []
         | Some a \<Rightarrow> concat (map (\<lambda>v. case as_str v of Some s \<Rightarrow> [s] | None \<Rightarrow> []) a))"

definition exclusions :: "client \<Rightarrow> 'h net \<Rightarrow> 'h \<Rightarrow> (hub_error + string list) \<times> 'h" where
  "exclusions c net h =
     (case call_json c net (rq ''GET'' (backend_url c) [] NoBody) h of
        (r, h') \<Rightarrow> (map_sum id exclusions_of r, h'))"

section \<open>Listing and change feed\<close>

definition parse_object :: "client \<Rightarrow> json \<Rightarrow> listed_object list" where
  "parse_object c ob =
     (case jstr ''key'' ob of None \<Rightarrow> []
      | Some k \<Rightarrow> [\<lparr>lo_key = k, lo_sha256 = hc_lower c (or_default [] (jstr ''sha256'' ob)),
                     lo_size = or_default 0 (jnat ''size'' ob), lo_mtime = parse_ms c (jget ''mtime'' ob)\<rparr>])"

definition parse_listing :: "client \<Rightarrow> json \<Rightarrow> listing" where
  "parse_listing c body =
     (let payload = payload_of body
      in \<lparr>ls_objects = (case Option.bind (jget ''objects'' payload) as_array of
              None \<Rightarrow> [] | Some a \<Rightarrow> concat (map (parse_object c) a)),
          ls_cursor = (case jstr ''cursor'' payload of
              Some s \<Rightarrow> if s \<noteq> [] then Some s else None | None \<Rightarrow> None),
          ls_head = or_default 0 (jnat ''head'' payload)\<rparr>)"

definition list_objects ::
    "client \<Rightarrow> 'h net \<Rightarrow> string \<Rightarrow> string option \<Rightarrow> nat \<Rightarrow> 'h \<Rightarrow> (hub_error + listing) \<times> 'h" where
  "list_objects c net pre cur limit h =
     (let url = backend_url c @ ''/objects?prefix='' @ encode_segment pre @ ''&limit='' @ show_nat limit;
          url = (case cur of Some x \<Rightarrow> url @ ''&cursor='' @ encode_segment x | None \<Rightarrow> url)
      in case call_json c net (rq ''GET'' url [] NoBody) h of
        (r, h') \<Rightarrow> (map_sum id (parse_listing c) r, h'))"

definition parse_op :: "string \<Rightarrow> change_op option" where
  "parse_op s = (if s = ''put'' then Some OpPut else if s = ''delete'' then Some OpDelete
     else if s = ''rename'' then Some OpRename else None)"

definition parse_change :: "client \<Rightarrow> json \<Rightarrow> change list" where
  "parse_change c v =
     (case Option.bind (jstr ''op'' v) parse_op of None \<Rightarrow> []
      | Some op \<Rightarrow> (case jnat ''seq'' v of None \<Rightarrow> []
      | Some seq \<Rightarrow> (case jstr ''key'' v of None \<Rightarrow> []
      | Some key \<Rightarrow>
          [\<lparr>ch_seq = seq, ch_op = op, ch_key = key, ch_from = jstr ''from'' v,
            ch_sha256 = (case jstr ''sha256'' v of
               Some s \<Rightarrow> if s \<noteq> [] then Some (hc_lower c s) else None | None \<Rightarrow> None),
            ch_size = or_default 0 (jnat ''size'' v), ch_mtime = parse_ms c (jget ''mtime'' v),
            ch_origin = jstr ''origin'' v\<rparr>])))"

definition parse_changes :: "client \<Rightarrow> json \<Rightarrow> changes" where
  "parse_changes c body =
     (let payload = payload_of body
      in \<lparr>cs_changes = (case Option.bind (jget ''changes'' payload) as_array of
              None \<Rightarrow> [] | Some a \<Rightarrow> concat (map (parse_change c) a)),
          cs_head = or_default 0 (jnat ''head'' payload),
          cs_oldest = or_default 0 (jnat ''oldest'' payload)\<rparr>)"

definition get_changes :: "client \<Rightarrow> 'h net \<Rightarrow> nat \<Rightarrow> nat \<Rightarrow> 'h \<Rightarrow> (hub_error + changes) \<times> 'h" where
  "get_changes c net since limit h =
     (case call_json c net (rq ''GET'' (backend_url c @ ''/changes?since='' @ show_nat since
            @ ''&limit='' @ show_nat limit) [] NoBody) h of
        (r, h') \<Rightarrow> (map_sum id (parse_changes c) r, h'))"

section \<open>Objects\<close>

definition head_object :: "client \<Rightarrow> 'h net \<Rightarrow> string \<Rightarrow> 'h \<Rightarrow> (hub_error + remote_stat option) \<times> 'h" where
  "head_object c net key h =
     (case with_retries c net (rq ''HEAD'' (object_url c key) [] NoBody) h of
        (Inl e, h') \<Rightarrow> (Inl e, h')
      | (Inr resp, h') \<Rightarrow>
          if rs_status resp = 404 then (Inr None, h')
          else if \<not> is_success (rs_status resp) then (Inl (classify c resp), h')
          else (Inr (stat_from_headers c (rs_headers resp)), h'))"

definition get_object ::
    "client \<Rightarrow> 'h net \<Rightarrow> string \<Rightarrow> nat option \<Rightarrow> 'h \<Rightarrow> (hub_error + response \<times> string option) \<times> 'h" where
  "get_object c net key start h =
     (let hs = (case start of Some n \<Rightarrow> [(''range'', ''bytes='' @ show_nat n @ ''-'')] | None \<Rightarrow> [])
      in case with_retries c net (rq ''GET'' (object_url c key) hs NoBody) h of
        (Inl e, h') \<Rightarrow> (Inl e, h')
      | (Inr resp, h') \<Rightarrow>
          if \<not> is_success (rs_status resp) then (Inl (classify c resp), h')
          else (Inr (resp, etag_of c (rs_headers resp)), h'))"

definition get_range ::
    "client \<Rightarrow> 'h net \<Rightarrow> string \<Rightarrow> nat \<Rightarrow> nat \<Rightarrow> 'h \<Rightarrow> (hub_error + string) \<times> 'h" where
  "get_range c net key start stop h =
     (case with_retries c net (rq ''GET'' (object_url c key)
          [(''range'', ''bytes='' @ show_nat start @ ''-'' @ show_nat stop)] NoBody) h of
        (Inl e, h') \<Rightarrow> (Inl e, h')
      | (Inr resp, h') \<Rightarrow>
          if \<not> is_success (rs_status resp) then (Inl (classify c resp), h')
          else if rs_status resp = 206 then (Inr (rs_bytes resp), h')
          else (let b = rs_bytes resp; lo = min start (length b);
                    hi = min (min (stop + 1) (2 ^ 64 - 1)) (length b)
                in (Inr (drop lo (take hi b)), h')))"

definition put_headers :: "client \<Rightarrow> put_options \<Rightarrow> (string \<times> string) list" where
  "put_headers c po =
     [(''x-canvas-origin'', hc_device_id c)]
     @ (case po_if_match po of Some m \<Rightarrow> [(''if-match'', [CHR 0x22] @ m @ [CHR 0x22])] | None \<Rightarrow> [])
     @ (if po_if_none_match_any po then [(''if-none-match'', ''*'')] else [])
     @ (case po_sha256 po of Some s \<Rightarrow> [(''x-canvas-sha256'', s)] | None \<Rightarrow> [])
     @ (case po_mtime po of Some t \<Rightarrow> [(''x-canvas-mtime'', show_nat t)] | None \<Rightarrow> [])
     @ (case po_conflict_of po of None \<Rightarrow> []
        | Some k \<Rightarrow> [(''x-canvas-conflict-of'', k), (''x-canvas-device-name'', hc_device_name c)]
            @ (case po_conflict_mode po of
                 Some Prompt \<Rightarrow> [(''x-canvas-conflict-mode'', ''inbox'')]
               | Some RenameCopy \<Rightarrow> [(''x-canvas-conflict-mode'', ''rename'')]
               | None \<Rightarrow> [])
            @ (case po_base_sha256 po of Some b \<Rightarrow> [(''x-canvas-base-sha256'', b)] | None \<Rightarrow> []))
     @ [(''content-type'', or_default ''application/octet-stream'' (po_content_type po))]"

definition parse_put :: "client \<Rightarrow> string \<Rightarrow> json \<Rightarrow> put_result" where
  "parse_put c key body =
     (let p = payload_of body
      in \<lparr>pr_key = or_default key (jstr ''key'' p),
          pr_sha256 = hc_lower c (or_default [] (jstr ''sha256'' p)),
          pr_size = or_default 0 (jnat ''size'' p), pr_mtime = parse_ms c (jget ''mtime'' p),
          pr_seq = or_default 0 (jnat ''seq'' p),
          pr_unchanged = or_default False (Option.bind (jget ''unchanged'' p) as_bool),
          pr_doc_id = jnat ''docId'' p\<rparr>)"

definition put_object ::
    "client \<Rightarrow> 'h net \<Rightarrow> string \<Rightarrow> string \<Rightarrow> put_options \<Rightarrow> 'h \<Rightarrow> (hub_error + put_result) \<times> 'h" where
  "put_object c net key body po h =
     (case call_json c net (rq ''PUT'' (object_url c key) (put_headers c po) (ByteBody body)) h of
        (r, h') \<Rightarrow> (map_sum id (parse_put c key) r, h'))"

definition delete_object :: "client \<Rightarrow> 'h net \<Rightarrow> string \<Rightarrow> string option \<Rightarrow> 'h \<Rightarrow> (hub_error + unit) \<times> 'h" where
  "delete_object c net key if_match h =
     (let hs = [(''x-canvas-origin'', hc_device_id c)]
            @ (case if_match of Some m \<Rightarrow> [(''if-match'', [CHR 0x22] @ m @ [CHR 0x22])] | None \<Rightarrow> [])
      in case call_json c net (rq ''DELETE'' (object_url c key) hs NoBody) h of
        (r, h') \<Rightarrow> (map_sum id (\<lambda>_. ()) r, h'))"

definition rename_object ::
    "client \<Rightarrow> 'h net \<Rightarrow> string \<Rightarrow> string \<Rightarrow> string option \<Rightarrow> 'h \<Rightarrow> (hub_error + unit) \<times> 'h" where
  "rename_object c net src dst if_match h =
     (let body = JObj ([(''from'', JStr src), (''to'', JStr dst), (''origin'', JStr (hc_device_id c))]
            @ (case if_match of Some m \<Rightarrow> [(''ifMatch'', JStr m)] | None \<Rightarrow> []))
      in case call_json c net (rq ''POST'' (backend_url c @ ''/objects/rename'')
            [(''x-canvas-origin'', hc_device_id c)] (JsonBody body)) h of
        (r, h') \<Rightarrow> (map_sum id (\<lambda>_. ()) r, h'))"

section \<open>Directories and status\<close>

definition rename_directory ::
    "client \<Rightarrow> 'h net \<Rightarrow> string \<Rightarrow> string \<Rightarrow> string \<Rightarrow> 'h \<Rightarrow> (hub_error + unit) \<times> 'h" where
  "rename_directory c net src dst op h =
     (case call_json c net (rq ''POST'' (backend_url c @ ''/objects/rename'') []
          (JsonBody (JObj [(''from'', JStr src), (''to'', JStr dst), (''directory'', JBool True),
             (''operationId'', JStr op), (''origin'', JStr (hc_device_id c))]))) h of
        (Inl e, h') \<Rightarrow> (Inl e, h')
      | (Inr p, h') \<Rightarrow>
          if Option.bind (jget ''directory'' (or_default p (jget ''payload'' p))) as_bool = Some True
          then (Inr (), h')
          else (Inl (OtherHub ''hub did not acknowledge a directory rename; update the server''), h'))"

definition home_url :: "client \<Rightarrow> string \<Rightarrow> string" where
  "home_url c leaf = hc_base c @ ''/rest/v2/workspaces/'' @ encode_segment (hc_ws c) @ ''/home/'' @ leaf"

definition hub_mkdir :: "client \<Rightarrow> 'h net \<Rightarrow> string \<Rightarrow> 'h \<Rightarrow> (hub_error + unit) \<times> 'h" where
  "hub_mkdir c net key h =
     (case call_json c net (rq ''POST'' (home_url c ''mkdir'') [] (JsonBody (JObj [(''path'', JStr key)]))) h of
        (r, h') \<Rightarrow> (map_sum id (\<lambda>_. ()) r, h'))"

definition hub_rmdir :: "client \<Rightarrow> 'h net \<Rightarrow> string \<Rightarrow> 'h \<Rightarrow> (hub_error + unit) \<times> 'h" where
  "hub_rmdir c net key h =
     (case call_json c net (rq ''POST'' (home_url c ''rmdir'') [] (JsonBody (JObj [(''path'', JStr key)]))) h of
        (Inl HubNotFound, h') \<Rightarrow>
          (Inl (OtherHub ''hub does not support safe empty-directory removal; update the server''), h')
      | (r, h') \<Rightarrow> (map_sum id (\<lambda>_. ()) r, h'))"

definition report_status :: "client \<Rightarrow> 'h net \<Rightarrow> json \<Rightarrow> 'h \<Rightarrow> (hub_error + nat) \<times> 'h" where
  "report_status c net status h =
     (case call_json c net (rq ''POST'' (hc_base c @ ''/rest/v2/workspaces/'' @ encode_segment (hc_ws c)
          @ ''/mirrors/'' @ encode_segment (hc_device_id c) @ ''/status'') [] (JsonBody status)) h of
        (r, h') \<Rightarrow> (map_sum id (\<lambda>b. or_default 0 (Option.bind (jget ''payload'' b) (jnat ''head''))) r, h'))"

section \<open>The interface the engine uses\<close>

record 'h hub_api =
  api_instance_id :: "'h \<Rightarrow> (hub_error + string option) \<times> 'h"
  api_exclusions :: "'h \<Rightarrow> (hub_error + string list) \<times> 'h"
  api_list :: "string \<Rightarrow> string option \<Rightarrow> nat \<Rightarrow> 'h \<Rightarrow> (hub_error + listing) \<times> 'h"
  api_changes :: "nat \<Rightarrow> nat \<Rightarrow> 'h \<Rightarrow> (hub_error + changes) \<times> 'h"
  api_head :: "string \<Rightarrow> 'h \<Rightarrow> (hub_error + remote_stat option) \<times> 'h"
  api_get :: "string \<Rightarrow> nat option \<Rightarrow> 'h \<Rightarrow> (hub_error + response \<times> string option) \<times> 'h"
  api_put :: "string \<Rightarrow> string \<Rightarrow> put_options \<Rightarrow> 'h \<Rightarrow> (hub_error + put_result) \<times> 'h"
  api_delete :: "string \<Rightarrow> string option \<Rightarrow> 'h \<Rightarrow> (hub_error + unit) \<times> 'h"
  api_rename :: "string \<Rightarrow> string \<Rightarrow> string option \<Rightarrow> 'h \<Rightarrow> (hub_error + unit) \<times> 'h"
  api_rename_dir :: "string \<Rightarrow> string \<Rightarrow> string \<Rightarrow> 'h \<Rightarrow> (hub_error + unit) \<times> 'h"
  api_mkdir :: "string \<Rightarrow> 'h \<Rightarrow> (hub_error + unit) \<times> 'h"
  api_rmdir :: "string \<Rightarrow> 'h \<Rightarrow> (hub_error + unit) \<times> 'h"

definition http_hub :: "client \<Rightarrow> 'h net \<Rightarrow> 'h hub_api" where
  "http_hub c net =
     \<lparr>api_instance_id = instance_id c net, api_exclusions = exclusions c net,
      api_list = list_objects c net, api_changes = get_changes c net, api_head = head_object c net,
      api_get = get_object c net, api_put = put_object c net, api_delete = delete_object c net,
      api_rename = rename_object c net, api_rename_dir = rename_directory c net,
      api_mkdir = hub_mkdir c net, api_rmdir = hub_rmdir c net\<rparr>"

section \<open>Error classes\<close>

text \<open>
  An answer is classified by its status alone, except that 409 is split by its code:
  the job is dropped for good exactly when the status is none of 401, 410, 412, 429 and
  5xx; only an answer 429 or 5xx is worth an automatic retry, and no answer is taken for
  an unreachable hub, a local change or a protected action.
\<close>
theorem classify_classes:
  "(is_permanent (classify c r) \<longleftrightarrow>
      rs_status r \<notin> {401, 410, 412, 429} \<and> \<not> (500 \<le> rs_status r \<and> rs_status r \<le> 599))
   \<and> ((\<exists>m. classify c r = Retryable (rs_status r) m) \<longleftrightarrow>
      rs_status r = 429 \<or> 500 \<le> rs_status r \<and> rs_status r \<le> 599)
   \<and> \<not> is_offline (classify c r)
   \<and> (\<forall>k. classify c r \<noteq> LocalChanged k \<and> classify c r \<noteq> Protected k \<and> classify c r \<noteq> UnsafeMirror k)
   \<and> (classify c r = TargetExists \<longleftrightarrow>
      rs_status r = 409 \<and> jstr ''code'' (or_default JNull (rs_json r)) = Some ''TARGET_EXISTS'')"
  by (auto simp: classify_def Let_def)

section \<open>Retries\<close>

text \<open>A server that keeps the requests it has seen, for the statements about traffic.\<close>

definition logged :: "'h net \<Rightarrow> (request list \<times> 'h) net" where
  "logged net r st = (case net r (snd st) of (a, h') \<Rightarrow> (a, (fst st @ [r], h')))"

definition sent :: "client \<Rightarrow> request \<Rightarrow> request" where
  "sent c r = r\<lparr>rq_headers := (''authorization'', ''Bearer '' @ hc_token c) # rq_headers r\<rparr>"

lemma retry_loop_logged:
  "retry_loop c (logged net) r (Suc n) lst (log, h) =
     (case net (sent c r) h of
        (None, h') \<Rightarrow> (Inl (Offline ''transport''), (log @ [sent c r], h'))
      | (Some resp, h') \<Rightarrow>
          if rs_status resp = 429 \<or> 500 \<le> rs_status resp \<and> rs_status resp < 600
          then retry_loop c (logged net) r n (Some (classify c resp)) (log @ [sent c r], h')
          else (Inr resp, (log @ [sent c r], h')))"
proof -
  have "logged net (sent c r) (log, h) = (case net (sent c r) h of (a, h') \<Rightarrow> (a, (log @ [sent c r], h')))"
    by (simp add: logged_def)
  then show ?thesis
    unfolding retry_loop.simps(2) sent_def[symmetric] by (simp split: prod.split option.split)
qed

lemma retry_loop_log:
  "\<exists>k\<le>n. fst (snd (retry_loop c (logged net) r n lst (log, h))) = log @ replicate k (sent c r)"
proof (induction n arbitrary: lst log h)
  case (Suc n)
  obtain a h' where net: "net (sent c r) h = (a, h')" by fastforce
  have one: "\<exists>k\<le>Suc n. log @ [sent c r] = log @ replicate k (sent c r)"
    by (rule exI[of _ 1]) simp
  show ?case
  proof (cases a)
    case None
    then show ?thesis using net one unfolding retry_loop_logged by simp
  next
    case (Some resp)
    obtain k where k: "k \<le> n" "fst (snd (retry_loop c (logged net) r n (Some (classify c resp)) (log @ [sent c r], h')))
        = (log @ [sent c r]) @ replicate k (sent c r)"
      using Suc.IH by blast
    have "\<exists>k\<le>Suc n. fst (snd (retry_loop c (logged net) r n (Some (classify c resp)) (log @ [sent c r], h')))
        = log @ replicate k (sent c r)"
      by (rule exI[of _ "Suc k"]) (use k in simp)
    then show ?thesis using net one Some unfolding retry_loop_logged by simp
  qed
qed simp

lemma with_retries_log:
  "\<exists>k\<le>RETRIES. fst (snd (with_retries c (logged net) r (log, h))) = log @ replicate k (sent c r)"
  unfolding with_retries_def by (rule retry_loop_log)

lemma call_json_log:
  "fst (snd (call_json c (logged net) r st)) = fst (snd (with_retries c (logged net) r st))"
  by (simp add: call_json_def split: prod.splits sum.splits)

text \<open>C8: 
  A call makes at most three attempts, and the k-th attempt is the same request as the
  first: retrying never drops or changes the method, the address, a precondition or the
  body.
\<close>
theorem retries_bounded_and_identical:
  "\<exists>k\<le>RETRIES. fst (snd (with_retries c (logged net) r ([], h))) = replicate k (sent c r)"
  using with_retries_log[of c net r "[]" h] by simp

lemma map_of_append: "map_of (xs @ ys) k = (case map_of xs k of Some v \<Rightarrow> Some v | None \<Rightarrow> map_of ys k)"
  by (simp add: map_add_def split: option.splits)

lemma map_of_opt:
  "map_of (case x of None \<Rightarrow> [] | Some m \<Rightarrow> [(k, f m)]) a = (if a = k then map_option f x else None)"
  by (cases x) auto

lemma map_of_when: "map_of (if b then [(k, v)] else []) a = (if b \<and> a = k then Some v else None)"
  by simp

lemma put_conflict_headers:
  "map_of (case po_conflict_of po of None \<Rightarrow> []
     | Some k \<Rightarrow> [(''x-canvas-conflict-of'', k), (''x-canvas-device-name'', n)]
         @ (case po_conflict_mode po of
              Some Prompt \<Rightarrow> [(''x-canvas-conflict-mode'', ''inbox'')]
            | Some RenameCopy \<Rightarrow> [(''x-canvas-conflict-mode'', ''rename'')]
            | None \<Rightarrow> [])
         @ (case po_base_sha256 po of Some b \<Rightarrow> [(''x-canvas-base-sha256'', b)] | None \<Rightarrow> [])) (CHR ''i'' # a) = None"
proof (cases "po_conflict_of po")
  case (Some k)
  then show ?thesis
    by (cases "po_conflict_mode po" rule: option.exhaust; cases "the (po_conflict_mode po)")
      (simp_all add: map_of_append map_of_opt)
qed simp

lemma put_headers_if_match:
  "map_of (put_headers c po) ''if-match'' = map_option (\<lambda>m. [CHR 0x22] @ m @ [CHR 0x22]) (po_if_match po)"
  unfolding put_headers_def map_of_append map_of_opt map_of_when put_conflict_headers
  by (simp split: option.split)

lemma put_headers_if_none:
  "map_of (put_headers c po) ''if-none-match'' = (if po_if_none_match_any po then Some ''*'' else None)"
  unfolding put_headers_def map_of_append map_of_opt map_of_when put_conflict_headers
  by (simp split: option.split)

text \<open>
  C6: every request an upload sends, retries included, is a PUT of the given bytes at the
  key's address that carries the If-Match precondition exactly when one is asked for, with
  the digest in quotes, and If-None-Match exactly when the key must be free. The
  precondition that keeps the hub from overwriting an unseen version is never lost.
\<close>
theorem put_object_keeps_precondition:
  "\<exists>k\<le>RETRIES. \<exists>q. fst (snd (put_object c (logged net) key body po ([], h))) = replicate k q
    \<and> rq_method q = ''PUT'' \<and> rq_url q = object_url c key \<and> rq_body q = ByteBody body
    \<and> map_of (rq_headers q) ''if-match'' = map_option (\<lambda>m. [CHR 0x22] @ m @ [CHR 0x22]) (po_if_match po)
    \<and> map_of (rq_headers q) ''if-none-match'' = (if po_if_none_match_any po then Some ''*'' else None)"
proof -
  let ?r = "rq ''PUT'' (object_url c key) (put_headers c po) (ByteBody body)"
  have "fst (snd (put_object c (logged net) key body po ([], h))) =
      fst (snd (with_retries c (logged net) ?r ([], h)))"
    using call_json_log[of c net ?r "([], h)"] by (simp add: put_object_def split_def)
  then obtain k where k: "k \<le> RETRIES"
      "fst (snd (put_object c (logged net) key body po ([], h))) = replicate k (sent c ?r)"
    using retries_bounded_and_identical[of c net ?r h] by auto
  have "rq_method (sent c ?r) = ''PUT''" "rq_url (sent c ?r) = object_url c key"
    "rq_body (sent c ?r) = ByteBody body"
    "map_of (rq_headers (sent c ?r)) ''if-match'' = map_option (\<lambda>m. [CHR 0x22] @ m @ [CHR 0x22]) (po_if_match po)"
    "map_of (rq_headers (sent c ?r)) ''if-none-match'' = (if po_if_none_match_any po then Some ''*'' else None)"
    by (simp_all add: sent_def rq_def put_headers_if_match put_headers_if_none)
  then show ?thesis using k by blast
qed

end
