(* ===== verification/Store.thy ===== *)
theory Store
  imports Keys
begin

text \<open>
  The mirror's persistent state, \<^verbatim>\<open>mirror/store.rs\<close>, with the audit record of
  \<^verbatim>\<open>mirror/protection.rs\<close> that one of its tables holds.

  A \<open>store\<close> is the redb file: one key-ordered table per concern. Every function is
  one committed transaction. What is left out is the database itself: I/O errors and
  the JSON coding of the values (a stored value reads back as it was written).

  \<open>store_ok\<close> is the invariant of the file (tables in key order, a job filed under its
  own sequence number, no sequence number beyond the counter), and every operation
  that writes preserves it. The tables are instances of \<open>kv_store\<close>, the queue is an
  instance of \<open>job_queue\<close>.
\<close>

section \<open>Records\<close>

datatype entry_state = Clean | Dirty | Tombstone

record entry =
  e_sha256 :: string
  e_size :: nat
  e_mtime :: nat
  e_state :: entry_state

record base =
  b_sha256 :: string
  b_size :: nat
  b_mtime :: nat
  b_remote_seq :: nat

datatype job_kind =
    JPush (jkey: string)
  | JDelete (jkey: string) (jif_match: "string option")
  | JRename (jfrom: string) (jto: string)
  | JRenameDir (jfrom: string) (jto: string) (joperation_id: string) (jdev: nat) (jino: nat)
      (jdirectory_identity: "string option") (jlocal_applied: bool) (jremote: bool)
  | JConflict (jkey: string) (jlocal_sha256: string) (jbase_sha256: "string option")
  | JMkdir (jkey: string)
  | JRmdir (jkey: string)

fun key_of :: "job_kind \<Rightarrow> string" where
  "key_of (JPush k) = k"
| "key_of (JDelete k _) = k"
| "key_of (JConflict k _ _) = k"
| "key_of (JMkdir k) = k"
| "key_of (JRmdir k) = k"
| "key_of (JRename f _) = f"
| "key_of (JRenameDir f _ _ _ _ _ _ _) = f"

fun keys_of :: "job_kind \<Rightarrow> string list" where
  "keys_of (JRename f t) = [f, t]"
| "keys_of (JRenameDir f t _ _ _ _ _ _) = [f, t]"
| "keys_of other = [key_of other]"

fun dedupe_id :: "job_kind \<Rightarrow> string" where
  "dedupe_id (JPush k) = ''push|'' @ k"
| "dedupe_id (JDelete k _) = ''delete|'' @ k"
| "dedupe_id (JRename f t) = ''rename|'' @ f @ ''|'' @ t"
| "dedupe_id (JRenameDir _ _ i _ _ _ _ _) = ''rename_dir|'' @ i"
| "dedupe_id (JConflict k _ _) = ''conflict|'' @ k"
| "dedupe_id (JMkdir k) = ''mkdir|'' @ k"
| "dedupe_id (JRmdir k) = ''rmdir|'' @ k"

datatype job_priority = Background | Discovered | Interactive

fun priority_rank :: "job_priority \<Rightarrow> nat" where
  "priority_rank Background = 0"
| "priority_rank Discovered = 1"
| "priority_rank Interactive = 2"

instantiation job_priority :: linorder
begin
definition less_eq_job_priority :: "job_priority \<Rightarrow> job_priority \<Rightarrow> bool" where
  "less_eq_job_priority a b \<longleftrightarrow> priority_rank a \<le> priority_rank b"
definition less_job_priority :: "job_priority \<Rightarrow> job_priority \<Rightarrow> bool" where
  "less_job_priority a b \<longleftrightarrow> priority_rank a < priority_rank b"
instance
proof
  fix a b :: job_priority
  show "a \<le> b \<Longrightarrow> b \<le> a \<Longrightarrow> a = b"
    by (cases a; cases b) (auto simp: less_eq_job_priority_def)
qed (auto simp: less_eq_job_priority_def less_job_priority_def)
end

record job =
  j_seq :: nat
  j_kind :: job_kind
  j_priority :: job_priority
  j_attempts :: nat
  j_not_before :: nat
  j_last_error :: "string option"
  j_created :: nat

record conflict_rec =
  c_key :: string
  c_local_sha256 :: string
  c_hub_sha256 :: "string option"
  c_base_sha256 :: "string option"
  c_ts :: nat
  c_mode :: conflict_mode
  c_uploaded :: bool
  c_inbox_doc_id :: "nat option"
  c_copy_key :: "string option"
  c_resolved :: bool

record trash_rec =
  t_sha256 :: string
  t_size :: nat
  t_ts :: nat

record legacy =
  l_entries :: "(string \<times> entry) list"
  l_bases :: "(string \<times> base) list"
  l_trash :: "(string \<times> trash_rec) list"
  l_conflicts :: "conflict_rec list"

definition legacy_is_empty :: "legacy \<Rightarrow> bool" where
  "legacy_is_empty l \<longleftrightarrow>
     l_entries l = [] \<and> l_bases l = [] \<and> l_trash l = [] \<and> l_conflicts l = []"

text \<open>The audit record of a suppressed action (mirror/protection.rs).\<close>

record blocked_action =
  a_action :: string
  a_key :: string
  a_destination :: "string option"
  a_local_sha256 :: "string option"
  a_remote_sha256 :: "string option"
  a_observed_at :: nat

definition blocked_id :: "(string \<times> string \<times> string option \<Rightarrow> string) \<Rightarrow> blocked_action \<Rightarrow> string" where
  "blocked_id json a = json (a_action a, a_key a, a_destination a)"

definition same_observation :: "blocked_action \<Rightarrow> blocked_action \<Rightarrow> bool" where
  "same_observation p q \<longleftrightarrow> a_action p = a_action q \<and> a_key p = a_key q \<and>
     a_destination p = a_destination q \<and> a_local_sha256 p = a_local_sha256 q \<and>
     a_remote_sha256 p = a_remote_sha256 q"

section \<open>The file\<close>

record store =
  entries :: "(string, entry) table"
  bases :: "(string, base) table"
  cursors :: "(string, nat) table"
  metas :: "(string, string) table"
  blocked :: "(string, blocked_action) table"
  jobs_tbl :: "(nat, job) table"
  conflicts :: "(string, conflict_rec) table"
  trashes :: "(string, trash_rec) table"
  dirs_tbl :: "(string, unit) table"

definition empty_store :: store where
  "empty_store = \<lparr>entries = [], bases = [], cursors = [], metas = [], blocked = [],
     jobs_tbl = [], conflicts = [], trashes = [], dirs_tbl = []\<rparr>"

abbreviation CURSOR_KEY :: string where "CURSOR_KEY \<equiv> ''cursor''"
abbreviation HEAD_KEY :: string where "HEAD_KEY \<equiv> ''head''"
abbreviation JOB_SEQ_KEY :: string where "JOB_SEQ_KEY \<equiv> ''job_seq''"
abbreviation META_INSTANCE :: string where "META_INSTANCE \<equiv> ''instance_id''"
abbreviation META_LISTED :: string where "META_LISTED \<equiv> ''listed''"
abbreviation META_BINDING :: string where "META_BINDING \<equiv> ''local-replica-binding''"
abbreviation META_DIRECTORIES :: string where "META_DIRECTORIES \<equiv> ''local-replica-directories''"
abbreviation RECHECK :: string where "RECHECK \<equiv> ''protected-recheck''"

definition stamp_key :: "string \<Rightarrow> string" where
  "stamp_key key = ''local-stamp:'' @ key"

text \<open>\<^verbatim>\<open>list_json\<close>: the range from the prefix on, up to the first key without it.\<close>

definition list_prefix :: "(string, 'v) table \<Rightarrow> string \<Rightarrow> (string \<times> 'v) list" where
  "list_prefix t pre =
     takeWhile (\<lambda>(k, _). starts_with pre k) (dropWhile (\<lambda>(k, _). k < pre) t)"

subsection \<open>Entries\<close>

definition entry :: "store \<Rightarrow> string \<Rightarrow> entry option" where
  "entry s key = tget (entries s) key"

definition put_entry :: "store \<Rightarrow> string \<Rightarrow> entry \<Rightarrow> store" where
  "put_entry s key e = s\<lparr>entries := tput key e (entries s)\<rparr>"

definition remove_entry :: "store \<Rightarrow> string \<Rightarrow> store" where
  "remove_entry s key = s\<lparr>entries := tdel key (entries s), metas := tdel (stamp_key key) (metas s)\<rparr>"

definition entries_prefix :: "store \<Rightarrow> string \<Rightarrow> (string \<times> entry) list" where
  "entries_prefix s pre = list_prefix (entries s) pre"

definition entries_under :: "store \<Rightarrow> string \<Rightarrow> (string \<times> entry) list" where
  "entries_under s dir = (if dir = [] then entries_prefix s [] else entries_prefix s (dir @ ''/''))"

definition entry_count :: "store \<Rightarrow> nat" where
  "entry_count s = length (entries s)"

definition move_row :: "string \<Rightarrow> string \<Rightarrow> (string, 'v) table \<Rightarrow> (string, 'v) table" where
  "move_row src dst t = (case tget t src of None \<Rightarrow> t | Some v \<Rightarrow> tput dst v (tdel src t))"

definition rekey :: "store \<Rightarrow> string \<Rightarrow> string \<Rightarrow> store" where
  "rekey s src dst =
     (let s = s\<lparr>metas := tdel (stamp_key dst) (tdel (stamp_key src) (metas s))\<rparr>;
          s = s\<lparr>entries := move_row src dst (entries s)\<rparr>
      in s\<lparr>bases := move_row src dst (bases s)\<rparr>)"

subsection \<open>Directory renames\<close>

definition mapped :: "string \<Rightarrow> string \<Rightarrow> string \<Rightarrow> string" where
  "mapped src dst key = dst @ drop (length src) key"

definition move_subtree ::
    "string \<Rightarrow> string \<Rightarrow> (string \<Rightarrow> 'v \<Rightarrow> 'v) \<Rightarrow> (string, 'v) table \<Rightarrow> (string, 'v) table" where
  "move_subtree src dst f t =
     foldl (\<lambda>t (key, v). tput (mapped src dst key) (f (mapped src dst key) v) (tdel key t)) t
       (filter (\<lambda>(k, _). under k src) t)"

definition retarget_conflict :: "string \<Rightarrow> string \<Rightarrow> string \<Rightarrow> conflict_rec \<Rightarrow> conflict_rec" where
  "retarget_conflict src dst dest c =
     c\<lparr>c_key := dest,
       c_copy_key := map_option (\<lambda>k. if under k src then mapped src dst k else k) (c_copy_key c)\<rparr>"

definition drop_stamps :: "string \<Rightarrow> string \<Rightarrow> (string, string) table \<Rightarrow> (string, string) table" where
  "drop_stamps src dst m =
     foldl (\<lambda>m k. tdel k m) m
       (filter (\<lambda>k. case strip_prefix ''local-stamp:'' k of
            Some key \<Rightarrow> under key src \<or> under key dst | None \<Rightarrow> False) (map fst m))"

fun retarget_kind :: "string \<Rightarrow> string \<Rightarrow> job_kind \<Rightarrow> job_kind option" where
  "retarget_kind src dst (JPush k) = Some (JPush (mapped src dst k))"
| "retarget_kind src dst (JDelete k m) = Some (JDelete (mapped src dst k) m)"
| "retarget_kind src dst (JConflict k l b) = Some (JConflict (mapped src dst k) l b)"
| "retarget_kind src dst (JMkdir k) = Some (JMkdir (mapped src dst k))"
| "retarget_kind src dst (JRmdir k) = Some (JRmdir (mapped src dst k))"
| "retarget_kind src dst (JRename _ _) = None"
| "retarget_kind src dst (JRenameDir _ _ _ _ _ _ _ _) = None"

fun is_structural :: "job_kind \<Rightarrow> bool" where
  "is_structural (JDelete _ _) = True"
| "is_structural (JMkdir _) = True"
| "is_structural (JRmdir _) = True"
| "is_structural _ = False"

definition moved_kind :: "nat \<Rightarrow> string \<Rightarrow> string \<Rightarrow> bool \<Rightarrow> job \<Rightarrow> job_kind option" where
  "moved_kind seq src dst remote p =
     (if j_seq p = seq \<or> \<not> under (key_of (j_kind p)) src then None
      else if remote \<and> j_seq p < seq \<and> is_structural (j_kind p) then None
      else retarget_kind src dst (j_kind p))"

definition resequence_step ::
    "nat \<Rightarrow> string \<Rightarrow> string \<Rightarrow> bool \<Rightarrow> (nat, job) table \<times> nat \<Rightarrow> job \<Rightarrow> (nat, job) table \<times> nat" where
  "resequence_step seq src dst remote st p =
     (case moved_kind seq src dst remote p of
        None \<Rightarrow> st
      | Some k \<Rightarrow>
          (let (t, next) = st; next = next + 1
           in (tput next (p\<lparr>j_kind := k, j_seq := next\<rparr>) (tdel (j_seq p) t), next)))"

definition number :: "store \<Rightarrow> string \<Rightarrow> nat option" where
  "number s name = tget (cursors s) name"

definition set_number :: "store \<Rightarrow> string \<Rightarrow> nat \<Rightarrow> store" where
  "set_number s name v = s\<lparr>cursors := tput name v (cursors s)\<rparr>"

definition job_seq :: "store \<Rightarrow> nat" where
  "job_seq s = (case number s JOB_SEQ_KEY of Some n \<Rightarrow> n | None \<Rightarrow> 0)"

definition apply_directory_rename :: "store \<Rightarrow> job \<Rightarrow> store" where
  "apply_directory_rename s job =
     (case j_kind job of
        JRenameDir src dst oid dev ino ident False remote \<Rightarrow>
          (let s = s\<lparr>metas := drop_stamps src dst (metas s)\<rparr>;
               s = s\<lparr>entries := move_subtree src dst (\<lambda>_ v. v) (entries s)\<rparr>;
               s = s\<lparr>bases := move_subtree src dst (\<lambda>_ v. v) (bases s)\<rparr>;
               s = s\<lparr>conflicts := move_subtree src dst (retarget_conflict src dst) (conflicts s)\<rparr>;
               s = s\<lparr>dirs_tbl := tput dst () (move_subtree src dst (\<lambda>_ v. v) (dirs_tbl s))\<rparr>;
               (t, next) = foldl (resequence_step (j_seq job) src dst remote)
                             (jobs_tbl s, job_seq s) (map snd (jobs_tbl s));
               s = set_number s JOB_SEQ_KEY next;
               applied = job\<lparr>j_kind := JRenameDir src dst oid dev ino ident True remote\<rparr>
           in s\<lparr>jobs_tbl := tput (j_seq job) applied t\<rparr>)
      | _ \<Rightarrow> s)"

subsection \<open>Base ledger, cursor, meta\<close>

definition base :: "store \<Rightarrow> string \<Rightarrow> base option" where
  "base s key = tget (bases s) key"

definition put_base :: "store \<Rightarrow> string \<Rightarrow> base \<Rightarrow> store" where
  "put_base s key b = s\<lparr>bases := tput key b (bases s)\<rparr>"

definition remove_base :: "store \<Rightarrow> string \<Rightarrow> store" where
  "remove_base s key = s\<lparr>bases := tdel key (bases s)\<rparr>"

definition bases_prefix :: "store \<Rightarrow> string \<Rightarrow> (string \<times> base) list" where
  "bases_prefix s pre = list_prefix (bases s) pre"

definition cursor :: "store \<Rightarrow> nat option" where
  "cursor s = number s CURSOR_KEY"

definition set_cursor :: "store \<Rightarrow> nat \<Rightarrow> store" where
  "set_cursor s seq = set_number s CURSOR_KEY seq"

definition clear_cursor :: "store \<Rightarrow> store" where
  "clear_cursor s = s\<lparr>cursors := tdel CURSOR_KEY (cursors s)\<rparr>"

definition meta :: "store \<Rightarrow> string \<Rightarrow> string option" where
  "meta s name = tget (metas s) name"

definition set_meta :: "store \<Rightarrow> string \<Rightarrow> string \<Rightarrow> store" where
  "set_meta s name v = s\<lparr>metas := tput name v (metas s)\<rparr>"

definition remove_meta :: "store \<Rightarrow> string \<Rightarrow> store" where
  "remove_meta s name = s\<lparr>metas := tdel name (metas s)\<rparr>"

subsection \<open>Blocked actions\<close>

definition blocked_actions :: "store \<Rightarrow> blocked_action list" where
  "blocked_actions s = map snd (blocked s)"

definition record_blocked ::
    "(string \<times> string \<times> string option \<Rightarrow> string) \<Rightarrow> store \<Rightarrow> blocked_action \<Rightarrow> bool \<times> store" where
  "record_blocked json s a =
     (let i = blocked_id json a;
          same = (case tget (blocked s) i of Some p \<Rightarrow> same_observation p a | None \<Rightarrow> False)
      in if same \<and> meta s RECHECK \<noteq> None then (False, s)
         else (\<not> same, s\<lparr>blocked := tput i a (blocked s), metas := tput RECHECK ''1'' (metas s)\<rparr>))"

definition remove_blocked_for :: "store \<Rightarrow> string \<Rightarrow> store" where
  "remove_blocked_for s key =
     s\<lparr>blocked := foldl (\<lambda>t i. tdel i t) (blocked s)
         (map fst (filter (\<lambda>(_, a). a_key a = key) (blocked s)))\<rparr>"

subsection \<open>Jobs\<close>

definition enqueue_with_priority :: "nat \<Rightarrow> store \<Rightarrow> job_kind \<Rightarrow> job_priority \<Rightarrow> nat \<times> store" where
  "enqueue_with_priority now s kind priority =
     (let i = dedupe_id kind;
          existing = map fst (filter (\<lambda>(_, j). dedupe_id (j_kind j) = i) (jobs_tbl s));
          t = foldl (\<lambda>t q. tdel q t) (jobs_tbl s) existing;
          next = job_seq s + 1;
          job = \<lparr>j_seq = next, j_kind = kind, j_priority = priority, j_attempts = 0,
                 j_not_before = 0, j_last_error = None, j_created = now\<rparr>
      in (next, (set_number s JOB_SEQ_KEY next)\<lparr>jobs_tbl := tput next job t\<rparr>))"

definition enqueue :: "nat \<Rightarrow> store \<Rightarrow> job_kind \<Rightarrow> nat \<times> store" where
  "enqueue now s kind = enqueue_with_priority now s kind Interactive"

definition jobs :: "store \<Rightarrow> job list" where
  "jobs s = map (\<lambda>(q, j). j\<lparr>j_seq := q\<rparr>) (jobs_tbl s)"

definition update_job :: "store \<Rightarrow> job \<Rightarrow> store" where
  "update_job s j =
     (if tget (jobs_tbl s) (j_seq j) = None then s
      else s\<lparr>jobs_tbl := tput (j_seq j) j (jobs_tbl s)\<rparr>)"

definition remove_job :: "store \<Rightarrow> nat \<Rightarrow> store" where
  "remove_job s seq = s\<lparr>jobs_tbl := tdel seq (jobs_tbl s)\<rparr>"

definition remove_jobs_for :: "store \<Rightarrow> string \<Rightarrow> job list \<times> store" where
  "remove_jobs_for s key =
     (let victims = filter (\<lambda>j. key_of (j_kind j) = key) (jobs s)
      in (victims, s\<lparr>jobs_tbl := foldl (\<lambda>t j. tdel (j_seq j) t) (jobs_tbl s) victims\<rparr>))"

subsection \<open>Conflicts, trash, explicit directories\<close>

definition conflict :: "store \<Rightarrow> string \<Rightarrow> conflict_rec option" where
  "conflict s key = tget (conflicts s) key"

definition put_conflict :: "store \<Rightarrow> conflict_rec \<Rightarrow> store" where
  "put_conflict s c = s\<lparr>conflicts := tput (c_key c) c (conflicts s)\<rparr>"

definition remove_conflict :: "store \<Rightarrow> string \<Rightarrow> store" where
  "remove_conflict s key = s\<lparr>conflicts := tdel key (conflicts s)\<rparr>"

definition conflict_list :: "store \<Rightarrow> conflict_rec list" where
  "conflict_list s = map snd (list_prefix (conflicts s) [])"

definition trashed :: "store \<Rightarrow> string \<Rightarrow> trash_rec option" where
  "trashed s key = tget (trashes s) key"

definition put_trashed :: "store \<Rightarrow> string \<Rightarrow> trash_rec \<Rightarrow> store" where
  "put_trashed s key t = s\<lparr>trashes := tput key t (trashes s)\<rparr>"

definition remove_trashed :: "store \<Rightarrow> string \<Rightarrow> store" where
  "remove_trashed s key = s\<lparr>trashes := tdel key (trashes s)\<rparr>"

definition trash :: "store \<Rightarrow> (string \<times> trash_rec) list" where
  "trash s = list_prefix (trashes s) []"

definition dirs :: "store \<Rightarrow> string list" where
  "dirs s = map fst (dirs_tbl s)"

definition has_dir :: "store \<Rightarrow> string \<Rightarrow> bool" where
  "has_dir s key = (tget (dirs_tbl s) key \<noteq> None)"

definition add_dir :: "store \<Rightarrow> string \<Rightarrow> store" where
  "add_dir s key = s\<lparr>dirs_tbl := tput key () (dirs_tbl s)\<rparr>"

definition remove_dir :: "store \<Rightarrow> string \<Rightarrow> store" where
  "remove_dir s key = s\<lparr>dirs_tbl := tdel key (dirs_tbl s)\<rparr>"

definition rekey_dir_name :: "string \<Rightarrow> string \<Rightarrow> string \<Rightarrow> string option" where
  "rekey_dir_name src dst d =
     (if d = src then Some dst
      else case strip_prefix (src @ ''/'') d of
        Some rest \<Rightarrow> Some (dst @ ''/'' @ rest) | None \<Rightarrow> None)"

definition rekey_dirs :: "store \<Rightarrow> string \<Rightarrow> string \<Rightarrow> store" where
  "rekey_dirs s src dst =
     s\<lparr>dirs_tbl := foldl (\<lambda>t d. case rekey_dir_name src dst d of
          None \<Rightarrow> t | Some new \<Rightarrow> tput new () (tdel d t)) (dirs_tbl s) (dirs s)\<rparr>"

definition dir_has_children :: "store \<Rightarrow> string \<Rightarrow> bool" where
  "dir_has_children s dir =
     (if entries_prefix s (dir @ ''/'') \<noteq> [] then True
      else list_ex (\<lambda>d. starts_with (dir @ ''/'') d) (dirs s))"

definition clear_bases :: "store \<Rightarrow> store" where
  "clear_bases s = s\<lparr>bases := foldl (\<lambda>t k. tdel k t) (bases s) (map fst (bases s))\<rparr>"

subsection \<open>Opening the file\<close>

record database =
  d_existing :: "string list"
  d_store :: store
  d_v1 :: legacy

record binding =
  bind_marker :: string
  bind_directories :: string
  bind_legacy_matches :: bool
  bind_accept_device_change :: bool

datatype open_error =
    UnboundDatabase
  | DirectoryIdentityChanged
  | NoMatchingPair
  | DeviceNumberChanged

definition table_names :: "string list" where
  "table_names = [''entries_v2'', ''base_v2'', ''cursor_v2'', ''meta_v2'', ''protected_v1'',
     ''jobs_v2'', ''conflicts_v2'', ''trash_v2'', ''dirs_v2'']"

definition RETIRED :: "string list" where
  "RETIRED = [''entries_v1'', ''base_v1'', ''cursor_v1'', ''meta_v1'', ''jobs_v1'', ''pins_v1'',
     ''cache_v1'', ''conflicts_v1'', ''trash_v1'', ''dirs_v1'']"

definition opened_names :: "string list \<Rightarrow> string list" where
  "opened_names existing = filter (\<lambda>n. n \<notin> set RETIRED)
     (existing @ filter (\<lambda>n. n \<notin> set existing) table_names)"

definition read_meta :: "database \<Rightarrow> string \<Rightarrow> string option" where
  "read_meta d name = (if ''meta_v2'' \<in> set (d_existing d) then meta (d_store d) name else None)"

definition replica_binding :: "database \<Rightarrow> string option" where
  "replica_binding d = (if \<not> ''meta_v2'' \<in> set (d_existing d) then None else meta (d_store d) META_BINDING)"

definition check_binding :: "database \<Rightarrow> binding \<Rightarrow> open_error option" where
  "check_binding d b =
     (let stored = read_meta d META_BINDING in
      if \<not> (stored = Some (bind_marker b) \<or> d_existing d = []) then Some UnboundDatabase
      else case read_meta d META_DIRECTORIES of
          Some ds \<Rightarrow> if ds = bind_directories b then None else Some DirectoryIdentityChanged
        | None \<Rightarrow>
            if \<not> (bind_legacy_matches b \<or> stored = Some (bind_marker b)) then Some NoMatchingPair
            else if \<not> (bind_legacy_matches b \<or>
                        bind_accept_device_change b \<and> stored = Some (bind_marker b))
                 then Some DeviceNumberChanged
                 else None)"

definition open_inner :: "database \<Rightarrow> binding option \<Rightarrow> open_error + database \<times> legacy option" where
  "open_inner d bo =
     (let checked = (case bo of
            None \<Rightarrow> Inr (d_store d)
          | Some b \<Rightarrow> (case check_binding d b of
                Some e \<Rightarrow> Inl e
              | None \<Rightarrow> Inr (set_meta (set_meta (d_store d) META_BINDING (bind_marker b))
                            META_DIRECTORIES (bind_directories b))))
      in case checked of
          Inl e \<Rightarrow> Inl e
        | Inr s \<Rightarrow>
            let leg = (if ''entries_v1'' \<in> set (d_existing d)
                       then (if \<not> legacy_is_empty (d_v1 d) then Some (d_v1 d) else None)
                       else None)
            in Inr (\<lparr>d_existing = opened_names (d_existing d), d_store = s,
                     d_v1 = \<lparr>l_entries = [], l_bases = [], l_trash = [], l_conflicts = []\<rparr>\<rparr>, leg))"

definition open_bound ::
    "database \<Rightarrow> string \<Rightarrow> string \<Rightarrow> bool \<Rightarrow> bool \<Rightarrow> open_error + database \<times> legacy option" where
  "open_bound d marker directories legacy_matches accept =
     open_inner d (Some \<lparr>bind_marker = marker, bind_directories = directories,
       bind_legacy_matches = legacy_matches, bind_accept_device_change = accept\<rparr>)"

section \<open>Range scans\<close>

lemma prefix_not_less: "prefix p k \<Longrightarrow> \<not> k < (p :: 'a::linorder list)"
proof (induction p arbitrary: k)
  case (Cons a p)
  then show ?case by (cases k) auto
qed simp

lemma past_prefix:
  "p \<le> k \<Longrightarrow> \<not> prefix p k \<Longrightarrow> k < k' \<Longrightarrow> \<not> prefix p (k' :: 'a::linorder list)"
proof (induction p arbitrary: k k')
  case (Cons a p)
  show ?case
  proof (cases k; cases k')
    fix x xs y ys
    assume k: "k = x # xs" "k' = y # ys"
    show ?thesis using Cons.IH[of xs ys] Cons.prems k by (auto simp: le_less)
  qed (use Cons.prems in auto)
qed simp

lemma list_prefix_filter:
  assumes "tsorted t"
  shows "list_prefix t p = filter (\<lambda>(k, _). prefix p k) t"
  using assms
proof (induction t)
  case (Cons r t)
  obtain k v where r: "r = (k, v)" by (cases r)
  from Cons.prems have srt: "tsorted t" and gt: "\<forall>a\<in>fst ` set t. k < a"
    unfolding r by (simp_all add: tsorted_Cons)
  show ?case
  proof (cases "k < p")
    case True
    then show ?thesis using Cons.IH[OF srt] prefix_not_less[of p k] unfolding r
      by (auto simp: list_prefix_def)
  next
    case ge: False
    then have dw: "dropWhile (\<lambda>(k, _). k < p) t = t" using gt
      by (cases t) (auto dest: less_trans)
    show ?thesis
    proof (cases "prefix p k")
      case True
      then show ?thesis using ge Cons.IH[OF srt] dw unfolding r
        by (simp add: list_prefix_def starts_with_iff)
    next
      case False
      then have "filter (\<lambda>(k, _). prefix p k) t = []" using ge gt past_prefix[of p k]
        by (auto simp: filter_empty_conv)
      then show ?thesis using False ge unfolding r by (simp add: list_prefix_def starts_with_iff)
    qed
  qed
qed (simp add: list_prefix_def)

lemma list_prefix_Nil [simp]: "list_prefix t [] = t"
proof -
  have "dropWhile (\<lambda>(k, _). k < []) t = t" by (cases t) auto
  then show ?thesis by (simp add: list_prefix_def starts_with_iff takeWhile_eq_all_conv)
qed

section \<open>The invariant of the file\<close>

definition jobs_ok :: "store \<Rightarrow> bool" where
  "jobs_ok s \<longleftrightarrow> tsorted (jobs_tbl s) \<and> (\<forall>(q, j)\<in>set (jobs_tbl s). j_seq j = q \<and> q \<le> job_seq s)"

definition store_ok :: "store \<Rightarrow> bool" where
  "store_ok s \<longleftrightarrow> tsorted (entries s) \<and> tsorted (bases s) \<and> tsorted (cursors s) \<and>
     tsorted (metas s) \<and> tsorted (blocked s) \<and> tsorted (trashes s) \<and> tsorted (dirs_tbl s) \<and>
     tsorted (conflicts s) \<and> (\<forall>(k, c)\<in>set (conflicts s). c_key c = k) \<and> jobs_ok s"

lemma set_tput_subset: "set (tput k v t) \<subseteq> insert (k, v) (set t)"
  by (induction k v t rule: tput.induct) auto

lemma set_tdel [simp]: "set (tdel k t) = {(a, v) \<in> set t. a \<noteq> k}"
  by (auto simp: tdel_def)

lemma tsorted_foldl_tdel [simp]: "tsorted t \<Longrightarrow> tsorted (foldl (\<lambda>t k. tdel (f k) t) t ks)"
  by (induction ks arbitrary: t) auto

lemma foldl_tdel_filter: "foldl (\<lambda>t k. tdel (f k) t) t ks = filter (\<lambda>(a, _). a \<notin> f ` set ks) t"
  by (induction ks arbitrary: t) (auto simp: tdel_def intro!: filter_cong)

lemma tsorted_move_subtree [simp]: "tsorted t \<Longrightarrow> tsorted (move_subtree src dst f t)"
proof -
  have "tsorted t \<Longrightarrow> tsorted (foldl (\<lambda>t (key, v). tput (mapped src dst key) (f (mapped src dst key) v) (tdel key t)) t rows)"
    for rows by (induction rows arbitrary: t) auto
  then show "tsorted t \<Longrightarrow> ?thesis" by (simp add: move_subtree_def)
qed

lemma tsorted_move_row [simp]: "tsorted t \<Longrightarrow> tsorted (move_row src dst t)"
  by (simp add: move_row_def split: option.splits)

lemmas store_defs = put_entry_def remove_entry_def put_base_def remove_base_def set_number_def
  set_meta_def remove_meta_def put_conflict_def remove_conflict_def put_trashed_def
  remove_trashed_def add_dir_def remove_dir_def clear_cursor_def set_cursor_def
  remove_job_def clear_bases_def

lemmas read_defs = entry_def base_def number_def meta_def conflict_def trashed_def has_dir_def
  cursor_def dirs_def jobs_def

lemma job_seq_frame [store_simps]:
  "job_seq (s\<lparr>entries := x1\<rparr>) = job_seq s" "job_seq (s\<lparr>bases := x2\<rparr>) = job_seq s"
  "job_seq (s\<lparr>metas := x3\<rparr>) = job_seq s" "job_seq (s\<lparr>blocked := x4\<rparr>) = job_seq s"
  "job_seq (s\<lparr>jobs_tbl := x5\<rparr>) = job_seq s" "job_seq (s\<lparr>conflicts := x6\<rparr>) = job_seq s"
  "job_seq (s\<lparr>trashes := x7\<rparr>) = job_seq s" "job_seq (s\<lparr>dirs_tbl := x8\<rparr>) = job_seq s"
  by (simp_all add: job_seq_def number_def)

lemma job_seq_set_number [store_simps]:
  "job_seq (set_number s name v) = (if name = JOB_SEQ_KEY then v else job_seq s)"
  by (simp add: job_seq_def number_def set_number_def)

lemma jobs_ok_cong: "jobs_tbl s' = jobs_tbl s \<Longrightarrow> job_seq s' = job_seq s \<Longrightarrow> jobs_ok s' = jobs_ok s"
  by (simp add: jobs_ok_def)

lemma jobs_ok_frame [store_simps]:
  "jobs_ok (s\<lparr>entries := x1\<rparr>) = jobs_ok s" "jobs_ok (s\<lparr>bases := x2\<rparr>) = jobs_ok s"
  "jobs_ok (s\<lparr>metas := x3\<rparr>) = jobs_ok s" "jobs_ok (s\<lparr>blocked := x4\<rparr>) = jobs_ok s"
  "jobs_ok (s\<lparr>conflicts := x6\<rparr>) = jobs_ok s"
  "jobs_ok (s\<lparr>trashes := x7\<rparr>) = jobs_ok s" "jobs_ok (s\<lparr>dirs_tbl := x8\<rparr>) = jobs_ok s"
  by (simp_all add: jobs_ok_def job_seq_frame)

lemma store_ok_empty [simp, store_simps]: "store_ok empty_store"
  by (simp add: store_ok_def empty_store_def jobs_ok_def)

lemma store_ok_put_entry [simp, store_simps]: "store_ok s \<Longrightarrow> store_ok (put_entry s k e)"
  by (simp add: store_ok_def put_entry_def store_simps)

lemma store_ok_remove_entry [simp, store_simps]: "store_ok s \<Longrightarrow> store_ok (remove_entry s k)"
  by (simp add: store_ok_def remove_entry_def store_simps)

lemma store_ok_rekey [simp, store_simps]: "store_ok s \<Longrightarrow> store_ok (rekey s a b)"
  by (simp add: store_ok_def rekey_def Let_def store_simps)

lemma store_ok_put_base [simp, store_simps]: "store_ok s \<Longrightarrow> store_ok (put_base s k b)"
  by (simp add: store_ok_def put_base_def store_simps)

lemma store_ok_remove_base [simp, store_simps]: "store_ok s \<Longrightarrow> store_ok (remove_base s k)"
  by (simp add: store_ok_def remove_base_def store_simps)

lemma store_ok_clear_bases [simp, store_simps]: "store_ok s \<Longrightarrow> store_ok (clear_bases s)"
  by (simp add: store_ok_def clear_bases_def store_simps tsorted_foldl_tdel[of _ "\<lambda>k. k"])

lemma store_ok_set_number [simp, store_simps]:
  "store_ok s \<Longrightarrow> name \<noteq> JOB_SEQ_KEY \<Longrightarrow> store_ok (set_number s name v)"
  by (auto simp: store_ok_def jobs_ok_def job_seq_set_number) (auto simp: set_number_def)

lemma store_ok_set_cursor [simp, store_simps]: "store_ok s \<Longrightarrow> store_ok (set_cursor s v)"
  by (simp add: set_cursor_def)

lemma store_ok_clear_cursor [simp, store_simps]: "store_ok s \<Longrightarrow> store_ok (clear_cursor s)"
  by (simp add: store_ok_def jobs_ok_def clear_cursor_def job_seq_def number_def)

lemma store_ok_set_meta [simp, store_simps]: "store_ok s \<Longrightarrow> store_ok (set_meta s k v)"
  by (simp add: store_ok_def set_meta_def store_simps)

lemma store_ok_remove_meta [simp, store_simps]: "store_ok s \<Longrightarrow> store_ok (remove_meta s k)"
  by (simp add: store_ok_def remove_meta_def store_simps)

lemma store_ok_record_blocked [simp, store_simps]:
  "store_ok s \<Longrightarrow> store_ok (snd (record_blocked json s a))"
  by (simp add: store_ok_def record_blocked_def Let_def store_simps)

lemma store_ok_remove_blocked_for [simp, store_simps]:
  "store_ok s \<Longrightarrow> store_ok (remove_blocked_for s k)"
  by (simp add: store_ok_def remove_blocked_for_def store_simps tsorted_foldl_tdel[of _ "\<lambda>k. k"])

lemma store_ok_put_conflict [simp, store_simps]: "store_ok s \<Longrightarrow> store_ok (put_conflict s c)"
  using set_tput_subset[of "c_key c" c "conflicts s"]
  by (auto simp: store_ok_def put_conflict_def store_simps)

lemma store_ok_remove_conflict [simp, store_simps]: "store_ok s \<Longrightarrow> store_ok (remove_conflict s k)"
  by (auto simp: store_ok_def remove_conflict_def store_simps)

lemma store_ok_put_trashed [simp, store_simps]: "store_ok s \<Longrightarrow> store_ok (put_trashed s k t)"
  by (simp add: store_ok_def put_trashed_def store_simps)

lemma store_ok_remove_trashed [simp, store_simps]: "store_ok s \<Longrightarrow> store_ok (remove_trashed s k)"
  by (simp add: store_ok_def remove_trashed_def store_simps)

lemma store_ok_add_dir [simp, store_simps]: "store_ok s \<Longrightarrow> store_ok (add_dir s k)"
  by (simp add: store_ok_def add_dir_def store_simps)

lemma store_ok_remove_dir [simp, store_simps]: "store_ok s \<Longrightarrow> store_ok (remove_dir s k)"
  by (simp add: store_ok_def remove_dir_def store_simps)

lemma store_ok_remove_job [simp, store_simps]: "store_ok s \<Longrightarrow> store_ok (remove_job s q)"
  by (auto simp: store_ok_def jobs_ok_def remove_job_def store_simps)

lemma jobs_ok_jobs: "jobs_ok s \<Longrightarrow> jobs s = map snd (jobs_tbl s)"
  by (auto simp: jobs_ok_def jobs_def intro!: map_cong)

lemma store_ok_jobs: "store_ok s \<Longrightarrow> jobs s = map snd (jobs_tbl s)"
  by (simp add: jobs_ok_jobs store_ok_def)

lemma tput_eq_map:
  "tsorted t \<Longrightarrow> tget t k \<noteq> None \<Longrightarrow> tput k v t = map (\<lambda>(a, w). (a, if a = k then v else w)) t"
proof (induction t)
  case (Cons p t)
  obtain a w where p: "p = (a, w)" by (cases p)
  have "tsorted t" "\<forall>b\<in>fst ` set t. a < b" using Cons.prems unfolding p by (simp_all add: tsorted_Cons)
  moreover have "k < a \<Longrightarrow> tget t k = None"
    using calculation by (auto simp: map_of_eq_None_iff dest: less_trans)
  moreover have "k = a \<Longrightarrow> map (\<lambda>(b, w). (b, if b = k then v else w)) t = t"
    using calculation by (auto intro!: map_idI)
  ultimately show ?case using Cons unfolding p by (auto split: if_splits)
qed simp

lemma jobs_ok_bound:
  "jobs_ok s \<Longrightarrow> tget (jobs_tbl s) q = Some j \<Longrightarrow> j_seq j = q \<and> q \<le> job_seq s"
  by (auto simp: jobs_ok_def dest!: map_of_SomeD)

lemma jobs_ok_update_job: "jobs_ok s \<Longrightarrow> jobs_ok (update_job s j)"
proof -
  assume ok: "jobs_ok s"
  show "jobs_ok (update_job s j)"
  proof (cases "tget (jobs_tbl s) (j_seq j)")
    case (Some old)
    then have "j_seq j \<le> job_seq s" using jobs_ok_bound[OF ok] by blast
    then show ?thesis using ok set_tput_subset[of "j_seq j" j "jobs_tbl s"] Some
      by (fastforce simp: jobs_ok_def update_job_def store_simps)
  qed (use ok in \<open>simp add: update_job_def\<close>)
qed

lemma store_ok_update_job [simp, store_simps]: "store_ok s \<Longrightarrow> store_ok (update_job s j)"
  using jobs_ok_update_job[of s j] by (auto simp: store_ok_def update_job_def)

lemma store_ok_remove_jobs_for [simp, store_simps]:
  "store_ok s \<Longrightarrow> store_ok (snd (remove_jobs_for s k))"
  by (auto simp: store_ok_def jobs_ok_def remove_jobs_for_def Let_def store_simps foldl_tdel_filter)

section \<open>The job queue\<close>

text \<open>
  The contract between the queue and those who fill it: enqueueing puts the job last
  and takes out the pending one with the same identity, nothing else.
\<close>

locale job_queue =
  fixes ok :: "'s \<Rightarrow> bool"
    and queue :: "'s \<Rightarrow> 'k list"
    and ident :: "'k \<Rightarrow> 'i"
    and enq :: "'s \<Rightarrow> 'k \<Rightarrow> 's"
  assumes enq_ok: "ok s \<Longrightarrow> ok (enq s k)"
    and enq_queue: "ok s \<Longrightarrow> queue (enq s k) = filter (\<lambda>x. ident x \<noteq> ident k) (queue s) @ [k]"
begin

definition unique :: "'s \<Rightarrow> bool" where
  "unique s \<longleftrightarrow> distinct (map ident (queue s))"

lemma enq_unique: "ok s \<Longrightarrow> unique s \<Longrightarrow> unique (enq s k)"
  by (auto simp: unique_def enq_queue distinct_map intro: inj_on_subset)

lemma enq_mem: "ok s \<Longrightarrow> x \<in> set (queue (enq s k)) \<longleftrightarrow> x = k \<or> x \<in> set (queue s) \<and> ident x \<noteq> ident k"
  by (auto simp: enq_queue)

lemma enq_keeps_ident: "ok s \<Longrightarrow> ident ` set (queue s) \<subseteq> ident ` set (queue (enq s k))"
  by (auto simp: enq_queue image_iff)

lemma enq_all_ok: "ok s \<Longrightarrow> ok (foldl enq s ks)"
  by (induction ks arbitrary: s) (auto simp: enq_ok)

lemma enq_all_unique: "ok s \<Longrightarrow> unique s \<Longrightarrow> unique (foldl enq s ks)"
  by (induction ks arbitrary: s) (auto simp: enq_ok enq_unique)

lemma enq_all_idents:
  "ok s \<Longrightarrow> ident ` set (queue (foldl enq s ks)) = ident ` set (queue s) \<union> ident ` set ks"
proof (induction ks arbitrary: s)
  case (Cons k ks)
  have "ident ` set (queue (enq s k)) = insert (ident k) (ident ` set (queue s))"
    using Cons.prems by (auto simp: enq_queue image_iff)
  then show ?case using Cons by (simp add: enq_ok)
qed simp

end

lemma enqueue_tbl:
  assumes "jobs_ok s"
  shows "jobs_tbl (snd (enqueue_with_priority now s k pr)) =
    filter (\<lambda>(_, j). dedupe_id (j_kind j) \<noteq> dedupe_id k) (jobs_tbl s) @
      [(job_seq s + 1, \<lparr>j_seq = job_seq s + 1, j_kind = k, j_priority = pr, j_attempts = 0,
          j_not_before = 0, j_last_error = None, j_created = now\<rparr>)]"
proof -
  let ?i = "dedupe_id k"
  let ?t = "filter (\<lambda>(_, j). dedupe_id (j_kind j) \<noteq> ?i) (jobs_tbl s)"
  let ?ex = "map fst (filter (\<lambda>(_, j). dedupe_id (j_kind j) = ?i) (jobs_tbl s))"
  have d: "distinct (map fst (jobs_tbl s))" using assms tsorted_distinct by (auto simp: jobs_ok_def)
  have "foldl (\<lambda>t q. tdel q t) (jobs_tbl s) ?ex = filter (\<lambda>(q, _). q \<notin> set ?ex) (jobs_tbl s)"
    using foldl_tdel_filter[of "\<lambda>q. q" "jobs_tbl s" ?ex] by simp
  also have "\<dots> = ?t"
    using tfilter_victims[OF d, of "\<lambda>j. dedupe_id (j_kind j) = ?i"] by (simp add: split_def)
  finally have t: "foldl (\<lambda>t q. tdel q t) (jobs_tbl s) ?ex = ?t" .
  have "\<forall>a\<in>fst ` set ?t. a < job_seq s + 1" using assms by (auto simp: jobs_ok_def)
  then show ?thesis
    by (simp add: enqueue_with_priority_def Let_def t tput_last set_number_def)
qed

lemma enqueue_seq [simp]: "fst (enqueue_with_priority now s k pr) = job_seq s + 1"
  by (simp add: enqueue_with_priority_def Let_def)

lemma enqueue_job_seq [simp]: "job_seq (snd (enqueue_with_priority now s k pr)) = job_seq s + 1"
  by (simp add: enqueue_with_priority_def Let_def store_simps)

lemma enqueue_frame [simp]:
  "entries (snd (enqueue_with_priority now s k pr)) = entries s"
  "bases (snd (enqueue_with_priority now s k pr)) = bases s"
  "metas (snd (enqueue_with_priority now s k pr)) = metas s"
  "blocked (snd (enqueue_with_priority now s k pr)) = blocked s"
  "conflicts (snd (enqueue_with_priority now s k pr)) = conflicts s"
  "trashes (snd (enqueue_with_priority now s k pr)) = trashes s"
  "dirs_tbl (snd (enqueue_with_priority now s k pr)) = dirs_tbl s"
  "cursors (snd (enqueue_with_priority now s k pr)) = tput JOB_SEQ_KEY (job_seq s + 1) (cursors s)"
  by (simp_all add: enqueue_with_priority_def Let_def set_number_def)

lemma enqueue_jobs_ok: "jobs_ok s \<Longrightarrow> jobs_ok (snd (enqueue_with_priority now s k pr))"
proof -
  assume ok: "jobs_ok s"
  let ?t = "filter (\<lambda>(_, j). dedupe_id (j_kind j) \<noteq> dedupe_id k) (jobs_tbl s)"
  have le: "\<forall>a\<in>fst ` set ?t. a < Suc (job_seq s)" "tsorted ?t" using ok by (auto simp: jobs_ok_def)
  then have "tsorted (?t @ [(Suc (job_seq s), j)])" for j by (blast intro: tsorted_snoc)
  then show ?thesis using ok by (auto simp: jobs_ok_def enqueue_tbl[OF ok])
qed

lemma store_ok_enqueue [simp, store_simps]:
  "store_ok s \<Longrightarrow> store_ok (snd (enqueue_with_priority now s k pr))"
  by (simp add: store_ok_def enqueue_jobs_ok)

definition kinds :: "store \<Rightarrow> job_kind list" where
  "kinds s = map j_kind (jobs s)"

lemma kinds_tbl: "kinds s = map (\<lambda>(_, j). j_kind j) (jobs_tbl s)"
  by (auto simp: kinds_def jobs_def)

interpretation queue: job_queue store_ok kinds dedupe_id
  "\<lambda>s k. snd (enqueue_with_priority now s k pr)" for now pr
proof
  fix s k
  assume ok: "store_ok s"
  then show "store_ok (snd (enqueue_with_priority now s k pr))" by simp
  from ok have "jobs_ok s" by (simp add: store_ok_def)
  then show "kinds (snd (enqueue_with_priority now s k pr)) =
      filter (\<lambda>x. dedupe_id x \<noteq> dedupe_id k) (kinds s) @ [k]"
    by (simp add: kinds_tbl enqueue_tbl filter_map o_def split_def)
qed

definition queue_unique :: "store \<Rightarrow> bool" where
  "queue_unique s \<longleftrightarrow> distinct (map dedupe_id (kinds s))"

lemma enqueue_facts:
  assumes "store_ok s" "queue_unique s"
  shows "jobs (snd (enqueue_with_priority now s k pr)) =
      filter (\<lambda>j. dedupe_id (j_kind j) \<noteq> dedupe_id k) (jobs s) @
        [\<lparr>j_seq = fst (enqueue_with_priority now s k pr), j_kind = k, j_priority = pr, j_attempts = 0,
          j_not_before = 0, j_last_error = None, j_created = now\<rparr>]"
    and "\<forall>j\<in>set (jobs s). j_seq j < fst (enqueue_with_priority now s k pr)"
    and "store_ok (snd (enqueue_with_priority now s k pr))"
    and "queue_unique (snd (enqueue_with_priority now s k pr))"
proof -
  from assms have ok: "jobs_ok s" by (simp add: store_ok_def)
  show "jobs (snd (enqueue_with_priority now s k pr)) =
      filter (\<lambda>j. dedupe_id (j_kind j) \<noteq> dedupe_id k) (jobs s) @
        [\<lparr>j_seq = fst (enqueue_with_priority now s k pr), j_kind = k, j_priority = pr, j_attempts = 0,
          j_not_before = 0, j_last_error = None, j_created = now\<rparr>]"
    using ok by (simp add: jobs_def enqueue_tbl filter_map o_def split_def)
  show "\<forall>j\<in>set (jobs s). j_seq j < fst (enqueue_with_priority now s k pr)"
    using ok by (auto simp: jobs_ok_def jobs_def)
  show "store_ok (snd (enqueue_with_priority now s k pr))" using assms by simp
  show "queue_unique (snd (enqueue_with_priority now s k pr))"
    using queue.enq_unique[OF assms(1)] assms(2) by (simp add: queue.unique_def queue_unique_def)
qed

text \<open>
  C5: enqueueing a job on a well-formed file gives it a sequence number above every
  number in the queue, files it last, removes exactly the pending jobs with the same
  dedupe identity and leaves every other job untouched and in order; the file stays
  well-formed and the queue keeps at most one job per identity.
\<close>
theorem enqueue_replaces_and_appends:
  assumes "store_ok s" "queue_unique s"
  shows "jobs (snd (enqueue_with_priority now s k pr)) =
      filter (\<lambda>j. dedupe_id (j_kind j) \<noteq> dedupe_id k) (jobs s) @
        [\<lparr>j_seq = fst (enqueue_with_priority now s k pr), j_kind = k, j_priority = pr, j_attempts = 0,
          j_not_before = 0, j_last_error = None, j_created = now\<rparr>]
    \<and> (\<forall>j\<in>set (jobs s). j_seq j < fst (enqueue_with_priority now s k pr))
    \<and> store_ok (snd (enqueue_with_priority now s k pr))
    \<and> queue_unique (snd (enqueue_with_priority now s k pr))"
  using enqueue_facts[OF assms] by blast

definition demo_queue :: store where
  "demo_queue = snd (enqueue 7 (snd (enqueue 5 empty_store (JPush ''a''))) (JMkdir ''d''))"

lemma demo_queue_ok: "store_ok demo_queue \<and> queue_unique demo_queue"
proof -
  have "queue_unique empty_store" by (simp add: queue_unique_def kinds_tbl empty_store_def)
  then show ?thesis
    by (simp add: demo_queue_def enqueue_def queue_unique_def queue.enq_unique[unfolded queue.unique_def])
qed

lemma enqueue_replaces_and_appends_witness:
  "jobs (snd (enqueue_with_priority 9 demo_queue (JPush ''a'') Background)) =
      filter (\<lambda>j. dedupe_id (j_kind j) \<noteq> dedupe_id (JPush ''a'')) (jobs demo_queue) @
        [\<lparr>j_seq = fst (enqueue_with_priority 9 demo_queue (JPush ''a'') Background),
          j_kind = JPush ''a'', j_priority = Background, j_attempts = 0,
          j_not_before = 0, j_last_error = None, j_created = 9\<rparr>]
   \<and> queue_unique (snd (enqueue_with_priority 9 demo_queue (JPush ''a'') Background))"
  using enqueue_replaces_and_appends[of demo_queue 9 "JPush ''a''" Background] demo_queue_ok by blast

end
