(* ===== verification/Store_Moves.thy ===== *)
theory Store_Moves
  imports Store
begin

text \<open>
  What the store operations that move keys achieve: \<open>rekey\<close>, \<open>rekey_dirs\<close> and
  \<open>apply_directory_rename\<close> of \<^verbatim>\<open>mirror/store.rs\<close>, the opening of the file, and the
  laws of the remaining tables (instances of \<open>kv_store\<close>).
\<close>

section \<open>The tables as keyed stores\<close>

interpretation entry_kv: kv_store entry put_entry remove_entry
  by unfold_locales (simp_all add: entry_def put_entry_def remove_entry_def)

interpretation base_kv: kv_store base put_base remove_base
  by unfold_locales (simp_all add: base_def put_base_def remove_base_def)

interpretation meta_kv: kv_store meta set_meta remove_meta
  by unfold_locales (simp_all add: meta_def set_meta_def remove_meta_def)

interpretation trash_kv: kv_store trashed put_trashed remove_trashed
  by unfold_locales (simp_all add: trashed_def put_trashed_def remove_trashed_def)

interpretation number_kv: kv_store number set_number "\<lambda>s k. s\<lparr>cursors := tdel k (cursors s)\<rparr>"
  by unfold_locales (simp_all add: number_def set_number_def)

lemmas kv_get = entry_kv.get_put entry_kv.get_del base_kv.get_put base_kv.get_del
  meta_kv.get_put meta_kv.get_del trash_kv.get_put trash_kv.get_del number_kv.get_put

lemma conflict_put [simp]: "conflict (put_conflict s c) k = (if k = c_key c then Some c else conflict s k)"
  by (simp add: conflict_def put_conflict_def)

lemma conflict_remove [simp]: "conflict (remove_conflict s k) a = (if a = k then None else conflict s a)"
  by (simp add: conflict_def remove_conflict_def)

section \<open>Listings\<close>

lemma entries_under_filter:
  assumes "store_ok s"
  shows "entries_under s dir = filter (\<lambda>(k, _). dir = [] \<or> under k dir \<and> k \<noteq> dir) (entries s)"
proof (cases "dir = []")
  case False
  have "prefix (dir @ ''/'') k \<longleftrightarrow> under k dir \<and> k \<noteq> dir" for k
    by (auto simp: under_iff prefix_def)
  then show ?thesis
    using assms False by (simp add: entries_under_def entries_prefix_def store_ok_def list_prefix_filter)
qed (simp add: entries_under_def entries_prefix_def)

lemma dir_has_children_iff:
  assumes "store_ok s"
  shows "dir_has_children s dir \<longleftrightarrow>
    (\<exists>k. (entry s k \<noteq> None \<or> has_dir s k) \<and> under k dir \<and> k \<noteq> dir)"
proof -
  have p: "prefix (dir @ ''/'') k \<longleftrightarrow> under k dir \<and> k \<noteq> dir" for k
    by (auto simp: under_iff prefix_def)
  let ?P = "prefix (dir @ ''/'')"
  have "dir_has_children s dir \<longleftrightarrow>
      (\<exists>x\<in>set (entries s). ?P (fst x)) \<or> (\<exists>x\<in>set (dirs_tbl s). ?P (fst x))"
    using assms by (auto simp: dir_has_children_def entries_prefix_def store_ok_def list_prefix_filter
        filter_empty_conv list_ex_iff dirs_def starts_with_iff split_def)
  also have "\<dots> \<longleftrightarrow> (\<exists>k. entry s k \<noteq> None \<and> ?P k) \<or> (\<exists>k. has_dir s k \<and> ?P k)"
    using tkey_ex[of "entries s" ?P] tkey_ex[of "dirs_tbl s" ?P]
    by (simp only: entry_def has_dir_def)
  finally show ?thesis unfolding p by blast
qed

section \<open>Moving one key\<close>

lemma tget_move_row:
  "tget (move_row src dst t) a =
     (case tget t src of None \<Rightarrow> tget t a
      | Some v \<Rightarrow> if a = dst then Some v else if a = src then None else tget t a)"
  by (simp add: move_row_def split: option.splits)

text \<open>
  Rekey moves the entry and the agreed base of a key to the new name and touches no
  other key. A key without an entry (or without a base) moves nothing, so the base that
  the destination had is kept; the remembered file stamps of both names are dropped.
\<close>
theorem rekey_moves:
  "entry (rekey s src dst) a =
     (case entry s src of None \<Rightarrow> entry s a
      | Some e \<Rightarrow> if a = dst then Some e else if a = src then None else entry s a)
   \<and> base (rekey s src dst) a =
     (case base s src of None \<Rightarrow> base s a
      | Some b \<Rightarrow> if a = dst then Some b else if a = src then None else base s a)
   \<and> meta (rekey s src dst) (stamp_key src) = None
   \<and> meta (rekey s src dst) (stamp_key dst) = None
   \<and> jobs (rekey s src dst) = jobs s"
  by (simp add: rekey_def Let_def read_defs tget_move_row split: option.split)

section \<open>Moving a subtree\<close>

lemma mapped_inv [simp]: "under k src \<Longrightarrow> mapped dst src (mapped src dst k) = k"
  by (auto simp: mapped_def under_iff)

lemma under_mapped: "under k src \<Longrightarrow> under (mapped src dst k) dst"
  by (simp add: mapped_def rekey_under)

lemma mapped_inj: "under k src \<Longrightarrow> under k' src \<Longrightarrow> mapped src dst k = mapped src dst k' \<longleftrightarrow> k = k'"
  by (metis mapped_inv)

lemma under_disjoint: "\<not> overlaps a b \<Longrightarrow> under k a \<Longrightarrow> \<not> under k b"
  using under_linear overlaps_sym by blast

lemma move_fold:
  assumes "\<forall>k\<in>fst ` set rows. under k src" "\<not> overlaps src dst" "distinct (map fst rows)"
  shows "tget (foldl (\<lambda>t (key, v). tput (mapped src dst key) (f (mapped src dst key) v) (tdel key t)) t rows) a =
    (if under a dst
     then (case tget rows (mapped dst src a) of Some v \<Rightarrow> Some (f a v) | None \<Rightarrow> tget t a)
     else if a \<in> fst ` set rows then None else tget t a)"
  using assms
proof (induction rows arbitrary: t)
  case (Cons r rows)
  obtain k v where r: "r = (k, v)" by (cases r)
  have k: "under k src" and new: "k \<notin> fst ` set rows" using Cons.prems unfolding r by auto
  then have m: "under (mapped src dst k) dst" "\<not> under (mapped src dst k) src"
    using under_mapped under_disjoint[OF Cons.prems(2)] by blast+
  have kd: "\<not> under k dst" using k Cons.prems(2) under_disjoint by blast
  have inv: "mapped dst src a = k \<longleftrightarrow> a = mapped src dst k" if "under a dst"
    using that k by auto
  have none: "tget rows k = None" using new by (simp add: map_of_eq_None_iff)
  have IH: "tget (foldl (\<lambda>t (key, v). tput (mapped src dst key) (f (mapped src dst key) v) (tdel key t)) t' rows) a =
    (if under a dst
     then (case tget rows (mapped dst src a) of Some v \<Rightarrow> Some (f a v) | None \<Rightarrow> tget t' a)
     else if a \<in> fst ` set rows then None else tget t' a)" for t'
    using Cons.IH Cons.prems by auto
  show ?case
    unfolding r using m kd inv none k
    by (auto simp: IH split: option.splits)
qed simp

lemma tget_move_subtree:
  assumes "tsorted t" "\<not> overlaps src dst"
  shows "tget (move_subtree src dst f t) a =
    (if under a dst
     then (case tget t (mapped dst src a) of Some v \<Rightarrow> Some (f a v) | None \<Rightarrow> tget t a)
     else if under a src then None else tget t a)"
proof -
  let ?rows = "filter (\<lambda>(k, _). under k src) t"
  have d: "distinct (map fst ?rows)" using assms tsorted_distinct tsorted_filter by blast
  have u: "\<forall>k\<in>fst ` set ?rows. under k src" by auto
  have g: "tget ?rows k = (if under k src then tget t k else None)" for k by (rule tget_filter_key)
  have i: "under (mapped dst src a) src" if "under a dst" using that by (rule under_mapped)
  show ?thesis
    unfolding move_subtree_def move_fold[OF u assms(2) d] in_fst_tget g
    using i by (auto split: option.splits)
qed

lemma rekey_dir_name_mapped:
  "rekey_dir_name src dst d = (if under d src then Some (mapped src dst d) else None)"
proof (cases "strip_prefix (src @ ''/'') d")
  case None
  have "\<not> (\<exists>r. d = src @ slash # r)"
    using None by (metis append.assoc append_Cons append_Nil option.distinct(1) strip_prefix_append)
  then show ?thesis by (auto simp: rekey_dir_name_def under_iff mapped_def None)
next
  case (Some r)
  then have d: "d = src @ slash # r" by (simp add: strip_prefix_Some)
  have "rekey_dir_name src dst d = Some (dst @ slash # r)" using d Some by (simp add: rekey_dir_name_def)
  then show ?thesis unfolding d by (simp add: under_append mapped_def)
qed

lemma rekey_dirs_move:
  "rekey_dirs s src dst = s\<lparr>dirs_tbl := move_subtree src dst (\<lambda>_ v. v) (dirs_tbl s)\<rparr>"
proof -
  have "foldl (\<lambda>t d. case rekey_dir_name src dst d of
          None \<Rightarrow> t | Some new \<Rightarrow> tput new () (tdel d t)) t (map fst rows) =
        foldl (\<lambda>t (key, v). tput (mapped src dst key) v (tdel key t)) t
          (filter (\<lambda>(k, _). under k src) rows)" for t and rows :: "(string \<times> unit) list"
    by (induction rows arbitrary: t) (auto simp: rekey_dir_name_mapped)
  then show ?thesis by (simp add: rekey_dirs_def dirs_def move_subtree_def)
qed

section \<open>Re-sequencing the queue\<close>

fun renumber :: "nat \<Rightarrow> (job \<times> job_kind) list \<Rightarrow> (nat, job) table" where
  "renumber n [] = []"
| "renumber n ((p, k) # xs) = (n + 1, p\<lparr>j_kind := k, j_seq := n + 1\<rparr>) # renumber (n + 1) xs"

definition moved_jobs :: "nat \<Rightarrow> string \<Rightarrow> string \<Rightarrow> bool \<Rightarrow> job list \<Rightarrow> (job \<times> job_kind) list" where
  "moved_jobs q src dst remote ps =
     concat (map (\<lambda>p. case moved_kind q src dst remote p of Some k \<Rightarrow> [(p, k)] | None \<Rightarrow> []) ps)"

definition kept_rows :: "nat \<Rightarrow> string \<Rightarrow> string \<Rightarrow> bool \<Rightarrow> (nat, job) table \<Rightarrow> (nat, job) table" where
  "kept_rows q src dst remote t = filter (\<lambda>(_, p). moved_kind q src dst remote p = None) t"

lemma renumber_keys: "fst ` set (renumber n xs) \<subseteq> {n + 1 .. n + length xs}"
  by (induction n xs rule: renumber.induct) force+

lemma tdel_middle:
  "tsorted (A @ (q, p) # B) \<Longrightarrow> tdel q (A @ (q, p) # B) = A @ B"
proof -
  assume s: "tsorted (A @ (q, p) # B)"
  then have "\<forall>x\<in>set A. fst x \<noteq> q" "\<forall>x\<in>set B. fst x \<noteq> q"
    by (auto simp: tsorted_def sorted_wrt_append)
  then show ?thesis by (simp add: tdel_def filter_id_conv split_def)
qed

lemma tsorted_remove_middle: "tsorted (A @ r # B) \<Longrightarrow> tsorted (A @ B)"
  by (auto simp: tsorted_def sorted_wrt_append)

lemma resequence_fold:
  assumes "tsorted (A @ R @ N)" "\<forall>a\<in>fst ` set (A @ R @ N). a \<le> n" "\<forall>(q, p)\<in>set R. j_seq p = q"
  shows "foldl (resequence_step q src dst remote) (A @ R @ N, n) (map snd R) =
    (A @ kept_rows q src dst remote R @ N @ renumber n (moved_jobs q src dst remote (map snd R)),
     n + length (moved_jobs q src dst remote (map snd R)))"
  using assms
proof (induction R arbitrary: A N n)
  case (Cons r R)
  obtain k p where r: "r = (k, p)" by (cases r)
  then have kp: "j_seq p = k" using Cons.prems by simp
  show ?case
  proof (cases "moved_kind q src dst remote p")
    case None
    then show ?thesis
      using Cons.IH[of "A @ [r]" N n] Cons.prems
      unfolding r by (simp add: resequence_step_def kept_rows_def moved_jobs_def)
  next
    case (Some kd)
    let ?p = "p\<lparr>j_kind := kd, j_seq := n + 1\<rparr>"
    have del: "tdel k (A @ (k, p) # R @ N) = A @ R @ N"
      using Cons.prems(1) tdel_middle unfolding r by simp
    have lt: "\<forall>a\<in>fst ` set (A @ R @ N). a < n + 1" using Cons.prems(2) by (auto simp: less_Suc_eq_le)
    have srt: "tsorted ((A @ R @ N) @ [(n + 1, ?p)])"
      using tsorted_snoc[OF _ lt] tsorted_remove_middle[of A r "R @ N"] Cons.prems(1) by simp
    have step: "resequence_step q src dst remote (A @ (k, p) # R @ N, n) p =
        (A @ R @ (N @ [(n + 1, ?p)]), n + 1)"
      using Some kp del tput_last[OF lt] by (simp add: resequence_step_def)
    have "\<forall>a\<in>fst ` set (A @ R @ N @ [(n + 1, ?p)]). a \<le> n + 1" using lt by (simp add: less_imp_le ball_Un)
    then show ?thesis
      using Cons.IH[of A "N @ [(n + 1, ?p)]" "n + 1"] Cons.prems(3) srt Some
      unfolding r by (simp add: step kept_rows_def moved_jobs_def)
  qed
qed (simp add: kept_rows_def moved_jobs_def)

definition renamed_queue :: "store \<Rightarrow> job \<Rightarrow> string \<Rightarrow> string \<Rightarrow> bool \<Rightarrow> (nat, job) table" where
  "renamed_queue s jb src dst remote =
     kept_rows (j_seq jb) src dst remote (jobs_tbl s) @
     renumber (job_seq s) (moved_jobs (j_seq jb) src dst remote (map snd (jobs_tbl s)))"

lemma resequence_all:
  assumes "jobs_ok s"
  shows "foldl (resequence_step q src dst remote) (jobs_tbl s, job_seq s) (map snd (jobs_tbl s)) =
    (kept_rows q src dst remote (jobs_tbl s) @
       renumber (job_seq s) (moved_jobs q src dst remote (map snd (jobs_tbl s))),
     job_seq s + length (moved_jobs q src dst remote (map snd (jobs_tbl s))))"
  using resequence_fold[of "[]" "jobs_tbl s" "[]" "job_seq s" q src dst remote] assms
  by (force simp: jobs_ok_def)

lemma apply_directory_rename_eq:
  assumes "j_kind jb = JRenameDir src dst oid dev ino ident False remote" "jobs_ok s"
  shows "apply_directory_rename s jb =
    s\<lparr>metas := drop_stamps src dst (metas s),
      entries := move_subtree src dst (\<lambda>_ v. v) (entries s),
      bases := move_subtree src dst (\<lambda>_ v. v) (bases s),
      conflicts := move_subtree src dst (retarget_conflict src dst) (conflicts s),
      dirs_tbl := tput dst () (move_subtree src dst (\<lambda>_ v. v) (dirs_tbl s)),
      cursors := tput JOB_SEQ_KEY
        (job_seq s + length (moved_jobs (j_seq jb) src dst remote (map snd (jobs_tbl s)))) (cursors s),
      jobs_tbl := tput (j_seq jb) (jb\<lparr>j_kind := JRenameDir src dst oid dev ino ident True remote\<rparr>)
        (renamed_queue s jb src dst remote)\<rparr>"
  using resequence_all[OF assms(2), of "j_seq jb" src dst remote]
  by (simp add: apply_directory_rename_def assms(1) Let_def set_number_def renamed_queue_def store_simps)

lemma apply_directory_rename_skip:
  "j_kind jb = JRenameDir src dst oid dev ino ident True remote \<Longrightarrow> apply_directory_rename s jb = s"
  by (simp add: apply_directory_rename_def)

lemma tsorted_drop_stamps [simp]: "tsorted m \<Longrightarrow> tsorted (drop_stamps src dst m)"
  unfolding drop_stamps_def using tsorted_foldl_tdel[of m "\<lambda>k. k"] by simp

lemma tsorted_append:
  "tsorted A \<Longrightarrow> tsorted B \<Longrightarrow> \<forall>a\<in>fst ` set A. \<forall>b\<in>fst ` set B. a < b \<Longrightarrow> tsorted (A @ B)"
  by (auto simp: tsorted_def sorted_wrt_append)

lemma tsorted_renumber: "tsorted (renumber n xs)"
proof (induction n xs rule: renumber.induct)
  case (2 n p k xs)
  have "\<forall>a\<in>fst ` set (renumber (n + 1) xs). n + 1 < a"
    using renumber_keys[of "n + 1" xs] by fastforce
  then show ?case using 2 by (simp add: tsorted_Cons)
qed simp

lemma renumber_seq: "(q, j) \<in> set (renumber n xs) \<Longrightarrow> j_seq j = q \<and> n < q \<and> q \<le> n + length xs"
  by (induction n xs rule: renumber.induct) fastforce+

lemma renamed_queue_ok:
  assumes "jobs_ok s"
  shows "tsorted (renamed_queue s jb src dst remote)"
    and "\<forall>(q, j)\<in>set (renamed_queue s jb src dst remote). j_seq j = q \<and>
      q \<le> job_seq s + length (moved_jobs (j_seq jb) src dst remote (map snd (jobs_tbl s)))"
proof -
  have kept: "tsorted (kept_rows (j_seq jb) src dst remote (jobs_tbl s))"
    "\<forall>(q, j)\<in>set (kept_rows (j_seq jb) src dst remote (jobs_tbl s)). j_seq j = q \<and> q \<le> job_seq s"
    using assms by (auto simp: jobs_ok_def kept_rows_def)
  show "tsorted (renamed_queue s jb src dst remote)"
    unfolding renamed_queue_def
    using kept renumber_seq[of _ _ "job_seq s"] tsorted_renumber by (intro tsorted_append) fastforce+
  show "\<forall>(q, j)\<in>set (renamed_queue s jb src dst remote). j_seq j = q \<and>
      q \<le> job_seq s + length (moved_jobs (j_seq jb) src dst remote (map snd (jobs_tbl s)))"
    using kept(2) renumber_seq by (fastforce simp: renamed_queue_def)
qed

lemma directory_rename_key_facts:
  assumes "store_ok s" "j_kind jb = JRenameDir src dst oid dev ino ident False remote"
    "\<not> overlaps src dst"
  shows "entry (apply_directory_rename s jb) a =
      (if under a dst
       then (case entry s (mapped dst src a) of Some e \<Rightarrow> Some e | None \<Rightarrow> entry s a)
       else if under a src then None else entry s a)"
    and "base (apply_directory_rename s jb) a =
      (if under a dst
       then (case base s (mapped dst src a) of Some b \<Rightarrow> Some b | None \<Rightarrow> base s a)
       else if under a src then None else base s a)"
    and "has_dir (apply_directory_rename s jb) a \<longleftrightarrow>
      a = dst \<or> under a dst \<and> has_dir s (mapped dst src a) \<or> has_dir s a \<and> \<not> under a src"
proof -
  from assms have ok: "jobs_ok s" by (simp add: store_ok_def)
  note eq = apply_directory_rename_eq[OF assms(2) ok]
  from assms(1) have t: "tsorted (entries s)" "tsorted (bases s)" "tsorted (dirs_tbl s)"
    by (simp_all add: store_ok_def)
  show "entry (apply_directory_rename s jb) a =
      (if under a dst
       then (case entry s (mapped dst src a) of Some e \<Rightarrow> Some e | None \<Rightarrow> entry s a)
       else if under a src then None else entry s a)"
    unfolding entry_def by (simp add: eq tget_move_subtree[OF t(1) assms(3)] split: option.split)
  show "base (apply_directory_rename s jb) a =
      (if under a dst
       then (case base s (mapped dst src a) of Some b \<Rightarrow> Some b | None \<Rightarrow> base s a)
       else if under a src then None else base s a)"
    unfolding base_def by (simp add: eq tget_move_subtree[OF t(2) assms(3)] split: option.split)
  have "under a dst \<Longrightarrow> \<not> under a src" using under_disjoint[OF assms(3)] by blast
  then show "has_dir (apply_directory_rename s jb) a \<longleftrightarrow>
      a = dst \<or> under a dst \<and> has_dir s (mapped dst src a) \<or> has_dir s a \<and> \<not> under a src"
    by (auto simp: has_dir_def eq tget_move_subtree[OF t(3) assms(3)] split: option.splits)
qed

text \<open>
  C4: completing a directory rename re-keys the local index exactly: below the new name
  stands what stood below the old one (an entry, base or explicit directory the new name
  already had survives only where nothing moved onto it), below the old name nothing is
  left, and no other key changes.
\<close>
theorem directory_rename_rekeys_subtree:
  assumes "store_ok s" "j_kind jb = JRenameDir src dst oid dev ino ident False remote"
    "\<not> overlaps src dst"
  shows "entry (apply_directory_rename s jb) a =
      (if under a dst
       then (case entry s (mapped dst src a) of Some e \<Rightarrow> Some e | None \<Rightarrow> entry s a)
       else if under a src then None else entry s a)
    \<and> base (apply_directory_rename s jb) a =
      (if under a dst
       then (case base s (mapped dst src a) of Some b \<Rightarrow> Some b | None \<Rightarrow> base s a)
       else if under a src then None else base s a)
    \<and> (has_dir (apply_directory_rename s jb) a \<longleftrightarrow>
      a = dst \<or> under a dst \<and> has_dir s (mapped dst src a) \<or> has_dir s a \<and> \<not> under a src)"
  using directory_rename_key_facts[OF assms] by blast

definition demo_rename :: job where
  "demo_rename = \<lparr>j_seq = 3, j_kind = JRenameDir ''d'' ''e'' ''op'' 1 2 None False True,
     j_priority = Interactive, j_attempts = 0, j_not_before = 0, j_last_error = None, j_created = 0\<rparr>"

definition demo_file :: store where
  "demo_file = snd (enqueue 0 (snd (enqueue 0 (snd (enqueue 0
     (put_entry empty_store ''d/x'' \<lparr>e_sha256 = ''h'', e_size = 1, e_mtime = 2, e_state = Dirty\<rparr>)
     (JPush ''d/x''))) (JMkdir ''d/y''))) (JRenameDir ''d'' ''e'' ''op'' 1 2 None False True))"

lemma demo_file_ok: "store_ok demo_file"
  by (simp add: demo_file_def enqueue_def)

lemma directory_rename_rekeys_subtree_witness:
  "entry (apply_directory_rename demo_file demo_rename) ''e/x'' =
      (if under ''e/x'' ''e''
       then (case entry demo_file (mapped ''e'' ''d'' ''e/x'') of Some e \<Rightarrow> Some e | None \<Rightarrow> entry demo_file ''e/x'')
       else if under ''e/x'' ''d'' then None else entry demo_file ''e/x'')"
proof -
  have "j_kind demo_rename = JRenameDir ''d'' ''e'' ''op'' 1 2 None False True"
    by (simp add: demo_rename_def)
  moreover have "\<not> overlaps ''d'' ''e''" by (simp add: overlaps_def under_def)
  ultimately show ?thesis using directory_rename_rekeys_subtree[OF demo_file_ok] by blast
qed

lemma moved_conflicts_keyed:
  assumes "\<forall>(k, c)\<in>set t. c_key c = k"
  shows "\<forall>(k, c)\<in>set (move_subtree src dst (retarget_conflict src dst) t). c_key c = k"
proof -
  have "\<forall>(k, c)\<in>set (foldl (\<lambda>t (key, v). tput (mapped src dst key)
      (retarget_conflict src dst (mapped src dst key) v) (tdel key t)) t rows). c_key c = k" for rows
    using assms
  proof (induction rows arbitrary: t)
    case (Cons r rows)
    obtain k v where r: "r = (k, v)" by (cases r)
    have "\<forall>(a, c)\<in>set (tput (mapped src dst k) (retarget_conflict src dst (mapped src dst k) v) (tdel k t)). c_key c = a"
      using Cons.prems set_tput_subset[of "mapped src dst k" "retarget_conflict src dst (mapped src dst k) v" "tdel k t"]
      by (fastforce simp: retarget_conflict_def)
    then show ?case using Cons.IH unfolding r by simp
  qed simp
  then show ?thesis unfolding move_subtree_def by blast
qed

lemma apply_directory_rename_tbl:
  assumes "jobs_ok s" "j_kind jb = JRenameDir src dst oid dev ino ident False remote"
  shows "jobs_tbl (apply_directory_rename s jb) =
      tput (j_seq jb) (jb\<lparr>j_kind := JRenameDir src dst oid dev ino ident True remote\<rparr>)
        (renamed_queue s jb src dst remote)"
    and "job_seq (apply_directory_rename s jb) =
      job_seq s + length (moved_jobs (j_seq jb) src dst remote (map snd (jobs_tbl s)))"
  by (simp_all add: apply_directory_rename_eq[OF assms(2,1)] job_seq_def number_def)

lemma apply_directory_rename_ok:
  assumes "store_ok s" "j_seq jb \<le> job_seq s"
  shows "store_ok (apply_directory_rename s jb)"
proof (cases "\<exists>src dst oid dev ino ident remote. j_kind jb = JRenameDir src dst oid dev ino ident False remote")
  case True
  then obtain src dst oid dev ino ident remote
    where k: "j_kind jb = JRenameDir src dst oid dev ino ident False remote" by blast
  let ?jb = "jb\<lparr>j_kind := JRenameDir src dst oid dev ino ident True remote\<rparr>"
  let ?mv = "moved_jobs (j_seq jb) src dst remote (map snd (jobs_tbl s))"
  let ?Q = "renamed_queue s jb src dst remote"
  from assms have ok: "jobs_ok s" by (simp add: store_ok_def)
  note Q = renamed_queue_ok[OF ok, of jb src dst remote]
  note js = apply_directory_rename_tbl[OF ok k]
  have "\<forall>(q, j)\<in>set (tput (j_seq jb) ?jb ?Q). j_seq j = q \<and> q \<le> job_seq s + length ?mv"
    using Q(2) assms(2) set_tput_subset[of "j_seq jb" ?jb ?Q] by fastforce
  then have "jobs_ok (apply_directory_rename s jb)" using Q(1) by (simp add: jobs_ok_def js)
  moreover have "\<forall>(k, c)\<in>set (move_subtree src dst (retarget_conflict src dst) (conflicts s)). c_key c = k"
    using assms(1) by (intro moved_conflicts_keyed) (simp add: store_ok_def)
  ultimately show ?thesis
    using assms(1) by (simp add: store_ok_def apply_directory_rename_eq[OF k ok])
next
  case False
  then have "apply_directory_rename s jb = s"
    by (cases "j_kind jb") (auto simp: apply_directory_rename_def split: bool.splits)
  then show ?thesis using assms by simp
qed

lemma apply_directory_rename_job_seq:
  assumes "jobs_ok s"
  shows "job_seq s \<le> job_seq (apply_directory_rename s jb)"
proof (cases "j_kind jb")
  case (JRenameDir src dst oid dev ino ident app remote)
  then show ?thesis
    by (cases app) (simp_all add: apply_directory_rename_skip apply_directory_rename_tbl[OF assms])
qed (simp_all add: apply_directory_rename_def)

lemma directory_rename_queue_facts:
  assumes "store_ok s" "tget (jobs_tbl s) (j_seq jb) = Some jb"
    "j_kind jb = JRenameDir src dst oid dev ino ident False remote"
  shows "jobs (apply_directory_rename s jb) =
      map (\<lambda>j. if j_seq j = j_seq jb
               then jb\<lparr>j_kind := JRenameDir src dst oid dev ino ident True remote\<rparr> else j)
        (filter (\<lambda>j. moved_kind (j_seq jb) src dst remote j = None) (jobs s))
      @ map snd (renumber (job_seq s) (moved_jobs (j_seq jb) src dst remote (jobs s)))"
    and "store_ok (apply_directory_rename s jb)"
proof -
  let ?jb = "jb\<lparr>j_kind := JRenameDir src dst oid dev ino ident True remote\<rparr>"
  let ?mv = "moved_jobs (j_seq jb) src dst remote (map snd (jobs_tbl s))"
  let ?Q = "renamed_queue s jb src dst remote"
  from assms have ok: "jobs_ok s" by (simp add: store_ok_def)
  note Q = renamed_queue_ok[OF ok, of jb src dst remote]
  have le: "j_seq jb \<le> job_seq s" using jobs_ok_bound[OF ok assms(2)] by simp
  show ok': "store_ok (apply_directory_rename s jb)"
    using assms(1) le by (rule apply_directory_rename_ok)
  have "moved_kind (j_seq jb) src dst remote jb = None" by (simp add: moved_kind_def)
  then have "tget (kept_rows (j_seq jb) src dst remote (jobs_tbl s)) (j_seq jb) = Some jb"
    using assms(2) ok by (simp add: kept_rows_def tget_filter jobs_ok_def)
  then have "(j_seq jb, jb) \<in> set ?Q" by (auto simp: renamed_queue_def dest: map_of_SomeD)
  then have "tget ?Q (j_seq jb) \<noteq> None" using tsorted_lookup[OF Q(1)] by simp
  then have put: "tput (j_seq jb) ?jb ?Q = map (\<lambda>(a, w). (a, if a = j_seq jb then ?jb else w)) ?Q"
    by (rule tput_eq_map[OF Q(1)])
  have new: "map (\<lambda>(a, w). (a, if a = j_seq jb then ?jb else w)) (renumber (job_seq s) ?mv)
      = renumber (job_seq s) ?mv"
    using renumber_seq[of _ _ "job_seq s" ?mv] le by (fastforce intro!: map_idI)
  have seqs: "\<forall>(q, j)\<in>set (jobs_tbl s). j_seq j = q" using ok by (auto simp: jobs_ok_def)
  have "jobs (apply_directory_rename s jb) = map snd (tput (j_seq jb) ?jb ?Q)"
    using store_ok_jobs[OF ok'] apply_directory_rename_tbl(1)[OF ok assms(3)] by simp
  also have "\<dots> = map (\<lambda>(a, w). if a = j_seq jb then ?jb else w) (kept_rows (j_seq jb) src dst remote (jobs_tbl s))
      @ map snd (renumber (job_seq s) ?mv)"
    unfolding put unfolding renamed_queue_def map_append new by (simp add: o_def split_def)
  also have "map (\<lambda>(a, w). if a = j_seq jb then ?jb else w) (kept_rows (j_seq jb) src dst remote (jobs_tbl s)) =
      map (\<lambda>j. if j_seq j = j_seq jb then ?jb else j)
        (filter (\<lambda>j. moved_kind (j_seq jb) src dst remote j = None) (map snd (jobs_tbl s)))"
    using seqs by (induction "jobs_tbl s") (auto simp: kept_rows_def filter_map o_def split_def intro!: map_cong)
  finally show "jobs (apply_directory_rename s jb) =
      map (\<lambda>j. if j_seq j = j_seq jb then ?jb else j)
        (filter (\<lambda>j. moved_kind (j_seq jb) src dst remote j = None) (jobs s))
      @ map snd (renumber (job_seq s) (moved_jobs (j_seq jb) src dst remote (jobs s)))"
    by (simp add: jobs_ok_jobs[OF ok])
qed

text \<open>
  Completing a directory rename re-targets the queue: every pending job that follows
  the local path is moved to the end under its new key with a fresh number, in the order
  it had; every other job stays where it was; the rename itself is marked as applied in
  place. The file stays well-formed, so no two jobs share a number.
\<close>
theorem directory_rename_requeues:
  assumes "store_ok s" "tget (jobs_tbl s) (j_seq jb) = Some jb"
    "j_kind jb = JRenameDir src dst oid dev ino ident False remote"
  shows "jobs (apply_directory_rename s jb) =
      map (\<lambda>j. if j_seq j = j_seq jb
               then jb\<lparr>j_kind := JRenameDir src dst oid dev ino ident True remote\<rparr> else j)
        (filter (\<lambda>j. moved_kind (j_seq jb) src dst remote j = None) (jobs s))
      @ map snd (renumber (job_seq s) (moved_jobs (j_seq jb) src dst remote (jobs s)))
    \<and> store_ok (apply_directory_rename s jb)"
  using directory_rename_queue_facts[OF assms] by blast

definition demo_rename_file :: store where
  "demo_rename_file = demo_file\<lparr>jobs_tbl := tput 3 demo_rename (jobs_tbl demo_file)\<rparr>"

lemma demo_file_seq: "job_seq demo_file = 3"
  by (simp add: demo_file_def enqueue_def) (simp add: job_seq_def number_def put_entry_def empty_store_def)

lemma demo_rename_file_ok: "store_ok demo_rename_file"
proof -
  have j: "jobs_ok demo_file" using demo_file_ok by (simp add: store_ok_def)
  have "set (tput 3 demo_rename (jobs_tbl demo_file)) \<subseteq> insert (3, demo_rename) (set (jobs_tbl demo_file))"
    by (rule set_tput_subset)
  then have "jobs_ok demo_rename_file"
    using j demo_file_seq
    by (fastforce simp: jobs_ok_def demo_rename_file_def store_simps demo_rename_def)
  then show ?thesis using demo_file_ok by (simp add: store_ok_def demo_rename_file_def)
qed

lemma directory_rename_requeues_witness:
  "jobs (apply_directory_rename demo_rename_file demo_rename) =
      map (\<lambda>j. if j_seq j = j_seq demo_rename
               then demo_rename\<lparr>j_kind := JRenameDir ''d'' ''e'' ''op'' 1 2 None True True\<rparr> else j)
        (filter (\<lambda>j. moved_kind (j_seq demo_rename) ''d'' ''e'' True j = None) (jobs demo_rename_file))
      @ map snd (renumber (job_seq demo_rename_file)
          (moved_jobs (j_seq demo_rename) ''d'' ''e'' True (jobs demo_rename_file)))"
proof -
  have "tget (jobs_tbl demo_rename_file) (j_seq demo_rename) = Some demo_rename"
    by (simp add: demo_rename_file_def demo_rename_def)
  moreover have "j_kind demo_rename = JRenameDir ''d'' ''e'' ''op'' 1 2 None False True"
    by (simp add: demo_rename_def)
  ultimately show ?thesis using directory_rename_requeues[OF demo_rename_file_ok] by blast
qed

section \<open>Jobs in flight\<close>

lemma update_job_map:
  assumes "store_ok s"
  shows "jobs (update_job s j) = map (\<lambda>x. if j_seq x = j_seq j then j else x) (jobs s)"
proof (cases "tget (jobs_tbl s) (j_seq j)")
  case None
  then have "\<forall>x\<in>set (jobs_tbl s). fst x \<noteq> j_seq j" by (metis image_eqI map_of_eq_None_iff)
  then show ?thesis using None by (fastforce simp: update_job_def jobs_def)
next
  case (Some old)
  have srt: "tsorted (jobs_tbl s)" using assms by (simp add: store_ok_def jobs_ok_def)
  have "jobs_tbl (update_job s j) = map (\<lambda>(a, w). (a, if a = j_seq j then j else w)) (jobs_tbl s)"
    using tput_eq_map[OF srt, of "j_seq j" j] Some by (simp add: update_job_def)
  then show ?thesis by (auto simp: jobs_def)
qed

text \<open>
  Writing back a finished attempt cannot resurrect a job: when the queue no longer
  holds the job's number (a newer edit replaced it) update_job changes nothing, and
  otherwise it replaces that one job in place, leaving numbers and order alone.
\<close>
theorem update_job_in_place:
  assumes "store_ok s"
  shows "jobs (update_job s j) = map (\<lambda>x. if j_seq x = j_seq j then j else x) (jobs s)"
  using assms by (rule update_job_map)

lemma update_job_in_place_witness:
  "jobs (update_job demo_file demo_rename) =
     map (\<lambda>x. if j_seq x = j_seq demo_rename then demo_rename else x) (jobs demo_file)"
  by (rule update_job_in_place[OF demo_file_ok])

lemma remove_jobs_for_spec:
  assumes "store_ok s"
  shows "fst (remove_jobs_for s key) = filter (\<lambda>j. key_of (j_kind j) = key) (jobs s)"
    and "jobs (snd (remove_jobs_for s key)) = filter (\<lambda>j. key_of (j_kind j) \<noteq> key) (jobs s)"
proof -
  show "fst (remove_jobs_for s key) = filter (\<lambda>j. key_of (j_kind j) = key) (jobs s)"
    by (simp add: remove_jobs_for_def Let_def)
  have d: "distinct (map fst (jobs_tbl s))" "\<forall>(q, j)\<in>set (jobs_tbl s). j_seq j = q"
    using assms tsorted_distinct by (auto simp: store_ok_def jobs_ok_def)
  have "jobs_tbl (snd (remove_jobs_for s key)) = filter (\<lambda>(_, j). key_of (j_kind j) \<noteq> key) (jobs_tbl s)"
  proof -
    have "j_seq ` set (filter (\<lambda>j. key_of (j_kind j) = key) (map snd (jobs_tbl s))) =
        fst ` {x \<in> set (jobs_tbl s). key_of (j_kind (snd x)) = key}"
      using d(2) by force
    then show ?thesis
      using tfilter_victims[OF d(1), of "\<lambda>j. key_of (j_kind j) = key"]
      by (simp add: remove_jobs_for_def Let_def foldl_tdel_filter store_ok_jobs[OF assms])
  qed
  then show "jobs (snd (remove_jobs_for s key)) = filter (\<lambda>j. key_of (j_kind j) \<noteq> key) (jobs s)"
    by (simp add: jobs_def filter_map o_def split_def)
qed

section \<open>Dedupe identity\<close>

text \<open>The identity the comment of the code promises: one pending job per kind and key(s).\<close>

fun same_target :: "job_kind \<Rightarrow> job_kind \<Rightarrow> bool" where
  "same_target (JPush a) k = (case k of JPush b \<Rightarrow> a = b | _ \<Rightarrow> False)"
| "same_target (JDelete a _) k = (case k of JDelete b _ \<Rightarrow> a = b | _ \<Rightarrow> False)"
| "same_target (JRename a b) k = (case k of JRename c d \<Rightarrow> a = c \<and> b = d | _ \<Rightarrow> False)"
| "same_target (JRenameDir _ _ i _ _ _ _ _) k =
     (case k of JRenameDir _ _ j _ _ _ _ _ \<Rightarrow> i = j | _ \<Rightarrow> False)"
| "same_target (JConflict a _ _) k = (case k of JConflict b _ _ \<Rightarrow> a = b | _ \<Rightarrow> False)"
| "same_target (JMkdir a) k = (case k of JMkdir b \<Rightarrow> a = b | _ \<Rightarrow> False)"
| "same_target (JRmdir a) k = (case k of JRmdir b \<Rightarrow> a = b | _ \<Rightarrow> False)"

fun bar_free :: "job_kind \<Rightarrow> bool" where
  "bar_free (JRename a b) = (CHR ''|'' \<notin> set a)"
| "bar_free _ = True"

lemma bar_split: "c \<notin> set a \<Longrightarrow> c \<notin> set a' \<Longrightarrow> a @ c # b = a' @ c # b' \<longleftrightarrow> a = a' \<and> b = b'"
  by (metis (no_types, lifting) split_once_Some option.inject prod.inject)

text \<open>
  As long as no renamed key contains a bar, two jobs have the same dedupe identity
  exactly when they are of the same kind on the same key (both keys of a rename, the
  operation id of a directory move), so the queue drops nothing but true repetitions.
\<close>
theorem dedupe_id_exact:
  assumes "bar_free k1" "bar_free k2"
  shows "dedupe_id k1 = dedupe_id k2 \<longleftrightarrow> same_target k1 k2"
  using assms by (cases k1; cases k2) (auto simp: bar_split)

lemma dedupe_id_exact_witness:
  "dedupe_id (JRename ''a'' ''b|c'') = dedupe_id (JRename ''a'' ''b|c'')
     \<longleftrightarrow> same_target (JRename ''a'' ''b|c'') (JRename ''a'' ''b|c'')"
  by (rule dedupe_id_exact) simp_all

text \<open>
  A key may contain a bar, and then the identity is ambiguous: queueing the rename of
  "a" to "b|c" removes the pending, unrelated rename of "a|b" to "c" from the queue, so
  that rename is never sent to the hub.
\<close>
theorem dedupe_id_collision:
  "jobs (snd (enqueue 0 (snd (enqueue 0 empty_store (JRename ''a|b'' ''c''))) (JRename ''a'' ''b|c''))) =
     [\<lparr>j_seq = 2, j_kind = JRename ''a'' ''b|c'', j_priority = Interactive, j_attempts = 0,
       j_not_before = 0, j_last_error = None, j_created = 0\<rparr>]"
  by (simp add: enqueue_def enqueue_with_priority_def Let_def jobs_def empty_store_def
      job_seq_def number_def set_number_def tdel_def)

section \<open>The audit of suppressed actions\<close>

text \<open>
  Recording a suppressed action reports it as new exactly when its slot (action, key,
  destination) held no equal observation; afterwards the observation is on file, the
  recheck flag is set, and recording the same observation again reports nothing and
  writes nothing, at whatever time it is seen.
\<close>
theorem record_blocked_once:
  "fst (record_blocked json s a) =
     (\<not> (case tget (blocked s) (blocked_id json a) of Some p \<Rightarrow> same_observation p a | None \<Rightarrow> False))
   \<and> meta (snd (record_blocked json s a)) RECHECK \<noteq> None
   \<and> record_blocked json (snd (record_blocked json s a)) (a\<lparr>a_observed_at := t\<rparr>) =
       (False, snd (record_blocked json s a))"
proof -
  let ?i = "blocked_id json a"
  let ?same = "case tget (blocked s) ?i of Some p \<Rightarrow> same_observation p a | None \<Rightarrow> False"
  have i: "blocked_id json (a\<lparr>a_observed_at := t\<rparr>) = ?i" by (simp add: blocked_id_def)
  have o: "same_observation p (a\<lparr>a_observed_at := t\<rparr>) = same_observation p a" for p
    by (simp add: same_observation_def)
  have refl: "same_observation a a" by (simp add: same_observation_def)
  show ?thesis
  proof (cases "?same \<and> meta s RECHECK \<noteq> None")
    case True
    then have r: "record_blocked json s a = (False, s)" by (simp add: record_blocked_def Let_def)
    have "record_blocked json s (a\<lparr>a_observed_at := t\<rparr>) = (False, s)"
      using True unfolding record_blocked_def i o Let_def by simp
    then show ?thesis using True r by simp
  next
    case False
    let ?s = "s\<lparr>blocked := tput ?i a (blocked s), metas := tput RECHECK ''1'' (metas s)\<rparr>"
    have r: "record_blocked json s a = (\<not> ?same, ?s)"
      unfolding record_blocked_def Let_def using False by (subst if_not_P) simp_all
    have "meta ?s RECHECK = Some ''1''" "tget (blocked ?s) ?i = Some a" by (simp_all add: meta_def)
    then have "record_blocked json ?s (a\<lparr>a_observed_at := t\<rparr>) = (False, ?s)"
      using refl unfolding record_blocked_def i o Let_def by simp
    then show ?thesis using r by (simp add: meta_def)
  qed
qed

lemma remove_blocked_for_spec:
  assumes "store_ok s"
  shows "blocked_actions (remove_blocked_for s key) = filter (\<lambda>a. a_key a \<noteq> key) (blocked_actions s)"
proof -
  have d: "distinct (map fst (blocked s))"
    using assms tsorted_distinct by (auto simp: store_ok_def)
  have "blocked (remove_blocked_for s key) = filter (\<lambda>(_, a). a_key a \<noteq> key) (blocked s)"
    using tfilter_victims[OF d, of "\<lambda>a. a_key a = key"] foldl_tdel_filter[of "\<lambda>i. i" "blocked s"]
    by (simp add: remove_blocked_for_def split_def)
  then show ?thesis by (simp add: blocked_actions_def filter_map o_def split_def)
qed

section \<open>Opening\<close>

lemma names_opened: "''meta_v2'' \<in> set (opened_names xs)"
proof -
  have "''meta_v2'' \<in> set table_names" "''meta_v2'' \<notin> set RETIRED" by code_simp+
  then show ?thesis by (simp add: opened_names_def)
qed

lemma names_not_legacy: "''entries_v1'' \<notin> set (opened_names xs)"
proof -
  have "''entries_v1'' \<in> set RETIRED" by code_simp
  then show ?thesis by (simp add: opened_names_def)
qed

lemma names_again: "opened_names (opened_names xs) = opened_names xs"
proof -
  have "set table_names \<inter> set RETIRED = {}" by code_simp
  then have "filter (\<lambda>n. n \<notin> set (opened_names xs)) table_names = []"
    by (auto simp: filter_empty_conv opened_names_def)
  then have "opened_names (opened_names xs) = filter (\<lambda>n. n \<notin> set RETIRED) (opened_names xs)"
    by (metis append_Nil2 opened_names_def)
  then show ?thesis by (simp add: opened_names_def)
qed

lemma open_inner_bound:
  "open_inner d (Some b) =
     (case check_binding d b of
        Some e \<Rightarrow> Inl e
      | None \<Rightarrow> Inr (\<lparr>d_existing = opened_names (d_existing d),
            d_store = set_meta (set_meta (d_store d) META_BINDING (bind_marker b)) META_DIRECTORIES (bind_directories b),
            d_v1 = \<lparr>l_entries = [], l_bases = [], l_trash = [], l_conflicts = []\<rparr>\<rparr>,
          if ''entries_v1'' \<in> set (d_existing d) \<and> \<not> legacy_is_empty (d_v1 d) then Some (d_v1 d) else None))"
  by (simp add: open_inner_def Let_def split: option.split)

lemma set_meta_twice: "meta s k = Some v \<Longrightarrow> tsorted (metas s) \<Longrightarrow> set_meta s k v = s"
proof -
  assume m: "meta s k = Some v" "tsorted (metas s)"
  then have "tput k v (metas s) = map (\<lambda>(a, w). (a, if a = k then v else w)) (metas s)"
    by (intro tput_eq_map) (simp_all add: meta_def)
  also have "\<dots> = metas s"
    using m tsorted_lookup[OF m(2)] by (auto simp: meta_def intro!: map_idI)
  finally show ?thesis by (simp add: set_meta_def)
qed

text \<open>
  Opening the ledger for a replica succeeds only when the ledger is new or carries
  this replica's marker, and only when the recorded directory identity is absent or equal
  (absent needs the legacy identity to match, or the user's explicit acceptance with the
  marker in place). A successful open leaves the sync history as it was, records marker
  and identity, and opening again with them succeeds without a second migration.
\<close>
theorem open_bound_checks_replica:
  assumes "open_bound d m ds legacy_matches accept = Inr (d', l)" "store_ok (d_store d)"
  shows "(replica_binding d = Some m \<or> d_existing d = [])
    \<and> (read_meta d META_DIRECTORIES = Some ds
        \<or> read_meta d META_DIRECTORIES = None
          \<and> (legacy_matches \<or> accept \<and> replica_binding d = Some m))
    \<and> d_store d' = set_meta (set_meta (d_store d) META_BINDING m) META_DIRECTORIES ds
    \<and> replica_binding d' = Some m
    \<and> open_bound d' m ds lm' acc' = Inr (d', None)"
proof -
  have rb: "replica_binding x = read_meta x META_BINDING" for x
    by (simp add: replica_binding_def read_meta_def)
  let ?b = "\<lparr>bind_marker = m, bind_directories = ds,
       bind_legacy_matches = legacy_matches, bind_accept_device_change = accept\<rparr>"
  let ?s = "set_meta (set_meta (d_store d) META_BINDING m) META_DIRECTORIES ds"
  have c: "check_binding d ?b = None"
    using assms(1) unfolding open_bound_def open_inner_bound by (cases "check_binding d ?b") simp_all
  have d': "d' = \<lparr>d_existing = opened_names (d_existing d), d_store = ?s,
      d_v1 = \<lparr>l_entries = [], l_bases = [], l_trash = [], l_conflicts = []\<rparr>\<rparr>"
    using assms(1) c unfolding open_bound_def open_inner_bound by simp
  have first: "read_meta d META_BINDING = Some m \<or> d_existing d = []"
    using c by (simp add: check_binding_def Let_def split: if_splits)
  have second: "read_meta d META_DIRECTORIES = Some ds \<or> read_meta d META_DIRECTORIES = None
      \<and> (legacy_matches \<or> accept \<and> read_meta d META_BINDING = Some m)"
    using c by (auto simp: check_binding_def Let_def split: if_splits option.splits)
  have st: "d_store d' = ?s" "d_existing d' = opened_names (d_existing d)"
    by (simp_all add: d')
  have mm: "meta ?s META_BINDING = Some m" "meta ?s META_DIRECTORIES = Some ds"
    by (simp_all add: meta_def set_meta_def)
  have r: "read_meta d' META_BINDING = Some m" "read_meta d' META_DIRECTORIES = Some ds"
    using names_opened[of "d_existing d"] mm by (simp_all add: read_meta_def st)
  have "tsorted (metas ?s)" using assms(2) by (simp add: set_meta_def store_ok_def)
  then have same: "set_meta (set_meta ?s META_BINDING m) META_DIRECTORIES ds = ?s"
    using mm by (simp add: set_meta_twice)
  have "check_binding d' \<lparr>bind_marker = m, bind_directories = ds,
       bind_legacy_matches = lm', bind_accept_device_change = acc'\<rparr> = None"
    using r by (simp add: check_binding_def)
  then have "open_bound d' m ds lm' acc' = Inr (d', None)"
    using names_not_legacy[of "d_existing d"]
    unfolding open_bound_def open_inner_bound by (simp add: st names_again same) (simp add: d')
  then show ?thesis using first second r(1) by (simp add: rb st)
qed

definition fresh_db :: database where
  "fresh_db = \<lparr>d_existing = [], d_store = empty_store,
     d_v1 = \<lparr>l_entries = [], l_bases = [], l_trash = [], l_conflicts = []\<rparr>\<rparr>"

lemma open_bound_checks_replica_witness:
  "replica_binding (fst (projr (open_bound fresh_db ''M'' ''D'' True False))) = Some ''M''"
proof -
  obtain d' l where o: "open_bound fresh_db ''M'' ''D'' True False = Inr (d', l)"
    by (simp add: open_bound_def open_inner_bound check_binding_def read_meta_def fresh_db_def)
  have "store_ok (d_store fresh_db)" by (simp add: fresh_db_def)
  then show ?thesis using open_bound_checks_replica[OF o] by (simp add: o)
qed

end
