(* ===== verification/Local_Fs.thy ===== *)
theory Local_Fs
  imports Store_Moves
begin

text \<open>
  The mirror's bytes, \<^verbatim>\<open>mirror/local.rs\<close>: one plain folder, the local trash, the conflict
  snapshots and the partial downloads beside it.

  A \<open>folder\<close> maps relative paths to nodes (file, directory, symbolic link or special
  file). The system calls the code uses act on it the way POSIX says, with their error
  codes (\<open>io_error\<close>). The
  order in which \<^verbatim>\<open>readdir\<close> returns names is unspecified, the model uses key order; disk
  failures are not modelled, and a path that runs through a symbolic link is an error
  here where the system would follow the link. The digest is the parameter \<open>sha\<close>.
\<close>

section \<open>Nodes and metadata\<close>

record fmeta =
  m_dev :: nat
  m_ino :: nat
  m_mtime :: nat
  m_mtime_nsec :: nat
  m_ctime :: nat
  m_ctime_nsec :: nat

datatype node =
    File (node_bytes: string) (node_meta: fmeta)
  | Dir (node_len: nat) (node_meta: fmeta)
  | Link (node_meta: fmeta)

datatype io_error =
    NotFound
  | NotADirectory
  | IsADirectory
  | DirectoryNotEmpty
  | AlreadyExists
  | InvalidInput
  | PermissionDenied
  | OtherIo

record folder =
  f_dev :: nat
  f_nodes :: "(string, node) table"
  f_trash :: "(string, node) table"
  f_conflicts :: "(string, string \<times> nat) table"
  f_parts :: "(string, string) table"
  f_next_ino :: nat
  f_clock :: "nat \<times> nat"

record local_stat =
  s_size :: nat
  s_mtime :: nat
  s_is_dir :: bool
  s_fingerprint :: string

record hashed =
  h_sha256 :: string
  h_size :: nat
  h_mtime :: nat

record upload_snapshot =
  u_bytes :: string
  u_hashed :: hashed
  u_fingerprint :: string

definition PART_SUFFIX :: string where
  "PART_SUFFIX = ''.canvas-part''"

definition fingerprint :: "fmeta \<Rightarrow> string" where
  "fingerprint m = show_nat (m_dev m) @ '':'' @ show_nat (m_ino m) @ '':'' @ show_nat (m_mtime m)
     @ '':'' @ show_nat (m_mtime_nsec m) @ '':'' @ show_nat (m_ctime m) @ '':'' @ show_nat (m_ctime_nsec m)"

definition ms_of :: "fmeta \<Rightarrow> nat" where
  "ms_of m = m_mtime m * 1000 + m_mtime_nsec m div 1000000"

definition fresh_meta :: "folder \<Rightarrow> fmeta" where
  "fresh_meta f = \<lparr>m_dev = f_dev f, m_ino = f_next_ino f, m_mtime = fst (f_clock f),
     m_mtime_nsec = snd (f_clock f), m_ctime = fst (f_clock f), m_ctime_nsec = snd (f_clock f)\<rparr>"

section \<open>Ancestors of a key\<close>

lemma parent_key_shorter: "parent_key k \<noteq> [] \<Longrightarrow> length (parent_key k) < length k"
proof -
  assume "parent_key k \<noteq> []"
  then obtain p l where "rsplit_once slash k = Some (p, l)" "parent_key k = p"
    by (auto simp: parent_key_def split: option.splits)
  then show ?thesis by (auto simp: rsplit_once_Some)
qed

function ancestors :: "string \<Rightarrow> string list" where
  "ancestors key = (if parent_key key = [] then [] else parent_key key # ancestors (parent_key key))"
  by pat_completeness auto
termination
  by (relation "measure length") (auto simp: parent_key_shorter)

declare ancestors.simps [simp del]

lemma ancestors_mem: "a \<in> set (ancestors k) \<Longrightarrow> a \<noteq> [] \<and> a \<noteq> k \<and> under k a"
proof (induction k rule: ancestors.induct)
  case (1 k)
  show ?case
  proof (cases "parent_key k = []")
    case False
    then have p: "under k (parent_key k)" "length (parent_key k) < length k"
      using parent_under parent_key_shorter by auto
    from False "1.prems" have "a = parent_key k \<or> a \<in> set (ancestors (parent_key k))"
      by (subst (asm) ancestors.simps) simp
    then show ?thesis
    proof
      assume "a \<in> set (ancestors (parent_key k))"
      then have a: "a \<noteq> []" "under (parent_key k) a" "a \<noteq> parent_key k" using "1.IH"[OF False] by auto
      then have "length a \<le> length (parent_key k)" by (auto simp: under_iff)
      then show ?thesis using a p under_trans by fastforce
    qed (use False p in auto)
  qed (use "1.prems" in \<open>simp add: ancestors.simps\<close>)
qed

section \<open>System calls\<close>

definition symlink_metadata :: "folder \<Rightarrow> string \<Rightarrow> io_error + node" where
  "symlink_metadata f key =
     (if list_ex (\<lambda>a. case tget (f_nodes f) a of Some (File _ _) \<Rightarrow> True | _ \<Rightarrow> False) (ancestors key)
      then Inl NotADirectory
      else if list_ex (\<lambda>a. case tget (f_nodes f) a of Some (Link _) \<Rightarrow> True | _ \<Rightarrow> False) (ancestors key)
      then Inl OtherIo
      else case tget (f_nodes f) key of Some n \<Rightarrow> Inr n | None \<Rightarrow> Inl NotFound)"

definition create_dir :: "io_error + folder \<Rightarrow> string \<Rightarrow> io_error + folder" where
  "create_dir r d =
     (case r of Inl e \<Rightarrow> Inl e
      | Inr f \<Rightarrow> (case tget (f_nodes f) d of
            Some (Dir _ _) \<Rightarrow> Inr f
          | Some _ \<Rightarrow> Inl AlreadyExists
          | None \<Rightarrow> Inr (f\<lparr>f_nodes := tput d (Dir 0 (fresh_meta f)) (f_nodes f),
                           f_next_ino := f_next_ino f + 1\<rparr>)))"

definition create_dir_all :: "folder \<Rightarrow> string \<Rightarrow> io_error + folder" where
  "create_dir_all f key = foldl create_dir (Inr f) (rev (ancestors key) @ [key])"

definition ensure_parent :: "folder \<Rightarrow> string \<Rightarrow> io_error + folder" where
  "ensure_parent f key = foldl create_dir (Inr f) (rev (ancestors key))"

definition has_children :: "folder \<Rightarrow> string \<Rightarrow> bool" where
  "has_children f d = list_ex (\<lambda>(k, _). under k d \<and> k \<noteq> d) (f_nodes f)"

definition set_ctime :: "folder \<Rightarrow> node \<Rightarrow> node" where
  "set_ctime f n =
     (let up = (\<lambda>m. m\<lparr>m_ctime := fst (f_clock f), m_ctime_nsec := snd (f_clock f)\<rparr>) in
      case n of File b m \<Rightarrow> File b (up m) | Dir l m \<Rightarrow> Dir l (up m) | Link m \<Rightarrow> Link (up m))"

text \<open>\<^verbatim>\<open>rename(2)\<close>: a directory takes its whole subtree along; only an empty directory or a
  file may be replaced, by its own kind; a directory cannot move below itself.\<close>

definition sys_rename :: "folder \<Rightarrow> string \<Rightarrow> string \<Rightarrow> io_error + folder" where
  "sys_rename f src dst =
     (case symlink_metadata f src of Inl e \<Rightarrow> Inl e
      | Inr n \<Rightarrow>
        if src = dst then Inr f
        else (case n of
            Dir _ _ \<Rightarrow>
              if under dst src then Inl InvalidInput
              else (case tget (f_nodes f) dst of
                  Some (Dir _ _) \<Rightarrow>
                    if has_children f dst then Inl DirectoryNotEmpty
                    else Inr (f\<lparr>f_nodes := move_subtree src dst (\<lambda>k v. if k = dst then set_ctime f v else v) (f_nodes f)\<rparr>)
                | Some _ \<Rightarrow> Inl NotADirectory
                | None \<Rightarrow> Inr (f\<lparr>f_nodes := move_subtree src dst (\<lambda>k v. if k = dst then set_ctime f v else v) (f_nodes f)\<rparr>))
          | _ \<Rightarrow>
              (case tget (f_nodes f) dst of
                  Some (Dir _ _) \<Rightarrow> Inl IsADirectory
                | _ \<Rightarrow> Inr (f\<lparr>f_nodes := tput dst (set_ctime f n) (tdel src (f_nodes f))\<rparr>))))"

section \<open>Reading\<close>

definition stat_of :: "node \<Rightarrow> local_stat" where
  "stat_of n = \<lparr>s_size = (case n of File b _ \<Rightarrow> length b | Dir l _ \<Rightarrow> l | Link _ \<Rightarrow> 0),
     s_mtime = ms_of (node_meta n), s_is_dir = (case n of Dir _ _ \<Rightarrow> True | _ \<Rightarrow> False),
     s_fingerprint = fingerprint (node_meta n)\<rparr>"

definition stat :: "folder \<Rightarrow> string \<Rightarrow> local_stat option" where
  "stat f key =
     (case symlink_metadata f key of
        Inl _ \<Rightarrow> None
      | Inr (Link _) \<Rightarrow> None
      | Inr n \<Rightarrow> Some (stat_of n))"

definition exists_local :: "folder \<Rightarrow> string \<Rightarrow> bool" where
  "exists_local f key = (stat f key \<noteq> None)"

definition is_file :: "folder \<Rightarrow> string \<Rightarrow> bool" where
  "is_file f key = (case stat f key of Some s \<Rightarrow> \<not> s_is_dir s | None \<Rightarrow> False)"

definition is_dir :: "folder \<Rightarrow> string \<Rightarrow> bool" where
  "is_dir f key = (case stat f key of Some s \<Rightarrow> s_is_dir s | None \<Rightarrow> False)"

definition read_all :: "folder \<Rightarrow> string \<Rightarrow> io_error + string" where
  "read_all f key =
     (case symlink_metadata f key of
        Inl e \<Rightarrow> Inl e
      | Inr (File b _) \<Rightarrow> Inr b
      | Inr (Dir _ _) \<Rightarrow> Inl IsADirectory
      | Inr (Link _) \<Rightarrow> Inl OtherIo)"

definition pread :: "folder \<Rightarrow> string \<Rightarrow> nat \<Rightarrow> nat \<Rightarrow> io_error + string" where
  "pread f key offset len =
     (case read_all f key of Inl e \<Rightarrow> Inl e | Inr b \<Rightarrow> Inr (take len (drop offset b)))"

definition hash_file :: "(string \<Rightarrow> string) \<Rightarrow> folder \<Rightarrow> string \<Rightarrow> io_error + hashed" where
  "hash_file sha f key =
     (case symlink_metadata f key of
        Inl e \<Rightarrow> Inl e
      | Inr (File b m) \<Rightarrow> Inr \<lparr>h_sha256 = sha b, h_size = length b, h_mtime = ms_of m\<rparr>
      | Inr (Dir _ _) \<Rightarrow> Inl IsADirectory
      | Inr (Link _) \<Rightarrow> Inl OtherIo)"

section \<open>Writing\<close>

definition write_atomic :: "(string \<Rightarrow> string) \<Rightarrow> folder \<Rightarrow> string \<Rightarrow> string \<Rightarrow> io_error + folder \<times> hashed" where
  "write_atomic sha f key bytes =
     (if \<not> check_key key then Inl PermissionDenied
      else case ensure_parent f key of Inl e \<Rightarrow> Inl e
      | Inr f \<Rightarrow> (case tget (f_nodes f) key of
            Some (Dir _ _) \<Rightarrow> Inl IsADirectory
          | _ \<Rightarrow>
            let m = fresh_meta f
            in Inr (f\<lparr>f_nodes := tput key (File bytes m) (f_nodes f), f_next_ino := f_next_ino f + 1\<rparr>,
                    \<lparr>h_sha256 = sha bytes, h_size = length bytes, h_mtime = ms_of m\<rparr>)))"

definition upload_snapshot :: "(string \<Rightarrow> string) \<Rightarrow> folder \<Rightarrow> string \<Rightarrow> io_error + upload_snapshot" where
  "upload_snapshot sha f key =
     (if \<not> check_key key then Inl PermissionDenied
      else case symlink_metadata f key of
        Inl e \<Rightarrow> Inl e
      | Inr (File b m) \<Rightarrow>
          Inr \<lparr>u_bytes = b, u_hashed = \<lparr>h_sha256 = sha b, h_size = length b, h_mtime = ms_of m\<rparr>,
               u_fingerprint = fingerprint m\<rparr>
      | Inr (Dir _ _) \<Rightarrow> Inl IsADirectory
      | Inr (Link _) \<Rightarrow> Inl OtherIo)"

section \<open>Structure\<close>

definition remove_file :: "folder \<Rightarrow> string \<Rightarrow> io_error + folder" where
  "remove_file f key =
     (if \<not> check_key key then Inl PermissionDenied
      else case symlink_metadata f key of
        Inl NotFound \<Rightarrow> Inr f
      | Inl e \<Rightarrow> Inl e
      | Inr (Dir _ _) \<Rightarrow> Inl IsADirectory
      | Inr _ \<Rightarrow> Inr (f\<lparr>f_nodes := tdel key (f_nodes f)\<rparr>))"

definition mkdir :: "folder \<Rightarrow> string \<Rightarrow> io_error + folder" where
  "mkdir f key = (if \<not> check_key key then Inl PermissionDenied else create_dir_all f key)"

definition rmdir :: "folder \<Rightarrow> string \<Rightarrow> io_error + folder" where
  "rmdir f key =
     (if \<not> check_key key then Inl PermissionDenied
      else case symlink_metadata f key of
        Inl NotFound \<Rightarrow> Inr f
      | Inl e \<Rightarrow> Inl e
      | Inr (Dir _ _) \<Rightarrow>
          if has_children f key then Inl DirectoryNotEmpty
          else Inr (f\<lparr>f_nodes := tdel key (f_nodes f)\<rparr>)
      | Inr _ \<Rightarrow> Inl NotADirectory)"

definition rename_node :: "folder \<Rightarrow> string \<Rightarrow> string \<Rightarrow> io_error + folder" where
  "rename_node f src dst =
     (if \<not> check_key src then Inl PermissionDenied
      else if \<not> check_key dst then Inl PermissionDenied
      else case ensure_parent f dst of Inl e \<Rightarrow> Inl e | Inr f \<Rightarrow> sys_rename f src dst)"

section \<open>Trash\<close>

definition trash_put :: "folder \<Rightarrow> string \<Rightarrow> io_error + folder" where
  "trash_put f key =
     (if \<not> check_key key then Inl PermissionDenied
      else
        (let f = f\<lparr>f_trash := tdel key (f_trash f)\<rparr> in
         case symlink_metadata f key of
           Inl NotFound \<Rightarrow> Inr f
         | Inl e \<Rightarrow> Inl e
         | Inr n \<Rightarrow>
             Inr (f\<lparr>f_trash := foldl (\<lambda>t (k, v). tput k v t) (f_trash f)
                     (filter (\<lambda>(k, _). under k key) (f_nodes f)),
                   f_nodes := filter (\<lambda>(k, _). \<not> under k key) (f_nodes f)\<rparr>)))"

definition trash_restore :: "(string \<Rightarrow> string) \<Rightarrow> folder \<Rightarrow> string \<Rightarrow> io_error + folder \<times> hashed" where
  "trash_restore sha f key =
     (if \<not> check_key key then Inl PermissionDenied
      else case tget (f_trash f) key of
        Some (File b m) \<Rightarrow>
          (case ensure_parent f key of Inl e \<Rightarrow> Inl e
           | Inr f \<Rightarrow> (case tget (f_nodes f) key of
                Some (Dir _ _) \<Rightarrow> Inl IsADirectory
              | _ \<Rightarrow>
                Inr (f\<lparr>f_trash := tdel key (f_trash f), f_nodes := tput key (set_ctime f (File b m)) (f_nodes f)\<rparr>,
                     \<lparr>h_sha256 = sha b, h_size = length b, h_mtime = ms_of m\<rparr>)))
      | _ \<Rightarrow> Inl NotFound)"

definition trash_remove :: "folder \<Rightarrow> string \<Rightarrow> folder" where
  "trash_remove f key =
     (case tget (f_trash f) key of
        Some (Dir _ _) \<Rightarrow> f
      | _ \<Rightarrow> f\<lparr>f_trash := tdel key (f_trash f)\<rparr>)"

definition trash_walk :: "folder \<Rightarrow> (string \<times> nat) list" where
  "trash_walk f = concat (map (\<lambda>(k, n). case n of Dir _ _ \<Rightarrow> [] | _ \<Rightarrow> [(k, ms_of (node_meta n))]) (f_trash f))"

section \<open>Conflict snapshots\<close>

definition preserve_conflict :: "folder \<Rightarrow> upload_snapshot \<Rightarrow> folder" where
  "preserve_conflict f u =
     (if tget (f_conflicts f) (h_sha256 (u_hashed u)) = None
      then f\<lparr>f_conflicts := tput (h_sha256 (u_hashed u)) (u_bytes u, ms_of (fresh_meta f)) (f_conflicts f)\<rparr>
      else f)"

definition conflict_snapshot :: "(string \<Rightarrow> string) \<Rightarrow> folder \<Rightarrow> string \<Rightarrow> io_error + folder \<times> string" where
  "conflict_snapshot sha f key =
     (case upload_snapshot sha f key of Inl e \<Rightarrow> Inl e
      | Inr u \<Rightarrow> Inr (preserve_conflict f u, h_sha256 (u_hashed u)))"

definition has_conflict_bytes :: "folder \<Rightarrow> string \<Rightarrow> bool" where
  "has_conflict_bytes f sha = (tget (f_conflicts f) sha \<noteq> None)"

definition conflict_remove :: "folder \<Rightarrow> string \<Rightarrow> folder" where
  "conflict_remove f sha = f\<lparr>f_conflicts := tdel sha (f_conflicts f)\<rparr>"

section \<open>The scan\<close>

definition walk_skips :: "string \<Rightarrow> string \<Rightarrow> bool" where
  "walk_skips dir key =
     (let rest = (if dir = [] then key else drop (length dir + 1) key)
      in list_ex (\<lambda>name. ends_with PART_SUFFIX name) (split_on slash rest)
         \<or> dir = [] \<and> hd (split_on slash key) = MARKER)"

definition walk_stat :: "node \<Rightarrow> local_stat" where
  "walk_stat n = (stat_of n)\<lparr>s_size := (case n of File b _ \<Rightarrow> length b | _ \<Rightarrow> 0)\<rparr>"

definition walk_below :: "folder \<Rightarrow> string \<Rightarrow> (string \<times> local_stat) list" where
  "walk_below f dir =
     concat (map (\<lambda>(k, n). case n of
         Link _ \<Rightarrow> []
       | _ \<Rightarrow> if (dir = [] \<or> under k dir \<and> k \<noteq> dir) \<and> \<not> walk_skips dir k
              then [(k, walk_stat n)] else []) (f_nodes f))"

definition walk_from :: "folder \<Rightarrow> string \<Rightarrow> (string \<times> local_stat) list" where
  "walk_from f key =
     (if hd (split_on slash key) = MARKER then []
      else if key = [] then walk_below f []
      else case stat f key of
          None \<Rightarrow> []
        | Some st \<Rightarrow> if \<not> s_is_dir st then [(key, st)] else (key, st) # walk_below f key)"

end
