(* ===== verification/Mirror.thy ===== *)
theory Mirror
  imports Local_Fs Hub Reconcile
begin

text \<open>
  The state of \<^verbatim>\<open>mirror/sync.rs\<close>: the \<open>mirror\<close> record (store, folder, runtime, open write
  handles, the hub's state), the constants of a run (\<open>env\<close>) and the helpers every
  operation uses.

  Each operation of the program that holds the \<^verbatim>\<open>directory_moves\<close> lock is one function on
  the state. Where the program lets go of the lock (during a transfer, while hashing),
  other threads may run: there the model applies \<open>v_other\<close>, an arbitrary function of the
  parameter record. The clock is constant during one operation. What the program tells the
  FUSE view is recorded in \<open>m_view\<close>, the wake-ups of the engine thread in \<open>m_woken\<close>.
\<close>

datatype sync_state = Idle | Syncing | SyncOffline | Paused

datatype view_op =
    VUpsert string nat nat
  | VRemove string "string list"
  | VRename string string
  | VEnsureDir string

record 'h mirror =
  m_store :: store
  m_fs :: folder
  m_hub :: 'h
  m_open_writes :: "string set"
  m_epoch :: nat
  m_skipped :: "(string, string) table"
  m_recheck :: "string set"
  m_protected_jobs :: "nat set"
  m_state :: sync_state
  m_last_error :: "string option"
  m_last_full :: bool
  m_ignore :: "string ignore_rules"
  m_pending_rescan :: bool
  m_pending_paths :: "string set"
  m_view :: "view_op list"
  m_woken :: bool

record 'h env =
  v_opts :: mirror_options
  v_api :: "'h hub_api"
  v_sha :: "string \<Rightarrow> string"
  v_nfc :: "string \<Rightarrow> string"
  v_glob :: "string \<Rightarrow> string \<Rightarrow> bool"
  v_glob_ok :: "string \<Rightarrow> bool"
  v_json_id :: "string \<times> string \<times> string option \<Rightarrow> string"
  v_now :: nat
  v_device :: device_identity
  v_stamp :: "nat \<Rightarrow> string"
  v_operation_id :: string
  v_dir_identity :: "folder \<Rightarrow> string \<Rightarrow> string option"
  v_legacy_device :: "nat \<Rightarrow> nat \<Rightarrow> bool"
  v_verify :: "folder \<Rightarrow> string option"
  v_other :: "'h mirror \<Rightarrow> 'h mirror"

datatype op_error = IoFailed io_error | Bail string

section \<open>Helpers\<close>

definition backoff_ms :: "nat \<Rightarrow> nat" where
  "backoff_ms attempts =
     (let base = 60000; n = min attempts 6 in min (base * 2 ^ n) 3600000)"

definition ignored :: "'h env \<Rightarrow> 'h mirror \<Rightarrow> string \<Rightarrow> bool" where
  "ignored v m key = is_ignored (v_glob v) (m_ignore m) key"

definition live_entry :: "'h mirror \<Rightarrow> string \<Rightarrow> entry option" where
  "live_entry m key =
     (case entry (m_store m) key of
        Some e \<Rightarrow> if e_state e \<noteq> Tombstone then Some e else None
      | None \<Rightarrow> None)"

definition is_open_for_write :: "'h mirror \<Rightarrow> string \<Rightarrow> bool" where
  "is_open_for_write m key \<longleftrightarrow> key \<in> m_open_writes m"

definition wake :: "'h mirror \<Rightarrow> 'h mirror" where
  "wake m = m\<lparr>m_woken := True\<rparr>"

definition upd_store :: "(store \<Rightarrow> store) \<Rightarrow> 'h mirror \<Rightarrow> 'h mirror" where
  "upd_store f m = m\<lparr>m_store := f (m_store m)\<rparr>"

definition skip_key :: "string \<Rightarrow> string \<Rightarrow> 'h mirror \<Rightarrow> 'h mirror" where
  "skip_key key why m = m\<lparr>m_skipped := tput key why (m_skipped m)\<rparr>"

definition unskip_key :: "string \<Rightarrow> 'h mirror \<Rightarrow> 'h mirror" where
  "unskip_key key m = m\<lparr>m_skipped := tdel key (m_skipped m)\<rparr>"

definition recheck_key :: "string \<Rightarrow> 'h mirror \<Rightarrow> 'h mirror" where
  "recheck_key key m = m\<lparr>m_recheck := insert key (m_recheck m)\<rparr>"

abbreviation excluded_text :: string where
  "excluded_text \<equiv> ''matches an exclusion rule; kept local only''"

abbreviation pending_key :: "string \<Rightarrow> string" where
  "pending_key key \<equiv> ''upload-pending:'' @ key"

definition block_action ::
    "'h env \<Rightarrow> string \<Rightarrow> string \<Rightarrow> string option \<Rightarrow> string option \<Rightarrow> 'h mirror \<Rightarrow> 'h mirror" where
  "block_action v action key dst remote m =
     (let rec = \<lparr>a_action = action, a_key = key, a_destination = dst,
            a_local_sha256 = map_option e_sha256 (entry (m_store m) key),
            a_remote_sha256 = remote, a_observed_at = v_now v\<rparr>
      in upd_store (\<lambda>s. snd (record_blocked (v_json_id v) s rec)) m)"

fun blocked_by_protection :: "job_kind \<Rightarrow> (string \<times> string \<times> string option) option" where
  "blocked_by_protection (JDelete key _) = Some (''delete upstream file'', key, None)"
| "blocked_by_protection (JRmdir key) = Some (''remove upstream directory'', key, None)"
| "blocked_by_protection (JRename src dst) = Some (''rename upstream file'', src, Some dst)"
| "blocked_by_protection (JRenameDir src dst _ _ _ _ _ remote) =
     (if remote then Some (''rename upstream directory'', src, Some dst) else None)"
| "blocked_by_protection (JConflict key _ _) =
     Some (''resolve conflict and replace local file'', key, None)"
| "blocked_by_protection (JPush _) = None"
| "blocked_by_protection (JMkdir _) = None"

definition protect_job :: "'h env \<Rightarrow> job \<Rightarrow> 'h mirror \<Rightarrow> (hub_error + unit) \<times> 'h mirror" where
  "protect_job v j m =
     (if \<not> protected (v_opts v) then (Inr (), m)
      else case blocked_by_protection (j_kind j) of
        Some (action, key, dst) \<Rightarrow> (Inl (Protected key), block_action v action key dst None m)
      | None \<Rightarrow> (Inr (), m))"

definition clear_obsolete_trash :: "'h env \<Rightarrow> string \<Rightarrow> 'h mirror \<Rightarrow> 'h mirror" where
  "clear_obsolete_trash v key m =
     (if trashed (m_store m) key = None then m
      else if protected (v_opts v) then block_action v ''discard retained trash copy'' key None None m
      else (upd_store (\<lambda>s. remove_trashed s key) m)\<lparr>m_fs := trash_remove (m_fs m) key\<rparr>)"

definition protected_download_allowed :: "'h mirror \<Rightarrow> string \<Rightarrow> bool" where
  "protected_download_allowed m key =
     (if \<not> check_key key \<or> symlink_metadata (m_fs m) key \<noteq> Inl NotFound then False
      else list_all (\<lambda>p. case symlink_metadata (m_fs m) p of
             Inr (Dir _ _) \<Rightarrow> True | Inl NotFound \<Rightarrow> True | _ \<Rightarrow> False) (ancestors key))"

definition verify_destination :: "'h env \<Rightarrow> 'h mirror \<Rightarrow> hub_error option" where
  "verify_destination v m = map_option UnsafeMirror (v_verify v (m_fs m))"

definition set_state :: "sync_state \<Rightarrow> 'h mirror \<Rightarrow> 'h mirror" where
  "set_state st m = m\<lparr>m_state := st\<rparr>"

definition set_error :: "string option \<Rightarrow> 'h mirror \<Rightarrow> 'h mirror" where
  "set_error e m = m\<lparr>m_last_error := e\<rparr>"

section \<open>View updates\<close>

definition with_view :: "view_op \<Rightarrow> 'h mirror \<Rightarrow> 'h mirror" where
  "with_view x m = m\<lparr>m_view := m_view m @ [x]\<rparr>"

definition view_upsert :: "string \<Rightarrow> nat \<Rightarrow> nat \<Rightarrow> 'h mirror \<Rightarrow> 'h mirror" where
  "view_upsert key sz mtime = with_view (VUpsert key sz mtime)"

definition view_remove :: "string \<Rightarrow> 'h mirror \<Rightarrow> 'h mirror" where
  "view_remove key m = with_view (VRemove key (dirs (m_store m))) m"

definition view_rename :: "string \<Rightarrow> string \<Rightarrow> 'h mirror \<Rightarrow> 'h mirror" where
  "view_rename src dst = with_view (VRename src dst)"

definition view_ensure_dir :: "string \<Rightarrow> 'h mirror \<Rightarrow> 'h mirror" where
  "view_ensure_dir key = with_view (VEnsureDir key)"

definition snapshot_files :: "'h mirror \<Rightarrow> (string \<times> nat \<times> nat) list" where
  "snapshot_files m =
     map (\<lambda>(k, e). (k, e_size e, e_mtime e))
       (filter (\<lambda>(_, e). e_state e \<noteq> Tombstone) (entries_prefix (m_store m) []))"

section \<open>Queue helpers\<close>

definition enq :: "'h env \<Rightarrow> job_kind \<Rightarrow> 'h mirror \<Rightarrow> 'h mirror" where
  "enq v kind = upd_store (\<lambda>s. snd (enqueue (v_now v) s kind))"

definition enq_prio :: "'h env \<Rightarrow> job_kind \<Rightarrow> job_priority \<Rightarrow> 'h mirror \<Rightarrow> 'h mirror" where
  "enq_prio v kind pr = upd_store (\<lambda>s. snd (enqueue_with_priority (v_now v) s kind pr))"

definition ensure_job :: "'h env \<Rightarrow> job_kind \<Rightarrow> 'h mirror \<Rightarrow> 'h mirror" where
  "ensure_job v kind m =
     (if list_ex (\<lambda>j. dedupe_id (j_kind j) = dedupe_id kind) (jobs (m_store m)) then m
      else enq_prio v kind Background m)"

fun record_dirs :: "string list \<Rightarrow> store \<Rightarrow> store" where
  "record_dirs [] s = s"
| "record_dirs (p # ps) s = (if has_dir s p then s else record_dirs ps (add_dir s p))"

definition record_dirs_for :: "string \<Rightarrow> 'h mirror \<Rightarrow> 'h mirror" where
  "record_dirs_for key = upd_store (record_dirs (ancestors key))"

definition is_move :: "job_kind \<Rightarrow> bool" where
  "is_move k = (case k of JRename _ _ \<Rightarrow> True | JRenameDir _ _ _ _ _ _ _ _ \<Rightarrow> True | _ \<Rightarrow> False)"

definition pending_path_move :: "'h mirror \<Rightarrow> string \<Rightarrow> bool" where
  "pending_path_move m key =
     list_ex (\<lambda>j. is_move (j_kind j) \<and> list_ex (\<lambda>p. overlaps key p) (keys_of (j_kind j)))
       (jobs (m_store m))"

definition pending_directory_move :: "'h mirror \<Rightarrow> string \<Rightarrow> bool" where
  "pending_directory_move m key =
     list_ex (\<lambda>j. case j_kind j of
          JRenameDir src dst _ _ _ _ _ _ \<Rightarrow> under key src \<or> under key dst | _ \<Rightarrow> False)
       (jobs (m_store m))"

text \<open>\<^verbatim>\<open>local_result_key\<close>: the key a completed request lands on, through the local moves queued
  while it was under way, in the order of the queue.\<close>

definition result_step :: "string \<Rightarrow> job \<Rightarrow> string" where
  "result_step key j =
     (case j_kind j of
        JRename src dst \<Rightarrow> if key = src then dst else key
      | JRenameDir src dst _ _ _ _ True _ \<Rightarrow> if under key src then mapped src dst key else key
      | _ \<Rightarrow> key)"

definition local_result_key :: "'h mirror \<Rightarrow> string \<Rightarrow> string" where
  "local_result_key m key = foldl result_step key (jobs (m_store m))"

section \<open>Downloads (Local::fetch)\<close>

text \<open>The body of a download: resumed behind a partial file when the hub answers 206, from
  byte zero again when it says the range cannot be satisfied.\<close>

definition get_whole :: "'h env \<Rightarrow> string \<Rightarrow> 'h \<Rightarrow> (hub_error + string \<times> string option) \<times> 'h" where
  "get_whole v key h =
     (case api_get (v_api v) key None h of
        (Inl e, h') \<Rightarrow> (Inl e, h')
      | (Inr (resp, etag), h') \<Rightarrow> (Inr (rs_bytes resp, etag), h'))"

definition get_body :: "'h env \<Rightarrow> string \<Rightarrow> string option \<Rightarrow> 'h
    \<Rightarrow> (hub_error + string \<times> string option) \<times> 'h" where
  "get_body v key part h =
     (case part of
        None \<Rightarrow> get_whole v key h
      | Some p \<Rightarrow>
          if p = [] then get_whole v key h
          else (case api_get (v_api v) key (Some (length p)) h of
              (Inl (Refused s c t), h') \<Rightarrow>
                if s = 416 then get_whole v key h' else (Inl (Refused s c t), h')
            | (Inl e, h') \<Rightarrow> (Inl e, h')
            | (Inr (resp, etag), h') \<Rightarrow>
                (Inr (if rs_status resp = 206 then p @ rs_bytes resp else rs_bytes resp, etag), h')))"

definition file_stamp :: "folder \<Rightarrow> string \<Rightarrow> io_error + (nat \<times> fmeta) option" where
  "file_stamp f key =
     (case symlink_metadata f key of
        Inr n \<Rightarrow> Inr (Some (s_size (stat_of n), node_meta n))
      | Inl NotFound \<Rightarrow> Inr None
      | Inl e \<Rightarrow> Inl e)"

definition landed_meta :: "folder \<Rightarrow> nat \<Rightarrow> fmeta" where
  "landed_meta f mtime =
     (if mtime > 0
      then (fresh_meta f)\<lparr>m_mtime := mtime div 1000, m_mtime_nsec := mtime mod 1000 * 1000000\<rparr>
      else fresh_meta f)"

definition drop_part :: "string \<Rightarrow> 'h mirror \<Rightarrow> 'h mirror" where
  "drop_part key m = m\<lparr>m_fs := (m_fs m)\<lparr>f_parts := tdel key (f_parts (m_fs m))\<rparr>\<rparr>"

definition fetch :: "'h env \<Rightarrow> string \<Rightarrow> string \<Rightarrow> nat \<Rightarrow> ('h mirror \<Rightarrow> bool) \<Rightarrow> 'h mirror
    \<Rightarrow> (hub_error + hashed) \<times> 'h mirror" where
  "fetch v key expected remote_mtime may_land m =
     (if \<not> check_key key then (Inl (OtherHub ''invalid key''), m)
      else case file_stamp (m_fs m) key of Inl e \<Rightarrow> (Inl (OtherHub ''stat''), m)
      | Inr stamp0 \<Rightarrow> (case ensure_parent (m_fs m) key of Inl e \<Rightarrow> (Inl (OtherHub ''mkdir''), m)
      | Inr f \<Rightarrow>
        (let m = m\<lparr>m_fs := f\<rparr> in
         case get_body v key (tget (f_parts f) key) (m_hub m) of
           (Inl e, h) \<Rightarrow> (Inl e, m\<lparr>m_hub := h\<rparr>)
         | (Inr (data, etag), h) \<Rightarrow>
             (let got = v_sha v data;
                  m = m\<lparr>m_hub := h, m_fs := f\<lparr>f_parts := tput key data (f_parts f)\<rparr>\<rparr>
              in if or_default expected etag \<noteq> got
                 then (Inl (OtherHub ''digest mismatch''), drop_part key m)
                 else
                   (let m = v_other v m in
                    if \<not> may_land m then (Inl (LocalChanged key), drop_part key m)
                    else if file_stamp (m_fs m) key \<noteq> Inr stamp0
                    then (Inl (LocalChanged key), drop_part key m)
                    else (case tget (f_nodes (m_fs m)) key of
                        Some (Dir _ _) \<Rightarrow> (Inl (OtherHub ''rename''), m)
                      | _ \<Rightarrow>
                        let meta = landed_meta (m_fs m) remote_mtime;
                            m = drop_part key m
                        in (Inr \<lparr>h_sha256 = got, h_size = length data, h_mtime = ms_of meta\<rparr>,
                            m\<lparr>m_fs := (m_fs m)\<lparr>f_nodes := tput key (File data meta) (f_nodes (m_fs m)),
                                f_next_ino := f_next_ino (m_fs m) + 1\<rparr>\<rparr>)))))))"

end
