(* ===== verification/Sync_Local.thy ===== *)
theory Sync_Local
  imports Mirror
begin

text \<open>
  The local operations of \<^verbatim>\<open>mirror/sync.rs\<close>: what the FUSE layer and the command line call
  when the user writes, deletes, renames or restores something. None of them talks to
  the hub; each one changes folder, ledger and queue together, under one lock.

  An operation returns its result (an \<open>op_error\<close> on the left) and the state, which may
  have changed on an error, too.
\<close>

section \<open>Writing\<close>

definition note_open_write :: "string \<Rightarrow> 'h mirror \<Rightarrow> 'h mirror" where
  "note_open_write key m = m\<lparr>m_open_writes := insert key (m_open_writes m)\<rparr>"

definition note_close_write :: "string \<Rightarrow> 'h mirror \<Rightarrow> 'h mirror" where
  "note_close_write key m = wake (m\<lparr>m_open_writes := m_open_writes m - {key}\<rparr>)"

definition open_local_write ::
    "string \<Rightarrow> bool \<Rightarrow> bool \<Rightarrow> 'h mirror \<Rightarrow> (op_error + unit) \<times> 'h mirror" where
  "open_local_write key create trunc m =
     (if \<not> check_key key then (Inl (Bail ''invalid key''), m)
      else case symlink_metadata (m_fs m) key of
        Inl NotFound \<Rightarrow>
          if \<not> create then (Inl (IoFailed NotFound), m)
          else if parent_key key \<noteq> [] \<and> \<not> is_dir (m_fs m) (parent_key key)
          then (Inl (IoFailed NotFound), m)
          else (Inr (), note_open_write key (m\<lparr>m_fs := (m_fs m)\<lparr>
                  f_nodes := tput key (File [] (fresh_meta (m_fs m))) (f_nodes (m_fs m)),
                  f_next_ino := f_next_ino (m_fs m) + 1\<rparr>\<rparr>))
      | Inl e \<Rightarrow> (Inl (IoFailed e), m)
      | Inr n \<Rightarrow>
          if create then (Inl (IoFailed AlreadyExists), m)
          else (case n of
              Dir _ _ \<Rightarrow> (Inl (IoFailed IsADirectory), m)
            | Link _ \<Rightarrow> (Inl (IoFailed OtherIo), m)
            | File b fm \<Rightarrow>
                (Inr (), note_open_write key
                   (if trunc
                    then m\<lparr>m_fs := (m_fs m)\<lparr>f_nodes := tput key
                           (File [] (fm\<lparr>m_mtime := fst (f_clock (m_fs m)), m_mtime_nsec := snd (f_clock (m_fs m)),
                                          m_ctime := fst (f_clock (m_fs m)), m_ctime_nsec := snd (f_clock (m_fs m))\<rparr>))
                           (f_nodes (m_fs m))\<rparr>\<rparr>
                    else m))))"

definition queue_push :: "'h env \<Rightarrow> string \<Rightarrow> 'h mirror \<Rightarrow> 'h mirror" where
  "queue_push v key m =
     (if ignored v m key then skip_key key excluded_text m
      else enq v (JPush key) (unskip_key key m))"

definition commit_local_file :: "'h env \<Rightarrow> string \<Rightarrow> 'h mirror \<Rightarrow> (op_error + unit) \<times> 'h mirror" where
  "commit_local_file v key m =
     (case stat (m_fs m) key of
        None \<Rightarrow> (Inl (Bail ''local file disappeared''), m)
      | Some st \<Rightarrow>
          (let m = upd_store (\<lambda>s. put_entry s key
                 \<lparr>e_sha256 = [], e_size = s_size st, e_mtime = s_mtime st, e_state = Dirty\<rparr>) m;
               m = record_dirs_for key m;
               m = queue_push v key m
           in (Inr (), wake m)))"

definition commit_write ::
    "'h env \<Rightarrow> string \<Rightarrow> string \<Rightarrow> 'h mirror \<Rightarrow> (op_error + entry) \<times> 'h mirror" where
  "commit_write v key bytes m =
     (case write_atomic (v_sha v) (m_fs m) key bytes of
        Inl e \<Rightarrow> (Inl (IoFailed e), m)
      | Inr (f, h) \<Rightarrow>
          (let e = \<lparr>e_sha256 = h_sha256 h, e_size = h_size h, e_mtime = h_mtime h, e_state = Dirty\<rparr>;
               m = upd_store (\<lambda>s. put_entry s key e) (m\<lparr>m_fs := f\<rparr>);
               m = record_dirs_for key m;
               m = clear_obsolete_trash v key m;
               m = queue_push v key m
           in (Inr e, wake m)))"

section \<open>Deleting\<close>

definition may_be_uploaded :: "'h mirror \<Rightarrow> string \<Rightarrow> bool" where
  "may_be_uploaded m key \<longleftrightarrow>
     base (m_store m) key \<noteq> None \<or> meta (m_store m) (pending_key key) \<noteq> None"

definition note_local_gone :: "'h env \<Rightarrow> string \<Rightarrow> 'h mirror \<Rightarrow> 'h mirror" where
  "note_local_gone v key m =
     (case entry (m_store m) key of
        None \<Rightarrow> m
      | Some e \<Rightarrow>
          (let m = upd_store (\<lambda>s. snd (remove_jobs_for s key)) m;
               m = (if deletes (v_opts v) = Propagate \<and> may_be_uploaded m key \<and> \<not> ignored v m key
                    then enq v (JDelete key None)
                           (upd_store (\<lambda>s. put_entry s key (e\<lparr>e_state := Tombstone\<rparr>)) m)
                    else upd_store (\<lambda>s. remove_base (remove_entry s key) key) m)
           in unskip_key key m))"

definition delete_local :: "'h env \<Rightarrow> string \<Rightarrow> 'h mirror \<Rightarrow> (op_error + bool) \<times> 'h mirror" where
  "delete_local v key m =
     (case remove_file (m_fs m) key of
        Inl e \<Rightarrow> (Inl (IoFailed e), m)
      | Inr f \<Rightarrow>
          if entry (m_store m) key = None
          then (Inr (exists_local (m_fs m) key), m\<lparr>m_fs := f\<rparr>)
          else (Inr True, wake (note_local_gone v key (m\<lparr>m_fs := f\<rparr>))))"

definition mkdir_local :: "'h env \<Rightarrow> string \<Rightarrow> 'h mirror \<Rightarrow> (op_error + unit) \<times> 'h mirror" where
  "mkdir_local v key m =
     (case mkdir (m_fs m) key of
        Inl e \<Rightarrow> (Inl (IoFailed e), m)
      | Inr f \<Rightarrow>
          (let m = record_dirs_for key (m\<lparr>m_fs := f\<rparr>);
               m = upd_store (\<lambda>s. add_dir s key) m;
               m = (if \<not> ignored v m key then enq v (JMkdir key) m else m)
           in (Inr (), wake m)))"

definition rmdir_local :: "'h env \<Rightarrow> string \<Rightarrow> 'h mirror \<Rightarrow> (op_error + bool) \<times> 'h mirror" where
  "rmdir_local v key m =
     (if dir_has_children (m_store m) key then (Inr False, m)
      else case rmdir (m_fs m) key of
        Inl DirectoryNotEmpty \<Rightarrow> (Inr False, m)
      | Inl e \<Rightarrow> (Inl (IoFailed e), m)
      | Inr f \<Rightarrow>
          (let m = upd_store (\<lambda>s. snd (remove_jobs_for (remove_dir s key) key)) (m\<lparr>m_fs := f\<rparr>);
               m = (if \<not> ignored v m key then enq v (JRmdir key) m else m)
           in (Inr True, wake m)))"

section \<open>Renaming a file\<close>

definition move_open_write :: "string \<Rightarrow> string \<Rightarrow> 'h mirror \<Rightarrow> 'h mirror" where
  "move_open_write src dst m =
     (if src \<in> m_open_writes m
      then m\<lparr>m_open_writes := insert dst (m_open_writes m - {src})\<rparr> else m)"

definition move_conflict :: "string \<Rightarrow> string \<Rightarrow> store \<Rightarrow> store" where
  "move_conflict src dst s =
     (case conflict s src of
        None \<Rightarrow> s | Some c \<Rightarrow> put_conflict (remove_conflict s src) (c\<lparr>c_key := dst\<rparr>))"

definition retarget_dropped :: "string \<Rightarrow> string \<Rightarrow> job_kind \<Rightarrow> job_kind" where
  "retarget_dropped src dst k =
     (case k of
        JPush _ \<Rightarrow> JPush dst
      | JConflict _ l b \<Rightarrow> JConflict dst l b
      | JRename f t \<Rightarrow> if f = src then JRename f dst else JRename f t
      | other \<Rightarrow> other)"

definition requeue_dropped :: "'h env \<Rightarrow> string \<Rightarrow> string \<Rightarrow> 'h mirror \<Rightarrow> job \<Rightarrow> 'h mirror" where
  "requeue_dropped v src dst m j =
     (let k = retarget_dropped src dst (j_kind j)
      in if \<not> ignored v m (key_of k) then enq v k m else m)"

definition rekey_entry :: "'h env \<Rightarrow> string \<Rightarrow> string \<Rightarrow> 'h mirror \<Rightarrow> 'h mirror" where
  "rekey_entry v src dst m =
     (let dropped = fst (remove_jobs_for (m_store m) src);
          m = upd_store (\<lambda>s. rekey (snd (remove_jobs_for s src)) src dst) m;
          m = record_dirs_for dst m;
          m = upd_store (move_conflict src dst) m;
          m = clear_obsolete_trash v dst m;
          has_base = (base (m_store m) dst \<noteq> None);
          uploaded = (has_base \<or> meta (m_store m) (pending_key src) \<noteq> None);
          m = (if uploaded \<and> \<not> ignored v m src
               then (if ignored v m dst
                     then enq v (JDelete src (map_option b_sha256 (base (m_store m) dst)))
                            (upd_store (\<lambda>s. remove_base s dst) m)
                     else enq v (JRename src dst) m)
               else m);
          m = foldl (requeue_dropped v src dst) m dropped;
          m = (case entry (m_store m) dst of
                 None \<Rightarrow> m
               | Some e \<Rightarrow>
                   if ignored v m dst then skip_key dst excluded_text m
                   else if \<not> has_base \<and> e_state e = Clean
                   then enq v (JPush dst) (upd_store (\<lambda>s. put_entry s dst (e\<lparr>e_state := Dirty\<rparr>)) m)
                   else m)
      in move_open_write src dst m)"

definition rename_over_new :: "'h env \<Rightarrow> string \<Rightarrow> string \<Rightarrow> 'h mirror \<Rightarrow> 'h mirror" where
  "rename_over_new v src dst m =
     (let m = upd_store (\<lambda>s. snd (remove_jobs_for s src)) m;
          m = (if meta (m_store m) (pending_key src) \<noteq> None then enq v (JDelete src None) m else m);
          m = upd_store (\<lambda>s. rekey (snd (remove_jobs_for s dst)) src dst) m;
          m = move_open_write src dst m;
          m = (case entry (m_store m) dst of
                 None \<Rightarrow> m | Some e \<Rightarrow> upd_store (\<lambda>s. put_entry s dst (e\<lparr>e_state := Dirty\<rparr>)) m);
          m = (if \<not> ignored v m dst then enq v (JPush dst) m else m);
          m = record_dirs_for dst m
      in wake m)"

definition rename_local :: "'h env \<Rightarrow> string \<Rightarrow> string \<Rightarrow> 'h mirror \<Rightarrow> (op_error + unit) \<times> 'h mirror" where
  "rename_local v src dst m =
     (if src = dst then (Inr (), m)
      else
        (let m = m\<lparr>m_epoch := m_epoch m + 1\<rparr> in
         if base (m_store m) src = None \<and> entry (m_store m) dst \<noteq> None
         then (case rename_node (m_fs m) src dst of
             Inl e \<Rightarrow> (Inl (IoFailed e), m)
           | Inr f \<Rightarrow> (Inr (), rename_over_new v src dst (m\<lparr>m_fs := f\<rparr>)))
         else
           (case (if entry (m_store m) dst \<noteq> None
                  then (case delete_local v dst m of
                      (Inl e, m') \<Rightarrow> (Inl e, m')
                    | (Inr _, m') \<Rightarrow>
                        (Inr (), (case base (m_store m) dst of
                            Some b \<Rightarrow> enq v (JDelete dst (Some (b_sha256 b))) m' | None \<Rightarrow> m')))
                  else (Inr (), m)) of
              (Inl e, m) \<Rightarrow> (Inl e, m)
            | (Inr _, m) \<Rightarrow>
                (case rename_node (m_fs m) src dst of
                   Inl e \<Rightarrow> (Inl (IoFailed e), m)
                 | Inr f \<Rightarrow> (Inr (), wake (rekey_entry v src dst (m\<lparr>m_fs := f\<rparr>)))))))"

section \<open>Renaming a directory\<close>

definition is_original :: "'h env \<Rightarrow> job_kind \<Rightarrow> folder \<Rightarrow> string \<Rightarrow> bool" where
  "is_original v k f key =
     (case symlink_metadata f key of
        Inr (Dir _ fm) \<Rightarrow> m_ino fm = jino k \<and>
          (case jdirectory_identity k of
             Some expected \<Rightarrow> v_dir_identity v f key = Some expected
           | None \<Rightarrow> v_legacy_device v (jdev k) (m_dev fm))
      | _ \<Rightarrow> False)"

definition finish_directory_move :: "'h env \<Rightarrow> job \<Rightarrow> 'h mirror \<Rightarrow> (op_error + unit) \<times> 'h mirror" where
  "finish_directory_move v j m =
     (case j_kind j of
        JRenameDir src dst oid dev ino ident False remote \<Rightarrow>
          (case (if is_original v (j_kind j) (m_fs m) src then rename_node (m_fs m) src dst else Inr (m_fs m)) of
             Inl e \<Rightarrow> (Inl (IoFailed e), m)
           | Inr f \<Rightarrow>
               (let m = m\<lparr>m_fs := f\<rparr> in
                if \<not> is_original v (j_kind j) f dst
                then (Inl (Bail ''directory move intent no longer matches its local inode''), m)
                else
                  (let m = upd_store (\<lambda>s. apply_directory_rename s j) m;
                       m = record_dirs_for dst m
                   in (Inr (), m\<lparr>m_open_writes :=
                        (\<lambda>k. if under k src then mapped src dst k else k) ` m_open_writes m\<rparr>))))
      | _ \<Rightarrow> (Inr (), m))"

definition rename_dir_local :: "'h env \<Rightarrow> string \<Rightarrow> string \<Rightarrow> 'h mirror \<Rightarrow> (op_error + unit) \<times> 'h mirror" where
  "rename_dir_local v src dst m =
     (if src = dst then (Inr (), m)
      else
        (let m = m\<lparr>m_epoch := m_epoch m + 1\<rparr>; s = m_store m in
         if overlaps src dst then (Inl (Bail ''cannot move a directory into itself''), m)
         else if \<not> (\<not> dir_has_children s dst \<and> entry s dst = None) then (Inl (Bail ''target exists''), m)
         else
           (let local_only =
                  (ignored v m src \<and> ignored v m dst
                   \<or> bases_prefix s (src @ ''/'') = [] \<and>
                     list_ex (\<lambda>j. j_kind j = JMkdir src) (jobs s)) in
            if \<not> (local_only \<or> \<not> ignored v m src \<and> \<not> ignored v m dst)
            then (Inl (Bail ''cannot move a synced directory across an exclusion boundary''), m)
            else if \<not> list_all (\<lambda>(key, _). \<not> ignored v m (mapped src dst key)) (bases_prefix s (src @ ''/''))
            then (Inl (Bail ''destination excludes a synced file''), m)
            else (case symlink_metadata (m_fs m) src of
                Inl e \<Rightarrow> (Inl (IoFailed e), m)
              | Inr n \<Rightarrow> (case v_dir_identity v (m_fs m) src of
                  None \<Rightarrow> (Inl (IoFailed OtherIo), m)
                | Some ident \<Rightarrow>
                  (let kind = JRenameDir src dst (v_operation_id v) (m_dev (node_meta n)) (m_ino (node_meta n))
                                (Some ident) False (\<not> local_only);
                       (seq, s') = enqueue (v_now v) s kind;
                       m = m\<lparr>m_store := s'\<rparr>
                   in case List.find (\<lambda>j. j_seq j = seq) (jobs s') of
                       None \<Rightarrow> (Inl (Bail ''queued directory move''), m)
                     | Some job \<Rightarrow>
                         (case finish_directory_move v job m of
                            (Inl e, m) \<Rightarrow>
                              (Inl e, if is_dir (m_fs m) src then upd_store (\<lambda>s. remove_job s seq) m else m)
                          | (Inr _, m) \<Rightarrow> (Inr (), wake m))))))))"

fun recover_moves_loop :: "'h env \<Rightarrow> job list \<Rightarrow> 'h mirror \<Rightarrow> (hub_error + unit) \<times> 'h mirror" where
  "recover_moves_loop v [] m = (Inr (), m)"
| "recover_moves_loop v (j # js) m =
     (let defer = (case j_kind j of
            JRenameDir src dst _ _ _ _ False _ \<Rightarrow>
              if protected (v_opts v) \<and> is_dir (m_fs m) src then Some (src, dst) else None
          | _ \<Rightarrow> None)
      in case defer of
           Some (src, dst) \<Rightarrow>
             recover_moves_loop v js
               (block_action v ''complete pending local directory rename'' src (Some dst) None m)
         | None \<Rightarrow> (case finish_directory_move v j m of
               (Inl e, m) \<Rightarrow> (Inl (OtherHub ''directory move''), m)
             | (Inr _, m) \<Rightarrow> recover_moves_loop v js m))"

definition recover_directory_moves :: "'h env \<Rightarrow> 'h mirror \<Rightarrow> (hub_error + unit) \<times> 'h mirror" where
  "recover_directory_moves v m = recover_moves_loop v (jobs (m_store m)) m"

section \<open>Reading, trash and conflicts\<close>

definition bytes_for_edit :: "string \<Rightarrow> 'h mirror \<Rightarrow> io_error + string" where
  "bytes_for_edit key m =
     (if live_entry m key = None then Inl NotFound
      else case read_all (m_fs m) key of
        Inl NotFound \<Rightarrow> Inl NotFound
      | Inl _ \<Rightarrow> Inl OtherIo
      | Inr b \<Rightarrow> Inr b)"

definition mirror_read :: "string \<Rightarrow> int \<Rightarrow> nat \<Rightarrow> 'h mirror \<Rightarrow> io_error + string" where
  "mirror_read key offset sz m =
     (if live_entry m key = None then Inl NotFound
      else case pread (m_fs m) key (nat (max offset 0)) sz of
        Inl NotFound \<Rightarrow> Inl NotFound
      | Inl _ \<Rightarrow> Inl OtherIo
      | Inr b \<Rightarrow> Inr b)"

definition mirror_trash_restore :: "'h env \<Rightarrow> string \<Rightarrow> 'h mirror \<Rightarrow> (op_error + unit) \<times> 'h mirror" where
  "mirror_trash_restore v key m =
     (if trashed (m_store m) key = None then (Inl (Bail ''is not in the mirror trash''), m)
      else if entry (m_store m) key \<noteq> None
      then (Inl (Bail ''exists again; restore to a different name first''), m)
      else case trash_restore (v_sha v) (m_fs m) key of
        Inl e \<Rightarrow> (Inl (IoFailed e), m)
      | Inr (f, h) \<Rightarrow>
          (let e = \<lparr>e_sha256 = h_sha256 h, e_size = h_size h, e_mtime = h_mtime h, e_state = Dirty\<rparr>;
               m = upd_store (\<lambda>s. put_entry (remove_base s key) key e) (m\<lparr>m_fs := f\<rparr>);
               m = record_dirs_for key m;
               m = upd_store (\<lambda>s. remove_trashed s key) m;
               m = enq v (JPush key) m;
               m = view_upsert key (e_size e) (e_mtime e) m
           in (Inr (), wake m)))"

definition conflict_resolved :: "'h env \<Rightarrow> string \<Rightarrow> 'h mirror \<Rightarrow> 'h mirror" where
  "conflict_resolved v key m =
     (case conflict (m_store m) key of
        None \<Rightarrow> wake m
      | Some c \<Rightarrow>
          if protected (v_opts v)
          then block_action v ''discard resolved conflict snapshot'' key None None m
          else wake ((upd_store (\<lambda>s. remove_conflict s key) m)
                 \<lparr>m_fs := conflict_remove (m_fs m) (c_local_sha256 c)\<rparr>))"

end
