(* ===== verification/Sync_Scan.thy ===== *)
theory Sync_Scan
  imports Sync_Local
begin

text \<open>
  The folder scan of \<^verbatim>\<open>mirror/sync.rs\<close> (\<open>scan_paths\<close>): what the folder says about the given
  paths becomes entries, pushes, deletes and directory jobs. Before each path and while a
  file is hashed the lock is free, so \<open>v_other\<close> runs there; a directory move in between
  (a new epoch) ends the scan.
\<close>

record scan_report =
  rp_added :: nat
  rp_changed :: nat
  rp_removed :: nat

definition empty_report :: scan_report where
  "empty_report = \<lparr>rp_added = 0, rp_changed = 0, rp_removed = 0\<rparr>"

record 'h scan_state =
  sc_m :: "'h mirror"
  sc_report :: scan_report
  sc_files :: "string set"
  sc_dirs :: "string set"
  sc_aborted :: bool

definition affected :: "string list \<Rightarrow> string \<Rightarrow> bool" where
  "affected paths key = list_ex (\<lambda>p. p = [] \<or> under key p) paths"

definition scan_dir :: "'h env \<Rightarrow> job_priority \<Rightarrow> string \<Rightarrow> 'h mirror \<Rightarrow> 'h mirror" where
  "scan_dir v pr key m =
     (if has_dir (m_store m) key then m
      else
        (let m = view_ensure_dir key (upd_store (\<lambda>s. add_dir s key) m)
         in if \<not> ignored v m key then enq_prio v (JMkdir key) pr m else m))"

definition scan_record ::
    "'h env \<Rightarrow> job_priority \<Rightarrow> string \<Rightarrow> hashed \<Rightarrow> 'h mirror \<Rightarrow> 'h mirror" where
  "scan_record v pr key h m =
     (let e = \<lparr>e_sha256 = h_sha256 h, e_size = h_size h, e_mtime = h_mtime h, e_state = Dirty\<rparr>;
          m = upd_store (\<lambda>s. put_entry s key e) m;
          m = clear_obsolete_trash v key m;
          m = (if ignored v m key then skip_key key excluded_text m
               else enq_prio v (JPush key) pr (unskip_key key m))
      in view_upsert key (e_size e) (e_mtime e) m)"

definition unchanged :: "store \<Rightarrow> string \<Rightarrow> local_stat \<Rightarrow> entry option \<Rightarrow> bool" where
  "unchanged s key st live \<longleftrightarrow>
     (case live of Some e \<Rightarrow> e_size e = s_size st \<and> e_mtime e = s_mtime st | None \<Rightarrow> False) \<and>
     meta s (stamp_key key) = Some (s_fingerprint st)"

definition scan_file ::
    "'h env \<Rightarrow> string list \<Rightarrow> job_priority \<Rightarrow> nat \<Rightarrow> string \<Rightarrow> local_stat \<Rightarrow> 'h scan_state \<Rightarrow> 'h scan_state" where
  "scan_file v paths pr epoch key st sc =
     (let m = sc_m sc in
      if pending_directory_move m key then sc
      else if is_open_for_write m key then sc
      else
        (let e0 = entry (m_store m) key;
             live = live_entry m key;
             notified = (pr = Interactive \<and> key \<in> set paths)
         in if \<not> notified \<and> unchanged (m_store m) key st live then sc
            else case hash_file (v_sha v) (m_fs m) key of
              Inl _ \<Rightarrow> sc\<lparr>sc_m := v_other v m\<rparr>
            | Inr h \<Rightarrow>
                (let m = v_other v m in
                 if m_epoch m \<noteq> epoch then sc\<lparr>sc_m := m, sc_aborted := True\<rparr>
                 else if is_open_for_write m key \<or> stat (m_fs m) key \<noteq> Some st
                         \<or> entry (m_store m) key \<noteq> e0
                 then sc\<lparr>sc_m := m\<rparr>
                 else
                   (let m = upd_store (\<lambda>s. set_meta s (stamp_key key) (s_fingerprint st)) m;
                        r = sc_report sc
                    in case live of
                         Some e \<Rightarrow>
                           if e_sha256 e = h_sha256 h
                           then sc\<lparr>sc_m := upd_store (\<lambda>s. put_entry s key
                                   (e\<lparr>e_size := h_size h, e_mtime := h_mtime h\<rparr>)) m\<rparr>
                           else sc\<lparr>sc_m := scan_record v pr key h m,
                                   sc_report := r\<lparr>rp_changed := rp_changed r + 1\<rparr>\<rparr>
                       | None \<Rightarrow> sc\<lparr>sc_m := scan_record v pr key h m,
                                      sc_report := r\<lparr>rp_added := rp_added r + 1\<rparr>\<rparr>))))"

definition scan_item ::
    "'h env \<Rightarrow> string list \<Rightarrow> job_priority \<Rightarrow> nat \<Rightarrow> 'h scan_state \<Rightarrow> string \<times> local_stat \<Rightarrow> 'h scan_state" where
  "scan_item v paths pr epoch sc item =
     (if sc_aborted sc then sc
      else
        (let (key, st) = item; m = v_other v (sc_m sc); sc = sc\<lparr>sc_m := m\<rparr> in
         if m_epoch m \<noteq> epoch then sc\<lparr>sc_aborted := True\<rparr>
         else if s_is_dir st
         then sc\<lparr>sc_m := scan_dir v pr key m, sc_dirs := insert key (sc_dirs sc)\<rparr>
         else scan_file v paths pr epoch key st (sc\<lparr>sc_files := insert key (sc_files sc)\<rparr>)))"

definition scan_root ::
    "'h env \<Rightarrow> string list \<Rightarrow> job_priority \<Rightarrow> nat \<Rightarrow> 'h scan_state \<Rightarrow> string \<Rightarrow> 'h scan_state" where
  "scan_root v paths pr epoch sc p =
     (if sc_aborted sc then sc
      else foldl (scan_item v paths pr epoch) sc (walk_from (m_fs (sc_m sc)) p))"

definition gone_from_disk :: "'h mirror \<Rightarrow> string \<Rightarrow> bool" where
  "gone_from_disk m key = (symlink_metadata (m_fs m) key = Inl NotFound)"

definition scan_removed ::
    "'h env \<Rightarrow> string list \<Rightarrow> 'h scan_state \<Rightarrow> string \<times> entry \<Rightarrow> 'h scan_state" where
  "scan_removed v paths sc row =
     (let (key, e) = row; m = sc_m sc; r = sc_report sc in
      if \<not> affected paths key \<or> e_state e = Tombstone \<or> key \<in> sc_files sc
         \<or> pending_directory_move m key \<or> is_file (m_fs m) key \<or> is_open_for_write m key
         \<or> \<not> gone_from_disk m key
      then sc
      else sc\<lparr>sc_m := view_remove key (note_local_gone v key m),
              sc_report := r\<lparr>rp_removed := rp_removed r + 1\<rparr>\<rparr>)"

definition scan_removed_dir ::
    "'h env \<Rightarrow> string list \<Rightarrow> job_priority \<Rightarrow> 'h scan_state \<Rightarrow> string \<Rightarrow> 'h scan_state" where
  "scan_removed_dir v paths pr sc d =
     (let m = sc_m sc in
      if \<not> affected paths d \<or> d \<in> sc_dirs sc \<or> pending_directory_move m d \<or> \<not> gone_from_disk m d
      then sc
      else
        (let m = upd_store (\<lambda>s. snd (remove_jobs_for (remove_dir s d) d)) m;
             m = (if \<not> ignored v m d then enq_prio v (JRmdir d) pr m else m)
         in sc\<lparr>sc_m := view_remove d m\<rparr>))"

definition scan_paths ::
    "'h env \<Rightarrow> string list \<Rightarrow> job_priority \<Rightarrow> 'h mirror \<Rightarrow> scan_report \<times> 'h mirror" where
  "scan_paths v paths pr m =
     (case v_verify v (m_fs m) of
        Some e \<Rightarrow> (empty_report, set_state Paused (set_error (Some e) m))
      | None \<Rightarrow>
          (let epoch = m_epoch m;
               sc = foldl (scan_root v paths pr epoch)
                      \<lparr>sc_m = m, sc_report = empty_report, sc_files = {}, sc_dirs = {}, sc_aborted = False\<rparr> paths
           in if sc_aborted sc then (sc_report sc, sc_m sc)
              else
                (let m = v_other v (sc_m sc); sc = sc\<lparr>sc_m := m\<rparr> in
                 if m_epoch m \<noteq> epoch then (sc_report sc, m)
                 else
                   (let sc = foldl (scan_removed v paths) sc (entries_prefix (m_store m) []);
                        sc = foldl (scan_removed_dir v paths pr) sc (dirs (m_store (sc_m sc)))
                    in (sc_report sc,
                        if sc_report sc \<noteq> empty_report then wake (sc_m sc) else sc_m sc)))))"

definition scan_local :: "'h env \<Rightarrow> 'h mirror \<Rightarrow> scan_report \<times> 'h mirror" where
  "scan_local v m = scan_paths v [[]] Discovered m"

text \<open>The roots of a burst of notified paths: sorted, a path below an earlier one left out.\<close>

definition event_roots :: "string set \<Rightarrow> string list" where
  "event_roots ps =
     foldl (\<lambda>roots p. if list_ex (\<lambda>r. under p r) roots then roots else roots @ [p]) []
       (sorted_list_of_set ps)"

definition process_local_events :: "'h env \<Rightarrow> 'h mirror \<Rightarrow> 'h mirror" where
  "process_local_events v m =
     (let rescan = m_pending_rescan m; ps = m_pending_paths m;
          m = m\<lparr>m_pending_rescan := False, m_pending_paths := {}\<rparr>
      in if rescan then snd (scan_local v m)
         else if ps \<noteq> {} then snd (scan_paths v (event_roots ps) Interactive m)
         else m)"

end
