(* ===== verification/Sync_Engine.thy ===== *)
theory Sync_Engine
  imports Sync_Scan "HOL-Library.Product_Lexorder"
begin

text \<open>
  The engine of \<^verbatim>\<open>mirror/sync.rs\<close>, one key or one job at a time: \<open>reconcile_key\<close> and the
  actions it takes (\<open>pull_key\<close>, \<open>record_conflict\<close>), the recovery of lost jobs, the choice of
  the next job (\<open>next_job\<close>), and the jobs themselves (\<open>run_job\<close>).
\<close>

section \<open>Pulling\<close>

definition entry_of_hash :: "hashed \<Rightarrow> entry_state \<Rightarrow> entry" where
  "entry_of_hash h st = \<lparr>e_sha256 = h_sha256 h, e_size = h_size h, e_mtime = h_mtime h, e_state = st\<rparr>"

definition pull_may_land ::
    "'h env \<Rightarrow> string \<Rightarrow> nat \<Rightarrow> local_stat option \<Rightarrow> entry option \<Rightarrow> 'h mirror \<Rightarrow> bool" where
  "pull_may_land v key epoch stamp expected m \<longleftrightarrow>
     \<not> (m_epoch m \<noteq> epoch \<or> stat (m_fs m) key \<noteq> stamp \<or> entry (m_store m) key \<noteq> expected
        \<or> is_open_for_write m key \<or> pending_path_move m key
        \<or> protected (v_opts v) \<and> \<not> protected_download_allowed m key)"

definition pull_landed :: "'h env \<Rightarrow> string \<Rightarrow> remote_stat \<Rightarrow> nat \<Rightarrow> hashed \<Rightarrow> 'h mirror \<Rightarrow> 'h mirror" where
  "pull_landed v key r seq h m =
     (let m = upd_store (\<lambda>s. put_base (put_entry s key (entry_of_hash h Clean)) key
                 \<lparr>b_sha256 = h_sha256 h, b_size = h_size h, b_mtime = r_mtime r, b_remote_seq = seq\<rparr>) m;
          m = record_dirs_for key m;
          m = clear_obsolete_trash v key m;
          m = upd_store (\<lambda>s. snd (remove_jobs_for s key)) m
      in view_upsert key (h_size h) (h_mtime h) m)"

definition pull_key ::
    "'h env \<Rightarrow> string \<Rightarrow> remote_stat \<Rightarrow> nat \<Rightarrow> entry option \<Rightarrow> 'h mirror \<Rightarrow> (hub_error + unit) \<times> 'h mirror" where
  "pull_key v key r seq expected m =
     (if entry (m_store m) key \<noteq> expected \<or> is_open_for_write m key \<or> pending_path_move m key
      then (Inr (), recheck_key key m)
      else
        (let stamp = stat (m_fs m) key in
         if protected (v_opts v) \<and> \<not> protected_download_allowed m key
         then (Inr (), block_action v ''replace local file'' key None (Some (r_sha256 r)) m)
         else
           (let epoch = m_epoch m; m = v_other v m in
            case fetch v key (r_sha256 r) (r_mtime r) (pull_may_land v key epoch stamp expected) m of
              (Inr h, m) \<Rightarrow> (Inr (), pull_landed v key r seq h m)
            | (Inl HubNotFound, m) \<Rightarrow> (Inr (), m)
            | (Inl (LocalChanged _), m) \<Rightarrow>
                (Inr (), recheck_key key (snd (scan_paths v [key] Interactive m)))
            | (Inl e, m) \<Rightarrow> (Inl e, m))))"

section \<open>Conflicts\<close>

definition new_conflict :: "'h env \<Rightarrow> string \<Rightarrow> string \<Rightarrow> string option \<Rightarrow> string option \<Rightarrow> conflict_rec" where
  "new_conflict v key local_sha hub_sha base_sha =
     \<lparr>c_key = key, c_local_sha256 = local_sha, c_hub_sha256 = hub_sha, c_base_sha256 = base_sha,
      c_ts = v_now v, c_mode = conflicts_mode (v_opts v), c_uploaded = False, c_inbox_doc_id = None,
      c_copy_key = None, c_resolved = False\<rparr>"

definition record_conflict ::
    "'h env \<Rightarrow> string \<Rightarrow> entry \<Rightarrow> base option \<Rightarrow> string \<Rightarrow> 'h mirror \<Rightarrow> 'h mirror" where
  "record_conflict v key e b remote_sha m =
     (case upload_snapshot (v_sha v) (m_fs m) key of
        Inl _ \<Rightarrow> m
      | Inr u \<Rightarrow>
          (let m = v_other v m in
           if is_open_for_write m key \<or> pending_path_move m key \<or> entry (m_store m) key \<noteq> Some e
              \<or> (case stat (m_fs m) key of None \<Rightarrow> True | Some s \<Rightarrow> s_fingerprint s \<noteq> u_fingerprint u)
           then recheck_key (local_result_key m key) m
           else
             (let m = m\<lparr>m_fs := preserve_conflict (m_fs m) u\<rparr>;
                  sha = h_sha256 (u_hashed u);
                  m = (if sha \<noteq> e_sha256 e
                       then upd_store (\<lambda>s. put_entry s key (entry_of_hash (u_hashed u) Dirty)) m else m);
                  job = JConflict key sha (map_option b_sha256 b)
              in if (case conflict (m_store m) key of
                       Some c \<Rightarrow> c_local_sha256 c = sha \<and> \<not> c_uploaded c | None \<Rightarrow> False)
                 then ensure_job v job m
                 else ensure_job v job
                        (upd_store (\<lambda>s. snd (remove_jobs_for
                            (put_conflict s (new_conflict v key sha (Some remote_sha) (map_option b_sha256 b))) key)) m))))"

section \<open>One key\<close>

definition reconcile_blocked :: "'h mirror \<Rightarrow> string \<Rightarrow> action \<Rightarrow> string option" where
  "reconcile_blocked m key act =
     (case act of
        TrashLocal \<Rightarrow> Some ''trash local file''
      | Pull _ \<Rightarrow> if \<not> protected_download_allowed m key then Some ''replace local file'' else None
      | ConflictWith _ \<Rightarrow> Some ''resolve conflict and replace local file''
      | DeleteRemote _ \<Rightarrow> Some ''delete upstream file''
      | Push (Some _) \<Rightarrow> Some ''replace upstream file''
      | _ \<Rightarrow> None)"

definition forget_key :: "string \<Rightarrow> 'h mirror \<Rightarrow> 'h mirror" where
  "forget_key key = upd_store (\<lambda>s. remove_base (remove_entry s key) key)"

definition do_push :: "'h env \<Rightarrow> string \<Rightarrow> string option \<Rightarrow> entry option \<Rightarrow> base option \<Rightarrow> 'h mirror \<Rightarrow> 'h mirror" where
  "do_push v key if_match e b m =
     (let m = (if if_match = None \<and> b \<noteq> None
               then (upd_store (\<lambda>s. remove_base s key) m)\<lparr>m_protected_jobs := {}\<rparr> else m);
          m = (case e of
                 None \<Rightarrow> m
               | Some e \<Rightarrow> if e_state e \<noteq> Dirty
                   then upd_store (\<lambda>s. put_entry s key (e\<lparr>e_state := Dirty\<rparr>)) m else m)
      in ensure_job v (JPush key) m)"

definition do_trash_local :: "'h env \<Rightarrow> string \<Rightarrow> entry option \<Rightarrow> 'h mirror \<Rightarrow> (hub_error + unit) \<times> 'h mirror" where
  "do_trash_local v key e m =
     (case (case e of
              None \<Rightarrow> Inr m
            | Some e \<Rightarrow> (case trash_put (m_fs m) key of
                  Inl err \<Rightarrow> Inl (OtherHub ''could not preserve the local copy in trash'')
                | Inr f \<Rightarrow> Inr (upd_store (\<lambda>s. put_trashed s key
                      \<lparr>t_sha256 = e_sha256 e, t_size = e_size e, t_ts = v_now v\<rparr>) (m\<lparr>m_fs := f\<rparr>)))) of
        Inl err \<Rightarrow> (Inl err, m)
      | Inr m \<Rightarrow>
          (Inr (), view_remove key (forget_key key (upd_store (\<lambda>s. snd (remove_jobs_for s key)) m))))"

definition do_adopt :: "string \<Rightarrow> entry option \<Rightarrow> remote_stat option \<Rightarrow> nat \<Rightarrow> 'h mirror \<Rightarrow> 'h mirror" where
  "do_adopt key e remote seq m =
     (case e of
        Some e \<Rightarrow>
          upd_store (\<lambda>s. snd (remove_jobs_for (put_entry (put_base s key
             \<lparr>b_sha256 = e_sha256 e, b_size = e_size e,
              b_mtime = (case remote of Some r \<Rightarrow> r_mtime r | None \<Rightarrow> e_mtime e),
              b_remote_seq = seq\<rparr>) key (e\<lparr>e_state := Clean\<rparr>)) key)) m
      | None \<Rightarrow> upd_store (\<lambda>s. snd (remove_jobs_for s key)) (forget_key key m))"

definition perform_action ::
    "'h env \<Rightarrow> string \<Rightarrow> remote_stat option \<Rightarrow> nat \<Rightarrow> entry option \<Rightarrow> base option \<Rightarrow> action \<Rightarrow> 'h mirror
      \<Rightarrow> (hub_error + unit) \<times> 'h mirror" where
  "perform_action v key remote seq e b act m =
     (case act of
        Nothing \<Rightarrow> (Inr (), m)
      | Push if_match \<Rightarrow> (Inr (), do_push v key if_match e b m)
      | DeleteRemote _ \<Rightarrow>
          (Inr (), if deletes (v_opts v) = Propagate then ensure_job v (JDelete key None) m
                   else forget_key key m)
      | Pull _ \<Rightarrow> (case remote of Some r \<Rightarrow> pull_key v key r seq e (v_other v m) | None \<Rightarrow> (Inr (), m))
      | TrashLocal \<Rightarrow> do_trash_local v key e m
      | Adopt \<Rightarrow> (Inr (), do_adopt key e remote seq m)
      | ConflictWith r \<Rightarrow> (case e of
            None \<Rightarrow> (Inr (), m)
          | Some e \<Rightarrow> (Inr (), record_conflict v key e b r (v_other v m))))"

definition pending_rename :: "'h mirror \<Rightarrow> string \<Rightarrow> bool" where
  "pending_rename m key =
     list_ex (\<lambda>j. case j_kind j of JRename src dst \<Rightarrow> src = key \<or> dst = key | _ \<Rightarrow> False) (jobs (m_store m))"

definition local_digest :: "'h mirror \<Rightarrow> string \<Rightarrow> string option" where
  "local_digest m key = map_option e_sha256 (live_entry m key)"

definition reconcile_key ::
    "'h env \<Rightarrow> string \<Rightarrow> remote_stat option \<Rightarrow> nat \<Rightarrow> 'h mirror \<Rightarrow> (hub_error + unit) \<times> 'h mirror" where
  "reconcile_key v key remote seq m =
     (if key = [] \<or> ignored v m key then (Inr (), m)
      else if pending_directory_move m key then (Inr (), m)
      else if is_open_for_write m key \<or> pending_rename m key then (Inr (), recheck_key key m)
      else
        (let e = entry (m_store m) key;
             b = base (m_store m) key;
             act = decide (local_digest m key) (map_option b_sha256 b) (map_option r_sha256 remote)
         in case (if protected (v_opts v) then reconcile_blocked m key act else None) of
              Some why \<Rightarrow> (Inr (), block_action v why key None (map_option r_sha256 remote) m)
            | None \<Rightarrow> perform_action v key remote seq e b act m))"

section \<open>Recovering jobs\<close>

definition wanted_job :: "'h env \<Rightarrow> 'h mirror \<Rightarrow> string \<times> entry \<Rightarrow> job_kind option" where
  "wanted_job v m row =
     (let (key, e) = row in
      if ignored v m key \<or> tget (m_skipped m) key \<noteq> None then None
      else case e_state e of
        Clean \<Rightarrow> None
      | Dirty \<Rightarrow>
          if (case conflict (m_store m) key of Some c \<Rightarrow> \<not> c_uploaded c | None \<Rightarrow> False) then None
          else Some (JPush key)
      | Tombstone \<Rightarrow> Some (JDelete key None))"

definition recover_jobs :: "'h env \<Rightarrow> 'h mirror \<Rightarrow> 'h mirror" where
  "recover_jobs v m =
     (let have = map (\<lambda>j. dedupe_id (j_kind j)) (jobs (m_store m))
      in foldl (\<lambda>m' row. case wanted_job v m row of
             None \<Rightarrow> m'
           | Some k \<Rightarrow> if dedupe_id k \<in> set have then m' else enq_prio v k Discovered m')
           m (entries_prefix (m_store m) []))"

section \<open>Choosing a job\<close>

definition job_order :: "job \<Rightarrow> int \<times> int" where
  "job_order j = (- int (priority_rank (j_priority j)),
     if j_priority j = Interactive then - int (j_seq j) else int (j_seq j))"

definition jobs_overlap :: "job \<Rightarrow> job \<Rightarrow> bool" where
  "jobs_overlap a b =
     list_ex (\<lambda>x. list_ex (\<lambda>y. overlaps x y) (keys_of (j_kind b))) (keys_of (j_kind a))"

fun min_by_seq :: "job list \<Rightarrow> job option" where
  "min_by_seq [] = None"
| "min_by_seq (j # js) =
     (case min_by_seq js of None \<Rightarrow> Some j | Some k \<Rightarrow> if j_seq j \<le> j_seq k then Some j else Some k)"

lemma min_by_seq_mem: "min_by_seq js = Some j \<Longrightarrow> j \<in> set js"
  by (induction js arbitrary: j) (auto split: option.splits if_splits)

lemma min_by_seq_None: "min_by_seq js = None \<longleftrightarrow> js = []"
  by (cases js) (auto split: option.splits)

function first_needed :: "job list \<Rightarrow> job \<Rightarrow> job" where
  "first_needed js j =
     (case min_by_seq (filter (\<lambda>p. j_seq p < j_seq j \<and> jobs_overlap p j) js) of
        None \<Rightarrow> j
      | Some p \<Rightarrow> first_needed js p)"
  by pat_completeness auto
termination
  by (relation "measure (\<lambda>(js, j). j_seq j)") (auto dest!: min_by_seq_mem)

declare first_needed.simps [simp del]

definition runnable :: "'h env \<Rightarrow> 'h mirror \<Rightarrow> job \<Rightarrow> bool" where
  "runnable v m j \<longleftrightarrow> \<not> (j_not_before j > v_now v \<or> j_seq j \<in> m_protected_jobs m
     \<or> list_ex (\<lambda>k. is_open_for_write m k) (keys_of (j_kind j)))"

definition next_job :: "'h env \<Rightarrow> 'h mirror \<Rightarrow> job option" where
  "next_job v m =
     (let js = sort_key job_order (jobs (m_store m))
      in List.find (runnable v m) (map (first_needed js) js))"

section \<open>Pushing\<close>

definition push_blocked :: "'h env \<Rightarrow> base option \<Rightarrow> entry \<Rightarrow> bool" where
  "push_blocked v b e \<longleftrightarrow>
     protected (v_opts v) \<and> (case b of Some b \<Rightarrow> b_sha256 b \<noteq> e_sha256 e | None \<Rightarrow> False)"

definition block_replace :: "'h env \<Rightarrow> string \<Rightarrow> string option \<Rightarrow> 'h mirror \<Rightarrow> 'h mirror" where
  "block_replace v key sha = block_action v ''replace upstream file'' key None sha"

definition push_options :: "entry \<Rightarrow> base option \<Rightarrow> put_options" where
  "push_options e b = no_put_options\<lparr>po_if_match := map_option b_sha256 b,
     po_if_none_match_any := (b = None), po_sha256 := Some (e_sha256 e), po_mtime := Some (e_mtime e)\<rparr>"

definition push_acknowledged :: "string \<Rightarrow> entry \<Rightarrow> put_result \<Rightarrow> 'h mirror \<Rightarrow> 'h mirror" where
  "push_acknowledged key e res m =
     (let landed = local_result_key m key;
          sha = (if pr_sha256 res = [] then e_sha256 e else pr_sha256 res);
          mtime = (if pr_mtime res > 0 then pr_mtime res else e_mtime e);
          m = upd_store (\<lambda>s. put_base s landed
                \<lparr>b_sha256 = sha, b_size = e_size e, b_mtime = mtime, b_remote_seq = pr_seq res\<rparr>) m;
          m = (case entry (m_store m) landed of
                 None \<Rightarrow> m
               | Some cur \<Rightarrow>
                   if e_sha256 cur = sha \<and> e_state cur = Dirty \<and> \<not> is_open_for_write m landed
                   then upd_store (\<lambda>s. put_entry s landed (cur\<lparr>e_state := Clean\<rparr>)) m else m)
      in upd_store (\<lambda>s. remove_meta s (pending_key key)) m)"

definition run_push :: "'h env \<Rightarrow> string \<Rightarrow> 'h mirror \<Rightarrow> (hub_error + unit) \<times> 'h mirror" where
  "run_push v key m =
     (case entry (m_store m) key of None \<Rightarrow> (Inr (), m)
      | Some e0 \<Rightarrow>
      if e_state e0 \<noteq> Dirty \<or> is_open_for_write m key \<or> pending_directory_move m key then (Inr (), m)
      else
        (let b = base (m_store m) key; epoch = m_epoch m in
         if push_blocked v b e0
         then (Inl (Protected key), block_replace v key (map_option b_sha256 b) m)
         else
          (let m = v_other v m in
           case upload_snapshot (v_sha v) (m_fs m) key of
             Inl _ \<Rightarrow> (Inl (OtherHub ''snapshot''), m)
           | Inr u \<Rightarrow>
             (let m = v_other v m in
              if m_epoch m \<noteq> epoch \<or> is_open_for_write m key \<or> entry (m_store m) key \<noteq> Some e0
                 \<or> (case stat (m_fs m) key of None \<Rightarrow> True | Some s \<Rightarrow> s_fingerprint s \<noteq> u_fingerprint u)
              then (Inl (LocalChanged key), m)
              else
                (let e = entry_of_hash (u_hashed u) Dirty in
                 if push_blocked v b e
                 then (Inl (Protected key), block_replace v key (map_option b_sha256 b) m)
                 else
                   (let m = upd_store (\<lambda>s. set_meta (put_entry s key e) (pending_key key) (e_sha256 e)) m;
                        (result, h) = api_put (v_api v) key (u_bytes u) (push_options e b) (m_hub m);
                        m = v_other v (m\<lparr>m_hub := h\<rparr>)
                    in case result of
                         Inr res \<Rightarrow> (Inr (), push_acknowledged key e res m)
                       | Inl (PreconditionFailed current) \<Rightarrow>
                           if protected (v_opts v) \<and>
                              (case current of Some r \<Rightarrow> r_sha256 r \<noteq> e_sha256 e | None \<Rightarrow> False)
                           then (Inl (Protected key), block_replace v key (map_option r_sha256 current) m)
                           else if local_result_key m key \<noteq> key
                           then (Inl (PreconditionFailed current), m)
                           else reconcile_key v key current 0 (v_other v m)
                       | Inl err \<Rightarrow> (Inl err, m)))))))"

section \<open>Deleting and renaming on the hub\<close>

definition drop_tombstone :: "string \<Rightarrow> 'h mirror \<Rightarrow> 'h mirror" where
  "drop_tombstone key m =
     (case entry (m_store m) key of
        Some e \<Rightarrow> if e_state e = Tombstone then upd_store (\<lambda>s. remove_entry s key) m else m
      | None \<Rightarrow> m)"

fun first_some :: "'a option list \<Rightarrow> 'a option" where
  "first_some [] = None"
| "first_some (None # xs) = first_some xs"
| "first_some (Some x # xs) = Some x"

definition run_delete ::
    "'h env \<Rightarrow> string \<Rightarrow> string option \<Rightarrow> 'h mirror \<Rightarrow> (hub_error + unit) \<times> 'h mirror" where
  "run_delete v key fixed m =
     (let local_key = local_result_key m key;
          expected = first_some [fixed, map_option b_sha256 (base (m_store m) local_key),
                                 meta (m_store m) (pending_key key)]
      in case expected of
        None \<Rightarrow> (Inr (), drop_tombstone local_key m)
      | Some sha \<Rightarrow>
          (let m = v_other v m;
               (result, h) = api_delete (v_api v) key (Some sha) (m_hub m);
               m = v_other v (m\<lparr>m_hub := h\<rparr>);
               local_key = local_result_key m key;
               settled = (let m = (if fixed = None
                                   then upd_store (\<lambda>s. remove_base s local_key) (drop_tombstone local_key m) else m)
                          in (Inr (), upd_store (\<lambda>s. remove_meta s (pending_key key)) m))
           in case result of
                Inr _ \<Rightarrow> settled
              | Inl HubNotFound \<Rightarrow> settled
              | Inl (PreconditionFailed current) \<Rightarrow>
                  if fixed \<noteq> None \<or> local_key \<noteq> key then (Inl (PreconditionFailed current), m)
                  else reconcile_key v key current 0 (v_other v m)
              | Inl e \<Rightarrow> (Inl e, m)))"

definition repush :: "'h env \<Rightarrow> string \<Rightarrow> entry \<Rightarrow> 'h mirror \<Rightarrow> 'h mirror" where
  "repush v key e m = ensure_job v (JPush key) (upd_store (\<lambda>s. put_entry s key (e\<lparr>e_state := Dirty\<rparr>)) m)"

definition run_rename ::
    "'h env \<Rightarrow> string \<Rightarrow> string \<Rightarrow> 'h mirror \<Rightarrow> (hub_error + unit) \<times> 'h mirror" where
  "run_rename v src dst m =
     (let local_to = local_result_key m dst;
          expected = first_some [map_option b_sha256 (base (m_store m) local_to),
                                 meta (m_store m) (pending_key src)];
          m = v_other v m;
          (result, h) = api_rename (v_api v) src dst expected (m_hub m);
          m = v_other v (m\<lparr>m_hub := h\<rparr>);
          local_to = local_result_key m dst
      in case result of
           Inr _ \<Rightarrow> (Inr (), m)
         | Inl HubNotFound \<Rightarrow>
             (let m = upd_store (\<lambda>s. remove_base s local_to) m
              in case entry (m_store m) local_to of
                   None \<Rightarrow> (Inr (), m)
                 | Some e \<Rightarrow>
                     if is_file (m_fs m) local_to then (Inr (), repush v local_to e m)
                     else (Inr (), view_remove local_to (upd_store (\<lambda>s. remove_entry s local_to) m)))
         | Inl TargetExists \<Rightarrow>
             (let m = v_other v m in
              case api_head (v_api v) dst (m_hub m) of
                (Inl e, h) \<Rightarrow> (Inl e, m\<lparr>m_hub := h\<rparr>)
              | (Inr st, h) \<Rightarrow>
                  (let m = v_other v (m\<lparr>m_hub := h\<rparr>) in
                   if local_result_key m dst \<noteq> dst then (Inl TargetExists, m)
                   else reconcile_key v dst st 0 (v_other v (upd_store (\<lambda>s. remove_base s local_to) m))))
         | Inl (PreconditionFailed current) \<Rightarrow>
             (let m = upd_store (\<lambda>s. remove_base s local_to) m;
                  m = (case entry (m_store m) local_to of None \<Rightarrow> m | Some e \<Rightarrow> repush v local_to e m)
              in reconcile_key v src current 0 (v_other v m))
         | Inl e \<Rightarrow> (Inl e, m))"

section \<open>Conflict uploads\<close>

definition conflict_options :: "'h env \<Rightarrow> string \<Rightarrow> string \<Rightarrow> string option \<Rightarrow> nat \<Rightarrow> put_options" where
  "conflict_options v key local_sha base_sha mtime =
     no_put_options\<lparr>po_sha256 := Some local_sha, po_mtime := Some mtime, po_conflict_of := Some key,
       po_conflict_mode := Some (conflicts_mode (v_opts v)), po_base_sha256 := base_sha\<rparr>"

text \<open>Where a conflict copy goes, and whether the hub has it already: the name of the copy,
  or the one with the digest when another save took that name.\<close>

definition conflict_target ::
    "'h env \<Rightarrow> string \<Rightarrow> string \<Rightarrow> conflict_rec \<Rightarrow> 'h \<Rightarrow> (hub_error + string \<times> bool) \<times> 'h" where
  "conflict_target v key local_sha rec h =
     (let stamp = v_stamp v (c_ts rec);
          first = (case c_copy_key rec of Some k \<Rightarrow> k
                   | None \<Rightarrow> conflict_copy_key key (dev_name (v_device v)) stamp)
      in case api_head (v_api v) first h of
        (Inl e, h) \<Rightarrow> (Inl e, h)
      | (Inr st, h) \<Rightarrow>
          if (case st of Some r \<Rightarrow> r_sha256 r \<noteq> local_sha | None \<Rightarrow> False)
          then (let second = conflict_copy_key key (dev_name (v_device v) @ '' '' @ local_sha) stamp
                in case api_head (v_api v) second h of
                  (Inl e, h) \<Rightarrow> (Inl e, h)
                | (Inr st, h) \<Rightarrow>
                    (Inr (second, case st of Some r \<Rightarrow> r_sha256 r = local_sha | None \<Rightarrow> False), h))
          else (Inr (first, case st of Some r \<Rightarrow> r_sha256 r = local_sha | None \<Rightarrow> False), h))"

definition after_conflict_upload ::
    "'h env \<Rightarrow> string \<Rightarrow> string \<Rightarrow> 'h mirror \<Rightarrow> (hub_error + unit) \<times> 'h mirror" where
  "after_conflict_upload v key local_sha m =
     (if (case hash_file (v_sha v) (m_fs m) key of Inr h \<Rightarrow> h_sha256 h \<noteq> local_sha | Inl _ \<Rightarrow> False)
         \<or> is_open_for_write m key
      then (Inr (), recheck_key key (snd (scan_paths v [key] Interactive m)))
      else
        (let expected = entry (m_store m) key in
         case api_head (v_api v) key (m_hub m) of
           (Inl e, h) \<Rightarrow> (Inl e, m\<lparr>m_hub := h\<rparr>)
         | (Inr (Some st), h) \<Rightarrow> pull_key v key st 0 expected (v_other v (m\<lparr>m_hub := h\<rparr>))
         | (Inr None, h) \<Rightarrow>
             (let m = v_other v (m\<lparr>m_hub := h\<rparr>);
                  m = upd_store (\<lambda>s. remove_base s key) m;
                  m = (case entry (m_store m) key of None \<Rightarrow> m
                       | Some e \<Rightarrow> upd_store (\<lambda>s. put_entry s key (e\<lparr>e_state := Dirty\<rparr>)) m)
              in (Inr (), ensure_job v (JPush key) m))))"

definition finish_conflict ::
    "'h env \<Rightarrow> string \<Rightarrow> string \<Rightarrow> string \<Rightarrow> conflict_rec \<Rightarrow> nat option option \<Rightarrow> 'h mirror
      \<Rightarrow> (hub_error + unit) \<times> 'h mirror" where
  "finish_conflict v key local_sha target rec doc m =
     (let m = v_other v m;
          rec = rec\<lparr>c_uploaded := True\<rparr>;
          rec = (case doc of Some d \<Rightarrow> rec\<lparr>c_inbox_doc_id := d\<rparr> | None \<Rightarrow> rec);
          rec = (if conflicts_mode (v_opts v) = RenameCopy then rec\<lparr>c_copy_key := Some target\<rparr> else rec);
          rec = rec\<lparr>c_key := local_result_key m key,
                    c_copy_key := map_option (local_result_key m) (c_copy_key rec)\<rparr>;
          m = upd_store (\<lambda>s. put_conflict s rec) m
      in if c_key rec \<noteq> key then (Inr (), m)
         else after_conflict_upload v key local_sha (v_other v m))"

definition conflict_bytes_ready :: "'h env \<Rightarrow> string \<Rightarrow> string \<Rightarrow> 'h mirror \<Rightarrow> ('h mirror) option" where
  "conflict_bytes_ready v key local_sha m =
     (if has_conflict_bytes (m_fs m) local_sha then Some m
      else case conflict_snapshot (v_sha v) (m_fs m) key of
        Inr (f, sha) \<Rightarrow> if sha = local_sha then Some (m\<lparr>m_fs := f\<rparr>) else None
      | Inl _ \<Rightarrow> None)"

definition run_conflict ::
    "'h env \<Rightarrow> string \<Rightarrow> string \<Rightarrow> string option \<Rightarrow> 'h mirror \<Rightarrow> (hub_error + unit) \<times> 'h mirror" where
  "run_conflict v key local_sha base_sha m =
     (case conflict_bytes_ready v key local_sha m of
        None \<Rightarrow> (Inr (), m)
      | Some m \<Rightarrow>
          (let rec = (case conflict (m_store m) key of Some c \<Rightarrow> c
                      | None \<Rightarrow> new_conflict v key local_sha None base_sha);
               mtime = (case entry (m_store m) key of Some e \<Rightarrow> e_mtime e | None \<Rightarrow> 0);
               opts = conflict_options v key local_sha base_sha mtime;
               bytes = (case tget (f_conflicts (m_fs m)) local_sha of Some (b, _) \<Rightarrow> b | None \<Rightarrow> [])
           in case conflicts_mode (v_opts v) of
                Prompt \<Rightarrow>
                  (case api_put (v_api v) key bytes opts (m_hub m) of
                     (Inl e, h) \<Rightarrow> (Inl e, m\<lparr>m_hub := h\<rparr>)
                   | (Inr res, h) \<Rightarrow>
                       finish_conflict v key local_sha key rec (Some (pr_doc_id res)) (m\<lparr>m_hub := h\<rparr>))
              | RenameCopy \<Rightarrow>
                  (case conflict_target v key local_sha rec (m_hub m) of
                     (Inl e, h) \<Rightarrow> (Inl e, m\<lparr>m_hub := h\<rparr>)
                   | (Inr (target, there), h) \<Rightarrow>
                       (let m = v_other v (m\<lparr>m_hub := h\<rparr>);
                            rec = rec\<lparr>c_key := local_result_key m key,
                                      c_copy_key := Some (local_result_key m target)\<rparr>;
                            m = upd_store (\<lambda>s. put_conflict s rec) m
                        in if there then finish_conflict v key local_sha target rec None m
                           else (case api_put (v_api v) target bytes opts (m_hub m) of
                               (Inl e, h) \<Rightarrow> (Inl e, m\<lparr>m_hub := h\<rparr>)
                             | (Inr res, h) \<Rightarrow>
                                 finish_conflict v key local_sha target rec (Some (pr_doc_id res)) (m\<lparr>m_hub := h\<rparr>))))))"

section \<open>Running a job\<close>

definition run_rename_dir :: "'h env \<Rightarrow> job_kind \<Rightarrow> 'h mirror \<Rightarrow> (hub_error + unit) \<times> 'h mirror" where
  "run_rename_dir v k m =
     (if \<not> jlocal_applied k then (Inl (OtherHub ''directory move is not applied locally yet''), m)
      else
        (let done = (\<lambda>m. (Inr (), upd_store (\<lambda>s. set_meta s ''directory-refresh'' ''1'')
                            (m\<lparr>m_epoch := m_epoch m + 1\<rparr>)))
         in if \<not> jremote k then done m
            else case api_rename_dir (v_api v) (jfrom k) (jto k) (joperation_id k) (m_hub m) of
              (Inr _, h) \<Rightarrow> done (v_other v (m\<lparr>m_hub := h\<rparr>))
            | (Inl e, h) \<Rightarrow>
                if e = HubNotFound \<and> bases_prefix (m_store m) (jto k @ ''/'') = []
                then (case api_mkdir (v_api v) (jto k) h of
                    (Inl e, h) \<Rightarrow> (Inl e, m\<lparr>m_hub := h\<rparr>)
                  | (Inr _, h) \<Rightarrow> done (v_other v (m\<lparr>m_hub := h\<rparr>)))
                else (Inl e, m\<lparr>m_hub := h\<rparr>)))"

definition run_job :: "'h env \<Rightarrow> job \<Rightarrow> 'h mirror \<Rightarrow> (hub_error + unit) \<times> 'h mirror" where
  "run_job v j m =
     (case j_kind j of
        JPush key \<Rightarrow> run_push v key m
      | JDelete key fixed \<Rightarrow> run_delete v key fixed m
      | JRename src dst \<Rightarrow> run_rename v src dst m
      | JRenameDir _ _ _ _ _ _ _ _ \<Rightarrow> run_rename_dir v (j_kind j) m
      | JConflict key l b \<Rightarrow> run_conflict v key l b m
      | JMkdir key \<Rightarrow>
          (case api_mkdir (v_api v) key (m_hub m) of
             (Inl (Refused st c t), h) \<Rightarrow>
               (if st = 409 then Inr () else Inl (Refused st c t), v_other v (m\<lparr>m_hub := h\<rparr>))
           | (r, h) \<Rightarrow> (r, v_other v (m\<lparr>m_hub := h\<rparr>)))
      | JRmdir key \<Rightarrow>
          (case api_rmdir (v_api v) key (m_hub m) of (r, h) \<Rightarrow> (r, v_other v (m\<lparr>m_hub := h\<rparr>))))"

definition has_job :: "'h mirror \<Rightarrow> nat \<Rightarrow> job_kind \<Rightarrow> bool" where
  "has_job m seq k = list_ex (\<lambda>j. j_seq j = seq \<and> j_kind j = k) (jobs (m_store m))"

definition waits_for_directory :: "'h mirror \<Rightarrow> job \<Rightarrow> bool" where
  "waits_for_directory m j \<longleftrightarrow>
     (case j_kind j of JRenameDir _ _ _ _ _ _ _ _ \<Rightarrow> False
      | _ \<Rightarrow> list_ex (\<lambda>p. j_seq p < j_seq j \<and>
           (case j_kind p of
              JRenameDir src dst _ _ _ _ _ _ \<Rightarrow>
                list_ex (\<lambda>k. under k src \<or> under k dst) (keys_of (j_kind j))
            | _ \<Rightarrow> False)) (jobs (m_store m)))"

definition fail_job :: "'h env \<Rightarrow> job \<Rightarrow> string \<Rightarrow> job" where
  "fail_job v j why = j\<lparr>j_attempts := j_attempts j + 1,
     j_not_before := v_now v + backoff_ms (j_attempts j + 1), j_last_error := Some why\<rparr>"

definition is_rename_dir :: "job_kind \<Rightarrow> bool" where
  "is_rename_dir k = (case k of JRenameDir _ _ _ _ _ _ _ _ \<Rightarrow> True | _ \<Rightarrow> False)"

definition settle_job ::
    "'h env \<Rightarrow> job \<Rightarrow> (hub_error + unit) \<Rightarrow> 'h mirror \<Rightarrow> (hub_error + unit) \<times> 'h mirror" where
  "settle_job v j result m =
     (case result of
        Inl (Protected _) \<Rightarrow> (Inr (), m\<lparr>m_protected_jobs := insert (j_seq j) (m_protected_jobs m)\<rparr>)
      | Inr _ \<Rightarrow>
          (let m = upd_store (\<lambda>s. remove_job s (j_seq j)) m
           in (Inr (), if is_rename_dir (j_kind j)
                       then snd (scan_paths v [jfrom (j_kind j), jto (j_kind j)] Interactive m) else m))
      | Inl e \<Rightarrow>
          if is_offline e \<or> e = Unauthorized then (Inl e, m)
          else if (case e of LocalChanged _ \<Rightarrow> True | _ \<Rightarrow> False) then (Inr (), m)
          else if is_permanent e \<and> \<not> is_rename_dir (j_kind j)
          then (Inr (), upd_store (\<lambda>s. remove_job s (j_seq j)) (skip_key (key_of (j_kind j)) (show_error e) m))
          else (Inr (), upd_store (\<lambda>s. update_job s (fail_job v j (show_error e))) m))"

definition run_one :: "'h env \<Rightarrow> job \<Rightarrow> 'h mirror \<Rightarrow> (hub_error + unit) \<times> 'h mirror" where
  "run_one v j m =
     (case verify_destination v m of Some e \<Rightarrow> (Inl e, m)
      | None \<Rightarrow> (case List.find (\<lambda>p. j_seq p = j_seq j) (jobs (m_store m)) of None \<Rightarrow> (Inr (), m)
      | Some j \<Rightarrow>
          if waits_for_directory m j then (Inr (), m)
          else
            (case (case protect_job v j (v_other v m) of
                (Inl e, m) \<Rightarrow> (Inl e, m) | (Inr _, m) \<Rightarrow> run_job v j m) of
              (result, m) \<Rightarrow>
                if \<not> has_job m (j_seq j) (j_kind j) then (result, m)
                else settle_job v j result m)))"

definition touches :: "job_kind \<Rightarrow> string set" where
  "touches k = (case k of JMkdir _ \<Rightarrow> {} | JRmdir _ \<Rightarrow> {} | _ \<Rightarrow> set (keys_of k))"

fun drain_jobs :: "'h env \<Rightarrow> nat \<Rightarrow> 'h mirror \<Rightarrow> (hub_error + string set) \<times> 'h mirror" where
  "drain_jobs v 0 m = (Inr {}, m)"
| "drain_jobs v (Suc n) m =
     (let m = process_local_events v m in
      case next_job v m of
        None \<Rightarrow> (Inr {}, m)
      | Some j \<Rightarrow>
          (case run_one v j m of
             (Inl e, m) \<Rightarrow> (Inl e, m)
           | (Inr _, m) \<Rightarrow>
               (let ts = (if j_seq j \<in> m_protected_jobs m then {} else touches (j_kind j))
                in case drain_jobs v n m of
                     (Inl e, m) \<Rightarrow> (Inl e, m)
                   | (Inr rest, m) \<Rightarrow> (Inr (ts \<union> rest), m))))"

end
