(* ===== verification/Sync_Cycle.thy ===== *)
theory Sync_Cycle
  imports Sync_Engine
begin

text \<open>
  A whole pass of the engine, \<^verbatim>\<open>mirror/sync.rs\<close>: the change feed (\<open>catch_up\<close>), the full
  listing (\<open>rebuild_from_listing\<close>), the order of the phases (\<open>cycle_inner\<close>), the state
  machine of a cycle (\<open>cycle\<close>), the housekeeping and the migration of an old mirror.

  The two loops over pages end only when the hub says so. They take fuel, one unit per
  page; None is \<open>out of fuel\<close>. \<open>Sync_Props\<close> bounds the fuel they need.
\<close>

definition LIST_PAGE :: nat where "LIST_PAGE = 1000"
definition CHANGES_PAGE :: nat where "CHANGES_PAGE = 1000"
definition TRASH_TTL_MS :: nat where "TRASH_TTL_MS = 30 * 24 * 60 * 60 * 1000"

definition MIRROR_IGNORE_DEFAULTS :: "string list" where
  "MIRROR_IGNORE_DEFAULTS = [''**/.*'', ''**/.*/**'', ''.workspace'', ''.workspace/**'']"

definition rules_from :: "'h env \<Rightarrow> string list \<Rightarrow> string ignore_rules" where
  "rules_from v extra = ignore_new (\<lambda>p. if v_glob_ok v p then Some p else None)
     (MIRROR_IGNORE_DEFAULTS @ extra @ ignore (v_opts v))"

section \<open>Deferred keys\<close>

fun recheck_loop :: "'h env \<Rightarrow> string list \<Rightarrow> 'h mirror \<Rightarrow> (hub_error + unit) \<times> 'h mirror" where
  "recheck_loop v [] m = (Inr (), m)"
| "recheck_loop v (k # ks) m =
     (if pending_directory_move m k then recheck_loop v ks m
      else if is_open_for_write m k then recheck_loop v ks (recheck_key k m)
      else case api_head (v_api v) k (m_hub m) of
        (Inl e, h) \<Rightarrow> (Inl e, m\<lparr>m_hub := h\<rparr>)
      | (Inr st, h) \<Rightarrow>
          (case reconcile_key v k st 0 (v_other v (m\<lparr>m_hub := h\<rparr>)) of
             (Inl e, m) \<Rightarrow> (Inl e, m)
           | (Inr _, m) \<Rightarrow> recheck_loop v ks m))"

definition recheck_deferred :: "'h env \<Rightarrow> 'h mirror \<Rightarrow> (hub_error + unit) \<times> 'h mirror" where
  "recheck_deferred v m =
     recheck_loop v (sorted_list_of_set (m_recheck m)) (m\<lparr>m_recheck := {}\<rparr>)"

section \<open>Instance and rules\<close>

definition refresh_hub_rules :: "'h env \<Rightarrow> 'h mirror \<Rightarrow> (hub_error + unit) \<times> 'h mirror" where
  "refresh_hub_rules v m =
     (case api_instance_id (v_api v) (m_hub m) of
        (Inl e, h) \<Rightarrow> (Inl e, m\<lparr>m_hub := h\<rparr>)
      | (Inr inst, h) \<Rightarrow>
          (let m = m\<lparr>m_hub := h\<rparr> in
           if (case meta (m_store m) META_INSTANCE of Some p \<Rightarrow> inst \<noteq> Some p | None \<Rightarrow> False)
           then (Inl (UnsafeMirror ''hub instance identity changed''), m)
           else
             (let m = (case (meta (m_store m) META_INSTANCE, inst) of
                    (None, Some i) \<Rightarrow> upd_store (\<lambda>s. set_meta s META_INSTANCE i) m | _ \<Rightarrow> m)
              in if meta (m_store m) ''exclusions'' = None \<or> \<not> m_last_full m
                 then (case api_exclusions (v_api v) (m_hub m) of
                     (Inr ps, h) \<Rightarrow>
                       (Inr (), (upd_store (\<lambda>s. set_meta s ''exclusions'' (join_with [CHR 0x0A] ps)) m)
                          \<lparr>m_hub := h, m_ignore := rules_from v ps\<rparr>)
                   | (Inl e, h) \<Rightarrow>
                       (if is_offline e \<or> e = Unauthorized then Inl e else Inr (), m\<lparr>m_hub := h\<rparr>))
                 else (Inr (), m))))"

section \<open>The full listing\<close>

record 'h dirs_state =
  ds_m :: "'h mirror"
  ds_blocked :: "string set"
  ds_error :: "hub_error option"
  ds_stopped :: bool

definition listing_dirs :: "'h env \<Rightarrow> 'h mirror \<Rightarrow> (string, remote_stat) table \<Rightarrow> string set \<Rightarrow> string list" where
  "listing_dirs v m remote touched =
     tkeys (foldl (\<lambda>t d. tput d () t) []
       (concat (map ancestors (filter (\<lambda>k.
          \<not> (ignored v m k \<or> \<not> check_key k \<or> (\<exists>p\<in>touched. under k p)
             \<or> (case entry (m_store m) k of Some e \<Rightarrow> e_state e = Tombstone | None \<Rightarrow> False)))
          (tkeys remote)))))"

definition place_dir :: "folder \<Rightarrow> string \<Rightarrow> io_error + folder" where
  "place_dir f d =
     (case symlink_metadata f d of
        Inr (Dir _ _) \<Rightarrow> Inr f
      | Inr _ \<Rightarrow> Inl NotADirectory
      | Inl NotFound \<Rightarrow>
          if parent_key d = [] \<or> is_dir f (parent_key d) then create_dir (Inr f) d else Inl NotFound
      | Inl e \<Rightarrow> Inl e)"

definition prepare_dir :: "'h env \<Rightarrow> nat \<Rightarrow> 'h dirs_state \<Rightarrow> string \<Rightarrow> 'h dirs_state" where
  "prepare_dir v epoch ds d =
     (if ds_stopped ds then ds
      else
        (let m = v_other v (ds_m ds); ds = ds\<lparr>ds_m := m\<rparr> in
         if m_epoch m \<noteq> epoch then ds\<lparr>ds_stopped := True\<rparr>
         else if ignored v m d \<or> parent_key d \<in> ds_blocked ds \<or> pending_path_move m d
              \<or> list_ex (\<lambda>j. case j_kind j of JRmdir k \<Rightarrow> under d k | _ \<Rightarrow> False) (jobs (m_store m))
         then ds\<lparr>ds_blocked := insert d (ds_blocked ds)\<rparr>
         else case place_dir (m_fs m) d of
           Inl e \<Rightarrow> ds\<lparr>ds_blocked := insert d (ds_blocked ds),
                       ds_error := (case ds_error ds of None \<Rightarrow> Some (OtherHub d) | Some x \<Rightarrow> Some x)\<rparr>
         | Inr f \<Rightarrow>
             (let m = m\<lparr>m_fs := f\<rparr>;
                  m = (if has_dir (m_store m) d then m else upd_store (\<lambda>s. add_dir s d) m)
              in ds\<lparr>ds_m := view_ensure_dir d m\<rparr>)))"

definition prepare_listing_directories ::
    "'h env \<Rightarrow> (string, remote_stat) table \<Rightarrow> string set \<Rightarrow> nat \<Rightarrow> 'h mirror \<Rightarrow> (hub_error + unit) \<times> 'h mirror" where
  "prepare_listing_directories v remote touched epoch m =
     (let ds = foldl (prepare_dir v epoch)
            \<lparr>ds_m = m, ds_blocked = {}, ds_error = None, ds_stopped = False\<rparr> (listing_dirs v m remote touched)
      in (case ds_error ds of Some e \<Rightarrow> Inl e | None \<Rightarrow> Inr (), ds_m ds))"

definition add_listed :: "'h env \<Rightarrow> (string, remote_stat) table \<Rightarrow> listed_object \<Rightarrow> (string, remote_stat) table" where
  "add_listed v t ob = tput (normalize_key (v_nfc v) (lo_key ob))
     \<lparr>r_sha256 = lo_sha256 ob, r_size = lo_size ob, r_mtime = lo_mtime ob\<rparr> t"

fun list_pages :: "'h env \<Rightarrow> nat \<Rightarrow> string option \<Rightarrow> nat \<Rightarrow> (string, remote_stat) table \<Rightarrow> string set \<Rightarrow> 'h mirror
    \<Rightarrow> ((hub_error + nat \<times> (string, remote_stat) table \<times> string set) \<times> 'h mirror) option" where
  "list_pages v 0 cur latest remote touched m = None"
| "list_pages v (Suc n) cur latest remote touched m =
     (case api_list (v_api v) [] cur LIST_PAGE (m_hub m) of
        (Inl e, h) \<Rightarrow> Some (Inl e, m\<lparr>m_hub := h\<rparr>)
      | (Inr page, h) \<Rightarrow>
          (let latest = (if cur = None then ls_head page else latest);
               remote = foldl (add_listed v) remote (ls_objects page)
           in case drain_jobs v 16 (m\<lparr>m_hub := h\<rparr>) of
             (Inl e, m) \<Rightarrow> Some (Inl e, m)
           | (Inr ts, m) \<Rightarrow>
               (case ls_cursor page of
                  Some c \<Rightarrow> list_pages v n (Some c) latest remote (touched \<union> ts) m
                | None \<Rightarrow> Some (Inr (latest, remote, touched \<union> ts), m))))"

fun reconcile_all :: "'h env \<Rightarrow> (string, remote_stat) table \<Rightarrow> string set \<Rightarrow> string list \<Rightarrow> 'h mirror
    \<Rightarrow> (hub_error + unit) \<times> 'h mirror" where
  "reconcile_all v remote touched [] m = (Inr (), m)"
| "reconcile_all v remote touched (k # ks) m =
     (case drain_jobs v 16 m of
        (Inl e, m) \<Rightarrow> (Inl e, m)
      | (Inr ts, m) \<Rightarrow>
          (let touched = touched \<union> ts in
           if \<exists>p\<in>touched. under k p then reconcile_all v remote touched ks m
           else case reconcile_key v k (tget remote k) 0 m of
             (Inl e, m) \<Rightarrow> (Inl e, m)
           | (Inr _, m) \<Rightarrow> reconcile_all v remote touched ks m))"

definition known_keys :: "store \<Rightarrow> (string, remote_stat) table \<Rightarrow> string list" where
  "known_keys s remote = tkeys (foldl (\<lambda>t k. tput k () t) []
     (tkeys remote @ map fst (entries_prefix s []) @ map fst (bases_prefix s [])))"

definition listing_done :: "nat \<Rightarrow> nat \<Rightarrow> 'h mirror \<Rightarrow> 'h mirror" where
  "listing_done latest epoch m =
     upd_store (\<lambda>s. set_meta (set_meta (set_number (set_cursor s latest) HEAD_KEY latest) META_LISTED ''1'')
        ''directory-refresh'' (if m_epoch m \<noteq> epoch then ''1'' else ''0'')) m"

definition rebuild_from_listing ::
    "'h env \<Rightarrow> nat \<Rightarrow> 'h mirror \<Rightarrow> ((hub_error + unit) \<times> 'h mirror) option" where
  "rebuild_from_listing v fuel m =
     (let epoch = m_epoch m in
      case list_pages v fuel None 0 [] {} m of
        None \<Rightarrow> None
      | Some (Inl e, m) \<Rightarrow> Some (Inl e, m)
      | Some (Inr (latest, remote, touched), m) \<Rightarrow>
          (case prepare_listing_directories v remote touched epoch m of
             (Inl e, m) \<Rightarrow> Some (Inl e, m)
           | (Inr _, m) \<Rightarrow>
               (case reconcile_all v remote touched (known_keys (m_store m) remote) m of
                  (Inl e, m) \<Rightarrow> Some (Inl e, m)
                | (Inr _, m) \<Rightarrow> Some (Inr (), listing_done latest epoch m))))"

section \<open>The change feed\<close>

definition apply_remote_rename :: "'h env \<Rightarrow> string \<Rightarrow> string \<Rightarrow> nat \<Rightarrow> 'h mirror \<Rightarrow> 'h mirror" where
  "apply_remote_rename v src dst seq m =
     (if protected (v_opts v) \<and> (exists_local (m_fs m) src \<or> entry (m_store m) src \<noteq> None)
      then block_action v ''rename local file'' src (Some dst) None m
      else if pending_directory_move m src \<or> pending_directory_move m dst then m
      else case entry (m_store m) src of
        None \<Rightarrow> m
      | Some e \<Rightarrow>
          if \<not> (e_state e = Clean \<and> map_option b_sha256 (base (m_store m) src) = Some (e_sha256 e))
             \<or> is_open_for_write m src
          then
            (let m = upd_store (\<lambda>s. remove_base s src) m
             in if e_state e = Dirty \<and> \<not> ignored v m src then enq v (JPush src) m else m)
          else if entry (m_store m) dst \<noteq> None
          then (let f = (case remove_file (m_fs m) src of Inr f \<Rightarrow> f | Inl _ \<Rightarrow> m_fs m)
                in view_remove src (forget_key src (m\<lparr>m_fs := f\<rparr>)))
          else (case rename_node (m_fs m) src dst of
              Inl _ \<Rightarrow> view_remove src (forget_key src m)
            | Inr f \<Rightarrow>
                (let m = upd_store (\<lambda>s. rekey s src dst) (m\<lparr>m_fs := f\<rparr>);
                     m = record_dirs_for dst m;
                     m = (case base (m_store m) dst of
                            None \<Rightarrow> m | Some b \<Rightarrow> upd_store (\<lambda>s. put_base s dst (b\<lparr>b_remote_seq := seq\<rparr>)) m)
                 in view_rename src dst m)))"

definition follow_rename ::
    "'h env \<Rightarrow> change \<Rightarrow> string \<Rightarrow> nat \<Rightarrow> remote_stat option \<Rightarrow> 'h mirror \<Rightarrow> (hub_error + bool) \<times> 'h mirror" where
  "follow_rename v ch key epoch st m =
     (case (ch_op ch, ch_from ch) of
        (OpRename, Some raw) \<Rightarrow>
          (let src = normalize_key (v_nfc v) raw in
           case api_head (v_api v) src (m_hub m) of
             (Inl e, h) \<Rightarrow> (Inl e, m\<lparr>m_hub := h\<rparr>)
           | (Inr source, h) \<Rightarrow>
               (let m = v_other v (m\<lparr>m_hub := h\<rparr>) in
                if m_epoch m \<noteq> epoch then (Inr False, m)
                else if source = None \<and> map_option r_sha256 st = ch_sha256 ch \<and> st \<noteq> None
                then (Inr True, apply_remote_rename v src key (ch_seq ch) m)
                else case reconcile_key v src source (ch_seq ch) m of
                    (Inl e, m) \<Rightarrow> (Inl e, m)
                  | (Inr _, m) \<Rightarrow> (Inr True, m)))
      | _ \<Rightarrow> (Inr True, m))"

definition apply_change :: "'h env \<Rightarrow> change \<Rightarrow> 'h mirror \<Rightarrow> (hub_error + unit) \<times> 'h mirror" where
  "apply_change v ch m =
     (let epoch = m_epoch m; key = normalize_key (v_nfc v) (ch_key ch) in
      if pending_directory_move m key
         \<or> (case ch_from ch of Some src \<Rightarrow> pending_directory_move m src | None \<Rightarrow> False)
      then (Inr (), m)
      else case api_head (v_api v) key (m_hub m) of
        (Inl e, h) \<Rightarrow> (Inl e, m\<lparr>m_hub := h\<rparr>)
      | (Inr st, h) \<Rightarrow>
          (let m = v_other v (m\<lparr>m_hub := h\<rparr>) in
           if m_epoch m \<noteq> epoch \<or> pending_directory_move m key then (Inr (), m)
           else case follow_rename v ch key epoch st m of
             (Inl e, m) \<Rightarrow> (Inl e, m)
           | (Inr False, m) \<Rightarrow> (Inr (), m)
           | (Inr True, m) \<Rightarrow> reconcile_key v key st (ch_seq ch) m))"

text \<open>One page of changes: None in the result means that a directory move asks for a listing.\<close>

fun apply_page :: "'h env \<Rightarrow> change list \<Rightarrow> nat \<Rightarrow> 'h mirror \<Rightarrow> (hub_error + nat option) \<times> 'h mirror" where
  "apply_page v [] lst m = (Inr (Some lst), m)"
| "apply_page v (ch # chs) lst m =
     (case drain_jobs v 16 m of
        (Inl e, m) \<Rightarrow> (Inl e, m)
      | (Inr _, m) \<Rightarrow>
          if meta (m_store m) ''directory-refresh'' = Some ''1'' then (Inr None, m)
          else case apply_change v ch m of
            (Inl e, m) \<Rightarrow> (Inl e, m)
          | (Inr _, m) \<Rightarrow> apply_page v chs (max lst (ch_seq ch)) m)"

fun catch_up_loop :: "'h env \<Rightarrow> nat \<Rightarrow> nat \<Rightarrow> 'h mirror \<Rightarrow> ((hub_error + unit) \<times> 'h mirror) option" where
  "catch_up_loop v 0 since m = None"
| "catch_up_loop v (Suc n) since m =
     (case api_changes (v_api v) since CHANGES_PAGE (m_hub m) of
        (Inl (CursorTooOld oldest latest), h) \<Rightarrow> rebuild_from_listing v n (m\<lparr>m_hub := h\<rparr>)
      | (Inl e, h) \<Rightarrow> Some (Inl e, m\<lparr>m_hub := h\<rparr>)
      | (Inr page, h) \<Rightarrow>
          (let m = upd_store (\<lambda>s. set_number s HEAD_KEY (cs_head page)) (m\<lparr>m_hub := h\<rparr>);
               len = length (cs_changes page)
           in case apply_page v (cs_changes page) since m of
             (Inl e, m) \<Rightarrow> Some (Inl e, m)
           | (Inr None, m) \<Rightarrow> rebuild_from_listing v n m
           | (Inr (Some lst), m) \<Rightarrow>
               (let since = (if len = 0 then max (cs_head page) since else lst);
                    m = upd_store (\<lambda>s. set_cursor s since) m
                in if len < CHANGES_PAGE then Some (Inr (), m) else catch_up_loop v n since m)))"

definition catch_up :: "'h env \<Rightarrow> nat \<Rightarrow> 'h mirror \<Rightarrow> ((hub_error + unit) \<times> 'h mirror) option" where
  "catch_up v fuel m = catch_up_loop v fuel (or_default 0 (cursor (m_store m))) m"

section \<open>A cycle\<close>

definition needs_refresh :: "'h mirror \<Rightarrow> bool" where
  "needs_refresh m = (meta (m_store m) ''directory-refresh'' = Some ''1'')"

definition and_then ::
    "((hub_error + 'a) \<times> 'h mirror) option \<Rightarrow> ('a \<Rightarrow> 'h mirror \<Rightarrow> ((hub_error + 'b) \<times> 'h mirror) option)
      \<Rightarrow> ((hub_error + 'b) \<times> 'h mirror) option" where
  "and_then r f =
     (case r of None \<Rightarrow> None
      | Some (Inl e, m) \<Rightarrow> Some (Inl e, m)
      | Some (Inr x, m) \<Rightarrow> f x m)"

definition cycle_inner :: "'h env \<Rightarrow> nat \<Rightarrow> bool \<Rightarrow> 'h mirror \<Rightarrow> ((hub_error + unit) \<times> 'h mirror) option" where
  "cycle_inner v fuel full m =
     (let resume = (\<not> protected (v_opts v) \<and> meta (m_store m) RECHECK \<noteq> None);
          full = (full \<or> resume)
      in case verify_destination v m of Some e \<Rightarrow> Some (Inl e, m)
      | None \<Rightarrow>
         and_then (Some (recover_directory_moves v m)) (\<lambda>_ m.
           (let m = (if full then snd (scan_local v m) else m);
                m = process_local_events v m
            in and_then (Some (refresh_hub_rules v m)) (\<lambda>_ m.
               and_then (Some (drain_jobs v 64 (recover_jobs v m))) (\<lambda>_ m.
               and_then
                 (if full \<or> needs_refresh m \<or> cursor (m_store m) = None \<or> meta (m_store m) META_LISTED = None
                  then map_option (\<lambda>(r, m). (r, if r = Inr () then m\<lparr>m_last_full := True\<rparr> else m))
                         (rebuild_from_listing v fuel m)
                  else catch_up v fuel m) (\<lambda>_ m.
               and_then (Some (recheck_deferred v m)) (\<lambda>_ m.
               and_then (Some (drain_jobs v 64 (recover_jobs v m))) (\<lambda>_ m.
               and_then (if needs_refresh m then rebuild_from_listing v fuel m else Some (Inr (), m)) (\<lambda>_ m.
                 Some (Inr (), if resume then upd_store (\<lambda>s. remove_meta s RECHECK) m else m))))))))))"

definition expire_trash :: "'h env \<Rightarrow> 'h mirror \<Rightarrow> string \<times> trash_rec \<Rightarrow> 'h mirror" where
  "expire_trash v m row =
     (let (key, t) = row in
      if v_now v - t_ts t > TRASH_TTL_MS
      then (if protected (v_opts v) then block_action v ''expire local trash copy'' key None None m
            else (upd_store (\<lambda>s. remove_trashed s key) m)\<lparr>m_fs := trash_remove (m_fs m) key\<rparr>)
      else m)"

definition expire_snapshot :: "'h env \<Rightarrow> string set \<Rightarrow> 'h mirror \<Rightarrow> string \<times> string \<times> nat \<Rightarrow> 'h mirror" where
  "expire_snapshot v referenced m row =
     (let (name, _, mtime) = row in
      if ends_with ''.part'' name \<or> name \<in> referenced then m
      else if v_now v - mtime > TRASH_TTL_MS
      then (if protected (v_opts v) then block_action v ''expire conflict snapshot'' name None None m
            else m\<lparr>m_fs := conflict_remove (m_fs m) name\<rparr>)
      else m)"

definition housekeeping :: "'h env \<Rightarrow> 'h mirror \<Rightarrow> 'h mirror" where
  "housekeeping v m =
     (let m = foldl (expire_trash v) m (trash (m_store m));
          referenced = c_local_sha256 ` set (conflict_list (m_store m))
      in foldl (expire_snapshot v referenced) m (f_conflicts (m_fs m)))"

definition cycle_settled :: "'h env \<Rightarrow> (hub_error + unit) \<Rightarrow> 'h mirror \<Rightarrow> 'h mirror" where
  "cycle_settled v r m =
     (case r of
        Inr _ \<Rightarrow> housekeeping v (set_state Idle (set_error None m))
      | Inl e \<Rightarrow>
          (let m = set_error (Some (show_error e)) m in
           case e of
             Offline _ \<Rightarrow> housekeeping v (set_state SyncOffline m)
           | Unauthorized \<Rightarrow> set_state Paused m
           | UnsafeMirror _ \<Rightarrow> set_state Paused m
           | _ \<Rightarrow> housekeeping v (set_state Idle m)))"

definition cycle :: "'h env \<Rightarrow> nat \<Rightarrow> bool \<Rightarrow> 'h mirror \<Rightarrow> 'h mirror option" where
  "cycle v fuel full m =
     (let prior = m_state m; m = m\<lparr>m_protected_jobs := {}\<rparr> in
      if prior = Paused \<and> \<not> full then Some m
      else case cycle_inner v fuel full (set_state Syncing m) of
        None \<Rightarrow> None
      | Some (r, m) \<Rightarrow> Some (cycle_settled v r m))"

section \<open>Engine messages\<close>

datatype engine_msg = Wake | SyncNow | Reconnect | Stop

text \<open>What one round of the engine thread makes of the messages it found: whether it goes on,
  whether a full pass is due, and the state after the reconnects.\<close>

fun absorb :: "engine_msg list \<Rightarrow> bool \<Rightarrow> 'h mirror \<Rightarrow> (bool \<times> 'h mirror) option" where
  "absorb [] full m = Some (full, m)"
| "absorb (Stop # _) full m = None"
| "absorb (SyncNow # ms) full m = absorb ms True m"
| "absorb (Reconnect # ms) full m =
     absorb ms full (if m_state m = SyncOffline then set_state Idle m else m)"
| "absorb (Wake # ms) full m = absorb ms full m"

definition engine_round :: "'h env \<Rightarrow> nat \<Rightarrow> engine_msg list \<Rightarrow> bool \<Rightarrow> 'h mirror \<Rightarrow> 'h mirror option option" where
  "engine_round v fuel msgs due_full m =
     (case absorb msgs False m of
        None \<Rightarrow> None
      | Some (full, m) \<Rightarrow> Some (cycle v fuel (full \<or> due_full) m))"

section \<open>Migration of a generation-1 mirror\<close>

record migration =
  mg_store :: store
  mg_fs :: folder

definition place_cached :: "folder \<Rightarrow> string \<Rightarrow> string \<Rightarrow> nat \<Rightarrow> io_error + folder" where
  "place_cached f key bytes mtime =
     (case (if parent_key key = [] then Inr f else mkdir f (parent_key key)) of
        Inl e \<Rightarrow> Inl e
      | Inr f \<Rightarrow> (case tget (f_nodes f) key of
            None \<Rightarrow>
              Inr (f\<lparr>f_nodes := tput key (File bytes ((fresh_meta f)
                      \<lparr>m_mtime := mtime div 1000, m_mtime_nsec := mtime mod 1000 * 1000000\<rparr>)) (f_nodes f),
                    f_next_ino := f_next_ino f + 1\<rparr>)
          | Some _ \<Rightarrow> Inl OtherIo))"

definition migrate_entry ::
    "(string \<Rightarrow> string option) \<Rightarrow> nat \<Rightarrow> (string \<Rightarrow> bool) \<Rightarrow> (string, base) table \<Rightarrow> migration \<Rightarrow> string \<times> entry \<Rightarrow> migration" where
  "migrate_entry cache now ign old g row =
     (let (key, e) = row in
      if e_state e = Tombstone
      then (case tget old key of
          None \<Rightarrow> g
        | Some b \<Rightarrow> g\<lparr>mg_store := snd (enqueue now (put_base (put_entry (mg_store g) key e) key b) (JDelete key None))\<rparr>)
      else if exists_local (mg_fs g) key then g
      else case cache (e_sha256 e) of
        None \<Rightarrow> g
      | Some bytes \<Rightarrow>
          (case place_cached (mg_fs g) key bytes (e_mtime e) of
             Inl _ \<Rightarrow> g
           | Inr f \<Rightarrow>
               (case stat f key of
                  None \<Rightarrow> g\<lparr>mg_fs := f\<rparr>
                | Some st \<Rightarrow>
                    (let s = put_entry (mg_store g) key
                           \<lparr>e_sha256 = e_sha256 e, e_size = s_size st, e_mtime = s_mtime st, e_state = e_state e\<rparr>;
                         s = (case tget old key of Some b \<Rightarrow> put_base s key b | None \<Rightarrow> s);
                         s = (if e_state e = Dirty \<and> \<not> ign key then snd (enqueue now s (JPush key)) else s)
                     in g\<lparr>mg_store := s, mg_fs := f\<rparr>))))"

definition migrate_trash :: "(string \<Rightarrow> string option) \<Rightarrow> migration \<Rightarrow> string \<times> trash_rec \<Rightarrow> migration" where
  "migrate_trash cache g row =
     (let (key, t) = row in
      case cache (t_sha256 t) of
        None \<Rightarrow> g
      | Some bytes \<Rightarrow>
          g\<lparr>mg_fs := (mg_fs g)\<lparr>f_trash := tput key (File bytes (fresh_meta (mg_fs g))) (f_trash (mg_fs g))\<rparr>,
            mg_store := put_trashed (mg_store g) key t\<rparr>)"

definition migrate_conflict :: "(string \<Rightarrow> string option) \<Rightarrow> migration \<Rightarrow> conflict_rec \<Rightarrow> migration" where
  "migrate_conflict cache g c =
     (case cache (c_local_sha256 c) of
        None \<Rightarrow> g
      | Some bytes \<Rightarrow>
          g\<lparr>mg_fs := (mg_fs g)\<lparr>f_conflicts := tput (c_local_sha256 c) (bytes, ms_of (fresh_meta (mg_fs g)))
                (f_conflicts (mg_fs g))\<rparr>,
            mg_store := put_conflict (mg_store g) c\<rparr>)"

definition migrate_legacy ::
    "(string \<Rightarrow> string option) \<Rightarrow> nat \<Rightarrow> (string \<Rightarrow> bool) \<Rightarrow> legacy \<Rightarrow> migration \<Rightarrow> migration" where
  "migrate_legacy cache now ign l g =
     (let old = foldl (\<lambda>t (k, b). tput k b t) [] (l_bases l);
          g = foldl (migrate_entry cache now ign old) g (l_entries l);
          g = foldl (migrate_trash cache) g (l_trash l)
      in foldl (migrate_conflict cache) g (l_conflicts l))"

end
