(* ===== verification/Sync_Inv.thy ===== *)
theory Sync_Inv
  imports Sync_Cycle
begin

text \<open>
  What every step of the engine keeps of the store.

  The engine changes the store only through the operations of \<^verbatim>\<open>store.rs\<close>, so a property
  of the store that those operations keep is kept by every engine function, whatever the
  hub answers and whatever other threads do in between, as long as they keep it, too. The
  locale \<open>engine_inv\<close> states this contract once; \<open>cycle_inv\<close> extends it by the operations
  only a whole cycle uses. The interpretations below give: the store stays well-formed,
  nothing below the feed loop moves the feed cursor, and nothing touches the binding of the
  ledger to its folder.
\<close>

definition engine_meta :: "string \<Rightarrow> bool" where
  "engine_meta name \<longleftrightarrow>
     (\<exists>k. name = stamp_key k \<or> name = pending_key k) \<or> name = ''directory-refresh''"

lemma engine_meta_intros [simp]:
  "engine_meta (stamp_key k)" "engine_meta (pending_key k)" "engine_meta ''directory-refresh''"
  "engine_meta (CHR ''u'' # CHR ''p'' # CHR ''l'' # CHR ''o'' # CHR ''a'' # CHR ''d'' # CHR ''-'' # CHR ''p'' #
     CHR ''e'' # CHR ''n'' # CHR ''d'' # CHR ''i'' # CHR ''n'' # CHR ''g'' # CHR '':'' # k)"
  by (auto simp: engine_meta_def)

locale engine_inv =
  fixes v :: "'h env" and J :: "store \<Rightarrow> bool"
  assumes J_other: "J (m_store m) \<Longrightarrow> J (m_store (v_other v m))"
    and J_put_entry: "J s \<Longrightarrow> J (put_entry s k e)"
    and J_remove_entry: "J s \<Longrightarrow> J (remove_entry s k)"
    and J_put_base: "J s \<Longrightarrow> J (put_base s k b)"
    and J_remove_base: "J s \<Longrightarrow> J (remove_base s k)"
    and J_set_meta: "J s \<Longrightarrow> engine_meta name \<Longrightarrow> J (set_meta s name x)"
    and J_remove_meta: "J s \<Longrightarrow> engine_meta name \<Longrightarrow> J (remove_meta s name)"
    and J_record_blocked: "J s \<Longrightarrow> J (snd (record_blocked json s a))"
    and J_enqueue: "J s \<Longrightarrow> J (snd (enqueue_with_priority now s kd pr))"
    and J_update_job: "J s \<Longrightarrow> J (update_job s jb)"
    and J_remove_job: "J s \<Longrightarrow> J (remove_job s q)"
    and J_remove_jobs_for: "J s \<Longrightarrow> J (snd (remove_jobs_for s k))"
    and J_put_conflict: "J s \<Longrightarrow> J (put_conflict s c)"
    and J_remove_conflict: "J s \<Longrightarrow> J (remove_conflict s k)"
    and J_put_trashed: "J s \<Longrightarrow> J (put_trashed s k t)"
    and J_remove_trashed: "J s \<Longrightarrow> J (remove_trashed s k)"
    and J_add_dir: "J s \<Longrightarrow> J (add_dir s k)"
    and J_remove_dir: "J s \<Longrightarrow> J (remove_dir s k)"
begin

lemmas prims = J_put_entry J_remove_entry J_put_base J_remove_base J_set_meta J_remove_meta
  J_record_blocked J_enqueue J_update_job J_remove_job J_remove_jobs_for J_put_conflict
  J_remove_conflict J_put_trashed J_remove_trashed J_add_dir J_remove_dir

abbreviation I :: "'h mirror \<Rightarrow> bool" where "I m \<equiv> J (m_store m)"

lemma upd_store [simp]: "m_store (upd_store f m) = f (m_store m)"
  by (simp add: upd_store_def)

lemma frames [simp]:
  "m_store (skip_key k w m) = m_store m" "m_store (unskip_key k m) = m_store m"
  "m_store (recheck_key k m) = m_store m" "m_store (wake m) = m_store m"
  "m_store (with_view x m) = m_store m" "m_store (view_upsert k sz mt m) = m_store m"
  "m_store (view_remove k m) = m_store m" "m_store (view_rename a b m) = m_store m"
  "m_store (view_ensure_dir k m) = m_store m" "m_store (set_state st m) = m_store m"
  "m_store (set_error er m) = m_store m" "m_store (drop_part k m) = m_store m"
  by (simp_all add: skip_key_def unskip_key_def recheck_key_def wake_def with_view_def
      view_upsert_def view_remove_def view_rename_def view_ensure_dir_def set_state_def
      set_error_def drop_part_def)

lemma I_block [intro]: "I m \<Longrightarrow> I (block_action v a k dst r m)"
  by (simp add: block_action_def Let_def prims)

lemma I_enq [intro]: "I m \<Longrightarrow> I (enq v kd m)"
  by (simp add: enq_def enqueue_def prims)

lemma I_enq_prio [intro]: "I m \<Longrightarrow> I (enq_prio v kd pr m)"
  by (simp add: enq_prio_def prims)

lemma I_ensure [intro]: "I m \<Longrightarrow> I (ensure_job v kd m)"
  by (simp add: ensure_job_def I_enq_prio)

lemma J_record_dirs: "J s \<Longrightarrow> J (record_dirs ps s)"
  by (induction ps arbitrary: s) (auto simp: prims)

lemma I_record_dirs [intro]: "I m \<Longrightarrow> I (record_dirs_for k m)"
  by (simp add: record_dirs_for_def J_record_dirs)

lemma I_clear_trash [intro]: "I m \<Longrightarrow> I (clear_obsolete_trash v k m)"
  by (simp add: clear_obsolete_trash_def prims I_block)

lemma I_forget [intro]: "I m \<Longrightarrow> I (forget_key k m)"
  by (simp add: forget_key_def prims)

lemma I_gone [intro]: "I m \<Longrightarrow> I (note_local_gone v k m)"
  by (simp add: note_local_gone_def Let_def enq_def enqueue_def prims split: option.split)

lemma I_scan_dir [intro]: "I m \<Longrightarrow> I (scan_dir v pr k m)"
  by (simp add: scan_dir_def Let_def enq_prio_def prims)

lemma I_scan_record [intro]: "I m \<Longrightarrow> I (scan_record v pr k h m)"
  by (simp add: scan_record_def Let_def I_enq_prio I_clear_trash prims)

lemma I_scan_file:
  assumes "I (sc_m sc)"
  shows "I (sc_m (scan_file v ps pr ep k st sc))"
proof -
  have o: "I (v_other v (sc_m sc))" using assms by (rule J_other)
  then have "I (upd_store (\<lambda>s. set_meta s (stamp_key k) (s_fingerprint st)) (v_other v (sc_m sc)))"
    by (simp add: prims)
  then show ?thesis
    using assms o by (auto simp: scan_file_def Let_def prims I_scan_record split: sum.split option.split)
qed

lemma I_scan_item: "I (sc_m sc) \<Longrightarrow> I (sc_m (scan_item v ps pr ep sc x))"
  by (auto simp: scan_item_def Let_def J_other I_scan_dir intro!: I_scan_file split: prod.split)

lemma I_scan_items: "I (sc_m sc) \<Longrightarrow> I (sc_m (foldl (scan_item v ps pr ep) sc xs))"
  by (induction xs arbitrary: sc) (auto simp: I_scan_item)

lemma I_scan_roots: "I (sc_m sc) \<Longrightarrow> I (sc_m (foldl (scan_root v ps pr ep) sc xs))"
  by (induction xs arbitrary: sc) (auto simp: scan_root_def I_scan_items)

lemma I_scan_removed: "I (sc_m sc) \<Longrightarrow> I (sc_m (foldl (scan_removed v ps) sc xs))"
  by (induction xs arbitrary: sc) (auto simp: scan_removed_def Let_def I_gone split: prod.split)

lemma I_scan_removed_dir: "I (sc_m sc) \<Longrightarrow> I (sc_m (foldl (scan_removed_dir v ps pr) sc xs))"
proof (induction xs arbitrary: sc)
  case (Cons d xs)
  have "I (sc_m (scan_removed_dir v ps pr sc d))"
    using Cons.prems by (simp add: scan_removed_dir_def Let_def enq_prio_def prims)
  then show ?case using Cons.IH by simp
qed simp

lemma I_scan_paths [intro]: "I m \<Longrightarrow> I (snd (scan_paths v ps pr m))"
proof -
  assume m: "I m"
  let ?sc0 = "\<lparr>sc_m = m, sc_report = empty_report, sc_files = {}, sc_dirs = {}, sc_aborted = False\<rparr>"
  let ?sc1 = "foldl (scan_root v ps pr (m_epoch m)) ?sc0 ps"
  have 1: "I (sc_m ?sc1)" by (rule I_scan_roots) (simp add: m)
  have 2: "I (v_other v (sc_m ?sc1))" using 1 by (rule J_other)
  let ?sc2 = "?sc1\<lparr>sc_m := v_other v (sc_m ?sc1)\<rparr>"
  let ?sc3 = "foldl (scan_removed v ps) ?sc2 (entries_prefix (m_store (v_other v (sc_m ?sc1))) [])"
  have 3: "I (sc_m ?sc3)" by (rule I_scan_removed) (simp add: 2)
  then have "I (sc_m (foldl (scan_removed_dir v ps pr) ?sc3 (dirs (m_store (sc_m ?sc3)))))"
    by (rule I_scan_removed_dir)
  then show ?thesis using m 1 2 by (simp add: scan_paths_def Let_def split: option.split)
qed

lemma I_events [intro]: "I m \<Longrightarrow> I (process_local_events v m)"
  by (auto simp: process_local_events_def Let_def scan_local_def intro!: I_scan_paths)

lemma I_fetch: "I m \<Longrightarrow> I (snd (fetch v k x mt P m))"
  by (auto simp: fetch_def Let_def J_other split: sum.split prod.split option.split node.split)

lemma I_pull_landed [intro]: "I m \<Longrightarrow> I (pull_landed v k r q h m)"
  by (simp add: pull_landed_def Let_def prims I_record_dirs I_clear_trash)

lemma I_pull [intro]:
  assumes "I m"
  shows "I (snd (pull_key v k r q x m))"
proof -
  have "I (snd (fetch v k sh mt P (v_other v m)))" for sh mt P
    using assms by (intro I_fetch J_other)
  then have f: "fetch v k sh mt P (v_other v m) = (res, m') \<Longrightarrow> I m'" for sh mt P res m'
    by (metis snd_conv)
  show ?thesis
    using assms by (auto simp: pull_key_def Let_def dest!: f split: prod.split sum.split hub_error.split)
qed

lemma I_record_conflict [intro]:
  assumes "I m"
  shows "I (record_conflict v k e b r m)"
proof -
  have "I (v_other v m)" using assms by (rule J_other)
  then show ?thesis
    using assms by (auto simp: record_conflict_def Let_def prims I_ensure split: sum.split)
qed

lemma I_do_push [intro]: "I m \<Longrightarrow> I (do_push v k im e b m)"
  by (auto simp: do_push_def Let_def prims intro!: I_ensure split: option.split)

lemma I_do_trash [intro]: "I m \<Longrightarrow> I (snd (do_trash_local v k e m))"
  by (auto simp: do_trash_local_def Let_def prims intro!: I_forget split: option.split sum.split)

lemma I_do_adopt [intro]: "I m \<Longrightarrow> I (do_adopt k e r q m)"
  by (auto simp: do_adopt_def Let_def prims I_forget split: option.split)

lemma I_perform [intro]: "I m \<Longrightarrow> I (snd (perform_action v k r q e b act m))"
  by (cases act)
    (auto simp: perform_action_def J_other intro!: I_do_push I_ensure I_forget I_pull I_do_trash I_do_adopt
      I_record_conflict split: option.split)

lemma I_reconcile [intro]: "I m \<Longrightarrow> I (snd (reconcile_key v k r q m))"
  by (auto simp: reconcile_key_def Let_def intro!: I_block I_perform split: option.split)

lemma I_recover_jobs [intro]: "I m \<Longrightarrow> I (recover_jobs v m)"
proof -
  have "I (foldl (\<lambda>m' row. case w row of None \<Rightarrow> m'
           | Some kd \<Rightarrow> if P kd then m' else enq_prio v kd Discovered m') m rows)"
    if "I m" for w P rows m
    using that
  proof (induction rows arbitrary: m)
    case (Cons a rows)
    have "I (case w a of None \<Rightarrow> m | Some kd \<Rightarrow> if P kd then m else enq_prio v kd Discovered m)"
      using Cons.prems by (auto split: option.split intro!: I_enq_prio)
    then show ?case using Cons.IH by simp
  qed simp
  then show "I m \<Longrightarrow> ?thesis" by (simp add: recover_jobs_def Let_def)
qed

lemma I_push_ack [intro]: "I m \<Longrightarrow> I (push_acknowledged k e res m)"
  by (auto simp: push_acknowledged_def Let_def prims split: option.split)

lemma I_block_replace [intro]: "I m \<Longrightarrow> I (block_replace v k x m)"
  by (simp add: block_replace_def I_block)

lemma I_hub [simp]: "m_store (m\<lparr>m_hub := h\<rparr>) = m_store m"
  by simp

lemma I_run_push [intro]:
  assumes "I m"
  shows "I (snd (run_push v k m))"
proof -
  have 1: "I (v_other v (v_other v m))" using assms by (intro J_other)
  let ?m = "\<lambda>e. upd_store (\<lambda>s. set_meta (put_entry s k e) (pending_key k) (e_sha256 e)) (v_other v (v_other v m))"
  have 2: "I (v_other v ((?m e)\<lparr>m_hub := h\<rparr>))" for e h
    by (rule J_other) (simp add: prims 1)
  have 3: "I (v_other v (v_other v ((?m e)\<lparr>m_hub := h\<rparr>)))" for e h
    using 2 by (rule J_other)
  show ?thesis
    unfolding run_push_def Let_def
    using assms J_other[OF assms] 1 2 3
    by (auto intro!: I_block_replace I_push_ack I_reconcile split: option.split sum.split prod.split hub_error.split)
qed

lemma I_drop_tombstone [intro]: "I m \<Longrightarrow> I (drop_tombstone k m)"
  by (auto simp: drop_tombstone_def prims split: option.split)

lemma I_repush [intro]: "I m \<Longrightarrow> I (repush v k e m)"
  by (auto simp: repush_def prims intro!: I_ensure)

lemma I_run_delete [intro]:
  assumes "I m"
  shows "I (snd (run_delete v k fx m))"
proof -
  have 1: "I (v_other v ((v_other v m)\<lparr>m_hub := h\<rparr>))" for h
    by (rule J_other) (simp add: J_other[OF assms])
  then have 2: "I (v_other v (v_other v ((v_other v m)\<lparr>m_hub := h\<rparr>)))" for h by (rule J_other)
  show ?thesis
    unfolding run_delete_def Let_def
    using assms 1 2 I_drop_tombstone[OF 1]
    by (auto simp: prims intro!: I_drop_tombstone I_reconcile split: option.split sum.split prod.split hub_error.split)
qed

lemma I_run_rename [intro]:
  assumes "I m"
  shows "I (snd (run_rename v a b m))"
proof -
  let ?n = "\<lambda>h. v_other v ((v_other v m)\<lparr>m_hub := h\<rparr>)"
  have n: "I (?n h)" for h by (rule J_other) (simp add: J_other[OF assms])
  have r: "I (upd_store (\<lambda>s. remove_base s x) (?n h))" for x h by (simp add: prims n)
  have h2: "I (v_other v ((v_other v (?n h))\<lparr>m_hub := h'\<rparr>))" for h h'
    by (rule J_other) (simp add: J_other[OF n])
  have r2: "I (v_other v (upd_store (\<lambda>s. remove_base s x) (v_other v ((v_other v (?n h))\<lparr>m_hub := h'\<rparr>))))" for x h h'
    by (rule J_other) (simp add: prims h2)
  have rep: "I (repush v y e (upd_store (\<lambda>s. remove_base s x) (?n h)))" for x y e h by (rule I_repush[OF r])
  show ?thesis
    unfolding run_rename_def Let_def
    using n r h2 r2 rep J_other[OF n] J_other[OF r] J_other[OF rep]
    by (auto simp: prims intro!: I_reconcile split: option.split sum.split prod.split hub_error.split)
qed

lemma I_after_conflict [intro]:
  assumes "I m"
  shows "I (snd (after_conflict_upload v k sh m))"
proof -
  have 1: "I (v_other v (m\<lparr>m_hub := h\<rparr>))" for h by (rule J_other) (simp add: assms)
  show ?thesis
    unfolding after_conflict_upload_def Let_def
    using assms 1 by (auto simp: prims intro!: I_scan_paths I_pull I_ensure split: option.split sum.split prod.split)
qed

lemma I_finish_conflict [intro]:
  assumes "I m"
  shows "I (snd (finish_conflict v k sh t rec doc m))"
proof -
  have 1: "I (upd_store (\<lambda>s. put_conflict s c) (v_other v m))" for c
    using J_other[OF assms] by (simp add: prims)
  have 2: "I (v_other v (upd_store (\<lambda>s. put_conflict s c) (v_other v m)))" for c
    using 1 by (rule J_other)
  show ?thesis unfolding finish_conflict_def Let_def using 1 2 by (auto intro!: I_after_conflict)
qed

lemma I_conflict_ready: "conflict_bytes_ready v k sh m = Some m' \<Longrightarrow> m_store m' = m_store m"
  by (auto simp: conflict_bytes_ready_def split: if_splits sum.splits)

lemma I_run_conflict [intro]:
  assumes "I m"
  shows "I (snd (run_conflict v k sh bs m))"
proof (cases "conflict_bytes_ready v k sh m")
  case (Some m')
  then have m': "I m'" using I_conflict_ready assms by metis
  have 1: "I (upd_store (\<lambda>s. put_conflict s c) (v_other v (m'\<lparr>m_hub := h\<rparr>)))" for c h
    using J_other[of "m'\<lparr>m_hub := h\<rparr>"] m' by (simp add: prims)
  show ?thesis
    unfolding run_conflict_def Let_def using Some m' 1
    by (auto intro!: I_finish_conflict split: conflict_mode.split sum.split prod.split)
qed (use assms in \<open>simp add: run_conflict_def\<close>)

lemma I_run_rename_dir [intro]:
  assumes "I m"
  shows "I (snd (run_rename_dir v kd m))"
proof -
  have 1: "I (v_other v (m\<lparr>m_hub := h\<rparr>))" for h by (rule J_other) (simp add: assms)
  show ?thesis unfolding run_rename_dir_def Let_def using assms 1
    by (auto simp: prims split: sum.split prod.split)
qed

lemma I_run_job [intro]:
  assumes "I m"
  shows "I (snd (run_job v jb m))"
proof -
  have 1: "I (v_other v (m\<lparr>m_hub := h\<rparr>))" for h by (rule J_other) (simp add: assms)
  show ?thesis
    using assms 1
    by (cases "j_kind jb") (auto simp: run_job_def split: sum.split prod.split hub_error.split)
qed

lemma I_protect [intro]: "I m \<Longrightarrow> I (snd (protect_job v jb m))"
  by (auto simp: protect_job_def split: option.split)

lemma I_settle [intro]: "I m \<Longrightarrow> I (snd (settle_job v jb r m))"
  by (auto simp: settle_job_def Let_def prims intro!: I_scan_paths split: sum.split hub_error.split)

lemma I_run_one [intro]:
  assumes "I m"
  shows "I (snd (run_one v jb m))"
proof -
  have p: "I (snd (protect_job v x (v_other v m)))" for x using assms by (intro I_protect J_other)
  then have "protect_job v x (v_other v m) = (r, m') \<Longrightarrow> I m'" for x r m' by (metis snd_conv)
  then have q: "I (snd (case protect_job v x (v_other v m) of (Inl e, m) \<Rightarrow> (Inl e, m) | (Inr _, m) \<Rightarrow> run_job v x m))"
    for x by (auto intro!: I_run_job split: sum.split prod.split)
  show ?thesis
    unfolding run_one_def using assms q
    by (auto simp: split_def Let_def intro!: I_settle split: option.split)
qed

lemma I_drain [intro]: "I m \<Longrightarrow> I (snd (drain_jobs v n m))"
proof (induction n arbitrary: m)
  case (Suc n)
  let ?m = "process_local_events v m"
  have e: "I ?m" using Suc.prems by (rule I_events)
  show ?case
  proof (cases "next_job v ?m")
    case None
    then show ?thesis using e by (simp add: Let_def)
  next
    case (Some jb)
    obtain r m1 where r1: "run_one v jb ?m = (r, m1)" by force
    have m1: "I m1" using I_run_one[OF e, of jb] r1 by simp
    obtain r2 m2 where r2: "drain_jobs v n m1 = (r2, m2)" by force
    have m2: "I m2" using Suc.IH[OF m1] r2 by simp
    show ?thesis using Some r1 m1 r2 m2 by (cases r; cases r2) (auto simp: Let_def)
  qed
qed simp

end

end
