(* ===== verification/Sync_Cycle_Inv.thy ===== *)
theory Sync_Cycle_Inv
  imports Sync_Inv Store_Moves
begin

text \<open>
  The contract of \<open>Sync_Inv\<close> for a whole cycle: \<open>cycle_inv\<close> adds the operations of the store
  that only the pages, the listing and the directory moves use, and carries the invariant
  through \<open>cycle\<close> and the local operations. Its interpretations give the properties at the
  end: what one round of the engine can do to the ledger.
\<close>

definition cycle_meta :: "string \<Rightarrow> bool" where
  "cycle_meta name \<longleftrightarrow> name = META_INSTANCE \<or> name = ''exclusions'' \<or> name = META_LISTED \<or> name = RECHECK"

lemma cycle_meta_intros [simp]:
  "cycle_meta META_INSTANCE" "cycle_meta ''exclusions''" "cycle_meta META_LISTED" "cycle_meta RECHECK"
  by (auto simp: cycle_meta_def)

section \<open>Local operations\<close>

text \<open>
  What the other threads of the program do while the engine has let go of the lock: the
  operations of \<open>Sync_Local\<close>, and edits that other programs make in the folder itself.
\<close>

datatype local_op =
    UOutside "folder \<Rightarrow> folder"
  | UOpen string bool bool
  | UClose string
  | UCommit string
  | UWrite string string
  | UDelete string
  | UMkdir string
  | URmdir string
  | URename string string
  | URenameDir string string
  | URestore string
  | UResolved string

fun local_step :: "'h env \<Rightarrow> local_op \<Rightarrow> 'h mirror \<Rightarrow> 'h mirror" where
  "local_step v (UOutside f) m = m\<lparr>m_fs := f (m_fs m)\<rparr>"
| "local_step v (UOpen k create trunc) m = snd (open_local_write k create trunc m)"
| "local_step v (UClose k) m = note_close_write k m"
| "local_step v (UCommit k) m = snd (commit_local_file v k m)"
| "local_step v (UWrite k b) m = snd (commit_write v k b m)"
| "local_step v (UDelete k) m = snd (delete_local v k m)"
| "local_step v (UMkdir k) m = snd (mkdir_local v k m)"
| "local_step v (URmdir k) m = snd (rmdir_local v k m)"
| "local_step v (URename a b) m = snd (rename_local v a b m)"
| "local_step v (URenameDir a b) m = snd (rename_dir_local v a b m)"
| "local_step v (URestore k) m = snd (mirror_trash_restore v k m)"
| "local_step v (UResolved k) m = conflict_resolved v k m"

definition local_steps :: "'h env \<Rightarrow> local_op list \<Rightarrow> 'h mirror \<Rightarrow> 'h mirror" where
  "local_steps v ops m = foldl (\<lambda>m x. local_step v x m) m ops"

text \<open>An environment in which a schedule decides, from the state, what happens whenever the
  lock is free.\<close>

definition undisturbed :: "'h env \<Rightarrow> 'h env" where
  "undisturbed v = v\<lparr>v_other := \<lambda>m. m\<rparr>"

definition scheduled :: "('h mirror \<Rightarrow> local_op list) \<Rightarrow> 'h env \<Rightarrow> 'h env" where
  "scheduled sch v = v\<lparr>v_other := \<lambda>m. local_steps (undisturbed v) (sch m) m\<rparr>"

locale local_inv = engine_inv +
  assumes J_ok: "J s \<Longrightarrow> store_ok s"
    and J_rekey: "J s \<Longrightarrow> J (rekey s a b)"
    and J_dir_rename: "J s \<Longrightarrow> j_seq jb \<le> job_seq s \<Longrightarrow> J (apply_directory_rename s jb)"
begin

lemma job_seq_record_blocked: "job_seq (snd (record_blocked json s a)) = job_seq s"
  by (simp add: record_blocked_def Let_def store_simps)

lemma job_seq_record_dirs: "job_seq (record_dirs ps s) = job_seq s"
  by (induction ps arbitrary: s) (simp_all add: add_dir_def store_simps)

lemma I_finish_move:
  assumes "I m" "j_seq jb \<le> job_seq (m_store m)"
  shows "I (snd (finish_directory_move v jb m)) \<and>
    job_seq (m_store m) \<le> job_seq (m_store (snd (finish_directory_move v jb m)))"
proof (cases "j_kind jb")
  case (JRenameDir src dst oid dev ino ident app rem)
  have "jobs_ok (m_store m)" using assms(1) J_ok by (simp add: store_ok_def)
  then have "job_seq (m_store m) \<le> job_seq (apply_directory_rename (m_store m) jb)"
    by (rule apply_directory_rename_job_seq)
  then show ?thesis
    using assms J_dir_rename[OF assms]
    by (cases app) (auto simp: finish_directory_move_def JRenameDir Let_def record_dirs_for_def job_seq_record_dirs
        J_record_dirs split: sum.split)
qed (use assms in \<open>simp_all add: finish_directory_move_def\<close>)

lemma I_recover_loop:
  "I m \<Longrightarrow> \<forall>jb\<in>set js. j_seq jb \<le> job_seq (m_store m) \<Longrightarrow> I (snd (recover_moves_loop v js m))"
proof (induction js arbitrary: m)
  case (Cons jb js)
  have fin: "I (snd (finish_directory_move v jb m))"
    "job_seq (m_store m) \<le> job_seq (m_store (snd (finish_directory_move v jb m)))"
    using I_finish_move[of m jb] Cons.prems by auto
  have blk: "I (snd (recover_moves_loop v js (block_action v a k dst r m)))" for a k dst r
    using Cons.prems I_block
    by (intro Cons.IH) (auto simp: block_action_def Let_def job_seq_record_blocked)
  obtain res m1 where f: "finish_directory_move v jb m = (res, m1)" by force
  have "I (snd (recover_moves_loop v js m1))"
    using fin f Cons.prems by (intro Cons.IH) fastforce+
  then show ?case using f fin blk
    by (auto simp: Let_def split: option.split sum.split prod.split)
qed simp

lemma I_recover_moves [intro]: "I m \<Longrightarrow> I (snd (recover_directory_moves v m))"
  unfolding recover_directory_moves_def
  using J_ok[of "m_store m"] by (intro I_recover_loop) (auto simp: store_ok_jobs store_ok_def jobs_ok_def)

lemma note_open_store [simp]: "m_store (note_open_write k m) = m_store m"
  by (simp add: note_open_write_def)

lemma note_close_store [simp]: "m_store (note_close_write k m) = m_store m"
  by (simp add: note_close_write_def)

lemma open_write_store [simp]: "m_store (snd (open_local_write k c t m)) = m_store m"
  by (auto simp: open_local_write_def Let_def split: sum.split io_error.split node.split)

lemma I_queue_push [intro]: "I m \<Longrightarrow> I (queue_push v k m)"
  by (simp add: queue_push_def I_enq)

lemma I_commit_file [intro]: "I m \<Longrightarrow> I (snd (commit_local_file v k m))"
  by (auto simp: commit_local_file_def Let_def prims I_queue_push I_record_dirs split: option.split)

lemma I_commit_write [intro]: "I m \<Longrightarrow> I (snd (commit_write v k b m))"
  by (auto simp: commit_write_def Let_def prims I_queue_push I_record_dirs I_clear_trash split: sum.split)

lemma I_delete [intro]: "I m \<Longrightarrow> I (snd (delete_local v k m))"
  by (auto simp: delete_local_def I_gone split: sum.split)

lemma I_mkdir [intro]: "I m \<Longrightarrow> I (snd (mkdir_local v k m))"
  by (auto simp: mkdir_local_def Let_def prims I_enq I_record_dirs split: sum.split)

lemma I_rmdir [intro]: "I m \<Longrightarrow> I (snd (rmdir_local v k m))"
  by (auto simp: rmdir_local_def Let_def prims I_enq split: sum.split io_error.split)

lemma move_open_store [simp]: "m_store (move_open_write a b m) = m_store m"
  by (simp add: move_open_write_def)

lemma I_requeue: "I m \<Longrightarrow> I (foldl (requeue_dropped v a b) m xs)"
  by (induction xs arbitrary: m) (auto simp: requeue_dropped_def Let_def I_enq)

lemma J_move_conflict: "J s \<Longrightarrow> J (move_conflict a b s)"
  by (auto simp: move_conflict_def prims split: option.split)

lemma I_let: "I x \<Longrightarrow> (\<And>m. I m \<Longrightarrow> I (f m)) \<Longrightarrow> I (let m = x in f m)"
  by simp

lemma I_let_any: "(\<And>y. I (f y)) \<Longrightarrow> I (let y = x in f y)"
  by simp

lemma I_if: "(P \<Longrightarrow> I a) \<Longrightarrow> (\<not> P \<Longrightarrow> I b) \<Longrightarrow> I (if P then a else b)"
  by simp

lemma I_case: "I a \<Longrightarrow> (\<And>y. x = Some y \<Longrightarrow> I (f y)) \<Longrightarrow> I (case x of None \<Rightarrow> a | Some y \<Rightarrow> f y)"
  by (simp split: option.split)

lemma I_upd: "J (f (m_store m)) \<Longrightarrow> I (upd_store f m)"
  by simp

lemma I_skip: "I m \<Longrightarrow> I (skip_key k w m)"
  by simp

lemma I_move_open: "I m \<Longrightarrow> I (move_open_write a b m)"
  by simp

lemmas I_structure = I_let I_let_any I_if I_case I_upd I_skip I_move_open I_enq I_requeue I_clear_trash
  I_record_dirs J_rekey J_move_conflict prims

lemma I_rekey_entry [intro]: "I m \<Longrightarrow> I (rekey_entry v a b m)"
  unfolding rekey_entry_def
  apply (rule I_let_any)
  apply (rule I_let, intro I_structure, assumption)
  apply (rule I_let, intro I_structure, assumption)
  apply (rule I_let, intro I_structure, assumption)
  apply (rule I_let, intro I_structure, assumption)
  apply (rule I_let_any)
  apply (rule I_let_any)
  apply (rule I_let, intro I_structure, assumption+)
  apply (rule I_let, intro I_structure, assumption)
  apply (rule I_let, intro I_structure, assumption+)
  apply (intro I_structure, assumption)
  done

lemma I_rename_over [intro]: "I m \<Longrightarrow> I (rename_over_new v a b m)"
  by (auto simp: rename_over_new_def Let_def prims J_rekey I_enq intro!: I_record_dirs split: option.split)

lemma I_rename_local [intro]:
  assumes "I m"
  shows "I (snd (rename_local v a b m))"
proof -
  let ?m = "m\<lparr>m_epoch := m_epoch m + 1\<rparr>"
  have m: "I ?m" using assms by simp
  obtain r m1 where d: "delete_local v b ?m = (r, m1)" by force
  have 1: "I m1" using I_delete[OF m, of b] d by simp
  then have "I (enq v kd m1)" for kd by (rule I_enq)
  then show ?thesis using assms m 1 d
    by (auto simp: rename_local_def Let_def intro!: I_rename_over I_rekey_entry split: sum.split option.split)
qed

lemma I_rename_dir [intro]:
  assumes "I m"
  shows "I (snd (rename_dir_local v a b m))"
proof -
  have key: "I (snd (finish_directory_move v jb (m\<lparr>m_epoch := e, m_store := s'\<rparr>)))"
    if "enqueue now (m_store m) kd = (q, s')" "List.find (\<lambda>j. j_seq j = q) (jobs s') = Some jb"
    for now kd q s' jb e
  proof -
    have J: "J s'" using J_enqueue[OF assms, of now kd Interactive] that(1) by (simp add: enqueue_def)
    have "jb \<in> set (jobs s')" using that(2) by (auto simp: find_Some_iff)
    then have "j_seq jb \<le> job_seq s'" using J_ok[OF J] by (auto simp: store_ok_jobs store_ok_def jobs_ok_def)
    then show ?thesis using I_finish_move[of "m\<lparr>m_epoch := e, m_store := s'\<rparr>" jb] J by simp
  qed
  have keep: "J s'" if "enqueue now (m_store m) kd = (q, s')" for now kd q s'
    using J_enqueue[OF assms, of now kd Interactive] that by (simp add: enqueue_def)
  have fin: "I m'"
    if "enqueue now (m_store m) kd = (q, s')" "List.find (\<lambda>j. j_seq j = q) (jobs s') = Some jb"
      "finish_directory_move v jb (m\<lparr>m_epoch := e, m_store := s'\<rparr>) = (r, m')" for now kd q s' jb e r m'
    using key[OF that(1,2), of e] that(3) by simp
  show ?thesis
    unfolding rename_dir_local_def Let_def
    using assms by (auto simp: prims dest: keep fin split: sum.split option.split prod.split)
qed

lemma I_restore [intro]: "I m \<Longrightarrow> I (snd (mirror_trash_restore v k m))"
  by (auto simp: mirror_trash_restore_def Let_def prims I_enq I_record_dirs split: sum.split)

lemma I_resolved [intro]: "I m \<Longrightarrow> I (conflict_resolved v k m)"
  by (auto simp: conflict_resolved_def prims I_block split: option.split)

lemma I_local_step: "I m \<Longrightarrow> I (local_step v x m)"
  by (cases x) auto

lemma I_local_steps: "I m \<Longrightarrow> I (local_steps v xs m)"
  unfolding local_steps_def by (induction xs arbitrary: m) (auto intro: I_local_step)

text \<open>The engine above the jobs, as far as no page completes.\<close>

lemma I_recheck_loop: "I m \<Longrightarrow> I (snd (recheck_loop v ks m))"
proof (induction ks arbitrary: m)
  case (Cons k ks)
  have 1: "I (snd (recheck_loop v ks m))" "I (snd (recheck_loop v ks (recheck_key k m)))"
    using Cons by auto
  obtain r h where h: "api_head (v_api v) k (m_hub m) = (r, h)" by force
  have o: "I (v_other v (m\<lparr>m_hub := h\<rparr>))" by (rule J_other) (simp add: Cons.prems)
  have "I m1" "I (snd (recheck_loop v ks m1))"
    if "reconcile_key v k st 0 (v_other v (m\<lparr>m_hub := h\<rparr>)) = (x, m1)" for st x m1
    using I_reconcile[OF o, of k st 0] that Cons.IH[of m1] by auto
  then show ?case using 1 Cons.prems h by (auto split: sum.split prod.split)
qed simp

lemma I_recheck [intro]: "I m \<Longrightarrow> I (snd (recheck_deferred v m))"
  by (simp add: recheck_deferred_def I_recheck_loop)

lemma I_prepare_dir: "I (ds_m ds) \<Longrightarrow> I (ds_m (prepare_dir v epo ds d))"
  using J_other[of "ds_m ds"] by (auto simp: prepare_dir_def Let_def prims split: sum.split)

lemma I_prepare [intro]: "I m \<Longrightarrow> I (snd (prepare_listing_directories v rem ts epo m))"
proof -
  have "I (ds_m ds) \<Longrightarrow> I (ds_m (foldl (prepare_dir v epo) ds xs))" for ds xs
    by (induction xs arbitrary: ds) (auto simp: I_prepare_dir)
  then show "I m \<Longrightarrow> ?thesis" by (simp add: prepare_listing_directories_def Let_def)
qed

lemma I_list_pages: "I m \<Longrightarrow> list_pages v n cur lat rem ts m = Some (r, m') \<Longrightarrow> I m'"
proof (induction n arbitrary: cur lat rem ts m)
  case (Suc n)
  obtain p h where p: "api_list (v_api v) [] cur LIST_PAGE (m_hub m) = (p, h)" by force
  obtain d m1 where d: "drain_jobs v 16 (m\<lparr>m_hub := h\<rparr>) = (d, m1)" by force
  have "I m1" using I_drain[of "m\<lparr>m_hub := h\<rparr>" 16] Suc.prems(1) d by simp
  then show ?case using Suc p d by (auto simp: Let_def split: sum.splits option.splits)
qed simp

lemma I_reconcile_all: "I m \<Longrightarrow> I (snd (reconcile_all v rem ts ks m))"
proof (induction ks arbitrary: ts m)
  case (Cons k ks)
  obtain d m1 where d: "drain_jobs v 16 m = (d, m1)" by force
  have m1: "I m1" using I_drain[OF Cons.prems, of 16] d by simp
  obtain x m2 where x: "reconcile_key v k (tget rem k) 0 m1 = (x, m2)" by force
  have m2: "I m2" using I_reconcile[OF m1, of k "tget rem k" 0] x by simp
  show ?case using m1 m2 Cons.IH[OF m1] Cons.IH[OF m2] d x by (auto simp: Let_def split: sum.split)
qed simp

lemma I_rebuild_failed: "I m \<Longrightarrow> rebuild_from_listing v n m = Some (Inl e, m') \<Longrightarrow> I m'"
proof -
  assume m: "I m" and e: "rebuild_from_listing v n m = Some (Inl e, m')"
  obtain lp m1 where lp: "list_pages v n None 0 [] {} m = Some (lp, m1)"
    using e by (auto simp: rebuild_from_listing_def Let_def split: option.splits)
  have m1: "I m1" using m lp by (rule I_list_pages)
  show ?thesis
  proof (cases lp)
    case (Inr y)
    obtain lat rem ts where y: "y = (lat, rem, ts)" by (cases y)
    obtain p m2 where p: "prepare_listing_directories v rem ts (m_epoch m) m1 = (p, m2)" by force
    have m2: "I m2" using I_prepare[OF m1, of rem ts "m_epoch m"] p by simp
    obtain q m3 where q: "reconcile_all v rem ts (known_keys (m_store m2) rem) m2 = (q, m3)" by force
    have m3: "I m3" using I_reconcile_all[OF m2, of rem ts "known_keys (m_store m2) rem"] q by simp
    show ?thesis using e lp Inr y p q m2 m3
      by (auto simp: rebuild_from_listing_def Let_def split: sum.splits)
  qed (use e lp m1 in \<open>simp add: rebuild_from_listing_def Let_def\<close>)
qed

lemma I_remote_rename [intro]: "I m \<Longrightarrow> I (apply_remote_rename v a b q m)"
  by (auto simp: apply_remote_rename_def Let_def prims J_rekey I_block I_enq I_forget I_record_dirs
      split: option.split sum.split)

lemma I_follow:
  assumes "I m"
  shows "I (snd (follow_rename v ch k epo st m))"
proof -
  have 1: "I (v_other v (m\<lparr>m_hub := h\<rparr>))" for h by (rule J_other) (simp add: assms)
  show ?thesis using assms 1 I_reconcile[OF 1]
    by (auto simp: follow_rename_def Let_def split: change_op.split option.split sum.split prod.split)
      (metis snd_conv)+
qed

lemma I_apply_change [intro]:
  assumes "I m"
  shows "I (snd (apply_change v ch m))"
proof -
  have 1: "I (v_other v (m\<lparr>m_hub := h\<rparr>))" for h by (rule J_other) (simp add: assms)
  have 2: "I m'" if "follow_rename v ch k epo st (v_other v (m\<lparr>m_hub := h\<rparr>)) = (r, m')" for k epo st h r m'
    using I_follow[OF 1, of ch k epo st h] that by simp
  show ?thesis
    using assms 1
    by (auto simp: apply_change_def Let_def dest!: 2 split: option.split sum.split prod.split bool.split)
qed

lemma I_apply_page: "I m \<Longrightarrow> I (snd (apply_page v chs lst m))"
proof (induction chs arbitrary: lst m)
  case (Cons ch chs)
  obtain d m1 where d: "drain_jobs v 16 m = (d, m1)" by force
  have m1: "I m1" using I_drain[OF Cons.prems, of 16] d by simp
  obtain x m2 where x: "apply_change v ch m1 = (x, m2)" by force
  have m2: "I m2" using I_apply_change[OF m1, of ch] x by simp
  show ?case using m1 m2 Cons.IH[OF m2] d x by (auto split: sum.split)
qed simp

end

section \<open>A cycle\<close>

locale cycle_inv = local_inv +
  assumes J_set_cursor: "J s \<Longrightarrow> J (set_cursor s c)"
    and J_set_head: "J s \<Longrightarrow> J (set_number s HEAD_KEY c)"
    and J_set_cmeta: "J s \<Longrightarrow> cycle_meta name \<Longrightarrow> J (set_meta s name x)"
    and J_remove_cmeta: "J s \<Longrightarrow> cycle_meta name \<Longrightarrow> J (remove_meta s name)"
begin

lemmas cprims = J_set_cursor J_set_head J_set_cmeta J_remove_cmeta J_rekey

lemma I_rules [intro]: "I m \<Longrightarrow> I (snd (refresh_hub_rules v m))"
  by (auto simp: refresh_hub_rules_def Let_def cprims split: sum.split prod.split option.split)

lemma I_listing_done [intro]: "I m \<Longrightarrow> I (listing_done lat epo m)"
  by (simp add: listing_done_def prims cprims)

lemma I_rebuild: "I m \<Longrightarrow> rebuild_from_listing v n m = Some (r, m') \<Longrightarrow> I m'"
proof (cases r)
  case (Inr u)
  assume m: "I m" and e: "rebuild_from_listing v n m = Some (r, m')"
  from e Inr obtain lat rem ts m1 m2 m3 p where
      lp: "list_pages v n None 0 [] {} m = Some (Inr (lat, rem, ts), m1)"
      and p: "prepare_listing_directories v rem ts (m_epoch m) m1 = (p, m2)"
      and q: "reconcile_all v rem ts (known_keys (m_store m2) rem) m2 = (Inr (), m3)"
      and m': "m' = listing_done lat (m_epoch m) m3"
    by (auto simp: rebuild_from_listing_def Let_def split: option.splits sum.splits prod.splits)
  have "I m1" using m lp by (rule I_list_pages)
  then have "I m2" using I_prepare[of m1 rem ts "m_epoch m"] p by simp
  then have "I m3" using I_reconcile_all[of m2 rem ts "known_keys (m_store m2) rem"] q by simp
  then show ?thesis using m' by auto
qed (use I_rebuild_failed in blast)

lemma I_catch_up_loop: "I m \<Longrightarrow> catch_up_loop v n since m = Some (r, m') \<Longrightarrow> I m'"
proof (induction n arbitrary: since m)
  case (Suc n)
  obtain p h where p: "api_changes (v_api v) since CHANGES_PAGE (m_hub m) = (p, h)" by force
  show ?case
  proof (cases p)
    case (Inl e)
    then show ?thesis using Suc.prems p I_rebuild[of "m\<lparr>m_hub := h\<rparr>"]
      by (auto split: hub_error.splits)
  next
    case (Inr pg)
    let ?m = "upd_store (\<lambda>s. set_number s HEAD_KEY (cs_head pg)) (m\<lparr>m_hub := h\<rparr>)"
    have m0: "I ?m" using Suc.prems(1) by (simp add: cprims)
    obtain q m1 where q: "apply_page v (cs_changes pg) since ?m = (q, m1)" by force
    have m1: "I m1" using I_apply_page[OF m0, of "cs_changes pg" since] q by simp
    have c: "I (upd_store (\<lambda>s. set_cursor s x) m1)" for x using m1 by (simp add: cprims)
    show ?thesis using Suc.prems(2) p Inr q m1 c I_rebuild[OF m1] Suc.IH[OF c]
      by (auto simp: Let_def split: sum.splits option.splits if_splits)
  qed
qed simp

lemma I_catch_up: "I m \<Longrightarrow> catch_up v n m = Some (r, m') \<Longrightarrow> I m'"
  by (auto simp: catch_up_def intro: I_catch_up_loop)

text \<open>A phase keeps the invariant when each of its outcomes does.\<close>

definition keeps :: "((hub_error + 'x) \<times> 'a mirror) option \<Rightarrow> bool" where
  "keeps r \<longleftrightarrow> (\<forall>x m. r = Some (x, m) \<longrightarrow> I m)"

lemma keeps_and_then: "keeps r \<Longrightarrow> (\<And>x m. I m \<Longrightarrow> keeps (f x m)) \<Longrightarrow> keeps (and_then r f)"
  by (auto simp: keeps_def and_then_def split: option.splits sum.splits)

lemma keeps_Some: "keeps (Some z) \<longleftrightarrow> I (snd z)"
  by (cases z) (simp add: keeps_def)

lemma keeps_listing: "I m \<Longrightarrow> keeps (rebuild_from_listing v n m)"
  "I m \<Longrightarrow> keeps (catch_up v n m)"
  "I m \<Longrightarrow> keeps (map_option (\<lambda>(r, m). (r, if r = Inr () then m\<lparr>m_last_full := True\<rparr> else m)) (rebuild_from_listing v n m))"
  by (auto simp: keeps_def dest: I_rebuild I_catch_up)

lemma I_cycle_inner: "I m \<Longrightarrow> keeps (cycle_inner v n full m)"
  unfolding cycle_inner_def Let_def
  by (auto simp: keeps_Some scan_local_def cprims
      intro!: keeps_and_then keeps_listing I_drain I_recover_jobs I_events I_scan_paths split: option.split)

lemma I_expire_trash: "I m \<Longrightarrow> I (foldl (expire_trash v) m xs)"
proof (induction xs arbitrary: m)
  case (Cons x xs)
  have "I (expire_trash v m x)"
    using Cons.prems by (auto simp: expire_trash_def prims I_block split: prod.split)
  then show ?case using Cons.IH by simp
qed simp

lemma I_expire_snapshot: "I m \<Longrightarrow> I (foldl (expire_snapshot v R) m xs)"
proof (induction xs arbitrary: m)
  case (Cons x xs)
  have "I (expire_snapshot v R m x)"
    using Cons.prems by (auto simp: expire_snapshot_def I_block split: prod.split)
  then show ?case using Cons.IH by simp
qed simp

lemma I_housekeeping [intro]: "I m \<Longrightarrow> I (housekeeping v m)"
  by (simp add: housekeeping_def Let_def I_expire_trash I_expire_snapshot)

lemma I_settled [intro]: "I m \<Longrightarrow> I (cycle_settled v r m)"
  by (auto simp: cycle_settled_def Let_def intro!: I_housekeeping split: sum.split hub_error.split)

lemma I_cycle:
  assumes "I m" "cycle v n full m = Some m'"
  shows "I m'"
proof -
  have "keeps (cycle_inner v n full (set_state Syncing (m\<lparr>m_protected_jobs := {}\<rparr>)))"
    by (rule I_cycle_inner) (simp add: assms(1))
  then show ?thesis using assms
    by (auto simp: cycle_def Let_def keeps_def split: if_splits option.splits)
qed

end

end
