(* ===== verification/Sync_Demo.thy ===== *)
theory Sync_Demo
  imports Sync_Cycle_Inv
begin

text \<open>
  A hub in memory and small concrete mirrors: the inputs on which the properties of the
  engine are shown to apply. The hub keeps its objects, numbers its changes, and honours
  the preconditions the way the protocol says (412 with the current version, 409 for an
  occupied rename target, 404 for what is not there).
\<close>

record mem =
  mm_objects :: "(string, string \<times> nat) table"
  mm_dirs :: "string list"
  mm_log :: "change list"
  mm_down :: bool

abbreviation demo_sha :: "string \<Rightarrow> string" where
  "demo_sha b \<equiv> CHR ''#'' # b"

definition mem_stat :: "mem \<Rightarrow> string \<Rightarrow> remote_stat option" where
  "mem_stat h k = map_option (\<lambda>(b, t). \<lparr>r_sha256 = demo_sha b, r_size = length b, r_mtime = t\<rparr>) (tget (mm_objects h) k)"

definition mem_note :: "change_op \<Rightarrow> string \<Rightarrow> string option \<Rightarrow> string option \<Rightarrow> mem \<Rightarrow> mem" where
  "mem_note op k src sha h = h\<lparr>mm_log := mm_log h @ [\<lparr>ch_seq = length (mm_log h) + 1, ch_op = op, ch_key = k,
     ch_from = src, ch_sha256 = sha, ch_size = 0, ch_mtime = 0, ch_origin = None\<rparr>]\<rparr>"

definition mem_guard :: "(mem \<Rightarrow> (hub_error + 'a) \<times> mem) \<Rightarrow> mem \<Rightarrow> (hub_error + 'a) \<times> mem" where
  "mem_guard f h = (if mm_down h then (Inl (Offline ''down''), h) else f h)"

definition mem_put :: "string \<Rightarrow> string \<Rightarrow> put_options \<Rightarrow> mem \<Rightarrow> (hub_error + put_result) \<times> mem" where
  "mem_put k b po h =
     (let cur = mem_stat h k in
      if (case po_if_match po of Some s \<Rightarrow> map_option r_sha256 cur \<noteq> Some s | None \<Rightarrow> False)
         \<or> po_if_none_match_any po \<and> cur \<noteq> None
      then (Inl (PreconditionFailed cur), h)
      else (Inr \<lparr>pr_key = k, pr_sha256 = demo_sha b, pr_size = length b, pr_mtime = 0,
                 pr_seq = length (mm_log h) + 1, pr_unchanged = False, pr_doc_id = None\<rparr>,
            mem_note OpPut k None (Some (demo_sha b)) (h\<lparr>mm_objects := tput k (b, or_default 0 (po_mtime po)) (mm_objects h)\<rparr>)))"

definition mem_delete :: "string \<Rightarrow> string option \<Rightarrow> mem \<Rightarrow> (hub_error + unit) \<times> mem" where
  "mem_delete k m h =
     (case mem_stat h k of None \<Rightarrow> (Inl HubNotFound, h)
      | Some r \<Rightarrow> if m \<noteq> None \<and> m \<noteq> Some (r_sha256 r) then (Inl (PreconditionFailed (Some r)), h)
          else (Inr (), mem_note OpDelete k None None (h\<lparr>mm_objects := tdel k (mm_objects h)\<rparr>)))"

definition mem_rename :: "string \<Rightarrow> string \<Rightarrow> string option \<Rightarrow> mem \<Rightarrow> (hub_error + unit) \<times> mem" where
  "mem_rename a b m h =
     (case tget (mm_objects h) a of None \<Rightarrow> (Inl HubNotFound, h)
      | Some (bytes, t) \<Rightarrow>
          if tget (mm_objects h) b \<noteq> None then (Inl TargetExists, h)
          else if m \<noteq> None \<and> m \<noteq> Some (demo_sha bytes) then (Inl (PreconditionFailed (mem_stat h a)), h)
          else (Inr (), mem_note OpRename b (Some a) (Some (demo_sha bytes))
                 (h\<lparr>mm_objects := tput b (bytes, t) (tdel a (mm_objects h))\<rparr>)))"

definition mem_hub :: "mem hub_api" where
  "mem_hub = \<lparr>
     api_instance_id = mem_guard (\<lambda>h. (Inr (Some ''hub''), h)),
     api_exclusions = mem_guard (\<lambda>h. (Inr [], h)),
     api_list = (\<lambda>p c n. mem_guard (\<lambda>h. (Inr \<lparr>
        ls_objects = map (\<lambda>(k, b, t). \<lparr>lo_key = k, lo_sha256 = demo_sha b, lo_size = length b, lo_mtime = t\<rparr>) (mm_objects h),
        ls_cursor = None, ls_head = length (mm_log h)\<rparr>, h))),
     api_changes = (\<lambda>since n. mem_guard (\<lambda>h. (Inr \<lparr>cs_changes = take n (drop since (mm_log h)),
        cs_head = length (mm_log h), cs_oldest = 0\<rparr>, h))),
     api_head = (\<lambda>k. mem_guard (\<lambda>h. (Inr (mem_stat h k), h))),
     api_get = (\<lambda>k off. mem_guard (\<lambda>h. (case tget (mm_objects h) k of None \<Rightarrow> Inl HubNotFound
        | Some (b, t) \<Rightarrow> Inr (\<lparr>rs_status = if off = None then 200 else 206, rs_headers = [], rs_json = None,
             rs_bytes = drop (or_default 0 off) b\<rparr>, Some (demo_sha b)), h))),
     api_put = (\<lambda>k b po. mem_guard (mem_put k b po)),
     api_delete = (\<lambda>k m. mem_guard (mem_delete k m)),
     api_rename = (\<lambda>a b m. mem_guard (mem_rename a b m)),
     api_rename_dir = (\<lambda>a b i. mem_guard (\<lambda>h. (Inl HubNotFound, h))),
     api_mkdir = (\<lambda>k. mem_guard (\<lambda>h. (Inr (), h\<lparr>mm_dirs := k # mm_dirs h\<rparr>))),
     api_rmdir = (\<lambda>k. mem_guard (\<lambda>h. (Inr (), h\<lparr>mm_dirs := filter (\<lambda>d. d \<noteq> k) (mm_dirs h)\<rparr>)))\<rparr>"

definition env_at :: "'h hub_api \<Rightarrow> 'h env" where
  "env_at api = \<lparr>v_opts = default_options, v_api = api, v_sha = (\<lambda>b. demo_sha b), v_nfc = (\<lambda>s. s),
     v_glob = (\<lambda>p k. p = k), v_glob_ok = (\<lambda>_. True), v_json_id = (\<lambda>(a, b, c). a @ CHR '':'' # b),
     v_now = 10, v_device = \<lparr>dev_id = ''d'', dev_name = ''n''\<rparr>, v_stamp = (\<lambda>_. ''t''),
     v_operation_id = ''op'', v_dir_identity = (\<lambda>f k. Some ''i''), v_legacy_device = (\<lambda>a b. a = b),
     v_verify = (\<lambda>_. None), v_other = (\<lambda>m. m)\<rparr>"

definition demo_env :: "mem env" where
  "demo_env = env_at mem_hub"

definition demo_meta :: fmeta where
  "demo_meta = \<lparr>m_dev = 1, m_ino = 1, m_mtime = 0, m_mtime_nsec = 0, m_ctime = 0, m_ctime_nsec = 0\<rparr>"

definition demo_folder :: folder where
  "demo_folder = \<lparr>f_dev = 1, f_nodes = [(''a'', File ''x'' demo_meta)], f_trash = [], f_conflicts = [],
     f_parts = [], f_next_ino = 2, f_clock = (0, 0)\<rparr>"

definition mirror_at :: "'h \<Rightarrow> 'h mirror" where
  "mirror_at h = \<lparr>m_store = empty_store, m_fs = demo_folder,
     m_hub = h,
     m_open_writes = {}, m_epoch = 0, m_skipped = [], m_recheck = {}, m_protected_jobs = {},
     m_state = Idle, m_last_error = None, m_last_full = False, m_ignore = ignore_new Some [],
     m_pending_rescan = False, m_pending_paths = {}, m_view = [], m_woken = False\<rparr>"

definition demo_mirror :: "mem mirror" where
  "demo_mirror = mirror_at \<lparr>mm_objects = [(''b'', ''y'', 0)], mm_dirs = [], mm_log = [], mm_down = False\<rparr>"

text \<open>The same mirror in front of a hub that does not answer.\<close>

definition demo_offline :: "mem mirror" where
  "demo_offline = demo_mirror\<lparr>m_hub := \<lparr>mm_objects = [], mm_dirs = [], mm_log = [], mm_down = True\<rparr>\<rparr>"

definition demo_user :: "mem mirror \<Rightarrow> local_op list" where
  "demo_user m = [UWrite ''c'' ''z'', URename ''c'' ''d'']"

lemma cycle_inner_rules_fail:
  assumes "verify_destination v m = None" "recover_directory_moves v m = (Inr (), m1)"
    "protected (v_opts v) \<or> meta (m_store m) RECHECK = None"
    "refresh_hub_rules v (process_local_events v m1) = (Inl e, m2)"
  shows "cycle_inner v fuel False m = Some (Inl e, m2)"
  using assms by (auto simp: cycle_inner_def Let_def and_then_def)

lemma demo_offline_cycle:
  "cycle (scheduled sch demo_env) fuel False demo_offline = Some (demo_offline\<lparr>m_state := SyncOffline,
     m_last_error := Some (show_error (Offline ''down''))\<rparr>)"
proof -
  let ?v = "scheduled sch demo_env" and ?m = "demo_offline\<lparr>m_state := Syncing\<rparr>"
  have ev: "process_local_events ?v ?m = ?m" "recover_directory_moves ?v ?m = (Inr (), ?m)"
    "verify_destination ?v ?m = None" "meta (m_store ?m) RECHECK = None"
    by (simp_all add: process_local_events_def recover_directory_moves_def verify_destination_def scheduled_def
        demo_env_def env_at_def demo_offline_def demo_mirror_def mirror_at_def empty_store_def jobs_def meta_def)
  have "refresh_hub_rules ?v ?m = (Inl (Offline ''down''), ?m)"
    by (simp add: refresh_hub_rules_def scheduled_def demo_env_def env_at_def mem_hub_def mem_guard_def demo_offline_def)
  then have "cycle_inner ?v fuel False ?m = Some (Inl (Offline ''down''), ?m)"
    using cycle_inner_rules_fail[of ?v ?m ?m] ev by simp
  then show ?thesis
    by (simp add: cycle_def Let_def set_state_def demo_offline_def demo_mirror_def mirror_at_def cycle_settled_def set_error_def
        housekeeping_def trash_def conflict_list_def empty_store_def demo_folder_def)
qed

end
