(* ===== verification/Sync_Ledger.thy ===== *)
theory Sync_Ledger
  imports Sync_Demo
begin

text \<open>
  What a round of the engine can do to the ledger, with any local operations and any edits of
  the folder in between: the interpretations of the contracts of \<open>Sync_Cycle_Inv\<close> on the
  store, and the properties that follow.
\<close>

section \<open>Interpretations\<close>

lemma local_inv_scheduled:
  assumes "local_inv (undisturbed v) J"
  shows "local_inv (scheduled sch v) J"
proof -
  have "J (m_store m) \<Longrightarrow> J (m_store (v_other (scheduled sch v) m))" for m
    using local_inv.I_local_steps[OF assms] by (simp add: scheduled_def)
  moreover have "engine_inv (undisturbed v) J" using assms by (simp add: local_inv_def)
  ultimately have "engine_inv (scheduled sch v) J" by (simp add: engine_inv_def)
  then show ?thesis using assms by (simp add: local_inv_def)
qed

lemma undisturbed_other [simp]: "v_other (undisturbed v) m = m"
  by (simp add: undisturbed_def)

text \<open>The ledger stays well-formed.\<close>

lemma local_inv_store_ok: "local_inv (undisturbed v) store_ok"
  by unfold_locales (simp_all add: apply_directory_rename_ok)

interpretation ledger: cycle_inv "scheduled sch v" store_ok for sch :: "'h mirror \<Rightarrow> local_op list" and v
  by (rule cycle_inv.intro[OF local_inv_scheduled[OF local_inv_store_ok]]) (simp add: cycle_inv_axioms_def)

text \<open>The ledger stays bound to its folder.\<close>

definition bound_to :: "string option \<Rightarrow> string option \<Rightarrow> store \<Rightarrow> bool" where
  "bound_to b d s \<longleftrightarrow> store_ok s \<and> meta s META_BINDING = b \<and> meta s META_DIRECTORIES = d"

definition binding_name :: "string \<Rightarrow> bool" where
  "binding_name n \<longleftrightarrow> n = META_BINDING \<or> n = META_DIRECTORIES"

lemma binding_name_facts:
  assumes "binding_name n"
  shows "n \<noteq> stamp_key k" "\<not> engine_meta n" "\<not> cycle_meta n" "n \<noteq> RECHECK"
  using assms by (auto simp: binding_name_def engine_meta_def cycle_meta_def stamp_key_def)

lemma drop_stamps_get:
  assumes "strip_prefix ''local-stamp:'' n = None"
  shows "tget (drop_stamps a b t) n = tget t n"
proof -
  have "n \<notin> set ks \<Longrightarrow> tget (foldl (\<lambda>m k. tdel k m) t ks) n = tget t n" for ks
    by (induction ks arbitrary: t) auto
  then show ?thesis unfolding drop_stamps_def using assms by simp
qed

lemma binding_not_stamp: "binding_name n \<Longrightarrow> strip_prefix ''local-stamp:'' n = None"
  by (auto simp: binding_name_def)

lemma meta_frame:
  assumes n: "binding_name n"
  shows "meta (put_entry s k e) n = meta s n" "meta (remove_entry s k) n = meta s n"
    "meta (put_base s k b) n = meta s n" "meta (remove_base s k) n = meta s n"
    "meta (snd (record_blocked json s a)) n = meta s n"
    "meta (snd (enqueue_with_priority now s kd pr)) n = meta s n"
    "meta (update_job s jb) n = meta s n" "meta (remove_job s q) n = meta s n"
    "meta (snd (remove_jobs_for s k)) n = meta s n" "meta (put_conflict s c) n = meta s n"
    "meta (remove_conflict s k) n = meta s n" "meta (put_trashed s k t) n = meta s n"
    "meta (remove_trashed s k) n = meta s n" "meta (add_dir s k) n = meta s n"
    "meta (remove_dir s k) n = meta s n" "meta (rekey s k l) n = meta s n"
    "meta (set_cursor s x) n = meta s n" "meta (set_number s h x) n = meta s n"
    "engine_meta y \<or> cycle_meta y \<Longrightarrow> meta (set_meta s y w) n = meta s n"
    "engine_meta y \<or> cycle_meta y \<Longrightarrow> meta (remove_meta s y) n = meta s n"
    "meta (apply_directory_rename s jb) n = meta s n"
  using binding_name_facts[OF n]
  by (auto simp: meta_def store_defs record_blocked_def update_job_def remove_jobs_for_def rekey_def Let_def
      apply_directory_rename_def drop_stamps_get[OF binding_not_stamp[OF n]]
      split: job_kind.split bool.split prod.split)

lemma bound_facts: "bound_to b d s \<Longrightarrow> store_ok s"
  by (simp add: bound_to_def)

lemma local_inv_bound: "local_inv (undisturbed v) (bound_to b d)"
  by unfold_locales (simp_all add: bound_to_def apply_directory_rename_ok meta_frame binding_name_def)

interpretation binding: cycle_inv "scheduled sch v" "bound_to b d"
  for sch :: "'h mirror \<Rightarrow> local_op list" and v b d
  by (rule cycle_inv.intro[OF local_inv_scheduled[OF local_inv_bound]])
    (simp add: cycle_inv_axioms_def bound_to_def meta_frame binding_name_def)

text \<open>The feed cursor stays where it is, as long as no page or listing completes.\<close>

definition cursor_at :: "nat option \<Rightarrow> store \<Rightarrow> bool" where
  "cursor_at c s \<longleftrightarrow> store_ok s \<and> cursor s = c"

lemma cursor_frame:
  "cursor (put_entry s k e) = cursor s" "cursor (remove_entry s k) = cursor s"
  "cursor (put_base s k b) = cursor s" "cursor (remove_base s k) = cursor s"
  "cursor (snd (record_blocked json s a)) = cursor s"
  "cursor (snd (enqueue_with_priority now s kd pr)) = cursor s"
  "cursor (update_job s jb) = cursor s" "cursor (remove_job s q) = cursor s"
  "cursor (snd (remove_jobs_for s k)) = cursor s" "cursor (put_conflict s c) = cursor s"
  "cursor (remove_conflict s k) = cursor s" "cursor (put_trashed s k t) = cursor s"
  "cursor (remove_trashed s k) = cursor s" "cursor (add_dir s k) = cursor s"
  "cursor (remove_dir s k) = cursor s" "cursor (rekey s k l) = cursor s"
  "cursor (set_meta s y w) = cursor s" "cursor (remove_meta s y) = cursor s"
  "cursor (apply_directory_rename s jb) = cursor s"
  by (auto simp: cursor_def number_def store_defs record_blocked_def update_job_def remove_jobs_for_def rekey_def
      Let_def apply_directory_rename_def split: job_kind.split bool.split prod.split)

lemma local_inv_cursor: "local_inv (undisturbed v) (cursor_at c)"
  by unfold_locales (simp_all add: cursor_at_def apply_directory_rename_ok cursor_frame)

interpretation feed: local_inv "scheduled sch v" "cursor_at c"
  for sch :: "'h mirror \<Rightarrow> local_op list" and v c
  by (rule local_inv_scheduled[OF local_inv_cursor])

section \<open>What a cycle leaves alone\<close>



text \<open>
  While the changes of a page are applied, the feed cursor of the ledger does not move,
  whether they succeed or fail; the number it may move to afterwards is at least the old one
  and covers every change of the page.
\<close>
theorem page_keeps_cursor:
  assumes "store_ok (m_store m)" "apply_page (scheduled sch v) chs since m = (r, m')"
  shows "cursor (m_store m') = cursor (m_store m)
    \<and> (\<forall>lst. r = Inr (Some lst) \<longrightarrow> since \<le> lst \<and> (\<forall>ch\<in>set chs. ch_seq ch \<le> lst))"
proof
  have "cursor_at (cursor (m_store m)) (m_store m)" using assms(1) by (simp add: cursor_at_def)
  then have "cursor_at (cursor (m_store m)) (m_store (snd (apply_page (scheduled sch v) chs since m)))"
    by (rule feed.I_apply_page)
  then show "cursor (m_store m') = cursor (m_store m)" using assms(2) by (simp add: cursor_at_def)
  have "apply_page V chs s0 m0 = (Inr (Some lst), m1) \<Longrightarrow> s0 \<le> lst \<and> (\<forall>ch\<in>set chs. ch_seq ch \<le> lst)"
    for V :: "'a env" and s0 m0 lst m1
  proof (induction chs arbitrary: s0 m0)
    case (Cons ch chs)
    then show ?case by (fastforce split: prod.splits sum.splits if_splits)
  qed simp
  then show "\<forall>lst. r = Inr (Some lst) \<longrightarrow> since \<le> lst \<and> (\<forall>ch\<in>set chs. ch_seq ch \<le> lst)"
    using assms(2) by blast
qed

definition demo_change :: change where
  "demo_change = \<lparr>ch_seq = 9, ch_op = OpPut, ch_key = ''q'', ch_from = None, ch_sha256 = None, ch_size = 0,
     ch_mtime = 0, ch_origin = None\<rparr>"

lemma drain_idle:
  "m_pending_rescan m = False \<Longrightarrow> m_pending_paths m = {} \<Longrightarrow> jobs_tbl (m_store m) = [] \<Longrightarrow>
     drain_jobs v (Suc n) m = (Inr {}, m\<lparr>m_pending_rescan := False, m_pending_paths := {}\<rparr>)"
  by (simp add: process_local_events_def next_job_def jobs_def Let_def)

lemma demo_page:
  "apply_page (scheduled (\<lambda>_. []) demo_env) [demo_change] 7 demo_mirror = (Inr (Some 9), demo_mirror)"
proof -
  let ?v = "scheduled (\<lambda>_. []) demo_env"
  have m: "m_pending_rescan demo_mirror = False" "m_pending_paths demo_mirror = {}"
    "jobs_tbl (m_store demo_mirror) = []" "m_store demo_mirror = empty_store"
    by (simp_all add: demo_mirror_def mirror_at_def empty_store_def)
  have same: "demo_mirror\<lparr>m_pending_rescan := False, m_pending_paths := {}\<rparr> = demo_mirror"
    by (simp add: demo_mirror_def mirror_at_def)
  have head: "api_head (v_api ?v) ''q'' (m_hub demo_mirror) = (Inr None, m_hub demo_mirror)"
    by (simp add: scheduled_def demo_env_def env_at_def mem_hub_def mem_guard_def demo_mirror_def mirror_at_def mem_stat_def)
  have other: "v_other ?v m = m" for m by (simp add: scheduled_def local_steps_def)
  have none: "pending_directory_move demo_mirror k = False" for k
    by (simp add: pending_directory_move_def jobs_def m empty_store_def)
  have "reconcile_key ?v ''q'' None 9 demo_mirror = (Inr (), demo_mirror)"
    by (simp add: reconcile_key_def none is_open_for_write_def pending_rename_def jobs_def m local_digest_def
        live_entry_def entry_def base_def empty_store_def decide_def perform_action_def scheduled_def demo_env_def env_at_def
        default_options_def Let_def) (simp add: demo_mirror_def mirror_at_def)
  moreover have "normalize_key (v_nfc ?v) ''q'' = ''q''" by (simp add: scheduled_def demo_env_def env_at_def, code_simp)
  ultimately have "apply_change ?v demo_change demo_mirror = (Inr (), demo_mirror)"
    by (simp add: apply_change_def demo_change_def none head other follow_rename_def)
  then show ?thesis
    using drain_idle[OF m(1-3), of ?v 15] same
    by (simp add: m meta_def empty_store_def demo_change_def eval_nat_numeral)
qed

lemma page_keeps_cursor_witness:
  "apply_page (scheduled (\<lambda>_. []) demo_env) [demo_change] 7 demo_mirror = (Inr (Some 9), demo_mirror)
   \<and> cursor (m_store demo_mirror) = None \<and> ch_seq demo_change \<le> 9"
proof -
  have ok: "store_ok (m_store demo_mirror)" "cursor (m_store demo_mirror) = None"
    by (simp_all add: demo_mirror_def mirror_at_def) (simp add: empty_store_def cursor_def number_def)
  show ?thesis using page_keeps_cursor[OF ok(1) demo_page] demo_page ok(2) by simp
qed

text \<open>
  A full listing that fails, at any page, directory or key, leaves the feed cursor where
  it was: bytes that could not be verified or landed are never acknowledged.
\<close>
theorem failed_listing_keeps_cursor:
  assumes "store_ok (m_store m)" "rebuild_from_listing (scheduled sch v) fuel m = Some (Inl e, m')"
  shows "cursor (m_store m') = cursor (m_store m)"
  using feed.I_rebuild_failed[OF _ assms(2), of "cursor (m_store m)"] assms(1) by (simp add: cursor_at_def)

lemma failed_listing_keeps_cursor_witness:
  "\<exists>m'. rebuild_from_listing (scheduled demo_user demo_env) 3 demo_offline = Some (Inl (Offline ''down''), m')
     \<and> cursor (m_store m') = None"
proof -
  have ok: "store_ok (m_store demo_offline)" "cursor (m_store demo_offline) = None"
    by (simp_all add: demo_offline_def demo_mirror_def mirror_at_def) (simp add: empty_store_def cursor_def number_def)
  have r: "rebuild_from_listing (scheduled demo_user demo_env) 3 demo_offline = Some (Inl (Offline ''down''), demo_offline)"
    by (simp add: rebuild_from_listing_def numeral_3_eq_3 scheduled_def demo_env_def env_at_def mem_hub_def mem_guard_def demo_offline_def)
  show ?thesis using failed_listing_keeps_cursor[OF ok(1) r] ok(2) r by auto
qed

end
