(* ===== verification/Store_Frames.thy ===== *)
theory Store_Frames
  imports Store_Moves
begin

text \<open>
  Which table an operation of \<^verbatim>\<open>mirror/store.rs\<close> leaves alone: the collection \<open>frames\<close>,
  used to follow one table through a sequence of operations on others.
\<close>

named_theorems frames "reads of a table that an operation does not touch"

lemma entry_frames [frames]:
  "entry (put_base s k b) i = entry s i"
  "entry (remove_base s k) i = entry s i"
  "entry (set_meta s k x) i = entry s i"
  "entry (remove_meta s k) i = entry s i"
  "entry (snd (record_blocked f s a)) i = entry s i"
  "entry (update_job s j) i = entry s i"
  "entry (remove_job s q) i = entry s i"
  "entry (snd (remove_jobs_for s k)) i = entry s i"
  "entry (snd (enqueue_with_priority t s kd pr)) i = entry s i"
  "entry (put_conflict s c) i = entry s i"
  "entry (remove_conflict s k) i = entry s i"
  "entry (put_trashed s k tr) i = entry s i"
  "entry (remove_trashed s k) i = entry s i"
  "entry (add_dir s k) i = entry s i"
  "entry (remove_dir s k) i = entry s i"
  "entry (set_cursor s n) i = entry s i"
  "entry (set_number s y n) i = entry s i"
  by (simp_all add: store_defs read_defs record_blocked_def update_job_def remove_jobs_for_def Let_def)

lemma base_frames [frames]:
  "base (put_entry s k e) i = base s i"
  "base (remove_entry s k) i = base s i"
  "base (set_meta s k x) i = base s i"
  "base (remove_meta s k) i = base s i"
  "base (snd (record_blocked f s a)) i = base s i"
  "base (update_job s j) i = base s i"
  "base (remove_job s q) i = base s i"
  "base (snd (remove_jobs_for s k)) i = base s i"
  "base (snd (enqueue_with_priority t s kd pr)) i = base s i"
  "base (put_conflict s c) i = base s i"
  "base (remove_conflict s k) i = base s i"
  "base (put_trashed s k tr) i = base s i"
  "base (remove_trashed s k) i = base s i"
  "base (add_dir s k) i = base s i"
  "base (remove_dir s k) i = base s i"
  "base (set_cursor s n) i = base s i"
  "base (set_number s y n) i = base s i"
  by (simp_all add: store_defs read_defs record_blocked_def update_job_def remove_jobs_for_def Let_def)

lemma meta_frames [frames]:
  "meta (put_entry s k e) i = meta s i"
  "meta (put_base s k b) i = meta s i"
  "meta (remove_base s k) i = meta s i"
  "meta (update_job s j) i = meta s i"
  "meta (remove_job s q) i = meta s i"
  "meta (snd (remove_jobs_for s k)) i = meta s i"
  "meta (snd (enqueue_with_priority t s kd pr)) i = meta s i"
  "meta (put_conflict s c) i = meta s i"
  "meta (remove_conflict s k) i = meta s i"
  "meta (put_trashed s k tr) i = meta s i"
  "meta (remove_trashed s k) i = meta s i"
  "meta (add_dir s k) i = meta s i"
  "meta (remove_dir s k) i = meta s i"
  "meta (set_cursor s n) i = meta s i"
  "meta (set_number s y n) i = meta s i"
  by (simp_all add: store_defs read_defs record_blocked_def update_job_def remove_jobs_for_def Let_def)

lemma conflict_frames [frames]:
  "conflict (put_entry s k e) i = conflict s i"
  "conflict (remove_entry s k) i = conflict s i"
  "conflict (put_base s k b) i = conflict s i"
  "conflict (remove_base s k) i = conflict s i"
  "conflict (set_meta s k x) i = conflict s i"
  "conflict (remove_meta s k) i = conflict s i"
  "conflict (snd (record_blocked f s a)) i = conflict s i"
  "conflict (update_job s j) i = conflict s i"
  "conflict (remove_job s q) i = conflict s i"
  "conflict (snd (remove_jobs_for s k)) i = conflict s i"
  "conflict (snd (enqueue_with_priority t s kd pr)) i = conflict s i"
  "conflict (put_trashed s k tr) i = conflict s i"
  "conflict (remove_trashed s k) i = conflict s i"
  "conflict (add_dir s k) i = conflict s i"
  "conflict (remove_dir s k) i = conflict s i"
  "conflict (set_cursor s n) i = conflict s i"
  "conflict (set_number s y n) i = conflict s i"
  by (simp_all add: store_defs read_defs record_blocked_def update_job_def remove_jobs_for_def Let_def)

lemma trashed_frames [frames]:
  "trashed (put_entry s k e) i = trashed s i"
  "trashed (remove_entry s k) i = trashed s i"
  "trashed (put_base s k b) i = trashed s i"
  "trashed (remove_base s k) i = trashed s i"
  "trashed (set_meta s k x) i = trashed s i"
  "trashed (remove_meta s k) i = trashed s i"
  "trashed (snd (record_blocked f s a)) i = trashed s i"
  "trashed (update_job s j) i = trashed s i"
  "trashed (remove_job s q) i = trashed s i"
  "trashed (snd (remove_jobs_for s k)) i = trashed s i"
  "trashed (snd (enqueue_with_priority t s kd pr)) i = trashed s i"
  "trashed (put_conflict s c) i = trashed s i"
  "trashed (remove_conflict s k) i = trashed s i"
  "trashed (add_dir s k) i = trashed s i"
  "trashed (remove_dir s k) i = trashed s i"
  "trashed (set_cursor s n) i = trashed s i"
  "trashed (set_number s y n) i = trashed s i"
  by (simp_all add: store_defs read_defs record_blocked_def update_job_def remove_jobs_for_def Let_def)

lemma has_dir_frames [frames]:
  "has_dir (put_entry s k e) i = has_dir s i"
  "has_dir (remove_entry s k) i = has_dir s i"
  "has_dir (put_base s k b) i = has_dir s i"
  "has_dir (remove_base s k) i = has_dir s i"
  "has_dir (set_meta s k x) i = has_dir s i"
  "has_dir (remove_meta s k) i = has_dir s i"
  "has_dir (snd (record_blocked f s a)) i = has_dir s i"
  "has_dir (update_job s j) i = has_dir s i"
  "has_dir (remove_job s q) i = has_dir s i"
  "has_dir (snd (remove_jobs_for s k)) i = has_dir s i"
  "has_dir (snd (enqueue_with_priority t s kd pr)) i = has_dir s i"
  "has_dir (put_conflict s c) i = has_dir s i"
  "has_dir (remove_conflict s k) i = has_dir s i"
  "has_dir (put_trashed s k tr) i = has_dir s i"
  "has_dir (remove_trashed s k) i = has_dir s i"
  "has_dir (set_cursor s n) i = has_dir s i"
  "has_dir (set_number s y n) i = has_dir s i"
  by (simp_all add: store_defs read_defs record_blocked_def update_job_def remove_jobs_for_def Let_def)

lemma jobs_frames [frames]:
  "jobs (put_entry s k e) = jobs s"
  "jobs (remove_entry s k) = jobs s"
  "jobs (put_base s k b) = jobs s"
  "jobs (remove_base s k) = jobs s"
  "jobs (set_meta s k x) = jobs s"
  "jobs (remove_meta s k) = jobs s"
  "jobs (snd (record_blocked f s a)) = jobs s"
  "jobs (put_conflict s c) = jobs s"
  "jobs (remove_conflict s k) = jobs s"
  "jobs (put_trashed s k tr) = jobs s"
  "jobs (remove_trashed s k) = jobs s"
  "jobs (add_dir s k) = jobs s"
  "jobs (remove_dir s k) = jobs s"
  "jobs (set_cursor s n) = jobs s"
  "jobs (set_number s y n) = jobs s"
  by (simp_all add: store_defs read_defs record_blocked_def update_job_def remove_jobs_for_def Let_def)

lemma meta_remove_entry [frames]: "i \<noteq> stamp_key k \<Longrightarrow> meta (remove_entry s k) i = meta s i"
  by (simp add: meta_def remove_entry_def)

lemma meta_record_blocked [frames]: "i \<noteq> RECHECK \<Longrightarrow> meta (snd (record_blocked f s a)) i = meta s i"
  by (simp add: meta_def record_blocked_def Let_def)

lemma jobs_cong: "jobs_tbl s' = jobs_tbl s \<Longrightarrow> jobs s' = jobs s"
  by (simp add: jobs_def)

lemma jobs_remove_job:
  "jobs (remove_job s q) = filter (\<lambda>j. j_seq j \<noteq> q) (jobs s)"
  by (simp add: jobs_def remove_job_def tdel_def filter_map o_def split_def)

lemmas store_get = kv_get frames

end
