(* ===== verification/Sync_Queue.thy ===== *)
theory Sync_Queue
  imports Sync_Ledger Store_Frames
begin

text \<open>
  The queue as the engine works it off: which job is next, what becomes of a job that
  failed, what an acknowledged push may mark as clean, and which jobs are recovered.
\<close>

section \<open>Backoff\<close>

lemma pow2_6: "2 ^ 6 = (64 :: nat)"
  by simp

text \<open>
  The wait before the next attempt doubles from one minute on and never exceeds one
  hour.
\<close>
theorem backoff_schedule:
  "backoff_ms a = (if a < 6 then 60000 * 2 ^ a else 3600000) \<and> mono backoff_ms
    \<and> 60000 \<le> backoff_ms a \<and> backoff_ms a \<le> 3600000"
proof -
  have small: "60000 * 2 ^ n \<le> (3600000 :: nat)" if "n < 6" for n :: nat
  proof -
    have "(2 :: nat) ^ n \<le> 2 ^ 5" using that by (intro power_increasing) auto
    then show ?thesis by simp
  qed
  have eq: "backoff_ms n = (if n < 6 then 60000 * 2 ^ n else 3600000)" for n
    using small[of n] by (simp add: backoff_ms_def Let_def min_def)
  have "mono backoff_ms"
  proof (rule monoI)
    fix x y :: nat
    assume "x \<le> y"
    then have "(2 :: nat) ^ x \<le> 2 ^ y" by (intro power_increasing) auto
    then show "backoff_ms x \<le> backoff_ms y" using small[of x] \<open>x \<le> y\<close> by (simp add: eq)
  qed
  then show ?thesis using small[of a] by (simp add: eq)
qed

section \<open>The next job\<close>

definition first_in_line :: "job list \<Rightarrow> job \<Rightarrow> bool" where
  "first_in_line js j \<longleftrightarrow> (\<forall>p\<in>set js. j_seq p < j_seq j \<longrightarrow> \<not> jobs_overlap p j)"

definition ready :: "'h env \<Rightarrow> 'h mirror \<Rightarrow> job \<Rightarrow> bool" where
  "ready v m j \<longleftrightarrow> j \<in> set (jobs (m_store m)) \<and> runnable v m j \<and> first_in_line (jobs (m_store m)) j"

lemma first_needed_facts:
  "(first_needed js j = j \<or> first_needed js j \<in> set js) \<and> first_in_line js (first_needed js j)"
proof (induction js j rule: first_needed.induct)
  case (1 js j)
  show ?case
  proof (cases "min_by_seq (filter (\<lambda>p. j_seq p < j_seq j \<and> jobs_overlap p j) js)")
    case None
    then have "filter (\<lambda>p. j_seq p < j_seq j \<and> jobs_overlap p j) js = []" by (simp add: min_by_seq_None)
    then show ?thesis using None by (simp add: first_needed.simps[of js j] first_in_line_def filter_empty_conv)
  next
    case (Some p)
    then have "p \<in> set js" using min_by_seq_mem by fastforce
    then show ?thesis using "1.IH"[OF Some] Some by (auto simp: first_needed.simps[of js j])
  qed
qed

lemma first_in_line_needed: "first_in_line js j \<Longrightarrow> first_needed js j = j"
  by (auto simp: first_needed.simps[of js j] first_in_line_def split: option.split dest!: min_by_seq_mem)

text \<open>
  C9: the job the engine takes next is one of the queue, may run now, and no job queued
  before it touches an overlapping path, so nothing overtakes an operation it depends on;
  and the engine stops only when no job of the queue is in that position.
\<close>
theorem next_job_in_order:
  "case next_job v m of
     Some j \<Rightarrow> ready v m j
   | None \<Rightarrow> \<not> (\<exists>j. ready v m j)"
proof -
  let ?js = "sort_key job_order (jobs (m_store m))"
  have nj: "next_job v m = List.find (runnable v m) (map (first_needed ?js) ?js)"
    by (simp add: next_job_def Let_def)
  show ?thesis
  proof (cases "next_job v m")
    case None
    have "\<not> ready v m j" for j
    proof
      assume r: "ready v m j"
      then have "first_needed ?js j = j" by (intro first_in_line_needed) (simp add: ready_def first_in_line_def)
      then show False using None r by (auto simp: nj find_None_iff ready_def)
    qed
    then show ?thesis using None by simp
  next
    case (Some j)
    have find: "List.find P xs = Some x \<Longrightarrow> x \<in> set xs \<and> P x" for P xs and x :: job
      by (auto simp: find_Some_iff)
    obtain c where c: "c \<in> set ?js" "j = first_needed ?js c" "runnable v m j"
      using find Some unfolding nj by fastforce
    then have "ready v m j" using first_needed_facts[of ?js c] by (auto simp: ready_def first_in_line_def)
    then show ?thesis using Some by simp
  qed
qed

section \<open>What becomes of a job\<close>

text \<open>How a failed attempt ends: three ways to wait, one to give up.\<close>

definition waits :: "hub_error \<Rightarrow> bool" where
  "waits e \<longleftrightarrow> is_offline e \<or> e = Unauthorized \<or> (\<exists>k. e = LocalChanged k) \<or> (\<exists>k. e = Protected k)"

definition gives_up :: "job \<Rightarrow> hub_error \<Rightarrow> bool" where
  "gives_up j e \<longleftrightarrow> \<not> waits e \<and> is_permanent e \<and> \<not> is_rename_dir (j_kind j)"


definition demo_busy :: "mem mirror" where
  "demo_busy = demo_mirror\<lparr>m_store := demo_queue\<rparr>"

definition demo_failure :: hub_error where
  "demo_failure = Retryable 503 ''busy''"


section \<open>An acknowledged push\<close>

definition acked_sha :: "entry \<Rightarrow> put_result \<Rightarrow> string" where
  "acked_sha e res = (if pr_sha256 res = [] then e_sha256 e else pr_sha256 res)"

definition settles :: "'h mirror \<Rightarrow> string \<Rightarrow> string \<Rightarrow> bool" where
  "settles m key sha \<longleftrightarrow> \<not> is_open_for_write m key \<and>
     map_option e_sha256 (entry (m_store m) key) = Some sha"

text \<open>
  C11: when the hub has acknowledged a push, the version it acknowledged becomes the base of
  the key the file has by now, and the entry there becomes clean exactly when it still holds
  that version and no handle is open on it: an edit made during the upload stays dirty. No
  other entry or base, no job and no file changes.
\<close>
theorem ack_keeps_newer_edit:
  "entry (m_store (push_acknowledged key e res m)) k =
     (if k = local_result_key m key \<and> settles m k (acked_sha e res)
      then map_option (\<lambda>c. if e_state c = Dirty then c\<lparr>e_state := Clean\<rparr> else c) (entry (m_store m) k)
      else entry (m_store m) k)
   \<and> map_option b_sha256 (base (m_store (push_acknowledged key e res m)) k) =
     (if k = local_result_key m key then Some (acked_sha e res) else map_option b_sha256 (base (m_store m) k))
   \<and> jobs (m_store (push_acknowledged key e res m)) = jobs (m_store m)
   \<and> m_fs (push_acknowledged key e res m) = m_fs m \<and> m_hub (push_acknowledged key e res m) = m_hub m"
proof (cases "entry (m_store m) (local_result_key m key)")
  case None
  then show ?thesis
    by (auto simp: push_acknowledged_def Let_def upd_store_def store_get settles_def acked_sha_def)
next
  case (Some c)
  then show ?thesis
    by (auto simp: push_acknowledged_def Let_def upd_store_def store_get settles_def acked_sha_def is_open_for_write_def)
qed

section \<open>Recovering lost jobs\<close>

lemma enq_prio_facts:
  assumes "store_ok (m_store m)"
  shows "store_ok (m_store (enq_prio v k pr m))"
    "dedupe_id ` set (kinds (m_store (enq_prio v k pr m))) = insert (dedupe_id k) (dedupe_id ` set (kinds (m_store m)))"
    "entries (m_store (enq_prio v k pr m)) = entries (m_store m)"
  using assms queue.enq_queue[OF assms, of "v_now v" k pr]
  by (auto simp: enq_prio_def upd_store_def image_iff)


definition demo_lost :: "mem mirror" where
  "demo_lost = demo_mirror\<lparr>m_store := put_entry empty_store ''a''
     \<lparr>e_sha256 = ''s'', e_size = 1, e_mtime = 0, e_state = Dirty\<rparr>\<rparr>"


end
