(* ===== verification/World_Frames.thy ===== *)
theory World_Frames
  imports Sync_Cycle
begin

text \<open>
  Which steps of the engine touch neither the folder nor the hub: the rewrite rules that
  let a statement about the two pass over everything that only writes the ledger.
\<close>

lemma world_basic [simp]:
  "m_fs (upd_store f m) = m_fs m"
  "m_hub (upd_store f m) = m_hub m"
  "m_fs (skip_key k w m) = m_fs m"
  "m_hub (skip_key k w m) = m_hub m"
  "m_fs (unskip_key k m) = m_fs m"
  "m_hub (unskip_key k m) = m_hub m"
  "m_fs (recheck_key k m) = m_fs m"
  "m_hub (recheck_key k m) = m_hub m"
  "m_fs (wake m) = m_fs m"
  "m_hub (wake m) = m_hub m"
  "m_fs (with_view x m) = m_fs m"
  "m_hub (with_view x m) = m_hub m"
  "m_fs (view_upsert k sz mt m) = m_fs m"
  "m_hub (view_upsert k sz mt m) = m_hub m"
  "m_fs (view_remove k m) = m_fs m"
  "m_hub (view_remove k m) = m_hub m"
  "m_fs (view_rename a b m) = m_fs m"
  "m_hub (view_rename a b m) = m_hub m"
  "m_fs (view_ensure_dir k m) = m_fs m"
  "m_hub (view_ensure_dir k m) = m_hub m"
  "m_fs (set_state st m) = m_fs m"
  "m_hub (set_state st m) = m_hub m"
  "m_fs (set_error er m) = m_fs m"
  "m_hub (set_error er m) = m_hub m"
  by (simp_all add: upd_store_def skip_key_def unskip_key_def recheck_key_def wake_def with_view_def
      view_upsert_def view_remove_def view_rename_def view_ensure_dir_def set_state_def set_error_def)

lemma world_queue [simp]:
  "m_fs (block_action v a k dst r m) = m_fs m"
  "m_hub (block_action v a k dst r m) = m_hub m"
  "m_fs (enq v kd m) = m_fs m"
  "m_hub (enq v kd m) = m_hub m"
  "m_fs (enq_prio v kd pr m) = m_fs m"
  "m_hub (enq_prio v kd pr m) = m_hub m"
  "m_fs (record_dirs_for k m) = m_fs m"
  "m_hub (record_dirs_for k m) = m_hub m"
  by (simp_all add: block_action_def Let_def enq_def enq_prio_def record_dirs_for_def)

lemma world_entry [simp]:
  "m_fs (ensure_job v kd m) = m_fs m"
  "m_hub (ensure_job v kd m) = m_hub m"
  "m_fs (forget_key k m) = m_fs m"
  "m_hub (forget_key k m) = m_hub m"
  "m_fs (block_replace v k x m) = m_fs m"
  "m_hub (block_replace v k x m) = m_hub m"
  by (simp_all add: ensure_job_def forget_key_def block_replace_def)

lemma world_steps [simp]:
  "m_fs (note_local_gone v k m) = m_fs m"
  "m_hub (note_local_gone v k m) = m_hub m"
  "m_fs (scan_dir v pr k m) = m_fs m"
  "m_hub (scan_dir v pr k m) = m_hub m"
  "m_fs (do_push v k im eo b m) = m_fs m"
  "m_hub (do_push v k im eo b m) = m_hub m"
  "m_fs (do_adopt k eo r q m) = m_fs m"
  "m_hub (do_adopt k eo r q m) = m_hub m"
  "m_fs (push_acknowledged k e res m) = m_fs m"
  "m_hub (push_acknowledged k e res m) = m_hub m"
  "m_fs (drop_tombstone k m) = m_fs m"
  "m_hub (drop_tombstone k m) = m_hub m"
  "m_fs (repush v k e m) = m_fs m"
  "m_hub (repush v k e m) = m_hub m"
  "m_fs (listing_done lat epo m) = m_fs m"
  "m_hub (listing_done lat epo m) = m_hub m"
  "m_fs (snd (protect_job v jb m)) = m_fs m"
  "m_hub (snd (protect_job v jb m)) = m_hub m"
  by (simp_all add: note_local_gone_def scan_dir_def do_push_def do_adopt_def push_acknowledged_def
      drop_tombstone_def repush_def listing_done_def protect_job_def Let_def split: option.split)

lemma world_recover [simp]: "m_fs (recover_jobs v m) = m_fs m" "m_hub (recover_jobs v m) = m_hub m"
proof -
  let ?step = "\<lambda>ids m' row. case wanted_job v m row of None \<Rightarrow> m'
      | Some k \<Rightarrow> if dedupe_id k \<in> ids then m' else enq_prio v k Discovered m'"
  have "m_fs (foldl (?step ids) x rows) = m_fs x \<and> m_hub (foldl (?step ids) x rows) = m_hub x" for ids rows x
    by (induction rows arbitrary: x) (simp_all split: option.split)
  then show "m_fs (recover_jobs v m) = m_fs m" "m_hub (recover_jobs v m) = m_hub m"
    unfolding recover_jobs_def Let_def by blast+
qed

end
