(* ===== verification/Sync_Protected.thy ===== *)
theory Sync_Protected
  imports Sync_Demo World_Frames
begin

text \<open>
  Protected synchronisation. The program promises that a protected mirror logs and defers
  every automatic delete, overwrite, rename and retention cleanup on both sides, and goes
  on adding. The locale \<open>additive\<close> states what that takes: a predicate \<open>H\<close> on the hub that
  survives every request a protected mirror may send (the reads, creating directories, and
  uploads that are conditional on a free name or on the very same bytes), and other threads
  that leave the spared files alone. Everything the engine does then keeps them.
\<close>

definition additive_put :: "put_options \<Rightarrow> bool" where
  "additive_put po \<longleftrightarrow> po_if_none_match_any po \<or> po_if_match po \<noteq> None \<and> po_if_match po = po_sha256 po"

definition additive_hub :: "'h hub_api \<Rightarrow> ('h \<Rightarrow> bool) \<Rightarrow> bool" where
  "additive_hub api H \<longleftrightarrow>
     (\<forall>h. H h \<longrightarrow> H (snd (api_instance_id api h)) \<and> H (snd (api_exclusions api h))
        \<and> (\<forall>p c n. H (snd (api_list api p c n h))) \<and> (\<forall>s n. H (snd (api_changes api s n h)))
        \<and> (\<forall>k. H (snd (api_head api k h))) \<and> (\<forall>k off. H (snd (api_get api k off h)))
        \<and> (\<forall>k. H (snd (api_mkdir api k h)))
        \<and> (\<forall>k b po. additive_put po \<longrightarrow> H (snd (api_put api k b po h))))"

definition table_le :: "('k, 'v) table \<Rightarrow> ('k, 'v) table \<Rightarrow> bool" where
  "table_le t u \<longleftrightarrow> (\<forall>k n. tget t k = Some n \<longrightarrow> tget u k = Some n)"

definition spares :: "folder \<Rightarrow> folder \<Rightarrow> bool" where
  "spares f g \<longleftrightarrow> table_le (f_nodes f) (f_nodes g) \<and> table_le (f_trash f) (f_trash g)
     \<and> table_le (f_conflicts f) (f_conflicts g)"

lemma table_le_refl [simp]: "table_le t t"
  by (simp add: table_le_def)

lemma table_le_trans: "table_le t u \<Longrightarrow> table_le u w \<Longrightarrow> table_le t w"
  by (simp add: table_le_def)

lemma table_le_new: "table_le t u \<Longrightarrow> tget u k = None \<Longrightarrow> table_le t (tput k n u)"
  by (fastforce simp: table_le_def)

lemma spares_refl [simp]: "spares f f"
  by (simp add: spares_def)

lemma spares_trans: "spares f g \<Longrightarrow> spares g h \<Longrightarrow> spares f h"
  by (meson spares_def table_le_trans)

lemma spares_parts [simp]: "spares f (g\<lparr>f_parts := x\<rparr>) = spares f g"
  by (simp add: spares_def)

lemma spares_new_node:
  "spares f g \<Longrightarrow> tget (f_nodes g) k = None \<Longrightarrow> spares f (g\<lparr>f_nodes := tput k n (f_nodes g), f_next_ino := i\<rparr>)"
  by (simp add: spares_def table_le_new)

lemma create_dir_spares: "create_dir (Inr f) d = Inr g \<Longrightarrow> spares f g"
  by (auto simp: create_dir_def split: option.splits node.splits intro: spares_new_node)

lemma create_dirs_spare: "foldl create_dir (Inr f) ds = Inr g \<Longrightarrow> spares f g"
proof (induction ds arbitrary: f)
  case (Cons d ds)
  have err: "foldl create_dir (Inl e) ds = Inl e" for e by (induction ds) (simp_all add: create_dir_def)
  obtain f1 where f1: "create_dir (Inr f) d = Inr f1"
    using Cons.prems err by (cases "create_dir (Inr f) d") auto
  then show ?case using Cons spares_trans[OF create_dir_spares[OF f1]] by simp
qed simp

lemma place_dir_spares: "place_dir f d = Inr g \<Longrightarrow> spares f g"
  by (auto simp: place_dir_def create_dir_spares split: sum.splits node.splits io_error.splits if_splits)

lemma not_found_free: "symlink_metadata f k = Inl NotFound \<Longrightarrow> tget (f_nodes f) k = None"
  by (auto simp: symlink_metadata_def split: if_splits option.splits)

lemma allowed_free: "protected_download_allowed m k \<Longrightarrow> tget (f_nodes (m_fs m)) k = None"
  by (auto simp: protected_download_allowed_def not_found_free split: if_splits)

lemma original_is_dir: "is_original v k f key \<Longrightarrow> is_dir f key"
  by (auto simp: is_original_def is_dir_def stat_def stat_of_def split: sum.splits node.splits)

locale additive =
  fixes v :: "'h env" and f0 :: folder and H :: "'h \<Rightarrow> bool"
  assumes prot: "protected (v_opts v)"
    and hub: "additive_hub (v_api v) H"
    and others: "spares f0 (m_fs m) \<Longrightarrow> H (m_hub m) \<Longrightarrow>
      spares f0 (m_fs (v_other v m)) \<and> H (m_hub (v_other v m))"
begin

definition K :: "'h mirror \<Rightarrow> bool" where
  "K m \<longleftrightarrow> spares f0 (m_fs m) \<and> H (m_hub m)"

lemma K_cong: "m_fs m' = m_fs m \<Longrightarrow> m_hub m' = m_hub m \<Longrightarrow> K m' = K m"
  by (simp add: K_def)

lemma K_other [intro]: "K m \<Longrightarrow> K (v_other v m)"
  using others by (simp add: K_def)

lemma K_hub: "K m \<Longrightarrow> H h \<Longrightarrow> K (m\<lparr>m_hub := h\<rparr>)"
  by (simp add: K_def)

lemma hub_call:
  assumes "K m"
  shows "api_instance_id (v_api v) (m_hub m) = (r1, h) \<Longrightarrow> K (m\<lparr>m_hub := h\<rparr>)"
    "api_exclusions (v_api v) (m_hub m) = (r2, h) \<Longrightarrow> K (m\<lparr>m_hub := h\<rparr>)"
    "api_list (v_api v) p c n (m_hub m) = (r3, h) \<Longrightarrow> K (m\<lparr>m_hub := h\<rparr>)"
    "api_changes (v_api v) s n (m_hub m) = (r4, h) \<Longrightarrow> K (m\<lparr>m_hub := h\<rparr>)"
    "api_head (v_api v) k (m_hub m) = (r5, h) \<Longrightarrow> K (m\<lparr>m_hub := h\<rparr>)"
    "api_get (v_api v) k off (m_hub m) = (r6, h) \<Longrightarrow> K (m\<lparr>m_hub := h\<rparr>)"
    "api_mkdir (v_api v) k (m_hub m) = (r7, h) \<Longrightarrow> K (m\<lparr>m_hub := h\<rparr>)"
    "additive_put po \<Longrightarrow> api_put (v_api v) k b po (m_hub m) = (r8, h) \<Longrightarrow> K (m\<lparr>m_hub := h\<rparr>)"
  using assms hub by (auto simp: K_def additive_hub_def) (metis snd_conv)+


lemma K_trash [intro]: "K m \<Longrightarrow> K (clear_obsolete_trash v k m)"
  by (simp add: clear_obsolete_trash_def prot K_def)

lemma K_scan_record [intro]: "K m \<Longrightarrow> K (scan_record v pr k h m)"
  using K_trash[of "upd_store f m" for f] by (auto simp: scan_record_def Let_def K_def)

lemma K_scan_file: "K (sc_m sc) \<Longrightarrow> K (sc_m (scan_file v ps pr ep k st sc))"
proof -
  assume "K (sc_m sc)"
  then have o: "K (v_other v (sc_m sc))" by (rule K_other)
  then have "K (upd_store f (v_other v (sc_m sc)))" for f by (simp add: K_def)
  then have "K (scan_record v pr k h (upd_store f (v_other v (sc_m sc))))" for h f by (rule K_scan_record)
  then show ?thesis using o \<open>K (sc_m sc)\<close>
    by (auto simp: scan_file_def Let_def K_def split: sum.split option.split)
qed

lemma K_scan_item: "K (sc_m sc) \<Longrightarrow> K (sc_m (scan_item v ps pr ep sc x))"
  using K_other[of "sc_m sc"] K_scan_file[of "sc\<lparr>sc_m := m, sc_files := fs\<rparr>" for m fs]
  by (auto simp: scan_item_def Let_def K_def split: prod.split)

lemma K_scan_fold:
  "K (sc_m sc) \<Longrightarrow> K (sc_m (foldl (scan_item v ps pr ep) sc xs))"
  "K (sc_m sc) \<Longrightarrow> K (sc_m (foldl (scan_root v ps pr ep) sc ys))"
  "K (sc_m sc) \<Longrightarrow> K (sc_m (foldl (scan_removed v ps) sc zs))"
  "K (sc_m sc) \<Longrightarrow> K (sc_m (foldl (scan_removed_dir v ps pr) sc ds))"
proof -
  show 1: "K (sc_m sc) \<Longrightarrow> K (sc_m (foldl (scan_item v ps pr ep) sc xs))" for sc xs
    by (induction xs arbitrary: sc) (auto simp: K_scan_item)
  show "K (sc_m sc) \<Longrightarrow> K (sc_m (foldl (scan_root v ps pr ep) sc ys))"
    by (induction ys arbitrary: sc) (auto simp: scan_root_def 1)
  show "K (sc_m sc) \<Longrightarrow> K (sc_m (foldl (scan_removed v ps) sc zs))"
    by (induction zs arbitrary: sc) (auto simp: scan_removed_def Let_def K_def split: prod.split)
  show "K (sc_m sc) \<Longrightarrow> K (sc_m (foldl (scan_removed_dir v ps pr) sc ds))"
    by (induction ds arbitrary: sc) (auto simp: scan_removed_dir_def Let_def K_def)
qed

lemma K_scan_paths [intro]: "K m \<Longrightarrow> K (snd (scan_paths v ps pr m))"
proof -
  assume m: "K m"
  let ?sc1 = "foldl (scan_root v ps pr (m_epoch m))
    \<lparr>sc_m = m, sc_report = empty_report, sc_files = {}, sc_dirs = {}, sc_aborted = False\<rparr> ps"
  have 1: "K (sc_m ?sc1)" by (rule K_scan_fold(2)) (simp add: m)
  then have 2: "K (v_other v (sc_m ?sc1))" by (rule K_other)
  let ?sc3 = "foldl (scan_removed v ps) (?sc1\<lparr>sc_m := v_other v (sc_m ?sc1)\<rparr>)
    (entries_prefix (m_store (v_other v (sc_m ?sc1))) [])"
  have "K (sc_m ?sc3)" by (rule K_scan_fold(3)) (simp add: 2)
  then have "K (sc_m (foldl (scan_removed_dir v ps pr) ?sc3 (dirs (m_store (sc_m ?sc3)))))"
    by (rule K_scan_fold(4))
  then show ?thesis using m 1 2 by (auto simp: scan_paths_def Let_def K_def split: option.split)
qed

lemma K_events [intro]: "K m \<Longrightarrow> K (process_local_events v m)"
  using K_scan_paths[of "m\<lparr>m_pending_rescan := False, m_pending_paths := {}\<rparr>"]
  by (auto simp: process_local_events_def Let_def scan_local_def K_def)

lemma K_get_body: "K m \<Longrightarrow> get_body v k p (m_hub m) = (r, h) \<Longrightarrow> K (m\<lparr>m_hub := h\<rparr>)"
proof -
  assume m: "K m" and g: "get_body v k p (m_hub m) = (r, h)"
  have w: "H h1 \<Longrightarrow> H (snd (get_whole v k h1))" for h1
    using hub by (auto simp: get_whole_def additive_hub_def split: prod.split sum.split) (metis snd_conv)+
  have a: "H h1 \<Longrightarrow> api_get (v_api v) k x h1 = (y, h2) \<Longrightarrow> H h2" for h1 x y h2
    using hub by (auto simp: additive_hub_def) (metis snd_conv)
  have "H (snd (get_body v k p (m_hub m)))"
    using m w a by (auto simp: get_body_def K_def split: option.split prod.split sum.split hub_error.split)
  then show ?thesis using m g by (simp add: K_def)
qed

lemma K_fetch:
  assumes "K m" "\<And>m. P m \<Longrightarrow> protected_download_allowed m k"
  shows "K (snd (fetch v k x mt P m))"
proof -
  have part: "K m1 \<Longrightarrow> K (drop_part k m1)" for m1 by (simp add: K_def drop_part_def)
  have land: "K ((drop_part k m1)\<lparr>m_fs := (m_fs (drop_part k m1))\<lparr>f_nodes := tput k n (f_nodes (m_fs (drop_part k m1))),
      f_next_ino := i\<rparr>\<rparr>)" if "K m1" "P m1" for m1 n i
  proof -
    have "tget (f_nodes (m_fs (drop_part k m1))) k = None" using allowed_free[OF assms(2)[OF that(2)]] by (simp add: drop_part_def)
    then show ?thesis using part[OF that(1)] spares_new_node by (simp add: K_def)
  qed
  show ?thesis
  proof (cases "check_key k \<and> (\<exists>y. file_stamp (m_fs m) k = Inr y) \<and> (\<exists>f. ensure_parent (m_fs m) k = Inr f)")
    case True
    then obtain y f where y: "check_key k" "file_stamp (m_fs m) k = Inr y" "ensure_parent (m_fs m) k = Inr f" by blast
    then have "spares (m_fs m) f" unfolding ensure_parent_def by (blast intro: create_dirs_spare)
    then have m1: "K (m\<lparr>m_fs := f\<rparr>)" using assms(1) spares_trans by (auto simp: K_def)
    obtain r h where g: "get_body v k (tget (f_parts f) k) (m_hub m) = (r, h)" by force
    have m2: "K (m\<lparr>m_fs := f, m_hub := h\<rparr>)" using K_get_body[OF m1, of k "tget (f_parts f) k" r h] g by simp
    show ?thesis
    proof (cases r)
      case (Inr de)
      obtain data etag where de: "de = (data, etag)" by (cases de)
      let ?m3 = "m\<lparr>m_hub := h, m_fs := f\<lparr>f_parts := tput k data (f_parts f)\<rparr>\<rparr>"
      have m3: "K ?m3" using m2 by (simp add: K_def)
      have m4: "K (v_other v ?m3)" using m3 by (rule K_other)
      show ?thesis
      proof (cases "or_default x etag \<noteq> v_sha v data \<or> \<not> P (v_other v ?m3)
          \<or> file_stamp (m_fs (v_other v ?m3)) k \<noteq> Inr y")
        case True
        then show ?thesis using y g Inr de part[OF m3] part[OF m4] by (auto simp: fetch_def Let_def)
      next
        case False
        then show ?thesis using y g Inr de m4 land[OF m4]
          by (auto simp: fetch_def Let_def split: option.split node.split)
      qed
    qed (use y g m2 in \<open>simp add: fetch_def Let_def\<close>)
  qed (use assms(1) in \<open>auto simp: fetch_def split: sum.split\<close>)
qed


lemma K_landed [intro]: "K m \<Longrightarrow> K (pull_landed v k r q h m)"
  using K_trash[of "record_dirs_for k (upd_store f m)" for f] by (auto simp: pull_landed_def Let_def K_def)

lemma K_recheck_key: "K (recheck_key k m) = K m"
  by (simp add: K_def)

lemma K_pull [intro]:
  assumes "K m"
  shows "K (snd (pull_key v k r q x m))"
proof -
  let ?P = "pull_may_land v k (m_epoch m) (stat (m_fs m) k) x"
  obtain res m1 where f: "fetch v k (r_sha256 r) (r_mtime r) ?P (v_other v m) = (res, m1)" by force
  have "K (snd (fetch v k (r_sha256 r) (r_mtime r) ?P (v_other v m)))"
    using assms by (intro K_fetch K_other) (auto simp: pull_may_land_def prot)
  then have m1: "K m1" using f by simp
  then have "K (snd (scan_paths v [k] Interactive m1))" by (rule K_scan_paths)
  then show ?thesis
    using assms m1 f
    by (auto simp: pull_key_def Let_def K_recheck_key split: sum.split hub_error.split) (auto simp: K_def)
qed

lemma K_reconcile [intro]:
  assumes "K m"
  shows "K (snd (reconcile_key v k r q m))"
proof -
  have act: "K (snd (perform_action v k r q e b act m))" if "reconcile_blocked m k act = None" for e b act
    using that assms K_pull[OF K_other[OF assms]]
    by (cases act) (auto simp: perform_action_def reconcile_blocked_def K_def split: option.splits)
  show ?thesis
    using assms act by (auto simp: reconcile_key_def Let_def prot K_def split: option.split)
qed

lemma additive_push: "\<not> push_blocked v b e \<Longrightarrow> additive_put (push_options e b)"
  using prot by (cases b) (auto simp: push_blocked_def push_options_def additive_put_def no_put_options_def)

lemma K_run_push [intro]:
  assumes "K m"
  shows "K (snd (run_push v k m))"
proof -
  have 1: "K (v_other v (v_other v m))" using assms by blast
  let ?m = "\<lambda>e. upd_store (\<lambda>s. set_meta (put_entry s k e) (pending_key k) (e_sha256 e)) (v_other v (v_other v m))"
  have 2: "K (?m e)" for e using 1 by (simp add: K_def)
  have 3: "K (v_other v ((?m e)\<lparr>m_hub := h\<rparr>))"
    if "\<not> push_blocked v b e" "api_put (v_api v) k bs (push_options e b) (m_hub (?m e)) = (r, h)" for b e bs r h
    using hub_call(8)[OF 2 additive_push[OF that(1)] that(2)] by (rule K_other)
  have 4: "K (snd (reconcile_key v k c 0 (v_other v (v_other v ((?m e)\<lparr>m_hub := h\<rparr>)))))"
    if "\<not> push_blocked v b e" "api_put (v_api v) k bs (push_options e b) (m_hub (?m e)) = (r, h)" for b e bs r h c
    using 3[OF that] by blast
  have frame: "K (block_replace v k x m') = K m'" "K (push_acknowledged k e res m') = K m'" for x m' e res
    by (simp_all add: K_def)
  show ?thesis
    unfolding run_push_def Let_def
    using assms K_other[OF assms] 1 3 4
    by (auto simp: frame split: option.split sum.split prod.split hub_error.split)
qed

lemma K_run_allowed:
  assumes "K m" "blocked_by_protection (j_kind jb) = None"
  shows "K (snd (run_job v jb m))"
proof (cases "j_kind jb")
  case (JMkdir k)
  obtain r h where c: "api_mkdir (v_api v) k (m_hub m) = (r, h)" by force
  have "K (v_other v (m\<lparr>m_hub := h\<rparr>))" using hub_call(7)[OF assms(1) c] by (rule K_other)
  then show ?thesis using c by (auto simp: run_job_def JMkdir split: sum.split hub_error.split)
next
  case (JRenameDir a b oid dev ino ident app rem)
  then show ?thesis using assms by (auto simp: run_job_def run_rename_dir_def Let_def K_def split: if_splits)
qed (use assms in \<open>auto simp: run_job_def\<close>)

lemma K_settle [intro]: "K m \<Longrightarrow> K (snd (settle_job v jb r m))"
proof -
  assume m: "K m"
  have "K (snd (scan_paths v ps pr (upd_store f m)))" for ps pr f
    by (rule K_scan_paths) (use m in \<open>simp add: K_def\<close>)
  then show ?thesis using m
    by (auto simp: settle_job_def Let_def split: sum.split hub_error.split) (auto simp: K_def)
qed

lemma K_run_one [intro]:
  assumes "K m"
  shows "K (snd (run_one v jb m))"
proof -
  let ?go = "\<lambda>x. case protect_job v x (v_other v m) of (Inl e, m) \<Rightarrow> (Inl e, m) | (Inr _, m) \<Rightarrow> run_job v x m"
  have o: "K (v_other v m)" using assms by (rule K_other)
  have q: "K (snd (?go x))" for x
    using o K_run_allowed[OF o, of x] by (cases "blocked_by_protection (j_kind x)") (auto simp: protect_job_def prot K_def)
  have s: "K (snd (settle_job v x r m'))" if "?go x = (r, m')" for x r m'
    using q[of x] that by (auto intro: K_settle)
  show ?thesis
    unfolding run_one_def using assms q s
    by (auto simp: split_def split: option.split)
qed

lemma K_drain [intro]: "K m \<Longrightarrow> K (snd (drain_jobs v n m))"
proof (induction n arbitrary: m)
  case (Suc n)
  let ?m = "process_local_events v m"
  have e: "K ?m" using Suc.prems by (rule K_events)
  show ?case
  proof (cases "next_job v ?m")
    case (Some jb)
    obtain r m1 where r1: "run_one v jb ?m = (r, m1)" by force
    have m1: "K m1" using K_run_one[OF e, of jb] r1 by simp
    obtain r2 m2 where r2: "drain_jobs v n m1 = (r2, m2)" by force
    have m2: "K m2" using Suc.IH[OF m1] r2 by simp
    show ?thesis using Some r1 m1 r2 m2 by (cases r; cases r2) (auto simp: Let_def)
  qed (use e in \<open>simp add: Let_def\<close>)
qed simp


lemma K_finish_move: "K m \<Longrightarrow> \<not> is_dir (m_fs m) (jfrom (j_kind jb)) \<or> jlocal_applied (j_kind jb) \<or> \<not> is_rename_dir (j_kind jb)
    \<Longrightarrow> K (snd (finish_directory_move v jb m))"
  using original_is_dir[of v "j_kind jb" "m_fs m"]
  by (cases "j_kind jb") (auto simp: finish_directory_move_def Let_def is_rename_dir_def K_def split: bool.split sum.split)

lemma K_recover_loop: "K m \<Longrightarrow> K (snd (recover_moves_loop v js m))"
proof (induction js arbitrary: m)
  case (Cons jb js)
  have blk: "K (snd (recover_moves_loop v js (block_action v a k dst r m)))" for a k dst r
    by (rule Cons.IH) (use Cons.prems in \<open>simp add: K_def\<close>)
  obtain res m1 where f: "finish_directory_move v jb m = (res, m1)" by force
  show ?case
  proof (cases "is_rename_dir (j_kind jb) \<and> \<not> jlocal_applied (j_kind jb) \<and> is_dir (m_fs m) (jfrom (j_kind jb))")
    case True
    then show ?thesis using blk prot by (cases "j_kind jb") (auto simp: Let_def is_rename_dir_def)
  next
    case False
    then have "K m1" using K_finish_move[OF Cons.prems, of jb] f by auto
    then show ?thesis using Cons.IH f False prot
      by (cases "j_kind jb") (auto simp: Let_def is_rename_dir_def split: sum.split bool.split)
  qed
qed simp

lemma K_recheck_loop: "K m \<Longrightarrow> K (snd (recheck_loop v ks m))"
proof (induction ks arbitrary: m)
  case (Cons k ks)
  obtain r h where h: "api_head (v_api v) k (m_hub m) = (r, h)" by force
  have o: "K (m\<lparr>m_hub := h\<rparr>)" using hub_call(5)[OF Cons.prems h] .
  have r: "K m1" "K (snd (recheck_loop v ks m1))"
    if "reconcile_key v k st 0 (v_other v (m\<lparr>m_hub := h\<rparr>)) = (x, m1)" for st x m1
    using K_reconcile[OF K_other[OF o], of k st 0] that Cons.IH[of m1] by auto
  then show ?case using Cons o h by (auto simp: K_recheck_key split: sum.split prod.split)
qed simp

lemma K_rules [intro]: "K m \<Longrightarrow> K (snd (refresh_hub_rules v m))"
proof -
  assume m: "K m"
  obtain r h where i: "api_instance_id (v_api v) (m_hub m) = (r, h)" by force
  have m1: "K (m\<lparr>m_hub := h\<rparr>)" using hub_call(1)[OF m i] .
  obtain r2 h2 where e: "api_exclusions (v_api v) h = (r2, h2)" by force
  have "K (m\<lparr>m_hub := h2\<rparr>)" using hub_call(2)[OF m1, of r2 h2] e by (simp add: K_def)
  then show ?thesis using m1 i e
    by (auto simp: refresh_hub_rules_def Let_def K_def split: sum.split option.split)
qed

lemma K_prepare_dir: "K (ds_m ds) \<Longrightarrow> K (ds_m (prepare_dir v epo ds d))"
  using K_other[of "ds_m ds"] place_dir_spares spares_trans
  by (auto simp: prepare_dir_def Let_def K_def split: sum.split)

lemma K_prepare [intro]: "K m \<Longrightarrow> K (snd (prepare_listing_directories v rem ts epo m))"
proof -
  have "K (ds_m ds) \<Longrightarrow> K (ds_m (foldl (prepare_dir v epo) ds xs))" for ds xs
    by (induction xs arbitrary: ds) (auto simp: K_prepare_dir)
  then show "K m \<Longrightarrow> ?thesis" by (simp add: prepare_listing_directories_def Let_def)
qed

lemma K_list_pages: "K m \<Longrightarrow> list_pages v n cur lat rem ts m = Some (r, m') \<Longrightarrow> K m'"
proof (induction n arbitrary: cur lat rem ts m)
  case (Suc n)
  obtain p h where p: "api_list (v_api v) [] cur LIST_PAGE (m_hub m) = (p, h)" by force
  have h: "K (m\<lparr>m_hub := h\<rparr>)" using hub_call(3)[OF Suc.prems(1) p] .
  obtain d m1 where d: "drain_jobs v 16 (m\<lparr>m_hub := h\<rparr>) = (d, m1)" by force
  have "K m1" using K_drain[OF h, of 16] d by simp
  then show ?case using Suc h p d by (auto simp: Let_def split: sum.splits option.splits)
qed simp

lemma K_reconcile_all: "K m \<Longrightarrow> K (snd (reconcile_all v rem ts ks m))"
proof (induction ks arbitrary: ts m)
  case (Cons k ks)
  obtain d m1 where d: "drain_jobs v 16 m = (d, m1)" by force
  have m1: "K m1" using K_drain[OF Cons.prems, of 16] d by simp
  obtain x m2 where x: "reconcile_key v k (tget rem k) 0 m1 = (x, m2)" by force
  have m2: "K m2" using K_reconcile[OF m1, of k "tget rem k" 0] x by simp
  show ?case using m1 m2 Cons.IH[OF m1] Cons.IH[OF m2] d x by (auto simp: Let_def split: sum.split)
qed simp

lemma K_rebuild: "K m \<Longrightarrow> rebuild_from_listing v n m = Some (r, m') \<Longrightarrow> K m'"
proof -
  assume m: "K m" and e: "rebuild_from_listing v n m = Some (r, m')"
  obtain lp m1 where lp: "list_pages v n None 0 [] {} m = Some (lp, m1)"
    using e by (auto simp: rebuild_from_listing_def Let_def split: option.splits)
  have m1: "K m1" using m lp by (rule K_list_pages)
  show ?thesis
  proof (cases lp)
    case (Inr y)
    obtain lat rem ts where y: "y = (lat, rem, ts)" by (cases y)
    obtain p m2 where p: "prepare_listing_directories v rem ts (m_epoch m) m1 = (p, m2)" by force
    have m2: "K m2" using K_prepare[OF m1, of rem ts "m_epoch m"] p by simp
    obtain q m3 where q: "reconcile_all v rem ts (known_keys (m_store m2) rem) m2 = (q, m3)" by force
    have m3: "K m3" using K_reconcile_all[OF m2, of rem ts "known_keys (m_store m2) rem"] q by simp
    have "K (listing_done lat (m_epoch m) m3)" using m3 by (simp add: K_def)
    then show ?thesis using e lp Inr y p q m2 m3
      by (auto simp: rebuild_from_listing_def Let_def split: sum.splits)
  qed (use e lp m1 in \<open>simp add: rebuild_from_listing_def Let_def\<close>)
qed

lemma K_remote_rename [intro]: "K m \<Longrightarrow> K (apply_remote_rename v a b q m)"
  by (cases "entry (m_store m) a") (simp_all add: apply_remote_rename_def prot K_def)

lemma K_apply_change [intro]:
  assumes "K m"
  shows "K (snd (apply_change v ch m))"
proof -
  have 1: "K (v_other v (m'\<lparr>m_hub := h\<rparr>))" if "K m'" "api_head (v_api v) k (m_hub m') = (r, h)" for m' k r h
    using hub_call(5)[OF that] by (rule K_other)
  have raw_call: "K (m'\<lparr>m_hub := h\<rparr>)" if "K m'" "api_head (v_api v) k (m_hub m') = (r, h)" for m' k r h
    using hub_call(5)[OF that] .
  have 2: "K (snd (follow_rename v ch k epo st m'))" if "K m'" for k epo st m'
  proof (cases "ch_op ch = OpRename \<and> ch_from ch \<noteq> None")
    case True
    then obtain raw where raw: "ch_op ch = OpRename" "ch_from ch = Some raw" by blast
    let ?src = "normalize_key (v_nfc v) raw"
    obtain r h where h: "api_head (v_api v) ?src (m_hub m') = (r, h)" by force
    have o: "K (v_other v (m'\<lparr>m_hub := h\<rparr>))" using 1[OF that h] .
    have "K m1" if "reconcile_key v ?src y (ch_seq ch) (v_other v (m'\<lparr>m_hub := h\<rparr>)) = (x, m1)" for y x m1
      using K_reconcile[OF o, of ?src y "ch_seq ch"] that by simp
    then show ?thesis using raw h o raw_call[OF that h] K_remote_rename[OF o]
      by (auto simp: follow_rename_def Let_def split: sum.split prod.split)
  qed (use that in \<open>auto simp: follow_rename_def split: change_op.split option.split\<close>)
  let ?key = "normalize_key (v_nfc v) (ch_key ch)"
  obtain r h where h: "api_head (v_api v) ?key (m_hub m) = (r, h)" by force
  let ?m1 = "v_other v (m\<lparr>m_hub := h\<rparr>)"
  have m1: "K ?m1" using 1[OF assms h] .
  show ?thesis
  proof (cases r)
    case (Inr st)
    obtain f m2 where f: "follow_rename v ch ?key (m_epoch m) st ?m1 = (f, m2)" by force
    have "K m2" using 2[OF m1, of ?key "m_epoch m" st] f by simp
    then show ?thesis using assms m1 h Inr f
      by (cases f) (auto simp: apply_change_def Let_def split: bool.split)
  qed (use assms h raw_call[OF assms h] in \<open>simp add: apply_change_def Let_def\<close>)
qed

lemma K_apply_page: "K m \<Longrightarrow> K (snd (apply_page v chs lst m))"
proof (induction chs arbitrary: lst m)
  case (Cons ch chs)
  obtain d m1 where d: "drain_jobs v 16 m = (d, m1)" by force
  have m1: "K m1" using K_drain[OF Cons.prems, of 16] d by simp
  obtain x m2 where x: "apply_change v ch m1 = (x, m2)" by force
  have m2: "K m2" using K_apply_change[OF m1, of ch] x by simp
  show ?case using m1 m2 Cons.IH[OF m2] d x by (auto split: sum.split)
qed simp

lemma K_catch_up_loop: "K m \<Longrightarrow> catch_up_loop v n since m = Some (r, m') \<Longrightarrow> K m'"
proof (induction n arbitrary: since m)
  case (Suc n)
  obtain p h where p: "api_changes (v_api v) since CHANGES_PAGE (m_hub m) = (p, h)" by force
  have h: "K (m\<lparr>m_hub := h\<rparr>)" using hub_call(4)[OF Suc.prems(1) p] .
  show ?case
  proof (cases p)
    case (Inl e)
    then show ?thesis using Suc.prems p h K_rebuild[OF h] by (auto split: hub_error.splits)
  next
    case (Inr pg)
    let ?m = "upd_store (\<lambda>s. set_number s HEAD_KEY (cs_head pg)) (m\<lparr>m_hub := h\<rparr>)"
    have m0: "K ?m" using h by (simp add: K_def)
    obtain q m1 where q: "apply_page v (cs_changes pg) since ?m = (q, m1)" by force
    have m1: "K m1" using K_apply_page[OF m0, of "cs_changes pg" since] q by simp
    have c: "K (upd_store (\<lambda>s. set_cursor s x) m1)" for x using m1 by (simp add: K_def)
    show ?thesis using Suc.prems(2) p Inr q m1 c K_rebuild[OF m1] Suc.IH[OF c]
      by (auto simp: Let_def split: sum.splits option.splits if_splits)
  qed
qed simp

definition keepsK :: "((hub_error + 'x) \<times> 'h mirror) option \<Rightarrow> bool" where
  "keepsK r \<longleftrightarrow> (\<forall>x m. r = Some (x, m) \<longrightarrow> K m)"

lemma keepsK_and_then: "keepsK r \<Longrightarrow> (\<And>x m. K m \<Longrightarrow> keepsK (f x m)) \<Longrightarrow> keepsK (and_then r f)"
  by (auto simp: keepsK_def and_then_def split: option.splits sum.splits)

lemma keepsK_Some: "keepsK (Some z) \<longleftrightarrow> K (snd z)"
  by (cases z) (simp add: keepsK_def)

lemma keepsK_rebuild: "K m \<Longrightarrow> keepsK (rebuild_from_listing v n m)"
  using K_rebuild by (simp add: keepsK_def)

lemma keepsK_catch_up: "K m \<Longrightarrow> keepsK (catch_up v n m)"
  using K_catch_up_loop by (simp add: keepsK_def catch_up_def)

lemma keepsK_full: "keepsK r \<Longrightarrow> keepsK (map_option (\<lambda>(r, m). (r, if r = Inr () then m\<lparr>m_last_full := True\<rparr> else m)) r)"
  by (auto simp: keepsK_def K_def)

lemmas keepsK_listing = keepsK_rebuild keepsK_catch_up keepsK_full[OF keepsK_rebuild]

lemma K_cycle_inner: "K m \<Longrightarrow> keepsK (cycle_inner v n full m)"
proof -
  have rec: "K m \<Longrightarrow> K (snd (recover_directory_moves v m))" for m
    by (simp add: recover_directory_moves_def K_recover_loop)
  have rj: "K m \<Longrightarrow> K (recover_jobs v m)" for m by (simp add: K_def)
  have dj: "K m \<Longrightarrow> K (snd (drain_jobs v 64 (recover_jobs v m)))" for m by (intro K_drain rj)
  have rd: "K m \<Longrightarrow> K (snd (recheck_deferred v m))" for m
    unfolding recheck_deferred_def by (intro K_recheck_loop) (simp add: K_def)
  have sc: "K m \<Longrightarrow> K (snd (scan_local v m))" for m by (auto simp: scan_local_def)
  have up: "K m \<Longrightarrow> K (upd_store f m)" for m f by (simp add: K_def)
  show "K m \<Longrightarrow> ?thesis"
    unfolding cycle_inner_def Let_def
    by (auto simp: keepsK_Some intro!: keepsK_and_then keepsK_listing K_rules K_events rec dj rd sc up split: option.split)
qed

lemma K_housekeeping [intro]: "K m \<Longrightarrow> K (housekeeping v m)"
proof -
  have t: "K m \<Longrightarrow> K (foldl (expire_trash v) m xs)" for xs m
    by (induction xs arbitrary: m) (auto simp: expire_trash_def prot K_def split: prod.split)
  have s: "K m \<Longrightarrow> K (foldl (expire_snapshot v R) m xs)" for R xs m
    by (induction xs arbitrary: m) (auto simp: expire_snapshot_def prot K_def split: prod.split)
  show "K m \<Longrightarrow> ?thesis" by (simp add: housekeeping_def Let_def t s)
qed

lemma K_cycle:
  assumes "K m" "cycle v n full m = Some m'"
  shows "K m'"
proof -
  have "keepsK (cycle_inner v n full (set_state Syncing (m\<lparr>m_protected_jobs := {}\<rparr>)))"
    by (rule K_cycle_inner) (use assms(1) in \<open>simp add: K_def\<close>)
  moreover have "K (cycle_settled v r m1)" if "K m1" for r m1
    using that K_housekeeping[of "set_state st (set_error er m1)" for st er]
    by (auto simp: cycle_settled_def Let_def K_def split: sum.split hub_error.split)
  ultimately show ?thesis using assms
    by (auto simp: cycle_def Let_def keepsK_def K_def split: if_splits option.splits)
qed

end

section \<open>The promise, down to the wire\<close>

text \<open>A request that cannot take anything away from the hub: a read, the creation of a
  directory, or an upload that the hub refuses unless the name is free or holds the very
  bytes that are uploaded.\<close>

definition harmless :: "client \<Rightarrow> request \<Rightarrow> bool" where
  "harmless c q \<longleftrightarrow> rq_method q = ''GET'' \<or> rq_method q = ''HEAD''
     \<or> rq_method q = ''POST'' \<and> rq_url q = home_url c ''mkdir''
     \<or> rq_method q = ''PUT'' \<and> (map_of (rq_headers q) ''if-none-match'' = Some ''*''
         \<or> (\<exists>s. map_of (rq_headers q) ''if-match'' = Some ([CHR 0x22] @ s @ [CHR 0x22])
                \<and> map_of (rq_headers q) ''x-canvas-sha256'' = Some s))"

lemma put_conflict_headers_sha:
  "map_of (case po_conflict_of po of None \<Rightarrow> []
     | Some k \<Rightarrow> [(''x-canvas-conflict-of'', k), (''x-canvas-device-name'', n)]
         @ (case po_conflict_mode po of
              Some Prompt \<Rightarrow> [(''x-canvas-conflict-mode'', ''inbox'')]
            | Some RenameCopy \<Rightarrow> [(''x-canvas-conflict-mode'', ''rename'')]
            | None \<Rightarrow> [])
         @ (case po_base_sha256 po of Some b \<Rightarrow> [(''x-canvas-base-sha256'', b)] | None \<Rightarrow> [])) ''x-canvas-sha256'' = None"
proof (cases "po_conflict_of po")
  case (Some k)
  then show ?thesis
    by (cases "po_conflict_mode po" rule: option.exhaust; cases "the (po_conflict_mode po)")
      (simp_all add: map_of_append map_of_opt)
qed simp

lemma put_headers_sha: "map_of (put_headers c po) ''x-canvas-sha256'' = po_sha256 po"
  unfolding put_headers_def map_of_append map_of_opt map_of_when put_conflict_headers_sha
  by (simp split: option.split)

lemma sent_fields [simp]:
  "rq_method (sent c (rq a u hs b)) = a" "rq_url (sent c (rq a u hs b)) = u"
  "rq_headers (sent c (rq a u hs b)) = (''authorization'', ''Bearer '' @ hc_token c) # hs"
  by (simp_all add: sent_def rq_def)

lemma harmless_put: "additive_put po \<Longrightarrow> harmless c (sent c (rq ''PUT'' u (put_headers c po) b))"
  by (auto simp: harmless_def additive_put_def put_headers_if_match put_headers_if_none put_headers_sha)

lemma harmless_reads [simp]:
  "harmless c (sent c (rq ''GET'' u hs b))" "harmless c (sent c (rq ''HEAD'' u hs b))"
  "harmless c (sent c (rq ''POST'' (home_url c ''mkdir'') hs b))"
  by (simp_all add: harmless_def)

definition all_harmless :: "client \<Rightarrow> request list \<times> 'g \<Rightarrow> bool" where
  "all_harmless c st \<longleftrightarrow> list_all (harmless c) (fst st)"

lemma retries_harmless:
  "harmless c (sent c r) \<Longrightarrow> all_harmless c st \<Longrightarrow> all_harmless c (snd (with_retries c (logged net) r st))"
  using with_retries_log[of c net r "fst st" "snd st"] by (auto simp: all_harmless_def list_all_iff)

lemma call_harmless:
  "harmless c (sent c r) \<Longrightarrow> all_harmless c st \<Longrightarrow> all_harmless c (snd (call_json c (logged net) r st))"
  using retries_harmless[of c r st net] call_json_log[of c net r st] by (simp add: all_harmless_def)

lemma http_hub_additive: "additive_hub (http_hub c (logged net)) (all_harmless c)"
  using call_harmless[of c _ _ net] retries_harmless[of c _ _ net] harmless_put[of _ c]
  by (simp add: additive_hub_def http_hub_def instance_id_def ping_def exclusions_def list_objects_def
      get_changes_def head_object_def get_object_def hub_mkdir_def put_object_def split_def Let_def split: sum.split)

text \<open>Other threads that neither change a file the engine found nor talk to the hub.\<close>

definition bystanders :: "'h env \<Rightarrow> bool" where
  "bystanders v \<longleftrightarrow> (\<forall>m. spares (m_fs m) (m_fs (v_other v m)) \<and> m_hub (v_other v m) = m_hub m)"

lemma additive_wire:
  "protected (v_opts v) \<Longrightarrow> bystanders v \<Longrightarrow> v_api v = http_hub c (logged net) \<Longrightarrow> additive v f0 (all_harmless c)"
  unfolding additive_def using http_hub_additive spares_trans by (auto simp: bystanders_def) 

interpretation wire: additive
  "undisturbed (v\<lparr>v_opts := (v_opts v)\<lparr>protected := True\<rparr>, v_api := http_hub c (logged net)\<rparr>)" f0 "all_harmless c"
  for v and c and net :: "'g net" and f0
  by (rule additive_wire) (simp_all add: undisturbed_def bystanders_def)


definition demo_client :: client where
  "demo_client = client_new ''https://hub'' ''token'' ''ws'' ''home'' \<lparr>dev_id = ''d'', dev_name = ''n''\<rparr>
     (\<lambda>s. s) (\<lambda>_. None)"

text \<open>A network without a hub, and a protected mirror on it.\<close>

definition deaf_net :: "unit net" where
  "deaf_net r h = (None, h)"

definition guarded_env :: "(request list \<times> unit) env" where
  "guarded_env = (env_at (http_hub demo_client (logged deaf_net)))\<lparr>v_opts := default_options\<lparr>protected := True\<rparr>\<rparr>"


end
