(* ===== verification/Sync_Transfer.thy ===== *)
theory Sync_Transfer
  imports Sync_Demo World_Frames Store_Frames
begin

text \<open>
  What a transfer does to the folder: a download lands only verified bytes and only over
  the file it was started for, a local write is on disk and in the queue when it returns,
  and a remote delete keeps the local bytes in the trash.
\<close>

section \<open>Downloads\<close>


text \<open>A download into a folder that nothing disturbs.\<close>

lemma fetch_undisturbed:
  assumes "check_key key" "file_stamp (m_fs m) key = Inr y" "ensure_parent (m_fs m) key = Inr (m_fs m)"
    and "tget (f_parts (m_fs m)) key = None" "tget (f_nodes (m_fs m)) key \<noteq> None \<longrightarrow> is_file (m_fs m) key"
    and "api_get (v_api v) key None (m_hub m) = (Inr (resp, etag), h0)"
    and "v_sha v (rs_bytes resp) = or_default x etag" "\<And>m. v_other v m = m"
    and land: "\<And>h ps. P (m\<lparr>m_hub := h, m_fs := (m_fs m)\<lparr>f_parts := ps\<rparr>\<rparr>)"
  obtains m' where "fetch v key x mt P m = (Inr \<lparr>h_sha256 = v_sha v (rs_bytes resp), h_size = length (rs_bytes resp),
      h_mtime = ms_of (landed_meta (m_fs m) mt)\<rparr>, m')"
    "tget (f_nodes (m_fs m')) key = Some (File (rs_bytes resp) (landed_meta (m_fs m) mt))"
    "f_trash (m_fs m') = f_trash (m_fs m)" "f_conflicts (m_fs m') = f_conflicts (m_fs m)" "m_store m' = m_store m"
proof -
  let ?data = "rs_bytes resp"
  let ?m = "m\<lparr>m_hub := h0, m_fs := (m_fs m)\<lparr>f_parts := tput key ?data (f_parts (m_fs m))\<rparr>\<rparr>"
  have st: "file_stamp (m_fs ?m) key = file_stamp (m_fs m) key"
    by (simp add: file_stamp_def symlink_metadata_def)
  have notdir: "tget (f_nodes (m_fs m)) key \<noteq> Some (Dir a b)" for a b
    using assms(5) by (auto simp: is_file_def stat_def symlink_metadata_def stat_of_def split: if_splits)
  have meta: "landed_meta ((m_fs m)\<lparr>f_parts := z\<rparr>) mt = landed_meta (m_fs m) mt" for z
    by (simp add: landed_meta_def fresh_meta_def)
  have same: "m\<lparr>m_fs := m_fs m\<rparr> = m" by simp
  have body: "get_body v key None (m_hub m) = (Inr (?data, etag), h0)"
    using assms(6) by (simp add: get_body_def get_whole_def)
  have "fetch v key x mt P m = (Inr \<lparr>h_sha256 = v_sha v ?data, h_size = length ?data,
      h_mtime = ms_of (landed_meta (m_fs m) mt)\<rparr>, (drop_part key ?m)\<lparr>m_fs := (m_fs (drop_part key ?m))
        \<lparr>f_nodes := tput key (File ?data (landed_meta (m_fs m) mt)) (f_nodes (m_fs m)),
         f_next_ino := f_next_ino (m_fs m) + 1\<rparr>\<rparr>)"
    using assms(1-4,7,8) body land[of "tput key ?data (f_parts (m_fs m))" h0] st notdir
    by (auto simp: fetch_def Let_def same meta drop_part_def split: option.split node.split)
  then show ?thesis by (rule that) (simp_all add: drop_part_def)
qed

lemma demo_fetch:
  obtains m' where "fetch demo_env ''b'' ''#y'' 0 (\<lambda>_. True) demo_mirror =
      (Inr \<lparr>h_sha256 = ''#y'', h_size = 1, h_mtime = 0\<rparr>, m')"
proof -
  have k: "parent_key ''b'' = []" by code_simp
  have a: "ancestors ''b'' = []" by (simp add: ancestors.simps k)
  have c: "check_key ''b''" by code_simp
  show ?thesis
  proof (rule fetch_undisturbed[where key = "''b''" and m = demo_mirror and y = None and v = demo_env
        and resp = "\<lparr>rs_status = 200, rs_headers = [], rs_json = None, rs_bytes = ''y''\<rparr>" and etag = "Some ''#y''"
        and ?h0.0 = "m_hub demo_mirror" and x = "''#y''" and P = "\<lambda>_. True" and mt = 0])
    show "api_get (v_api demo_env) ''b'' None (m_hub demo_mirror) =
        (Inr (\<lparr>rs_status = 200, rs_headers = [], rs_json = None, rs_bytes = ''y''\<rparr>, Some ''#y''), m_hub demo_mirror)"
      by (simp add: demo_env_def env_at_def mem_hub_def mem_guard_def demo_mirror_def mirror_at_def)
  qed (use that in \<open>simp_all add: c demo_env_def env_at_def demo_mirror_def mirror_at_def demo_folder_def file_stamp_def
      symlink_metadata_def ensure_parent_def a landed_meta_def fresh_meta_def ms_of_def\<close>)
qed


section \<open>An edit the scan has not seen\<close>

text \<open>The situation of an unnoticed edit: the ledger takes the file for clean, the hub has a
  new version, and the bytes on disk are neither.\<close>

definition unseen_edit :: "'h env \<Rightarrow> string \<Rightarrow> remote_stat \<Rightarrow> string \<Rightarrow> 'h mirror \<Rightarrow> bool" where
  "unseen_edit v key r bytes m \<longleftrightarrow>
     \<not> protected (v_opts v) \<and> key \<noteq> [] \<and> check_key key \<and> \<not> ignored v m key
     \<and> jobs (m_store m) = [] \<and> m_open_writes m = {} \<and> trashed (m_store m) key = None
     \<and> (\<exists>e b. entry (m_store m) key = Some e \<and> e_state e = Clean \<and> base (m_store m) key = Some b
          \<and> b_sha256 b = e_sha256 e \<and> r_sha256 r \<noteq> e_sha256 e \<and> v_sha v bytes \<noteq> e_sha256 e)
     \<and> (\<exists>fm. symlink_metadata (m_fs m) key = Inr (File bytes fm))
     \<and> ensure_parent (m_fs m) key = Inr (m_fs m) \<and> tget (f_parts (m_fs m)) key = None"

text \<open>
  C16: the engine compares a download with the file it found when it started the download,
  never with what the ledger recorded: bytes that were changed outside the mount and not yet
  noticed by a scan are overwritten by a newer hub version, and neither the trash nor the
  conflict snapshots keep them.
\<close>
theorem pull_overwrites_unseen_edit:
  assumes "unseen_edit v key r bytes m" "\<And>m. v_other v m = m"
    and "api_get (v_api v) key None (m_hub m) = (Inr (resp, Some (r_sha256 r)), h0)"
    and "v_sha v (rs_bytes resp) = r_sha256 r"
  shows "\<exists>m' fm. reconcile_key v key (Some r) seq m = (Inr (), m')
    \<and> tget (f_nodes (m_fs m')) key = Some (File (rs_bytes resp) fm)
    \<and> f_trash (m_fs m') = f_trash (m_fs m) \<and> f_conflicts (m_fs m') = f_conflicts (m_fs m)"
proof -
  obtain e b fm where u: "\<not> protected (v_opts v)" "key \<noteq> []" "check_key key" "\<not> ignored v m key"
      "jobs (m_store m) = []" "m_open_writes m = {}" "trashed (m_store m) key = None"
      "entry (m_store m) key = Some e" "e_state e = Clean" "base (m_store m) key = Some b"
      "b_sha256 b = e_sha256 e" "r_sha256 r \<noteq> e_sha256 e"
      "symlink_metadata (m_fs m) key = Inr (File bytes fm)"
      "ensure_parent (m_fs m) key = Inr (m_fs m)" "tget (f_parts (m_fs m)) key = None"
    using assms(1) unfolding unseen_edit_def by blast
  let ?P = "pull_may_land v key (m_epoch m) (stat (m_fs m) key) (Some e)"
  have st: "stat ((m_fs m)\<lparr>f_parts := ps\<rparr>) key = stat (m_fs m) key" for ps
    by (simp add: stat_def symlink_metadata_def)
  have land: "?P (m\<lparr>m_hub := h, m_fs := (m_fs m)\<lparr>f_parts := ps\<rparr>\<rparr>)" for h ps
    using u st by (simp add: pull_may_land_def is_open_for_write_def pending_path_move_def)
  obtain y where y: "file_stamp (m_fs m) key = Inr y" using u(13) by (simp add: file_stamp_def)
  have is_f: "tget (f_nodes (m_fs m)) key \<noteq> None \<longrightarrow> is_file (m_fs m) key"
    using u(13) by (simp add: is_file_def stat_def stat_of_def)
  have sha: "v_sha v (rs_bytes resp) = or_default (r_sha256 r) (Some (r_sha256 r))" using assms(4) by simp
  obtain h m1 where f: "fetch v key (r_sha256 r) (r_mtime r) ?P m = (Inr h, m1)"
      "tget (f_nodes (m_fs m1)) key = Some (File (rs_bytes resp) (landed_meta (m_fs m) (r_mtime r)))"
      "f_trash (m_fs m1) = f_trash (m_fs m)" "f_conflicts (m_fs m1) = f_conflicts (m_fs m)" "m_store m1 = m_store m"
    by (rule fetch_undisturbed[where P = ?P and mt = "r_mtime r", OF u(3) y u(14,15) is_f assms(3) sha assms(2) land])
  have no: "pending_directory_move m key = False" "pending_rename m key = False" "pending_path_move m key = False"
    using u(5) by (simp_all add: pending_directory_move_def pending_rename_def pending_path_move_def)
  have act: "decide (local_digest m key) (map_option b_sha256 (Some b)) (Some (r_sha256 r)) = Pull (r_sha256 r)"
    using u by (auto simp: local_digest_def live_entry_def decide_def)
  have "reconcile_key v key (Some r) seq m = (Inr (), pull_landed v key r seq h m1)"
    using u no act f(1) assms(2)
    by (simp add: reconcile_key_def perform_action_def pull_key_def is_open_for_write_def Let_def)
  moreover have "m_fs (pull_landed v key r seq h m1) = m_fs m1"
  proof -
    let ?m = "record_dirs_for key (upd_store (\<lambda>s. put_base (put_entry s key (entry_of_hash h Clean)) key
                 \<lparr>b_sha256 = h_sha256 h, b_size = h_size h, b_mtime = r_mtime r, b_remote_seq = seq\<rparr>) m1)"
    have "trashed (record_dirs ps s) key = trashed s key" for ps s
      by (induction ps arbitrary: s) (simp_all add: frames)
    then have "trashed (m_store ?m) key = None" using f(5) u(7) by (simp add: record_dirs_for_def upd_store_def frames)
    then show ?thesis by (simp add: pull_landed_def Let_def clear_obsolete_trash_def)
  qed
  ultimately show ?thesis using f by simp
qed

definition demo_edited :: "mem mirror" where
  "demo_edited = (mirror_at \<lparr>mm_objects = [(''a'', ''y'', 0)], mm_dirs = [], mm_log = [], mm_down = False\<rparr>)
     \<lparr>m_store := put_base (put_entry empty_store ''a''
         \<lparr>e_sha256 = ''#w'', e_size = 1, e_mtime = 0, e_state = Clean\<rparr>)
         ''a'' \<lparr>b_sha256 = ''#w'', b_size = 1, b_mtime = 0, b_remote_seq = 1\<rparr>\<rparr>"

lemma not_ignored_plain:
  "patterns (m_ignore m) = [] \<Longrightarrow> \<not> ignored v m ''a''"
  by (simp add: ignored_def is_ignored_def starts_with_def)

lemma pull_overwrites_unseen_edit_witness:
  "\<exists>m' fm. reconcile_key demo_env ''a'' (Some \<lparr>r_sha256 = ''#y'', r_size = 1, r_mtime = 0\<rparr>) 5 demo_edited = (Inr (), m')
    \<and> tget (f_nodes (m_fs demo_edited)) ''a'' = Some (File ''x'' demo_meta)
    \<and> tget (f_nodes (m_fs m')) ''a'' = Some (File ''y'' fm) \<and> f_trash (m_fs m') = [] \<and> f_conflicts (m_fs m') = []"
proof -
  let ?r = "\<lparr>r_sha256 = ''#y'', r_size = 1, r_mtime = 0\<rparr>"
  let ?resp = "\<lparr>rs_status = 200, rs_headers = [], rs_json = None, rs_bytes = ''y''\<rparr>"
  have fs: "m_fs demo_edited = demo_folder" "tget (f_nodes demo_folder) ''a'' = Some (File ''x'' demo_meta)"
    by (simp_all add: demo_edited_def mirror_at_def demo_folder_def)
  have k: "parent_key ''a'' = []" "check_key ''a''" by code_simp+
  have anc: "ancestors ''a'' = []" by (simp add: ancestors.simps k)
  have ign: "\<not> ignored demo_env demo_edited ''a''"
    by (rule not_ignored_plain) (simp add: demo_edited_def mirror_at_def ignore_new_def)
  have st: "entry (m_store demo_edited) ''a'' = Some \<lparr>e_sha256 = ''#w'', e_size = 1, e_mtime = 0, e_state = Clean\<rparr>"
    "base (m_store demo_edited) ''a'' = Some \<lparr>b_sha256 = ''#w'', b_size = 1, b_mtime = 0, b_remote_seq = 1\<rparr>"
    "jobs (m_store demo_edited) = []" "trashed (m_store demo_edited) ''a'' = None" "m_open_writes demo_edited = {}"
    by (simp_all add: demo_edited_def mirror_at_def store_get) (simp_all add: jobs_def trashed_def empty_store_def)
  have u: "unseen_edit demo_env ''a'' ?r ''x'' demo_edited"
    unfolding unseen_edit_def fs st using ign fs(2)
    by (simp add: k anc demo_env_def env_at_def default_options_def symlink_metadata_def ensure_parent_def demo_folder_def)
  have get: "api_get (v_api demo_env) ''a'' None (m_hub demo_edited) = (Inr (?resp, Some (r_sha256 ?r)), m_hub demo_edited)"
    by (simp add: demo_env_def env_at_def mem_hub_def mem_guard_def demo_edited_def mirror_at_def)
  have "f_trash demo_folder = []" "f_conflicts demo_folder = []" by (simp_all add: demo_folder_def)
  then show ?thesis
    using pull_overwrites_unseen_edit[OF u _ get] fs by (fastforce simp: demo_env_def env_at_def)
qed

section \<open>Local writes\<close>

lemma create_dir_other: "create_dir (Inr f) d = Inr g \<Longrightarrow> k \<noteq> d \<Longrightarrow> tget (f_nodes g) k = tget (f_nodes f) k"
  by (auto simp: create_dir_def split: option.splits node.splits)

text \<open>C34: 
  A local write that succeeds has put exactly these bytes at its key; the ledger has
  them as a dirty entry with their digest, and unless the key is excluded, a push of the
  key is the last job of the queue and the only one with its identity. A write that fails
  changes neither ledger nor queue.
\<close>
theorem commit_write_durable:
  assumes "store_ok (m_store m)" "commit_write v key bytes m = (r, m')"
  shows "case r of
      Inl _ \<Rightarrow> m' = m
    | Inr e \<Rightarrow> (\<exists>fm. tget (f_nodes (m_fs m')) key = Some (File bytes fm)
          \<and> e = \<lparr>e_sha256 = v_sha v bytes, e_size = length bytes, e_mtime = ms_of fm, e_state = Dirty\<rparr>)
        \<and> entry (m_store m') key = Some e
        \<and> kinds (m_store m') = (if ignored v m key then kinds (m_store m)
            else filter (\<lambda>k. dedupe_id k \<noteq> dedupe_id (JPush key)) (kinds (m_store m)) @ [JPush key])
        \<and> (\<exists>why. tget (m_skipped m') key = (if ignored v m key then Some why else None))"
proof (cases r)
  case (Inl x)
  then show ?thesis using assms(2) by (auto simp: commit_write_def Let_def split: sum.splits)
next
  case (Inr e)
  obtain f h where w: "write_atomic (v_sha v) (m_fs m) key bytes = Inr (f, h)"
    using assms(2) Inr by (auto simp: commit_write_def split: sum.splits)
  obtain fm where fm: "tget (f_nodes f) key = Some (File bytes fm)"
      "h = \<lparr>h_sha256 = v_sha v bytes, h_size = length bytes, h_mtime = ms_of fm\<rparr>"
    using w by (auto simp: write_atomic_def Let_def split: if_splits sum.splits option.splits node.splits)
  define e0 where "e0 = \<lparr>e_sha256 = h_sha256 h, e_size = h_size h, e_mtime = h_mtime h, e_state = Dirty\<rparr>"
  define m1 where "m1 = clear_obsolete_trash v key (record_dirs_for key (upd_store (\<lambda>s. put_entry s key e0) (m\<lparr>m_fs := f\<rparr>)))"
  have em: "e = e0" "m' = wake (queue_push v key m1)"
    using assms(2) Inr w by (auto simp: commit_write_def Let_def e0_def m1_def)
  have dirs: "entry (record_dirs ps s) k = entry s k" "jobs (record_dirs ps s) = jobs s" for ps s k
    by (induction ps arbitrary: s) (simp_all add: frames)
  have nodes: "f_nodes (m_fs m1) = f_nodes f"
    by (simp add: m1_def clear_obsolete_trash_def trash_remove_def split: option.split node.split)
  have st: "entry (m_store m1) key = Some e0" "kinds (m_store m1) = kinds (m_store m)"
    by (simp_all add: m1_def clear_obsolete_trash_def block_action_def Let_def record_dirs_for_def upd_store_def
        frames store_get dirs kinds_def)
  have ign: "ignored v m1 key = ignored v m key"
    by (simp add: m1_def ignored_def clear_obsolete_trash_def block_action_def Let_def record_dirs_for_def upd_store_def)
  have dirs_ok: "store_ok s \<Longrightarrow> store_ok (record_dirs ps s)" for ps s
    by (induction ps arbitrary: s) simp_all
  have ok: "store_ok (m_store m1)"
    using assms(1) by (simp add: m1_def clear_obsolete_trash_def block_action_def Let_def record_dirs_for_def
        upd_store_def dirs_ok)
  have q: "kinds (m_store (queue_push v key m1)) = (if ignored v m1 key then kinds (m_store m1)
      else filter (\<lambda>k. dedupe_id k \<noteq> dedupe_id (JPush key)) (kinds (m_store m1)) @ [JPush key])"
    using queue.enq_queue[OF ok]
    by (simp add: queue_push_def skip_key_def unskip_key_def enq_def enqueue_def upd_store_def)
  have "entry (m_store (queue_push v key m1)) key = Some e0"
    "f_nodes (m_fs (queue_push v key m1)) = f_nodes f"
    "\<exists>why. tget (m_skipped (queue_push v key m1)) key = (if ignored v m1 key then Some why else None)"
    using st nodes by (auto simp: queue_push_def skip_key_def unskip_key_def enq_def enqueue_def upd_store_def frames)
  with q st(2) ign em fm Inr show ?thesis by (simp add: wake_def e0_def)
qed

lemma commit_write_durable_witness:
  "\<exists>e m' fm. commit_write demo_env ''a'' ''new'' demo_mirror = (Inr e, m')
    \<and> tget (f_nodes (m_fs m')) ''a'' = Some (File ''new'' fm) \<and> e_sha256 e = ''#new''
    \<and> kinds (m_store m') = [JPush ''a'']"
proof -
  have k: "parent_key ''a'' = []" "check_key ''a''" by code_simp+
  have anc: "ancestors ''a'' = []" by (simp add: ancestors.simps k)
  have ign: "\<not> ignored demo_env demo_mirror ''a''"
    by (rule not_ignored_plain) (simp add: demo_mirror_def mirror_at_def ignore_new_def)
  have ok: "store_ok (m_store demo_mirror)" and none: "kinds (m_store demo_mirror) = []"
    by (simp_all add: demo_mirror_def mirror_at_def store_ok_def empty_store_def jobs_ok_def kinds_def jobs_def)
  obtain f h where w: "write_atomic (v_sha demo_env) (m_fs demo_mirror) ''a'' ''new'' = Inr (f, h)"
    by (simp add: write_atomic_def Let_def k anc demo_mirror_def mirror_at_def demo_folder_def ensure_parent_def)
  obtain e m' where c: "commit_write demo_env ''a'' ''new'' demo_mirror = (Inr e, m')"
    using w by (auto simp: commit_write_def Let_def)
  have "v_sha demo_env x = CHR ''#'' # x" for x by (simp add: demo_env_def env_at_def)
  then show ?thesis
    using commit_write_durable[OF ok c] c ign none by auto
qed

end
