(* ===== verification/Blobs.thy ===== *)
theory Blobs
  imports Prelude "HOL-Library.Multiset"
begin

text \<open>
  The blob cache of the mount (\<^verbatim>\<open>src/src/blobs.rs\<close>): a cache bounded by a byte budget that
  drops the least recently used blob, and the reads that wait for a download. Two reads of
  one blob share a download. The download itself is a parameter: its answer is an argument
  of the step that handles it.
\<close>

section \<open>The cache\<close>

record lru =
  lr_map :: "(string, string) table"
  lr_order :: "string list"
  lr_used :: nat
  lr_budget :: nat

definition lru_get :: "lru \<Rightarrow> string \<Rightarrow> string option \<times> lru" where
  "lru_get l key =
     (case tget (lr_map l) key of
        None \<Rightarrow> (None, l)
      | Some b \<Rightarrow>
          (Some b, if key \<in> set (lr_order l) then l\<lparr>lr_order := remove1 key (lr_order l) @ [key]\<rparr> else l))"

function lru_evict :: "lru \<Rightarrow> lru" where
  "lru_evict l =
     (if lr_used l > lr_budget l \<and> length (lr_order l) > 1 then
        (let old = hd (lr_order l);
             l1 = l\<lparr>lr_order := tl (lr_order l)\<rparr>
         in lru_evict (case tget (lr_map l) old of
              Some b \<Rightarrow> l1\<lparr>lr_map := tdel old (lr_map l), lr_used := lr_used l - length b\<rparr>
            | None \<Rightarrow> l1))
      else l)"
  by pat_completeness auto
termination
  by (relation "measure (\<lambda>l. length (lr_order l))") (auto split: option.split)

declare lru_evict.simps [simp del]

definition lru_put :: "lru \<Rightarrow> string \<Rightarrow> string \<Rightarrow> lru" where
  "lru_put l key blob =
     (if tget (lr_map l) key \<noteq> None then l
      else lru_evict (l\<lparr>lr_used := lr_used l + length blob, lr_map := tput key blob (lr_map l),
                        lr_order := lr_order l @ [key]\<rparr>))"

definition lru_new :: "nat \<Rightarrow> lru" where
  "lru_new budget = \<lparr>lr_map = [], lr_order = [], lr_used = 0, lr_budget = max budget (8 * 1024 * 1024)\<rparr>"

section \<open>The specification\<close>

text \<open>What the cache promises: a list of blobs, oldest use first.\<close>

type_synonym cached = "(string \<times> string) list"

definition weight :: "cached \<Rightarrow> nat" where
  "weight c = sum_list (map (\<lambda>(_, b). length b) c)"

fun shrink :: "nat \<Rightarrow> cached \<Rightarrow> cached" where
  "shrink budget (x # y # c) = (if weight (x # y # c) > budget then shrink budget (y # c) else x # y # c)"
| "shrink budget c = c"

definition touch :: "cached \<Rightarrow> string \<Rightarrow> cached" where
  "touch c k = filter (\<lambda>x. fst x \<noteq> k) c @ filter (\<lambda>x. fst x = k) c"

definition lru_abs :: "lru \<Rightarrow> cached" where
  "lru_abs l = map (\<lambda>k. (k, the (tget (lr_map l) k))) (lr_order l)"

definition lru_ok :: "lru \<Rightarrow> bool" where
  "lru_ok l \<longleftrightarrow> distinct (lr_order l) \<and> (\<forall>k. k \<in> set (lr_order l) \<longleftrightarrow> tget (lr_map l) k \<noteq> None)
     \<and> lr_used l = weight (lru_abs l)"

lemma lru_abs_get: "lru_ok l \<Longrightarrow> map_of (lru_abs l) k = tget (lr_map l) k"
proof -
  assume ok: "lru_ok l"
  have "map_of (map (\<lambda>k. (k, the (tget (lr_map l) k))) ks) k
      = (if k \<in> set ks then Some (the (tget (lr_map l) k)) else None)" for ks
    by (induction ks) auto
  then show ?thesis using ok by (auto simp: lru_abs_def lru_ok_def)
qed

lemma weight_Nil [simp]: "weight [] = 0"
  by (simp add: weight_def)

lemma weight_Cons [simp]: "weight ((k, b) # c) = length b + weight c"
  by (simp add: weight_def)

lemma weight_append [simp]: "weight (a @ b) = weight a + weight b"
  by (simp add: weight_def)

lemma shrink_ok: "weight (shrink n c) \<le> n \<or> length (shrink n c) \<le> 1"
  by (induction n c rule: shrink.induct) auto

lemma shrink_suffix: "\<exists>d. c = d @ shrink n c"
proof (induction n c rule: shrink.induct)
  case (1 n x y c)
  show ?case
  proof (cases "weight (x # y # c) > n")
    case True
    then obtain d where "y # c = d @ shrink n (y # c)" using 1 by auto
    then have "x # y # c = (x # d) @ shrink n (x # y # c)" using True by simp
    then show ?thesis by blast
  qed auto
qed auto

lemma shrink_last: "c \<noteq> [] \<Longrightarrow> shrink n c \<noteq> [] \<and> last (shrink n c) = last c"
  by (induction n c rule: shrink.induct) auto

text \<open>One eviction removes the oldest blob.\<close>

lemma evict_refines:
  assumes "lru_ok l"
  shows "lru_ok (lru_evict l) \<and> lru_abs (lru_evict l) = shrink (lr_budget l) (lru_abs l)
    \<and> lr_budget (lru_evict l) = lr_budget l"
  using assms
proof (induction l rule: lru_evict.induct)
  case (1 l)
  show ?case
  proof (cases "lr_used l > lr_budget l \<and> length (lr_order l) > 1")
    case False
    then have "shrink (lr_budget l) (lru_abs l) = lru_abs l"
      using "1.prems" by (cases "(lr_budget l, lru_abs l)" rule: shrink.cases) (auto simp: lru_ok_def lru_abs_def)
    moreover have "lru_evict l = l" by (subst lru_evict.simps) (rule if_not_P[OF False])
    ultimately show ?thesis using "1.prems" by simp
  next
    case True
    obtain k j r where o: "lr_order l = k # j # r"
      using True by (cases "lr_order l"; cases "tl (lr_order l)") auto
    obtain b where b: "tget (lr_map l) k = Some b" using "1.prems" o by (auto simp: lru_ok_def)
    let ?l = "l\<lparr>lr_order := j # r, lr_map := tdel k (lr_map l), lr_used := lr_used l - length b\<rparr>"
    have eq: "lru_evict l = lru_evict ?l" using True o b by (subst lru_evict.simps) simp
    have k: "k \<notin> set (j # r)" using "1.prems" o by (auto simp: lru_ok_def)
    then have "map (\<lambda>i. (i, the (tget (tdel k (lr_map l)) i))) (j # r)
        = map (\<lambda>i. (i, the (tget (lr_map l) i))) (j # r)"
      by (intro map_cong) auto
    then have ab: "lru_abs l = (k, b) # lru_abs ?l" using o b by (simp add: lru_abs_def)
    then have ok: "lru_ok ?l" using "1.prems" o k by (auto simp: lru_ok_def)
    have "weight (lru_abs l) > lr_budget l" using True "1.prems" by (simp add: lru_ok_def)
    then have "shrink (lr_budget l) (lru_abs l) = shrink (lr_budget l) (lru_abs ?l)"
      using ab by (simp add: lru_abs_def)
    moreover have "lru_ok (lru_evict ?l) \<and> lru_abs (lru_evict ?l) = shrink (lr_budget ?l) (lru_abs ?l)
        \<and> lr_budget (lru_evict ?l) = lr_budget ?l"
      using "1.IH"[OF True refl refl] ok o b by (simp add: Let_def)
    ultimately show ?thesis using eq by simp
  qed
qed

lemma put_refines:
  assumes "lru_ok l"
  shows "lru_ok (lru_put l k b) \<and> lru_abs (lru_put l k b) =
    (if map_of (lru_abs l) k \<noteq> None then lru_abs l else shrink (lr_budget l) (lru_abs l @ [(k, b)]))"
proof (cases "tget (lr_map l) k")
  case None
  let ?l = "l\<lparr>lr_used := lr_used l + length b, lr_map := tput k b (lr_map l), lr_order := lr_order l @ [k]\<rparr>"
  have k: "k \<notin> set (lr_order l)" using assms None by (auto simp: lru_ok_def)
  then have ab: "lru_abs ?l = lru_abs l @ [(k, b)]" by (auto simp: lru_abs_def)
  then have "lru_ok ?l" using assms k by (auto simp: lru_ok_def)
  then show ?thesis using evict_refines[of ?l] None ab lru_abs_get[OF assms] by (simp add: lru_put_def)
next
  case (Some x)
  then show ?thesis using assms lru_abs_get[OF assms] by (simp add: lru_put_def)
qed

lemma touch_absent: "k \<notin> fst ` set c \<Longrightarrow> touch c k = c"
proof -
  assume k: "k \<notin> fst ` set c"
  then have "filter (\<lambda>x. fst x \<noteq> k) c = c" by (auto simp: filter_id_conv)
  moreover have "filter (\<lambda>x. fst x = k) c = []" using k by (auto simp: filter_empty_conv)
  ultimately show ?thesis by (simp add: touch_def)
qed

lemma weight_touch [simp]: "weight (touch c k) = weight c"
proof (induction c)
  case (Cons x c)
  then show ?case by (cases x) (auto simp: touch_def)
qed (simp add: touch_def)

lemma filter_single: "distinct ks \<Longrightarrow> k \<in> set ks \<Longrightarrow> filter (\<lambda>i. i = k) ks = [k]"
proof (induction ks)
  case (Cons j ks)
  then show ?case by (cases "k \<in> set ks") (auto simp: filter_empty_conv)
qed simp

lemma get_refines:
  assumes "lru_ok l"
  shows "fst (lru_get l k) = map_of (lru_abs l) k \<and> lru_ok (snd (lru_get l k))
    \<and> lru_abs (snd (lru_get l k)) = touch (lru_abs l) k"
proof (cases "tget (lr_map l) k")
  case None
  then have "k \<notin> set (lr_order l)" using assms by (auto simp: lru_ok_def)
  then show ?thesis using None assms lru_abs_get[OF assms] touch_absent[of k "lru_abs l"]
    by (auto simp: lru_get_def lru_abs_def image_iff)
next
  case (Some b)
  have k: "k \<in> set (lr_order l)" "distinct (lr_order l)" using assms Some by (auto simp: lru_ok_def)
  let ?l = "l\<lparr>lr_order := remove1 k (lr_order l) @ [k]\<rparr>"
  have "remove1 k (lr_order l) = filter (\<lambda>i. i \<noteq> k) (lr_order l)"
    using k by (simp add: distinct_remove1_removeAll removeAll_filter_not_eq neq_commute)
  then have ab: "lru_abs ?l = touch (lru_abs l) k"
    using filter_single[OF k(2,1)] by (simp add: lru_abs_def touch_def filter_map o_def)
  have "lr_used ?l = weight (lru_abs ?l)" unfolding ab using assms by (simp add: lru_ok_def)
  then have "lru_ok ?l" using assms k by (auto simp: lru_ok_def)
  then show ?thesis using Some k ab lru_abs_get[OF assms] by (simp add: lru_get_def)
qed

section \<open>The cache refines its specification\<close>

datatype cache_op = CGet string | CPut string string

fun lru_step :: "lru \<Rightarrow> cache_op \<Rightarrow> lru" where
  "lru_step l (CGet k) = snd (lru_get l k)"
| "lru_step l (CPut k b) = lru_put l k b"

fun cached_step :: "nat \<Rightarrow> cached \<Rightarrow> cache_op \<Rightarrow> cached" where
  "cached_step n c (CGet k) = touch c k"
| "cached_step n c (CPut k b) = (if map_of c k \<noteq> None then c else shrink n (c @ [(k, b)]))"

lemma lru_new_ok: "lru_ok (lru_new n) \<and> lru_abs (lru_new n) = []"
  by (simp add: lru_ok_def lru_new_def lru_abs_def)

lemma step_budget [simp]: "lr_budget (lru_step l p) = lr_budget l"
proof -
  have "lr_budget (lru_evict l) = lr_budget l" for l
    by (induction l rule: lru_evict.induct) (subst lru_evict.simps, auto simp: Let_def split: option.split)
  then show ?thesis by (cases p) (auto simp: lru_get_def lru_put_def split: option.split)
qed

lemma lru_run:
  "lru_ok l \<Longrightarrow> lru_ok (foldl lru_step l ps)
    \<and> lru_abs (foldl lru_step l ps) = foldl (cached_step (lr_budget l)) (lru_abs l) ps"
proof (induction ps arbitrary: l)
  case (Cons p ps)
  have "lru_ok (lru_step l p) \<and> lru_abs (lru_step l p) = cached_step (lr_budget l) (lru_abs l) p"
    using get_refines[OF Cons.prems] put_refines[OF Cons.prems] by (cases p) auto
  then show ?case using Cons.IH[of "lru_step l p"] by simp
qed simp

lemma cached_bound:
  "weight c \<le> n \<or> length c \<le> 1 \<Longrightarrow> weight (cached_step n c p) \<le> n \<or> length (cached_step n c p) \<le> 1"
proof (cases p)
  case (CGet k)
  have "length (touch c k) = length c" by (induction c) (auto simp: touch_def)
  then show "weight c \<le> n \<or> length c \<le> 1 \<Longrightarrow> ?thesis" using CGet by auto
next
  case (CPut k b)
  then show "weight c \<le> n \<or> length c \<le> 1 \<Longrightarrow> ?thesis"
    using shrink_ok[of n "c @ [(k, b)]"] by (cases "map_of c k") auto
qed

lemma cached_run_bound:
  "weight c \<le> n \<or> length c \<le> 1 \<Longrightarrow>
    weight (foldl (cached_step n) c ps) \<le> n \<or> length (foldl (cached_step n) c ps) \<le> 1"
proof (induction ps arbitrary: c)
  case (Cons p ps)
  then show ?case using Cons.IH[OF cached_bound[OF Cons.prems]] by simp
qed simp

text \<open>
  C18: the blob cache is a list of blobs in order of use. After any sequence of reads and
  insertions, a lookup answers as the list does, the bytes counted are those held, and the
  budget (never less than 8 MiB) holds unless a single blob is larger.
\<close>
theorem cache_refines_recency_list:
  "let l = foldl lru_step (lru_new n) ps; c = foldl (cached_step (max n 8388608)) [] ps
   in fst (lru_get l k) = map_of c k \<and> lru_abs l = c \<and> lr_used l = weight c
      \<and> (weight c \<le> max n 8388608 \<or> length c = 1)"
proof -
  let ?l = "foldl lru_step (lru_new n) ps"
  let ?c = "foldl (cached_step (max n 8388608)) [] ps"
  have b: "lr_budget (lru_new n) = max n 8388608" by (simp add: lru_new_def)
  have l: "lru_ok ?l" "lru_abs ?l = ?c"
    using lru_run[of "lru_new n" ps] lru_new_ok[of n] unfolding b by auto
  have "weight ?c \<le> max n 8388608 \<or> length ?c \<le> 1" by (rule cached_run_bound) simp
  then have "weight ?c \<le> max n 8388608 \<or> length ?c = 1" by (cases ?c) auto
  moreover have "lr_used ?l = weight ?c" using l by (simp add: lru_ok_def)
  moreover have "fst (lru_get ?l k) = map_of ?c k" using get_refines[OF l(1)] l(2) by simp
  ultimately show ?thesis using l(2) by (simp add: Let_def)
qed

section \<open>Reads that wait\<close>

record pending_read =
  p_offset :: int
  p_size :: nat
  p_reply :: nat

record fetch_job =
  fj_key :: string
  fj_workspace :: string
  fj_doc :: nat

definition reply_slice :: "string \<Rightarrow> int \<Rightarrow> nat \<Rightarrow> string" where
  "reply_slice blob offset n =
     (let start = min (nat (max offset 0)) (length blob);
          stop = min (start + n) (length blob)
      in take (stop - start) (drop start blob))"

text \<open>
  The state between the lock regions of \<open>read\<close> and \<open>run_fetch\<close>: reads that missed the
  cache and have not reached the table of downloads, the table, the channel of jobs, the
  downloads under way, and answered downloads whose readers are not served yet. An answer
  of None is an I/O error.
\<close>

record blob_store =
  bs_cache :: lru
  bs_missed :: "(fetch_job \<times> pending_read) list"
  bs_in_flight :: "(string, pending_read list) table"
  bs_jobs :: "fetch_job list"
  bs_fetching :: "fetch_job list"
  bs_deliver :: "(string \<times> pending_read list \<times> string option) list"
  bs_answers :: "(pending_read \<times> string option) list"

definition blob_start :: "nat \<Rightarrow> blob_store" where
  "blob_start budget = \<lparr>bs_cache = lru_new budget, bs_missed = [], bs_in_flight = [], bs_jobs = [],
     bs_fetching = [], bs_deliver = [], bs_answers = []\<rparr>"

text \<open>\<open>read\<close>: the cache, then the table.\<close>

definition read_cache :: "fetch_job \<Rightarrow> pending_read \<Rightarrow> blob_store \<Rightarrow> blob_store" where
  "read_cache j p s =
     (case lru_get (bs_cache s) (fj_key j) of
        (Some blob, c) \<Rightarrow> s\<lparr>bs_cache := c,
            bs_answers := bs_answers s @ [(p, Some (reply_slice blob (p_offset p) (p_size p)))]\<rparr>
      | (None, c) \<Rightarrow> s\<lparr>bs_cache := c, bs_missed := bs_missed s @ [(j, p)]\<rparr>)"

definition read_wait :: "fetch_job \<Rightarrow> pending_read \<Rightarrow> blob_store \<Rightarrow> blob_store" where
  "read_wait j p s =
     (let s = s\<lparr>bs_missed := remove1 (j, p) (bs_missed s)\<rparr>
      in case tget (bs_in_flight s) (fj_key j) of
        Some ps \<Rightarrow> s\<lparr>bs_in_flight := tput (fj_key j) (ps @ [p]) (bs_in_flight s)\<rparr>
      | None \<Rightarrow> s\<lparr>bs_in_flight := tput (fj_key j) [p] (bs_in_flight s), bs_jobs := bs_jobs s @ [j]\<rparr>)"

text \<open>\<open>run_fetch\<close>: a worker takes a job, removes the readers once it has an answer, then
  fills the cache and answers them.\<close>

definition fetch_begin :: "fetch_job \<Rightarrow> blob_store \<Rightarrow> blob_store" where
  "fetch_begin j s = s\<lparr>bs_jobs := remove1 j (bs_jobs s), bs_fetching := bs_fetching s @ [j]\<rparr>"

definition fetch_end :: "fetch_job \<Rightarrow> string option \<Rightarrow> blob_store \<Rightarrow> blob_store" where
  "fetch_end j r s =
     s\<lparr>bs_fetching := remove1 j (bs_fetching s),
       bs_in_flight := tdel (fj_key j) (bs_in_flight s),
       bs_deliver := bs_deliver s @
         [(fj_key j, case tget (bs_in_flight s) (fj_key j) of Some ps \<Rightarrow> ps | None \<Rightarrow> [], r)]\<rparr>"

definition deliver :: "string \<times> pending_read list \<times> string option \<Rightarrow> blob_store \<Rightarrow> blob_store" where
  "deliver d s = (case d of (key, ps, r) \<Rightarrow>
     let s = s\<lparr>bs_deliver := remove1 d (bs_deliver s)\<rparr>
     in case r of
       Some blob \<Rightarrow> s\<lparr>bs_cache := lru_put (bs_cache s) key blob,
           bs_answers := bs_answers s @ map (\<lambda>p. (p, Some (reply_slice blob (p_offset p) (p_size p)))) ps\<rparr>
     | None \<Rightarrow> s\<lparr>bs_answers := bs_answers s @ map (\<lambda>p. (p, None)) ps\<rparr>)"

definition resolve_size :: "string option \<Rightarrow> string \<Rightarrow> lru \<Rightarrow> nat \<times> lru" where
  "resolve_size fetched key c =
     (case lru_get c key of
        (Some blob, c) \<Rightarrow> (length blob, c)
      | (None, c) \<Rightarrow> (case fetched of
          Some bytes \<Rightarrow> (length bytes, lru_put c key bytes)
        | None \<Rightarrow> (0, c)))"

inductive blob_run :: "nat \<Rightarrow> pending_read multiset \<Rightarrow> blob_store \<Rightarrow> bool" for budget where
  started: "blob_run budget {#} (blob_start budget)"
| new_read: "blob_run budget ps s \<Longrightarrow> blob_run budget (add_mset p ps) (read_cache j p s)"
| missed: "blob_run budget ps s \<Longrightarrow> (j, p) \<in> set (bs_missed s) \<Longrightarrow> blob_run budget ps (read_wait j p s)"
| take_job: "blob_run budget ps s \<Longrightarrow> j \<in> set (bs_jobs s) \<Longrightarrow> blob_run budget ps (fetch_begin j s)"
| answered: "blob_run budget ps s \<Longrightarrow> j \<in> set (bs_fetching s) \<Longrightarrow> blob_run budget ps (fetch_end j r s)"
| served: "blob_run budget ps s \<Longrightarrow> d \<in> set (bs_deliver s) \<Longrightarrow> blob_run budget ps (deliver d s)"

definition waiting :: "blob_store \<Rightarrow> pending_read multiset" where
  "waiting s = sum_list (map (\<lambda>(_, ps). mset ps) (bs_in_flight s))"

definition all_reads :: "blob_store \<Rightarrow> pending_read multiset" where
  "all_reads s = mset (map snd (bs_missed s)) + waiting s
     + sum_list (map (\<lambda>(_, ps, _). mset ps) (bs_deliver s)) + mset (map fst (bs_answers s))"

definition downloads :: "blob_store \<Rightarrow> string multiset" where
  "downloads s = mset (map fj_key (bs_jobs s @ bs_fetching s))"

definition blob_inv :: "pending_read multiset \<Rightarrow> blob_store \<Rightarrow> bool" where
  "blob_inv ps s \<longleftrightarrow> tsorted (bs_in_flight s) \<and> all_reads s = ps
     \<and> downloads s = mset (tkeys (bs_in_flight s))"

lemma table_mset:
  assumes "tsorted t" "tget t k = Some v"
  shows "mset t = add_mset (k, v) (mset (tdel k t))"
proof -
  have "filter (\<lambda>(a, _). a = k) t = [(k, v)]"
    using assms
  proof (induction t)
    case (Cons x t)
    obtain a b where x: "x = (a, b)" by (cases x)
    show ?case
    proof (cases "a = k")
      case True
      have "k \<notin> fst ` set t" using Cons.prems(1) True by (auto simp: x tsorted_Cons)
      then have "filter (\<lambda>(a, _). a = k) t = []" by (force simp: filter_empty_conv)
      then show ?thesis using True Cons.prems(2) by (simp add: x)
    next
      case False
      then show ?thesis using Cons by (simp add: x tsorted_Cons)
    qed
  qed simp
  moreover have "mset t = mset (filter (\<lambda>(a, _). a = k) t) + mset (tdel k t)"
    by (induction t) (auto simp: tdel_def)
  ultimately show ?thesis by simp
qed

lemma tput_mset: "mset (tput k v t) = add_mset (k, v) (mset (tdel k t))" if "tsorted t"
  using table_mset[of "tput k v t" k v] that
proof -
  have "tdel k (tput k v t) = tdel k t"
  proof (induction t)
    case (Cons x t)
    then show ?case by (cases x) (auto simp: tdel_def)
  qed (simp add: tdel_def)
  then show ?thesis using table_mset[of "tput k v t" k v] that by simp
qed

lemma tdel_absent: "tget t k = None \<Longrightarrow> tdel k t = t"
  by (auto simp: tdel_def filter_id_conv map_of_eq_None_iff image_iff)

lemma waiting_mset: "waiting s = (\<Sum>(_, ps)\<in>#mset (bs_in_flight s). mset ps)"
  by (simp add: waiting_def flip: sum_mset_sum_list)

lemma blob_inv_read: "blob_inv ps s \<Longrightarrow> blob_inv (add_mset p ps) (read_cache j p s)"
  by (auto simp: blob_inv_def read_cache_def all_reads_def downloads_def waiting_def split: prod.split option.split)

lemma blob_inv_wait:
  assumes "blob_inv ps s" "(j, p) \<in> set (bs_missed s)"
  shows "blob_inv ps (read_wait j p s)"
proof -
  let ?t = "bs_in_flight s"
  have s: "tsorted ?t" "all_reads s = ps" "downloads s = mset (tkeys ?t)" using assms by (auto simp: blob_inv_def)
  have "mset (bs_missed s) = add_mset (j, p) (mset (remove1 (j, p) (bs_missed s)))"
    using assms(2) by simp
  then have m: "image_mset snd (mset (bs_missed s)) = add_mset p (image_mset snd (mset (remove1 (j, p) (bs_missed s))))"
    by (metis image_mset_add_mset snd_conv)
  have put: "mset (tput (fj_key j) qs ?t) = add_mset (fj_key j, qs) (mset (tdel (fj_key j) ?t))" for qs
    using s(1) by (rule tput_mset)
  show ?thesis
  proof (cases "tget ?t (fj_key j)")
    case None
    let ?s = "s\<lparr>bs_missed := remove1 (j, p) (bs_missed s), bs_in_flight := tput (fj_key j) [p] ?t,
        bs_jobs := bs_jobs s @ [j]\<rparr>"
    have e: "read_wait j p s = ?s" using None by (simp add: read_wait_def)
    have t: "mset (bs_in_flight ?s) = add_mset (fj_key j, [p]) (mset ?t)" using put tdel_absent[OF None] by simp
    have "all_reads ?s = ps" using s(2) m t by (simp add: all_reads_def waiting_mset)
    moreover have "downloads ?s = mset (tkeys (bs_in_flight ?s))"
      using s(3) t by (simp add: downloads_def tkeys_def)
    ultimately show ?thesis using e s(1) by (simp add: blob_inv_def)
  next
    case (Some qs)
    let ?s = "s\<lparr>bs_missed := remove1 (j, p) (bs_missed s), bs_in_flight := tput (fj_key j) (qs @ [p]) ?t\<rparr>"
    have e: "read_wait j p s = ?s" using Some by (simp add: read_wait_def)
    have t: "mset ?t = add_mset (fj_key j, qs) (mset (tdel (fj_key j) ?t))" by (rule table_mset[OF s(1) Some])
    have t': "mset (bs_in_flight ?s) = add_mset (fj_key j, qs @ [p]) (mset (tdel (fj_key j) ?t))" using put by simp
    have "all_reads ?s = ps" using s(2) m t t' by (simp add: all_reads_def waiting_mset)
    moreover have "downloads ?s = mset (tkeys (bs_in_flight ?s))"
      using s(3) t t' by (simp add: downloads_def tkeys_def)
    ultimately show ?thesis using e s(1) by (simp add: blob_inv_def)
  qed
qed

lemma blob_inv_begin:
  assumes "blob_inv ps s" "j \<in> set (bs_jobs s)"
  shows "blob_inv ps (fetch_begin j s)"
proof -
  have "mset (bs_jobs s) = add_mset j (mset (remove1 j (bs_jobs s)))" using assms(2) by simp
  then have "image_mset fj_key (mset (bs_jobs s)) = add_mset (fj_key j) (image_mset fj_key (mset (remove1 j (bs_jobs s))))"
    by (metis image_mset_add_mset)
  then show ?thesis using assms(1) by (simp add: blob_inv_def fetch_begin_def downloads_def all_reads_def waiting_def)
qed

lemma blob_inv_end:
  assumes "blob_inv ps s" "j \<in> set (bs_fetching s)"
  shows "blob_inv ps (fetch_end j r s)"
proof -
  let ?t = "bs_in_flight s"
  have s: "tsorted ?t" "all_reads s = ps" "downloads s = mset (tkeys ?t)" using assms by (auto simp: blob_inv_def)
  have "mset (bs_fetching s) = add_mset j (mset (remove1 j (bs_fetching s)))" using assms(2) by simp
  then have f: "image_mset fj_key (mset (bs_fetching s))
      = add_mset (fj_key j) (image_mset fj_key (mset (remove1 j (bs_fetching s))))"
    by (metis image_mset_add_mset)
  have "fj_key j \<in># downloads s" using assms(2) by (simp add: downloads_def)
  then have "fj_key j \<in> fst ` set ?t" using s(3) by (simp add: tkeys_def)
  then obtain qs where qs: "tget ?t (fj_key j) = Some qs" by (auto simp: in_fst_tget)
  have t: "mset ?t = add_mset (fj_key j, qs) (mset (tdel (fj_key j) ?t))" by (rule table_mset[OF s(1) qs])
  let ?s = "s\<lparr>bs_fetching := remove1 j (bs_fetching s), bs_in_flight := tdel (fj_key j) ?t,
      bs_deliver := bs_deliver s @ [(fj_key j, qs, r)]\<rparr>"
  have e: "fetch_end j r s = ?s" using qs by (simp add: fetch_end_def)
  have "all_reads ?s = ps" using s(2) t by (simp add: all_reads_def waiting_mset ac_simps)
  moreover have "downloads ?s = mset (tkeys (bs_in_flight ?s))" using s(3) t f by (simp add: downloads_def tkeys_def)
  ultimately show ?thesis using e s(1) by (simp add: blob_inv_def)
qed

lemma blob_inv_deliver:
  assumes "blob_inv ps s" "d \<in> set (bs_deliver s)"
  shows "blob_inv ps (deliver d s)"
proof -
  obtain k qs r where d: "d = (k, qs, r)" by (cases d)
  have "mset (bs_deliver s) = add_mset d (mset (remove1 d (bs_deliver s)))" using assms(2) by simp
  then have "image_mset (\<lambda>(_, ps, _). mset ps) (mset (bs_deliver s))
      = add_mset (mset qs) (image_mset (\<lambda>(_, ps, _). mset ps) (mset (remove1 d (bs_deliver s))))"
    by (metis (no_types, lifting) d case_prod_conv image_mset_add_mset)
  then have "sum_list (map (\<lambda>(_, ps, _). mset ps) (bs_deliver s))
      = mset qs + sum_list (map (\<lambda>(_, ps, _). mset ps) (remove1 d (bs_deliver s)))"
    by (simp flip: sum_mset_sum_list)
  then have "all_reads (deliver d s) = all_reads s" "bs_in_flight (deliver d s) = bs_in_flight s"
    "downloads (deliver d s) = downloads s"
    by (auto simp: deliver_def d all_reads_def waiting_def downloads_def Let_def multiset.map_comp o_def split: option.split)
  then show ?thesis using assms(1) by (simp add: blob_inv_def)
qed

lemma blob_run_inv: "blob_run budget ps s \<Longrightarrow> blob_inv ps s"
  by (induction rule: blob_run.induct)
    (simp_all add: blob_inv_read blob_inv_wait blob_inv_begin blob_inv_end blob_inv_deliver,
     simp add: blob_inv_def blob_start_def all_reads_def waiting_def downloads_def tkeys_def)

text \<open>
  However reads, downloads and their answers interleave: every read is either answered
  exactly once or still on its way; every blob someone waits for has exactly one download
  queued or running; so once no download and no answer is outstanding and no read is
  between the cache and the table, every read has had its answer.
\<close>
theorem reads_answered_once:
  assumes "blob_run budget ps s"
  shows "all_reads s = ps
    \<and> (\<forall>k. count (downloads s) k = (if tget (bs_in_flight s) k = None then 0 else 1))
    \<and> (bs_missed s = [] \<and> bs_jobs s = [] \<and> bs_fetching s = [] \<and> bs_deliver s = []
        \<longrightarrow> mset (map fst (bs_answers s)) = ps)"
proof -
  have i: "tsorted (bs_in_flight s)" "all_reads s = ps" "downloads s = mset (tkeys (bs_in_flight s))"
    using blob_run_inv[OF assms] by (auto simp: blob_inv_def)
  have "distinct (tkeys (bs_in_flight s))" using tsorted_distinct[OF i(1)] by (simp add: tkeys_def)
  then have c: "count (downloads s) k = (if tget (bs_in_flight s) k = None then 0 else 1)" for k
    using i(3) in_fst_tget[of k "bs_in_flight s"] by (simp add: distinct_count_atmost_1 tkeys_def)
  have "mset (map fst (bs_answers s)) = ps"
    if q: "bs_missed s = []" "bs_jobs s = []" "bs_fetching s = []" "bs_deliver s = []"
  proof -
    have "bs_in_flight s = []" using i(3) q by (simp add: downloads_def tkeys_def)
    then show ?thesis using i(2) q by (simp add: all_reads_def waiting_def)
  qed
  then show ?thesis using i(2) c by simp
qed

lemma reads_answered_once_witness:
  "let j = \<lparr>fj_key = ''k'', fj_workspace = ''w'', fj_doc = 1\<rparr>;
       p = \<lparr>p_offset = 1, p_size = 2, p_reply = 5\<rparr>;
       s = read_wait j p (read_cache j p (blob_start 0))
   in all_reads s = {#p#} \<and> count (downloads s) ''k'' = 1"
proof -
  let ?j = "\<lparr>fj_key = ''k'', fj_workspace = ''w'', fj_doc = 1\<rparr>"
  let ?p = "\<lparr>p_offset = 1, p_size = 2, p_reply = 5\<rparr>"
  have m: "(?j, ?p) \<in> set (bs_missed (read_cache ?j ?p (blob_start 0)))"
    by (simp add: read_cache_def lru_get_def blob_start_def lru_new_def)
  have r: "blob_run 0 {#?p#} (read_wait ?j ?p (read_cache ?j ?p (blob_start 0)))"
    by (rule missed[OF new_read[OF started] m])
  have "tget (bs_in_flight (read_wait ?j ?p (read_cache ?j ?p (blob_start 0)))) ''k'' \<noteq> None"
    by (simp add: read_wait_def read_cache_def lru_get_def blob_start_def lru_new_def Let_def)
  then show ?thesis using reads_answered_once[OF r] by (simp add: Let_def)
qed

end
