(* ===== verification/Documents.thy ===== *)
theory Documents
  imports Hub
begin

text \<open>
  The records of \<^verbatim>\<open>src/src/api.rs\<close> and how a document is read from the server's JSON:
  \<^verbatim>\<open>parse_document\<close>, \<^verbatim>\<open>resolve_display_name\<close> and the payload helpers. What the code takes
  from outside (the Unicode tables behind \<^verbatim>\<open>char\<close> methods, \<^verbatim>\<open>chrono\<close>, the pretty printer of
  \<^verbatim>\<open>serde_json\<close>) is the record \<open>text_env\<close>.
\<close>

section \<open>Records\<close>

record context_info =
  c_id :: string
  c_url :: string
  c_workspace :: "string option"
  c_raw :: json

record home_entry =
  he_name :: string
  he_size :: nat
  he_is_dir :: bool
  he_mtime :: "string option"

record tree_info =
  ti_id :: string
  ti_name :: string
  ti_type :: string

record document =
  d_id :: nat
  d_schema :: string
  d_data :: json
  d_updated :: nat
  d_locations :: "string list"
  d_display :: "string option"
  d_linked :: bool
  d_size :: "nat option"
  d_checksum :: "string option"
  d_raw :: "json option"

text \<open>Outside functions: one UTF-8 encoded character in, text out, where not said otherwise.\<close>

record text_env =
  x_upper :: "string \<Rightarrow> string"
  x_lower :: "string \<Rightarrow> string"
  x_alnum :: "string \<Rightarrow> bool"
  x_is_upper :: "string \<Rightarrow> bool"
  x_lower_str :: "string \<Rightarrow> string"
  x_pretty :: "json \<Rightarrow> string"
  x_utc :: "string \<Rightarrow> string option"
  x_rfc3339 :: "string \<Rightarrow> nat option"

section \<open>Reading a document\<close>

fun find_map :: "('a \<Rightarrow> 'b option) \<Rightarrow> 'a list \<Rightarrow> 'b option" where
  "find_map f [] = None"
| "find_map f (x # xs) = (case f x of Some y \<Rightarrow> Some y | None \<Rightarrow> find_map f xs)"

definition trimmed :: "json option \<Rightarrow> string option" where
  "trimmed v =
     (case Option.bind v as_str of
        Some s \<Rightarrow> (if str_trim s = [] then None else Some (str_trim s))
      | None \<Rightarrow> None)"

definition meta_filename :: "json \<Rightarrow> string option" where
  "meta_filename v = trimmed (Option.bind (jget ''metadata'' v) (jget ''filename''))"

definition url_of :: "json \<Rightarrow> string" where
  "url_of loc = or_default [] (jstr ''url'' loc)"

definition resolve_display_name :: "json \<Rightarrow> string option" where
  "resolve_display_name doc =
     (case meta_filename doc of Some n \<Rightarrow> Some n
      | None \<Rightarrow>
     (case trimmed (Option.bind (jget ''data'' doc) (jget ''filename'')) of Some n \<Rightarrow> Some n
      | None \<Rightarrow>
     (case Option.bind (jget ''locations'' doc) as_array of None \<Rightarrow> None
      | Some locations \<Rightarrow>
     (case Option.bind (find (\<lambda>loc. case jstr ''url'' loc of
             Some u \<Rightarrow> starts_with ''stored://workspace:'' u | None \<Rightarrow> False) locations) meta_filename of
        Some n \<Rightarrow> Some n
      | None \<Rightarrow> find_map meta_filename (sort_key url_of locations)))))"

definition has_renderer :: "string \<Rightarrow> bool" where
  "has_renderer schema \<longleftrightarrow> schema \<in>
     {''data/schema/note'', ''data/schema/task'', ''data/schema/tab'', ''data/schema/link'',
      ''data/schema/file'', ''data/schema/message/email''}"

definition meta_size :: "json \<Rightarrow> nat option" where
  "meta_size v = Option.bind (jget ''metadata'' v) (jnat ''size'')"

definition parse_document :: "text_env \<Rightarrow> json \<Rightarrow> document option" where
  "parse_document x doc =
     Option.bind (jnat ''id'' doc) (\<lambda>i.
     Option.bind (jstr ''schema'' doc) (\<lambda>schema.
       let stamp = (case jget ''updatedAt'' doc of Some u \<Rightarrow> Some u | None \<Rightarrow> jget ''createdAt'' doc);
           locations = Option.bind (jget ''locations'' doc) as_array
       in Some
         \<lparr>d_id = i, d_schema = schema, d_data = or_default JNull (jget ''data'' doc),
          d_updated = or_default 0 (Option.bind (Option.bind stamp as_str) (x_rfc3339 x)),
          d_locations = (case locations of None \<Rightarrow> [] | Some ls \<Rightarrow> List.map_filter (jstr ''url'') ls),
          d_display = resolve_display_name doc, d_linked = True,
          d_size = (case meta_size doc of Some n \<Rightarrow> Some n
             | None \<Rightarrow> Option.bind locations (find_map meta_size)),
          d_checksum = Option.bind (Option.bind (jget ''checksumArray'' doc) as_array)
             (\<lambda>a. case a of [] \<Rightarrow> None | c # _ \<Rightarrow> as_str c),
          d_raw = (if has_renderer schema then None else Some doc)\<rparr>))"

definition mark_filed :: "document list \<Rightarrow> nat set \<Rightarrow> document list" where
  "mark_filed docs filed = map (\<lambda>d. d\<lparr>d_linked := d_id d \<in> filed\<rparr>) docs"

definition extract_documents :: "json \<Rightarrow> json list" where
  "extract_documents body =
     (case jget ''payload'' body of None \<Rightarrow> []
      | Some payload \<Rightarrow>
        (case as_array payload of Some arr \<Rightarrow> arr
         | None \<Rightarrow> or_default []
             (find_map (\<lambda>k. Option.bind (jget k payload) as_array) [''data'', ''documents''])))"

definition or_else :: "'a option \<Rightarrow> 'a option \<Rightarrow> 'a option" where
  "or_else a b = (case a of None \<Rightarrow> b | Some _ \<Rightarrow> a)"

definition extract_result_ids :: "json \<Rightarrow> nat list" where
  "extract_result_ids body =
     (case jget ''payload'' body of None \<Rightarrow> []
      | Some payload \<Rightarrow>
        (case Option.bind (jget ''successful'' payload) as_array of
           Some arr \<Rightarrow> List.map_filter (\<lambda>e. or_else (jnat ''id'' e) (as_u64 e)) arr
         | None \<Rightarrow>
           (case as_array payload of
              Some arr \<Rightarrow> List.map_filter (\<lambda>e. or_else (as_u64 e) (jnat ''id'' e)) arr
            | None \<Rightarrow> [])))"

section \<open>Paths in request URLs\<close>

definition encode_with :: "bool \<Rightarrow> string \<Rightarrow> string" where
  "encode_with keep_slash s = concat (map (\<lambda>c.
     let b = of_char c :: nat
     in if unreserved b then [c]
        else if c = slash \<and> keep_slash then ''/''
        else [CHR ''%'', hexU (b div 16), hexU (b mod 16)]) s)"

definition encode_path :: "string \<Rightarrow> string" where
  "encode_path path = join_with ''/'' (map (encode_with False)
     (filter (\<lambda>s. s \<noteq> []) (split_on slash (trim_with (\<lambda>c. c = slash) path))))"

definition encode_tree_path :: "string \<Rightarrow> string" where
  "encode_tree_path path = join_with ''/'' (map (encode_with False)
     (filter (\<lambda>s. s \<noteq> []) (split_on slash path)))"

section \<open>Which sources a mount shows\<close>

record workspace_selection =
  sel_trees :: "string list"
  sel_home :: bool
  sel_backends :: bool

definition is_explicit :: "workspace_selection \<Rightarrow> bool" where
  "is_explicit s \<longleftrightarrow> sel_home s \<or> sel_trees s \<noteq> []"

definition includes_home :: "workspace_selection \<Rightarrow> bool" where
  "includes_home s \<longleftrightarrow> \<not> is_explicit s \<or> sel_home s"

definition includes_tree :: "workspace_selection \<Rightarrow> string \<Rightarrow> bool" where
  "includes_tree s name =
     (if is_explicit s then name \<in> set (sel_trees s)
      else name \<noteq> ''backends'' \<or> sel_backends s)"

definition single_tree :: "workspace_selection \<Rightarrow> bool" where
  "single_tree s \<longleftrightarrow> \<not> sel_home s \<and> length (sel_trees s) = 1"

end
