(* ===== verification/Context_Selection.thy ===== *)
theory Context_Selection
  imports Documents
begin

text \<open>
  Which contexts a mount shows (\<^verbatim>\<open>src/src/context_selection.rs\<close>): selectors are matched
  against the server's contexts once, by identifier before display name, and a mount never
  spans two workspaces.
\<close>

datatype selection_error =
    NotFoundContext string
  | AmbiguousContext string
  | RootNotAlone
  | ManyWorkspaces
  | ListFailed

record context_selection =
  cs_filter :: "string set option"
  cs_root :: "string option"
  cs_workspace :: "string option"

definition resolve_one :: "(string \<Rightarrow> string) \<Rightarrow> context_info list \<Rightarrow> string \<Rightarrow> selection_error + context_info" where
  "resolve_one lower contexts selector =
     (let folded = lower selector;
          by_id = filter (\<lambda>c. lower (c_id c) = folded) contexts;
          matches = (if by_id = [] then
              filter (\<lambda>c. case jstr ''name'' (c_raw c) of Some n \<Rightarrow> lower n = folded | None \<Rightarrow> False) contexts
            else by_id)
      in case matches of
           [c] \<Rightarrow> Inr c
         | [] \<Rightarrow> Inl (NotFoundContext selector)
         | _ \<Rightarrow> Inl (AmbiguousContext selector))"

fun collect :: "('a \<Rightarrow> 'e + 'b) \<Rightarrow> 'a list \<Rightarrow> 'e + 'b list" where
  "collect f [] = Inr []"
| "collect f (x # xs) =
     (case f x of Inl e \<Rightarrow> Inl e | Inr y \<Rightarrow> map_sum id (\<lambda>ys. y # ys) (collect f xs))"

definition select_contexts ::
    "(string \<Rightarrow> string) \<Rightarrow> (unit \<Rightarrow> context_info list option) \<Rightarrow> string list option \<Rightarrow> string option
       \<Rightarrow> string option \<Rightarrow> selection_error + context_selection" where
  "select_contexts lower list_contexts selectors root workspace_id =
     (if selectors = None \<and> root = None then
        Inr \<lparr>cs_filter = None, cs_root = None, cs_workspace = workspace_id\<rparr>
      else case list_contexts () of None \<Rightarrow> Inl ListFailed
      | Some available \<Rightarrow>
        (let scoped = filter (\<lambda>c. case workspace_id of None \<Rightarrow> True | Some i \<Rightarrow> c_workspace c = Some i) available
         in case collect (resolve_one lower scoped) (case selectors of None \<Rightarrow> [] | Some ss \<Rightarrow> ss) of Inl e \<Rightarrow> Inl e
         | Inr selected \<Rightarrow>
        (case (case root of None \<Rightarrow> Inr None | Some r \<Rightarrow> map_sum id Some (resolve_one lower scoped r)) of Inl e \<Rightarrow> Inl e
         | Inr root \<Rightarrow>
           (let chosen = c_id ` set selected;
                workspaces = remdups (List.map_filter c_workspace
                  (selected @ (case root of None \<Rightarrow> [] | Some c \<Rightarrow> [c])));
                finish = (\<lambda>chosen. if length workspaces > 1 then Inl ManyWorkspaces
                  else Inr \<lparr>cs_filter = Some chosen, cs_root = map_option c_id root,
                    cs_workspace = (case workspace_id of Some i \<Rightarrow> Some i
                      | None \<Rightarrow> (case workspaces of [] \<Rightarrow> None | w # _ \<Rightarrow> Some w))\<rparr>)
            in case root of
                 None \<Rightarrow> finish chosen
               | Some c \<Rightarrow>
                   if chosen = {} \<or> chosen = {c_id c} then finish (insert (c_id c) chosen)
                   else Inl RootNotAlone))))"

section \<open>Properties\<close>

lemma resolve_one_ok:
  assumes "resolve_one lower cs s = Inr c"
  shows "c \<in> set cs \<and> (lower (c_id c) = lower s \<or> (\<exists>n. jstr ''name'' (c_raw c) = Some n \<and> lower n = lower s))
    \<and> (\<forall>d\<in>set cs. lower (c_id d) = lower s \<longrightarrow> d = c)"
proof -
  let ?i = "filter (\<lambda>c. lower (c_id c) = lower s) cs"
  let ?n = "filter (\<lambda>c. case jstr ''name'' (c_raw c) of Some n \<Rightarrow> lower n = lower s | None \<Rightarrow> False) cs"
  have "(if ?i = [] then ?n else ?i) = [c]"
    using assms by (auto simp: resolve_one_def Let_def split: list.splits if_splits)
  then have m: "set (if ?i = [] then ?n else ?i) = {c}" by simp
  show ?thesis
  proof (cases "?i = []")
    case True
    then have "c \<in> set ?n" "\<forall>d\<in>set cs. lower (c_id d) \<noteq> lower s"
      using m by (auto simp: filter_empty_conv)
    then show ?thesis by (auto split: option.splits)
  next
    case False
    then have "set ?i = {c}" using m by simp
    then show ?thesis by auto
  qed
qed

lemma collect_ok: "collect f xs = Inr ys \<Longrightarrow> y \<in> set ys \<Longrightarrow> \<exists>x\<in>set xs. f x = Inr y"
proof (induction xs arbitrary: ys)
  case (Cons x xs)
  then show ?case by (cases "f x"; cases "collect f xs") auto
qed simp

lemma map_filter_mem: "c \<in> set cs \<Longrightarrow> f c = Some w \<Longrightarrow> w \<in> set (List.map_filter f cs)"
  by (auto simp: List.map_filter_def image_iff intro: bexI[of _ c])

text \<open>
  A successful selection names only contexts of the server, each by the selector of
  someone; a context-rooted mount shows exactly its root; and all chosen contexts that
  have a workspace are in the one workspace the mount is for.
\<close>
theorem selection_in_one_workspace:
  assumes "select_contexts lower lc selectors root ws = Inr r" "lc () = Some available" "cs_filter r = Some F"
  shows "(\<forall>i\<in>F. \<exists>c\<in>set available. c_id c = i \<and> (c_workspace c = cs_workspace r \<or> c_workspace c = None))
    \<and> (\<forall>i. cs_root r = Some i \<longrightarrow> F = {i})"
proof -
  let ?scoped = "filter (\<lambda>c. case ws of None \<Rightarrow> True | Some i \<Rightarrow> c_workspace c = Some i) available"
  let ?ss = "case selectors of None \<Rightarrow> [] | Some ss \<Rightarrow> ss"
  have ne: "\<not> (selectors = None \<and> root = None)"
  proof
    assume "selectors = None \<and> root = None"
    then have "cs_filter r = None" using assms(1) by (auto simp: select_contexts_def)
    then show False using assms(3) by simp
  qed
  note s = assms(1)[unfolded select_contexts_def if_not_P[OF ne] assms(2) option.case Let_def]
  obtain selected where sel: "collect (resolve_one lower ?scoped) ?ss = Inr selected"
    using s by (cases "collect (resolve_one lower ?scoped) ?ss") auto
  note s = s[unfolded sel sum.case]
  obtain rt where rt: "(case root of None \<Rightarrow> Inr None | Some r \<Rightarrow> map_sum id Some (resolve_one lower ?scoped r)) = Inr rt"
    using s by (cases "case root of None \<Rightarrow> Inr None | Some r \<Rightarrow> map_sum id Some (resolve_one lower ?scoped r)") auto
  note s = s[unfolded rt sum.case]
  define cs where "cs = selected @ (case rt of None \<Rightarrow> [] | Some c \<Rightarrow> [c])"
  define wss where "wss = remdups (List.map_filter c_workspace cs)"
  note s = s[folded cs_def, folded wss_def]
  have one: "length wss \<le> 1" using s by (auto split: option.splits if_splits)
  have r: "cs_workspace r = (case ws of Some i \<Rightarrow> Some i | None \<Rightarrow> (case wss of [] \<Rightarrow> None | w # _ \<Rightarrow> Some w))"
    using s by (cases rt) (auto split: if_splits)
  have rr: "F = c_id ` set cs" "cs_root r = map_option c_id rt"
    using s assms(3) by (cases rt; auto simp: cs_def split: if_splits)+
  have alone: "F = {c_id (the rt)}" if "rt \<noteq> None"
    using s assms(3) that by (cases rt) (auto simp: cs_def split: if_splits)
  have mem: "c \<in> set ?scoped" if "c \<in> set cs" for c
  proof -
    have "c \<in> set selected \<or> rt = Some c" using that by (auto simp: cs_def split: option.splits)
    then show ?thesis
    proof
      assume "c \<in> set selected"
      then obtain s where "resolve_one lower ?scoped s = Inr c" using collect_ok[OF sel] by blast
      then show ?thesis using resolve_one_ok by blast
    next
      assume "rt = Some c"
      then obtain s where "resolve_one lower ?scoped s = Inr c"
        using rt by (cases root) (auto simp: map_sum_def split: sum.splits)
      then show ?thesis using resolve_one_ok by blast
    qed
  qed
  have w: "c_workspace c = cs_workspace r \<or> c_workspace c = None" if c: "c \<in> set cs" for c
  proof (cases "c_workspace c")
    case (Some w)
    then have "w \<in> set wss" using map_filter_mem[OF c] by (simp add: wss_def)
    then have "wss = [w]" using one by (cases wss; cases "tl wss") auto
    then show ?thesis using mem[OF c] Some r by (auto split: option.splits)
  qed simp
  have "\<exists>c\<in>set available. c_id c = i \<and> (c_workspace c = cs_workspace r \<or> c_workspace c = None)" if "i \<in> F" for i
    using that mem w unfolding rr by (auto simp del: set_filter) fastforce
  moreover have "F = {i}" if "cs_root r = Some i" for i
    using that alone rr(2) by auto
  ultimately show ?thesis by auto
qed

definition demo_contexts :: "context_info list" where
  "demo_contexts = [\<lparr>c_id = ''a'', c_url = ''u'', c_workspace = Some ''w1'', c_raw = JNull\<rparr>,
     \<lparr>c_id = ''b'', c_url = ''u'', c_workspace = Some ''w2'', c_raw = JObj [(''name'', JStr ''a'')]\<rparr>]"

lemma selection_in_one_workspace_witness:
  "\<exists>r. select_contexts id (\<lambda>_. Some demo_contexts) None (Some ''a'') None = Inr r
    \<and> cs_filter r = Some {''a''} \<and> cs_workspace r = Some ''w1''
    \<and> (\<exists>c :: context_info. c_id c = ''a'' \<and> c_workspace c \<in> {cs_workspace r, None})"
proof -
  let ?r = "\<lparr>cs_filter = Some {''a''}, cs_root = Some ''a'', cs_workspace = Some ''w1''\<rparr>"
  have r: "select_contexts id (\<lambda>_. Some demo_contexts) None (Some ''a'') None = Inr ?r"
    by (simp add: select_contexts_def resolve_one_def demo_contexts_def List.map_filter_def)
  have "\<exists>c\<in>set demo_contexts. c_id c = ''a'' \<and> (c_workspace c = cs_workspace ?r \<or> c_workspace c = None)"
    using selection_in_one_workspace[OF r refl, of "{''a''}"] by auto
  then obtain c :: context_info where "c_id c = ''a'' \<and> c_workspace c \<in> {cs_workspace ?r, None}" by blast
  then have "\<exists>c :: context_info. c_id c = ''a'' \<and> c_workspace c \<in> {cs_workspace ?r, None}" by (rule exI)
  with r show ?thesis by (intro exI[of _ ?r] conjI) simp_all
qed

end
