(* ===== verification/Render.thy ===== *)
theory Render
  imports Documents
begin

text \<open>
  A document as a file (\<^verbatim>\<open>src/src/render.rs\<close>): its name, its folder in the derived view and
  its bytes. Text is a list of UTF-8 bytes; where the code walks characters, \<open>chars\<close> groups
  the bytes. Slicing a string inside a character is a panic in Rust: the functions that can
  do it return an option, with None for the panic.
\<close>

section \<open>Characters\<close>

definition byte :: "char \<Rightarrow> nat" where
  "byte c = of_char c"

definition is_cont :: "char \<Rightarrow> bool" where
  "is_cont c \<longleftrightarrow> 128 \<le> byte c \<and> byte c < 192"

function chars :: "string \<Rightarrow> string list" where
  "chars [] = []"
| "chars (c # cs) =
     (if byte c < 128 then [c] # chars cs
      else (c # takeWhile is_cont cs) # chars (dropWhile is_cont cs))"
  by pat_completeness auto
termination
  by (relation "measure length") (auto simp: le_imp_less_Suc length_dropWhile_le)

definition is_control :: "string \<Rightarrow> bool" where
  "is_control g = (case map byte g of
     [a] \<Rightarrow> a < 32 \<or> a = 127
   | [a, b] \<Rightarrow> a = 194 \<and> 128 \<le> b \<and> b < 160
   | _ \<Rightarrow> False)"

definition code_point2 :: "string \<Rightarrow> nat option" where
  "code_point2 g = (case map byte g of
     [a, b] \<Rightarrow> if 192 \<le> a \<and> a < 224 \<and> 128 \<le> b then Some ((a - 192) * 64 + (b - 128)) else None
   | _ \<Rightarrow> None)"

definition ascii_lower :: "char \<Rightarrow> char" where
  "ascii_lower c = (if 65 \<le> byte c \<and> byte c \<le> 90 then char_of (byte c + 32) else c)"

definition ascii_upper :: "char \<Rightarrow> char" where
  "ascii_upper c = (if 97 \<le> byte c \<and> byte c \<le> 122 then char_of (byte c - 32) else c)"

definition eq_ignore_case :: "string \<Rightarrow> string \<Rightarrow> bool" where
  "eq_ignore_case a b \<longleftrightarrow> map ascii_lower a = map ascii_lower b"

text \<open>\<open>s[..n]\<close>: a panic past the end or inside a character.\<close>

definition char_boundary :: "nat \<Rightarrow> string \<Rightarrow> bool" where
  "char_boundary n s \<longleftrightarrow> n = 0 \<or> n = length s \<or> (n < length s \<and> \<not> is_cont (s ! n))"

definition slice_to :: "nat \<Rightarrow> string \<Rightarrow> string option" where
  "slice_to n s = (if char_boundary n s then Some (take n s) else None)"

section \<open>Bytes to text\<close>

text \<open>\<open>String::from_utf8_lossy\<close>: every maximal ill-formed piece becomes U+FFFD.\<close>

definition follow_count :: "nat \<Rightarrow> nat option" where
  "follow_count a =
     (if a < 128 then Some 0 else if 194 \<le> a \<and> a < 224 then Some 1
      else if 224 \<le> a \<and> a < 240 then Some 2 else if 240 \<le> a \<and> a < 245 then Some 3 else None)"

definition second_ok :: "nat \<Rightarrow> nat \<Rightarrow> bool" where
  "second_ok a b \<longleftrightarrow> 128 \<le> b \<and> b < 192
     \<and> (a = 224 \<longrightarrow> 160 \<le> b) \<and> (a = 237 \<longrightarrow> b < 160) \<and> (a = 240 \<longrightarrow> 144 \<le> b) \<and> (a = 244 \<longrightarrow> b < 144)"

definition followers :: "nat \<Rightarrow> nat \<Rightarrow> string \<Rightarrow> string" where
  "followers a n cs =
     (case take n cs of [] \<Rightarrow> []
      | b # bs \<Rightarrow> if second_ok a (byte b) then b # takeWhile is_cont bs else [])"

definition replacement_char :: string where
  "replacement_char = map char_of [239, 191, 189 :: nat]"

function utf8_lossy :: "string \<Rightarrow> string" where
  "utf8_lossy [] = []"
| "utf8_lossy (c # cs) =
     (case follow_count (byte c) of
        None \<Rightarrow> replacement_char @ utf8_lossy cs
      | Some n \<Rightarrow>
          let f = followers (byte c) n cs
          in (if length f = n then c # f else replacement_char) @ utf8_lossy (drop (length f) cs))"
  by pat_completeness auto
termination
  by (relation "measure length") auto

fun hex_val :: "char \<Rightarrow> nat option" where
  "hex_val c =
     (let b = byte c in
      if 48 \<le> b \<and> b \<le> 57 then Some (b - 48)
      else if 97 \<le> b \<and> b \<le> 102 then Some (b - 97 + 10)
      else if 65 \<le> b \<and> b \<le> 70 then Some (b - 65 + 10) else None)"

fun percent_bytes :: "string \<Rightarrow> string" where
  "percent_bytes (c # h # l # cs) =
     (if c = CHR ''%'' then
        (case (hex_val h, hex_val l) of
           (Some x, Some y) \<Rightarrow> char_of (x * 16 + y) # percent_bytes cs
         | _ \<Rightarrow> c # percent_bytes (h # l # cs))
      else c # percent_bytes (h # l # cs))"
| "percent_bytes (c # cs) = c # percent_bytes cs"
| "percent_bytes [] = []"

definition percent_decode :: "string \<Rightarrow> string" where
  "percent_decode s = utf8_lossy (percent_bytes s)"

section \<open>Names\<close>

definition forbidden :: "string list" where
  "forbidden = [''/'', [char_of (92::nat)], '':'', ''*'', ''?'', [char_of (34::nat)], ''<'', ''>'', ''|'']"

definition clean_char :: "string \<Rightarrow> string" where
  "clean_char g = (if g \<in> set forbidden then ''_'' else if is_control g then ''_'' else g)"

definition sanitize :: "string \<Rightarrow> string" where
  "sanitize name =
     (let cleaned = concat (take 120 (map clean_char (chars name)));
          trimmed = trim_with (\<lambda>c. c = dot) (str_trim cleaned)
      in if trimmed = [] then ''unnamed'' else trimmed)"

definition with_id_suffix :: "string \<Rightarrow> nat \<Rightarrow> string" where
  "with_id_suffix base n = (case rsplit_once dot base of
     Some (stem, ext) \<Rightarrow> (if stem \<noteq> [] then stem @ ''_'' @ show_nat n @ [dot] @ ext
                          else base @ ''_'' @ show_nat n)
   | None \<Rightarrow> base @ ''_'' @ show_nat n)"

definition str_field :: "json \<Rightarrow> string list \<Rightarrow> string option" where
  "str_field data keys = find_map (\<lambda>k. case jstr k data of
     Some s \<Rightarrow> if str_trim s = [] then None else Some s | None \<Rightarrow> None) keys"

definition last_segment :: "string \<Rightarrow> string" where
  "last_segment s = last (split_on slash s)"

definition short_schema :: "string \<Rightarrow> string" where
  "short_schema schema = last_segment schema"

definition schema_folder :: "text_env \<Rightarrow> string \<Rightarrow> string" where
  "schema_folder x schema =
     (let slug = last_segment (or_default schema (strip_prefix ''data/schema/'' schema))
      in case chars slug of g # gs \<Rightarrow> x_upper x g @ concat gs @ ''s'' | [] \<Rightarrow> ''Docs'')"

definition is_alnum_ascii :: "char \<Rightarrow> bool" where
  "is_alnum_ascii c \<longleftrightarrow> 48 \<le> byte c \<and> byte c \<le> 57 \<or> 65 \<le> byte c \<and> byte c \<le> 90 \<or> 97 \<le> byte c \<and> byte c \<le> 122"

definition looks_like_filename :: "string \<Rightarrow> bool" where
  "looks_like_filename base = (case rsplit_once dot base of
     None \<Rightarrow> False
   | Some (stem, ext) \<Rightarrow>
       if ext = [] \<or> length ext > 12 \<or> \<not> list_all is_alnum_ascii ext then False
       else \<not> (length stem \<ge> 16 \<and> list_all (\<lambda>c. hex_val c \<noteq> None) stem))"

definition address_only_schemes :: "string list" where
  "address_only_schemes =
     [''imap:'', ''imaps:'', ''pop3:'', ''pop3s:'', ''mailto:'', ''graph:'', ''ews:'', ''news:'', ''nntp:'']"

fun any_scheme :: "string list \<Rightarrow> string \<Rightarrow> bool option" where
  "any_scheme [] url = Some False"
| "any_scheme (s # ss) url =
     (if length url > length s then
        (case slice_to (length s) url of
           None \<Rightarrow> None
         | Some p \<Rightarrow> if eq_ignore_case p s then Some True else any_scheme ss url)
      else any_scheme ss url)"

fun split_scheme :: "string \<Rightarrow> string option" where
  "split_scheme (a # b # c # r) =
     (if [a, b, c] = ''://'' then Some r else split_scheme (b # c # r))"
| "split_scheme _ = None"

definition url_base :: "string \<Rightarrow> string option" where
  "url_base url =
     (let after = or_default url (split_scheme url);
          key = (case split_once slash after of Some (_, rest) \<Rightarrow> rest | None \<Rightarrow> after);
          base = takeWhile (\<lambda>c. c \<noteq> CHR ''?'' \<and> c \<noteq> CHR ''#'') key
      in find (\<lambda>s. s \<noteq> []) (rev (split_on slash base)))"

definition name_bearing_basename :: "string \<Rightarrow> string option option" where
  "name_bearing_basename url =
     (case any_scheme address_only_schemes url of
        None \<Rightarrow> None
      | Some True \<Rightarrow> Some None
      | Some False \<Rightarrow>
        (case url_base url of
           None \<Rightarrow> Some None
         | Some base \<Rightarrow>
             let decoded = percent_decode base;
                 named = (if str_trim decoded = [] then None else Some decoded)
             in if length url \<ge> 9 then
                  (case slice_to 9 url of
                     None \<Rightarrow> None
                   | Some p \<Rightarrow>
                       if eq_ignore_case p ''stored://'' \<and> \<not> looks_like_filename decoded then Some None
                       else Some named)
                else Some named))"

fun first_name :: "string list \<Rightarrow> string option option" where
  "first_name [] = Some None"
| "first_name (u # us) = (case name_bearing_basename u of
     None \<Rightarrow> None | Some (Some n) \<Rightarrow> Some (Some n) | Some None \<Rightarrow> first_name us)"

definition titled :: "document \<Rightarrow> string list \<Rightarrow> string \<Rightarrow> string" where
  "titled doc keys kind = (case str_field (d_data doc) keys of
     Some title \<Rightarrow> sanitize title
   | None \<Rightarrow> kind @ ''-'' @ show_nat (d_id doc))"

section \<open>Slugs\<close>

definition fold_ranges :: "(nat \<times> nat \<times> char) list" where
  "fold_ranges =
     [(0xC0, 0xC5, CHR ''a''), (0xE0, 0xE5, CHR ''a''), (0x100, 0x105, CHR ''a''),
      (0xC7, 0xC7, CHR ''c''), (0xE7, 0xE7, CHR ''c''), (0x106, 0x10D, CHR ''c''),
      (0x10E, 0x111, CHR ''d''),
      (0xC8, 0xCB, CHR ''e''), (0xE8, 0xEB, CHR ''e''), (0x112, 0x11B, CHR ''e''),
      (0x11C, 0x123, CHR ''g''), (0x124, 0x127, CHR ''h''),
      (0xCC, 0xCF, CHR ''i''), (0xEC, 0xEF, CHR ''i''), (0x128, 0x131, CHR ''i''),
      (0x134, 0x135, CHR ''j''), (0x136, 0x137, CHR ''k''), (0x139, 0x142, CHR ''l''),
      (0xD1, 0xD1, CHR ''n''), (0xF1, 0xF1, CHR ''n''), (0x143, 0x148, CHR ''n''),
      (0xD2, 0xD6, CHR ''o''), (0xD8, 0xD8, CHR ''o''), (0xF2, 0xF6, CHR ''o''),
      (0xF8, 0xF8, CHR ''o''), (0x14C, 0x151, CHR ''o''),
      (0x154, 0x159, CHR ''r''), (0x15A, 0x161, CHR ''s''), (0x162, 0x167, CHR ''t''),
      (0xD9, 0xDC, CHR ''u''), (0xF9, 0xFC, CHR ''u''), (0x168, 0x173, CHR ''u''),
      (0x174, 0x175, CHR ''w''),
      (0xDD, 0xDD, CHR ''y''), (0xFD, 0xFD, CHR ''y''), (0xFF, 0xFF, CHR ''y''),
      (0x176, 0x178, CHR ''y''), (0x179, 0x17E, CHR ''z'')]"

definition fold_base :: "text_env \<Rightarrow> string \<Rightarrow> char \<Rightarrow> string" where
  "fold_base x g lower = (if x_is_upper x g then [ascii_upper lower] else [lower])"

definition fold_char :: "text_env \<Rightarrow> string \<Rightarrow> string" where
  "fold_char x g = (case code_point2 g of
     None \<Rightarrow> g
   | Some n \<Rightarrow> (case find (\<lambda>(a, b, _). a \<le> n \<and> n \<le> b) fold_ranges of
        Some (_, _, l) \<Rightarrow> fold_base x g l
      | None \<Rightarrow> g))"

fun slug_loop :: "text_env \<Rightarrow> string list \<Rightarrow> string \<Rightarrow> bool \<Rightarrow> string" where
  "slug_loop x [] out last_dash = out"
| "slug_loop x (g # gs) out last_dash =
     (let f = fold_char x g;
          (out, last_dash) =
            (if x_alnum x f then (out @ x_lower x f, False)
             else if \<not> last_dash \<and> out \<noteq> [] then (out @ ''-'', True)
             else (out, last_dash))
      in if length (chars out) \<ge> 80 then out else slug_loop x gs out last_dash)"

definition slugify :: "text_env \<Rightarrow> string \<Rightarrow> string" where
  "slugify x input = trim_with (\<lambda>c. c = CHR ''-'') (slug_loop x (chars (str_trim input)) [] False)"

section \<open>Messages\<close>

definition lower_trimmed :: "text_env \<Rightarrow> string \<Rightarrow> string" where
  "lower_trimmed x s = x_lower_str x (str_trim s)"

fun email_address :: "text_env \<Rightarrow> json \<Rightarrow> string option"
  and first_address :: "text_env \<Rightarrow> json list \<Rightarrow> string option" where
  "email_address x (JStr s) = (if lower_trimmed x s = [] then None else Some (lower_trimmed x s))"
| "email_address x (JArr vs) = first_address x vs"
| "email_address x (JObj kvs) = map_option (lower_trimmed x) (str_field (JObj kvs) [''address'', ''name''])"
| "email_address x _ = None"
| "first_address x [] = None"
| "first_address x (v # vs) = (case email_address x v of Some a \<Rightarrow> Some a | None \<Rightarrow> first_address x vs)"

definition email_name :: "text_env \<Rightarrow> document \<Rightarrow> string" where
  "email_name x doc =
     (let from = or_default ''unknown'' (Option.bind (jget ''from'' (d_data doc)) (email_address x));
          slug = map_option (slugify x) (str_field (d_data doc) [''title'', ''subject'', ''name'']);
          subject = (case slug of Some s \<Rightarrow> if s = [] then ''no-subject'' else s | None \<Rightarrow> ''no-subject'')
      in sanitize from @ ''-'' @ subject @ ''.eml'')"

definition doc_name :: "text_env \<Rightarrow> document \<Rightarrow> string option" where
  "doc_name x doc =
     (case d_display doc of Some name \<Rightarrow> Some (sanitize name)
      | None \<Rightarrow>
     (case first_name (sort (d_locations doc)) of
        None \<Rightarrow> None
      | Some (Some name) \<Rightarrow> Some (sanitize name)
      | Some None \<Rightarrow> Some
         (if d_schema doc = ''data/schema/message/email'' then email_name x doc
          else if d_schema doc = ''data/schema/note'' then titled doc [''title''] ''note'' @ ''.note.md''
          else if d_schema doc = ''data/schema/task'' then titled doc [''title''] ''todo'' @ ''.todo.json''
          else if d_schema doc = ''data/schema/tab'' \<or> d_schema doc = ''data/schema/link''
            then titled doc [''title'', ''label'', ''url'', ''uri''] ''link'' @ ''.url''
          else short_schema (d_schema doc) @ ''_'' @ show_nat (d_id doc) @ ''.json'')))"

section \<open>Bodies\<close>

datatype content = Inline string | Remote "nat option"

record rendered =
  rd_dir :: string
  rd_base_name :: string
  rd_content :: content

fun party :: "json option \<Rightarrow> string" and party_list :: "json list \<Rightarrow> string list" where
  "party None = []"
| "party (Some JNull) = []"
| "party (Some (JStr s)) = s"
| "party (Some (JArr vs)) = join_with '', '' (filter (\<lambda>s. str_trim s \<noteq> []) (party_list vs))"
| "party (Some v) =
     (let address = str_trim (or_default [] (str_field v [''address'']));
          name = str_trim (or_default [] (str_field v [''name'']))
      in if name \<noteq> [] \<and> name \<noteq> address then name @ '' <'' @ address @ ''>''
         else if address \<noteq> [] then address else name)"
| "party_list [] = []"
| "party_list (v # vs) = party (Some v) # party_list vs"

definition header_date :: "text_env \<Rightarrow> json \<Rightarrow> string" where
  "header_date x data = (case str_field data [''date'', ''sentAt'', ''receivedAt''] of
     None \<Rightarrow> [] | Some raw \<Rightarrow> or_default [] (x_utc x raw))"

definition email_content_type :: "json \<Rightarrow> string" where
  "email_content_type data =
     (if str_field data [''bodyHtml''] \<noteq> None \<and> str_field data [''body''] = None
      then ''text/html; charset=utf-8'' else ''text/plain; charset=utf-8'')"

abbreviation CR :: char where "CR \<equiv> char_of (13::nat)"
abbreviation LF :: char where "LF \<equiv> char_of (10::nat)"

definition header_line :: "string \<Rightarrow> string \<Rightarrow> string" where
  "header_line key value =
     (let value = str_trim value
      in if value = [] then []
         else key @ '': '' @ str_trim (map (\<lambda>c. if c = CR \<or> c = LF then CHR '' '' else c) value) @ [CR, LF])"

fun drop_cr :: "string \<Rightarrow> string" where
  "drop_cr (a # b # cs) = (if a = CR \<and> b = LF then LF # drop_cr cs else a # drop_cr (b # cs))"
| "drop_cr cs = cs"

definition crlf_body :: "string \<Rightarrow> string" where
  "crlf_body body = replace_chars {LF} [CR, LF] (drop_cr body)"

definition email_headers :: "text_env \<Rightarrow> json \<Rightarrow> (string \<times> string) list" where
  "email_headers x data =
     [(''From'', party (jget ''from'' data)), (''To'', party (jget ''to'' data)),
      (''Cc'', party (jget ''cc'' data)),
      (''Subject'', or_default [] (str_field data [''subject'', ''title''])),
      (''Date'', header_date x data),
      (''Message-ID'', or_default [] (str_field data [''messageId''])),
      (''In-Reply-To'', or_default [] (str_field data [''inReplyTo''])),
      (''MIME-Version'', ''1.0''), (''Content-Type'', email_content_type data)]"

definition render_email :: "text_env \<Rightarrow> document \<Rightarrow> string" where
  "render_email x doc =
     concat (map (\<lambda>(k, v). header_line k v) (email_headers x (d_data doc))) @ [CR, LF]
     @ crlf_body (or_default [] (str_field (d_data doc) [''body'', ''bodyHtml'', ''bodyPreview'']))
     @ [CR, LF]"

definition content_of :: "text_env \<Rightarrow> document \<Rightarrow> content" where
  "content_of x doc =
     (if d_schema doc = ''data/schema/note'' then Inline (or_default [] (str_field (d_data doc) [''content'']))
      else if d_schema doc = ''data/schema/tab'' \<or> d_schema doc = ''data/schema/link'' then
        Inline (''[InternetShortcut]'' @ [LF] @ ''URL='' @ or_default [] (str_field (d_data doc) [''url'', ''uri'']) @ [LF])
      else if d_schema doc = ''data/schema/task'' then Inline (x_pretty x (d_data doc))
      else if d_schema doc = ''data/schema/message/email'' then Inline (render_email x doc)
      else if d_schema doc = ''data/schema/file'' then Remote (d_size doc)
      else Inline (x_pretty x (or_default (d_data doc) (d_raw doc))))"

definition render :: "text_env \<Rightarrow> document \<Rightarrow> rendered option" where
  "render x doc = map_option (\<lambda>n. \<lparr>rd_dir = schema_folder x (d_schema doc), rd_base_name = n,
     rd_content = content_of x doc\<rparr>) (doc_name x doc)"

section \<open>Every name is one path segment\<close>

definition one_segment :: "string \<Rightarrow> bool" where
  "one_segment n \<longleftrightarrow> n \<noteq> [] \<and> slash \<notin> set n \<and> n \<notin> {''.'', ''..'', ''.context.json'', ''.by-schema''}"

lemma slash_group: "g \<in> set (chars s) \<Longrightarrow> slash \<in> set g \<Longrightarrow> g = [slash]"
proof (induction s rule: chars.induct)
  case (2 c cs)
  have "byte slash < 128" by (simp add: byte_def)
  moreover have "\<not> is_cont slash" by (simp add: is_cont_def byte_def)
  ultimately show ?case using 2 by (auto split: if_splits dest: set_takeWhileD)
qed simp

lemma clean_no_slash:
  assumes "g \<in> set (chars s)"
  shows "slash \<notin> set (clean_char g)"
proof (cases "slash \<in> set g")
  case True
  then show ?thesis using slash_group[OF assms] by (simp add: clean_char_def forbidden_def)
qed (simp add: clean_char_def)

lemma set_trim_start: "set (trim_start_seqs ws s) \<subseteq> set s"
proof (induction ws s rule: trim_start_seqs.induct)
  case (1 ws s)
  have "strip_any vs u = Some r \<Longrightarrow> set r \<subseteq> set u" for vs u r
    by (induction vs u rule: strip_any.induct) (auto simp: strip_prefix_Some split: option.splits if_splits)
  then show ?case using 1 by (subst trim_start_seqs.simps) (auto split: option.split, blast)
qed

lemma set_trim_end: "set (rev (trim_start_seqs ws (rev u))) \<subseteq> set u"
  using set_trim_start[of ws "rev u"] by (simp only: set_rev)

lemma set_str_trim: "set (str_trim s) \<subseteq> set s"
  unfolding str_trim_def by (rule order_trans[OF set_trim_end set_trim_start])

lemma set_trim_with: "set (trim_with p s) \<subseteq> set s"
  by (auto simp: trim_with_def trim_end_with_def trim_start_with_def dest!: set_dropWhileD)

lemma trim_with_ends:
  assumes "trim_with p s \<noteq> []"
  shows "\<not> p (hd (trim_with p s))"
proof -
  define u where "u = dropWhile p s"
  have t: "trim_with p s = rev (dropWhile p (rev u))"
    by (simp add: trim_with_def trim_end_with_def trim_start_with_def u_def)
  have "rev u = takeWhile p (rev u) @ dropWhile p (rev u)" by simp
  then have u: "u = trim_with p s @ rev (takeWhile p (rev u))" by (metis rev_append rev_rev_ident t)
  then have "u \<noteq> []" using assms by auto
  then have "\<not> p (hd u)" unfolding u_def by (rule hd_dropWhile)
  then show ?thesis using u assms by (metis hd_append2)
qed

lemma sanitize_facts: "sanitize s \<noteq> [] \<and> slash \<notin> set (sanitize s) \<and> hd (sanitize s) \<noteq> dot"
proof -
  let ?cleaned = "concat (take 120 (map clean_char (chars s)))"
  let ?t = "trim_with (\<lambda>c. c = dot) (str_trim ?cleaned)"
  have "slash \<notin> set ?cleaned"
    using clean_no_slash by (auto dest!: in_set_takeD)
  then have "slash \<notin> set ?t" using set_trim_with set_str_trim by (meson subsetD)
  moreover have "?t \<noteq> [] \<Longrightarrow> hd ?t \<noteq> dot" by (rule trim_with_ends)
  ultimately show ?thesis by (simp add: sanitize_def Let_def)
qed

lemma one_segment_head: "n \<noteq> [] \<Longrightarrow> slash \<notin> set n \<Longrightarrow> hd n \<noteq> dot \<Longrightarrow> one_segment n"
  by (auto simp: one_segment_def)

lemma sanitize_append: "slash \<notin> set r \<Longrightarrow> one_segment (sanitize s @ r)"
  using sanitize_facts[of s] by (intro one_segment_head) auto

lemma show_nat_no: "\<not> is_digit c \<Longrightarrow> c \<notin> set (show_nat n)"
  using show_nat_digits by blast

lemma show_nat_no_slash [simp]: "slash \<notin> set (show_nat n)"
  by (rule show_nat_no) (simp add: is_digit_def)

lemma underscore_segment:
  assumes "slash \<notin> set s" "slash \<notin> set r"
  shows "one_segment (s @ ''_'' @ r)"
proof -
  have "CHR ''_'' \<in> set n \<Longrightarrow> n \<notin> {[], ''.'', ''..'', ''.context.json'', ''.by-schema''}" for n :: string
    by auto
  from this[of "s @ ''_'' @ r"] show ?thesis using assms by (simp add: one_segment_def)
qed

lemma titled_segment:
  assumes "w \<noteq> []" "slash \<notin> set w" "hd w \<noteq> dot" "slash \<notin> set r"
  shows "one_segment (titled d ks w @ r)"
  using assms sanitize_append[of r] by (auto simp: titled_def intro!: one_segment_head split: option.split)

lemma slug_no_slash:
  assumes "\<And>g. x_alnum x g \<Longrightarrow> slash \<notin> set (x_lower x g)"
  shows "slash \<notin> set out \<Longrightarrow> slash \<notin> set (slug_loop x gs out d)"
proof (induction gs arbitrary: out d)
  case (Cons g gs)
  then show ?case using assms[of "fold_char x g"] by (auto simp: Let_def)
qed simp

text \<open>
  C17: whatever a document is called on the server, its name in the mount is one path
  segment: not empty, without a slash, neither "." nor "..", and never the name of an entry
  the mount itself puts beside documents; the same holds for the name it gets in a
  collision.
\<close>
theorem doc_name_one_segment:
  assumes "\<And>g. x_alnum x g \<Longrightarrow> slash \<notin> set (x_lower x g)" "doc_name x doc = Some n"
  shows "one_segment n \<and> one_segment (with_id_suffix n i)"
proof -
  have slug: "slash \<notin> set (slugify x s)" for s
    unfolding slugify_def using slug_no_slash[of x "[]", OF assms(1)] set_trim_with by fastforce
  have "one_segment n"
  proof (cases "\<exists>s. n = sanitize s")
    case True
    then show ?thesis using sanitize_append[of "[]"] by auto
  next
    case False
    consider "n = email_name x doc" | "n = titled doc [''title''] ''note'' @ ''.note.md''"
      | "n = titled doc [''title''] ''todo'' @ ''.todo.json''"
      | "n = titled doc [''title'', ''label'', ''url'', ''uri''] ''link'' @ ''.url''"
      | "n = short_schema (d_schema doc) @ ''_'' @ show_nat (d_id doc) @ ''.json''"
      using assms(2) False by (auto simp: doc_name_def split: option.splits if_splits)
    then show ?thesis
    proof cases
      case 1
      have "\<exists>s. email_name x doc = sanitize s @ ''-no-subject.eml'' \<or>
          (\<exists>u. email_name x doc = sanitize s @ ''-'' @ slugify x u @ ''.eml'')"
        by (auto simp: email_name_def Let_def split: option.split)
      then show ?thesis using 1 slug sanitize_append by auto
    next
      case 2
      then show ?thesis by (simp only:) (rule titled_segment; simp)
    next
      case 3
      then show ?thesis by (simp only:) (rule titled_segment; simp)
    next
      case 4
      then show ?thesis by (simp only:) (rule titled_segment; simp)
    next
      case 5
      have "slash \<notin> set (last_segment s)" for s
        unfolding last_segment_def by (rule split_on_pieces[OF last_in_set]) simp
      then show ?thesis using 5 underscore_segment by (simp add: short_schema_def)
    qed
  qed
  moreover have "one_segment (with_id_suffix n i)"
  proof (cases "rsplit_once dot n")
    case None
    then show ?thesis using calculation underscore_segment[of n "show_nat i"]
      by (simp add: with_id_suffix_def one_segment_def)
  next
    case (Some p)
    obtain stem ext where p: "p = (stem, ext)" by (cases p)
    have "slash \<notin> set stem" "slash \<notin> set ext"
      using calculation Some by (auto simp: p one_segment_def rsplit_once_Some)
    then show ?thesis using Some calculation underscore_segment[of stem "show_nat i @ [dot] @ ext"]
        underscore_segment[of n "show_nat i"] by (auto simp: p with_id_suffix_def one_segment_def)
  qed
  ultimately show ?thesis ..
qed

definition demo_text :: text_env where
  "demo_text = \<lparr>x_upper = map ascii_upper, x_lower = map ascii_lower, x_alnum = list_all is_alnum_ascii,
     x_is_upper = (\<lambda>g. map ascii_lower g \<noteq> g), x_lower_str = map ascii_lower, x_pretty = (\<lambda>_. ''{}''),
     x_utc = (\<lambda>s. Some s), x_rfc3339 = (\<lambda>_. None)\<rparr>"

definition demo_doc :: document where
  "demo_doc = \<lparr>d_id = 7, d_schema = ''data/schema/file'', d_data = JNull, d_updated = 0, d_locations = [],
     d_display = Some ''../a'', d_linked = True, d_size = None, d_checksum = None, d_raw = None\<rparr>"

lemma demo_lower: "x_alnum demo_text g \<Longrightarrow> slash \<notin> set (x_lower demo_text g)"
proof -
  have "byte (ascii_lower c) \<noteq> byte slash" if "is_alnum_ascii c" for c
    using that by (auto simp: ascii_lower_def is_alnum_ascii_def byte_def of_char_of)
  then have "is_alnum_ascii c \<Longrightarrow> ascii_lower c \<noteq> slash" for c by metis
  then show "x_alnum demo_text g \<Longrightarrow> slash \<notin> set (x_lower demo_text g)"
    by (fastforce simp: demo_text_def list_all_iff)
qed

lemma doc_name_one_segment_witness:
  "doc_name demo_text demo_doc = Some ''_a'' \<and> one_segment ''_a'' \<and> one_segment (with_id_suffix ''_a'' 7)"
proof -
  have n: "doc_name demo_text demo_doc = Some ''_a''" by code_simp
  show ?thesis using n doc_name_one_segment[OF demo_lower n, of 7] by blast
qed

section \<open>A location that cannot be read\<close>

text \<open>
  The test for a location scheme slices the URL at fixed byte offsets. A document that
  no record names and whose location is a local file URL that starts with a two-byte letter
  makes the renderer panic: the ninth byte offset falls inside the letter.
\<close>
theorem doc_name_panics:
  "doc_name x (doc\<lparr>d_display := None,
     d_locations := [''file:///'' @ map char_of [197, 190 :: nat] @ ''lut.pdf'']\<rparr>) = None"
proof -
  have "name_bearing_basename (''file:///'' @ map char_of [197, 190 :: nat] @ ''lut.pdf'') = None"
    by code_simp
  then show ?thesis by (simp add: doc_name_def)
qed

end
