(* ===== verification/Names.thy ===== *)
theory Names
  imports Prelude
begin

text \<open>
  The sticky filenames of \<^verbatim>\<open>src/src/names.rs\<close>: a persistent table from (context,
  workspace, folder key, document) to the name the document was given. The four parts are
  joined by the unit separator. Database failures are left out.
\<close>

definition US :: char where "US = char_of (31::nat)"

definition name_key :: "string \<Rightarrow> string \<Rightarrow> string \<Rightarrow> nat \<Rightarrow> string" where
  "name_key ctx ws d doc_id = ctx @ [US] @ ws @ [US] @ d @ [US] @ show_nat doc_id"

definition FILENAMES :: string where "FILENAMES = ''filenames_v5''"

definition LEGACY_FILENAMES :: "string list" where
  "LEGACY_FILENAMES = [''filenames'', ''filenames_v2'', ''filenames_v3'', ''filenames_v4'']"

type_synonym name_store = "(string, (string, string) table) table"

definition names_open :: "name_store \<Rightarrow> name_store" where
  "names_open db =
     (let db = (case tget db FILENAMES of Some _ \<Rightarrow> db | None \<Rightarrow> tput FILENAMES [] db)
      in foldl (\<lambda>db legacy. tdel legacy db) db LEGACY_FILENAMES)"

definition names_get :: "name_store \<Rightarrow> string \<Rightarrow> string \<Rightarrow> string \<Rightarrow> nat \<Rightarrow> string option" where
  "names_get db ctx ws d doc_id =
     Option.bind (tget db FILENAMES) (\<lambda>t. tget t (name_key ctx ws d doc_id))"

definition names_put :: "name_store \<Rightarrow> string \<Rightarrow> string \<Rightarrow> string \<Rightarrow> nat \<Rightarrow> string \<Rightarrow> name_store" where
  "names_put db ctx ws d doc_id name =
     tput FILENAMES (tput (name_key ctx ws d doc_id) name
        (case tget db FILENAMES of Some t \<Rightarrow> t | None \<Rightarrow> [])) db"

lemma US_not_digit: "US \<notin> set (show_nat n)"
proof -
  have "\<not> is_digit US" by (simp add: is_digit_def US_def of_char_of)
  then show ?thesis using show_nat_digits by blast
qed

lemma split_US: "US \<notin> set a \<Longrightarrow> split_on US (a @ [US] @ b) = a # split_on US b"
  using split_on_append[of US a b] split_on_no_sep[of US a] by simp

lemma name_key_parts:
  assumes "US \<notin> set ctx" "US \<notin> set ws" "US \<notin> set d"
  shows "split_on US (name_key ctx ws d n) = [ctx, ws, d, show_nat n]"
proof -
  have "split_on US (name_key ctx ws d n) = ctx # split_on US (ws @ [US] @ d @ [US] @ show_nat n)"
    unfolding name_key_def by (rule split_US[OF assms(1)])
  also have "split_on US (ws @ [US] @ d @ [US] @ show_nat n) = ws # split_on US (d @ [US] @ show_nat n)"
    by (rule split_US[OF assms(2)])
  also have "split_on US (d @ [US] @ show_nat n) = d # split_on US (show_nat n)"
    by (rule split_US[OF assms(3)])
  also have "split_on US (show_nat n) = [show_nat n]"
    by (rule split_on_no_sep[OF US_not_digit])
  finally show ?thesis .
qed

lemma name_key_inj:
  assumes "US \<notin> set c" "US \<notin> set w" "US \<notin> set d" "US \<notin> set c'" "US \<notin> set w'" "US \<notin> set d'"
  shows "name_key c w d n = name_key c' w' d' n' \<longleftrightarrow> c = c' \<and> w = w' \<and> d = d' \<and> n = n'"
proof
  assume e: "name_key c w d n = name_key c' w' d' n'"
  have "[c, w, d, show_nat n] = [c', w', d', show_nat n']"
    using name_key_parts[OF assms(1-3), of n] name_key_parts[OF assms(4-6), of n'] unfolding e by (rule trans[OF sym])
  then show "c = c' \<and> w = w' \<and> d = d' \<and> n = n'" by simp
qed simp

text \<open>The document is always the last part, whatever the others contain.\<close>

lemma name_key_doc: "name_key c w d n = name_key c w d n' \<longleftrightarrow> n = n'"
  by (simp add: name_key_def)

interpretation sticky: kv_store "\<lambda>db n. names_get db c w d n" "\<lambda>db n x. names_put db c w d n x"
    "\<lambda>db n. (case tget db FILENAMES of Some t \<Rightarrow> tput FILENAMES (tdel (name_key c w d n) t) db | None \<Rightarrow> db)"
  for c w d
  by unfold_locales (auto simp: names_get_def names_put_def name_key_doc split: option.splits)

lemma names_get_put:
  assumes "US \<notin> set c" "US \<notin> set w" "US \<notin> set d" "US \<notin> set c'" "US \<notin> set w'" "US \<notin> set d'"
  shows "names_get (names_put db c w d n x) c' w' d' n' =
    (if (c', w', d', n') = (c, w, d, n) then Some x else names_get db c' w' d' n')"
  by (simp add: names_get_def names_put_def name_key_inj[OF assms(4-6) assms(1-3)] split: option.split)

lemma names_open_get: "names_get (names_open db) c w d n = names_get db c w d n"
  by (auto simp: names_get_def names_open_def LEGACY_FILENAMES_def FILENAMES_def split: option.splits)

lemma names_open_retires: "k \<in> set LEGACY_FILENAMES \<Longrightarrow> tget (names_open db) k = None"
  by (auto simp: names_open_def LEGACY_FILENAMES_def)

end
