(* ===== verification/View.thy ===== *)
theory View
  imports Render Names "HOL-Library.Product_Lexorder"
begin

text \<open>
  The tree the mount shows to the kernel (\<^verbatim>\<open>src/src/state.rs\<close>, \<^verbatim>\<open>struct Tree\<close>): nodes
  by inode, per directory a table from name to inode, and the maps that tie inodes to
  contexts, documents and tree paths. This theory holds the state, its constructors and the
  operations on single nodes; \<open>View_Home\<close> and \<open>View_Docs\<close> the operations built from them.
  A hash map is a table in key order, one of the orders the code may see; the wall clock is
  the argument \<open>now\<close>, constant during an operation.
\<close>

section \<open>State\<close>

definition ROOT_INO :: nat where "ROOT_INO = 1"
definition CONTEXTS_INO :: nat where "CONTEXTS_INO = 2"
definition TREES_INO :: nat where "TREES_INO = 3"
definition TRASH_INO :: nat where "TRASH_INO = 4"
definition HOME_INO :: nat where "HOME_INO = 5"
definition FIRST_DYNAMIC_INO :: nat where "FIRST_DYNAMIC_INO = 16"
definition FIRST_OVERLAY_INO :: nat where "FIRST_OVERLAY_INO = 2 ^ 48"

lemmas ino_defs = ROOT_INO_def CONTEXTS_INO_def TREES_INO_def TRASH_INO_def HOME_INO_def FIRST_DYNAMIC_INO_def

abbreviation BY_SCHEMA_DIR :: string where "BY_SCHEMA_DIR \<equiv> ''.by-schema''"
abbreviation CONTEXT_META_FILE :: string where "CONTEXT_META_FILE \<equiv> ''.context.json''"
abbreviation TRASH_TREE_NAME :: string where "TRASH_TREE_NAME \<equiv> ''directory''"
abbreviation TRASH_PATH :: string where "TRASH_PATH \<equiv> ''/.trash''"
definition FLAT_NAME_KEY :: string where "FLAT_NAME_KEY = []"

datatype node_content =
    NDir
  | NInline string
  | NHomeDir string bool
  | NHomeFile string nat
  | NRemote string nat "nat option" "string option"

record view_node =
  n_ino :: nat
  n_parent :: nat
  n_name :: string
  n_mtime :: nat
  n_content :: node_content

fun is_dir :: "view_node \<Rightarrow> bool" where
  "is_dir n = (case n_content n of NDir \<Rightarrow> True | NHomeDir _ _ \<Rightarrow> True | _ \<Rightarrow> False)"

declare is_dir.simps [simp del]

fun node_size :: "view_node \<Rightarrow> nat" where
  "node_size n = (case n_content n of
     NDir \<Rightarrow> 0 | NInline bytes \<Rightarrow> length bytes | NRemote _ _ sz _ \<Rightarrow> or_default 0 sz
   | NHomeDir _ _ \<Rightarrow> 0 | NHomeFile _ sz \<Rightarrow> sz)"

record invalidation =
  iv_removed :: "(nat \<times> nat \<times> string) list"
  iv_changed :: "nat list"
  iv_dirty :: "nat list"
  iv_added :: "nat list"
  iv_vanished :: "(nat \<times> nat \<times> string) list"

definition inv0 :: invalidation where
  "inv0 = \<lparr>iv_removed = [], iv_changed = [], iv_dirty = [], iv_added = [], iv_vanished = []\<rparr>"

definition inv_is_empty :: "invalidation \<Rightarrow> bool" where
  "inv_is_empty v \<longleftrightarrow> iv_removed v = [] \<and> iv_changed v = [] \<and> iv_dirty v = [] \<and> iv_added v = [] \<and> iv_vanished v = []"

definition removed :: "nat \<times> nat \<times> string \<Rightarrow> invalidation \<Rightarrow> invalidation" where
  "removed x v = v\<lparr>iv_removed := iv_removed v @ [x]\<rparr>"

definition changed :: "nat \<Rightarrow> invalidation \<Rightarrow> invalidation" where
  "changed x v = v\<lparr>iv_changed := iv_changed v @ [x]\<rparr>"

definition dirty_dir :: "nat \<Rightarrow> invalidation \<Rightarrow> invalidation" where
  "dirty_dir x v = v\<lparr>iv_dirty := iv_dirty v @ [x]\<rparr>"

definition added :: "nat \<Rightarrow> invalidation \<Rightarrow> invalidation" where
  "added x v = v\<lparr>iv_added := iv_added v @ [x]\<rparr>"

definition vanished :: "nat \<times> nat \<times> string \<Rightarrow> invalidation \<Rightarrow> invalidation" where
  "vanished x v = v\<lparr>iv_vanished := iv_vanished v @ [x]\<rparr>"

record ws_tree =
  wt_id :: string
  wt_type :: string
  wt_root :: nat

record ws_file =
  wf_tree :: string
  wf_path :: string
  wf_doc :: nat

record ws_state =
  ws_id :: string
  ws_name :: string
  ws_selection :: workspace_selection
  ws_trees :: "(string, ws_tree) table"
  ws_paths :: "(string \<times> string, nat) table"
  ws_files :: "(nat, ws_file) table"

record view =
  vt_nodes :: "(nat, view_node) table"
  vt_children :: "(nat, (string, nat) table) table"
  vt_next :: nat
  vt_docs :: "(string \<times> nat, nat) table"
  vt_ctxs :: "(string, nat) table"
  vt_tombstones :: "nat set"
  vt_defer :: bool
  vt_sigs :: "(string, nat) table"
  vt_ctx_ws :: "(string, string) table"
  vt_ctx_urls :: "(string, string) table"
  vt_context_root :: "string option"
  vt_at_root :: bool
  vt_ws :: "ws_state option"
  vt_mirrored :: bool

section \<open>Single nodes\<close>

definition touch_dir :: "nat \<Rightarrow> nat \<Rightarrow> view \<Rightarrow> view" where
  "touch_dir now ino t = (case tget (vt_nodes t) ino of
     Some d \<Rightarrow> if is_dir d then t\<lparr>vt_nodes := tput ino (d\<lparr>n_mtime := now\<rparr>) (vt_nodes t)\<rparr> else t
   | None \<Rightarrow> t)"

definition insert_node :: "nat \<Rightarrow> view_node \<Rightarrow> view \<Rightarrow> view" where
  "insert_node now n t =
     (let parent = n_parent n;
          ch = (if n_ino n \<noteq> ROOT_INO
                then tput parent (tput (n_name n) (n_ino n) (or_default [] (tget (vt_children t) parent)))
                       (vt_children t)
                else vt_children t);
          ch = (if tget ch (n_ino n) = None then tput (n_ino n) [] ch else ch)
      in touch_dir now parent (t\<lparr>vt_children := ch, vt_nodes := tput (n_ino n) n (vt_nodes t)\<rparr>))"

definition remove_node :: "nat \<Rightarrow> nat \<Rightarrow> view \<Rightarrow> view_node option \<times> view" where
  "remove_node now ino t =
     (case tget (vt_nodes t) ino of
        None \<Rightarrow> (None, t)
      | Some n \<Rightarrow>
          let ch = (case tget (vt_children t) (n_parent n) of
                Some siblings \<Rightarrow> tput (n_parent n) (tdel (n_name n) siblings) (vt_children t)
              | None \<Rightarrow> vt_children t)
          in (Some n, touch_dir now (n_parent n)
                (t\<lparr>vt_nodes := tdel ino (vt_nodes t), vt_children := tdel ino ch\<rparr>)))"

definition alloc_ino :: "view \<Rightarrow> nat \<times> view" where
  "alloc_ino t = (vt_next t, t\<lparr>vt_next := vt_next t + 1\<rparr>)"

definition child :: "view \<Rightarrow> nat \<Rightarrow> string \<Rightarrow> nat option" where
  "child t p nm = Option.bind (tget (vt_children t) p) (\<lambda>c. tget c nm)"

definition lookup_node :: "view \<Rightarrow> nat \<Rightarrow> string \<Rightarrow> view_node option" where
  "lookup_node t p nm = Option.bind (child t p nm) (tget (vt_nodes t))"

definition kids :: "view \<Rightarrow> nat \<Rightarrow> (string \<times> nat) list" where
  "kids t ino = (case tget (vt_children t) ino of Some c \<Rightarrow> c | None \<Rightarrow> [])"

definition list_dir :: "view \<Rightarrow> nat \<Rightarrow> view_node list option" where
  "list_dir t ino = map_option (\<lambda>c. List.map_filter (\<lambda>(_, i). tget (vt_nodes t) i) c) (tget (vt_children t) ino)"

definition upd_node :: "nat \<Rightarrow> (view_node \<Rightarrow> view_node) \<Rightarrow> view \<Rightarrow> view" where
  "upd_node ino f t = (case tget (vt_nodes t) ino of
     Some n \<Rightarrow> t\<lparr>vt_nodes := tput ino (f n) (vt_nodes t)\<rparr> | None \<Rightarrow> t)"

fun path_up :: "nat \<Rightarrow> view \<Rightarrow> nat \<Rightarrow> string list \<Rightarrow> string list option" where
  "path_up 0 t cur parts = None"
| "path_up (Suc k) t cur parts =
     (if cur = ROOT_INO then Some parts
      else case tget (vt_nodes t) cur of
        None \<Rightarrow> None
      | Some n \<Rightarrow> path_up k t (n_parent n) (n_name n # parts))"

definition path_of :: "view \<Rightarrow> nat \<Rightarrow> string list option" where
  "path_of t ino = path_up 256 t ino []"

text \<open>
  \<open>remove_subtree\<close> recurses over the children table. The first argument bounds the depth:
  in a well-formed tree the number of nodes is enough (\<open>remove_below_enough\<close>).
\<close>

fun remove_below :: "nat \<Rightarrow> nat \<Rightarrow> nat \<Rightarrow> view \<times> invalidation \<Rightarrow> view \<times> invalidation"
  and remove_kids :: "nat \<Rightarrow> nat \<Rightarrow> nat list \<Rightarrow> view \<times> invalidation \<Rightarrow> view \<times> invalidation" where
  "remove_below now 0 ino s = s"
| "remove_below now (Suc k) ino s = remove_kids now k (map snd (kids (fst s) ino)) s"
| "remove_kids now k [] s = s"
| "remove_kids now k (i # is) s =
     (let (t, v) = remove_below now k i s
      in remove_kids now k is
           (case remove_node now i t of
              (Some n, t) \<Rightarrow> (t, removed (n_parent n, i, n_name n) v)
            | (None, t) \<Rightarrow> (t, v)))"

definition remove_subtree :: "nat \<Rightarrow> nat \<Rightarrow> view \<times> invalidation \<Rightarrow> view \<times> invalidation" where
  "remove_subtree now ino s = remove_below now (length (vt_nodes (fst s))) ino s"

section \<open>Construction\<close>

definition new_node :: "nat \<Rightarrow> nat \<Rightarrow> string \<Rightarrow> nat \<Rightarrow> node_content \<Rightarrow> view_node" where
  "new_node ino parent nm mtime content =
     \<lparr>n_ino = ino, n_parent = parent, n_name = nm, n_mtime = mtime, n_content = content\<rparr>"

definition bare :: "nat \<Rightarrow> string option \<Rightarrow> view" where
  "bare now context_root = insert_node now (new_node ROOT_INO ROOT_INO [] now NDir)
     \<lparr>vt_nodes = [], vt_children = [], vt_next = FIRST_DYNAMIC_INO, vt_docs = [], vt_ctxs = [],
      vt_tombstones = {}, vt_defer = False, vt_sigs = [], vt_ctx_ws = [], vt_ctx_urls = [],
      vt_context_root = context_root, vt_at_root = False, vt_ws = None, vt_mirrored = False\<rparr>"

definition tree_new :: "nat \<Rightarrow> view" where
  "tree_new now = insert_node now (new_node CONTEXTS_INO ROOT_INO ''Contexts'' now NDir) (bare now None)"

definition context_collection :: "nat \<Rightarrow> view" where
  "context_collection now = (bare now None)\<lparr>vt_at_root := True\<rparr>"

definition context_rooted :: "nat \<Rightarrow> string \<Rightarrow> view" where
  "context_rooted now ctx = bare now (Some ctx)"

definition home_only :: "workspace_selection \<Rightarrow> bool" where
  "home_only s \<longleftrightarrow> sel_home s \<and> sel_trees s = []"

definition workspace_selected :: "nat \<Rightarrow> string \<Rightarrow> string \<Rightarrow> workspace_selection \<Rightarrow> view" where
  "workspace_selected now i nm sel =
     (let sel = sel\<lparr>sel_trees := remdups_adj (sort (sel_trees sel))\<rparr>;
          t = bare now None;
          t = (if \<not> is_explicit sel \<or> (sel_trees sel \<noteq> [] \<and> \<not> single_tree sel)
               then insert_node now (new_node TREES_INO ROOT_INO ''Trees'' now NDir) t else t);
          t = (if \<not> is_explicit sel
               then insert_node now (new_node TRASH_INO ROOT_INO ''Trash'' now NDir) t else t);
          t = (if includes_home sel
               then insert_node now
                 (new_node (if home_only sel then ROOT_INO else HOME_INO) ROOT_INO
                    (if home_only sel then [] else ''Home'') now (NHomeDir ''/'' False)) t
               else t)
      in t\<lparr>vt_ws := Some \<lparr>ws_id = i, ws_name = nm, ws_selection = sel, ws_trees = [], ws_paths = [],
           ws_files = []\<rparr>\<rparr>)"

definition workspace_rooted :: "nat \<Rightarrow> string \<Rightarrow> string \<Rightarrow> view" where
  "workspace_rooted now i nm =
     workspace_selected now i nm \<lparr>sel_trees = [], sel_home = False, sel_backends = False\<rparr>"

definition home_root_ino :: "view \<Rightarrow> nat" where
  "home_root_ino t = (case vt_ws t of
     Some w \<Rightarrow> if home_only (ws_selection w) then ROOT_INO else HOME_INO | None \<Rightarrow> HOME_INO)"

definition contexts_parent :: "view \<Rightarrow> nat" where
  "contexts_parent t = (if vt_context_root t \<noteq> None \<or> vt_at_root t then ROOT_INO else CONTEXTS_INO)"

definition is_workspace :: "view \<Rightarrow> bool" where
  "is_workspace t \<longleftrightarrow> vt_ws t \<noteq> None"

section \<open>Frames\<close>

named_theorems view_frames "what the node operations leave alone"

lemma touch_frames [simp, view_frames]:
  "vt_children (touch_dir now i t) = vt_children t" "vt_next (touch_dir now i t) = vt_next t"
  "vt_docs (touch_dir now i t) = vt_docs t" "vt_ctxs (touch_dir now i t) = vt_ctxs t"
  "vt_tombstones (touch_dir now i t) = vt_tombstones t" "vt_defer (touch_dir now i t) = vt_defer t"
  "vt_ws (touch_dir now i t) = vt_ws t" "vt_context_root (touch_dir now i t) = vt_context_root t"
  "vt_at_root (touch_dir now i t) = vt_at_root t" "vt_mirrored (touch_dir now i t) = vt_mirrored t"
  "vt_ctx_ws (touch_dir now i t) = vt_ctx_ws t" "vt_ctx_urls (touch_dir now i t) = vt_ctx_urls t"
  "vt_sigs (touch_dir now i t) = vt_sigs t"
  by (simp_all add: touch_dir_def split: option.split)

lemma insert_frames [simp, view_frames]:
  "vt_next (insert_node now n t) = vt_next t"
  "vt_docs (insert_node now n t) = vt_docs t" "vt_ctxs (insert_node now n t) = vt_ctxs t"
  "vt_tombstones (insert_node now n t) = vt_tombstones t" "vt_defer (insert_node now n t) = vt_defer t"
  "vt_ws (insert_node now n t) = vt_ws t" "vt_context_root (insert_node now n t) = vt_context_root t"
  "vt_at_root (insert_node now n t) = vt_at_root t" "vt_mirrored (insert_node now n t) = vt_mirrored t"
  "vt_ctx_ws (insert_node now n t) = vt_ctx_ws t" "vt_ctx_urls (insert_node now n t) = vt_ctx_urls t"
  "vt_sigs (insert_node now n t) = vt_sigs t"
  by (simp_all add: insert_node_def Let_def)

lemma remove_frames [simp, view_frames]:
  "vt_next (snd (remove_node now i t)) = vt_next t"
  "vt_docs (snd (remove_node now i t)) = vt_docs t" "vt_ctxs (snd (remove_node now i t)) = vt_ctxs t"
  "vt_tombstones (snd (remove_node now i t)) = vt_tombstones t" "vt_defer (snd (remove_node now i t)) = vt_defer t"
  "vt_ws (snd (remove_node now i t)) = vt_ws t" "vt_context_root (snd (remove_node now i t)) = vt_context_root t"
  "vt_at_root (snd (remove_node now i t)) = vt_at_root t" "vt_mirrored (snd (remove_node now i t)) = vt_mirrored t"
  "vt_ctx_ws (snd (remove_node now i t)) = vt_ctx_ws t" "vt_ctx_urls (snd (remove_node now i t)) = vt_ctx_urls t"
  "vt_sigs (snd (remove_node now i t)) = vt_sigs t"
  by (simp_all add: remove_node_def Let_def split: option.split)

end
