(* ===== verification/View_Home.thy ===== *)
theory View_Home
  imports View
begin

text \<open>
  The Home part of the mounted tree (\<^verbatim>\<open>src/src/state.rs\<close>): directories listed from the
  server on demand (\<open>apply_home_entries\<close>), and, in mirror mode, the tree addressed by store
  keys, which the mirror engine updates key by key or replaces as a whole
  (\<open>apply_home_snapshot\<close>).
\<close>

section \<open>Nodes of the home drive\<close>

definition add_node :: "nat \<Rightarrow> nat \<Rightarrow> string \<Rightarrow> nat \<Rightarrow> node_content \<Rightarrow> view \<Rightarrow> nat \<times> view" where
  "add_node now parent nm mtime content t =
     (let (i, t) = alloc_ino t in (i, insert_node now (new_node i parent nm mtime content) t))"

definition insert_home_dir :: "nat \<Rightarrow> nat \<Rightarrow> string \<Rightarrow> string \<Rightarrow> view \<Rightarrow> nat \<times> view" where
  "insert_home_dir now parent nm path t = add_node now parent nm now (NHomeDir path True) t"

definition upsert_home_file ::
    "nat \<Rightarrow> nat \<Rightarrow> string \<Rightarrow> string \<Rightarrow> nat \<Rightarrow> nat option \<Rightarrow> view \<Rightarrow> nat \<times> view" where
  "upsert_home_file now dir nm path sz adopt t =
     (case lookup_node t dir nm of
        Some n \<Rightarrow> (n_ino n, upd_node (n_ino n) (\<lambda>n. n\<lparr>n_content := NHomeFile path sz, n_mtime := now\<rparr>) t)
      | None \<Rightarrow>
          let (i, t) = (case adopt of Some i \<Rightarrow> (i, t) | None \<Rightarrow> alloc_ino t)
          in (i, insert_node now (new_node i dir nm now (NHomeFile path sz)) t))"

definition home_path :: "view \<Rightarrow> nat \<Rightarrow> (string \<times> bool) option" where
  "home_path t ino = Option.bind (tget (vt_nodes t) ino) (\<lambda>n. case n_content n of
     NHomeDir p l \<Rightarrow> Some (p, l) | NHomeFile p _ \<Rightarrow> Some (p, True) | _ \<Rightarrow> None)"

definition home_file :: "view \<Rightarrow> nat \<Rightarrow> (string \<times> nat) option" where
  "home_file t ino = Option.bind (tget (vt_nodes t) ino) (\<lambda>n. case n_content n of
     NHomeFile p sz \<Rightarrow> Some (p, sz) | _ \<Rightarrow> None)"

definition drop_tree :: "nat \<Rightarrow> nat \<Rightarrow> view \<times> invalidation \<Rightarrow> view_node option \<times> view \<times> invalidation" where
  "drop_tree now ino s =
     (let (t, v) = remove_subtree now ino s; (n, t) = remove_node now ino t in (n, t, v))"

section \<open>A listing from the server\<close>

fun home_stale :: "nat \<Rightarrow> nat \<Rightarrow> string set \<Rightarrow> (string \<times> nat) list \<Rightarrow> view \<times> invalidation \<Rightarrow> view \<times> invalidation" where
  "home_stale now dir wanted [] s = s"
| "home_stale now dir wanted ((nm, i) # xs) s =
     home_stale now dir wanted xs
       (if nm \<notin> wanted then
          let (_, t, v) = drop_tree now i s in (t, removed (dir, i, nm) v)
        else s)"

definition home_entry_content :: "string \<Rightarrow> home_entry \<Rightarrow> node_content" where
  "home_entry_content dir e =
     (let p = join_home_path dir (he_name e)
      in if he_is_dir e then NHomeDir p False else NHomeFile p (he_size e))"

fun keeps_loaded :: "node_content \<Rightarrow> node_content \<Rightarrow> bool" where
  "keeps_loaded (NHomeDir _ True) (NHomeDir _ _) = True"
| "keeps_loaded _ _ = False"

fun home_listed :: "nat \<Rightarrow> nat \<Rightarrow> string \<Rightarrow> home_entry list \<Rightarrow> view \<times> invalidation \<Rightarrow> view \<times> invalidation" where
  "home_listed now dir path [] s = s"
| "home_listed now dir path (e # es) (t, v) =
     home_listed now dir path es
       (let content = home_entry_content path e
        in case lookup_node t dir (he_name e) of
          Some n \<Rightarrow>
            (if \<not> keeps_loaded (n_content n) content \<and> n_content n \<noteq> content
             then (upd_node (n_ino n) (\<lambda>n. n\<lparr>n_content := content\<rparr>) t, changed (n_ino n) v)
             else (t, v))
        | None \<Rightarrow> (snd (add_node now dir (he_name e) now content t), v))"

definition mark_loaded :: "bool \<Rightarrow> nat \<Rightarrow> view \<Rightarrow> view" where
  "mark_loaded on ino = upd_node ino (\<lambda>n. case n_content n of
     NHomeDir p l \<Rightarrow> n\<lparr>n_content := NHomeDir p (on \<or> l)\<rparr> | _ \<Rightarrow> n)"

definition apply_home_entries :: "nat \<Rightarrow> nat \<Rightarrow> home_entry list \<Rightarrow> view \<Rightarrow> view \<times> invalidation" where
  "apply_home_entries now dir entries t =
     (case home_path t dir of
        None \<Rightarrow> (t, inv0)
      | Some (path, _) \<Rightarrow>
          let (t, v) = home_stale now dir (he_name ` set entries) (kids t dir) (t, inv0);
              (t, v) = home_listed now dir path entries (t, v)
          in (mark_loaded True dir t, dirty_dir dir v))"

section \<open>Home by store key\<close>

definition set_home_mirrored :: "bool \<Rightarrow> view \<Rightarrow> view" where
  "set_home_mirrored on t = mark_loaded on (home_root_ino t) (t\<lparr>vt_mirrored := on\<rparr>)"

definition node_home_key :: "view \<Rightarrow> nat \<Rightarrow> string option" where
  "node_home_key t ino = map_option (\<lambda>(p, _). trim_with (\<lambda>c. c = slash) p) (home_path t ino)"

definition segments :: "string \<Rightarrow> string list" where
  "segments key = filter (\<lambda>s. s \<noteq> []) (split_on slash key)"

fun home_walk :: "view \<Rightarrow> nat \<Rightarrow> string list \<Rightarrow> nat option" where
  "home_walk t ino [] = Some ino"
| "home_walk t ino (s # ss) = (case lookup_node t ino s of
     None \<Rightarrow> None | Some n \<Rightarrow> home_walk t (n_ino n) ss)"

definition home_ino_for_key :: "view \<Rightarrow> string \<Rightarrow> nat option" where
  "home_ino_for_key t key = home_walk t (home_root_ino t) (segments key)"

fun ensure_dirs :: "nat \<Rightarrow> string list \<Rightarrow> nat \<Rightarrow> string \<Rightarrow> view \<times> invalidation \<Rightarrow> nat \<times> view \<times> invalidation" where
  "ensure_dirs now [] ino path s = (ino, s)"
| "ensure_dirs now (seg # segs) ino path (t, v) =
     (let path = path @ ''/'' @ seg
      in case lookup_node t ino seg of
        Some n \<Rightarrow>
          (if is_dir n then ensure_dirs now segs (n_ino n) path (t, v)
           else let t = snd (remove_node now (n_ino n) t);
                    v = removed (ino, n_ino n, seg) v;
                    (new, t) = add_node now ino seg now (NHomeDir path True) t
                in ensure_dirs now segs new path (t, dirty_dir ino v))
      | None \<Rightarrow>
          let (new, t) = add_node now ino seg now (NHomeDir path True) t
          in ensure_dirs now segs new path (t, added new (dirty_dir ino v)))"

definition ensure_home_dirs :: "nat \<Rightarrow> string \<Rightarrow> view \<times> invalidation \<Rightarrow> nat \<times> view \<times> invalidation" where
  "ensure_home_dirs now key s = ensure_dirs now (segments key) (home_root_ino (fst s)) [] s"

definition ensure_home_dir_key :: "nat \<Rightarrow> string \<Rightarrow> view \<Rightarrow> view \<times> invalidation" where
  "ensure_home_dir_key now key t = snd (ensure_home_dirs now key (t, inv0))"

definition split_key :: "string \<Rightarrow> string \<times> string" where
  "split_key key = (case rsplit_once slash key of Some (d, n) \<Rightarrow> (d, n) | None \<Rightarrow> ([], key))"

definition upsert_home_key :: "nat \<Rightarrow> string \<Rightarrow> nat \<Rightarrow> nat \<Rightarrow> view \<Rightarrow> view \<times> invalidation" where
  "upsert_home_key now key sz mtime t =
     (let key = trim_with (\<lambda>c. c = slash) key; (dir_key, nm) = split_key key
      in if nm = [] then (t, inv0)
         else let (dir, t, v) = ensure_home_dirs now dir_key (t, inv0);
                  content = NHomeFile (''/'' @ key) sz
              in case lookup_node t dir nm of
                Some n \<Rightarrow>
                  (if \<not> is_dir n then
                     (if n_content n \<noteq> content \<or> n_mtime n \<noteq> mtime
                      then (upd_node (n_ino n) (\<lambda>n. n\<lparr>n_content := content, n_mtime := mtime\<rparr>) t,
                            changed (n_ino n) v)
                      else (t, v))
                   else let (_, t, v) = drop_tree now (n_ino n) (t, v);
                            v = removed (dir, n_ino n, nm) v;
                            (new, t) = add_node now dir nm mtime content t
                        in (t, dirty_dir dir (added new v)))
              | None \<Rightarrow>
                  let (new, t) = add_node now dir nm mtime content t
                  in (t, dirty_dir dir (added new v)))"

text \<open>The directories above a removed key go as well while they are empty; the bound is the
  length of the key, since every step shortens it.\<close>

fun prune_up :: "nat \<Rightarrow> nat \<Rightarrow> string set \<Rightarrow> nat \<Rightarrow> string \<Rightarrow> view \<times> invalidation \<Rightarrow> view \<times> invalidation" where
  "prune_up now 0 keep cur key s = s"
| "prune_up now (Suc k) keep cur key (t, v) =
     (if cur = home_root_ino t then (t, v)
      else if (\<not> (case tget (vt_children t) cur of Some c \<Rightarrow> c = [] | None \<Rightarrow> True)) \<or> key \<in> keep then (t, v)
      else case remove_node now cur t of
          (None, t) \<Rightarrow> (t, v)
        | (Some d, t) \<Rightarrow>
            prune_up now k keep (n_parent d) (parent_key key)
              (t, dirty_dir (n_parent d) (removed (n_parent d, cur, n_name d) v)))"

definition remove_home_key :: "nat \<Rightarrow> string \<Rightarrow> string set \<Rightarrow> view \<Rightarrow> view \<times> invalidation" where
  "remove_home_key now key keep t =
     (let key = trim_with (\<lambda>c. c = slash) key
      in case home_ino_for_key t key of
        None \<Rightarrow> (t, inv0)
      | Some ino \<Rightarrow>
          if ino = home_root_ino t then (t, inv0)
          else case drop_tree now ino (t, inv0) of
            (None, t, v) \<Rightarrow> (t, v)
          | (Some n, t, v) \<Rightarrow>
              prune_up now (length key) keep (n_parent n) (parent_key key)
                (t, dirty_dir (n_parent n) (removed (n_parent n, ino, n_name n) v)))"

definition move_entry :: "nat \<Rightarrow> nat \<Rightarrow> string \<Rightarrow> view \<Rightarrow> view" where
  "move_entry ino new_parent nm t =
     (case tget (vt_nodes t) ino of
        None \<Rightarrow> t
      | Some n \<Rightarrow>
          let ch = (case tget (vt_children t) (n_parent n) of
                Some siblings \<Rightarrow> tput (n_parent n) (tdel (n_name n) siblings) (vt_children t)
              | None \<Rightarrow> vt_children t)
          in t\<lparr>vt_nodes := tput ino (n\<lparr>n_name := nm, n_parent := new_parent\<rparr>) (vt_nodes t),
               vt_children := tput new_parent (tput nm ino (or_default [] (tget ch new_parent))) ch\<rparr>)"

fun rekey_content :: "string \<Rightarrow> node_content \<Rightarrow> node_content" where
  "rekey_content p (NHomeDir _ l) = NHomeDir p l"
| "rekey_content p (NHomeFile _ sz) = NHomeFile p sz"
| "rekey_content p c = c"

fun rekey_below :: "nat \<Rightarrow> nat \<Rightarrow> string \<Rightarrow> view \<Rightarrow> view"
  and rekey_kids :: "nat \<Rightarrow> (string \<times> nat) list \<Rightarrow> string \<Rightarrow> view \<Rightarrow> view" where
  "rekey_below 0 ino path t = t"
| "rekey_below (Suc k) ino path t =
     rekey_kids k (kids t ino) path (upd_node ino (\<lambda>n. n\<lparr>n_content := rekey_content path (n_content n)\<rparr>) t)"
| "rekey_kids k [] path t = t"
| "rekey_kids k ((nm, i) # xs) path t = rekey_kids k xs path (rekey_below k i (join_home_path path nm) t)"

definition rekey_home_subtree :: "nat \<Rightarrow> string \<Rightarrow> view \<Rightarrow> view" where
  "rekey_home_subtree ino path t = rekey_below (length (vt_nodes t)) ino path t"

definition rename_home :: "nat \<Rightarrow> nat \<Rightarrow> nat \<Rightarrow> string \<Rightarrow> view \<Rightarrow> view" where
  "rename_home now ino new_parent nm t =
     (case home_path t new_parent of
        None \<Rightarrow> t
      | Some (parent, _) \<Rightarrow>
          touch_dir now new_parent
            (rekey_home_subtree ino (join_home_path parent nm) (move_entry ino new_parent nm t)))"

definition rename_home_key :: "nat \<Rightarrow> string \<Rightarrow> string \<Rightarrow> view \<Rightarrow> view \<times> invalidation" where
  "rename_home_key now from to t =
     (case home_ino_for_key t from of
        None \<Rightarrow> (t, inv0)
      | Some ino \<Rightarrow>
          if ino = home_root_ino t then (t, inv0)
          else
            let (dst_dir, dst_name) = split_key to;
                (dst, t, v) = ensure_home_dirs now dst_dir (t, inv0);
                (t, v) = (case lookup_node t dst dst_name of
                    Some n \<Rightarrow> (if n_ino n \<noteq> ino then
                        let (_, t, v) = drop_tree now (n_ino n) (t, v)
                        in (t, removed (dst, n_ino n, dst_name) v)
                      else (t, v))
                  | None \<Rightarrow> (t, v));
                old_parent = (case tget (vt_nodes t) ino of Some n \<Rightarrow> n_parent n | None \<Rightarrow> home_root_ino t);
                old_name = (case tget (vt_nodes t) ino of Some n \<Rightarrow> n_name n | None \<Rightarrow> []);
                t = rename_home now ino dst dst_name t
            in (t, added ino (dirty_dir dst (dirty_dir old_parent (removed (old_parent, ino, old_name) v)))))"

section \<open>The whole of Home\<close>

fun ancestors_of :: "nat \<Rightarrow> string \<Rightarrow> string list" where
  "ancestors_of 0 p = []"
| "ancestors_of (Suc k) p = (if p = [] then [] else p # ancestors_of k (parent_key p))"

definition above :: "string \<Rightarrow> string list" where
  "above key = ancestors_of (length key) (parent_key key)"

text \<open>The walk that finds what the snapshot does not want: a stack of directories still to
  look at; every directory is looked at once.\<close>

definition key_join :: "string \<Rightarrow> string \<Rightarrow> string" where
  "key_join key nm = (if key = [] then nm else key @ ''/'' @ nm)"

definition snapshot_kids :: "view \<Rightarrow> nat \<Rightarrow> (string \<times> nat \<times> bool) list" where
  "snapshot_kids t ino =
     List.map_filter (\<lambda>(nm, i). map_option (\<lambda>n. (nm, i, is_dir n)) (tget (vt_nodes t) i)) (kids t ino)"

definition kept :: "string set \<Rightarrow> string set \<Rightarrow> string \<Rightarrow> bool \<Rightarrow> bool" where
  "kept files dirs key d \<longleftrightarrow> (if d then key \<in> dirs else key \<in> files)"

fun snapshot_walk ::
    "nat \<Rightarrow> view \<Rightarrow> string set \<Rightarrow> string set \<Rightarrow> (nat \<times> string) list \<Rightarrow> nat list \<Rightarrow> nat list" where
  "snapshot_walk 0 t files dirs stack victims = victims"
| "snapshot_walk (Suc k) t files dirs [] victims = victims"
| "snapshot_walk (Suc k) t files dirs ((ino, key) # stack) victims =
     (let cs = map (\<lambda>(nm, i, d). (key_join key nm, i, d)) (snapshot_kids t ino);
          stay = filter (\<lambda>(ck, i, d). kept files dirs ck d) cs;
          go = filter (\<lambda>(ck, i, d). \<not> kept files dirs ck d) cs
      in snapshot_walk k t files dirs
           (rev (map (\<lambda>(ck, i, d). (i, ck)) (filter (\<lambda>(ck, i, d). d) stay)) @ stack)
           (victims @ map (\<lambda>(ck, i, d). i) go))"

fun drop_victims :: "nat \<Rightarrow> nat list \<Rightarrow> view \<times> invalidation \<Rightarrow> view \<times> invalidation" where
  "drop_victims now [] s = s"
| "drop_victims now (i # is) (t, v) =
     drop_victims now is (case tget (vt_nodes t) i of
        None \<Rightarrow> (t, v)
      | Some n \<Rightarrow> let (_, t, v) = drop_tree now i (t, v)
          in (t, dirty_dir (n_parent n) (removed (n_parent n, i, n_name n) v)))"

fun ensure_all :: "nat \<Rightarrow> string list \<Rightarrow> view \<times> invalidation \<Rightarrow> view \<times> invalidation" where
  "ensure_all now [] s = s"
| "ensure_all now (d # ds) s = ensure_all now ds (snd (ensure_home_dirs now d s))"

definition inv_extend :: "invalidation \<Rightarrow> invalidation \<Rightarrow> invalidation" where
  "inv_extend v u = v\<lparr>iv_removed := iv_removed v @ iv_removed u, iv_changed := iv_changed v @ iv_changed u,
     iv_dirty := iv_dirty v @ iv_dirty u, iv_added := iv_added v @ iv_added u\<rparr>"

fun upsert_all :: "nat \<Rightarrow> (string \<times> nat \<times> nat) list \<Rightarrow> view \<times> invalidation \<Rightarrow> view \<times> invalidation" where
  "upsert_all now [] s = s"
| "upsert_all now ((k, sz, mtime) # fs) (t, v) =
     (let (t, u) = upsert_home_key now k sz mtime t in upsert_all now fs (t, inv_extend v u))"

definition wanted_dirs :: "(string \<times> nat \<times> nat) list \<Rightarrow> string list \<Rightarrow> string list" where
  "wanted_dirs files dirs = remdups (dirs @ concat (map (\<lambda>(k, _). above k) files))"

definition apply_home_snapshot ::
    "nat \<Rightarrow> (string \<times> nat \<times> nat) list \<Rightarrow> string list \<Rightarrow> view \<Rightarrow> view \<times> invalidation" where
  "apply_home_snapshot now files dirs t =
     (let ds = wanted_dirs files dirs;
          victims = snapshot_walk (Suc (length (vt_nodes t))) t (fst ` set files) (set ds)
            [(home_root_ino t, [])] []
      in upsert_all now files (ensure_all now ds (drop_victims now victims (t, inv0))))"

end
