(* ===== verification/View_Ok.thy ===== *)
theory View_Ok
  imports View
begin

text \<open>
  Well-formedness of the mounted tree and how it changes: every listed name leads to a node
  that points back, every node is reachable from the root, only directories have entries and
  fresh inode numbers are free. Two effects are enough to describe the operations: a set of
  paths disappears (\<open>erases\<close>), or one node appears at a free path (\<open>puts\<close>). Directory
  timestamps, which every operation touches, are left out of the comparison (\<open>nview\<close>).
\<close>

section \<open>Paths\<close>

fun walk :: "view \<Rightarrow> nat \<Rightarrow> string list \<Rightarrow> nat option" where
  "walk t i [] = Some i"
| "walk t i (s # ss) = Option.bind (child t i s) (\<lambda>j. walk t j ss)"

lemma walk_append: "walk t i (p @ q) = Option.bind (walk t i p) (\<lambda>j. walk t j q)"
  by (induction p arbitrary: i) (auto split: Option.bind_split)

lemma walk_snoc: "walk t i (p @ [s]) = Option.bind (walk t i p) (\<lambda>j. child t j s)"
  by (simp add: walk_append)

definition erase_time :: "view_node \<Rightarrow> view_node" where
  "erase_time n = (if is_dir n then n\<lparr>n_mtime := 0\<rparr> else n)"

definition nview :: "view \<Rightarrow> nat \<Rightarrow> view_node option" where
  "nview t i = map_option erase_time (tget (vt_nodes t) i)"

lemma erase_time_simps [simp]:
  "n_ino (erase_time n) = n_ino n" "n_parent (erase_time n) = n_parent n" "n_name (erase_time n) = n_name n"
  "n_content (erase_time n) = n_content n" "is_dir (erase_time n) = is_dir n"
  by (auto simp: erase_time_def is_dir.simps)

lemma nview_None: "nview t i = None \<longleftrightarrow> tget (vt_nodes t) i = None"
  by (simp add: nview_def)

lemma nview_touch [simp]: "nview (touch_dir now p t) i = nview t i"
  by (auto simp: nview_def touch_dir_def erase_time_def is_dir.simps split: option.split)

lemma child_touch [simp]: "child (touch_dir now p t) q nm = child t q nm"
  by (simp add: child_def)

lemma child_next [simp]: "child (t\<lparr>vt_next := x\<rparr>) p nm = child t p nm"
  by (simp add: child_def)

lemma walk_next [simp]: "walk (t\<lparr>vt_next := x\<rparr>) i ps = walk t i ps"
  by (induction ps arbitrary: i) simp_all

lemma nview_next [simp]: "nview (t\<lparr>vt_next := x\<rparr>) i = nview t i"
  by (simp add: nview_def)

section \<open>Well-formedness\<close>

definition links_ok :: "view \<Rightarrow> bool" where
  "links_ok t \<longleftrightarrow> (\<forall>p nm i. child t p nm = Some i \<longrightarrow> i \<noteq> ROOT_INO
     \<and> (\<exists>n. nview t i = Some n \<and> n_parent n = p \<and> n_name n = nm)
     \<and> (\<exists>d. nview t p = Some d \<and> is_dir d))"

definition tables_ok :: "view \<Rightarrow> bool" where
  "tables_ok t \<longleftrightarrow> (\<forall>i n. nview t i = Some n \<longrightarrow> n_ino n = i)
     \<and> (\<forall>p c. tget (vt_children t) p = Some c \<longrightarrow> tsorted c)
     \<and> (\<forall>i. tget (vt_children t) i = None \<longleftrightarrow> nview t i = None)
     \<and> FIRST_DYNAMIC_INO \<le> vt_next t
     \<and> (\<forall>i. vt_next t \<le> i \<and> i < FIRST_OVERLAY_INO \<longrightarrow> nview t i = None)"

definition view_ok :: "view \<Rightarrow> bool" where
  "view_ok t \<longleftrightarrow> tables_ok t \<and> links_ok t
     \<and> (\<exists>n. nview t ROOT_INO = Some n \<and> is_dir n)
     \<and> (\<forall>i. nview t i \<noteq> None \<longrightarrow> (\<exists>ps. walk t ROOT_INO ps = Some i))"

lemma view_ok_link:
  assumes "view_ok t" "child t p nm = Some i"
  obtains n d where "i \<noteq> ROOT_INO" "nview t i = Some n" "n_parent n = p" "n_name n = nm" "n_ino n = i"
    "nview t p = Some d" "is_dir d"
proof -
  have l: "links_ok t" and tb: "tables_ok t" using assms(1) by (simp_all add: view_ok_def)
  have "i \<noteq> ROOT_INO \<and> (\<exists>n. nview t i = Some n \<and> n_parent n = p \<and> n_name n = nm)
     \<and> (\<exists>d. nview t p = Some d \<and> is_dir d)"
    using l assms(2) unfolding links_ok_def by blast
  then obtain n d where n: "i \<noteq> ROOT_INO" "nview t i = Some n" "n_parent n = p" "n_name n = nm"
    "nview t p = Some d" "is_dir d" by blast
  moreover have "n_ino n = i" using tb n(2) unfolding tables_ok_def by blast
  ultimately show ?thesis using that by blast
qed

lemma view_ok_reach: "view_ok t \<Longrightarrow> nview t i = Some n \<Longrightarrow> \<exists>ps. walk t ROOT_INO ps = Some i"
  by (simp add: view_ok_def)

lemma walk_node:
  assumes "view_ok t" "walk t ROOT_INO ps = Some i"
  shows "\<exists>n. nview t i = Some n"
proof (cases ps rule: rev_cases)
  case Nil
  then show ?thesis using assms by (auto simp: view_ok_def)
next
  case (snoc qs s)
  then show ?thesis using assms by (auto simp: walk_snoc bind_eq_Some_conv elim: view_ok_link)
qed

lemma walk_not_root: "view_ok t \<Longrightarrow> walk t ROOT_INO (ps @ [s]) \<noteq> Some ROOT_INO"
proof
  assume ok: "view_ok t" and w: "walk t ROOT_INO (ps @ [s]) = Some ROOT_INO"
  then obtain p where "child t p s = Some ROOT_INO" by (auto simp: walk_snoc bind_eq_Some_conv)
  then show False by (rule view_ok_link[OF ok]) simp
qed

lemma walk_inj:
  assumes "view_ok t"
  shows "walk t ROOT_INO ps = Some i \<Longrightarrow> walk t ROOT_INO qs = Some i \<Longrightarrow> ps = qs"
proof (induction ps arbitrary: qs i rule: rev_induct)
  case Nil
  then show ?case using walk_not_root[OF assms] by (cases qs rule: rev_cases) auto
next
  case (snoc s ps)
  obtain p where p: "walk t ROOT_INO ps = Some p" "child t p s = Some i"
    using snoc.prems by (auto simp: walk_snoc bind_eq_Some_conv)
  show ?case
  proof (cases qs rule: rev_cases)
    case Nil
    then show ?thesis using snoc.prems walk_not_root[OF assms] by simp
  next
    case (snoc qs' s')
    then obtain q where q: "walk t ROOT_INO qs' = Some q" "child t q s' = Some i"
      using snoc.prems by (auto simp: walk_snoc bind_eq_Some_conv)
    have "q = p \<and> s' = s" using p(2) q(2) assms by (metis option.inject view_ok_link)
    then show ?thesis using snoc snoc.IH[OF p(1)] q by simp
  qed
qed

lemma kids_child:
  assumes "view_ok t"
  shows "(nm, i) \<in> set (kids t p) \<longleftrightarrow> child t p nm = Some i"
proof -
  have "tget (vt_children t) p = Some c \<Longrightarrow> tsorted c" for c
    using assms by (simp add: view_ok_def tables_ok_def)
  then show ?thesis by (cases "tget (vt_children t) p") (auto simp: kids_def child_def tsorted_lookup)
qed

lemma kids_distinct: "view_ok t \<Longrightarrow> distinct (map fst (kids t p))"
  by (auto simp: kids_def view_ok_def tables_ok_def tsorted_distinct split: option.split)

lemma lookup_node_child:
  assumes "view_ok t" "lookup_node t p nm = Some n"
  shows "child t p nm = Some (n_ino n) \<and> tget (vt_nodes t) (n_ino n) = Some n
    \<and> nview t (n_ino n) = Some (erase_time n)"
proof -
  obtain i where i: "child t p nm = Some i" "tget (vt_nodes t) i = Some n"
    using assms(2) by (auto simp: lookup_node_def bind_eq_Some_conv)
  have "nview t i = Some (erase_time n)" using i by (simp add: nview_def)
  then have "n_ino n = i" using assms(1) by (metis erase_time_simps(1) tables_ok_def view_ok_def)
  then show ?thesis using i by (simp add: nview_def)
qed

lemma lookup_node_None: "view_ok t \<Longrightarrow> lookup_node t p nm = None \<longleftrightarrow> child t p nm = None"
proof -
  assume ok: "view_ok t"
  have "child t p nm = Some i \<Longrightarrow> tget (vt_nodes t) i \<noteq> None" for i
    using ok by (metis nview_None option.distinct(1) view_ok_link)
  then show ?thesis by (cases "child t p nm") (auto simp: lookup_node_def)
qed

section \<open>Effects\<close>

definition same_frame :: "view \<Rightarrow> view \<Rightarrow> bool" where
  "same_frame t u \<longleftrightarrow> vt_ws u = vt_ws t \<and> vt_docs u = vt_docs t \<and> vt_ctxs u = vt_ctxs t
     \<and> vt_tombstones u = vt_tombstones t \<and> vt_defer u = vt_defer t \<and> vt_context_root u = vt_context_root t
     \<and> vt_at_root u = vt_at_root t \<and> vt_mirrored u = vt_mirrored t \<and> vt_ctx_ws u = vt_ctx_ws t
     \<and> vt_ctx_urls u = vt_ctx_urls t \<and> vt_sigs u = vt_sigs t"

lemma same_frame_refl [simp]: "same_frame t t"
  by (simp add: same_frame_def)

lemma same_frame_trans: "same_frame t u \<Longrightarrow> same_frame u w \<Longrightarrow> same_frame t w"
  by (simp add: same_frame_def)

definition erases :: "string list set \<Rightarrow> view \<Rightarrow> view \<Rightarrow> bool" where
  "erases D t u \<longleftrightarrow> view_ok u \<and> same_frame t u \<and> vt_next u = vt_next t
     \<and> (\<forall>ps. walk u ROOT_INO ps = (if ps \<in> D then None else walk t ROOT_INO ps))
     \<and> (\<forall>j. nview u j = (if \<exists>ps\<in>D. walk t ROOT_INO ps = Some j then None else nview t j))"

definition puts :: "string list \<Rightarrow> nat \<Rightarrow> view_node \<Rightarrow> view \<Rightarrow> view \<Rightarrow> bool" where
  "puts q i n t u \<longleftrightarrow> view_ok u \<and> same_frame t u
     \<and> (\<forall>ps. walk u ROOT_INO ps = (if ps = q then Some i else walk t ROOT_INO ps))
     \<and> (\<forall>j. nview u j = (if j = i then Some (erase_time n) else nview t j))"

lemma erases_none: "view_ok t \<Longrightarrow> erases {} t t"
  by (simp add: erases_def)

lemma erases_trans: "erases D t u \<Longrightarrow> erases E u w \<Longrightarrow> erases (D \<union> E) t w"
  by (auto simp: erases_def intro: same_frame_trans)

lemma erases_cong:
  assumes "erases D t u" "\<And>ps. walk t ROOT_INO ps \<noteq> None \<Longrightarrow> ps \<in> D \<longleftrightarrow> ps \<in> E"
  shows "erases E t u"
proof -
  have "(if ps \<in> D then None else walk t ROOT_INO ps) = (if ps \<in> E then None else walk t ROOT_INO ps)" for ps
    using assms(2)[of ps] by (cases "walk t ROOT_INO ps") auto
  moreover have "(\<exists>ps\<in>D. walk t ROOT_INO ps = Some j) \<longleftrightarrow> (\<exists>ps\<in>E. walk t ROOT_INO ps = Some j)" for j
    using assms(2) by (metis option.distinct(1))
  ultimately show ?thesis using assms(1) by (simp add: erases_def)
qed

section \<open>One node more\<close>

lemma child_insert:
  assumes "n_ino n \<noteq> ROOT_INO" "tget (vt_children t) (n_ino n) = None" "n_ino n \<noteq> n_parent n"
  shows "child (insert_node now n t) p nm =
    (if p = n_parent n \<and> nm = n_name n then Some (n_ino n) else child t p nm)"
  using assms by (cases "tget (vt_children t) (n_parent n)") (auto simp: child_def insert_node_def Let_def)

lemma nview_insert:
  "nview (insert_node now n t) i = (if i = n_ino n then Some (erase_time n) else nview t i)"
  by (simp add: insert_node_def Let_def) (simp add: nview_def)

lemma walk_insert:
  assumes ok: "view_ok t" and i: "nview t (n_ino n) = None" and p: "walk t ROOT_INO q = Some (n_parent n)"
    and free: "child t (n_parent n) (n_name n) = None"
  shows "walk (insert_node now n t) ROOT_INO ps = (if ps = q @ [n_name n] then Some (n_ino n) else walk t ROOT_INO ps)"
proof -
  have kid: "tget (vt_children t) (n_ino n) = None" using ok i by (simp add: view_ok_def tables_ok_def)
  have root: "n_ino n \<noteq> ROOT_INO" using ok i by (auto simp: view_ok_def)
  have par: "n_ino n \<noteq> n_parent n" using walk_node[OF ok p] i by auto
  note c = child_insert[OF root kid par]
  have none: "child t (n_ino n) s = None" for s using kid by (simp add: child_def)
  show ?thesis
  proof (induction ps rule: rev_induct)
    case (snoc s ps)
    show ?case
    proof (cases "ps = q @ [n_name n]")
      case True
      then have "walk t ROOT_INO ps = None" using p free by (simp add: walk_snoc)
      moreover have "walk (insert_node now n t) ROOT_INO ps = Some (n_ino n)" using snoc True by simp
      moreover have "ps @ [s] \<noteq> q @ [n_name n]" using True by simp
      ultimately show ?thesis using c par none by (simp add: walk_snoc del: append1_eq_conv)
    next
      case False
      then have w: "walk (insert_node now n t) ROOT_INO ps = walk t ROOT_INO ps" using snoc by simp
      show ?thesis
      proof (cases "walk t ROOT_INO ps")
        case None
        then have "ps \<noteq> q" using p by auto
        then show ?thesis using None w by (simp add: walk_snoc)
      next
        case (Some j)
        then have "j = n_parent n \<longleftrightarrow> ps = q" using walk_inj[OF ok Some, of q] p by auto
        then show ?thesis using Some w c by (simp add: walk_snoc)
      qed
    qed
  qed simp
qed

lemma insert_puts:
  assumes ok: "view_ok t" and i: "nview t (n_ino n) = None" and p: "walk t ROOT_INO q = Some (n_parent n)"
    and free: "child t (n_parent n) (n_name n) = None" and d: "nview t (n_parent n) = Some d" "is_dir d"
    and bound: "n_ino n < vt_next t \<or> FIRST_OVERLAY_INO \<le> n_ino n"
  shows "puts (q @ [n_name n]) (n_ino n) n t (insert_node now n t)"
proof -
  let ?u = "insert_node now n t"
  have kid: "tget (vt_children t) (n_ino n) = None" using ok i by (simp add: view_ok_def tables_ok_def)
  have root: "n_ino n \<noteq> ROOT_INO" using ok i by (auto simp: view_ok_def)
  have par: "n_ino n \<noteq> n_parent n" using walk_node[OF ok p] i by auto
  note c = child_insert[OF root kid par] and w = walk_insert[OF ok i p free] and nv = nview_insert[of now n t]
  have tab: "tget (vt_children ?u) j = (if j = n_ino n then Some []
      else if j = n_parent n then Some (tput (n_name n) (n_ino n) (or_default [] (tget (vt_children t) j)))
      else tget (vt_children t) j)" for j
    using root kid par by (simp add: insert_node_def Let_def)
  have srt: "tsorted (or_default [] (tget (vt_children t) j))" for j
  proof (cases "tget (vt_children t) j")
    case (Some m)
    then show ?thesis using ok by (simp add: view_ok_def tables_ok_def)
  qed simp
  have t: "tables_ok t" using ok by (simp add: view_ok_def)
  have "tables_ok ?u"
    unfolding tables_ok_def
  proof (intro conjI allI impI)
    fix j m assume "nview ?u j = Some m"
    then show "n_ino m = j" using nv t by (auto simp: tables_ok_def split: if_splits)
  next
    fix j m assume "tget (vt_children ?u) j = Some m"
    then show "tsorted m" using tab srt t by (auto simp: tables_ok_def split: if_splits)
  next
    fix j show "(tget (vt_children ?u) j = None) = (nview ?u j = None)"
      using tab nv t d(1) by (auto simp: tables_ok_def)
  next
    show "FIRST_DYNAMIC_INO \<le> vt_next ?u" using t by (simp add: tables_ok_def)
  next
    fix j assume "vt_next ?u \<le> j \<and> j < FIRST_OVERLAY_INO"
    then show "nview ?u j = None" using nv t bound by (auto simp: tables_ok_def)
  qed
  moreover have "links_ok ?u"
    unfolding links_ok_def
  proof (intro allI impI)
    fix q' nm j assume a: "child ?u q' nm = Some j"
    show "j \<noteq> ROOT_INO \<and> (\<exists>m. nview ?u j = Some m \<and> n_parent m = q' \<and> n_name m = nm)
        \<and> (\<exists>d. nview ?u q' = Some d \<and> is_dir d)"
    proof (cases "q' = n_parent n \<and> nm = n_name n")
      case True
      then show ?thesis using a c nv root d par by auto
    next
      case False
      then have "child t q' nm = Some j" using a unfolding c by (simp split: if_splits)
      then obtain m e where "j \<noteq> ROOT_INO" "nview t j = Some m" "n_parent m = q'" "n_name m = nm"
        "nview t q' = Some e" "is_dir e" using view_ok_link[OF ok] by metis
      then show ?thesis using nv i by (auto split: if_splits)
    qed
  qed
  moreover have "\<exists>n. nview ?u ROOT_INO = Some n \<and> is_dir n" using ok nv root by (auto simp: view_ok_def)
  moreover have "\<exists>ps. walk ?u ROOT_INO ps = Some j" if j: "nview ?u j \<noteq> None" for j
  proof (cases "j = n_ino n")
    case False
    then obtain ps where "walk t ROOT_INO ps = Some j" using j nv ok by (auto simp: view_ok_def)
    moreover have "walk t ROOT_INO (q @ [n_name n]) = None" using p free by (simp add: walk_snoc)
    ultimately have "walk ?u ROOT_INO ps = Some j" using w by auto
    then show ?thesis ..
  next
    case True
    then have "walk ?u ROOT_INO (q @ [n_name n]) = Some j" using w by simp
    then show ?thesis ..
  qed
  ultimately have "view_ok ?u" by (simp add: view_ok_def)
  moreover have "same_frame t ?u" by (simp add: same_frame_def)
  ultimately show ?thesis using w nv by (simp add: puts_def)
qed

section \<open>One node less\<close>

lemma child_remove:
  assumes "view_ok t" "tget (vt_nodes t) i = Some n"
  shows "child (snd (remove_node now i t)) p nm =
    (if p = i \<or> (p = n_parent n \<and> nm = n_name n) then None else child t p nm)"
  using assms by (cases "tget (vt_children t) (n_parent n)") (auto simp: child_def remove_node_def Let_def)

lemma nview_remove: "nview (snd (remove_node now i t)) j = (if j = i then None else nview t j)"
  by (cases "tget (vt_nodes t) i") (auto simp: remove_node_def Let_def, auto simp: nview_def)

lemma remove_node_fst: "fst (remove_node now i t) = tget (vt_nodes t) i"
  by (simp add: remove_node_def Let_def split: option.split)

lemma remove_leaf:
  assumes ok: "view_ok t" and q: "walk t ROOT_INO q = Some i" "q \<noteq> []" and leaf: "\<And>s. child t i s = None"
  shows "erases {q} t (snd (remove_node now i t))"
proof -
  let ?u = "snd (remove_node now i t)"
  obtain n where n: "tget (vt_nodes t) i = Some n" using walk_node[OF ok q(1)] by (auto simp: nview_def)
  obtain qs s0 where qs: "q = qs @ [s0]" using q(2) by (cases q rule: rev_cases) auto
  then obtain p where p: "walk t ROOT_INO qs = Some p" "child t p s0 = Some i"
    using q(1) by (auto simp: walk_snoc bind_eq_Some_conv)
  have np: "n_parent n = p" "n_name n = s0" "i \<noteq> ROOT_INO"
    using p(2) n by (auto elim!: view_ok_link[OF ok] simp: nview_def)
  note c = child_remove[OF ok n, unfolded np] and nv = nview_remove[of now i t]
  have w: "walk ?u ROOT_INO ps = (if ps = q then None else walk t ROOT_INO ps)" for ps
  proof (induction ps rule: rev_induct)
    case (snoc s ps)
    show ?case
    proof (cases "ps = q")
      case True
      have "walk t ROOT_INO (ps @ [s]) = None" using q(1) leaf by (simp add: walk_snoc True)
      then show ?thesis using snoc True by (simp add: walk_snoc)
    next
      case False
      then have e: "walk ?u ROOT_INO ps = walk t ROOT_INO ps" using snoc by simp
      show ?thesis
      proof (cases "walk t ROOT_INO ps")
        case (Some j)
        have "j \<noteq> i" using walk_inj[OF ok Some, of q] q(1) False by auto
        moreover have "j = p \<longleftrightarrow> ps = qs" using walk_inj[OF ok Some, of qs] p(1) Some by auto
        ultimately show ?thesis using Some e c qs by (simp add: walk_snoc)
      qed (use e in \<open>simp add: walk_snoc\<close>)
    qed
  qed (use q in auto)
  have t: "tables_ok t" using ok by (simp add: view_ok_def)
  have tab: "tget (vt_children ?u) j = (if j = i then None else
      if j = p then map_option (tdel s0) (tget (vt_children t) j) else tget (vt_children t) j)" for j
    using n np by (cases "tget (vt_children t) p") (auto simp: remove_node_def Let_def)
  have "tables_ok ?u"
    unfolding tables_ok_def
  proof (intro conjI allI impI)
    fix j m assume "nview ?u j = Some m"
    then show "n_ino m = j" using nv t by (auto simp: tables_ok_def split: if_splits)
  next
    fix j m assume "tget (vt_children ?u) j = Some m"
    then show "tsorted m" using tab t by (auto simp: tables_ok_def split: if_splits)
  next
    fix j show "(tget (vt_children ?u) j = None) = (nview ?u j = None)"
      using tab nv t by (auto simp: tables_ok_def)
  next
    show "FIRST_DYNAMIC_INO \<le> vt_next ?u" using t by (simp add: tables_ok_def)
  next
    fix j assume "vt_next ?u \<le> j \<and> j < FIRST_OVERLAY_INO"
    then show "nview ?u j = None" using nv t by (auto simp: tables_ok_def)
  qed
  moreover have "links_ok ?u"
    unfolding links_ok_def
  proof (intro allI impI)
    fix q' nm j assume a: "child ?u q' nm = Some j"
    then have b: "child t q' nm = Some j" "q' \<noteq> i" "\<not> (q' = p \<and> nm = s0)" unfolding c by (auto split: if_splits)
    obtain m e where m: "j \<noteq> ROOT_INO" "nview t j = Some m" "n_parent m = q'" "n_name m = nm"
      "nview t q' = Some e" "is_dir e" using view_ok_link[OF ok b(1)] by metis
    have "j \<noteq> i" using m b(3) n np by (auto simp: nview_def)
    then show "j \<noteq> ROOT_INO \<and> (\<exists>m. nview ?u j = Some m \<and> n_parent m = q' \<and> n_name m = nm)
        \<and> (\<exists>d. nview ?u q' = Some d \<and> is_dir d)"
      using m nv b(2) by auto
  qed
  moreover have "\<exists>n. nview ?u ROOT_INO = Some n \<and> is_dir n" using ok nv np(3) by (auto simp: view_ok_def)
  moreover have "\<exists>ps. walk ?u ROOT_INO ps = Some j" if j: "nview ?u j \<noteq> None" for j
  proof -
    have "j \<noteq> i" "nview t j \<noteq> None" using j nv by (auto split: if_splits)
    then obtain ps where "walk t ROOT_INO ps = Some j" using ok by (auto simp: view_ok_def)
    then have "walk ?u ROOT_INO ps = Some j" using w q(1) \<open>j \<noteq> i\<close> by auto
    then show ?thesis ..
  qed
  ultimately have "view_ok ?u" by (simp add: view_ok_def)
  moreover have "same_frame t ?u" by (simp add: same_frame_def)
  ultimately show ?thesis using w nv q(1) by (simp add: erases_def)
qed

section \<open>Subtrees\<close>

definition below :: "view \<Rightarrow> nat \<Rightarrow> nat set" where
  "below t i = {j. \<exists>ps. ps \<noteq> [] \<and> walk t i ps = Some j}"

lemma below_nodes: "view_ok t \<Longrightarrow> below t i \<subseteq> fst ` set (vt_nodes t)"
proof
  fix j assume ok: "view_ok t" and "j \<in> below t i"
  then obtain ps where ps: "ps \<noteq> []" "walk t i ps = Some j" by (auto simp: below_def)
  then obtain qs s p where "child t p s = Some j"
    by (cases ps rule: rev_cases) (auto simp: walk_snoc bind_eq_Some_conv)
  then have "nview t j \<noteq> None" by (rule view_ok_link[OF ok]) simp
  then show "j \<in> fst ` set (vt_nodes t)" by (simp add: nview_None in_fst_tget)
qed

lemma below_finite: "view_ok t \<Longrightarrow> finite (below t i)"
  by (meson below_nodes finite_imageI finite_set finite_subset)

lemma below_kid:
  assumes ok: "view_ok t" and r: "walk t ROOT_INO q = Some i" and k: "child t i s = Some j"
  shows "below t j \<subset> below t i"
proof -
  have j: "j \<in> below t i" unfolding below_def using k by (intro CollectI exI[of _ "[s]"]) simp
  have "below t j \<subseteq> below t i"
  proof
    fix x assume "x \<in> below t j"
    then obtain ps where "walk t j ps = Some x" by (auto simp: below_def)
    then show "x \<in> below t i" unfolding below_def using k by (intro CollectI exI[of _ "s # ps"]) simp
  qed
  moreover have "j \<notin> below t j"
  proof
    assume "j \<in> below t j"
    then obtain ps where ps: "ps \<noteq> []" "walk t j ps = Some j" by (auto simp: below_def)
    have "walk t ROOT_INO (q @ [s]) = Some j" "walk t ROOT_INO ((q @ [s]) @ ps) = Some j"
      using r k ps by (simp_all add: walk_append)
    then show False using walk_inj[OF ok, of "q @ [s]" j "(q @ [s]) @ ps"] ps by simp
  qed
  ultimately show ?thesis using j by blast
qed

lemma below_card: "view_ok t \<Longrightarrow> card (below t i) \<le> length (vt_nodes t)"
  by (meson below_nodes card_image_le card_length card_mono dual_order.trans finite_imageI finite_set)

lemma erases_facts:
  assumes "erases D t u"
  shows "view_ok u" "same_frame t u" "vt_next u = vt_next t"
    "walk u ROOT_INO ps = (if ps \<in> D then None else walk t ROOT_INO ps)"
    "nview u j = (if \<exists>ps\<in>D. walk t ROOT_INO ps = Some j then None else nview t j)"
  using assms by (simp_all add: erases_def)

lemma erases_below:
  assumes e: "erases D t u" and w: "walk u ROOT_INO q = Some i"
  shows "below u i \<subseteq> below t i"
proof
  fix x assume "x \<in> below u i"
  then obtain ps where ps: "ps \<noteq> []" "walk u i ps = Some x" by (auto simp: below_def)
  then have "walk u ROOT_INO (q @ ps) = Some x" using w by (simp add: walk_append)
  then have "walk t ROOT_INO (q @ ps) = Some x" "walk t ROOT_INO q = Some i"
    using w by (auto simp: erases_facts(4)[OF e] split: if_splits)
  then show "x \<in> below t i" using ps by (auto simp: below_def walk_append)
qed

lemma remove_kid_step:
  assumes ok: "view_ok t" and w: "walk t ROOT_INO q = Some i" "q \<noteq> []"
    and b: "erases {ps. strict_prefix q ps} t u"
  shows "erases {ps. prefix q ps} t (snd (remove_node now i u)) \<and> fst (remove_node now i u) \<noteq> None"
proof -
  have wu: "walk u ROOT_INO q = Some i" using w by (simp add: erases_facts(4)[OF b])
  have "walk u ROOT_INO (q @ [s]) = None" for s by (simp add: erases_facts(4)[OF b] strict_prefix_def)
  then have "child u i s = None" for s using wu by (simp add: walk_snoc)
  then have r: "erases {q} u (snd (remove_node now i u))"
    using erases_facts(1)[OF b] wu w(2) by (intro remove_leaf)
  have "{ps. strict_prefix q ps} \<union> {q} = {ps. prefix q ps}" by (auto simp: strict_prefix_def)
  then have "erases {ps. prefix q ps} t (snd (remove_node now i u))" using erases_trans[OF b r] by simp
  moreover have "tget (vt_nodes u) i \<noteq> None"
    using walk_node[OF erases_facts(1)[OF b] wu] by (auto simp: nview_def)
  ultimately show ?thesis by (simp add: remove_node_fst)
qed

lemma erases_kid:
  assumes e: "erases {ps. prefix (q @ [nm]) ps} t u" and w: "walk t ROOT_INO q = Some i"
    and k: "child t i s = Some j" "s \<noteq> nm"
  shows "walk u ROOT_INO q = Some i" "child u i s = Some j"
proof -
  show q: "walk u ROOT_INO q = Some i"
    using w by (auto simp: erases_facts(4)[OF e] prefix_def)
  have "walk t ROOT_INO (q @ [s]) = Some j" using w k by (simp add: walk_snoc)
  then have "walk u ROOT_INO (q @ [s]) = Some j" using k(2) by (auto simp: erases_facts(4)[OF e])
  then show "child u i s = Some j" using q by (simp add: walk_snoc)
qed

lemma remove_kids_erases:
  assumes IH: "\<And>t v q i. view_ok t \<Longrightarrow> walk t ROOT_INO q = Some i \<Longrightarrow> card (below t i) \<le> k \<Longrightarrow>
      erases {ps. strict_prefix q ps} t (fst (remove_below now k i (t, v)))"
  shows "view_ok t \<Longrightarrow> walk t ROOT_INO q = Some i \<Longrightarrow>
    (\<And>nm j. (nm, j) \<in> set xs \<Longrightarrow> child t i nm = Some j \<and> card (below t j) \<le> k) \<Longrightarrow> distinct (map fst xs) \<Longrightarrow>
    erases {ps. \<exists>nm\<in>fst ` set xs. prefix (q @ [nm]) ps} t (fst (remove_kids now k (map snd xs) (t, v)))"
proof (induction xs arbitrary: t v)
  case Nil
  then show ?case by (simp add: erases_none)
next
  case (Cons x xs)
  obtain nm j where x: "x = (nm, j)" by (cases x)
  have kj: "child t i nm = Some j" "card (below t j) \<le> k" using Cons.prems(3)[of nm j] x by auto
  have wj: "walk t ROOT_INO (q @ [nm]) = Some j" using kj Cons.prems(2) by (simp add: walk_snoc)
  obtain u v1 where b: "remove_below now k j (t, v) = (u, v1)" by (cases "remove_below now k j (t, v)")
  have "erases {ps. strict_prefix (q @ [nm]) ps} t u" using IH[OF Cons.prems(1) wj kj(2), of v] b by simp
  from remove_kid_step[OF Cons.prems(1) wj _ this, of now]
  obtain n u2 where r: "remove_node now j u = (Some n, u2)" "erases {ps. prefix (q @ [nm]) ps} t u2"
    by (cases "remove_node now j u") auto
  have "view_ok u2" by (rule erases_facts(1)[OF r(2)])
  moreover have "walk u2 ROOT_INO q = Some i"
    using Cons.prems(2) by (auto simp: erases_facts(4)[OF r(2)] prefix_def)
  moreover have "child u2 i a = Some c \<and> card (below u2 c) \<le> k" if "(a, c) \<in> set xs" for a c
  proof -
    have a: "a \<noteq> nm" using Cons.prems(4) that x by (auto simp: image_iff)
    have c: "child t i a = Some c" "card (below t c) \<le> k" using Cons.prems(3)[of a c] that by auto
    note kid = erases_kid[OF r(2) Cons.prems(2) c(1) a]
    then have "walk u2 ROOT_INO (q @ [a]) = Some c" by (simp add: walk_snoc)
    then have "card (below u2 c) \<le> card (below t c)"
      using erases_below[OF r(2)] below_finite[OF Cons.prems(1)] by (intro card_mono) auto
    then show ?thesis using kid c(2) by simp
  qed
  ultimately have "erases {ps. \<exists>nm\<in>fst ` set xs. prefix (q @ [nm]) ps} u2
      (fst (remove_kids now k (map snd xs) (u2, removed (n_parent n, j, n_name n) v1)))"
    using Cons.prems(4) by (intro Cons.IH) auto
  from erases_trans[OF r(2) this]
  have "erases ({ps. prefix (q @ [nm]) ps} \<union> {ps. \<exists>nm\<in>fst ` set xs. prefix (q @ [nm]) ps}) t
      (fst (remove_kids now k (map snd (x # xs)) (t, v)))"
    using b r(1) by (simp add: x)
  moreover have "{ps. prefix (q @ [nm]) ps} \<union> {ps. \<exists>nm\<in>fst ` set xs. prefix (q @ [nm]) ps}
      = {ps. \<exists>nm\<in>fst ` set (x # xs). prefix (q @ [nm]) ps}" by (auto simp: x)
  ultimately show ?case by simp
qed

lemma remove_below_erases:
  "view_ok t \<Longrightarrow> walk t ROOT_INO q = Some i \<Longrightarrow> card (below t i) \<le> k \<Longrightarrow>
    erases {ps. strict_prefix q ps} t (fst (remove_below now k i (t, v)))"
proof (induction k arbitrary: t v q i)
  case 0
  then have e: "below t i = {}" using below_finite by (metis card_eq_0_iff le_zero_eq)
  have "erases {ps. strict_prefix q ps} t t"
  proof (rule erases_cong[OF erases_none[OF 0(1)]])
    fix ps assume w: "walk t ROOT_INO ps \<noteq> None"
    have "\<not> strict_prefix q ps"
    proof
      assume "strict_prefix q ps"
      then obtain r where "ps = q @ r" "r \<noteq> []" by (auto simp: strict_prefix_def prefix_def)
      then show False using w 0(2) e by (auto simp: walk_append below_def)
    qed
    then show "ps \<in> {} \<longleftrightarrow> ps \<in> {ps. strict_prefix q ps}" by simp
  qed
  then show ?case by simp
next
  case (Suc k)
  have kid: "child t i nm = Some j \<and> card (below t j) \<le> k" if "(nm, j) \<in> set (kids t i)" for nm j
  proof -
    have c: "child t i nm = Some j" using that kids_child[OF Suc.prems(1)] by simp
    have "card (below t j) < card (below t i)"
      by (rule psubset_card_mono[OF below_finite[OF Suc.prems(1)] below_kid[OF Suc.prems(1,2) c]])
    then show ?thesis using c Suc.prems(3) by simp
  qed
  have "erases {ps. \<exists>nm\<in>fst ` set (kids t i). prefix (q @ [nm]) ps} t
      (fst (remove_kids now k (map snd (kids t i)) (t, v)))"
    by (rule remove_kids_erases[OF Suc.IH Suc.prems(1,2) kid kids_distinct[OF Suc.prems(1)]])
  then have "erases {ps. strict_prefix q ps} t (fst (remove_kids now k (map snd (kids t i)) (t, v)))"
  proof (rule erases_cong)
    fix ps assume w: "walk t ROOT_INO ps \<noteq> None"
    have "strict_prefix q ps \<longleftrightarrow> (\<exists>nm r. ps = q @ nm # r)"
      by (auto simp: strict_prefix_def prefix_def) (metis list.exhaust)
    moreover have "nm \<in> fst ` set (kids t i)" if eq: "ps = q @ nm # r" for nm r
    proof -
      obtain c where "child t i nm = Some c"
        using w Suc.prems(2) unfolding eq by (cases "child t i nm") (auto simp: walk_append)
      then have "(nm, c) \<in> set (kids t i)" using kids_child[OF Suc.prems(1)] by simp
      then show ?thesis by (rule rev_image_eqI) simp
    qed
    ultimately show "ps \<in> {ps. \<exists>nm\<in>fst ` set (kids t i). prefix (q @ [nm]) ps} \<longleftrightarrow> ps \<in> {ps. strict_prefix q ps}"
      by (auto simp: prefix_def)
  qed
  then show ?case by simp
qed

lemma remove_subtree_erases:
  assumes "view_ok t" "walk t ROOT_INO q = Some i"
  shows "erases {ps. strict_prefix q ps} t (fst (remove_subtree now i (t, v)))"
  using remove_below_erases[OF assms below_card[OF assms(1)]] by (simp add: remove_subtree_def)

end
