(* ===== verification/View_Home_Ok.thy ===== *)
theory View_Home_Ok
  imports View_Home View_Ok
begin

text \<open>
  Home, seen by keys: which paths below the home root are directories and files (\<open>hview\<close>),
  the invariant that ties the stored paths to the positions (\<open>home_ok\<close>), and the effect of
  each operation on both.
\<close>

section \<open>Home as a map from paths\<close>

definition hpath :: "view \<Rightarrow> string list" where
  "hpath t = (if home_root_ino t = ROOT_INO then [] else [''Home''])"

definition pathstr :: "string list \<Rightarrow> string" where
  "pathstr ps = ''/'' @ join_with ''/'' ps"

definition hino :: "view \<Rightarrow> string list \<Rightarrow> nat option" where
  "hino t ps = walk t ROOT_INO (hpath t @ ps)"

definition hat :: "view \<Rightarrow> string list \<Rightarrow> view_node option" where
  "hat t ps = Option.bind (hino t ps) (nview t)"

datatype home_obj = HDir | HFile nat nat

definition hobj :: "view_node \<Rightarrow> home_obj" where
  "hobj n = (if is_dir n then HDir else HFile (node_size n) (n_mtime n))"

definition hview :: "view \<Rightarrow> string list \<Rightarrow> home_obj option" where
  "hview t ps = map_option hobj (hat t ps)"

definition seg_ok :: "string \<Rightarrow> bool" where
  "seg_ok s \<longleftrightarrow> s \<noteq> [] \<and> slash \<notin> set s"

definition home_content :: "string list \<Rightarrow> node_content \<Rightarrow> bool" where
  "home_content ps c \<longleftrightarrow> (\<exists>l. c = NHomeDir (pathstr ps) l) \<or> (ps \<noteq> [] \<and> (\<exists>sz. c = NHomeFile (pathstr ps) sz))"

definition home_ok :: "view \<Rightarrow> bool" where
  "home_ok t \<longleftrightarrow> view_ok t \<and> hino t [] = Some (home_root_ino t)
     \<and> (\<forall>ps n. hat t ps = Some n \<longrightarrow> list_all seg_ok ps \<and> home_content ps (n_content n))"

lemma same_frame_home:
  assumes "same_frame t u"
  shows "home_root_ino u = home_root_ino t" "hpath u = hpath t"
  using assms by (simp_all add: same_frame_def home_root_ino_def hpath_def)

lemma hino_snoc: "hino t (ps @ [s]) = Option.bind (hino t ps) (\<lambda>i. child t i s)"
  by (simp add: hino_def walk_snoc flip: append_assoc)

lemma hat_hino: "view_ok t \<Longrightarrow> hat t ps = None \<longleftrightarrow> hino t ps = None"
  using walk_node[of t] by (cases "hino t ps") (auto simp: hat_def hino_def)

lemma hview_None: "hview t ps = None \<longleftrightarrow> hat t ps = None"
  by (simp add: hview_def)

lemma home_ok_facts:
  assumes "home_ok t"
  shows "view_ok t" "hino t [] = Some (home_root_ino t)"
    "hat t ps = Some n \<Longrightarrow> list_all seg_ok ps \<and> home_content ps (n_content n)"
  using assms by (auto simp: home_ok_def)

lemma hat_parent:
  assumes "view_ok t" "hat t (ps @ [s]) \<noteq> None"
  shows "\<exists>d. hat t ps = Some d \<and> is_dir d"
proof -
  obtain i j where i: "hino t ps = Some i" "child t i s = Some j"
    using assms(2) by (auto simp: hat_def hino_snoc bind_eq_Some_conv)
  then obtain d where "nview t i = Some d" "is_dir d" using view_ok_link[OF assms(1)] by metis
  then show ?thesis using i by (simp add: hat_def)
qed

lemma hview_parent: "view_ok t \<Longrightarrow> hview t (ps @ [s]) \<noteq> None \<Longrightarrow> hview t ps = Some HDir"
  using hat_parent by (fastforce simp: hview_def hobj_def)

lemma hview_prefix:
  assumes "view_ok t" "hview t ps \<noteq> None" "strict_prefix qs ps"
  shows "hview t qs = Some HDir"
  using assms(2,3)
proof (induction ps rule: rev_induct)
  case (snoc s ps)
  have d: "hview t ps = Some HDir" using hview_parent[OF assms(1) snoc.prems(1)] .
  show ?case
  proof (cases "qs = ps")
    case False
    then have "strict_prefix qs ps" using snoc.prems(2) by (auto simp: strict_prefix_def)
    then show ?thesis using snoc.IH d by simp
  qed (use d in simp)
qed simp

lemma hroot_dir: "home_ok t \<Longrightarrow> hview t [] = Some HDir"
proof -
  assume ok: "home_ok t"
  then obtain n where n: "hat t [] = Some n" using hat_hino[of t "[]"] by (cases "hat t []") (auto simp: home_ok_def)
  then have "\<exists>l. n_content n = NHomeDir (pathstr []) l" using ok by (auto simp: home_ok_def home_content_def)
  then show ?thesis using n by (auto simp: hview_def hobj_def is_dir.simps)
qed

lemma is_dir_home: "home_content ps c \<Longrightarrow> n_content n = c \<Longrightarrow> is_dir n \<longleftrightarrow> (\<exists>l. c = NHomeDir (pathstr ps) l)"
  by (auto simp: home_content_def is_dir.simps)

section \<open>Effects on Home\<close>

definition hsame :: "view \<Rightarrow> view \<Rightarrow> bool" where
  "hsame t u \<longleftrightarrow> same_frame t u \<and> home_ok u \<and> vt_next t \<le> vt_next u"

lemma hsame_refl: "home_ok t \<Longrightarrow> hsame t t"
  by (simp add: hsame_def)

lemma hsame_trans: "hsame t u \<Longrightarrow> hsame u w \<Longrightarrow> hsame t w"
  by (auto simp: hsame_def intro: same_frame_trans)

lemma hsame_ok: "hsame t u \<Longrightarrow> home_ok u"
  by (simp add: hsame_def)

lemma home_erases:
  assumes ok: "home_ok t" and e: "erases {ps. \<exists>q\<in>Q. prefix (hpath t @ q) ps} t u" and q: "[] \<notin> Q"
  shows "hsame t u \<and> hino u ps = (if \<exists>q\<in>Q. prefix q ps then None else hino t ps)
    \<and> hat u ps = (if \<exists>q\<in>Q. prefix q ps then None else hat t ps)"
proof -
  note f = erases_facts[OF e]
  have hp: "hpath u = hpath t" "home_root_ino u = home_root_ino t" using same_frame_home[OF f(2)] by simp_all
  have hi: "hino u ps = (if \<exists>q\<in>Q. prefix q ps then None else hino t ps)" for ps
    by (simp add: hino_def hp f(4))
  have ha: "hat u ps = (if \<exists>q\<in>Q. prefix q ps then None else hat t ps)" for ps
  proof (cases "\<exists>q\<in>Q. prefix q ps")
    case False
    have "nview u i = nview t i" if i: "hino t ps = Some i" for i
    proof -
      have "walk t ROOT_INO rs = Some i \<Longrightarrow> rs = hpath t @ ps" for rs
        using walk_inj[OF home_ok_facts(1)[OF ok]] i by (simp add: hino_def)
      then have "\<not> (\<exists>rs\<in>{ps. \<exists>q\<in>Q. prefix (hpath t @ q) ps}. walk t ROOT_INO rs = Some i)"
        using False by fastforce
      then show ?thesis unfolding f(5) by (simp only: if_False)
    qed
    then show ?thesis using False by (cases "hino t ps") (auto simp: hat_def hi)
  qed (simp add: hat_def hi)
  have "home_ok u"
    using ok f(1) q by (auto simp: home_ok_def ha hi hp split: if_splits)
  then show ?thesis using f(2,3) hi ha by (simp add: hsame_def)
qed

lemma drop_tree_erases:
  assumes ok: "view_ok t" and w: "walk t ROOT_INO q = Some i" "q \<noteq> []"
  obtains n u v' where "drop_tree now i (t, v) = (Some n, u, v')" "erases {ps. prefix q ps} t u"
proof -
  obtain t1 v1 where s: "remove_subtree now i (t, v) = (t1, v1)" by (cases "remove_subtree now i (t, v)")
  have e: "erases {ps. strict_prefix q ps} t t1" using remove_subtree_erases[OF ok w(1), of now v] s by simp
  from remove_kid_step[OF ok w e, of now]
  obtain n u where r: "remove_node now i t1 = (Some n, u)" "erases {ps. prefix q ps} t u"
    by (cases "remove_node now i t1") auto
  have "drop_tree now i (t, v) = (Some n, u, v1)" by (simp add: drop_tree_def s r(1))
  then show ?thesis using that r(2) by blast
qed

lemma drop_tree_home:
  assumes ok: "home_ok t" and q: "hino t q = Some i" "q \<noteq> []"
  obtains n u v' where "drop_tree now i (t, v) = (Some n, u, v')" "hsame t u" "vt_next u = vt_next t"
    "\<And>ps. hino u ps = (if prefix q ps then None else hino t ps)"
    "\<And>ps. hview u ps = (if prefix q ps then None else hview t ps)"
proof -
  have w: "walk t ROOT_INO (hpath t @ q) = Some i" using q by (simp add: hino_def)
  obtain n u v' where d: "drop_tree now i (t, v) = (Some n, u, v')" "erases {ps. prefix (hpath t @ q) ps} t u"
    using drop_tree_erases[OF home_ok_facts(1)[OF ok] w] q(2) by blast
  have e: "erases {ps. \<exists>q\<in>{q}. prefix (hpath t @ q) ps} t u" using d(2) by simp
  have "hsame t u \<and> hino u ps = (if prefix q ps then None else hino t ps)
    \<and> hview u ps = (if prefix q ps then None else hview t ps)" for ps
    using home_erases[OF ok e, of ps] q(2) by (auto simp: hview_def)
  then show ?thesis using that d(1) erases_facts(3)[OF d(2)] by blast
qed

lemma home_puts:
  assumes ok: "home_ok t" and p: "puts (hpath t @ q) i n t u" and q: "q \<noteq> []" "list_all seg_ok q"
    and c: "home_content q (n_content n)" and fresh: "nview t i = None" and nx: "vt_next t \<le> vt_next u"
  shows "hsame t u \<and> hino u ps = (if ps = q then Some i else hino t ps)
    \<and> hat u ps = (if ps = q then Some (erase_time n) else hat t ps)"
proof -
  have f: "view_ok u" "same_frame t u" "\<And>ps. walk u ROOT_INO ps = (if ps = hpath t @ q then Some i else walk t ROOT_INO ps)"
    "\<And>j. nview u j = (if j = i then Some (erase_time n) else nview t j)"
    using p by (simp_all add: puts_def)
  have hp: "hpath u = hpath t" "home_root_ino u = home_root_ino t" using same_frame_home[OF f(2)] by simp_all
  have hi: "hino u ps = (if ps = q then Some i else hino t ps)" for ps
    by (simp add: hino_def hp f(3))
  have "hino t ps \<noteq> Some i" for ps
    using walk_node[OF home_ok_facts(1)[OF ok]] fresh by (fastforce simp: hino_def)
  then have ha: "hat u ps = (if ps = q then Some (erase_time n) else hat t ps)" for ps
    by (cases "hino t ps") (auto simp: hat_def hi f(4))
  have "home_ok u" using ok f(1) q c by (auto simp: home_ok_def ha hi hp split: if_splits)
  then show ?thesis using f(2) hi ha nx by (simp add: hsame_def)
qed

lemma add_node_home:
  assumes ok: "home_ok t" and q: "hino t q = Some p" "hview t q = Some HDir" and s: "seg_ok s"
    and free: "child t p s = None" and c: "home_content (q @ [s]) content"
    and a: "add_node now p s mt content t = (i, u)" and bound: "vt_next u \<le> FIRST_OVERLAY_INO"
  shows "hsame t u" "hino u ps = (if ps = q @ [s] then Some i else hino t ps)"
    "hat u ps = (if ps = q @ [s] then Some (erase_time (new_node i p s mt content)) else hat t ps)"
    "i = vt_next t" "vt_next u = vt_next t + 1"
proof -
  let ?n = "new_node (vt_next t) p s mt content"
  let ?t = "t\<lparr>vt_next := vt_next t + 1\<rparr>"
  have i: "i = vt_next t" and u: "u = insert_node now ?n ?t"
    using a by (auto simp: add_node_def alloc_ino_def)
  have nx: "vt_next u = vt_next t + 1" by (simp add: u)
  have vok: "view_ok t" by (rule home_ok_facts(1)[OF ok])
  have fresh: "nview t i = None"
    using vok bound nx i by (auto simp: view_ok_def tables_ok_def)
  have "view_ok ?t" using vok by (auto simp: view_ok_def tables_ok_def links_ok_def)
  moreover have "walk ?t ROOT_INO (hpath t @ q) = Some p" using q(1) by (simp add: hino_def)
  moreover obtain d where "nview t p = Some d" "is_dir d"
    using q by (auto simp: hview_def hat_def hobj_def split: if_splits)
  ultimately have "puts ((hpath t @ q) @ [n_name ?n]) (n_ino ?n) ?n ?t (insert_node now ?n ?t)"
    using fresh free i by (intro insert_puts) (auto simp: new_node_def)
  then have "puts (hpath t @ q @ [s]) i ?n ?t u" by (simp add: u i new_node_def)
  then have p: "puts (hpath t @ q @ [s]) i ?n t u"
    by (simp add: puts_def same_frame_def)
  have "list_all seg_ok (q @ [s])"
  proof -
    obtain d where "hat t q = Some d" using q(2) by (auto simp: hview_def)
    then show ?thesis using home_ok_facts(3)[OF ok] s by simp
  qed
  then have "hsame t u \<and> hino u ps = (if ps = q @ [s] then Some i else hino t ps)
      \<and> hat u ps = (if ps = q @ [s] then Some (erase_time ?n) else hat t ps)" for ps
    using home_puts[OF ok p _ _ _ fresh] c nx by (simp add: new_node_def)
  then show "hsame t u" "hino u ps = (if ps = q @ [s] then Some i else hino t ps)"
    "hat u ps = (if ps = q @ [s] then Some (erase_time (new_node i p s mt content)) else hat t ps)"
    "i = vt_next t" "vt_next u = vt_next t + 1"
    using i nx by (simp_all)
qed

section \<open>Directories along a key\<close>

lemma join_with_snoc: "xs \<noteq> [] \<Longrightarrow> join_with sep (xs @ [x]) = join_with sep xs @ sep @ x"
proof (induction xs)
  case (Cons y ys)
  then show ?case by (cases ys) (auto simp: join_with_Cons)
qed simp

lemma pathstr_snoc: "(if q = [] then [] else pathstr q) @ ''/'' @ s = pathstr (q @ [s])"
  using join_with_snoc[of q "''/''" s] by (auto simp: pathstr_def)

lemma lookup_home:
  assumes "home_ok t" "hino t q = Some p"
  shows "lookup_node t p s = None \<Longrightarrow> hino t (q @ [s]) = None"
    "lookup_node t p s = Some n \<Longrightarrow> hino t (q @ [s]) = Some (n_ino n) \<and> hat t (q @ [s]) = Some (erase_time n)
       \<and> tget (vt_nodes t) (n_ino n) = Some n \<and> hview t (q @ [s]) = Some (hobj n)"
proof -
  note v = home_ok_facts(1)[OF assms(1)]
  show "lookup_node t p s = None \<Longrightarrow> hino t (q @ [s]) = None"
    using lookup_node_None[OF v] assms(2) by (simp add: hino_snoc)
  assume "lookup_node t p s = Some n"
  then have n: "child t p s = Some (n_ino n)" "tget (vt_nodes t) (n_ino n) = Some n"
    "nview t (n_ino n) = Some (erase_time n)" using lookup_node_child[OF v] by auto
  have "hobj (erase_time n) = hobj n" by (simp add: hobj_def erase_time_def is_dir.simps)
  then show "hino t (q @ [s]) = Some (n_ino n) \<and> hat t (q @ [s]) = Some (erase_time n)
       \<and> tget (vt_nodes t) (n_ino n) = Some n \<and> hview t (q @ [s]) = Some (hobj n)"
    using n assms(2) by (simp add: hino_snoc hat_def hview_def)
qed

lemma prefix_step:
  "strict_prefix q ps \<and> prefix ps (q @ s # ss) \<longleftrightarrow>
     ps = q @ [s] \<or> (strict_prefix (q @ [s]) ps \<and> prefix ps (q @ s # ss))"
proof
  assume a: "strict_prefix q ps \<and> prefix ps (q @ s # ss)"
  then have "prefix q ps" "ps \<noteq> q" "prefix ps (q @ s # ss)" by (auto simp: strict_prefix_def)
  then obtain z r where "ps = q @ z" "ps \<noteq> q" "q @ s # ss = ps @ r" by (metis prefixE)
  then have z: "ps = q @ z" "z \<noteq> []" "s # ss = z @ r" by auto
  then obtain z' where "z = s # z'" by (cases z) auto
  then show "ps = q @ [s] \<or> (strict_prefix (q @ [s]) ps \<and> prefix ps (q @ s # ss))"
    using z by (auto simp: strict_prefix_def prefix_def)
next
  assume "ps = q @ [s] \<or> (strict_prefix (q @ [s]) ps \<and> prefix ps (q @ s # ss))"
  then show "strict_prefix q ps \<and> prefix ps (q @ s # ss)"
    by (auto simp: strict_prefix_def prefix_def)
qed

lemma drop_file_home:
  assumes ok: "home_ok t" and q: "hino t q = Some i" "q \<noteq> []" and f: "hview t q \<noteq> Some HDir"
  shows "hsame t (snd (remove_node now i t))"
    "hino (snd (remove_node now i t)) ps = (if prefix q ps then None else hino t ps)"
    "hview (snd (remove_node now i t)) ps = (if ps = q then None else hview t ps)"
    "vt_next (snd (remove_node now i t)) = vt_next t"
proof -
  note v = home_ok_facts(1)[OF ok]
  have w: "walk t ROOT_INO (hpath t @ q) = Some i" using q by (simp add: hino_def)
  have leaf: "child t i s = None" for s
  proof (rule ccontr)
    assume "child t i s \<noteq> None"
    then obtain j where "child t i s = Some j" by auto
    then have "hview t (q @ [s]) \<noteq> None" using q hat_hino[OF v, of "q @ [s]"] by (simp add: hview_None hino_snoc)
    then show False using f hview_parent[OF v] by blast
  qed
  have "erases {hpath t @ q} t (snd (remove_node now i t))"
    using remove_leaf[OF v w _ leaf] q(2) by simp
  then have e: "erases {ps. prefix (hpath t @ q) ps} t (snd (remove_node now i t))"
  proof (rule erases_cong)
    fix ps assume "walk t ROOT_INO ps \<noteq> None"
    moreover have "walk t ROOT_INO ((hpath t @ q) @ s # r) = None" for s r
      unfolding walk_append[of t ROOT_INO "hpath t @ q"] using w leaf by simp
    ultimately have "prefix (hpath t @ q) ps \<Longrightarrow> ps = hpath t @ q"
      unfolding prefix_def by (metis append_Nil2 list.exhaust)
    then show "ps \<in> {hpath t @ q} \<longleftrightarrow> ps \<in> {ps. prefix (hpath t @ q) ps}" by auto
  qed
  have e': "erases {ps. \<exists>q\<in>{q}. prefix (hpath t @ q) ps} t (snd (remove_node now i t))" using e by simp
  have h: "hsame t (snd (remove_node now i t)) \<and> hino (snd (remove_node now i t)) ps = (if prefix q ps then None else hino t ps)
    \<and> hat (snd (remove_node now i t)) ps = (if prefix q ps then None else hat t ps)" for ps
    using home_erases[OF ok e', of ps] q(2) by simp
  show "hsame t (snd (remove_node now i t))" using h by blast
  show "hino (snd (remove_node now i t)) ps = (if prefix q ps then None else hino t ps)" using h by blast
  have "hview t ps = None" if "prefix q ps" "ps \<noteq> q"
    using hview_prefix[OF v _ _, of ps q] f that by (cases "hview t ps") (auto simp: strict_prefix_def)
  then show "hview (snd (remove_node now i t)) ps = (if ps = q then None else hview t ps)"
    using h[of ps] by (auto simp: hview_def)
qed simp

lemma add_dir_home:
  assumes ok: "home_ok t" and q: "hino t q = Some p" "hview t q = Some HDir" and s: "seg_ok s"
    and free: "hino t (q @ [s]) = None"
    and a: "add_node now p s mt (NHomeDir (pathstr (q @ [s])) l) t = (i, u)" and bound: "vt_next u \<le> FIRST_OVERLAY_INO"
  shows "hsame t u" "hino u (q @ [s]) = Some i" "hview u ps = (if ps = q @ [s] then Some HDir else hview t ps)"
proof -
  have "child t p s = None" using free q(1) by (simp add: hino_snoc)
  moreover have "home_content (q @ [s]) (NHomeDir (pathstr (q @ [s])) l)" by (simp add: home_content_def)
  ultimately have h: "hsame t u" "\<And>ps. hino u ps = (if ps = q @ [s] then Some i else hino t ps)"
    "\<And>ps. hat u ps = (if ps = q @ [s] then Some (erase_time (new_node i p s mt (NHomeDir (pathstr (q @ [s])) l))) else hat t ps)"
    using add_node_home[OF ok q s _ _ a bound] by blast+
  then show "hsame t u" "hino u (q @ [s]) = Some i" "hview u ps = (if ps = q @ [s] then Some HDir else hview t ps)"
    by (auto simp: hview_def hobj_def new_node_def is_dir.simps)
qed

lemma add_node_next: "add_node now p s mt c t = (i, u) \<Longrightarrow> vt_next u = vt_next t + 1"
  by (auto simp: add_node_def alloc_ino_def)

lemma ensure_next: "ensure_dirs now segs ino path (t, v) = (j, u, v') \<Longrightarrow> vt_next t \<le> vt_next u"
proof (induction segs arbitrary: ino path t v)
  case (Cons s ss)
  then show ?case
    by (fastforce simp: Let_def split: option.splits if_splits prod.splits dest!: Cons.IH add_node_next)
qed simp

lemma ensure_dirs_home:
  assumes "home_ok t" "hino t q = Some ino" "hview t q = Some HDir" "path = (if q = [] then [] else pathstr q)"
    "list_all seg_ok segs" "ensure_dirs now segs ino path (t, v) = (j, u, v')" "vt_next u \<le> FIRST_OVERLAY_INO"
  shows "hsame t u \<and> hino u (q @ segs) = Some j
    \<and> (\<forall>ps. hview u ps = (if strict_prefix q ps \<and> prefix ps (q @ segs) then Some HDir else hview t ps))"
  using assms
proof (induction segs arbitrary: q ino path t v)
  case Nil
  then show ?case by (auto simp: hsame_refl strict_prefix_def dest: prefix_order.antisym)
next
  case (Cons s ss)
  let ?q = "q @ [s]" and ?p = "path @ ''/'' @ s"
  have p: "?p = pathstr ?q" using Cons.prems(4) pathstr_snoc[of q s] by simp
  have seg: "seg_ok s" "list_all seg_ok ss" using Cons.prems(5) by auto
  have go: ?case if t': "hsame t t'" "hino t' ?q = Some i'" "\<And>ps. hview t' ps = (if ps = ?q then Some HDir else hview t ps)"
      "ensure_dirs now ss i' ?p (t', w) = (j, u, v')" for t' i' w
  proof -
    have "?p = (if ?q = [] then [] else pathstr ?q)" using p by simp
    from Cons.IH[OF hsame_ok[OF t'(1)] t'(2) _ this seg(2) t'(4) Cons.prems(7)]
    have ih: "hsame t' u" "hino u (?q @ ss) = Some j"
      "\<And>ps. hview u ps = (if strict_prefix ?q ps \<and> prefix ps (?q @ ss) then Some HDir else hview t' ps)"
      using t'(3) by auto
    show ?thesis using hsame_trans[OF t'(1) ih(1)] ih(2,3) t'(3) prefix_step[of q _ s ss] by auto
  qed
  show ?case
  proof (cases "lookup_node t ino s")
    case None
    note free = lookup_home(1)[OF Cons.prems(1,2) None]
    obtain i' t' where a: "add_node now ino s now (NHomeDir ?p True) t = (i', t')"
      by (cases "add_node now ino s now (NHomeDir ?p True) t")
    have e: "ensure_dirs now ss i' ?p (t', added i' (dirty_dir ino v)) = (j, u, v')"
      using Cons.prems(6) None a by simp
    have "vt_next t' \<le> FIRST_OVERLAY_INO" using ensure_next[OF e] Cons.prems(7) by simp
    note h = add_dir_home[OF Cons.prems(1-3) seg(1) free a[unfolded p] this]
    show ?thesis by (rule go[OF h(1,2,3) e])
  next
    case (Some n)
    note l = lookup_home(2)[OF Cons.prems(1,2) Some]
    show ?thesis
    proof (cases "is_dir n")
      case True
      then have d: "hview t ?q = Some HDir" using l by (simp add: hobj_def)
      have e: "ensure_dirs now ss (n_ino n) ?p (t, v) = (j, u, v')" using Cons.prems(6) Some True by simp
      show ?thesis by (rule go[OF hsame_refl[OF Cons.prems(1)] _ _ e]) (use l d in auto)
    next
      case False
      let ?t1 = "snd (remove_node now (n_ino n) t)"
      have f: "hview t ?q \<noteq> Some HDir" using l False by (simp add: hobj_def)
      note d = drop_file_home[OF Cons.prems(1) conjunct1[OF l] _ f, simplified]
      obtain i' t' where a: "add_node now ino s now (NHomeDir ?p True) ?t1 = (i', t')"
        by (cases "add_node now ino s now (NHomeDir ?p True) ?t1")
      have e: "ensure_dirs now ss i' ?p (t', dirty_dir ino (removed (ino, n_ino n, s) v)) = (j, u, v')"
        using Cons.prems(6) Some False a by (simp add: Let_def)
      have b: "vt_next t' \<le> FIRST_OVERLAY_INO" using ensure_next[OF e] Cons.prems(7) by simp
      have "hino ?t1 q = Some ino" "hview ?t1 q = Some HDir" "hino ?t1 ?q = None"
        using d Cons.prems(2,3) by (auto simp: prefix_def)
      note h = add_dir_home[OF hsame_ok[OF d(1)] this(1,2) seg(1) this(3) a[unfolded p] b]
      show ?thesis
        by (rule go[OF hsame_trans[OF d(1) h(1)] h(2) _ e]) (simp add: h(3) d(3))
    qed
  qed
qed

section \<open>Updating a node in place\<close>

lemma upd_node_ok:
  assumes ok: "view_ok t" and n: "tget (vt_nodes t) i = Some n"
    and same: "n_ino (f n) = n_ino n" "n_parent (f n) = n_parent n" "n_name (f n) = n_name n" "is_dir (f n) = is_dir n"
  shows "view_ok (upd_node i f t)" "walk (upd_node i f t) j ps = walk t j ps"
    "nview (upd_node i f t) j = (if j = i then Some (erase_time (f n)) else nview t j)"
    "same_frame t (upd_node i f t)" "vt_next (upd_node i f t) = vt_next t"
proof -
  let ?u = "upd_node i f t"
  have u: "?u = t\<lparr>vt_nodes := tput i (f n) (vt_nodes t)\<rparr>" using n by (simp add: upd_node_def)
  have c: "child ?u p nm = child t p nm" for p nm by (simp add: u child_def)
  have w: "walk ?u j ps = walk t j ps" for j ps by (induction ps arbitrary: j) (simp_all add: c)
  have v: "nview ?u j = (if j = i then Some (erase_time (f n)) else nview t j)" for j by (simp add: u nview_def)
  have ni: "nview t i = Some (erase_time n)" using n by (simp add: nview_def)
  show "walk ?u j ps = walk t j ps" "nview ?u j = (if j = i then Some (erase_time (f n)) else nview t j)"
    "same_frame t ?u" "vt_next ?u = vt_next t"
    using w v by (simp_all add: u same_frame_def)
  have t: "tables_ok t" "links_ok t" using ok by (simp_all add: view_ok_def)
  have "n_ino (erase_time n) = i" using t(1) ni unfolding tables_ok_def by blast
  then have "tables_ok ?u" using t(1) ni same(1) unfolding tables_ok_def v by (auto simp: u)
  moreover have "links_ok ?u"
    unfolding links_ok_def c
  proof (intro allI impI)
    fix p nm j assume a: "child t p nm = Some j"
    obtain m e where m: "j \<noteq> ROOT_INO" "nview t j = Some m" "n_parent m = p" "n_name m = nm"
      "nview t p = Some e" "is_dir e" using view_ok_link[OF ok a] by metis
    have "\<exists>m. nview ?u j = Some m \<and> n_parent m = p \<and> n_name m = nm" using m ni same by (auto simp: v)
    moreover have "\<exists>d. nview ?u p = Some d \<and> is_dir d" using m ni same by (auto simp: v)
    ultimately show "j \<noteq> ROOT_INO \<and> (\<exists>m. nview ?u j = Some m \<and> n_parent m = p \<and> n_name m = nm)
        \<and> (\<exists>d. nview ?u p = Some d \<and> is_dir d)" using m(1) by simp
  qed
  moreover have "\<exists>n. nview ?u ROOT_INO = Some n \<and> is_dir n" using ok ni same by (auto simp: v view_ok_def)
  moreover have "\<forall>j. nview ?u j \<noteq> None \<longrightarrow> (\<exists>ps. walk ?u ROOT_INO ps = Some j)"
    using ok ni by (auto simp: v w view_ok_def)
  ultimately show "view_ok ?u" by (simp add: view_ok_def)
qed

lemma upd_file_home:
  assumes ok: "home_ok t" and q: "hino t q = Some i" "tget (vt_nodes t) i = Some n" "\<not> is_dir n"
    and f: "n_ino (f n) = n_ino n" "n_parent (f n) = n_parent n" "n_name (f n) = n_name n"
      "n_content (f n) = NHomeFile (pathstr q) sz"
  shows "hsame t (upd_node i f t)" "hino (upd_node i f t) ps = hino t ps"
    "hview (upd_node i f t) ps = (if ps = q then Some (HFile sz (n_mtime (f n))) else hview t ps)"
proof -
  let ?u = "upd_node i f t"
  have nd: "\<not> is_dir (f n)" using f(4) by (simp add: is_dir.simps)
  have d: "is_dir (f n) = is_dir n" using nd q(3) by simp
  note u = upd_node_ok[where f = f, OF home_ok_facts(1)[OF ok] q(2) f(1-3) d]
  have hp: "hpath ?u = hpath t" "home_root_ino ?u = home_root_ino t" using same_frame_home[OF u(4)] by simp_all
  have hi: "hino ?u ps = hino t ps" for ps by (simp add: hino_def hp u(2))
  have inj: "hino t ps = Some i \<longleftrightarrow> ps = q" for ps
    using q(1) walk_inj[OF home_ok_facts(1)[OF ok]] by (fastforce simp: hino_def)
  have ha: "hat ?u ps = (if ps = q then Some (f n) else hat t ps)" for ps
    using inj[of ps] nd q(1) by (cases "hino t ps") (auto simp: hat_def hi u(3) erase_time_def)
  have hq: "hat t q = Some n" using q by (simp add: hat_def nview_def erase_time_def)
  have "q \<noteq> []"
  proof
    assume "q = []"
    then have "is_dir n" using hroot_dir[OF ok] hq by (simp add: hview_def hobj_def split: if_splits)
    then show False using q(3) by simp
  qed
  then have "home_ok ?u" using ok u(1) f(4) hq by (auto simp: home_ok_def ha hi hp home_content_def split: if_splits)
  then show "hsame t ?u" using u(4,5) by (simp add: hsame_def)
  show "hino ?u ps = hino t ps" by (rule hi)
  show "hview ?u ps = (if ps = q then Some (HFile sz (n_mtime (f n))) else hview t ps)"
    using nd f(4) by (simp add: hview_def ha hobj_def)
qed

end
