(* ===== verification/View_Snapshot.thy ===== *)
theory View_Snapshot
  imports View_Home_Ok
begin

text \<open>
  The key-level operations of Home against its map of paths: an upsert is an update of the
  map, and the snapshot replaces the map by the files and directories of the store.
\<close>

section \<open>Keys and paths\<close>

definition key_path :: "string \<Rightarrow> string list" where
  "key_path key = split_on slash key"

definition path_key :: "string list \<Rightarrow> string" where
  "path_key ps = join_with ''/'' ps"

definition key_ok :: "string \<Rightarrow> bool" where
  "key_ok key \<longleftrightarrow> list_all seg_ok (key_path key)"

lemma key_path_key [simp]: "path_key (key_path key) = key"
  by (simp add: path_key_def key_path_def)

lemma path_key_path: "ps \<noteq> [] \<Longrightarrow> list_all seg_ok ps \<Longrightarrow> key_path (path_key ps) = ps"
  by (simp add: path_key_def key_path_def split_join_with list_all_iff seg_ok_def)

lemma key_path_ne [simp]: "key_path key \<noteq> []"
  by (simp add: key_path_def)

lemma key_ok_segments: "key_ok key \<Longrightarrow> segments key = key_path key"
  by (auto simp: key_ok_def segments_def key_path_def filter_id_conv list_all_iff seg_ok_def)

lemma key_ok_ne: "key_ok key \<Longrightarrow> key \<noteq> []"
  by (auto simp: key_ok_def key_path_def seg_ok_def)

lemma hd_join: "xs \<noteq> [] \<Longrightarrow> hd xs \<noteq> [] \<Longrightarrow> hd (join_with sep xs) = hd (hd xs)"
  by (cases "(sep, xs)" rule: join_with.cases) auto

lemma last_join: "xs \<noteq> [] \<Longrightarrow> last xs \<noteq> [] \<Longrightarrow> last (join_with sep xs) = last (last xs)"
proof (cases xs rule: rev_cases)
  case (snoc ys y)
  then show "last xs \<noteq> [] \<Longrightarrow> ?thesis" by (cases "ys = []") (simp_all add: join_with_snoc)
qed simp

lemma trim_with_id: "s \<noteq> [] \<Longrightarrow> \<not> p (hd s) \<Longrightarrow> \<not> p (last s) \<Longrightarrow> trim_with p s = s"
proof -
  assume "s \<noteq> []" "\<not> p (hd s)" "\<not> p (last s)"
  then have "dropWhile p s = s" "dropWhile p (rev s) = rev s"
    by (simp_all add: dropWhile_eq_self_iff hd_rev)
  then show ?thesis by (simp add: trim_with_def trim_end_with_def trim_start_with_def)
qed

lemma key_ok_trim:
  assumes "key_ok key"
  shows "trim_with (\<lambda>c. c = slash) key = key"
proof -
  have s: "s \<noteq> [] \<and> slash \<notin> set s" if "s \<in> set (key_path key)" for s
    using assms that by (simp add: key_ok_def list_all_iff seg_ok_def)
  have h: "hd (key_path key) \<in> set (key_path key)" "last (key_path key) \<in> set (key_path key)" by simp_all
  have "hd key = hd (hd (key_path key))" "last key = last (last (key_path key))"
    using hd_join[of "key_path key" "''/''"] last_join[of "key_path key" "''/''"] s[OF h(1)] s[OF h(2)]
    by (auto simp: path_key_def[symmetric])
  then have "hd key \<noteq> slash" "last key \<noteq> slash"
    using s[OF h(1)] s[OF h(2)] by (metis hd_in_set, metis last_in_set)
  then show ?thesis using key_ok_ne[OF assms] by (intro trim_with_id)
qed

lemma key_split:
  assumes "key_ok key"
  obtains ps s where "key_path key = ps @ [s]" "split_key key = (path_key ps, s)" "seg_ok s" "list_all seg_ok ps"
proof -
  obtain ps s where ps: "key_path key = ps @ [s]" by (cases "key_path key" rule: rev_cases) auto
  have s: "seg_ok s" "list_all seg_ok ps" using assms ps by (simp_all add: key_ok_def)
  have key: "key = path_key (ps @ [s])" using ps by (metis key_path_key)
  have "split_key key = (path_key ps, s)"
  proof (cases "ps = []")
    case True
    then have "rsplit_once slash key = None" using key s(1) by (simp add: path_key_def rsplit_once_None seg_ok_def)
    then show ?thesis using key True by (simp add: split_key_def path_key_def)
  next
    case False
    then have "key = path_key ps @ slash # s" using key by (simp add: path_key_def join_with_snoc)
    then have "rsplit_once slash key = Some (path_key ps, s)" using s(1) by (simp add: rsplit_once_Some seg_ok_def)
    then show ?thesis by (simp add: split_key_def)
  qed
  then show ?thesis using that ps s by blast
qed

lemma segments_path_key: "list_all seg_ok ps \<Longrightarrow> segments (path_key ps) = ps"
proof (cases "ps = []")
  case False
  assume ok: "list_all seg_ok ps"
  then have "key_path (path_key ps) = ps" using False path_key_path by blast
  then show ?thesis using key_ok_segments[of "path_key ps"] ok by (simp add: key_ok_def)
qed (simp add: segments_def path_key_def)

lemma pathstr_key: "pathstr (key_path key) = ''/'' @ key"
  using key_path_key[of key] by (simp add: pathstr_def path_key_def)

lemma home_ino_for_path:
  assumes ok: "home_ok t"
  shows "hino t q = Some i \<Longrightarrow> home_walk t i ss = hino t (q @ ss)"
proof (induction ss arbitrary: q i)
  case (Cons s ss)
  show ?case
  proof (cases "lookup_node t i s")
    case None
    have "hino t ((q @ [s]) @ ss) = None"
      using lookup_home(1)[OF ok Cons.prems None] unfolding hino_def append_assoc[symmetric] walk_append[of t ROOT_INO _ ss] by simp
    then show ?thesis using None by simp
  next
    case (Some n)
    then show ?thesis using Cons.IH[of "q @ [s]" "n_ino n"] lookup_home(2)[OF ok Cons.prems Some] by simp
  qed
qed simp

lemma home_ino_key: "home_ok t \<Longrightarrow> home_ino_for_key t key = hino t (segments key)"
  using home_ino_for_path[of t "[]" "home_root_ino t" "segments key"] home_ok_facts(2)
  by (simp add: home_ino_for_key_def)

section \<open>One key\<close>

lemma remove_next:
  "vt_next (fst (remove_below now k i s)) = vt_next (fst s)"
  "vt_next (fst (remove_kids now k is s)) = vt_next (fst s)"
proof (induction now k i s and now k "is" s rule: remove_below_remove_kids.induct)
  case (4 now k i ks s)
  obtain t v where b: "remove_below now k i s = (t, v)" by (cases "remove_below now k i s")
  obtain x u where r: "remove_node now i t = (x, u)" by (cases "remove_node now i t")
  have "vt_next u = vt_next t" using remove_frames(1)[of now i t] r by simp
  then show ?case using 4 b r by (cases x) (auto simp: split: option.splits)
qed simp_all

lemma drop_tree_next:
  assumes "drop_tree now i (t, v) = (x, u, w)"
  shows "vt_next u = vt_next t"
proof -
  obtain t1 v1 where s: "remove_subtree now i (t, v) = (t1, v1)" by (cases "remove_subtree now i (t, v)")
  then have "vt_next t1 = vt_next t"
    using remove_next(1)[of now "length (vt_nodes t)" i "(t, v)"] by (simp add: remove_subtree_def)
  moreover have "vt_next u = vt_next t1"
    using assms s remove_frames(1)[of now i t1] by (cases "remove_node now i t1") (auto simp: drop_tree_def)
  ultimately show ?thesis by simp
qed

lemma ensure_home:
  assumes ok: "home_ok t" and s: "list_all seg_ok (segments key)"
    and e: "ensure_home_dirs now key (t, v) = (j, u, v')" and b: "vt_next u \<le> FIRST_OVERLAY_INO"
  shows "hsame t u" "hino u (segments key) = Some j"
    "hview u ps = (if ps \<noteq> [] \<and> prefix ps (segments key) then Some HDir else hview t ps)"
  using ensure_dirs_home[OF ok home_ok_facts(2)[OF ok] hroot_dir[OF ok] _ s, of "[]" now v j u v'] e b
  by (auto simp: ensure_home_dirs_def strict_prefix_def)

lemma ensure_home_next: "ensure_home_dirs now key (t, v) = (j, u, v') \<Longrightarrow> vt_next t \<le> vt_next u"
  using ensure_next by (auto simp: ensure_home_dirs_def)

lemma add_file_home:
  assumes ok: "home_ok t" and q: "hino t q = Some p" "hview t q = Some HDir" and s: "seg_ok s"
    and free: "hino t (q @ [s]) = None"
    and a: "add_node now p s mt (NHomeFile (pathstr (q @ [s])) sz) t = (i, u)" and bound: "vt_next u \<le> FIRST_OVERLAY_INO"
  shows "hsame t u \<and> hview u ps = (if ps = q @ [s] then Some (HFile sz mt) else hview t ps)"
proof -
  have "child t p s = None" using free q(1) by (simp add: hino_snoc)
  moreover have "home_content (q @ [s]) (NHomeFile (pathstr (q @ [s])) sz)" by (simp add: home_content_def)
  ultimately have h: "hsame t u"
    "hat u ps = (if ps = q @ [s] then Some (erase_time (new_node i p s mt (NHomeFile (pathstr (q @ [s])) sz))) else hat t ps)"
    using add_node_home[OF ok q s _ _ a bound] by blast+
  then show ?thesis by (auto simp: hview_def hobj_def new_node_def is_dir.simps erase_time_def)
qed

lemma file_no_kids: "home_ok t \<Longrightarrow> hview t q \<noteq> Some HDir \<Longrightarrow> strict_prefix q ps \<Longrightarrow> hview t ps = None"
  using hview_prefix[OF home_ok_facts(1), of t ps q] by (cases "hview t ps") auto

lemma upsert_home:
  assumes ok: "home_ok t" and k: "key_ok key" and e: "upsert_home_key now key sz mt t = (u, v)"
    and b: "vt_next u \<le> FIRST_OVERLAY_INO"
  shows "hsame t u \<and> hview u ps =
    (if ps = key_path key then Some (HFile sz mt)
     else if ps \<noteq> [] \<and> strict_prefix ps (key_path key) then Some HDir
     else if strict_prefix (key_path key) ps then None else hview t ps)"
proof -
  obtain qs s where q: "key_path key = qs @ [s]" "split_key key = (path_key qs, s)" "seg_ok s" "list_all seg_ok qs"
    by (rule key_split[OF k])
  obtain dir t1 v1 where d: "ensure_home_dirs now (path_key qs) (t, inv0) = (dir, t1, v1)"
    by (cases "ensure_home_dirs now (path_key qs) (t, inv0)")
  have seg: "segments (path_key qs) = qs" by (rule segments_path_key[OF q(4)])
  let ?c = "NHomeFile (slash # key) sz"
  have c: "?c = NHomeFile (pathstr (qs @ [s])) sz" using pathstr_key[of key] q(1) by simp
  have sne: "s \<noteq> []" using q(3) by (simp add: seg_ok_def)
  have e': "(case lookup_node t1 dir s of
      Some n \<Rightarrow> (if \<not> is_dir n then
          (if n_content n \<noteq> ?c \<or> n_mtime n \<noteq> mt
           then (upd_node (n_ino n) (\<lambda>n. n\<lparr>n_content := ?c, n_mtime := mt\<rparr>) t1, changed (n_ino n) v1) else (t1, v1))
        else let (_, t, v) = drop_tree now (n_ino n) (t1, v1); v = removed (dir, n_ino n, s) v;
                 (new, t) = add_node now dir s mt ?c t in (t, dirty_dir dir (added new v)))
    | None \<Rightarrow> let (new, t) = add_node now dir s mt ?c t1 in (t, dirty_dir dir (added new v1))) = (u, v)"
    using e by (simp add: upsert_home_key_def key_ok_trim[OF k] q(2) sne d Let_def)
  have strict: "ps \<noteq> [] \<and> strict_prefix ps (qs @ [s]) \<longleftrightarrow> ps \<noteq> [] \<and> prefix ps qs"
    by (auto simp: strict_prefix_def)
  have pre: "hsame t t1 \<and> hino t1 qs = Some dir \<and> hview t1 qs = Some HDir
      \<and> (\<forall>ps. hview t1 ps = (if ps \<noteq> [] \<and> prefix ps qs then Some HDir else hview t ps))"
    if "vt_next t1 \<le> FIRST_OVERLAY_INO"
    using ensure_home[OF ok _ d that] seg q(4) hroot_dir[OF ok] by (cases "qs = []") auto
  have done_: ?thesis if t1: "vt_next t1 \<le> FIRST_OVERLAY_INO" and u: "hsame t1 u"
      "\<And>ps. hview u ps = (if ps = qs @ [s] then Some (HFile sz mt)
          else if strict_prefix (qs @ [s]) ps then None else hview t1 ps)"
  proof -
    note p = pre[OF t1]
    have "hsame t u" using hsame_trans[OF _ u(1)] p by blast
    moreover have "\<not> strict_prefix (qs @ [s]) ps" if "prefix ps qs"
      using prefix_length_le[OF that] by (auto dest: prefix_length_less)
    moreover have "hview t1 ps = (if ps \<noteq> [] \<and> prefix ps qs then Some HDir else hview t ps)" using p by blast
    ultimately show ?thesis unfolding q(1) using u(2)[of ps] strict by (cases "ps = []") auto
  qed
  show ?thesis
  proof (cases "lookup_node t1 dir s")
    case None
    then obtain new where a: "add_node now dir s mt ?c t1 = (new, u)" using e' by (auto split: prod.splits)
    have t1: "vt_next t1 \<le> FIRST_OVERLAY_INO" using add_node_next[OF a] b by simp
    note p = pre[OF t1]
    have ok1: "home_ok t1" using p hsame_ok by blast
    have pp: "hino t1 qs = Some dir" "hview t1 qs = Some HDir" using p by blast+
    have free: "hino t1 (qs @ [s]) = None" using lookup_home(1)[OF ok1 _ None] p by blast
    note h = add_file_home[OF ok1 pp q(3) free a[unfolded c] b]
    have "hview t1 (qs @ [s]) = None"
      using free hat_hino[OF home_ok_facts(1)[OF ok1]] by (simp add: hview_None)
    then have nk: "hview t1 ps = None" if "strict_prefix (qs @ [s]) ps" for ps
      using file_no_kids[OF ok1 _ that] by simp
    show ?thesis
    proof (rule done_[OF t1])
      show "hsame t1 u" using h by blast
      fix ps show "hview u ps = (if ps = qs @ [s] then Some (HFile sz mt)
          else if strict_prefix (qs @ [s]) ps then None else hview t1 ps)" using h[of ps] nk[of ps] by simp
    qed
  next
    case (Some n)
    show ?thesis
    proof (cases "is_dir n")
      case False
      have un: "vt_next u = vt_next t1" using e' Some False by (auto simp: upd_node_def split: if_splits option.splits)
      then have t1: "vt_next t1 \<le> FIRST_OVERLAY_INO" using b by simp
      note p = pre[OF t1]
      have ok1: "home_ok t1" using p hsame_ok by blast
      have l: "hino t1 (qs @ [s]) = Some (n_ino n)" "tget (vt_nodes t1) (n_ino n) = Some n" "hview t1 (qs @ [s]) = Some (hobj n)"
        using lookup_home(2)[OF ok1 _ Some] p by blast+
      have f: "hview t1 (qs @ [s]) \<noteq> Some HDir" using l(3) False by (simp add: hobj_def)
      note nk = file_no_kids[OF ok1 f]
      show ?thesis
      proof (cases "n_content n \<noteq> ?c \<or> n_mtime n \<noteq> mt")
        case True
        then have u: "u = upd_node (n_ino n) (\<lambda>n. n\<lparr>n_content := ?c, n_mtime := mt\<rparr>) t1" using e' Some False by auto
        have h: "hsame t1 u" "\<And>ps. hview u ps = (if ps = qs @ [s] then Some (HFile sz mt) else hview t1 ps)"
          using upd_file_home[OF ok1 l(1,2) False, of "\<lambda>n. n\<lparr>n_content := ?c, n_mtime := mt\<rparr>" sz] unfolding u c by simp_all
        show ?thesis by (rule done_[OF t1 h(1)]) (use h(2) nk in simp)
      next
        case same: False
        then have u: "u = t1" using e' Some False by auto
        have hv: "hview t1 (qs @ [s]) = Some (HFile sz mt)" using l(3) same False by (simp add: hobj_def)
        show ?thesis by (rule done_[OF t1]) (use hv u nk hsame_refl[OF ok1] in simp_all)
      qed
    next
      case True
      obtain x t2 v2 where dr: "drop_tree now (n_ino n) (t1, v1) = (x, t2, v2)" by (cases "drop_tree now (n_ino n) (t1, v1)")
      obtain new where a: "add_node now dir s mt ?c t2 = (new, u)" using e' Some True dr by (auto split: prod.splits)
      have t2: "vt_next t2 \<le> FIRST_OVERLAY_INO" using add_node_next[OF a] b by simp
      have "vt_next t2 = vt_next t1"
        by (rule drop_tree_next[OF dr])
      then have t1: "vt_next t1 \<le> FIRST_OVERLAY_INO" using t2 by simp
      note p = pre[OF t1]
      have ok1: "home_ok t1" using p hsame_ok by blast
      have pp: "hino t1 qs = Some dir" "hview t1 qs = Some HDir" using p by blast+
      have l: "hino t1 (qs @ [s]) = Some (n_ino n)" using lookup_home(2)[OF ok1 _ Some] p by blast
      have ne: "qs @ [s] \<noteq> []" by simp
      obtain n' u' v' where dh: "drop_tree now (n_ino n) (t1, v1) = (Some n', u', v')" "hsame t1 u'"
          "\<And>ps. hino u' ps = (if prefix (qs @ [s]) ps then None else hino t1 ps)"
          "\<And>ps. hview u' ps = (if prefix (qs @ [s]) ps then None else hview t1 ps)"
        by (rule drop_tree_home[OF ok1 l ne, of now v1]) (rule that; assumption)
      have "u' = t2" using dh(1) dr by simp
      then have dd: "hsame t1 t2" "\<And>ps. hino t2 ps = (if prefix (qs @ [s]) ps then None else hino t1 ps)"
          "\<And>ps. hview t2 ps = (if prefix (qs @ [s]) ps then None else hview t1 ps)"
        using dh(2-4) by simp_all
      have q2: "hino t2 qs = Some dir" "hview t2 qs = Some HDir" "hino t2 (qs @ [s]) = None"
        using dd(2)[of qs] dd(3)[of qs] dd(2)[of "qs @ [s]"] pp by (auto simp: prefix_def)
      note h = add_file_home[OF hsame_ok[OF dd(1)] q2(1,2) q(3) q2(3) a[unfolded c] b]
      show ?thesis
      proof (rule done_[OF t1])
        show "hsame t1 u" using hsame_trans[OF dd(1)] h by blast
        fix ps show "hview u ps = (if ps = qs @ [s] then Some (HFile sz mt)
            else if strict_prefix (qs @ [s]) ps then None else hview t1 ps)"
          using h[of ps] dd(3)[of ps] by (auto simp: strict_prefix_def)
      qed
    qed
  qed
qed

section \<open>Dropping a set of subtrees\<close>

lemma drop_victims_erases:
  assumes "view_ok t0" "erases D t0 t" "\<And>ps qs. ps \<in> D \<Longrightarrow> prefix ps qs \<Longrightarrow> qs \<in> D"
    and "\<And>i q. (i, q) \<in> set zs \<Longrightarrow> walk t0 ROOT_INO q = Some i \<and> q \<noteq> []"
  shows "erases (D \<union> {ps. \<exists>q\<in>snd ` set zs. prefix q ps}) t0 (fst (drop_victims now (map fst zs) (t, v)))"
  using assms(2-4)
proof (induction zs arbitrary: D t v)
  case (Cons z zs)
  obtain i q where z: "z = (i, q)" by (cases z)
  have w: "walk t0 ROOT_INO q = Some i" "q \<noteq> []" using Cons.prems(3)[of i q] z by auto
  have e: "(D \<union> {ps. prefix q ps}) \<union> {ps. \<exists>q\<in>snd ` set zs. prefix q ps}
      = D \<union> {ps. \<exists>q\<in>snd ` set (z # zs). prefix q ps}" by (auto simp: z)
  have up: "ps \<in> D \<union> {ps. prefix q ps} \<Longrightarrow> prefix ps qs \<Longrightarrow> qs \<in> D \<union> {ps. prefix q ps}" for ps qs
    using Cons.prems(2) by (auto intro: prefix_order.trans)
  show ?case
  proof (cases "q \<in> D")
    case True
    then have "nview t i = None" using erases_facts(5)[OF Cons.prems(1), of i] w(1) by auto
    then have "tget (vt_nodes t) i = None" by (simp add: nview_None)
    then have "drop_victims now (map fst (z # zs)) (t, v) = drop_victims now (map fst zs) (t, v)" by (simp add: z)
    moreover have "{ps. prefix q ps} \<subseteq> D" using True Cons.prems(2) by blast
    then have "D \<union> {ps. \<exists>q\<in>snd ` set (z # zs). prefix q ps} = D \<union> {ps. \<exists>q\<in>snd ` set zs. prefix q ps}"
      by (auto simp: z)
    moreover have "erases (D \<union> {ps. \<exists>q\<in>snd ` set zs. prefix q ps}) t0 (fst (drop_victims now (map fst zs) (t, v)))"
      by (rule Cons.IH[OF Cons.prems(1,2)]) (use Cons.prems(3) in auto)
    ultimately show ?thesis by (simp only:)
  next
    case False
    then have wt: "walk t ROOT_INO q = Some i" using w by (simp add: erases_facts(4)[OF Cons.prems(1)])
    have ok: "view_ok t" by (rule erases_facts(1)[OF Cons.prems(1)])
    obtain n u v' where d: "drop_tree now i (t, v) = (Some n, u, v')" "erases {ps. prefix q ps} t u"
      by (rule drop_tree_erases[OF ok wt w(2), of now v])
    obtain m where m: "tget (vt_nodes t) i = Some m" using walk_node[OF ok wt] by (auto simp: nview_def)
    have "drop_victims now (map fst (z # zs)) (t, v)
        = drop_victims now (map fst zs) (u, dirty_dir (n_parent m) (removed (n_parent m, i, n_name m) v'))"
      by (simp add: z m d(1))
    moreover have s: "erases (D \<union> {ps. prefix q ps}) t0 u" by (rule erases_trans[OF Cons.prems(1) d(2)])
    have "erases ((D \<union> {ps. prefix q ps}) \<union> {ps. \<exists>q\<in>snd ` set zs. prefix q ps}) t0
        (fst (drop_victims now (map fst zs) (u, dirty_dir (n_parent m) (removed (n_parent m, i, n_name m) v'))))"
      by (rule Cons.IH[OF s up]) (assumption, assumption, use Cons.prems(3) in auto)
    ultimately show ?thesis by (simp only: e)
  qed
qed simp

section \<open>Finding what is not wanted\<close>

definition keep_at :: "view \<Rightarrow> string set \<Rightarrow> string set \<Rightarrow> string list \<Rightarrow> bool" where
  "keep_at t F D ps \<longleftrightarrow> (case hview t ps of
     None \<Rightarrow> False | Some HDir \<Rightarrow> path_key ps \<in> D | Some (HFile _ _) \<Rightarrow> path_key ps \<in> F)"

definition good :: "view \<Rightarrow> string set \<Rightarrow> string set \<Rightarrow> string list \<Rightarrow> bool" where
  "good t F D qs \<longleftrightarrow> hview t qs = Some HDir \<and> (\<forall>rs. rs \<noteq> [] \<and> prefix rs qs \<longrightarrow> keep_at t F D rs)"

definition bad :: "view \<Rightarrow> string set \<Rightarrow> string set \<Rightarrow> string list \<Rightarrow> bool" where
  "bad t F D q \<longleftrightarrow> (\<exists>qs s. q = qs @ [s] \<and> good t F D qs \<and> hview t q \<noteq> None \<and> \<not> keep_at t F D q)"

lemma good_snoc: "good t F D (qs @ [s]) \<longleftrightarrow> good t F D qs \<and> hview t (qs @ [s]) = Some HDir \<and> keep_at t F D (qs @ [s])"
  if "view_ok t"
proof
  assume g: "good t F D (qs @ [s])"
  then have "hview t qs = Some HDir" using hview_parent[OF that, of qs s] by (simp add: good_def)
  then show "good t F D qs \<and> hview t (qs @ [s]) = Some HDir \<and> keep_at t F D (qs @ [s])"
    using g by (simp add: good_def)
qed (auto simp: good_def)

definition below_home :: "view \<Rightarrow> string list \<Rightarrow> string list set" where
  "below_home t qs = {ps. prefix qs ps \<and> hino t ps \<noteq> None}"

lemma hino_inj: "view_ok t \<Longrightarrow> hino t ps = Some i \<Longrightarrow> hino t qs = Some i \<Longrightarrow> ps = qs"
  using walk_inj[of t "hpath t @ ps" i "hpath t @ qs"] by (simp add: hino_def)

lemma below_home_card:
  assumes "view_ok t"
  shows "finite (below_home t qs) \<and> card (below_home t qs) \<le> length (vt_nodes t)"
proof -
  let ?f = "\<lambda>ps. the (hino t ps)"
  have sub: "?f ` below_home t qs \<subseteq> fst ` set (vt_nodes t)"
  proof
    fix i assume "i \<in> ?f ` below_home t qs"
    then obtain ps where "hino t ps = Some i" by (auto simp: below_home_def)
    then have "nview t i \<noteq> None" using walk_node[OF assms] by (fastforce simp: hino_def)
    then show "i \<in> fst ` set (vt_nodes t)" by (simp add: nview_None in_fst_tget)
  qed
  have inj: "inj_on ?f (below_home t qs)"
    using hino_inj[OF assms] by (auto simp: inj_on_def below_home_def)
  have fin: "finite (?f ` below_home t qs)" using sub finite_subset by blast
  have "card (below_home t qs) = card (?f ` below_home t qs)" using inj by (simp add: card_image)
  also have "\<dots> \<le> card (fst ` set (vt_nodes t))" using sub by (intro card_mono) auto
  also have "\<dots> \<le> length (vt_nodes t)" by (meson card_image_le card_length dual_order.trans finite_set)
  finally show ?thesis using fin inj finite_image_iff by blast
qed

lemma below_home_kids:
  assumes ok: "view_ok t" and q: "hino t qs \<noteq> None" and d: "distinct ss"
  shows "(\<Sum>s\<leftarrow>ss. card (below_home t (qs @ [s]))) < card (below_home t qs)"
proof -
  have fin: "finite (below_home t r)" for r using below_home_card[OF ok] by blast
  have "(\<Sum>s\<leftarrow>ss. card (below_home t (qs @ [s]))) = (\<Sum>s\<in>set ss. card (below_home t (qs @ [s])))"
    using d by (simp add: sum_list_distinct_conv_sum_set)
  also have "\<dots> = card (\<Union>s\<in>set ss. below_home t (qs @ [s]))"
  proof -
    have "\<forall>s\<in>set ss. finite (below_home t (qs @ [s]))" using fin by blast
    moreover have "\<forall>s\<in>set ss. \<forall>r\<in>set ss. s \<noteq> r \<longrightarrow> below_home t (qs @ [s]) \<inter> below_home t (qs @ [r]) = {}"
      by (auto simp: below_home_def prefix_def)
    ultimately show ?thesis by (simp add: card_UN_disjoint)
  qed
  also have "\<dots> < card (below_home t qs)"
  proof (rule psubset_card_mono[OF fin])
    have "(\<Union>s\<in>set ss. below_home t (qs @ [s])) \<subseteq> below_home t qs - {qs}"
      by (auto simp: below_home_def dest: append_prefixD)
    moreover have "qs \<in> below_home t qs" using q by (simp add: below_home_def)
    ultimately show "(\<Union>s\<in>set ss. below_home t (qs @ [s])) \<subset> below_home t qs" by blast
  qed
  finally show ?thesis .
qed

lemma snapshot_kids_home:
  assumes ok: "home_ok t" and q: "hino t qs = Some ino"
  shows "distinct (map fst (snapshot_kids t ino))"
    "(nm, i, d) \<in> set (snapshot_kids t ino) \<longleftrightarrow>
       hino t (qs @ [nm]) = Some i \<and> (d \<longleftrightarrow> hview t (qs @ [nm]) = Some HDir)"
proof -
  note v = home_ok_facts(1)[OF ok]
  have node: "\<exists>n. tget (vt_nodes t) i = Some n \<and> (is_dir n \<longleftrightarrow> hview t (qs @ [nm]) = Some HDir)"
    if c: "child t ino nm = Some i" for nm i
  proof -
    have h: "hino t (qs @ [nm]) = Some i" using q c by (simp add: hino_snoc)
    obtain n where n: "tget (vt_nodes t) i = Some n"
      using view_ok_link[OF v c] by (metis nview_None option.exhaust option.distinct(1))
    then have "hat t (qs @ [nm]) = Some (erase_time n)" using h by (simp add: hat_def nview_def)
    then show ?thesis using n by (simp add: hview_def hobj_def)
  qed
  have eq: "snapshot_kids t ino = map (\<lambda>(nm, i). (nm, i, is_dir (the (tget (vt_nodes t) i)))) (kids t ino)"
  proof -
    have "List.map_filter (\<lambda>(nm, i). map_option (\<lambda>n. (nm, i, is_dir n)) (tget (vt_nodes t) i)) xs
        = map (\<lambda>(nm, i). (nm, i, is_dir (the (tget (vt_nodes t) i)))) xs" if "set xs \<subseteq> set (kids t ino)" for xs
      using that
    proof (induction xs)
      case (Cons x xs)
      obtain nm i where x: "x = (nm, i)" by (cases x)
      then obtain n where "tget (vt_nodes t) i = Some n" using node kids_child[OF v] Cons.prems by fastforce
      then show ?case using Cons x by (simp add: List.map_filter_simps)
    qed (simp add: List.map_filter_simps)
    then show ?thesis by (simp add: snapshot_kids_def)
  qed
  show "distinct (map fst (snapshot_kids t ino))"
    using kids_distinct[OF v] by (simp add: eq o_def split_def)
  have "(nm, i, d) \<in> set (snapshot_kids t ino) \<longleftrightarrow> child t ino nm = Some i \<and> d = is_dir (the (tget (vt_nodes t) i))"
    unfolding eq using kids_child[OF v, of nm i ino] by (force simp: image_iff)
  also have "\<dots> \<longleftrightarrow> hino t (qs @ [nm]) = Some i \<and> (d \<longleftrightarrow> hview t (qs @ [nm]) = Some HDir)"
    using q node by (fastforce simp: hino_snoc)
  finally show "(nm, i, d) \<in> set (snapshot_kids t ino) \<longleftrightarrow>
       hino t (qs @ [nm]) = Some i \<and> (d \<longleftrightarrow> hview t (qs @ [nm]) = Some HDir)" .
qed

lemma key_join_path: "list_all seg_ok qs \<Longrightarrow> key_join (path_key qs) nm = path_key (qs @ [nm])"
proof (cases "qs = []")
  case False
  assume "list_all seg_ok qs"
  then have "path_key qs \<noteq> []" using False path_key_path[of qs] by (auto simp: key_path_def seg_ok_def)
  then show ?thesis using False by (simp add: key_join_def path_key_def join_with_snoc)
qed (simp add: key_join_def path_key_def)

lemma hino_segs: "home_ok t \<Longrightarrow> hino t qs \<noteq> None \<Longrightarrow> list_all seg_ok qs"
  using hat_hino[of t qs] home_ok_facts(1,3) by (cases "hat t qs") auto

lemma kept_keep_at:
  assumes "home_ok t" "hino t ps = Some i"
  shows "kept F D (path_key ps) (hview t ps = Some HDir) \<longleftrightarrow> keep_at t F D ps"
proof -
  have "hview t ps \<noteq> None" using assms hat_hino[OF home_ok_facts(1)[OF assms(1)], of ps] by (simp add: hview_None)
  then obtain x where x: "hview t ps = Some x" by auto
  then show ?thesis by (cases x) (auto simp: kept_def keep_at_def)
qed

abbreviation pino :: "view \<Rightarrow> string list \<Rightarrow> nat" where
  "pino t q \<equiv> the (hino t q)"

text \<open>The children of one directory, split as the walk does.\<close>

definition stay_paths :: "view \<Rightarrow> string set \<Rightarrow> string set \<Rightarrow> string list \<Rightarrow> string list list" where
  "stay_paths t F D qs = map (\<lambda>(nm, i, d). qs @ [nm])
     (filter (\<lambda>(nm, i, d). keep_at t F D (qs @ [nm]) \<and> d) (snapshot_kids t (pino t qs)))"

definition go_paths :: "view \<Rightarrow> string set \<Rightarrow> string set \<Rightarrow> string list \<Rightarrow> string list list" where
  "go_paths t F D qs = map (\<lambda>(nm, i, d). qs @ [nm])
     (filter (\<lambda>(nm, i, d). \<not> keep_at t F D (qs @ [nm])) (snapshot_kids t (pino t qs)))"

lemma kid_split:
  assumes ok: "home_ok t" and q: "hino t qs = Some ino"
  defines "cs \<equiv> map (\<lambda>(nm, i, d). (key_join (path_key qs) nm, i, d)) (snapshot_kids t ino)"
  shows "map (\<lambda>(ck, i, d). (i, ck)) (filter (\<lambda>(ck, i, d). d) (filter (\<lambda>(ck, i, d). kept F D ck d) cs))
      = map (\<lambda>q. (pino t q, path_key q)) (stay_paths t F D qs)"
    "map (\<lambda>(ck, i, d). i) (filter (\<lambda>(ck, i, d). \<not> kept F D ck d) cs) = map (pino t) (go_paths t F D qs)"
proof -
  have j: "key_join (path_key qs) nm = path_key (qs @ [nm])" for nm
    using key_join_path hino_segs[OF ok] q by simp
  have k: "kept F D (key_join (path_key qs) nm) d = keep_at t F D (qs @ [nm]) \<and> pino t (qs @ [nm]) = i"
    if "(nm, i, d) \<in> set (snapshot_kids t ino)" for nm i d
  proof -
    have h: "hino t (qs @ [nm]) = Some i" "d = (hview t (qs @ [nm]) = Some HDir)"
      using that snapshot_kids_home(2)[OF ok q] by auto
    then show ?thesis using kept_keep_at[OF ok h(1), of F D] by (simp add: j)
  qed
  have "map (\<lambda>(ck, i, d). (i, ck)) (filter (\<lambda>(ck, i, d). d) (filter (\<lambda>(ck, i, d). kept F D ck d)
        (map (\<lambda>(nm, i, d). (key_join (path_key qs) nm, i, d)) xs)))
      = map (\<lambda>q. (pino t q, path_key q)) (map (\<lambda>(nm, i, d). qs @ [nm])
          (filter (\<lambda>(nm, i, d). keep_at t F D (qs @ [nm]) \<and> d) xs))
    \<and> map (\<lambda>(ck, i, d). i) (filter (\<lambda>(ck, i, d). \<not> kept F D ck d)
        (map (\<lambda>(nm, i, d). (key_join (path_key qs) nm, i, d)) xs))
      = map (pino t) (map (\<lambda>(nm, i, d). qs @ [nm]) (filter (\<lambda>(nm, i, d). \<not> keep_at t F D (qs @ [nm])) xs))"
    if "set xs \<subseteq> set (snapshot_kids t ino)" for xs
    using that
  proof (induction xs)
    case (Cons x xs)
    obtain nm i d where x: "x = (nm, i, d)" by (cases x)
    have m: "(nm, i, d) \<in> set (snapshot_kids t ino)" using Cons.prems x by simp
    show ?case using Cons k[OF m] by (auto simp: x j)
  qed simp
  then show "map (\<lambda>(ck, i, d). (i, ck)) (filter (\<lambda>(ck, i, d). d) (filter (\<lambda>(ck, i, d). kept F D ck d) cs))
      = map (\<lambda>q. (pino t q, path_key q)) (stay_paths t F D qs)"
    "map (\<lambda>(ck, i, d). i) (filter (\<lambda>(ck, i, d). \<not> kept F D ck d) cs) = map (pino t) (go_paths t F D qs)"
    using q by (simp_all add: stay_paths_def go_paths_def cs_def)
qed

lemma stay_go_mem:
  assumes ok: "home_ok t" and q: "hino t qs = Some ino"
  shows "p \<in> set (stay_paths t F D qs) \<longleftrightarrow> (\<exists>nm. p = qs @ [nm] \<and> hview t p = Some HDir \<and> keep_at t F D p)"
    "p \<in> set (go_paths t F D qs) \<longleftrightarrow> (\<exists>nm. p = qs @ [nm] \<and> hview t p \<noteq> None \<and> \<not> keep_at t F D p)"
proof -
  have m: "(\<exists>i. (nm, i, d) \<in> set (snapshot_kids t ino)) \<longleftrightarrow>
      hview t (qs @ [nm]) \<noteq> None \<and> (d \<longleftrightarrow> hview t (qs @ [nm]) = Some HDir)" for nm d
    using snapshot_kids_home(2)[OF ok q] hat_hino[OF home_ok_facts(1)[OF ok], of "qs @ [nm]"]
    by (auto simp: hview_None)
  show "p \<in> set (stay_paths t F D qs) \<longleftrightarrow> (\<exists>nm. p = qs @ [nm] \<and> hview t p = Some HDir \<and> keep_at t F D p)"
  proof -
    have "p \<in> set (stay_paths t F D qs) \<longleftrightarrow>
        (\<exists>nm. p = qs @ [nm] \<and> keep_at t F D p \<and> (\<exists>i. (nm, i, True) \<in> set (snapshot_kids t ino)))"
      using q by (force simp: stay_paths_def image_iff)
    then show ?thesis using m by auto
  qed
  show "p \<in> set (go_paths t F D qs) \<longleftrightarrow> (\<exists>nm. p = qs @ [nm] \<and> hview t p \<noteq> None \<and> \<not> keep_at t F D p)"
  proof -
    have "p \<in> set (go_paths t F D qs) \<longleftrightarrow>
        (\<exists>nm. p = qs @ [nm] \<and> \<not> keep_at t F D p \<and> (\<exists>d i. (nm, i, d) \<in> set (snapshot_kids t ino)))"
      using q by (force simp: go_paths_def image_iff)
    then show ?thesis using m by auto
  qed
qed

lemma stay_weight:
  assumes ok: "home_ok t" and q: "hino t qs = Some ino"
  shows "(\<Sum>p\<leftarrow>stay_paths t F D qs. card (below_home t p)) < card (below_home t qs)"
proof -
  let ?ss = "map fst (filter (\<lambda>(nm, i, d). keep_at t F D (qs @ [nm]) \<and> d) (snapshot_kids t ino))"
  have "stay_paths t F D qs = map (\<lambda>s. qs @ [s]) ?ss"
    using q by (simp add: stay_paths_def o_def split_def)
  moreover have "distinct ?ss" using snapshot_kids_home(1)[OF ok q] distinct_map_filter by blast
  ultimately show ?thesis using below_home_kids[OF home_ok_facts(1)[OF ok], of qs ?ss] q by (simp add: o_def)
qed

lemma snapshot_walk_ok:
  assumes ok: "home_ok t"
  shows "(\<And>qs. qs \<in> set St \<Longrightarrow> good t F D qs) \<Longrightarrow> (\<And>q. q \<in> set Vp \<Longrightarrow> bad t F D q) \<Longrightarrow>
    (\<And>q. bad t F D q \<Longrightarrow> q \<in> set Vp \<or> (\<exists>qs\<in>set St. strict_prefix qs q)) \<Longrightarrow>
    (\<Sum>p\<leftarrow>St. card (below_home t p)) \<le> k \<Longrightarrow>
    \<exists>W. snapshot_walk k t F D (map (\<lambda>q. (pino t q, path_key q)) St) (map (pino t) Vp) = map (pino t) W
      \<and> (\<forall>q. q \<in> set W \<longleftrightarrow> bad t F D q)"
proof (induction k arbitrary: St Vp)
  case 0
  have pos: "card (below_home t p) > 0" if "p \<in> set St" for p
  proof -
    have "hview t p = Some HDir" using 0(1)[OF that] by (simp add: good_def)
    then have "p \<in> below_home t p"
      using hat_hino[OF home_ok_facts(1)[OF ok], of p] by (auto simp: below_home_def hview_def)
    then show ?thesis using below_home_card[OF home_ok_facts(1)[OF ok], of p] card_gt_0_iff by blast
  qed
  have "St = []"
  proof (cases St)
    case (Cons a St')
    then show ?thesis using 0(4) pos[of a] by simp
  qed
  then show ?case using 0(2,3) by (intro exI[of _ Vp]) auto
next
  case (Suc k)
  show ?case
  proof (cases St)
    case Nil
    then show ?thesis using Suc.prems(2,3) by (intro exI[of _ Vp]) auto
  next
    case (Cons qs St')
    have g: "good t F D qs" using Suc.prems(1) Cons by simp
    then obtain ino where q: "hino t qs = Some ino"
      using hat_hino[OF home_ok_facts(1)[OF ok], of qs] by (cases "hino t qs") (auto simp: good_def hview_def)
    let ?St = "rev (stay_paths t F D qs) @ St'" and ?V = "Vp @ go_paths t F D qs"
    have step: "snapshot_walk (Suc k) t F D (map (\<lambda>q. (pino t q, path_key q)) St) (map (pino t) Vp)
        = snapshot_walk k t F D (map (\<lambda>q. (pino t q, path_key q)) ?St) (map (pino t) ?V)"
      using kid_split[OF ok q, of F D] q by (simp add: Cons flip: rev_map)
    note mem = stay_go_mem[OF ok q, of _ F D]
    have v: "view_ok t" by (rule home_ok_facts(1)[OF ok])
    have "good t F D p" if "p \<in> set ?St" for p
      using that Suc.prems(1) g good_snoc[OF v] Cons mem(1) by auto
    moreover have "bad t F D p" if "p \<in> set ?V" for p
      using that Suc.prems(2) g mem(2) unfolding bad_def by auto
    moreover have "p \<in> set ?V \<or> (\<exists>qs\<in>set ?St. strict_prefix qs p)" if b: "bad t F D p" for p
    proof (cases "p \<in> set Vp \<or> (\<exists>qs\<in>set St'. strict_prefix qs p)")
      case False
      then have sp: "strict_prefix qs p" using Suc.prems(3)[OF b] Cons by auto
      obtain p' s where p: "p = p' @ [s]" "good t F D p'" "hview t p \<noteq> None" "\<not> keep_at t F D p"
        using b by (auto simp: bad_def)
      have "prefix qs p'" using sp p(1) by (auto simp: strict_prefix_def)
      then obtain r where r: "p' = qs @ r" by (auto simp: prefix_def)
      show ?thesis
      proof (cases r)
        case Nil
        then show ?thesis using mem(2) p r by auto
      next
        case (Cons nm r')
        have "prefix (qs @ [nm]) p'" by (simp add: r Cons)
        then have "keep_at t F D (qs @ [nm])" "hview t (qs @ [nm]) = Some HDir"
          using p(2) hview_prefix[OF v, of p' "qs @ [nm]"] by (auto simp: good_def strict_prefix_def)
        then have "qs @ [nm] \<in> set (stay_paths t F D qs)" using mem(1) by blast
        moreover have "strict_prefix (qs @ [nm]) p" by (simp add: p(1) r Cons strict_prefix_def)
        ultimately show ?thesis by auto
      qed
    qed auto
    moreover have "(\<Sum>p\<leftarrow>?St. card (below_home t p)) \<le> k"
      using Suc.prems(4) stay_weight[OF ok q, of F D] by (simp add: Cons rev_map[symmetric] sum_list_rev)
    ultimately show ?thesis unfolding step by (rule Suc.IH)
  qed
qed

end
