(* ===== verification/View_Start.thy ===== *)
theory View_Start
  imports View_Home_Ok
begin

text \<open>
  A freshly mounted workspace: the nodes \<open>workspace_selected\<close> makes form a well-formed tree,
  and Home is in it, empty, at its fixed inode or at the root.
\<close>

section \<open>A new mount\<close>

lemma bare_walk: "walk (bare now c) i ps = (if ps = [] then Some i else None)"
  by (cases ps) (auto simp: bare_def insert_node_def child_def new_node_def touch_dir_def is_dir.simps)

lemma bare_nview: "nview (bare now c) i = (if i = ROOT_INO then Some (erase_time (new_node ROOT_INO ROOT_INO [] now NDir)) else None)"
  by (auto simp: bare_def nview_def insert_node_def new_node_def touch_dir_def is_dir.simps erase_time_def)

lemma bare_child: "child (bare now c) p s = None"
  by (auto simp: bare_def insert_node_def child_def new_node_def touch_dir_def is_dir.simps)

lemma bare_ok: "view_ok (bare now c)"
proof -
  have "tables_ok (bare now c)"
    by (auto simp: tables_ok_def bare_nview new_node_def erase_time_def)
       (auto simp: bare_def insert_node_def new_node_def touch_dir_def ROOT_INO_def FIRST_DYNAMIC_INO_def is_dir.simps split: if_splits)
  then show ?thesis
    by (auto simp: view_ok_def links_ok_def bare_child bare_nview bare_walk new_node_def is_dir.simps erase_time_def)
qed

text \<open>A fixed directory below the root.\<close>

lemma fixed_dir:
  assumes ok: "view_ok t" and i: "nview t i = None" "i < vt_next t" and free: "child t ROOT_INO s = None"
    and u: "u = insert_node now (new_node i ROOT_INO s now c) t"
  shows "view_ok u" "walk u ROOT_INO ps = (if ps = [s] then Some i else walk t ROOT_INO ps)"
    "nview u j = (if j = i then Some (erase_time (new_node i ROOT_INO s now c)) else nview t j)"
    "child u ROOT_INO z = (if z = s then Some i else child t ROOT_INO z)" "vt_next u = vt_next t"
proof -
  let ?n = "new_node i ROOT_INO s now c"
  obtain d where d: "nview t ROOT_INO = Some d" "is_dir d" using ok by (auto simp: view_ok_def)
  have "puts ([] @ [n_name ?n]) (n_ino ?n) ?n t (insert_node now ?n t)"
    using ok i free d by (intro insert_puts) (auto simp: new_node_def)
  then have p: "puts [s] i ?n t u" by (simp add: u new_node_def)
  have w: "walk u ROOT_INO ps = (if ps = [s] then Some i else walk t ROOT_INO ps)" for ps
    using p by (simp add: puts_def)
  show "view_ok u" "walk u ROOT_INO ps = (if ps = [s] then Some i else walk t ROOT_INO ps)"
    "nview u j = (if j = i then Some (erase_time ?n) else nview t j)" using p by (simp_all add: puts_def)
  show "child u ROOT_INO z = (if z = s then Some i else child t ROOT_INO z)"
    using w[of "[z]"] by (cases "child u ROOT_INO z"; cases "child t ROOT_INO z") (auto split: if_splits)
  show "vt_next u = vt_next t" by (simp add: u)
qed

lemma view_ok_cong:
  assumes "vt_nodes u = vt_nodes t" "vt_children u = vt_children t" "vt_next u = vt_next t"
  shows "view_ok u \<longleftrightarrow> view_ok t" "walk u i ps = walk t i ps" "nview u i = nview t i"
proof -
  have c: "child u p s = child t p s" for p s by (simp add: child_def assms)
  show w: "walk u i ps = walk t i ps" for i ps by (induction ps arbitrary: i) (simp_all add: c)
  show n: "nview u i = nview t i" for i by (simp add: nview_def assms)
  show "view_ok u \<longleftrightarrow> view_ok t"
    by (simp add: view_ok_def tables_ok_def links_ok_def w n c assms)
qed

lemma home_ok_start:
  assumes v: "view_ok u" and r: "hino u [] = Some (home_root_ino u)" and n: "nview u (home_root_ino u) = Some n"
    and c: "n_content n = NHomeDir ''/'' l" and none: "\<And>s. child u (home_root_ino u) s = None"
  shows "home_ok u"
proof -
  have "hino u ps = None" if "ps \<noteq> []" for ps
  proof -
    from that obtain s ss where ps: "ps = s # ss" by (cases ps) auto
    have "hino u ([] @ s # ss) = None"
      using r none unfolding hino_def append_assoc[symmetric] walk_append[of u ROOT_INO _ "s # ss"] by simp
    then show ?thesis using ps by simp
  qed
  then have "hat u ps = None" if "ps \<noteq> []" for ps using that by (simp add: hat_def)
  moreover have "hat u [] = Some n" using r n by (simp add: hat_def)
  ultimately have "hat u ps = Some m \<Longrightarrow> ps = [] \<and> m = n" for ps m by (cases "ps = []") auto
  then have "\<forall>ps m. hat u ps = Some m \<longrightarrow> list_all seg_ok ps \<and> home_content ps (n_content m)"
    using c by (fastforce simp: home_content_def pathstr_def)
  then show ?thesis using v r by (simp add: home_ok_def)
qed

lemma mark_loaded_home:
  assumes ok: "home_ok t"
  shows "home_ok (mark_loaded on (home_root_ino t) t)" "hview (mark_loaded on (home_root_ino t) t) ps = hview t ps"
proof -
  let ?i = "home_root_ino t" and ?f = "\<lambda>n. case n_content n of NHomeDir p l \<Rightarrow> n\<lparr>n_content := NHomeDir p (on \<or> l)\<rparr> | _ \<Rightarrow> n"
  let ?u = "upd_node ?i ?f t"
  note v = home_ok_facts(1,2)[OF ok]
  obtain n where n: "nview t ?i = Some n" "hat t [] = Some n" using walk_node[OF v(1)] v(2) by (auto simp: hino_def hat_def)
  then have "home_content [] (n_content n)" using home_ok_facts(3)[OF ok] by blast
  then obtain l where l: "n_content n = NHomeDir (pathstr []) l" by (auto simp: home_content_def)
  obtain m where m: "tget (vt_nodes t) ?i = Some m" "n = erase_time m" using n(1) by (auto simp: nview_def)
  have lm: "n_content m = NHomeDir (pathstr []) l" using l m(2) by (simp add: erase_time_def split: if_splits)
  have fm: "?f m = m\<lparr>n_content := NHomeDir (pathstr []) (on \<or> l)\<rparr>" by (simp add: lm)
  have u: "view_ok ?u" "\<And>j ps. walk ?u j ps = walk t j ps" "\<And>j. nview ?u j = (if j = ?i then Some (erase_time (?f m)) else nview t j)"
    "same_frame t ?u"
  proof -
    have k: "n_ino (?f m) = n_ino m" "n_parent (?f m) = n_parent m" "n_name (?f m) = n_name m" "is_dir (?f m) = is_dir m"
      by (simp_all add: fm is_dir.simps lm)
    note r = upd_node_ok[where f = ?f, OF v(1) m(1) k]
    show "view_ok ?u" by (rule r(1))
    show "walk ?u j ps = walk t j ps" for j ps by (rule r(2))
    show "nview ?u j = (if j = ?i then Some (erase_time (?f m)) else nview t j)" for j by (rule r(3))
    show "same_frame t ?u" by (rule r(4))
  qed
  have hp: "hpath ?u = hpath t" "home_root_ino ?u = ?i" using same_frame_home[OF u(4)] by simp_all
  have hi: "hino ?u ps = hino t ps" for ps by (simp add: hino_def hp u(2))
  have inj: "hino t ps = Some ?i \<longleftrightarrow> ps = []" for ps
    using v(2) walk_inj[OF v(1), of "hpath t @ ps" ?i "hpath t"] by (auto simp: hino_def)
  have ha: "hat ?u ps = (if ps = [] then Some (erase_time (?f m)) else hat t ps)" for ps
    using inj[of ps] v(2) by (cases "hino t ps") (auto simp: hat_def hi u(3))
  have c: "home_content [] (n_content (erase_time (?f m)))" by (simp add: fm erase_time_def is_dir.simps home_content_def)
  have "home_ok ?u" using ok u(1) c by (auto simp: home_ok_def ha hi hp split: if_splits)
  then show "home_ok (mark_loaded on ?i t)" by (simp add: mark_loaded_def)
  have "hobj (erase_time (?f m)) = HDir" by (simp add: hobj_def fm erase_time_def is_dir.simps)
  moreover have "hview t [] = Some HDir" by (rule hroot_dir[OF ok])
  ultimately show "hview (mark_loaded on ?i t) ps = hview t ps" by (auto simp: mark_loaded_def hview_def ha)
qed

lemma home_ok_cong:
  assumes "vt_nodes u = vt_nodes t" "vt_children u = vt_children t" "vt_next u = vt_next t" "vt_ws u = vt_ws t"
  shows "home_ok u \<longleftrightarrow> home_ok t" "hview u ps = hview t ps"
proof -
  have r: "home_root_ino u = home_root_ino t" by (simp add: home_root_ino_def assms)
  have hi: "hino u ps = hino t ps" for ps by (simp add: hino_def hpath_def r view_ok_cong(2)[OF assms(1-3)])
  have ha: "hat u ps = hat t ps" for ps by (cases "hino t ps") (simp_all add: hat_def hi view_ok_cong(3)[OF assms(1-3)])
  show "home_ok u \<longleftrightarrow> home_ok t" "hview u ps = hview t ps"
    by (simp_all add: home_ok_def hi ha r view_ok_cong(1)[OF assms(1-3)] hview_def)
qed

lemma root_home:
  fixes now :: nat
  defines "n \<equiv> new_node ROOT_INO ROOT_INO [] now (NHomeDir ''/'' False)"
  defines "u \<equiv> insert_node now n (bare now None)"
  shows "view_ok u" "child u p s = None" "walk u i ps = (if ps = [] then Some i else None)"
    "nview u ROOT_INO = Some (erase_time n)"
proof -
  show c: "child u p s = None" for p s
    by (auto simp: u_def n_def bare_def insert_node_def child_def new_node_def touch_dir_def is_dir.simps)
  show w: "walk u i ps = (if ps = [] then Some i else None)" for i ps by (cases ps) (simp_all add: c)
  have n: "nview u i = (if i = ROOT_INO then Some (erase_time n) else None)" for i
    unfolding u_def nview_insert by (simp add: bare_nview n_def new_node_def)
  then show "nview u ROOT_INO = Some (erase_time n)" by simp
  have "tables_ok u"
    by (auto simp: tables_ok_def n n_def new_node_def erase_time_def)
       (auto simp: u_def n_def bare_def insert_node_def new_node_def touch_dir_def ROOT_INO_def FIRST_DYNAMIC_INO_def is_dir.simps split: if_splits)
  then show "view_ok u"
    by (auto simp: view_ok_def links_ok_def c n w n_def new_node_def is_dir.simps erase_time_def)
qed

lemma workspace_start_home:
  assumes inc: "includes_home sel"
  shows "home_ok (workspace_selected now i nm sel)"
proof -
  let ?sel = "sel\<lparr>sel_trees := remdups_adj (sort (sel_trees sel))\<rparr>"
  have empty_iff: "remdups_adj (sort (sel_trees sel)) = [] \<longleftrightarrow> sel_trees sel = []" by (metis remdups_adj_set set_empty set_sort)
  have same: "is_explicit ?sel = is_explicit sel" "includes_home ?sel = includes_home sel" "home_only ?sel = home_only sel"
    using empty_iff by (simp_all add: is_explicit_def includes_home_def home_only_def del: remdups_adj_Nil_iff)
  define b1 where "b1 \<longleftrightarrow> \<not> is_explicit sel \<or> (sel_trees ?sel \<noteq> [] \<and> \<not> single_tree ?sel)"
  define t0 where "t0 = bare now None"
  define t1 where "t1 = (if b1 then insert_node now (new_node TREES_INO ROOT_INO ''Trees'' now NDir) t0 else t0)"
  define t2 where "t2 = (if \<not> is_explicit sel then insert_node now (new_node TRASH_INO ROOT_INO ''Trash'' now NDir) t1 else t1)"
  define t3 where "t3 = insert_node now (new_node (if home_only sel then ROOT_INO else HOME_INO) ROOT_INO
      (if home_only sel then [] else ''Home'') now (NHomeDir ''/'' False)) t2"
  let ?u = "t3\<lparr>vt_ws := Some \<lparr>ws_id = i, ws_name = nm, ws_selection = ?sel, ws_trees = [], ws_paths = [], ws_files = []\<rparr>\<rparr>"
  have eq: "workspace_selected now i nm sel = ?u"
    using inc by (simp add: workspace_selected_def Let_def t3_def t2_def t1_def t0_def b1_def same)
  note inos = TREES_INO_def TRASH_INO_def HOME_INO_def ROOT_INO_def FIRST_DYNAMIC_INO_def
  have next0: "vt_next t0 = FIRST_DYNAMIC_INO" by (simp add: t0_def bare_def)
  have v0: "view_ok t0" using bare_ok by (simp add: t0_def)
  note s0 = bare_nview[of now None, folded t0_def] bare_child[of now None, folded t0_def]
  have v1: "view_ok t1" "vt_next t1 = FIRST_DYNAMIC_INO"
    "\<And>j. nview t1 j \<noteq> None \<Longrightarrow> j = ROOT_INO \<or> (b1 \<and> j = TREES_INO)"
    "\<And>z. child t1 ROOT_INO z \<noteq> None \<Longrightarrow> b1 \<and> z = ''Trees''"
    using fixed_dir[OF v0 _ _ _ refl, of TREES_INO "''Trees''" now NDir] v0 s0 next0
    by (auto simp: t1_def inos split: if_splits)
  have t1_fresh: "nview t1 TRASH_INO = None" "TRASH_INO < vt_next t1" "child t1 ROOT_INO ''Trash'' = None"
  proof -
    have "TRASH_INO \<noteq> ROOT_INO" "TRASH_INO \<noteq> TREES_INO" by (simp_all add: inos)
    then show "nview t1 TRASH_INO = None" using v1(3)[of TRASH_INO] by blast
    show "TRASH_INO < vt_next t1" by (simp add: v1(2) inos)
    have "''Trash'' \<noteq> ''Trees''" by simp
    then show "child t1 ROOT_INO ''Trash'' = None" using v1(4)[of "''Trash''"] by blast
  qed
  have v2: "view_ok t2" "vt_next t2 = FIRST_DYNAMIC_INO"
    "\<And>j. nview t2 j \<noteq> None \<Longrightarrow> j = ROOT_INO \<or> (b1 \<and> j = TREES_INO) \<or> (\<not> is_explicit sel \<and> j = TRASH_INO)"
    "\<And>z. child t2 ROOT_INO z \<noteq> None \<Longrightarrow> (b1 \<and> z = ''Trees'') \<or> (\<not> is_explicit sel \<and> z = ''Trash'')"
  proof -
    have f: "nview t1 TRASH_INO = None" "TRASH_INO < vt_next t1" "child t1 ROOT_INO ''Trash'' = None"
      by (rule t1_fresh)+
    note h = fixed_dir[where now = now and c = NDir, OF v1(1) f refl]
    show "view_ok t2" "vt_next t2 = FIRST_DYNAMIC_INO" using h(1) v1(1,2) by (simp_all add: t2_def)
    fix j assume "nview t2 j \<noteq> None"
    then show "j = ROOT_INO \<or> (b1 \<and> j = TREES_INO) \<or> (\<not> is_explicit sel \<and> j = TRASH_INO)"
      using v1(3)[of j] h(3)[of j] by (simp add: t2_def split: if_splits)
  next
    have f: "nview t1 TRASH_INO = None" "TRASH_INO < vt_next t1" "child t1 ROOT_INO ''Trash'' = None"
      by (rule t1_fresh)+
    fix z assume "child t2 ROOT_INO z \<noteq> None"
    then show "(b1 \<and> z = ''Trees'') \<or> (\<not> is_explicit sel \<and> z = ''Trash'')"
      using v1(4)[of z] fixed_dir(4)[where now = now and c = NDir and z = z, OF v1(1) f refl] by (simp add: t2_def split: if_splits)
  qed
  have root: "home_root_ino ?u = (if home_only sel then ROOT_INO else HOME_INO)"
    by (simp add: home_root_ino_def same(3))
  have "home_ok ?u"
  proof (cases "home_only sel")
    case True
    then have ex: "is_explicit sel" "\<not> b1" by (simp_all add: home_only_def is_explicit_def b1_def empty_iff)
    then have t3: "t3 = insert_node now (new_node ROOT_INO ROOT_INO [] now (NHomeDir ''/'' False)) (bare now None)"
      using True by (simp add: t3_def t2_def t1_def t0_def)
    note h = root_home[of now, folded t3]
    have r: "home_root_ino ?u = ROOT_INO" using root True by simp
    show ?thesis
    proof (rule home_ok_start)
      show "view_ok ?u" using h(1) view_ok_cong(1)[of ?u t3] by simp
      show "hino ?u [] = Some (home_root_ino ?u)" by (simp add: hino_def hpath_def r)
      show "nview ?u (home_root_ino ?u) = Some (erase_time (new_node ROOT_INO ROOT_INO [] now (NHomeDir ''/'' False)))"
        using h(4) view_ok_cong(3)[of ?u t3] by (simp add: r)
      show "n_content (erase_time (new_node ROOT_INO ROOT_INO [] now (NHomeDir ''/'' False))) = NHomeDir ''/'' False"
        by (simp add: erase_time_def new_node_def)
      show "child ?u (home_root_ino ?u) z = None" for z using h(2)[of _ z] by (simp add: r child_def)
    qed
  next
    case False
    then have t3: "t3 = insert_node now (new_node HOME_INO ROOT_INO ''Home'' now (NHomeDir ''/'' False)) t2" by (simp add: t3_def)
    have fresh: "nview t2 HOME_INO = None" "HOME_INO < vt_next t2" "child t2 ROOT_INO ''Home'' = None"
    proof -
      have "HOME_INO \<noteq> ROOT_INO" "HOME_INO \<noteq> TREES_INO" "HOME_INO \<noteq> TRASH_INO" by (simp_all add: inos)
      then show "nview t2 HOME_INO = None" using v2(3)[of HOME_INO] by blast
      show "HOME_INO < vt_next t2" by (simp add: v2(2) inos)
      have "''Home'' \<noteq> ''Trees''" "''Home'' \<noteq> ''Trash''" by simp_all
      then show "child t2 ROOT_INO ''Home'' = None" using v2(4)[of "''Home''"] by blast
    qed
    note h = fixed_dir[OF v2(1) fresh t3]
    have kid: "child t3 HOME_INO z = None" for z
    proof (rule ccontr)
      assume "child t3 HOME_INO z \<noteq> None"
      then have "walk t3 ROOT_INO [''Home'', z] \<noteq> None" using h(4)[of "''Home''"] by (auto simp: h(2))
      moreover have "walk t3 ROOT_INO [''Home'', z] = walk t2 ROOT_INO [''Home'', z]" by (simp only: h(2)) simp
      ultimately have "walk t2 ROOT_INO [''Home'', z] \<noteq> None" by argo
      then have "child t2 ROOT_INO ''Home'' \<noteq> None" by (cases "child t2 ROOT_INO ''Home''") auto
      then show False using fresh(3) by simp
    qed
    have r: "home_root_ino ?u = HOME_INO" using root False by simp
    have hp: "hpath ?u = [''Home'']" using r by (simp add: hpath_def inos)
    have w: "walk ?u ROOT_INO [''Home''] = Some HOME_INO"
      unfolding view_ok_cong(2)[of ?u t3, simplified] using h(4)[of "''Home''"] by simp
    show ?thesis
    proof (rule home_ok_start)
      show "view_ok ?u" using h(1) view_ok_cong(1)[of ?u t3] by simp
      show "hino ?u [] = Some (home_root_ino ?u)" using w by (simp add: hino_def hp r)
      show "nview ?u (home_root_ino ?u) = Some (erase_time (new_node HOME_INO ROOT_INO ''Home'' now (NHomeDir ''/'' False)))"
        using h(3)[of HOME_INO] view_ok_cong(3)[of ?u t3] by (simp add: r)
      show "n_content (erase_time (new_node HOME_INO ROOT_INO ''Home'' now (NHomeDir ''/'' False))) = NHomeDir ''/'' False"
        by (simp add: erase_time_def new_node_def)
      show "child ?u (home_root_ino ?u) z = None" for z using kid[of z] by (simp add: r child_def)
    qed
  qed
  then show ?thesis by (simp only: eq)
qed
end
