(* ===== verification/View_Refresh.thy ===== *)
theory View_Refresh
  imports View_Snapshot View_Start
begin

text \<open>
  The snapshot of Home as a whole: whatever the tree held, after \<open>apply_home_snapshot\<close> Home
  holds exactly the files and directories of the store, every file with its size and time and
  every directory above it.
\<close>

section \<open>Dropping what is not wanted\<close>

lemma victims_home:
  assumes ok: "home_ok t" and w: "\<And>q. q \<in> set W \<longleftrightarrow> bad t F D q"
    and e: "drop_victims now (map (pino t) W) (t, v) = (u, v')"
  shows "hsame t u \<and> vt_next u = vt_next t
    \<and> hview u ps = (if \<exists>q. bad t F D q \<and> prefix q ps then None else hview t ps)"
proof -
  let ?zs = "map (\<lambda>q. (pino t q, hpath t @ q)) W"
  have z: "walk t ROOT_INO q = Some i \<and> q \<noteq> []" if m: "(i, q) \<in> set ?zs" for i q
  proof -
    obtain p where p: "p \<in> set W" "i = pino t p" "q = hpath t @ p" using m by auto
    then have b: "bad t F D p" using w by blast
    then have "hino t p \<noteq> None" using hat_hino[OF home_ok_facts(1)[OF ok], of p] by (auto simp: bad_def hview_None)
    then have "walk t ROOT_INO q = Some i" using p by (auto simp: hino_def)
    then show ?thesis using b p(3) by (auto simp: bad_def)
  qed
  have fst_zs: "map fst ?zs = map (pino t) W" by (simp add: o_def)
  have "erases ({} \<union> {ps. \<exists>q\<in>snd ` set ?zs. prefix q ps}) t (fst (drop_victims now (map fst ?zs) (t, v)))"
    by (rule drop_victims_erases[OF home_ok_facts(1)[OF ok] erases_none[OF home_ok_facts(1)[OF ok]] _ z]) auto
  moreover have "{} \<union> {ps. \<exists>q\<in>snd ` set ?zs. prefix q ps} = {ps. \<exists>q\<in>{q. bad t F D q}. prefix (hpath t @ q) ps}"
    using w by (auto simp: image_image)
  ultimately have er: "erases {ps. \<exists>q\<in>{q. bad t F D q}. prefix (hpath t @ q) ps} t u"
    by (simp only: fst_zs e fst_conv)
  have ne: "[] \<notin> {q. bad t F D q}" by (auto simp: bad_def)
  show ?thesis
    using home_erases[OF ok er ne, of ps] erases_facts(3)[OF er] by (auto simp: hview_def)
qed

lemma none_bad_keeps:
  assumes ok: "view_ok t" and h: "hview t ps \<noteq> None" and nb: "\<not> (\<exists>q. bad t F D q \<and> prefix q ps)"
    and r: "rs \<noteq> []" "prefix rs ps"
  shows "keep_at t F D rs"
  using h nb r
proof (induction ps arbitrary: rs rule: rev_induct)
  case (snoc s ps)
  have d: "hview t ps = Some HDir" using hview_parent[OF ok snoc.prems(1)] .
  have nb': "\<not> (\<exists>q. bad t F D q \<and> prefix q ps)" using snoc.prems(2) by (metis prefix_prefix)
  have up: "keep_at t F D rs" if "rs \<noteq> []" "prefix rs ps" for rs
    using snoc.IH[OF _ nb' that] d by simp
  show ?case
  proof (cases "rs = ps @ [s]")
    case True
    have "good t F D ps" using d up by (simp add: good_def)
    then have "\<not> keep_at t F D (ps @ [s]) \<Longrightarrow> bad t F D (ps @ [s])" using snoc.prems(1) by (auto simp: bad_def)
    then show ?thesis using True snoc.prems(2) by blast
  next
    case False
    then show ?thesis using snoc.prems(4) up[OF snoc.prems(3)] by simp
  qed
qed simp

section \<open>All the directories, all the files\<close>

lemma ensure_all_next: "ensure_all now ds (t, v) = (u, v') \<Longrightarrow> vt_next t \<le> vt_next u"
proof (induction ds arbitrary: t v)
  case (Cons d ds)
  obtain j t1 v1 where e: "ensure_home_dirs now d (t, v) = (j, t1, v1)" by (cases "ensure_home_dirs now d (t, v)")
  then show ?case using Cons.IH[of t1 v1] Cons.prems ensure_home_next[OF e] by simp
qed simp

lemma ensure_all_home:
  assumes "home_ok t" "\<And>d. d \<in> set ds \<Longrightarrow> list_all seg_ok (segments d)" "ensure_all now ds (t, v) = (u, v')"
    "vt_next u \<le> FIRST_OVERLAY_INO"
  shows "hsame t u \<and> (\<forall>ps. hview u ps =
    (if ps \<noteq> [] \<and> (\<exists>d\<in>set ds. prefix ps (segments d)) then Some HDir else hview t ps))"
  using assms
proof (induction ds arbitrary: t v)
  case Nil
  then show ?case by (auto simp: hsame_refl)
next
  case (Cons d ds)
  obtain j t1 v1 where e: "ensure_home_dirs now d (t, v) = (j, t1, v1)" by (cases "ensure_home_dirs now d (t, v)")
  have a: "ensure_all now ds (t1, v1) = (u, v')" using Cons.prems(3) e by simp
  have b: "vt_next t1 \<le> FIRST_OVERLAY_INO" using ensure_all_next[OF a] Cons.prems(4) by simp
  have s: "list_all seg_ok (segments d)" using Cons.prems(2) by simp
  note h = ensure_home(1,3)[OF Cons.prems(1) s e b]
  have ih: "hsame t1 u" "\<And>ps. hview u ps =
    (if ps \<noteq> [] \<and> (\<exists>d\<in>set ds. prefix ps (segments d)) then Some HDir else hview t1 ps)"
    using Cons.IH[OF hsame_ok[OF h(1)] _ a Cons.prems(4)] Cons.prems(2) by auto
  show ?case using hsame_trans[OF h(1) ih(1)] ih(2) h(2) by auto
qed

lemma upsert_next: "upsert_home_key now k sz mt t = (u, v) \<Longrightarrow> vt_next t \<le> vt_next u"
proof -
  assume a: "upsert_home_key now k sz mt t = (u, v)"
  let ?k = "trim_with (\<lambda>c. c = slash) k"
  obtain d nm where s: "split_key ?k = (d, nm)" by (cases "split_key ?k")
  obtain dir t1 v1 where e: "ensure_home_dirs now d (t, inv0) = (dir, t1, v1)" by (cases "ensure_home_dirs now d (t, inv0)")
  have "vt_next t1 \<le> vt_next u" if "nm \<noteq> []"
    using a that
    by (auto simp: upsert_home_key_def s e Let_def upd_node_def split: option.splits if_splits prod.splits
        dest!: add_node_next drop_tree_next)
  then show ?thesis using ensure_home_next[OF e] a by (cases "nm = []") (auto simp: upsert_home_key_def s Let_def)
qed

lemma upsert_all_next: "upsert_all now fs (t, v) = (u, v') \<Longrightarrow> vt_next t \<le> vt_next u"
proof (induction fs arbitrary: t v)
  case (Cons f fs)
  obtain k sz mt where f: "f = (k, sz, mt)" by (cases f)
  obtain t1 v1 where e: "upsert_home_key now k sz mt t = (t1, v1)" by (cases "upsert_home_key now k sz mt t")
  then show ?case using Cons.IH[of t1 "inv_extend v v1"] Cons.prems f upsert_next[OF e] by simp
qed simp

abbreviation file_paths :: "(string \<times> nat \<times> nat) list \<Rightarrow> (string list \<times> nat \<times> nat) list" where
  "file_paths fs \<equiv> map (\<lambda>(k, x). (key_path k, x)) fs"

definition apart :: "string list list \<Rightarrow> bool" where
  "apart ps \<longleftrightarrow> distinct ps \<and> (\<forall>p\<in>set ps. \<forall>q\<in>set ps. \<not> strict_prefix p q)"

lemma apart_Cons: "apart (p # ps) \<longleftrightarrow> apart ps \<and> p \<notin> set ps \<and> (\<forall>q\<in>set ps. \<not> strict_prefix p q \<and> \<not> strict_prefix q p)"
  by (auto simp: apart_def)

lemma upsert_all_home:
  assumes "home_ok t" "apart (map fst (file_paths fs))" "\<forall>k\<in>fst ` set fs. key_ok k"
    "upsert_all now fs (t, v) = (u, v')" "vt_next u \<le> FIRST_OVERLAY_INO"
  shows "hsame t u \<and> (\<forall>ps. hview u ps =
    (case map_of (file_paths fs) ps of Some (sz, mt) \<Rightarrow> Some (HFile sz mt)
     | None \<Rightarrow> if ps \<noteq> [] \<and> (\<exists>q\<in>set (map fst (file_paths fs)). strict_prefix ps q) then Some HDir
         else if \<exists>q\<in>set (map fst (file_paths fs)). strict_prefix q ps then None else hview t ps))"
  using assms
proof (induction fs arbitrary: t v)
  case Nil
  then show ?case by (auto simp: hsame_refl)
next
  case (Cons f fs)
  obtain k sz mt where f: "f = (k, sz, mt)" by (cases f)
  obtain t1 v1 where e: "upsert_home_key now k sz mt t = (t1, v1)" by (cases "upsert_home_key now k sz mt t")
  have a: "upsert_all now fs (t1, inv_extend v v1) = (u, v')" using Cons.prems(4) e f by simp
  have b: "vt_next t1 \<le> FIRST_OVERLAY_INO" using upsert_all_next[OF a] Cons.prems(5) by simp
  have k: "key_ok k" using Cons.prems(3) f by simp
  note h = upsert_home[OF Cons.prems(1) k e b]
  have ap: "apart (map fst (file_paths fs))" "key_path k \<notin> set (map fst (file_paths fs))"
    "\<And>q. q \<in> set (map fst (file_paths fs)) \<Longrightarrow> \<not> strict_prefix (key_path k) q \<and> \<not> strict_prefix q (key_path k)"
    using Cons.prems(2) f by (auto simp: apart_Cons)
  have ks: "\<forall>k\<in>fst ` set fs. key_ok k" using Cons.prems(3) by simp
  have t1: "home_ok t1" using h hsame_ok by blast
  note ih = Cons.IH[OF t1 ap(1) ks a Cons.prems(5)]
  have hs: "hsame t u" using hsame_trans[of t t1 u] h ih by blast
  show ?case
  proof (intro conjI allI, rule hs)
    fix ps
    let ?M = "map_of (file_paths fs) ps" and ?S = "set (map fst (file_paths fs))"
    have u: "hview u ps = (case ?M of Some (sz, mt) \<Rightarrow> Some (HFile sz mt)
       | None \<Rightarrow> if ps \<noteq> [] \<and> (\<exists>q\<in>?S. strict_prefix ps q) then Some HDir
           else if \<exists>q\<in>?S. strict_prefix q ps then None else hview t1 ps)" using ih by blast
    have u1: "hview t1 ps = (if ps = key_path k then Some (HFile sz mt)
       else if ps \<noteq> [] \<and> strict_prefix ps (key_path k) then Some HDir
       else if strict_prefix (key_path k) ps then None else hview t ps)" using h by blast
    have m: "?M \<noteq> None \<Longrightarrow> ps \<in> ?S" by (metis map_of_eq_None_iff list.set_map)
    show "hview u ps = (case map_of (file_paths (f # fs)) ps of Some (sz, mt) \<Rightarrow> Some (HFile sz mt)
     | None \<Rightarrow> if ps \<noteq> [] \<and> (\<exists>q\<in>set (map fst (file_paths (f # fs))). strict_prefix ps q) then Some HDir
         else if \<exists>q\<in>set (map fst (file_paths (f # fs))). strict_prefix q ps then None else hview t ps)"
    proof (cases ?M)
      case (Some x)
      then have "ps \<noteq> key_path k" using m ap(2) by (metis option.distinct(1))
      then show ?thesis using u Some by (simp add: f)
    next
      case None
      show ?thesis
      proof (cases "ps = key_path k")
        case True
        then show ?thesis using u u1 None ap(3) by (auto simp: f)
      next
        case ne: False
        have R: "(case map_of (file_paths (f # fs)) ps of Some (sz, mt) \<Rightarrow> Some (HFile sz mt)
           | None \<Rightarrow> X) = X" for X using None ne by (simp add: f)
        have s: "set (map fst (file_paths (f # fs))) = insert (key_path k) ?S" by (simp add: f)
        have no: "\<not> (strict_prefix ps (key_path k) \<and> (\<exists>q\<in>?S. strict_prefix q ps))"
          using ap(3) prefix_order.less_trans by blast
        show ?thesis unfolding R s u using None u1 ne no by auto
      qed
    qed
  qed
qed


section \<open>The directories above the files\<close>

lemma parent_key_path: "list_all seg_ok (ps @ [s]) \<Longrightarrow> parent_key (path_key (ps @ [s])) = path_key ps"
proof (cases "ps = []")
  case False
  assume "list_all seg_ok (ps @ [s])"
  then show ?thesis using False parent_key_append[of s "path_key ps"]
    by (simp add: path_key_def join_with_snoc seg_ok_def)
next
  case True
  assume "list_all seg_ok (ps @ [s])"
  then have "rsplit_once slash s = None" using True by (simp add: rsplit_once_None seg_ok_def)
  then show ?thesis using True by (simp add: path_key_def parent_key_def)
qed

lemma path_key_empty: "list_all seg_ok ps \<Longrightarrow> path_key ps = [] \<longleftrightarrow> ps = []"
  using segments_path_key[of ps] by (auto simp: segments_def path_key_def)

lemma path_key_length: "list_all seg_ok ps \<Longrightarrow> length ps \<le> length (path_key ps)"
proof (induction ps rule: rev_induct)
  case (snoc s ps)
  then show ?case by (cases "ps = []") (auto simp: path_key_def join_with_snoc seg_ok_def Suc_le_eq)
qed simp

lemma ancestors_of_paths:
  "list_all seg_ok ps \<Longrightarrow> length ps \<le> k \<Longrightarrow>
    set (ancestors_of k (path_key ps)) = path_key ` {rs. rs \<noteq> [] \<and> prefix rs ps}"
proof (induction k arbitrary: ps)
  case 0
  then show ?case by simp
next
  case (Suc k)
  show ?case
  proof (cases ps rule: rev_cases)
    case Nil
    then show ?thesis by (simp add: path_key_def)
  next
    case (snoc qs s)
    have ok: "list_all seg_ok qs" using Suc.prems(1) snoc by simp
    have ne: "path_key ps \<noteq> []" using path_key_empty[OF Suc.prems(1)] snoc by simp
    have p: "parent_key (path_key ps) = path_key qs" using parent_key_path Suc.prems(1) snoc by blast
    have ih: "set (ancestors_of k (path_key qs)) = path_key ` {rs. rs \<noteq> [] \<and> prefix rs qs}"
      using Suc.IH[OF ok] Suc.prems(2) snoc by simp
    have "{rs. rs \<noteq> [] \<and> prefix rs ps} = insert ps {rs. rs \<noteq> [] \<and> prefix rs qs}"
      by (auto simp: snoc)
    then show ?thesis using ne p ih by simp
  qed
qed

lemma above_paths:
  assumes "key_ok k"
  shows "set (above k) = path_key ` {rs. rs \<noteq> [] \<and> strict_prefix rs (key_path k)}"
proof -
  obtain ps s where p: "key_path k = ps @ [s]" by (cases "key_path k" rule: rev_cases) auto
  have ok: "list_all seg_ok (ps @ [s])" using assms p by (simp add: key_ok_def)
  have k: "k = path_key (ps @ [s])" using p by (metis key_path_key)
  have "parent_key k = path_key ps" using parent_key_path[OF ok] k by simp
  moreover have "length ps \<le> length k" using path_key_length[OF ok] k by simp
  moreover have "list_all seg_ok ps" using ok by simp
  moreover have "strict_prefix rs (ps @ [s]) \<longleftrightarrow> prefix rs ps" for rs by (auto simp: strict_prefix_def)
  ultimately show ?thesis using ancestors_of_paths[of ps "length k"] by (simp add: above_def p)
qed

text \<open>The paths of the directories the snapshot wants, one segment list each.\<close>

lemma wanted_paths:
  assumes f: "\<forall>k\<in>fst ` set files. key_ok k" and d: "\<forall>k\<in>set dirs. key_ok k"
  shows "segments ` set (wanted_dirs files dirs) =
    key_path ` set dirs \<union> {rs. rs \<noteq> [] \<and> (\<exists>q\<in>set (map fst (file_paths files)). strict_prefix rs q)}"
    "w \<in> set (wanted_dirs files dirs) \<Longrightarrow> list_all seg_ok (segments w) \<and> segments w \<noteq> [] \<and> path_key (segments w) = w"
proof -
  have up: "list_all seg_ok rs \<and> segments (path_key rs) = rs"
    if "key_ok k" "strict_prefix rs (key_path k)" for rs k
  proof -
    have "list_all seg_ok rs" using that by (auto simp: key_ok_def list_all_iff strict_prefix_def dest: set_mono_prefix)
    then show ?thesis using segments_path_key by blast
  qed
  have mem: "w \<in> set (wanted_dirs files dirs) \<longleftrightarrow> w \<in> set dirs \<or>
      (\<exists>k x rs. (k, x) \<in> set files \<and> rs \<noteq> [] \<and> strict_prefix rs (key_path k) \<and> w = path_key rs)" for w
  proof -
    have "w \<in> set (wanted_dirs files dirs) \<longleftrightarrow> w \<in> set dirs \<or> (\<exists>k x. (k, x) \<in> set files \<and> w \<in> set (above k))"
    proof -
      have "w \<in> set (concat (map (\<lambda>(k, _). above k) fs)) \<longleftrightarrow> (\<exists>k x. (k, x) \<in> set fs \<and> w \<in> set (above k))"
        for fs :: "(string \<times> nat \<times> nat) list" by (simp add: Bex_def)
      then show ?thesis unfolding wanted_dirs_def set_remdups set_append Un_iff by simp
    qed
    also have "\<dots> \<longleftrightarrow> w \<in> set dirs \<or>
      (\<exists>k x. (k, x) \<in> set files \<and> w \<in> path_key ` {rs. rs \<noteq> [] \<and> strict_prefix rs (key_path k)})"
    proof -
      have "set (above k) = path_key ` {rs. rs \<noteq> [] \<and> strict_prefix rs (key_path k)}" if "(k, x) \<in> set files" for k x
        using f that by (intro above_paths) force
      then show ?thesis by (simp cong: conj_cong)
    qed
    finally show ?thesis by blast
  qed
  show "list_all seg_ok (segments w) \<and> segments w \<noteq> [] \<and> path_key (segments w) = w" if wd: "w \<in> set (wanted_dirs files dirs)"
  proof (cases "w \<in> set dirs")
    case True
    then show ?thesis using d key_ok_segments[of w] by (simp add: key_ok_def)
  next
    case False
    then obtain k x rs where k: "(k, x) \<in> set files" "rs \<noteq> []" "strict_prefix rs (key_path k)" "w = path_key rs"
      using wd[unfolded mem] by blast
    have "key_ok k" using f k(1) by force
    then show ?thesis using up[OF _ k(3)] k by simp
  qed
  show "segments ` set (wanted_dirs files dirs) =
    key_path ` set dirs \<union> {rs. rs \<noteq> [] \<and> (\<exists>q\<in>set (map fst (file_paths files)). strict_prefix rs q)}" (is "?L = ?R")
  proof (rule set_eqI)
    fix rs
    have l: "rs \<in> ?L \<longleftrightarrow> (\<exists>w\<in>set dirs. rs = segments w) \<or>
        (\<exists>k x r. (k, x) \<in> set files \<and> r \<noteq> [] \<and> strict_prefix r (key_path k) \<and> rs = segments (path_key r))"
      unfolding image_iff Bex_def mem by blast
    have dr: "(\<exists>w\<in>set dirs. rs = segments w) \<longleftrightarrow> (\<exists>w\<in>set dirs. rs = key_path w)"
      using d key_ok_segments by auto
    have fl: "(\<exists>k x r. (k, x) \<in> set files \<and> r \<noteq> [] \<and> strict_prefix r (key_path k) \<and> rs = segments (path_key r))
        \<longleftrightarrow> (\<exists>k x. (k, x) \<in> set files \<and> rs \<noteq> [] \<and> strict_prefix rs (key_path k))"
    proof -
      have "segments (path_key r) = r" if "(k, x) \<in> set files" "strict_prefix r (key_path k)" for k x r
        using up[OF _ that(2)] f that(1) by force
      then show ?thesis by metis
    qed
    show "rs \<in> ?L \<longleftrightarrow> rs \<in> ?R" unfolding l dr fl by (simp add: image_iff Bex_def) blast
  qed
qed

section \<open>The snapshot\<close>

text \<open>Home as the store has it: the files, and every directory listed or above a file.\<close>

definition wanted_home :: "(string \<times> nat \<times> nat) list \<Rightarrow> string list \<Rightarrow> string list \<Rightarrow> home_obj option" where
  "wanted_home files dirs ps =
     (if ps = [] then Some HDir
      else case map_of (file_paths files) ps of
        Some (sz, mt) \<Rightarrow> Some (HFile sz mt)
      | None \<Rightarrow>
          if (\<exists>k\<in>fst ` set files. strict_prefix ps (key_path k)) \<or> (\<exists>d\<in>set dirs. prefix ps (key_path d))
          then Some HDir else None)"

text \<open>What the ledger guarantees of a snapshot: clean keys, and no file where a directory is.\<close>

definition snapshot_ok :: "(string \<times> nat \<times> nat) list \<Rightarrow> string list \<Rightarrow> bool" where
  "snapshot_ok files dirs \<longleftrightarrow> list_all (\<lambda>(k, _). key_ok k) files \<and> list_all key_ok dirs
     \<and> apart (map fst (file_paths files))
     \<and> (\<forall>f\<in>set (map fst (file_paths files)). \<forall>d\<in>set dirs. \<not> prefix f (key_path d))"

lemma walk_from_root:
  assumes ok: "home_ok t"
  obtains W where "snapshot_walk (Suc (length (vt_nodes t))) t F D [(home_root_ino t, [])] [] = map (pino t) W"
    "\<And>q. q \<in> set W \<longleftrightarrow> bad t F D q"
proof -
  have root: "[(home_root_ino t, [])] = map (\<lambda>q. (pino t q, path_key q)) [[]]"
    using home_ok_facts(2)[OF ok] by (simp add: path_key_def)
  have g: "good t F D []" using hroot_dir[OF ok] by (simp add: good_def)
  have b: "strict_prefix [] q" if "bad t F D q" for q using that by (auto simp: bad_def strict_prefix_def)
  have "(\<Sum>p\<leftarrow>[[]]. card (below_home t p)) \<le> Suc (length (vt_nodes t))"
    using below_home_card[OF home_ok_facts(1)[OF ok], of "[]"] by simp
  from snapshot_walk_ok[OF ok, of "[[]]" F D "[]", OF _ _ _ this]
  obtain W where "snapshot_walk (Suc (length (vt_nodes t))) t F D (map (\<lambda>q. (pino t q, path_key q)) [[]]) (map (pino t) []) = map (pino t) W"
    "\<forall>q. q \<in> set W \<longleftrightarrow> bad t F D q" using g b by auto
  then show ?thesis using that root by (metis list.map(1))
qed

lemma snapshot_home:
  assumes ok: "home_ok t" and s: "snapshot_ok files dirs"
    and e: "apply_home_snapshot now files dirs t = (u, v)" and b: "vt_next u \<le> FIRST_OVERLAY_INO"
  shows "hsame t u \<and> hview u ps = wanted_home files dirs ps"
proof -
  let ?D = "wanted_dirs files dirs"
  let ?FP = "map fst (file_paths files)"
  have f: "\<forall>k\<in>fst ` set files. key_ok k" using s by (auto simp: snapshot_ok_def list_all_iff)
  have d: "\<forall>k\<in>set dirs. key_ok k" using s by (auto simp: snapshot_ok_def list_all_iff)
  have ap: "apart ?FP" "\<And>p d. p \<in> set ?FP \<Longrightarrow> d \<in> set dirs \<Longrightarrow> \<not> prefix p (key_path d)"
    using s by (auto simp: snapshot_ok_def)
  obtain W where w: "snapshot_walk (Suc (length (vt_nodes t))) t (fst ` set files) (set ?D) [(home_root_ino t, [])] []
      = map (pino t) W" "\<And>q. q \<in> set W \<longleftrightarrow> bad t (fst ` set files) (set ?D) q"
    by (rule walk_from_root[OF ok, where F = "fst ` set files" and D = "set ?D"]) (rule that; assumption)
  obtain t1 v1 where e1: "drop_victims now (map (pino t) W) (t, inv0) = (t1, v1)"
    by (cases "drop_victims now (map (pino t) W) (t, inv0)")
  obtain t2 v2 where e2: "ensure_all now ?D (t1, v1) = (t2, v2)" by (cases "ensure_all now ?D (t1, v1)")
  have e3: "upsert_all now files (t2, v2) = (u, v)"
    using e by (simp add: apply_home_snapshot_def w(1) e1 e2 del: snapshot_walk.simps)
  have b2: "vt_next t2 \<le> FIRST_OVERLAY_INO" using upsert_all_next[OF e3] b by simp
  note h1 = victims_home[OF ok w(2) e1]
  have ok1: "home_ok t1" using h1 hsame_ok by blast
  note wp = wanted_paths[OF f d]
  have sg: "list_all seg_ok (segments w)" if "w \<in> set ?D" for w using wp(2)[OF that] by blast
  note h2 = ensure_all_home[OF ok1 sg e2 b2]
  have ok2: "home_ok t2" using h2 hsame_ok by blast
  note h3 = upsert_all_home[OF ok2 ap(1) f e3 b]
  have hs: "hsame t u" using h1 h2 h3 hsame_trans by blast
  have hu: "hview u ps = (case map_of (file_paths files) ps of Some (sz, mt) \<Rightarrow> Some (HFile sz mt)
     | None \<Rightarrow> if ps \<noteq> [] \<and> (\<exists>q\<in>set ?FP. strict_prefix ps q) then Some HDir
         else if \<exists>q\<in>set ?FP. strict_prefix q ps then None else hview t2 ps)" using h3 by blast
  have h2': "hview t2 ps = (if ps \<noteq> [] \<and> (\<exists>d\<in>set ?D. prefix ps (segments d)) then Some HDir else hview t1 ps)"
    using h2 by blast
  have dirs_iff: "(\<exists>d\<in>set ?D. prefix ps (segments d)) \<longleftrightarrow>
      (\<exists>d\<in>set dirs. prefix ps (key_path d)) \<or> (\<exists>q\<in>set ?FP. strict_prefix ps q)" if ne: "ps \<noteq> []"
  proof -
    have "(\<exists>d\<in>set ?D. prefix ps (segments d)) \<longleftrightarrow> (\<exists>r\<in>segments ` set ?D. prefix ps r)" by blast
    also have "\<dots> \<longleftrightarrow> (\<exists>d\<in>set dirs. prefix ps (key_path d)) \<or>
        (\<exists>r. r \<noteq> [] \<and> (\<exists>q\<in>set ?FP. strict_prefix r q) \<and> prefix ps r)" unfolding wp(1) by blast
    also have "\<dots> \<longleftrightarrow> (\<exists>d\<in>set dirs. prefix ps (key_path d)) \<or> (\<exists>q\<in>set ?FP. strict_prefix ps q)"
    proof -
      have "(\<exists>r. r \<noteq> [] \<and> (\<exists>q\<in>set ?FP. strict_prefix r q) \<and> prefix ps r) \<longleftrightarrow> (\<exists>q\<in>set ?FP. strict_prefix ps q)"
        using ne prefix_order.le_less_trans by blast
      then show ?thesis by blast
    qed
    finally show ?thesis .
  qed
  have rest: "hview t1 ps = None" if ne: "ps \<noteq> []" and no: "\<not> (\<exists>d\<in>set ?D. prefix ps (segments d))"
      and nf: "map_of (file_paths files) ps = None"
  proof (rule ccontr)
    assume c: "hview t1 ps \<noteq> None"
    have h: "hview t1 ps = hview t ps" "\<not> (\<exists>q. bad t (fst ` set files) (set ?D) q \<and> prefix q ps)"
      using h1 c by (auto split: if_splits)
    have k: "keep_at t (fst ` set files) (set ?D) ps"
      by (rule none_bad_keeps[OF home_ok_facts(1)[OF ok] _ h(2) ne]) (use c h in auto)
    have c': "hview t ps \<noteq> None" using c h(1) by simp
    then obtain n where n: "hat t ps = Some n" by (cases "hat t ps") (auto simp: hview_def)
    have sp: "list_all seg_ok ps" using home_ok_facts(3)[OF ok n] by blast
    obtain o' where o': "hview t ps = Some o'" using c h by auto
    show False
    proof (cases o')
      case HDir
      then have "path_key ps \<in> set ?D" using k o' by (simp add: keep_at_def)
      moreover have "segments (path_key ps) = ps" by (rule segments_path_key[OF sp])
      ultimately show False using no by force
    next
      case (HFile a b)
      then have "path_key ps \<in> fst ` set files" using k o' by (simp add: keep_at_def)
      then obtain x where "(path_key ps, x) \<in> set files" by auto
      then have "ps \<in> fst ` set (file_paths files)" using path_key_path[OF ne sp] by (force simp: image_iff)
      then show False using nf by (simp add: map_of_eq_None_iff)
    qed
  qed
  have files_iff: "(\<exists>k\<in>fst ` set files. strict_prefix ps (key_path k)) \<longleftrightarrow> (\<exists>q\<in>set ?FP. strict_prefix ps q)"
    by force
  have apart_dir: "\<not> (\<exists>q\<in>set ?FP. strict_prefix q ps)" if "\<exists>d\<in>set dirs. prefix ps (key_path d)"
    using ap(2) that by (metis prefix_order.less_imp_le prefix_order.trans)
  have key_ne: "map_of (file_paths files) [] = None" by (auto simp: map_of_eq_None_iff dest: sym)
  show ?thesis
  proof (intro conjI hs)
    show "hview u ps = wanted_home files dirs ps"
    proof (cases "ps = []")
      case True
      then show ?thesis using hroot_dir[OF hsame_ok[OF hs]] by (simp add: wanted_home_def)
    next
      case ne: False
      show ?thesis
      proof (cases "map_of (file_paths files) ps")
        case None
        show ?thesis
          using ne None hu h2' dirs_iff[OF ne] rest[OF ne _ None] apart_dir files_iff
          by (auto simp: wanted_home_def)
      qed (use hu ne in \<open>auto simp: wanted_home_def\<close>)
    qed
  qed
qed


text \<open>
  C2: Home shows exactly the store. After \<open>apply_home_snapshot\<close>, in a well-formed Home and
  with inodes left below the overlay range, the path of every file of the snapshot is a file
  of that size and time, every directory of the snapshot and every directory above a file or
  a directory of it is a directory, and no other path exists, whatever Home held before:
  directories where files are wanted and files where directories are wanted are replaced. The
  tree stays well-formed, and what is outside Home is not touched.
\<close>

theorem snapshot_shows_store:
  assumes "home_ok t" "snapshot_ok files dirs"
    "vt_next (fst (apply_home_snapshot now files dirs t)) \<le> FIRST_OVERLAY_INO"
  shows "home_ok (fst (apply_home_snapshot now files dirs t))
    \<and> (\<forall>ps. hview (fst (apply_home_snapshot now files dirs t)) ps = wanted_home files dirs ps)
    \<and> same_frame t (fst (apply_home_snapshot now files dirs t))"
proof -
  obtain u v where e: "apply_home_snapshot now files dirs t = (u, v)" by (cases "apply_home_snapshot now files dirs t")
  have "hsame t u \<and> hview u ps = wanted_home files dirs ps" for ps
    using snapshot_home[OF assms(1,2) e] assms(3) e by simp
  then show ?thesis using e by (simp add: hsame_def)
qed

definition demo_home :: view where
  "demo_home = workspace_selected 5 ''w1'' ''Work'' \<lparr>sel_trees = [], sel_home = False, sel_backends = False\<rparr>"

definition demo_shown :: view where
  "demo_shown = fst (apply_home_snapshot 7 [(''b'', 3, 9), (''d/c'', 1, 2)] [''e''] demo_home)"

lemma demo_home_ok: "home_ok demo_home"
  unfolding demo_home_def by (rule workspace_start_home) (simp add: includes_home_def is_explicit_def)

theorem snapshot_shows_store_witness:
  "home_ok demo_shown
    \<and> (\<forall>ps. hview demo_shown ps = wanted_home [(''b'', 3, 9), (''d/c'', 1, 2)] [''e''] ps)
    \<and> hview (fst (apply_home_snapshot 8 [(''b/a'', 4, 4), (''d'', 1, 1)] [] demo_shown)) [''d''] = Some (HFile 1 1)
    \<and> hview (fst (apply_home_snapshot 8 [(''b/a'', 4, 4), (''d'', 1, 1)] [] demo_shown)) [''b''] = Some HDir
    \<and> hview (fst (apply_home_snapshot 8 [(''b/a'', 4, 4), (''d'', 1, 1)] [] demo_shown)) [''e''] = None"
proof -
  have s1: "snapshot_ok [(''b'', 3, 9), (''d/c'', 1, 2)] [''e'']" by code_simp
  have "vt_next (fst (apply_home_snapshot 7 [(''b'', 3, 9), (''d/c'', 1, 2)] [''e''] demo_home)) = 20"
    by code_simp
  then have n1: "vt_next (fst (apply_home_snapshot 7 [(''b'', 3, 9), (''d/c'', 1, 2)] [''e''] demo_home)) \<le> FIRST_OVERLAY_INO"
    by (simp add: FIRST_OVERLAY_INO_def)
  have d: "home_ok demo_shown \<and> (\<forall>ps. hview demo_shown ps = wanted_home [(''b'', 3, 9), (''d/c'', 1, 2)] [''e''] ps)"
    using snapshot_shows_store[OF demo_home_ok s1 n1] unfolding demo_shown_def by blast
  have s2: "snapshot_ok [(''b/a'', 4, 4), (''d'', 1, 1)] []" by code_simp
  have "vt_next (fst (apply_home_snapshot 8 [(''b/a'', 4, 4), (''d'', 1, 1)] [] demo_shown)) = 23"
    by code_simp
  then have n2: "vt_next (fst (apply_home_snapshot 8 [(''b/a'', 4, 4), (''d'', 1, 1)] [] demo_shown)) \<le> FIRST_OVERLAY_INO"
    by (simp add: FIRST_OVERLAY_INO_def)
  have "\<forall>ps. hview (fst (apply_home_snapshot 8 [(''b/a'', 4, 4), (''d'', 1, 1)] [] demo_shown)) ps
      = wanted_home [(''b/a'', 4, 4), (''d'', 1, 1)] [] ps"
    using snapshot_shows_store[OF _ s2 n2] d by blast
  moreover have "wanted_home [(''b/a'', 4, 4), (''d'', 1, 1)] [] [''d''] = Some (HFile 1 1)" by code_simp
  moreover have "wanted_home [(''b/a'', 4, 4), (''d'', 1, 1)] [] [''b''] = Some HDir" by code_simp
  moreover have "wanted_home [(''b/a'', 4, 4), (''d'', 1, 1)] [] [''e''] = None" by code_simp
  ultimately show ?thesis using d by (simp only:) simp
qed

end
