(* ===== verification/Api.thy ===== *)
theory Api
  imports Documents
begin

text \<open>
  The REST client of the live views (\<^verbatim>\<open>src/src/api.rs\<close>, \<^verbatim>\<open>struct ApiClient\<close>): which
  request every call sends and how it reads the answer. The server is the parameter
  \<open>net\<close>, a function from a request and the server's state to an optional answer (None: no
  answer) and the next state. Nothing is retried here. An error is its message; the cause
  the HTTP library appends is left out. The TLS set-up and the timeout are left out. Listings
  come in pages; the bound \<open>k\<close> is a number of pages, and None means that the listing has not
  ended within it.
\<close>

record api_client =
  ac_base :: string
  ac_token :: string

record workspace_info =
  wi_id :: string
  wi_name :: string

record blob_ref =
  br_url :: string
  br_checksum :: "string option"
  br_size :: nat
  br_mime :: "string option"

definition PAGE_SIZE :: nat where "PAGE_SIZE = 500"

definition api_new :: "string \<Rightarrow> string \<Rightarrow> api_client" where
  "api_new server token = \<lparr>ac_base = trim_end_with (\<lambda>c. c = slash) server, ac_token = token\<rparr>"

section \<open>One request\<close>

definition api_send ::
    "api_client \<Rightarrow> 'h net \<Rightarrow> string \<Rightarrow> string \<Rightarrow> (string \<times> string) list \<Rightarrow> http_body \<Rightarrow> 'h
       \<Rightarrow> (string + response) \<times> 'h" where
  "api_send c net verb url headers body h =
     (case net (rq verb url ((''authorization'', ''Bearer '' @ ac_token c) # headers) body) h of
        (None, h) \<Rightarrow> (Inl (verb @ '' '' @ url), h)
      | (Some r, h) \<Rightarrow> (Inr r, h))"

definition http_message :: "string \<Rightarrow> string \<Rightarrow> nat \<Rightarrow> string" where
  "http_message verb url st = verb @ '' '' @ url @ '': HTTP '' @ show_nat st"

definition read_json :: "string \<Rightarrow> string \<Rightarrow> response \<Rightarrow> string + json" where
  "read_json verb url r = (case rs_json r of
     None \<Rightarrow> Inl (verb @ '' '' @ url @ '': invalid JSON (HTTP '' @ show_nat (rs_status r) @ '')'')
   | Some body \<Rightarrow>
       if is_success (rs_status r) then Inr body
       else Inl (http_message verb url (rs_status r) @ '': '' @ or_default ''?'' (jstr ''message'' body)))"

definition then_read :: "('e + 'a) \<times> 'h \<Rightarrow> ('a \<Rightarrow> 'e + 'b) \<Rightarrow> ('e + 'b) \<times> 'h" where
  "then_read rh f = (case rh of (Inl e, h) \<Rightarrow> (Inl e, h) | (Inr x, h) \<Rightarrow> (f x, h))"

definition get_json :: "api_client \<Rightarrow> 'h net \<Rightarrow> string \<Rightarrow> 'h \<Rightarrow> (string + json) \<times> 'h" where
  "get_json c net path h =
     (let url = ac_base c @ path
      in then_read (api_send c net ''GET'' url [] NoBody h) (read_json ''GET'' url))"

definition send_json ::
    "api_client \<Rightarrow> 'h net \<Rightarrow> string \<Rightarrow> string \<Rightarrow> json \<Rightarrow> 'h \<Rightarrow> (string + json) \<times> 'h" where
  "send_json c net verb path body h =
     (let url = ac_base c @ path
      in then_read (api_send c net verb url [] (JsonBody body) h) (read_json verb url))"

definition plain_ok :: "string \<Rightarrow> string \<Rightarrow> response \<Rightarrow> string + response" where
  "plain_ok verb url r =
     (if is_success (rs_status r) then Inr r else Inl (http_message verb url (rs_status r)))"

definition ack :: "('e + 'a) \<times> 'h \<Rightarrow> ('e + unit) \<times> 'h" where
  "ack rh = then_read rh (\<lambda>_. Inr ())"

definition returning :: "('e + 'a) \<times> 'h \<Rightarrow> ('a \<Rightarrow> 'b) \<Rightarrow> ('e + 'b) \<times> 'h" where
  "returning rh f = then_read rh (\<lambda>x. Inr (f x))"

abbreviation json_ids :: "nat list \<Rightarrow> json" where
  "json_ids ids \<equiv> JArr (map JNat ids)"

section \<open>Contexts and their documents\<close>

definition ctx_docs :: "string \<Rightarrow> string" where
  "ctx_docs ctx = ''/rest/v2/contexts/'' @ ctx @ ''/documents''"

definition parse_context :: "json \<Rightarrow> context_info option" where
  "parse_context v = map_option (\<lambda>i. \<lparr>c_id = i, c_url = or_default ''/'' (jstr ''url'' v),
     c_workspace = jstr ''workspaceId'' v, c_raw = v\<rparr>) (jstr ''id'' v)"

definition payload_array :: "json \<Rightarrow> json list" where
  "payload_array body = or_default [] (Option.bind (jget ''payload'' body) as_array)"

definition list_contexts :: "api_client \<Rightarrow> 'h net \<Rightarrow> 'h \<Rightarrow> (string + context_info list) \<times> 'h" where
  "list_contexts c net h = returning (get_json c net ''/rest/v2/contexts'' h)
     (\<lambda>body. List.map_filter parse_context (payload_array body))"

definition get_context :: "api_client \<Rightarrow> 'h net \<Rightarrow> string \<Rightarrow> 'h \<Rightarrow> (string + context_info) \<times> 'h" where
  "get_context c net ctx h = returning (get_json c net (''/rest/v2/contexts/'' @ ctx) h) (\<lambda>body.
     let payload = payload_of body; v = or_default payload (jget ''context'' payload)
     in \<lparr>c_id = or_default ctx (jstr ''id'' v), c_url = or_default ''/'' (jstr ''url'' v),
         c_workspace = jstr ''workspaceId'' v, c_raw = v\<rparr>)"

definition get_document :: "api_client \<Rightarrow> 'h net \<Rightarrow> string \<Rightarrow> nat \<Rightarrow> 'h \<Rightarrow> (string + json) \<times> 'h" where
  "get_document c net ctx i h = returning (get_json c net (ctx_docs ctx @ ''/'' @ show_nat i) h) payload_of"

definition create_documents ::
    "api_client \<Rightarrow> 'h net \<Rightarrow> string \<Rightarrow> json list \<Rightarrow> 'h \<Rightarrow> (string + nat list) \<times> 'h" where
  "create_documents c net ctx docs h =
     returning (send_json c net ''POST'' (ctx_docs ctx) (JObj [(''documents'', JArr docs)]) h) extract_result_ids"

definition update_documents ::
    "api_client \<Rightarrow> 'h net \<Rightarrow> string \<Rightarrow> json list \<Rightarrow> 'h \<Rightarrow> (string + nat list) \<times> 'h" where
  "update_documents c net ctx docs h =
     returning (send_json c net ''PUT'' (ctx_docs ctx) (JObj [(''documents'', JArr docs)]) h) extract_result_ids"

definition remove_documents ::
    "api_client \<Rightarrow> 'h net \<Rightarrow> string \<Rightarrow> nat list \<Rightarrow> 'h \<Rightarrow> (string + unit) \<times> 'h" where
  "remove_documents c net ctx ids h = ack (send_json c net ''DELETE'' (ctx_docs ctx @ ''/remove'') (json_ids ids) h)"

definition delete_documents ::
    "api_client \<Rightarrow> 'h net \<Rightarrow> string \<Rightarrow> nat list \<Rightarrow> 'h \<Rightarrow> (string + unit) \<times> 'h" where
  "delete_documents c net ctx ids h = ack (send_json c net ''DELETE'' (ctx_docs ctx) (json_ids ids) h)"

definition api_ping :: "api_client \<Rightarrow> 'h net \<Rightarrow> 'h \<Rightarrow> (string + json) \<times> 'h" where
  "api_ping c net h = returning (get_json c net ''/rest/v2/ping'' h) payload_of"

definition fetch_content ::
    "api_client \<Rightarrow> 'h net \<Rightarrow> string \<Rightarrow> nat \<Rightarrow> 'h \<Rightarrow> (string + string) \<times> 'h" where
  "fetch_content c net ws i h =
     (let url = ac_base c @ ''/rest/v2/workspaces/'' @ ws @ ''/documents/'' @ show_nat i @ ''/content''
      in then_read (api_send c net ''GET'' url [] NoBody h)
           (\<lambda>r. map_sum id rs_bytes (plain_ok ''GET'' url r)))"

section \<open>Pages\<close>

definition page_query :: "nat \<Rightarrow> string" where
  "page_query offset = ''limit='' @ show_nat PAGE_SIZE @ ''&offset='' @ show_nat offset"

definition last_page :: "json \<Rightarrow> nat \<Rightarrow> nat \<Rightarrow> bool" where
  "last_page body n offset =
     (let total = or_default 0 (jnat ''totalCount'' body)
      in n < PAGE_SIZE \<or> (total > 0 \<and> offset \<ge> total))"

fun pages ::
    "api_client \<Rightarrow> 'h net \<Rightarrow> string \<Rightarrow> (json \<Rightarrow> 'a list) \<Rightarrow> nat \<Rightarrow> nat \<Rightarrow> 'a list \<Rightarrow> 'h
       \<Rightarrow> (string + 'a list) option \<times> 'h" where
  "pages c net listing items 0 offset acc h = (None, h)"
| "pages c net listing items (Suc k) offset acc h =
     (case get_json c net (listing @ page_query offset) h of
        (Inl e, h) \<Rightarrow> (Some (Inl e), h)
      | (Inr body, h) \<Rightarrow>
          (let batch = items body; offset = offset + length batch
           in if last_page body (length batch) offset then (Some (Inr (acc @ batch)), h)
              else pages c net listing items k offset (acc @ batch) h))"

definition payload_ids :: "json \<Rightarrow> nat list" where
  "payload_ids body = List.map_filter as_u64 (payload_array body)"

text \<open>The batch of \<^verbatim>\<open>current_path_ids\<close> counts the numbers only, that of a document listing
  every element.\<close>

definition current_path_ids ::
    "api_client \<Rightarrow> 'h net \<Rightarrow> nat \<Rightarrow> string \<Rightarrow> 'h \<Rightarrow> (string + nat set) option \<times> 'h" where
  "current_path_ids c net k listing h =
     (case pages c net (listing @ ''currentPathOnly=true&idsOnly=true&'') payload_ids k 0 [] h of
        (r, h) \<Rightarrow> (map_option (map_sum id set) r, h))"

definition list_pages_of ::
    "text_env \<Rightarrow> api_client \<Rightarrow> 'h net \<Rightarrow> nat \<Rightarrow> string \<Rightarrow> 'h \<Rightarrow> (string + document list) option \<times> 'h" where
  "list_pages_of x c net k listing h =
     (case pages c net listing extract_documents k 0 [] h of
        (r, h) \<Rightarrow> (map_option (map_sum id (List.map_filter (parse_document x))) r, h))"

definition with_filed ::
    "api_client \<Rightarrow> 'h net \<Rightarrow> nat \<Rightarrow> string \<Rightarrow> document list \<Rightarrow> 'h \<Rightarrow> (string + document list) option \<times> 'h" where
  "with_filed c net k listing docs h =
     (case current_path_ids c net k listing h of
        (r, h) \<Rightarrow> (map_option (map_sum id (mark_filed docs)) r, h))"

definition list_documents ::
    "text_env \<Rightarrow> api_client \<Rightarrow> 'h net \<Rightarrow> nat \<Rightarrow> string \<Rightarrow> 'h \<Rightarrow> (string + document list) option \<times> 'h" where
  "list_documents x c net k ctx h =
     (case list_pages_of x c net k (ctx_docs ctx @ ''?'') h of
        (Some (Inr docs), h) \<Rightarrow> with_filed c net k (ctx_docs ctx @ ''?'') docs h
      | r \<Rightarrow> r)"

section \<open>Workspaces and trees\<close>

definition ws_url :: "string \<Rightarrow> string" where
  "ws_url ws = ''/rest/v2/workspaces/'' @ encode_with False ws"

definition get_workspace :: "api_client \<Rightarrow> 'h net \<Rightarrow> string \<Rightarrow> 'h \<Rightarrow> (string + workspace_info) \<times> 'h" where
  "get_workspace c net nm h = returning (get_json c net (ws_url nm) h) (\<lambda>body.
     let w = payload_of body; w = or_default w (jget ''workspace'' w)
     in \<lparr>wi_id = or_default nm (jstr ''id'' w), wi_name = or_default nm (jstr ''name'' w)\<rparr>)"

definition parse_tree :: "json \<Rightarrow> tree_info option" where
  "parse_tree v = map_option (\<lambda>nm. \<lparr>ti_id = or_default nm (jstr ''id'' v), ti_name = nm,
     ti_type = or_default ''context'' (jstr ''type'' v)\<rparr>) (jstr ''name'' v)"

definition list_trees :: "api_client \<Rightarrow> 'h net \<Rightarrow> string \<Rightarrow> 'h \<Rightarrow> (string + tree_info list) \<times> 'h" where
  "list_trees c net ws h = returning (get_json c net (ws_url ws @ ''/trees'') h)
     (\<lambda>body. List.map_filter parse_tree (payload_array body))"

definition tree_url :: "string \<Rightarrow> string \<Rightarrow> string" where
  "tree_url ws tree = ws_url ws @ ''/trees/'' @ encode_with False tree"

definition list_tree_paths ::
    "api_client \<Rightarrow> 'h net \<Rightarrow> string \<Rightarrow> string \<Rightarrow> 'h \<Rightarrow> (string + string list) \<times> 'h" where
  "list_tree_paths c net ws tree h = returning (get_json c net (tree_url ws tree @ ''/paths'') h)
     (\<lambda>body. List.map_filter as_str (payload_array body))"

definition tree_listing :: "string \<Rightarrow> string \<Rightarrow> string \<Rightarrow> string \<Rightarrow> string" where
  "tree_listing ws tree tree_type path =
     ws_url ws @ ''/documents?treeNameOrTreeId='' @ encode_with False tree @ ''&treeType=''
     @ encode_with False tree_type @ ''&context='' @ encode_with False path @ ''&''"

definition list_tree_documents ::
    "text_env \<Rightarrow> api_client \<Rightarrow> 'h net \<Rightarrow> nat \<Rightarrow> string \<Rightarrow> string \<Rightarrow> string \<Rightarrow> string \<Rightarrow> 'h
       \<Rightarrow> (string + document list) option \<times> 'h" where
  "list_tree_documents x c net k ws tree tree_type path h =
     (let listing = tree_listing ws tree tree_type path
      in case list_pages_of x c net k listing h of
           (Some (Inr docs), h) \<Rightarrow>
             (if tree_type = ''context'' then with_filed c net k listing docs h else (Some (Inr docs), h))
         | r \<Rightarrow> r)"

section \<open>Blobs\<close>

definition parse_blob :: "json \<Rightarrow> string + blob_ref" where
  "parse_blob body =
     (let p = or_default body (jget ''payload'' body)
      in case jstr ''url'' p of
           None \<Rightarrow> Inl ''blob upload returned no url''
         | Some u \<Rightarrow> Inr \<lparr>br_url = u, br_checksum = jstr ''checksum'' p,
             br_size = or_default 0 (jnat ''size'' p), br_mime = jstr ''mimeType'' p\<rparr>)"

definition octets :: "(string \<times> string) list" where
  "octets = [(''content-type'', ''application/octet-stream'')]"

definition post_blob :: "api_client \<Rightarrow> 'h net \<Rightarrow> string \<Rightarrow> string \<Rightarrow> 'h \<Rightarrow> (string + blob_ref) \<times> 'h" where
  "post_blob c net url bytes h =
     then_read (then_read (api_send c net ''POST'' url octets (ByteBody bytes) h) (read_json ''POST'' url)) parse_blob"

definition upload_blob :: "api_client \<Rightarrow> 'h net \<Rightarrow> string \<Rightarrow> string \<Rightarrow> 'h \<Rightarrow> (string + blob_ref) \<times> 'h" where
  "upload_blob c net ws = post_blob c net (ac_base c @ ws_url ws @ ''/blobs'')"

definition upload_context_blob :: "api_client \<Rightarrow> 'h net \<Rightarrow> string \<Rightarrow> string \<Rightarrow> 'h \<Rightarrow> (string + blob_ref) \<times> 'h" where
  "upload_context_blob c net ctx =
     post_blob c net (ac_base c @ ''/rest/v2/contexts/'' @ encode_with False ctx @ ''/blobs'')"

section \<open>The home drive\<close>

definition api_home_url :: "string \<Rightarrow> string \<Rightarrow> string" where
  "api_home_url ws path = ws_url ws @ ''/home/'' @ encode_path path"

definition parse_home_entry :: "json \<Rightarrow> home_entry option" where
  "parse_home_entry e = map_option (\<lambda>nm. \<lparr>he_name = nm, he_size = or_default 0 (jnat ''size'' e),
     he_is_dir = or_default False (Option.bind (jget ''isDirectory'' e) as_bool),
     he_mtime = jstr ''mtime'' e\<rparr>) (jstr ''name'' e)"

definition list_home :: "api_client \<Rightarrow> 'h net \<Rightarrow> string \<Rightarrow> string \<Rightarrow> 'h \<Rightarrow> (string + home_entry list) \<times> 'h" where
  "list_home c net ws path h = returning (get_json c net (api_home_url ws path) h) (\<lambda>body.
     List.map_filter parse_home_entry
       (or_default [] (Option.bind (Option.bind (jget ''payload'' body) (jget ''entries'')) as_array)))"

definition read_home_range ::
    "api_client \<Rightarrow> 'h net \<Rightarrow> string \<Rightarrow> string \<Rightarrow> nat \<Rightarrow> nat \<Rightarrow> 'h \<Rightarrow> (string + string) \<times> 'h" where
  "read_home_range c net ws path start stop h =
     (let url = ac_base c @ api_home_url ws path @ ''?download''
      in then_read (api_send c net ''GET'' url
             [(''range'', ''bytes='' @ show_nat start @ ''-'' @ show_nat stop)] NoBody h)
           (\<lambda>r. map_sum id (\<lambda>r.
              if rs_status r = 206 then rs_bytes r
              else let from = min start (length (rs_bytes r));
                       to = min (min (stop + 1) (2 ^ 64 - 1)) (length (rs_bytes r))
                   in take (to - from) (drop from (rs_bytes r)))
              (plain_ok ''GET'' url r)))"

definition write_home :: "api_client \<Rightarrow> 'h net \<Rightarrow> string \<Rightarrow> string \<Rightarrow> string \<Rightarrow> 'h \<Rightarrow> (string + unit) \<times> 'h" where
  "write_home c net ws path bytes h =
     (let url = ac_base c @ api_home_url ws path
      in ack (then_read (api_send c net ''PUT'' url octets (ByteBody bytes) h) (plain_ok ''PUT'' url)))"

definition mkdir_home :: "api_client \<Rightarrow> 'h net \<Rightarrow> string \<Rightarrow> string \<Rightarrow> 'h \<Rightarrow> (string + unit) \<times> 'h" where
  "mkdir_home c net ws path h = ack (send_json c net ''POST'' (ws_url ws @ ''/home/mkdir'')
     (JObj [(''path'', JStr (trim_start_with (\<lambda>c. c = slash) path))]) h)"

definition remove_home :: "api_client \<Rightarrow> 'h net \<Rightarrow> string \<Rightarrow> string \<Rightarrow> 'h \<Rightarrow> (string + unit) \<times> 'h" where
  "remove_home c net ws path h =
     (let url = ac_base c @ api_home_url ws path
      in ack (then_read (api_send c net ''DELETE'' url [] NoBody h) (plain_ok ''DELETE'' url)))"

definition objects_rename_url :: "string \<Rightarrow> string \<Rightarrow> string" where
  "objects_rename_url ws backend =
     ws_url ws @ ''/backends/file/'' @ encode_with False backend @ ''/objects/rename''"

definition api_rename_directory ::
    "api_client \<Rightarrow> 'h net \<Rightarrow> string \<Rightarrow> string \<Rightarrow> string \<Rightarrow> string \<Rightarrow> string \<Rightarrow> 'h \<Rightarrow> (string + unit) \<times> 'h" where
  "api_rename_directory c net operation_id ws backend from to h =
     then_read (send_json c net ''POST'' (objects_rename_url ws backend)
         (JObj [(''from'', JStr from), (''to'', JStr to), (''directory'', JBool True),
            (''operationId'', JStr operation_id)]) h)
       (\<lambda>body. if Option.bind (jget ''directory'' (or_default body (jget ''payload'' body))) as_bool = Some True
          then Inr () else Inl ''hub did not acknowledge a directory rename; update the server'')"

definition api_rename_object ::
    "api_client \<Rightarrow> 'h net \<Rightarrow> string \<Rightarrow> string \<Rightarrow> string \<Rightarrow> string \<Rightarrow> string option \<Rightarrow> 'h \<Rightarrow> (string + unit) \<times> 'h" where
  "api_rename_object c net ws backend from to if_match h =
     ack (send_json c net ''POST'' (objects_rename_url ws backend)
       (JObj ([(''from'', JStr from), (''to'', JStr to)]
          @ (case if_match of Some m \<Rightarrow> [(''ifMatch'', JStr m)] | None \<Rightarrow> []))) h)"

section \<open>Trash and tree documents\<close>

definition empty_trash :: "api_client \<Rightarrow> 'h net \<Rightarrow> string \<Rightarrow> nat list \<Rightarrow> 'h \<Rightarrow> (string + unit) \<times> 'h" where
  "empty_trash c net ws ids h =
     ack (send_json c net ''DELETE'' (ws_url ws @ ''/trash'') (JObj [(''documentIds'', json_ids ids)]) h)"

definition list_trash :: "text_env \<Rightarrow> api_client \<Rightarrow> 'h net \<Rightarrow> string \<Rightarrow> 'h \<Rightarrow> (string + document list) \<times> 'h" where
  "list_trash x c net ws h = returning (get_json c net (ws_url ws @ ''/trash'') h)
     (\<lambda>body. List.map_filter (parse_document x) (extract_documents body))"

definition tree_path_url :: "string \<Rightarrow> string \<Rightarrow> string \<Rightarrow> string" where
  "tree_path_url ws tree path = tree_url ws tree @ ''/path/'' @ encode_tree_path path"

definition insert_tree_path ::
    "api_client \<Rightarrow> 'h net \<Rightarrow> string \<Rightarrow> string \<Rightarrow> string \<Rightarrow> 'h \<Rightarrow> (string + unit) \<times> 'h" where
  "insert_tree_path c net ws tree path h = ack (send_json c net ''PUT'' (tree_path_url ws tree path) (JObj []) h)"

definition remove_tree_path ::
    "api_client \<Rightarrow> 'h net \<Rightarrow> string \<Rightarrow> string \<Rightarrow> string \<Rightarrow> bool \<Rightarrow> 'h \<Rightarrow> (string + unit) \<times> 'h" where
  "remove_tree_path c net ws tree path recursive h = ack (send_json c net ''DELETE''
     (tree_path_url ws tree path @ ''?recursive='' @ (if recursive then ''true'' else ''false'')) JNull h)"

definition move_tree_path ::
    "api_client \<Rightarrow> 'h net \<Rightarrow> string \<Rightarrow> string \<Rightarrow> string \<Rightarrow> string \<Rightarrow> 'h \<Rightarrow> (string + unit) \<times> 'h" where
  "move_tree_path c net ws tree from to h = ack (send_json c net ''PATCH'' (tree_path_url ws tree from)
     (JObj [(''to'', JStr to), (''recursive'', JBool True)]) h)"

definition filed_at :: "string \<times> json \<Rightarrow> string \<Rightarrow> string \<Rightarrow> string \<Rightarrow> json" where
  "filed_at what tree tree_type path = JObj [what, (''treeNameOrTreeId'', JStr tree),
     (''treeType'', JStr tree_type), (''context'', JStr path)]"

definition put_tree_document ::
    "api_client \<Rightarrow> 'h net \<Rightarrow> string \<Rightarrow> string \<Rightarrow> string \<Rightarrow> string \<Rightarrow> json \<Rightarrow> 'h \<Rightarrow> (string + nat list) \<times> 'h" where
  "put_tree_document c net ws tree tree_type path doc h =
     returning (send_json c net ''POST'' (ws_url ws @ ''/documents'')
       (filed_at (''documents'', JArr [doc]) tree tree_type path) h) extract_result_ids"

definition link_tree_document ::
    "api_client \<Rightarrow> 'h net \<Rightarrow> string \<Rightarrow> string \<Rightarrow> string \<Rightarrow> string \<Rightarrow> nat list \<Rightarrow> 'h \<Rightarrow> (string + unit) \<times> 'h" where
  "link_tree_document c net ws tree tree_type path ids h =
     ack (send_json c net ''POST'' (ws_url ws @ ''/documents'')
       (filed_at (''documentIds'', json_ids ids) tree tree_type path) h)"

definition update_workspace_documents ::
    "api_client \<Rightarrow> 'h net \<Rightarrow> string \<Rightarrow> string \<Rightarrow> string \<Rightarrow> string \<Rightarrow> json list \<Rightarrow> 'h \<Rightarrow> (string + nat list) \<times> 'h" where
  "update_workspace_documents c net ws tree tree_type path docs h =
     returning (send_json c net ''PUT'' (ws_url ws @ ''/documents'')
       (filed_at (''documents'', JArr docs) tree tree_type path) h) extract_result_ids"

definition get_workspace_document ::
    "api_client \<Rightarrow> 'h net \<Rightarrow> string \<Rightarrow> nat \<Rightarrow> 'h \<Rightarrow> (string + json) \<times> 'h" where
  "get_workspace_document c net ws i h =
     returning (get_json c net (ws_url ws @ ''/documents/'' @ show_nat i) h) payload_of"

definition remove_tree_document ::
    "api_client \<Rightarrow> 'h net \<Rightarrow> string \<Rightarrow> string \<Rightarrow> string \<Rightarrow> string \<Rightarrow> nat list \<Rightarrow> bool \<Rightarrow> 'h
       \<Rightarrow> (string + unit) \<times> 'h" where
  "remove_tree_document c net ws tree tree_type path ids trash_if_orphaned h =
     ack (send_json c net ''DELETE''
       (ws_url ws @ ''/documents/remove?treeNameOrTreeId='' @ encode_with False tree
        @ ''&treeType='' @ encode_with False tree_type @ ''&context='' @ encode_with False path
        @ (if trash_if_orphaned then ''&trashIfOrphaned=true'' else [])) (json_ids ids) h)"

end
