(* ===== verification/Write_Docs.thy ===== *)
theory Write_Docs
  imports Api Render
begin

text \<open>
  What a saved file means as a document (\<^verbatim>\<open>src/src/writes.rs\<close>, the free functions): merging
  an edited buffer into an existing document, the document a new file makes, and the record
  that renames a document. JSON objects keep their field order. The JSON parser and the
  lower-casing of a name are parameters (\<open>parse\<close>, \<open>x_lower_str\<close>). Setting a key of an array
  or a scalar panics in \<^verbatim>\<open>serde_json\<close>; that is None.
\<close>

section \<open>JSON objects\<close>

fun put_field :: "string \<Rightarrow> json \<Rightarrow> (string \<times> json) list \<Rightarrow> (string \<times> json) list" where
  "put_field k v [] = [(k, v)]"
| "put_field k v ((a, b) # kvs) = (if a = k then (k, v) # kvs else (a, b) # put_field k v kvs)"

fun jset :: "string \<Rightarrow> json \<Rightarrow> json \<Rightarrow> json option" where
  "jset k v (JObj kvs) = Some (JObj (put_field k v kvs))"
| "jset k v JNull = Some (JObj [(k, v)])"
| "jset k v _ = None"

fun extend_obj :: "json \<Rightarrow> json \<Rightarrow> json" where
  "extend_obj (JObj kvs) (JObj new) = JObj (fold (\<lambda>(k, v). put_field k v) new kvs)"
| "extend_obj d _ = d"

lemma map_of_put_field [simp]: "map_of (put_field k v kvs) a = (if a = k then Some v else map_of kvs a)"
  by (induction kvs) auto

lemma jget_jset: "jset k v d = Some d' \<Longrightarrow> jget a d' = (if a = k then Some v else jget a d)"
  by (cases "(k, v, d)" rule: jset.cases) auto

lemma fold_put_field: "map_of (fold (\<lambda>(k, v). put_field k v) new kvs) a =
    (case map_of (rev new) a of Some v \<Rightarrow> Some v | None \<Rightarrow> map_of kvs a)"
  by (induction new arbitrary: kvs) (auto simp: map_add_def split: option.splits)

section \<open>Text\<close>

definition text_lines :: "string \<Rightarrow> string list" where
  "text_lines s =
     (let ls = split_on LF s;
          ls = (if last ls = [] then butlast ls else ls)
      in map (\<lambda>l. or_default l (strip_suffix [CR] l)) ls)"

fun first_word :: "string \<Rightarrow> string" where
  "first_word [] = []"
| "first_word (c # cs) = (if strip_any ws_seqs (c # cs) \<noteq> None then [] else c # first_word cs)"

definition extract_url :: "string \<Rightarrow> string option" where
  "extract_url text =
     (let t = str_trim text
      in if starts_with ''http://'' t \<or> starts_with ''https://'' t then Some (first_word t)
         else find_map (\<lambda>line. case strip_prefix ''URL='' (str_trim line) of
             Some rest \<Rightarrow> if rest \<noteq> [] then Some rest else None
           | None \<Rightarrow> None) (text_lines t))"

abbreviation hash_char :: char where "hash_char \<equiv> CHR ''#''"

fun scan_h1 :: "bool \<Rightarrow> string list \<Rightarrow> string option" where
  "scan_h1 in_fence [] = None"
| "scan_h1 in_fence (raw # ls) =
     (let line = str_trim raw
      in if starts_with ''```'' line \<or> starts_with ''~~~'' line then scan_h1 (\<not> in_fence) ls
         else if in_fence then scan_h1 in_fence ls
         else case strip_prefix ''# '' line of
             Some rest \<Rightarrow>
               (let title = str_trim (trim_end_with (\<lambda>c. c = hash_char) (str_trim rest))
                in if title \<noteq> [] then Some (concat (take 200 (chars title))) else scan_h1 in_fence ls)
           | None \<Rightarrow> scan_h1 in_fence ls)"

definition first_markdown_h1 :: "string \<Rightarrow> string option" where
  "first_markdown_h1 text = scan_h1 False (text_lines text)"

section \<open>Saving over a document\<close>

abbreviation NOTE_SCHEMA :: string where "NOTE_SCHEMA \<equiv> ''data/schema/note''"
abbreviation TASK_SCHEMA :: string where "TASK_SCHEMA \<equiv> ''data/schema/task''"
abbreviation TAB_SCHEMA :: string where "TAB_SCHEMA \<equiv> ''data/schema/tab''"
abbreviation LINK_SCHEMA :: string where "LINK_SCHEMA \<equiv> ''data/schema/link''"
abbreviation FILE_SCHEMA :: string where "FILE_SCHEMA \<equiv> ''data/schema/file''"

definition apply_buffer_to_data :: "(string \<Rightarrow> json option) \<Rightarrow> string \<Rightarrow> json \<Rightarrow> string \<Rightarrow> json option" where
  "apply_buffer_to_data parse schema data buffer =
     (let text = utf8_lossy buffer
      in if schema = TASK_SCHEMA then
           Some (case parse text of Some new \<Rightarrow> extend_obj data new | None \<Rightarrow> data)
         else if schema = TAB_SCHEMA \<or> schema = LINK_SCHEMA then
           (case extract_url text of Some u \<Rightarrow> jset ''url'' (JStr u) data | None \<Rightarrow> Some data)
         else Option.bind (jset ''content'' (JStr text) data) (\<lambda>d.
           case first_markdown_h1 text of Some t \<Rightarrow> jset ''title'' (JStr t) d | None \<Rightarrow> Some d))"

definition schema_of :: "json \<Rightarrow> string" where
  "schema_of existing = or_default NOTE_SCHEMA (jstr ''schema'' existing)"

definition data_of :: "json \<Rightarrow> json" where
  "data_of existing = or_default (JObj []) (jget ''data'' existing)"

definition doc_update :: "nat \<Rightarrow> string \<Rightarrow> json \<Rightarrow> json" where
  "doc_update i schema data = JObj [(''id'', JNat i), (''schema'', JStr schema), (''data'', data)]"

definition renamed_record :: "json \<Rightarrow> nat \<Rightarrow> string \<Rightarrow> json" where
  "renamed_record existing i filename =
     (let schema = schema_of existing
      in if schema = FILE_SCHEMA then
           JObj [(''id'', JNat i), (''schema'', JStr schema), (''metadata'', JObj [(''filename'', JStr filename)])]
         else doc_update i schema (JObj (put_field ''filename'' (JStr filename)
           (case jget ''data'' existing of Some (JObj m) \<Rightarrow> m | _ \<Rightarrow> []))))"

section \<open>The document of a new file\<close>

definition ws_doc_schema :: "text_env \<Rightarrow> string \<Rightarrow> string option" where
  "ws_doc_schema x nm =
     (let low = x_lower_str x nm
      in if ends_with ''.note.md'' low then Some NOTE_SCHEMA
         else if ends_with ''.todo.json'' low then Some TASK_SCHEMA
         else if ends_with ''.url'' low then Some TAB_SCHEMA
         else None)"

definition build_file_document :: "string \<Rightarrow> blob_ref \<Rightarrow> json" where
  "build_file_document nm blob =
     JObj ([(''schema'', JStr FILE_SCHEMA), (''data'', JObj []),
        (''locations'', JArr [JObj [(''url'', JStr (br_url blob)),
            (''metadata'', JObj [(''filename'', JStr nm)])]]),
        (''metadata'', JObj ([(''size'', JNat (br_size blob))]
           @ (case br_mime blob of Some m \<Rightarrow> [(''contentType'', JStr m)] | None \<Rightarrow> [])))]
      @ (case br_checksum blob of Some s \<Rightarrow> [(''checksumArray'', JArr [JStr (''sha256/'' @ s)])] | None \<Rightarrow> []))"

definition stem_of :: "string \<Rightarrow> string \<Rightarrow> string" where
  "stem_of ext nm = or_default nm (strip_suffix ext nm)"

definition new_document :: "string \<Rightarrow> (string \<times> json) list \<Rightarrow> json" where
  "new_document schema data = JObj [(''schema'', JStr schema), (''data'', JObj data)]"

definition build_ws_document ::
    "text_env \<Rightarrow> (string \<Rightarrow> json option) \<Rightarrow> string \<Rightarrow> string \<Rightarrow> json option" where
  "build_ws_document x parse nm buffer = Option.bind (ws_doc_schema x nm) (\<lambda>schema.
     let text = utf8_lossy buffer
     in if schema = TASK_SCHEMA then
          (let data = JObj [(''title'', JStr (stem_of ''.todo.json'' nm)), (''completed'', JBool False),
                 (''filename'', JStr nm)]
           in Some (JObj [(''schema'', JStr schema),
                (''data'', case parse text of Some new \<Rightarrow> extend_obj data new | None \<Rightarrow> data)]))
        else if schema = TAB_SCHEMA then
          map_option (\<lambda>u. new_document schema [(''title'', JStr (stem_of ''.url'' nm)), (''url'', JStr u),
            (''filename'', JStr nm)]) (extract_url text)
        else Some (new_document schema
          [(''title'', JStr (or_default (stem_of ''.note.md'' nm) (first_markdown_h1 text))),
           (''content'', JStr text), (''filename'', JStr nm)]))"

end
