(* ===== verification/View_Docs.thy ===== *)
theory View_Docs
  imports View
begin

text \<open>
  Contexts and their documents in the mounted tree (\<^verbatim>\<open>src/src/state.rs\<close>): one directory per
  context, in it the documents as files under sticky names, \<^verbatim>\<open>.context.json\<close> and the derived
  grouping \<^verbatim>\<open>.by-schema\<close>; the bindings from documents to inodes; and the tombstones, entries
  that left the view and wait for a real unlink. A panic of the code is None: the renderer
  panics on some names, and the tree panics where a listed inode has no node.
\<close>

section \<open>Bindings and tombstones\<close>

definition unbind_ino :: "nat \<Rightarrow> view \<Rightarrow> view" where
  "unbind_ino ino t = t\<lparr>vt_docs := filter (\<lambda>(_, i). i \<noteq> ino) (vt_docs t)\<rparr>"

definition bind_doc :: "string \<Rightarrow> nat \<Rightarrow> nat \<Rightarrow> view \<Rightarrow> view" where
  "bind_doc ctx doc_id ino t = t\<lparr>vt_docs := tput (ctx, doc_id) ino (vt_docs t)\<rparr>"

definition unbind_doc :: "string \<Rightarrow> nat \<Rightarrow> view \<Rightarrow> view" where
  "unbind_doc ctx doc_id t = t\<lparr>vt_docs := tdel (ctx, doc_id) (vt_docs t)\<rparr>"

definition ino_for_doc :: "view \<Rightarrow> string \<Rightarrow> nat \<Rightarrow> nat option" where
  "ino_for_doc t ctx doc_id = tget (vt_docs t) (ctx, doc_id)"

definition doc_for_ino :: "view \<Rightarrow> nat \<Rightarrow> (string \<times> nat) option" where
  "doc_for_ino t ino = map_option fst (find (\<lambda>(_, i). i = ino) (vt_docs t))"

definition set_deferred_removals :: "bool \<Rightarrow> view \<Rightarrow> view" where
  "set_deferred_removals on t = t\<lparr>vt_defer := on\<rparr>"

definition tombstone :: "nat \<Rightarrow> view \<Rightarrow> view" where
  "tombstone ino t = t\<lparr>vt_tombstones := insert ino (vt_tombstones t)\<rparr>"

definition take_tombstone :: "nat \<Rightarrow> string \<Rightarrow> view \<Rightarrow> nat option \<times> view" where
  "take_tombstone parent nm t = (case child t parent nm of
     None \<Rightarrow> (None, t)
   | Some ino \<Rightarrow>
       if ino \<in> vt_tombstones t then (Some ino, t\<lparr>vt_tombstones := vt_tombstones t - {ino}\<rparr>) else (None, t))"

definition drop_tombstoned :: "nat \<Rightarrow> nat \<Rightarrow> view \<Rightarrow> view" where
  "drop_tombstoned now ino t =
     (let t = t\<lparr>vt_tombstones := vt_tombstones t - {ino}\<rparr>;
          t = unbind_ino ino (snd (remove_node now ino t))
      in t\<lparr>vt_ws := map_option (\<lambda>w. w\<lparr>ws_files := tdel ino (ws_files w)\<rparr>) (vt_ws t)\<rparr>)"

definition locate_context_dir :: "view \<Rightarrow> nat \<Rightarrow> string option" where
  "locate_context_dir t ino = (case tget (vt_nodes t) ino of
     None \<Rightarrow> None
   | Some n \<Rightarrow>
       if \<not> is_dir n then None
       else case vt_context_root t of
         Some root \<Rightarrow> (if ino = ROOT_INO then Some root else None)
       | None \<Rightarrow> (if ino \<noteq> ROOT_INO \<and> n_parent n = contexts_parent t then Some (n_name n) else None))"

definition adopt_document :: "nat \<Rightarrow> nat \<Rightarrow> string \<Rightarrow> string \<Rightarrow> nat \<Rightarrow> nat \<Rightarrow> string \<Rightarrow> view \<Rightarrow> view" where
  "adopt_document now dir nm ctx doc_id ino bytes t =
     insert_node now (new_node ino dir nm now (NInline bytes)) (bind_doc ctx doc_id ino t)"

definition set_inline_content :: "nat \<Rightarrow> nat \<Rightarrow> string \<Rightarrow> view \<Rightarrow> view" where
  "set_inline_content now ino bytes = upd_node ino (\<lambda>n. n\<lparr>n_content := NInline bytes, n_mtime := now\<rparr>)"

definition rename_entry :: "nat \<Rightarrow> string \<Rightarrow> view \<Rightarrow> view" where
  "rename_entry ino nm t = (case tget (vt_nodes t) ino of
     None \<Rightarrow> t
   | Some n \<Rightarrow>
       t\<lparr>vt_nodes := tput ino (n\<lparr>n_name := nm\<rparr>) (vt_nodes t),
         vt_children := (case tget (vt_children t) (n_parent n) of
           None \<Rightarrow> vt_children t
         | Some siblings \<Rightarrow> tput (n_parent n) (tput nm ino (tdel (n_name n) siblings)) (vt_children t))\<rparr>)"

definition remove_doc_node :: "nat \<Rightarrow> nat \<Rightarrow> view \<Rightarrow> view" where
  "remove_doc_node now ino t = unbind_ino ino (snd (remove_node now ino t))"

section \<open>The set of contexts\<close>

definition refresh_meta :: "nat \<Rightarrow> nat \<Rightarrow> string \<Rightarrow> view \<times> invalidation \<Rightarrow> (view \<times> invalidation) option" where
  "refresh_meta now ctx_ino meta s = (case s of (t, v) \<Rightarrow>
     case child t ctx_ino CONTEXT_META_FILE of
       None \<Rightarrow> Some (t, v)
     | Some i \<Rightarrow>
        (case tget (vt_nodes t) i of
           None \<Rightarrow> None
         | Some n \<Rightarrow>
             if n_content n \<noteq> NInline meta
             then Some (upd_node i (\<lambda>n. n\<lparr>n_content := NInline meta, n_mtime := now\<rparr>) t, changed i v)
             else Some (t, v)))"

definition know_context :: "context_info \<Rightarrow> view \<Rightarrow> view" where
  "know_context c t =
     t\<lparr>vt_ctx_ws := (case c_workspace c of Some w \<Rightarrow> tput (c_id c) w (vt_ctx_ws t) | None \<Rightarrow> vt_ctx_ws t),
       vt_ctx_urls := tput (c_id c) (c_url c) (vt_ctx_urls t)\<rparr>"

definition drop_context :: "nat \<Rightarrow> string \<Rightarrow> view \<times> invalidation \<Rightarrow> view \<times> invalidation" where
  "drop_context now ctx s = (case s of (t, v) \<Rightarrow>
     case tget (vt_ctxs t) ctx of
       None \<Rightarrow> (t, v)
     | Some ino \<Rightarrow>
         let (t, v) = remove_subtree now ino (t\<lparr>vt_ctxs := tdel ctx (vt_ctxs t)\<rparr>, v);
             (t, v) = (if ino = ROOT_INO then (t, dirty_dir ROOT_INO v)
               else case remove_node now ino t of
                 (Some n, t) \<Rightarrow> (t, removed (n_parent n, ino, n_name n) v)
               | (None, t) \<Rightarrow> (t, v));
             t = t\<lparr>vt_docs := filter (\<lambda>((c, _), _). c \<noteq> ctx) (vt_docs t),
                   vt_ctx_ws := tdel ctx (vt_ctx_ws t), vt_ctx_urls := tdel ctx (vt_ctx_urls t)\<rparr>
         in (t, dirty_dir (contexts_parent t) v))"

definition add_dir :: "nat \<Rightarrow> nat \<Rightarrow> string \<Rightarrow> node_content \<Rightarrow> view \<Rightarrow> nat \<times> view" where
  "add_dir now parent nm content t =
     (let (i, t) = alloc_ino t in (i, insert_node now (new_node i parent nm now content) t))"

definition new_context :: "nat \<Rightarrow> string \<Rightarrow> context_info \<Rightarrow> view \<times> invalidation \<Rightarrow> view \<times> invalidation" where
  "new_context now meta c s = (case s of (t, v) \<Rightarrow>
     let (ino, t) = (if vt_context_root t \<noteq> None then (ROOT_INO, t)
           else add_dir now (contexts_parent t) (c_id c) NDir t);
         t = know_context c (t\<lparr>vt_ctxs := tput (c_id c) ino (vt_ctxs t)\<rparr>);
         t = snd (add_dir now ino BY_SCHEMA_DIR NDir t);
         t = snd (add_dir now ino CONTEXT_META_FILE (NInline meta) t)
     in (t, dirty_dir (contexts_parent t) v))"

fun add_contexts ::
    "text_env \<Rightarrow> nat \<Rightarrow> context_info list \<Rightarrow> view \<times> invalidation \<times> string list
       \<Rightarrow> (view \<times> invalidation \<times> string list) option" where
  "add_contexts x now [] s = Some s"
| "add_contexts x now (c # cs) (t, v, new) =
     (if (case vt_context_root t of Some root \<Rightarrow> root \<noteq> c_id c | None \<Rightarrow> False)
      then add_contexts x now cs (t, v, new)
      else case tget (vt_ctxs t) (c_id c) of
        Some ino \<Rightarrow> Option.bind (refresh_meta now ino (x_pretty x (c_raw c)) (t, v))
          (\<lambda>(t, v). add_contexts x now cs (know_context c t, v, new))
      | None \<Rightarrow>
          let (t, v) = new_context now (x_pretty x (c_raw c)) c (t, v)
          in add_contexts x now cs (t, v, new @ [c_id c]))"

definition apply_contexts ::
    "text_env \<Rightarrow> nat \<Rightarrow> context_info list \<Rightarrow> view \<Rightarrow> (view \<times> invalidation \<times> string list) option" where
  "apply_contexts x now contexts t =
     (let stale = filter (\<lambda>i. i \<notin> c_id ` set contexts) (tkeys (vt_ctxs t));
          (t, v) = fold (drop_context now) stale (t, inv0)
      in add_contexts x now contexts (t, v, []))"

definition update_context_meta ::
    "text_env \<Rightarrow> nat \<Rightarrow> context_info \<Rightarrow> view \<Rightarrow> (view \<times> invalidation) option" where
  "update_context_meta x now c t = (case tget (vt_ctxs t) (c_id c) of
     None \<Rightarrow> Some (t, inv0)
   | Some ino \<Rightarrow> refresh_meta now ino (x_pretty x (c_raw c)) (t, inv0))"

section \<open>Handing out names\<close>

type_synonym doc_row = "nat \<times> node_content \<times> nat"

definition by_placement :: "document list \<Rightarrow> document list" where
  "by_placement docs = sort_key (\<lambda>d. (\<not> d_linked d, d_id d)) docs"

definition node_content_of :: "text_env \<Rightarrow> string option \<Rightarrow> document \<Rightarrow> content \<Rightarrow> node_content" where
  "node_content_of x ws d c = (case c of
     Inline bytes \<Rightarrow> NInline bytes
   | Remote sz \<Rightarrow> (case ws of
       Some w \<Rightarrow> NRemote w (d_id d) sz (d_checksum d)
     | None \<Rightarrow> NInline (x_pretty x (d_data d))))"

definition free_name :: "string set \<Rightarrow> string \<Rightarrow> nat \<Rightarrow> string" where
  "free_name taken base doc_id = (if base \<in> taken then with_id_suffix base doc_id else base)"

definition sticky_name :: "name_store \<Rightarrow> string \<Rightarrow> string \<Rightarrow> string \<Rightarrow> nat \<Rightarrow> string \<Rightarrow> string option" where
  "sticky_name db ctx ws url doc_id base = (case names_get db ctx ws url doc_id of
     Some n \<Rightarrow> if n = base \<or> n = with_id_suffix base doc_id then Some n else None
   | None \<Rightarrow> None)"

record naming =
  nm_store :: name_store
  nm_taken :: "string set"
  nm_desired :: "(string, doc_row) table"
  nm_grouped :: "(string, (string \<times> node_content \<times> nat) list) table"

definition choose_name ::
    "string \<Rightarrow> string \<Rightarrow> string \<Rightarrow> nat \<Rightarrow> string \<Rightarrow> name_store \<Rightarrow> string set \<Rightarrow> string \<times> name_store" where
  "choose_name ctx ws url doc_id base db taken =
     (case sticky_name db ctx ws url doc_id base of
        Some n \<Rightarrow>
          (if n \<notin> taken then (n, db)
           else let c = free_name taken base doc_id in (c, names_put db ctx ws url doc_id c))
      | None \<Rightarrow> let c = free_name taken base doc_id in (c, names_put db ctx ws url doc_id c))"

definition name_doc ::
    "text_env \<Rightarrow> string \<Rightarrow> string option \<Rightarrow> string \<Rightarrow> document \<Rightarrow> naming \<Rightarrow> naming option" where
  "name_doc x ctx ws url d st = map_option (\<lambda>r.
     let content = node_content_of x ws d (rd_content r);
         (nm, db) = choose_name ctx (or_default [] ws) url (d_id d) (rd_base_name r) (nm_store st) (nm_taken st)
     in \<lparr>nm_store = db, nm_taken = insert nm (nm_taken st),
         nm_desired = tput nm (d_id d, content, d_updated d) (nm_desired st),
         nm_grouped = tput (rd_dir r)
           (or_default [] (tget (nm_grouped st) (rd_dir r)) @ [(nm, content, d_updated d)]) (nm_grouped st)\<rparr>)
     (render x d)"

fun name_docs ::
    "text_env \<Rightarrow> string \<Rightarrow> string option \<Rightarrow> string \<Rightarrow> document list \<Rightarrow> naming \<Rightarrow> naming option" where
  "name_docs x ctx ws url [] st = Some st"
| "name_docs x ctx ws url (d # ds) st =
     Option.bind (name_doc x ctx ws url d st) (name_docs x ctx ws url ds)"

definition naming_start :: "name_store \<Rightarrow> naming" where
  "naming_start db = \<lparr>nm_store = db, nm_taken = {}, nm_desired = [], nm_grouped = []\<rparr>"

section \<open>The files of one context\<close>

definition own_files :: "view \<Rightarrow> nat \<Rightarrow> (string \<times> nat) list" where
  "own_files t dir = filter (\<lambda>(nm, _). nm \<noteq> CONTEXT_META_FILE \<and> nm \<noteq> BY_SCHEMA_DIR) (kids t dir)"

fun settle_docs ::
    "nat \<Rightarrow> nat \<Rightarrow> (string, doc_row) table \<Rightarrow> (string \<times> nat) list \<Rightarrow> view \<times> invalidation \<times> bool
       \<Rightarrow> (view \<times> invalidation \<times> bool) option" where
  "settle_docs now dir desired [] s = Some s"
| "settle_docs now dir desired ((nm, ino) # xs) (t, v, dirty) =
     (case tget desired nm of
        Some (doc_id, content, mtime) \<Rightarrow>
          (if map_option snd (doc_for_ino t ino) = Some doc_id then
             (case tget (vt_nodes t) ino of
                None \<Rightarrow> None
              | Some n \<Rightarrow>
                  if n_content n \<noteq> content
                  then settle_docs now dir desired xs
                    (upd_node ino (\<lambda>n. n\<lparr>n_content := content, n_mtime := mtime\<rparr>) t, changed ino v, dirty)
                  else settle_docs now dir desired xs (t, v, dirty))
           else if vt_defer t then
             settle_docs now dir desired xs (tombstone ino t, vanished (dir, ino, nm) v, True)
           else settle_docs now dir desired xs (remove_doc_node now ino t, removed (dir, ino, nm) v, True))
      | None \<Rightarrow>
          (if vt_defer t then
             settle_docs now dir desired xs (tombstone ino t, vanished (dir, ino, nm) v, True)
           else settle_docs now dir desired xs (remove_doc_node now ino t, removed (dir, ino, nm) v, True)))"

fun add_docs ::
    "nat \<Rightarrow> nat \<Rightarrow> string \<Rightarrow> (string \<times> doc_row) list \<Rightarrow> view \<times> invalidation \<times> bool
       \<Rightarrow> view \<times> invalidation \<times> bool" where
  "add_docs now dir ctx [] s = s"
| "add_docs now dir ctx ((nm, doc_id, content, mtime) # xs) (t, v, dirty) =
     add_docs now dir ctx xs
       (if lookup_node t dir nm \<noteq> None then (t, v, dirty)
        else let (ino, t) = alloc_ino t;
                 t = bind_doc ctx doc_id ino (insert_node now (new_node ino dir nm mtime content) t)
             in (t, added ino v, True))"

definition reconcile_doc_dir ::
    "nat \<Rightarrow> nat \<Rightarrow> string \<Rightarrow> (string, doc_row) table \<Rightarrow> view \<times> invalidation
       \<Rightarrow> (view \<times> invalidation \<times> bool) option" where
  "reconcile_doc_dir now dir ctx desired s = (case s of (t, v) \<Rightarrow>
     map_option (\<lambda>s. let (t, v, dirty) = add_docs now dir ctx desired s
                     in (t, if dirty then dirty_dir dir v else v, dirty))
       (settle_docs now dir desired (own_files t dir) (t, v, False)))"

fun add_grouped_files :: "nat \<Rightarrow> nat \<Rightarrow> (string \<times> node_content \<times> nat) list \<Rightarrow> view \<Rightarrow> view" where
  "add_grouped_files now dir [] t = t"
| "add_grouped_files now dir ((nm, content, mtime) # xs) t =
     add_grouped_files now dir xs
       (let (i, t) = alloc_ino t in insert_node now (new_node i dir nm mtime content) t)"

fun add_groups ::
    "nat \<Rightarrow> nat \<Rightarrow> (string \<times> (string \<times> node_content \<times> nat) list) list \<Rightarrow> view \<Rightarrow> view" where
  "add_groups now root [] t = t"
| "add_groups now root ((d, entries) # gs) t =
     add_groups now root gs
       (if entries = [] then t
        else let (i, t) = add_dir now root d NDir t in add_grouped_files now i entries t)"

definition rebuild_by_schema ::
    "nat \<Rightarrow> nat \<Rightarrow> (string, (string \<times> node_content \<times> nat) list) table \<Rightarrow> view \<times> invalidation
       \<Rightarrow> view \<times> invalidation" where
  "rebuild_by_schema now ctx_ino grouped s = (case lookup_node (fst s) ctx_ino BY_SCHEMA_DIR of
     None \<Rightarrow> s
   | Some n \<Rightarrow>
       let (t, v) = remove_subtree now (n_ino n) s
       in (add_groups now (n_ino n) grouped t, dirty_dir (n_ino n) v))"

text \<open>The signature hashes the folders and the names in them; the hash is a parameter.\<close>

definition group_signature ::
    "((string \<times> string list) list \<Rightarrow> nat) \<Rightarrow> (string, (string \<times> node_content \<times> nat) list) table \<Rightarrow> nat" where
  "group_signature hash grouped = hash (map (\<lambda>(d, es). (d, map fst es)) grouped)"

definition apply_documents ::
    "text_env \<Rightarrow> ((string \<times> string list) list \<Rightarrow> nat) \<Rightarrow> nat \<Rightarrow> string \<Rightarrow> document list \<Rightarrow> name_store \<Rightarrow> view
       \<Rightarrow> (view \<times> invalidation \<times> name_store) option" where
  "apply_documents x hash now ctx docs db t = (case tget (vt_ctxs t) ctx of
     None \<Rightarrow> Some (t, inv0, db)
   | Some ctx_ino \<Rightarrow>
       let ws = tget (vt_ctx_ws t) ctx;
           url = or_default FLAT_NAME_KEY (tget (vt_ctx_urls t) ctx)
       in Option.bind (name_docs x ctx ws url (by_placement docs) (naming_start db)) (\<lambda>st.
          Option.bind (reconcile_doc_dir now ctx_ino ctx (nm_desired st) (t, inv0)) (\<lambda>(t, v, _).
            let sig = group_signature hash (nm_grouped st)
            in if tget (vt_sigs t) ctx \<noteq> Some sig then
                 let (t, v) = rebuild_by_schema now ctx_ino (nm_grouped st)
                       (t\<lparr>vt_sigs := tput ctx sig (vt_sigs t)\<rparr>, v)
                 in Some (t, v, nm_store st)
               else Some (t, v, nm_store st))))"

end
