(* ===== verification/View_Trees.thy ===== *)
theory View_Trees
  imports View_Docs View_Home
begin

text \<open>
  The trees of a workspace in the mounted tree (\<^verbatim>\<open>src/src/state.rs\<close>): the set of trees, the
  directories of each tree's path list, the documents filed at one path, the flat trash, and
  what the write path changes directly. \<open>ws_paths\<close> maps (tree, path) to the directory's
  inode, \<open>ws_files\<close> a file's inode to the document it shows. The code panics outside a
  workspace mount; there the result is None.
\<close>

section \<open>Access\<close>

definition upd_ws :: "(ws_state \<Rightarrow> ws_state) \<Rightarrow> view \<Rightarrow> view" where
  "upd_ws f t = t\<lparr>vt_ws := map_option f (vt_ws t)\<rparr>"

definition ws_tree_meta :: "view \<Rightarrow> string \<Rightarrow> (string \<times> string) option" where
  "ws_tree_meta t nm = Option.bind (vt_ws t) (\<lambda>w. map_option (\<lambda>r. (wt_id r, wt_type r)) (tget (ws_trees w) nm))"

definition ws_path_keys :: "view \<Rightarrow> (string \<times> string) list" where
  "ws_path_keys t = (case vt_ws t of Some w \<Rightarrow> tkeys (ws_paths w) | None \<Rightarrow> [])"

definition prune_ws :: "view \<Rightarrow> view" where
  "prune_ws t = upd_ws (\<lambda>w. w\<lparr>ws_paths := filter (\<lambda>(_, i). tget (vt_nodes t) i \<noteq> None) (ws_paths w),
     ws_files := filter (\<lambda>(i, _). tget (vt_nodes t) i \<noteq> None) (ws_files w)\<rparr>) t"

section \<open>The set of trees\<close>

definition drop_ws_tree :: "nat \<Rightarrow> bool \<Rightarrow> string \<Rightarrow> view \<times> invalidation \<Rightarrow> view \<times> invalidation" where
  "drop_ws_tree now rooted nm s = (case s of (t, v) \<Rightarrow>
     case Option.bind (vt_ws t) (\<lambda>w. tget (ws_trees w) nm) of
       None \<Rightarrow> (t, v)
     | Some r \<Rightarrow>
         let (t, v) = remove_subtree now (wt_root r) (t, v);
             (t, v) = (if wt_root r = ROOT_INO then (t, v)
               else case remove_node now (wt_root r) t of
                 (Some n, t) \<Rightarrow> (t, removed (n_parent n, wt_root r, n_name n) v)
               | (None, t) \<Rightarrow> (t, v));
             t = upd_ws (\<lambda>w. w\<lparr>ws_trees := tdel nm (ws_trees w),
                   ws_paths := filter (\<lambda>((tree, _), _). tree \<noteq> nm) (ws_paths w)\<rparr>) t
         in (t, dirty_dir (if rooted then ROOT_INO else TREES_INO) v))"

definition add_ws_tree :: "nat \<Rightarrow> bool \<Rightarrow> tree_info \<Rightarrow> view \<times> invalidation \<Rightarrow> view \<times> invalidation" where
  "add_ws_tree now rooted r s = (case s of (t, v) \<Rightarrow>
     case Option.bind (vt_ws t) (\<lambda>w. tget (ws_trees w) (ti_name r)) of
       Some old \<Rightarrow>
         (upd_ws (\<lambda>w. w\<lparr>ws_trees := tput (ti_name r)
            \<lparr>wt_id = ti_id r, wt_type = ti_type r, wt_root = wt_root old\<rparr> (ws_trees w)\<rparr>) t, v)
     | None \<Rightarrow>
         let (ino, t) = (if rooted then (ROOT_INO, t) else add_dir now TREES_INO (ti_name r) NDir t);
             t = upd_ws (\<lambda>w. w\<lparr>
               ws_trees := tput (ti_name r) \<lparr>wt_id = ti_id r, wt_type = ti_type r, wt_root = ino\<rparr> (ws_trees w),
               ws_paths := tput (ti_name r, ''/'') ino (ws_paths w)\<rparr>) t
         in (t, dirty_dir ROOT_INO v))"

definition apply_trees :: "nat \<Rightarrow> tree_info list \<Rightarrow> view \<Rightarrow> (view \<times> invalidation) option" where
  "apply_trees now trees t = map_option (\<lambda>w.
     let trees = filter (\<lambda>r. includes_tree (ws_selection w) (ti_name r)) trees;
         rooted = single_tree (ws_selection w);
         stale = filter (\<lambda>nm. nm \<notin> ti_name ` set trees) (tkeys (ws_trees w));
         (t, v) = fold (drop_ws_tree now rooted) stale (t, inv0);
         (t, v) = fold (add_ws_tree now rooted) trees (t, v)
     in (prune_ws t, v)) (vt_ws t)"

section \<open>The directories of a tree\<close>

definition depth :: "string \<Rightarrow> nat" where
  "depth p = length (filter (\<lambda>c. c = slash) p)"

definition wanted_paths_of :: "string list \<Rightarrow> string list" where
  "wanted_paths_of paths =
     remdups_adj (sort_key depth (filter (\<lambda>p. p \<noteq> ''/'') (map norm_path paths)))"

definition known_paths_of :: "ws_state \<Rightarrow> string \<Rightarrow> (string \<times> nat) list" where
  "known_paths_of w tree = sort_key (\<lambda>(p, _). - int (depth p))
     (map (\<lambda>((_, p), i). (p, i)) (filter (\<lambda>((u, p), _). u = tree \<and> p \<noteq> ''/'') (ws_paths w)))"

definition drop_tree_path :: "nat \<Rightarrow> string \<Rightarrow> string set \<Rightarrow> string \<times> nat \<Rightarrow> view \<times> invalidation \<Rightarrow> view \<times> invalidation" where
  "drop_tree_path now tree wanted p s = (case (p, s) of ((p, ino), t, v) \<Rightarrow>
     if p \<in> wanted then (t, v)
     else let (t, v) = remove_subtree now ino (t, v);
              (t, v) = (case remove_node now ino t of
                (Some n, t) \<Rightarrow> (t, removed (n_parent n, ino, n_name n) (dirty_dir (n_parent n) v))
              | (None, t) \<Rightarrow> (t, v))
          in (upd_ws (\<lambda>w. w\<lparr>ws_paths := tdel (tree, p) (ws_paths w)\<rparr>) t, v))"

definition path_ino :: "view \<Rightarrow> string \<Rightarrow> string \<Rightarrow> nat option" where
  "path_ino t tree p = Option.bind (vt_ws t) (\<lambda>w. tget (ws_paths w) (tree, p))"

definition add_tree_path :: "nat \<Rightarrow> string \<Rightarrow> string \<Rightarrow> view \<times> invalidation \<Rightarrow> view \<times> invalidation" where
  "add_tree_path now tree p s = (case s of (t, v) \<Rightarrow>
     if path_ino t tree p \<noteq> None then (t, v)
     else case path_ino t tree (parent_path p) of
       None \<Rightarrow> (t, v)
     | Some parent \<Rightarrow>
         let (ino, t) = add_dir now parent (leaf_name p) NDir t
         in (upd_ws (\<lambda>w. w\<lparr>ws_paths := tput (tree, p) ino (ws_paths w)\<rparr>) t, dirty_dir parent v))"

definition apply_tree_paths :: "nat \<Rightarrow> string \<Rightarrow> string list \<Rightarrow> view \<Rightarrow> (view \<times> invalidation) option" where
  "apply_tree_paths now tree paths t = map_option (\<lambda>w.
     if tget (ws_trees w) tree = None then (t, inv0)
     else let desired = wanted_paths_of paths;
              (t, v) = fold (drop_tree_path now tree (set desired)) (known_paths_of w tree) (t, inv0);
              (t, v) = fold (add_tree_path now tree) desired (t, v)
          in (prune_ws t, v)) (vt_ws t)"

section \<open>The documents at a path\<close>

fun desired_docs ::
    "text_env \<Rightarrow> string \<Rightarrow> document list \<Rightarrow> string set \<Rightarrow> (string, doc_row) table \<Rightarrow> (string, doc_row) table option" where
  "desired_docs x ws [] taken rows = Some rows"
| "desired_docs x ws (d # ds) taken rows =
     Option.bind (doc_name x d) (\<lambda>base.
       let nm = free_name taken base (d_id d)
       in desired_docs x ws ds (insert nm taken)
            (tput nm (d_id d, node_content_of x (Some ws) d (content_of x d), d_updated d) rows))"

definition drop_file :: "nat \<Rightarrow> nat \<Rightarrow> view \<Rightarrow> view" where
  "drop_file now ino t = upd_ws (\<lambda>w. w\<lparr>ws_files := tdel ino (ws_files w)\<rparr>) (snd (remove_node now ino t))"

definition shown_doc :: "view \<Rightarrow> nat \<Rightarrow> nat option" where
  "shown_doc t ino = Option.bind (vt_ws t) (\<lambda>w. map_option wf_doc (tget (ws_files w) ino))"

fun settle_files ::
    "nat \<Rightarrow> nat \<Rightarrow> (string, doc_row) table \<Rightarrow> (string \<times> nat) list \<Rightarrow> view \<times> invalidation \<times> bool
       \<Rightarrow> (view \<times> invalidation \<times> bool) option" where
  "settle_files now dir desired [] s = Some s"
| "settle_files now dir desired ((nm, ino) # xs) (t, v, dirty) =
     (case (case tget desired nm of
          Some (doc_id, content, mtime) \<Rightarrow>
            if shown_doc t ino = Some doc_id then Some (content, mtime) else None
        | None \<Rightarrow> None) of
        Some (content, mtime) \<Rightarrow>
          (case tget (vt_nodes t) ino of
             None \<Rightarrow> None
           | Some n \<Rightarrow>
               if n_content n \<noteq> content
               then settle_files now dir desired xs
                 (upd_node ino (\<lambda>n. n\<lparr>n_content := content, n_mtime := mtime\<rparr>) t, changed ino v, dirty)
               else settle_files now dir desired xs (t, v, dirty))
      | None \<Rightarrow> settle_files now dir desired xs (drop_file now ino t, removed (dir, ino, nm) v, True))"

fun add_files ::
    "nat \<Rightarrow> nat \<Rightarrow> string \<Rightarrow> string \<Rightarrow> (string \<times> doc_row) list \<Rightarrow> view \<times> invalidation \<times> bool
       \<Rightarrow> view \<times> invalidation \<times> bool" where
  "add_files now dir tree path [] s = s"
| "add_files now dir tree path ((nm, doc_id, content, mtime) # xs) (t, v, dirty) =
     add_files now dir tree path xs
       (if lookup_node t dir nm \<noteq> None then (t, v, dirty)
        else let (ino, t) = alloc_ino t;
                 t = upd_ws (\<lambda>w. w\<lparr>ws_files := tput ino \<lparr>wf_tree = tree, wf_path = path, wf_doc = doc_id\<rparr> (ws_files w)\<rparr>)
                       (insert_node now (new_node ino dir nm mtime content) t)
             in (t, added ino v, True))"

definition touch_node :: "nat \<Rightarrow> nat \<Rightarrow> view \<Rightarrow> view" where
  "touch_node now ino = upd_node ino (\<lambda>n. n\<lparr>n_mtime := now\<rparr>)"

definition doc_files :: "view \<Rightarrow> ws_state \<Rightarrow> nat \<Rightarrow> (string \<times> nat) list" where
  "doc_files t w dir = filter (\<lambda>(_, i). tget (ws_files w) i \<noteq> None) (kids t dir)"

definition apply_tree_documents ::
    "text_env \<Rightarrow> nat \<Rightarrow> string \<Rightarrow> string \<Rightarrow> document list \<Rightarrow> view \<Rightarrow> (view \<times> invalidation) option" where
  "apply_tree_documents x now tree path docs t = Option.bind (vt_ws t) (\<lambda>w.
     case tget (ws_paths w) (tree, norm_path path) of
       None \<Rightarrow> Some (t, inv0)
     | Some dir \<Rightarrow>
         Option.bind (desired_docs x (ws_id w) (by_placement docs) {} []) (\<lambda>desired.
         map_option (\<lambda>s.
           let (t, v, dirty) = add_files now dir tree (norm_path path) desired s
           in if dirty then (touch_node now dir t, dirty_dir dir v) else (t, v))
           (settle_files now dir desired (doc_files t w dir) (t, inv0, False))))"

fun drop_trash :: "nat \<Rightarrow> (string, doc_row) table \<Rightarrow> (string \<times> nat) list \<Rightarrow> view \<times> invalidation \<times> bool
       \<Rightarrow> view \<times> invalidation \<times> bool" where
  "drop_trash now desired [] s = s"
| "drop_trash now desired ((nm, ino) # xs) (t, v, dirty) =
     drop_trash now desired xs
       (if tget desired nm = None
        then (drop_file now ino t, removed (TRASH_INO, ino, nm) v, True) else (t, v, dirty))"

definition apply_trash_documents ::
    "text_env \<Rightarrow> nat \<Rightarrow> document list \<Rightarrow> view \<Rightarrow> (view \<times> invalidation) option" where
  "apply_trash_documents x now docs t = (case vt_ws t of
     None \<Rightarrow> Some (t, inv0)
   | Some w \<Rightarrow>
       map_option (\<lambda>desired.
         let s = drop_trash now desired (kids t TRASH_INO) (t, inv0, False);
             (t, v, dirty) = add_files now TRASH_INO TRASH_TREE_NAME TRASH_PATH desired s
         in (t, if dirty then dirty_dir TRASH_INO v else v))
         (desired_docs x (ws_id w) (by_placement docs) {} []))"

section \<open>Where an inode belongs\<close>

definition locate_tree_dir :: "view \<Rightarrow> nat \<Rightarrow> (string \<times> string \<times> string \<times> string) option" where
  "locate_tree_dir t ino = Option.bind (vt_ws t) (\<lambda>w.
     Option.bind (find (\<lambda>(_, i). i = ino) (ws_paths w)) (\<lambda>((tree, p), _).
       map_option (\<lambda>r. (tree, wt_id r, wt_type r, p)) (tget (ws_trees w) tree)))"

definition tree_file :: "view \<Rightarrow> nat \<Rightarrow> (string \<times> string \<times> string \<times> string \<times> nat) option" where
  "tree_file t ino = Option.bind (vt_ws t) (\<lambda>w.
     Option.bind (tget (ws_files w) ino) (\<lambda>f.
       map_option (\<lambda>r. (wf_tree f, wt_id r, wt_type r, wf_path f, wf_doc f)) (tget (ws_trees w) (wf_tree f))))"

definition ws_ino_for_doc :: "view \<Rightarrow> string \<Rightarrow> string \<Rightarrow> nat \<Rightarrow> nat option" where
  "ws_ino_for_doc t tree p doc_id = Option.bind (vt_ws t) (\<lambda>w.
     map_option fst (find (\<lambda>(_, f). wf_tree f = tree \<and> wf_path f = norm_path p \<and> wf_doc f = doc_id) (ws_files w)))"

section \<open>What the write path changes\<close>

definition adopt_tree_dir :: "nat \<Rightarrow> nat \<Rightarrow> string \<Rightarrow> string \<Rightarrow> string \<Rightarrow> view \<Rightarrow> nat \<times> view" where
  "adopt_tree_dir now parent nm tree path t =
     (let (ino, t) = add_dir now parent nm NDir t
      in (ino, upd_ws (\<lambda>w. w\<lparr>ws_paths := tput (tree, norm_path path) ino (ws_paths w)\<rparr>) t))"

definition remove_tree_dir :: "nat \<Rightarrow> nat \<Rightarrow> view \<Rightarrow> view \<times> invalidation" where
  "remove_tree_dir now ino t =
     (let (t, v) = remove_subtree now ino (t, inv0);
          (t, v) = (case remove_node now ino t of
            (Some n, t) \<Rightarrow> (t, dirty_dir (n_parent n) (removed (n_parent n, ino, n_name n) v))
          | (None, t) \<Rightarrow> (t, v))
      in (prune_ws t, v))"

definition adopt_tree_file ::
    "nat \<Rightarrow> nat \<Rightarrow> string \<Rightarrow> string \<Rightarrow> string \<Rightarrow> nat \<Rightarrow> nat \<Rightarrow> string \<Rightarrow> view \<Rightarrow> view" where
  "adopt_tree_file now dir nm tree path doc_id ino bytes t =
     upd_ws (\<lambda>w. w\<lparr>ws_files := tput ino \<lparr>wf_tree = tree, wf_path = norm_path path, wf_doc = doc_id\<rparr> (ws_files w)\<rparr>)
       (insert_node now (new_node ino dir nm now (NInline bytes)) t)"

definition remove_tree_file :: "nat \<Rightarrow> nat \<Rightarrow> view \<Rightarrow> view" where
  "remove_tree_file now ino t = drop_file now ino t"

text \<open>Re-indexing walks the tree from its root; every directory is popped once.\<close>

definition child_path :: "string \<Rightarrow> string \<Rightarrow> string" where
  "child_path path nm = (if path = ''/'' then ''/'' @ nm else path @ ''/'' @ nm)"

fun index_walk ::
    "nat \<Rightarrow> view \<Rightarrow> ws_state \<Rightarrow> (nat \<times> string) list \<Rightarrow> (string \<times> nat) list \<Rightarrow> (nat \<times> string) list
       \<Rightarrow> (string \<times> nat) list \<times> (nat \<times> string) list" where
  "index_walk 0 t w stack dirs files = (dirs, files)"
| "index_walk (Suc k) t w [] dirs files = (dirs, files)"
| "index_walk (Suc k) t w ((ino, path) # stack) dirs files =
     (let cs = kids t ino;
          fs = filter (\<lambda>(_, i). tget (ws_files w) i \<noteq> None) cs;
          ds = filter (\<lambda>(_, i). tget (ws_files w) i = None
                 \<and> (case tget (vt_nodes t) i of Some n \<Rightarrow> is_dir n | None \<Rightarrow> False)) cs
      in index_walk k t w (rev (map (\<lambda>(nm, i). (i, child_path path nm)) ds) @ stack)
           (dirs @ map (\<lambda>(nm, i). (child_path path nm, i)) ds)
           (files @ map (\<lambda>(_, i). (i, path)) fs))"

definition reindex_tree_paths :: "string \<Rightarrow> view \<Rightarrow> view" where
  "reindex_tree_paths tree t = (case Option.bind (vt_ws t) (\<lambda>w. map_option (Pair w) (tget (ws_trees w) tree)) of
     None \<Rightarrow> t
   | Some (w, r) \<Rightarrow>
       let (dirs, files) = index_walk (Suc (length (vt_nodes t))) t w [(wt_root r, ''/'')] [(''/'', wt_root r)] []
       in upd_ws (\<lambda>w. w\<lparr>
            ws_paths := fold (\<lambda>(p, i). tput (tree, p) i) dirs (filter (\<lambda>((u, _), _). u \<noteq> tree) (ws_paths w)),
            ws_files := fold (\<lambda>(i, p) fs. case tget fs i of
                Some f \<Rightarrow> tput i (f\<lparr>wf_path := p\<rparr>) fs | None \<Rightarrow> fs) files (ws_files w)\<rparr>) t)"

definition move_tree_file :: "nat \<Rightarrow> nat \<Rightarrow> string \<Rightarrow> string \<Rightarrow> string \<Rightarrow> view \<Rightarrow> view" where
  "move_tree_file ino new_parent nm src dst t =
     (let t = move_entry ino new_parent nm t;
          t = upd_ws (\<lambda>w. w\<lparr>ws_files := (case tget (ws_files w) ino of
                Some f \<Rightarrow> tput ino (f\<lparr>wf_tree := dst\<rparr>) (ws_files w) | None \<Rightarrow> ws_files w)\<rparr>) t;
          t = reindex_tree_paths dst t
      in if src \<noteq> dst then reindex_tree_paths src t else t)"

definition move_tree_path_node :: "nat \<Rightarrow> nat \<Rightarrow> string \<Rightarrow> string \<Rightarrow> view \<Rightarrow> view" where
  "move_tree_path_node ino new_parent nm tree t = reindex_tree_paths tree (move_entry ino new_parent nm t)"

definition rebind_tree_file :: "nat \<Rightarrow> nat \<Rightarrow> view \<Rightarrow> view" where
  "rebind_tree_file ino doc_id = upd_ws (\<lambda>w. w\<lparr>ws_files := (case tget (ws_files w) ino of
     Some f \<Rightarrow> tput ino (f\<lparr>wf_doc := doc_id\<rparr>) (ws_files w) | None \<Rightarrow> ws_files w)\<rparr>)"

definition rename_tree_path :: "nat \<Rightarrow> string \<Rightarrow> string \<Rightarrow> view \<Rightarrow> view" where
  "rename_tree_path ino nm tree t = reindex_tree_paths tree (rename_entry ino nm t)"

end
