(* ===== verification/Writes.thy ===== *)
theory Writes
  imports Write_Docs View_Trees Sync_Local
begin

text \<open>
  The write path of the mount (\<^verbatim>\<open>src/src/writes.rs\<close>, \<^verbatim>\<open>struct WriteStore\<close>): open files, their
  buffers and where each one is flushed to. A file of a live view has a buffer that a flush
  sends to the server; a file of a mirrored Home has a handle on the backing file and is
  committed to the mirror. A created file is an overlay entry until its first flush makes it a
  node of the tree.

  The state joins the mounted tree, the sticky names, the mirror (mirror mode) and the server
  behind the REST client. A handle on a backing file is its inode number; the bytes of a file
  that was unlinked while open are kept in \<open>w_orphans\<close>. Every operation is one step: the locks
  of the code serialise the operations that touch the same things. I/O errors on an open
  handle are left out; a panic inside \<^verbatim>\<open>serde_json\<close> is the error \<open>WPanic\<close>.
\<close>

section \<open>State\<close>

datatype flush_target =
    FExisting string nat
  | FCreate string string nat string
  | FWsExisting string string string string nat
  | FHomeFile string nat string
  | FWsCreate string string string string nat string

record open_write =
  ow_buffer :: string
  ow_disk :: "nat option"
  ow_unlinked :: bool
  ow_dirty :: bool
  ow_refs :: nat
  ow_target :: flush_target

record overlay_entry =
  ov_ino :: nat
  ov_dir :: nat
  ov_name :: string
  ov_size :: nat
  ov_mtime :: nat

datatype write_error =
    WNotPermitted
  | WNotFound
  | WExists
  | WNotEmpty
  | WCrossDir
  | WIo string
  | WPanic

record ('h, 'n) wstore =
  w_tree :: view
  w_names :: name_store
  w_mirror :: "'h mirror option"
  w_net :: 'n
  w_states :: "(nat, open_write) table"
  w_overlay :: "(nat, nat \<times> string \<times> nat) table"
  w_overlay_names :: "(nat \<times> string, nat) table"
  w_next :: nat
  w_orphans :: "(nat, string) table"

record ('h, 'n) wenv =
  we_api :: api_client
  we_net :: "'n net"
  we_text :: text_env
  we_parse :: "string \<Rightarrow> json option"
  we_mirror :: "'h env"
  we_operation_id :: string
  we_now :: nat

definition FLAT_DIR :: string where "FLAT_DIR = []"

fun errno :: "write_error \<Rightarrow> string" where
  "errno WNotPermitted = ''EACCES''"
| "errno WNotFound = ''ENOENT''"
| "errno WExists = ''EEXIST''"
| "errno WNotEmpty = ''ENOTEMPTY''"
| "errno WCrossDir = ''EXDEV''"
| "errno (WIo _) = ''EIO''"
| "errno WPanic = ''(the thread ends)''"

definition wstore_new :: "view \<Rightarrow> name_store \<Rightarrow> 'h mirror option \<Rightarrow> 'n \<Rightarrow> ('h, 'n) wstore" where
  "wstore_new t db m n = \<lparr>w_tree = t, w_names = db, w_mirror = m, w_net = n, w_states = [],
     w_overlay = [], w_overlay_names = [], w_next = FIRST_OVERLAY_INO, w_orphans = []\<rparr>"

section \<open>Bytes\<close>

definition resize_to :: "nat \<Rightarrow> string \<Rightarrow> string" where
  "resize_to n b = take n b @ replicate (n - length b) (char_of (0::nat))"

definition write_at :: "nat \<Rightarrow> string \<Rightarrow> string \<Rightarrow> string" where
  "write_at offset new b =
     (let stop = offset + length new; b = (if length b < stop then resize_to stop b else b)
      in take offset b @ new @ drop stop b)"

definition read_at :: "nat \<Rightarrow> nat \<Rightarrow> string \<Rightarrow> string" where
  "read_at offset n b =
     (let start = min offset (length b); stop = min (start + n) (length b)
      in take (stop - start) (drop start b))"

text \<open>The file behind a handle: in the folder or its trash, or an orphan.\<close>

definition file_with :: "nat \<Rightarrow> (string, node) table \<Rightarrow> string option" where
  "file_with j ns = find_map (\<lambda>(_, n). case n of File b fm \<Rightarrow> if m_ino fm = j then Some b else None | _ \<Rightarrow> None) ns"

definition linked_bytes :: "'h mirror option \<Rightarrow> nat \<Rightarrow> string option" where
  "linked_bytes m j = Option.bind m (\<lambda>m. case file_with j (f_nodes (m_fs m)) of
     Some b \<Rightarrow> Some b | None \<Rightarrow> file_with j (f_trash (m_fs m)))"

definition disk_bytes :: "('h, 'n) wstore \<Rightarrow> nat \<Rightarrow> string" where
  "disk_bytes w j = (case linked_bytes (w_mirror w) j of
     Some b \<Rightarrow> b | None \<Rightarrow> or_default [] (tget (w_orphans w) j))"

definition map_file :: "nat \<Rightarrow> (string \<Rightarrow> string) \<Rightarrow> folder \<Rightarrow> (string, node) table \<Rightarrow> (string, node) table" where
  "map_file j f d = map (\<lambda>(k, n). (k, case n of
     File b fm \<Rightarrow> if m_ino fm = j
       then File (f b) (fm\<lparr>m_mtime := fst (f_clock d), m_mtime_nsec := snd (f_clock d),
                           m_ctime := fst (f_clock d), m_ctime_nsec := snd (f_clock d)\<rparr>)
       else n
   | _ \<Rightarrow> n))"

definition disk_update :: "nat \<Rightarrow> (string \<Rightarrow> string) \<Rightarrow> ('h, 'n) wstore \<Rightarrow> ('h, 'n) wstore" where
  "disk_update j f w = w\<lparr>
     w_mirror := map_option (\<lambda>m. m\<lparr>m_fs := (m_fs m)\<lparr>
       f_nodes := map_file j f (m_fs m) (f_nodes (m_fs m)),
       f_trash := map_file j f (m_fs m) (f_trash (m_fs m))\<rparr>\<rparr>) (w_mirror w),
     w_orphans := (case tget (w_orphans w) j of
       Some b \<Rightarrow> tput j (f b) (w_orphans w) | None \<Rightarrow> w_orphans w)\<rparr>"

definition keep_orphans :: "'h mirror option \<Rightarrow> ('h, 'n) wstore \<Rightarrow> ('h, 'n) wstore" where
  "keep_orphans old w = w\<lparr>w_orphans := fold (\<lambda>(_, s) os. case ow_disk s of
      None \<Rightarrow> os
    | Some j \<Rightarrow> (case (linked_bytes old j, linked_bytes (w_mirror w) j) of
        (Some b, None) \<Rightarrow> tput j b os | _ \<Rightarrow> os)) (w_states w) (w_orphans w)\<rparr>"

definition ow_size :: "('h, 'n) wstore \<Rightarrow> open_write \<Rightarrow> nat" where
  "ow_size w s = (case ow_disk s of Some j \<Rightarrow> length (disk_bytes w j) | None \<Rightarrow> length (ow_buffer s))"

section \<open>Steps\<close>

definition wthen :: "('e + 'a) \<times> 's \<Rightarrow> ('a \<Rightarrow> 's \<Rightarrow> ('e + 'b) \<times> 's) \<Rightarrow> ('e + 'b) \<times> 's" where
  "wthen r f = (case r of (Inl e, w) \<Rightarrow> (Inl e, w) | (Inr x, w) \<Rightarrow> f x w)"

definition wopt :: "'e \<Rightarrow> 'a option \<Rightarrow> 's \<Rightarrow> ('e + 'a) \<times> 's" where
  "wopt e x w = (case x of None \<Rightarrow> Inl e | Some y \<Rightarrow> Inr y, w)"

definition api_io :: "('n \<Rightarrow> (string + 'a) \<times> 'n) \<Rightarrow> ('h, 'n) wstore \<Rightarrow> (write_error + 'a) \<times> ('h, 'n) wstore" where
  "api_io f w = (case f (w_net w) of (r, n) \<Rightarrow> (map_sum WIo id r, w\<lparr>w_net := n\<rparr>))"

fun io_text :: "op_error \<Rightarrow> string" where
  "io_text (Bail s) = s"
| "io_text (IoFailed _) = ''i/o error''"

definition mirror_io ::
    "('h mirror \<Rightarrow> (op_error + 'a) \<times> 'h mirror) \<Rightarrow> 'h mirror \<Rightarrow> ('h, 'n) wstore
       \<Rightarrow> (write_error + 'a) \<times> ('h, 'n) wstore" where
  "mirror_io f m w = (case f m of (r, m') \<Rightarrow>
     (map_sum (\<lambda>e. WIo (io_text e)) id r, keep_orphans (w_mirror w) (w\<lparr>w_mirror := Some m'\<rparr>)))"

definition upd_mirror :: "('h mirror \<Rightarrow> 'h mirror) \<Rightarrow> ('h, 'n) wstore \<Rightarrow> ('h, 'n) wstore" where
  "upd_mirror f w = w\<lparr>w_mirror := map_option f (w_mirror w)\<rparr>"

definition upd_tree :: "(view \<Rightarrow> view) \<Rightarrow> ('h, 'n) wstore \<Rightarrow> ('h, 'n) wstore" where
  "upd_tree f w = w\<lparr>w_tree := f (w_tree w)\<rparr>"

definition upd_state :: "nat \<Rightarrow> (open_write \<Rightarrow> open_write) \<Rightarrow> ('h, 'n) wstore \<Rightarrow> ('h, 'n) wstore" where
  "upd_state ino f w = (case tget (w_states w) ino of
     Some s \<Rightarrow> w\<lparr>w_states := tput ino (f s) (w_states w)\<rparr> | None \<Rightarrow> w)"

definition drop_state :: "nat \<Rightarrow> ('h, 'n) wstore \<Rightarrow> ('h, 'n) wstore" where
  "drop_state ino w = w\<lparr>w_states := tdel ino (w_states w)\<rparr>"

definition has_state :: "('h, 'n) wstore \<Rightarrow> nat \<Rightarrow> bool" where
  "has_state w ino \<longleftrightarrow> tget (w_states w) ino \<noteq> None"

definition the_ws :: "('h, 'n) wstore \<Rightarrow> string option" where
  "the_ws w = map_option ws_id (vt_ws (w_tree w))"

definition writable_context :: "('h, 'n) wstore \<Rightarrow> nat \<Rightarrow> string option" where
  "writable_context w dir = locate_context_dir (w_tree w) dir"

section \<open>What lookups see of open files\<close>

definition overlay_row :: "('h, 'n) wstore \<Rightarrow> nat \<Rightarrow> overlay_entry option" where
  "overlay_row w ino = map_option (\<lambda>(dir, nm, mtime). \<lparr>ov_ino = ino, ov_dir = dir, ov_name = nm,
     ov_size = (case tget (w_states w) ino of Some s \<Rightarrow> ow_size w s | None \<Rightarrow> 0), ov_mtime = mtime\<rparr>)
     (tget (w_overlay w) ino)"

definition lookup_overlay :: "('h, 'n) wstore \<Rightarrow> nat \<Rightarrow> string \<Rightarrow> overlay_entry option" where
  "lookup_overlay w dir nm = Option.bind (tget (w_overlay_names w) (dir, nm)) (\<lambda>ino.
     map_option (\<lambda>o'. o'\<lparr>ov_dir := dir, ov_name := nm\<rparr>) (overlay_row w ino))"

definition overlay_attr :: "('h, 'n) wstore \<Rightarrow> nat \<Rightarrow> overlay_entry option" where
  "overlay_attr w ino = overlay_row w ino"

definition overlay_entries :: "('h, 'n) wstore \<Rightarrow> nat \<Rightarrow> (nat \<times> string) list" where
  "overlay_entries w dir = map (\<lambda>(i, _, nm, _). (i, nm)) (filter (\<lambda>(_, d, _, _). d = dir) (w_overlay w))"

definition size_override :: "('h, 'n) wstore \<Rightarrow> nat \<Rightarrow> nat option" where
  "size_override w ino = map_option (ow_size w) (tget (w_states w) ino)"

definition read_buffer :: "('h, 'n) wstore \<Rightarrow> nat \<Rightarrow> int \<Rightarrow> nat \<Rightarrow> string option" where
  "read_buffer w ino offset n = map_option (\<lambda>s.
     read_at (nat (max offset 0)) n (case ow_disk s of Some j \<Rightarrow> disk_bytes w j | None \<Rightarrow> ow_buffer s))
     (tget (w_states w) ino)"

section \<open>Open, create, write, truncate\<close>

definition resize_state :: "nat \<Rightarrow> nat \<Rightarrow> ('h, 'n) wstore \<Rightarrow> ('h, 'n) wstore" where
  "resize_state ino n w = (case tget (w_states w) ino of
     None \<Rightarrow> w
   | Some s \<Rightarrow>
       (case ow_disk s of
          Some j \<Rightarrow> upd_state ino (\<lambda>s. s\<lparr>ow_dirty := True\<rparr>) (disk_update j (resize_to n) w)
        | None \<Rightarrow> upd_state ino (\<lambda>s. s\<lparr>ow_buffer := resize_to n (ow_buffer s), ow_dirty := True\<rparr>) w))"

definition home_target :: "('h, 'n) wstore \<Rightarrow> nat \<Rightarrow> flush_target option" where
  "home_target w ino = Option.bind (home_file (w_tree w) ino) (\<lambda>(path, _).
     map_option (\<lambda>n. FHomeFile path (n_parent n) (n_name n)) (tget (vt_nodes (w_tree w)) ino))"

definition new_state :: "string \<Rightarrow> nat option \<Rightarrow> bool \<Rightarrow> nat \<Rightarrow> flush_target \<Rightarrow> open_write" where
  "new_state buffer disk dirty refs target = \<lparr>ow_buffer = buffer, ow_disk = disk, ow_unlinked = False,
     ow_dirty = dirty, ow_refs = refs, ow_target = target\<rparr>"

definition backing_ino :: "'h mirror option \<Rightarrow> string \<Rightarrow> nat option" where
  "backing_ino m key = Option.bind m (\<lambda>m. case tget (f_nodes (m_fs m)) key of
     Some (File _ fm) \<Rightarrow> Some (m_ino fm) | _ \<Rightarrow> None)"

definition open_home ::
    "('h, 'n) wenv \<Rightarrow> nat \<Rightarrow> bool \<Rightarrow> flush_target \<Rightarrow> ('h, 'n) wstore \<Rightarrow> (write_error + unit) \<times> ('h, 'n) wstore" where
  "open_home e ino trunc target w =
     wthen (wopt WNotFound (home_file (w_tree w) ino) w) (\<lambda>(path, sz) w.
     case w_mirror w of
       Some m \<Rightarrow>
         wthen (mirror_io (open_local_write (home_key path) False trunc) m w) (\<lambda>_ w.
           (Inr (), w\<lparr>w_states := tput ino
              (new_state [] (backing_ino (w_mirror w) (home_key path)) trunc 1 target) (w_states w)\<rparr>))
     | None \<Rightarrow>
         wthen (if trunc \<or> sz = 0 then (Inr [], w)
                else wthen (wopt WNotPermitted (the_ws w) w) (\<lambda>ws.
                  api_io (read_home_range (we_api e) (we_net e) ws path 0 (sz - 1))))
           (\<lambda>content w. (Inr (), w\<lparr>w_states := tput ino (new_state content None trunc 1 target) (w_states w)\<rparr>)))"

definition doc_target :: "('h, 'n) wstore \<Rightarrow> nat \<Rightarrow> flush_target option" where
  "doc_target w ino =
     (if is_workspace (w_tree w)
      then map_option (\<lambda>(tree, i, ty, path, d). FWsExisting tree i ty path d) (tree_file (w_tree w) ino)
      else let parent = (case tget (vt_nodes (w_tree w)) ino of Some n \<Rightarrow> n_parent n | None \<Rightarrow> 0)
           in Option.bind (writable_context w parent) (\<lambda>ctx.
                map_option (\<lambda>(_, d). FExisting ctx d) (doc_for_ino (w_tree w) ino)))"

definition open_existing :: "('h, 'n) wenv \<Rightarrow> nat \<Rightarrow> bool \<Rightarrow> ('h, 'n) wstore \<Rightarrow> (write_error + unit) \<times> ('h, 'n) wstore" where
  "open_existing e ino trunc w =
     (if has_state w ino then
        (Inr (), upd_state ino (\<lambda>s. s\<lparr>ow_refs := ow_refs s + 1\<rparr>) (if trunc then resize_state ino 0 w else w))
      else case home_target w ino of
        Some target \<Rightarrow> open_home e ino trunc target w
      | None \<Rightarrow>
        (case tget (vt_nodes (w_tree w)) ino of
           None \<Rightarrow> (Inl WNotFound, w)
         | Some n \<Rightarrow>
           (case n_content n of
              NInline bytes \<Rightarrow>
                wthen (wopt WNotPermitted (doc_target w ino) w) (\<lambda>target w.
                  (Inr (), let w = w\<lparr>w_states := tput ino (new_state bytes None False 1 target) (w_states w)\<rparr>
                           in if trunc then resize_state ino 0 w else w))
            | _ \<Rightarrow> (Inl WNotPermitted, w))))"

definition open_overlay :: "nat \<Rightarrow> bool \<Rightarrow> ('h, 'n) wstore \<Rightarrow> (write_error + unit) \<times> ('h, 'n) wstore" where
  "open_overlay ino trunc w =
     (if \<not> has_state w ino then (Inl WNotFound, w)
      else let w = upd_state ino (\<lambda>s. s\<lparr>ow_refs := ow_refs s + 1\<rparr>) w
           in (Inr (), if trunc then resize_state ino 0 w else w))"

definition create_target :: "('h, 'n) wstore \<Rightarrow> nat \<Rightarrow> string \<Rightarrow> flush_target option" where
  "create_target w dir nm = (case home_path (w_tree w) dir of
     Some (p, _) \<Rightarrow> Some (FHomeFile (join_home_path p nm) dir nm)
   | None \<Rightarrow>
       if is_workspace (w_tree w)
       then map_option (\<lambda>(tree, i, ty, path). FWsCreate tree i ty path dir nm) (locate_tree_dir (w_tree w) dir)
       else map_option (\<lambda>ctx. FCreate ctx FLAT_DIR dir nm) (writable_context w dir))"

definition create :: "('h, 'n) wenv \<Rightarrow> nat \<Rightarrow> string \<Rightarrow> ('h, 'n) wstore \<Rightarrow> (write_error + overlay_entry) \<times> ('h, 'n) wstore" where
  "create e dir nm w =
     wthen (wopt WNotPermitted (create_target w dir nm) w) (\<lambda>target w.
     if lookup_node (w_tree w) dir nm \<noteq> None then (Inl WExists, w)
     else if tget (w_overlay_names w) (dir, nm) \<noteq> None then (Inl WExists, w)
     else let ino = w_next w
       in wthen (case (w_mirror w, target) of
             (Some m, FHomeFile path _ _) \<Rightarrow>
               wthen (mirror_io (open_local_write (home_key path) True False) m w)
                 (\<lambda>_ w. (Inr (backing_ino (w_mirror w) (home_key path)), w))
           | _ \<Rightarrow> (Inr None, w))
         (\<lambda>disk w. (Inr \<lparr>ov_ino = ino, ov_dir = dir, ov_name = nm, ov_size = 0, ov_mtime = we_now e\<rparr>,
            w\<lparr>w_next := ino + 1, w_overlay := tput ino (dir, nm, we_now e) (w_overlay w),
              w_overlay_names := tput (dir, nm) ino (w_overlay_names w),
              w_states := tput ino (new_state [] disk True 1 target) (w_states w)\<rparr>)))"

definition write_bytes :: "nat \<Rightarrow> int \<Rightarrow> string \<Rightarrow> ('h, 'n) wstore \<Rightarrow> (write_error + nat) \<times> ('h, 'n) wstore" where
  "write_bytes ino offset new w = (case tget (w_states w) ino of
     None \<Rightarrow> (Inl WNotPermitted, w)
   | Some s \<Rightarrow>
       let off = nat (max offset 0)
       in (Inr (length new),
           case ow_disk s of
             Some j \<Rightarrow> upd_state ino (\<lambda>s. s\<lparr>ow_dirty := True\<rparr>)
               (if new = [] then w else disk_update j (write_at off new) w)
           | None \<Rightarrow> upd_state ino (\<lambda>s. s\<lparr>ow_buffer := write_at off new (ow_buffer s), ow_dirty := True\<rparr>) w))"

end
