(* ===== verification/Writes_Flush.thy ===== *)
theory Writes_Flush
  imports Writes
begin

text \<open>
  Flushing, closing and removing files in the write path (\<^verbatim>\<open>src/src/writes.rs\<close>):
  \<open>flush_inner\<close> with one branch per target, \<open>flush_local\<close> for handles on backing files,
  \<open>release\<close>, \<open>truncate\<close>, \<open>unlink\<close>, \<open>mkdir\<close> and \<open>rmdir\<close>.
\<close>

section \<open>Sending a buffer to the server\<close>

definition set_inline_if :: "('h, 'n) wenv \<Rightarrow> nat option \<Rightarrow> string \<Rightarrow> ('h, 'n) wstore \<Rightarrow> ('h, 'n) wstore" where
  "set_inline_if e ino buffer w = (case ino of
     Some i \<Rightarrow> upd_tree (set_inline_content (we_now e) i buffer) w | None \<Rightarrow> w)"

definition flush_update ::
    "('h, 'n) wenv \<Rightarrow> string \<Rightarrow> nat \<Rightarrow> string \<Rightarrow> ('h, 'n) wstore \<Rightarrow> (write_error + unit) \<times> ('h, 'n) wstore" where
  "flush_update e ctx i buffer w =
     wthen (api_io (get_document (we_api e) (we_net e) ctx i) w) (\<lambda>existing w.
     wthen (wopt WPanic (apply_buffer_to_data (we_parse e) (schema_of existing) (data_of existing) buffer) w) (\<lambda>d w.
     wthen (api_io (update_documents (we_api e) (we_net e) ctx [doc_update i (schema_of existing) d]) w) (\<lambda>_ w.
       (Inr (), set_inline_if e (ino_for_doc (w_tree w) ctx i) buffer w))))"

definition first_id :: "nat list \<Rightarrow> ('h, 'n) wstore \<Rightarrow> (write_error + nat) \<times> ('h, 'n) wstore" where
  "first_id ids w = (case ids of i # _ \<Rightarrow> (Inr i, w) | [] \<Rightarrow> (Inl (WIo ''create returned no document id''), w))"

definition new_file_document ::
    "('h, 'n) wenv \<Rightarrow> ('n \<Rightarrow> (string + blob_ref) \<times> 'n) \<Rightarrow> string \<Rightarrow> string \<Rightarrow> ('h, 'n) wstore
       \<Rightarrow> (write_error + json) \<times> ('h, 'n) wstore" where
  "new_file_document e upload nm buffer w = (case build_ws_document (we_text e) (we_parse e) nm buffer of
     Some doc \<Rightarrow> (Inr doc, w)
   | None \<Rightarrow> wthen (api_io upload w) (\<lambda>blob w. (Inr (build_file_document nm blob), w)))"

definition flush_create ::
    "('h, 'n) wenv \<Rightarrow> string \<Rightarrow> string \<Rightarrow> nat \<Rightarrow> string \<Rightarrow> string \<Rightarrow> nat \<Rightarrow> ('h, 'n) wstore
       \<Rightarrow> (write_error + nat) \<times> ('h, 'n) wstore" where
  "flush_create e ctx d dir nm buffer ino w =
     wthen (new_file_document e (upload_context_blob (we_api e) (we_net e) ctx buffer) nm buffer w) (\<lambda>doc w.
     wthen (api_io (create_documents (we_api e) (we_net e) ctx [doc]) w) (\<lambda>ids w.
     wthen (first_id ids w) (\<lambda>i w.
       let ws = or_default [] (tget (vt_ctx_ws (w_tree w)) ctx);
           w = w\<lparr>w_names := names_put (w_names w) ctx ws d i nm\<rparr>
       in (Inr i, upd_tree (adopt_document (we_now e) dir nm ctx i ino buffer) w))))"

definition existing_filename :: "json \<Rightarrow> string" where
  "existing_filename existing = or_default ''file''
     (Option.bind (Option.bind (Option.bind (jget ''locations'' existing) as_array)
        (\<lambda>ls. case ls of l # _ \<Rightarrow> jget ''metadata'' l | [] \<Rightarrow> None)) (jstr ''filename''))"

definition flush_ws_update ::
    "('h, 'n) wenv \<Rightarrow> string \<Rightarrow> string \<Rightarrow> string \<Rightarrow> string \<Rightarrow> nat \<Rightarrow> string \<Rightarrow> ('h, 'n) wstore
       \<Rightarrow> (write_error + unit) \<times> ('h, 'n) wstore" where
  "flush_ws_update e tree tree_id tree_type path i buffer w =
     wthen (wopt WNotPermitted (the_ws w) w) (\<lambda>ws w.
     wthen (api_io (get_workspace_document (we_api e) (we_net e) ws i) w) (\<lambda>existing w.
     wthen (if schema_of existing = FILE_SCHEMA then
              wthen (api_io (upload_blob (we_api e) (we_net e) ws buffer) w) (\<lambda>blob w.
                wopt WPanic (jset ''id'' (JNat i) (build_file_document (existing_filename existing) blob)) w)
            else wopt WPanic (map_option (doc_update i (schema_of existing))
              (apply_buffer_to_data (we_parse e) (schema_of existing) (data_of existing) buffer)) w)
       (\<lambda>doc w.
     wthen (api_io (update_workspace_documents (we_api e) (we_net e) ws tree_id tree_type path [doc]) w) (\<lambda>_ w.
       (Inr (), set_inline_if e (ws_ino_for_doc (w_tree w) tree path i) buffer w)))))"

definition flush_ws_create ::
    "('h, 'n) wenv \<Rightarrow> string \<Rightarrow> string \<Rightarrow> string \<Rightarrow> string \<Rightarrow> nat \<Rightarrow> string \<Rightarrow> string \<Rightarrow> nat \<Rightarrow> ('h, 'n) wstore
       \<Rightarrow> (write_error + nat) \<times> ('h, 'n) wstore" where
  "flush_ws_create e tree tree_id tree_type path dir nm buffer ino w =
     wthen (wopt WNotPermitted (the_ws w) w) (\<lambda>ws w.
     wthen (new_file_document e (upload_blob (we_api e) (we_net e) ws buffer) nm buffer w) (\<lambda>doc w.
     wthen (api_io (put_tree_document (we_api e) (we_net e) ws tree_id tree_type path doc) w) (\<lambda>ids w.
     wthen (first_id ids w) (\<lambda>i w.
       (Inr i, upd_tree (adopt_tree_file (we_now e) dir nm tree path i ino buffer) w)))))"

section \<open>Flush\<close>

definition retire_overlay :: "nat \<Rightarrow> nat \<Rightarrow> string \<Rightarrow> ('h, 'n) wstore \<Rightarrow> ('h, 'n) wstore" where
  "retire_overlay ino dir nm w = w\<lparr>w_overlay := tdel ino (w_overlay w),
     w_overlay_names := tdel (dir, nm) (w_overlay_names w)\<rparr>"

definition created_as ::
    "nat \<Rightarrow> flush_target \<Rightarrow> nat \<Rightarrow> string \<Rightarrow> ('h, 'n) wstore \<Rightarrow> ('h, 'n) wstore" where
  "created_as ino target dir nm w = retire_overlay ino dir nm (upd_state ino (\<lambda>s. s\<lparr>ow_target := target\<rparr>) w)"

definition publish_home ::
    "('h, 'n) wenv \<Rightarrow> string \<Rightarrow> nat \<Rightarrow> string \<Rightarrow> nat \<Rightarrow> ('h, 'n) wstore \<Rightarrow> ('h, 'n) wstore" where
  "publish_home e path dir nm sz w =
     (let overlay = tget (w_overlay_names w) (dir, nm);
          w = w\<lparr>w_overlay_names := tdel (dir, nm) (w_overlay_names w),
                w_overlay := (case overlay of Some i \<Rightarrow> tdel i (w_overlay w) | None \<Rightarrow> w_overlay w)\<rparr>
      in upd_tree (\<lambda>t. snd (upsert_home_file (we_now e) dir nm path sz overlay t)) w)"

definition send_home ::
    "('h, 'n) wenv \<Rightarrow> string \<Rightarrow> string \<Rightarrow> ('h, 'n) wstore \<Rightarrow> (write_error + unit) \<times> ('h, 'n) wstore" where
  "send_home e path buffer w = (case w_mirror w of
     Some m \<Rightarrow> wthen (mirror_io (commit_write (we_mirror e) (home_key path) buffer) m w) (\<lambda>_ w. (Inr (), w))
   | None \<Rightarrow> wthen (wopt WNotPermitted (the_ws w) w) (\<lambda>ws.
       api_io (write_home (we_api e) (we_net e) ws path buffer)))"

definition creates :: "flush_target \<Rightarrow> bool" where
  "creates t = (case t of FCreate _ _ _ _ \<Rightarrow> True | FWsCreate _ _ _ _ _ _ \<Rightarrow> True | FHomeFile _ _ _ \<Rightarrow> True | _ \<Rightarrow> False)"

definition is_home_target :: "flush_target \<Rightarrow> bool" where
  "is_home_target t = (case t of FHomeFile _ _ _ \<Rightarrow> True | _ \<Rightarrow> False)"

text \<open>One branch per target. The Home branch leaves \<open>flush_inner\<close> at once when the upload
  fails (the question mark of the code): the Boolean says whether the common end of the
  function, which marks a failed buffer dirty again, is reached.\<close>

definition flush_target_to ::
    "('h, 'n) wenv \<Rightarrow> nat \<Rightarrow> bool \<Rightarrow> bool \<Rightarrow> flush_target \<Rightarrow> string \<Rightarrow> ('h, 'n) wstore
       \<Rightarrow> bool \<times> (write_error + unit) \<times> ('h, 'n) wstore" where
  "flush_target_to e ino final dirty target buffer w = (case target of
     FHomeFile path dir nm \<Rightarrow>
       (case (if dirty then send_home e path buffer w else (Inr (), w)) of
          (Inl err, w) \<Rightarrow> (False, Inl err, w)
        | (Inr _, w) \<Rightarrow> (True, Inr (), if final then publish_home e path dir nm (length buffer) w else w))
   | FExisting ctx i \<Rightarrow> (True, flush_update e ctx i buffer w)
   | FCreate ctx d dir nm \<Rightarrow> (True,
       wthen (flush_create e ctx d dir nm buffer ino w) (\<lambda>i w. (Inr (), created_as ino (FExisting ctx i) dir nm w)))
   | FWsExisting tree ti ty path i \<Rightarrow> (True, flush_ws_update e tree ti ty path i buffer w)
   | FWsCreate tree ti ty path dir nm \<Rightarrow> (True,
       wthen (flush_ws_create e tree ti ty path dir nm buffer ino w)
         (\<lambda>i w. (Inr (), created_as ino (FWsExisting tree ti ty path i) dir nm w))))"

definition flush_buffer ::
    "('h, 'n) wenv \<Rightarrow> nat \<Rightarrow> bool \<Rightarrow> open_write \<Rightarrow> ('h, 'n) wstore \<Rightarrow> (write_error + unit) \<times> ('h, 'n) wstore" where
  "flush_buffer e ino final s w =
     (if \<not> (ow_dirty s \<or> (final \<and> is_home_target (ow_target s))) then (Inr (), w)
      else if \<not> final \<and> ow_buffer s = [] \<and> creates (ow_target s) then (Inr (), w)
      else case flush_target_to e ino final (ow_dirty s) (ow_target s) (ow_buffer s)
                  (upd_state ino (\<lambda>s. s\<lparr>ow_dirty := False\<rparr>) w) of
        (True, Inl err, w) \<Rightarrow> (Inl err, upd_state ino (\<lambda>s. s\<lparr>ow_dirty := True\<rparr>) w)
      | (_, r, w) \<Rightarrow> (r, w))"

definition flush_local ::
    "('h, 'n) wenv \<Rightarrow> nat \<Rightarrow> bool \<Rightarrow> nat \<Rightarrow> open_write \<Rightarrow> ('h, 'n) wstore \<Rightarrow> (write_error + unit) \<times> ('h, 'n) wstore" where
  "flush_local e ino final j s w = (case (w_mirror w, ow_target s) of
     (Some m, FHomeFile path dir nm) \<Rightarrow>
       (if ow_unlinked s then (Inr (), upd_state ino (\<lambda>s. s\<lparr>ow_dirty := False\<rparr>) w)
        else let sz = length (disk_bytes w j)
          in wthen (if ow_dirty s then
                 wthen (mirror_io (commit_local_file (we_mirror e) (home_key path)) m w)
                   (\<lambda>_ w. (Inr (), upd_state ino (\<lambda>s. s\<lparr>ow_dirty := False\<rparr>) w))
               else (Inr (), w))
             (\<lambda>_ w. (Inr (), if final
                then upd_tree (\<lambda>t. snd (upsert_home_file (we_now e) dir nm path sz (Some ino) t))
                       (retire_overlay ino dir nm w)
                else w)))
   | _ \<Rightarrow> (Inl WPanic, w))"

definition flush_inner :: "('h, 'n) wenv \<Rightarrow> nat \<Rightarrow> bool \<Rightarrow> ('h, 'n) wstore \<Rightarrow> (write_error + unit) \<times> ('h, 'n) wstore" where
  "flush_inner e ino final w = (case tget (w_states w) ino of
     None \<Rightarrow> (Inr (), w)
   | Some s \<Rightarrow> (case ow_disk s of
       Some j \<Rightarrow> flush_local e ino final j s w
     | None \<Rightarrow> flush_buffer e ino final s w))"

definition flush :: "('h, 'n) wenv \<Rightarrow> nat \<Rightarrow> ('h, 'n) wstore \<Rightarrow> (write_error + unit) \<times> ('h, 'n) wstore" where
  "flush e ino w = flush_inner e ino False w"

definition flush_final :: "('h, 'n) wenv \<Rightarrow> nat \<Rightarrow> ('h, 'n) wstore \<Rightarrow> (write_error + unit) \<times> ('h, 'n) wstore" where
  "flush_final e ino w = flush_inner e ino True w"

section \<open>Close and truncate\<close>

definition close_note :: "open_write \<Rightarrow> ('h, 'n) wstore \<Rightarrow> ('h, 'n) wstore" where
  "close_note s w = (case ow_target s of
     FHomeFile path _ _ \<Rightarrow> if \<not> ow_unlinked s then upd_mirror (note_close_write (home_key path)) w else w
   | _ \<Rightarrow> w)"

definition release :: "nat \<Rightarrow> ('h, 'n) wstore \<Rightarrow> ('h, 'n) wstore" where
  "release ino w = (case tget (w_states w) ino of
     None \<Rightarrow> w
   | Some s \<Rightarrow>
       if ow_refs s - 1 \<noteq> 0 then upd_state ino (\<lambda>s. s\<lparr>ow_refs := ow_refs s - 1\<rparr>) w
       else let w = close_note s w
         in w\<lparr>w_states := tdel ino (w_states w), w_overlay := tdel ino (w_overlay w),
              w_overlay_names := filter (\<lambda>(_, i). i \<noteq> ino) (w_overlay_names w)\<rparr>)"

definition truncate :: "('h, 'n) wenv \<Rightarrow> nat \<Rightarrow> nat \<Rightarrow> ('h, 'n) wstore \<Rightarrow> (write_error + unit) \<times> ('h, 'n) wstore" where
  "truncate e ino sz w =
     (if has_state w ino then (Inr (), resize_state ino sz w)
      else wthen (open_existing e ino False w) (\<lambda>_ w.
        case flush e ino (resize_state ino sz w) of (r, w) \<Rightarrow> (r, release ino w)))"

section \<open>Removing\<close>

definition unlink_ws :: "('h, 'n) wenv \<Rightarrow> nat \<Rightarrow> string \<Rightarrow> ('h, 'n) wstore \<Rightarrow> (write_error + unit) \<times> ('h, 'n) wstore" where
  "unlink_ws e dir nm w =
     wthen (wopt WNotPermitted (the_ws w) w) (\<lambda>ws w.
     wthen (wopt WNotFound (lookup_node (w_tree w) dir nm) w) (\<lambda>n w.
     wthen (wopt WNotPermitted (tree_file (w_tree w) (n_ino n)) w) (\<lambda>(tree, ti, ty, path, i) w.
     wthen (api_io (if path = TRASH_PATH then empty_trash (we_api e) (we_net e) ws [i]
            else remove_tree_document (we_api e) (we_net e) ws ti ty path [i] True) w) (\<lambda>_ w.
       (Inr (), drop_state (n_ino n) (upd_tree (remove_tree_file (we_now e) (n_ino n)) w))))))"

definition unlink_overlay ::
    "('h, 'n) wenv \<Rightarrow> nat \<Rightarrow> nat \<Rightarrow> string \<Rightarrow> ('h, 'n) wstore \<Rightarrow> (write_error + unit) \<times> ('h, 'n) wstore" where
  "unlink_overlay e ino dir nm w =
     (let w = retire_overlay ino dir nm w
      in case tget (w_states w) ino of
        None \<Rightarrow> (Inr (), w)
      | Some s \<Rightarrow>
          (case (w_mirror w, ow_target s) of
             (Some m, FHomeFile path _ _) \<Rightarrow>
               wthen (mirror_io (delete_local (we_mirror e) (home_key path)) m w) (\<lambda>_ w.
                 (Inr (), upd_state ino (\<lambda>s. s\<lparr>ow_unlinked := True\<rparr>)
                    (upd_mirror (note_close_write (home_key path)) w)))
           | _ \<Rightarrow> (Inr (), drop_state ino w)))"

definition unlink_home ::
    "('h, 'n) wenv \<Rightarrow> nat \<Rightarrow> string \<Rightarrow> ('h, 'n) wstore \<Rightarrow> (write_error + unit) \<times> ('h, 'n) wstore" where
  "unlink_home e ino path w = (case w_mirror w of
     Some m \<Rightarrow>
       wthen (mirror_io (delete_local (we_mirror e) (home_key path)) m w) (\<lambda>_ w.
         (Inr (), upd_state ino (\<lambda>s. s\<lparr>ow_unlinked := True\<rparr>)
            (upd_tree (\<lambda>t. snd (remove_node (we_now e) ino t))
               (upd_mirror (note_close_write (home_key path)) w))))
   | None \<Rightarrow>
       wthen (wopt WNotPermitted (the_ws w) w) (\<lambda>ws w.
       wthen (api_io (remove_home (we_api e) (we_net e) ws path) w) (\<lambda>_ w.
         (Inr (), drop_state ino (upd_tree (\<lambda>t. snd (remove_node (we_now e) ino t)) w)))))"

definition unlink_doc ::
    "('h, 'n) wenv \<Rightarrow> nat \<Rightarrow> string \<Rightarrow> ('h, 'n) wstore \<Rightarrow> (write_error + unit) \<times> ('h, 'n) wstore" where
  "unlink_doc e dir nm w =
     wthen (wopt WNotPermitted (writable_context w dir) w) (\<lambda>ctx w.
     wthen (wopt WNotFound (lookup_node (w_tree w) dir nm) w) (\<lambda>n w.
     wthen (wopt WNotPermitted (doc_for_ino (w_tree w) (n_ino n)) w) (\<lambda>(_, i) w.
     wthen (api_io (remove_documents (we_api e) (we_net e) ctx [i]) w) (\<lambda>_ w.
       (Inr (), drop_state (n_ino n) (upd_tree (remove_doc_node (we_now e) (n_ino n)) w))))))"

definition unlink :: "('h, 'n) wenv \<Rightarrow> nat \<Rightarrow> string \<Rightarrow> ('h, 'n) wstore \<Rightarrow> (write_error + unit) \<times> ('h, 'n) wstore" where
  "unlink e dir nm w = (case tget (w_overlay_names w) (dir, nm) of
     Some ino \<Rightarrow> unlink_overlay e ino dir nm w
   | None \<Rightarrow>
      (case Option.bind (lookup_node (w_tree w) dir nm) (\<lambda>n.
              map_option (\<lambda>(p, _). (n_ino n, p)) (home_file (w_tree w) (n_ino n))) of
         Some (ino, path) \<Rightarrow> unlink_home e ino path w
       | None \<Rightarrow> if is_workspace (w_tree w) then unlink_ws e dir nm w else unlink_doc e dir nm w))"

section \<open>Directories\<close>

definition wmkdir :: "('h, 'n) wenv \<Rightarrow> nat \<Rightarrow> string \<Rightarrow> ('h, 'n) wstore \<Rightarrow> (write_error + nat) \<times> ('h, 'n) wstore" where
  "wmkdir e parent nm w = (case home_path (w_tree w) parent of
     Some (pp, _) \<Rightarrow>
       (if lookup_node (w_tree w) parent nm \<noteq> None then (Inl WExists, w)
        else let p = join_home_path pp nm
          in wthen (case w_mirror w of
               Some m \<Rightarrow> mirror_io (mkdir_local (we_mirror e) (home_key p)) m w
             | None \<Rightarrow> wthen (wopt WNotPermitted (the_ws w) w) (\<lambda>ws.
                 api_io (mkdir_home (we_api e) (we_net e) ws p)))
             (\<lambda>_ w. case insert_home_dir (we_now e) parent nm p (w_tree w) of
                (i, t) \<Rightarrow> (Inr i, w\<lparr>w_tree := t\<rparr>)))
   | None \<Rightarrow>
       wthen (wopt WNotPermitted (locate_tree_dir (w_tree w) parent) w) (\<lambda>(tree, ti, _, pp) w.
       wthen (wopt WNotPermitted (the_ws w) w) (\<lambda>ws w.
       if lookup_node (w_tree w) parent nm \<noteq> None then (Inl WExists, w)
       else wthen (api_io (insert_tree_path (we_api e) (we_net e) ws ti (join_path pp nm)) w) (\<lambda>_ w.
         case adopt_tree_dir (we_now e) parent nm tree (join_path pp nm) (w_tree w) of
           (i, t) \<Rightarrow> (Inr i, w\<lparr>w_tree := t\<rparr>)))))"

definition mirror_rmdir :: "('h, 'n) wenv \<Rightarrow> string \<Rightarrow> 'h mirror \<Rightarrow> ('h, 'n) wstore \<Rightarrow> (write_error + unit) \<times> ('h, 'n) wstore" where
  "mirror_rmdir e key m w = wthen (mirror_io (rmdir_local (we_mirror e) key) m w)
     (\<lambda>gone w. (if gone then Inr () else Inl WNotEmpty, w))"

definition no_children :: "view \<Rightarrow> nat \<Rightarrow> bool" where
  "no_children t ino = (case list_dir t ino of Some (_ # _) \<Rightarrow> False | _ \<Rightarrow> True)"

definition wrmdir :: "('h, 'n) wenv \<Rightarrow> nat \<Rightarrow> string \<Rightarrow> ('h, 'n) wstore \<Rightarrow> (write_error + unit) \<times> ('h, 'n) wstore" where
  "wrmdir e parent nm w =
     (case Option.bind (lookup_node (w_tree w) parent nm) (\<lambda>n.
             map_option (\<lambda>(p, _). (n_ino n, p)) (home_path (w_tree w) (n_ino n))) of
        Some (ino, path) \<Rightarrow>
          (if \<not> no_children (w_tree w) ino \<or> overlay_entries w ino \<noteq> [] then (Inl WNotEmpty, w)
           else wthen (case w_mirror w of
               Some m \<Rightarrow> mirror_rmdir e (home_key path) m w
             | None \<Rightarrow> wthen (wopt WNotPermitted (the_ws w) w) (\<lambda>ws.
                 api_io (remove_home (we_api e) (we_net e) ws path)))
             (\<lambda>_ w. (Inr (), upd_tree (\<lambda>t. snd (remove_node (we_now e) ino t)) w)))
      | None \<Rightarrow>
          wthen (wopt WNotPermitted (locate_tree_dir (w_tree w) parent) w) (\<lambda>(_, ti, _, _) w.
          wthen (wopt WNotPermitted (the_ws w) w) (\<lambda>ws w.
          wthen (wopt WNotFound (lookup_node (w_tree w) parent nm) w) (\<lambda>n w.
          wthen (wopt WNotPermitted (locate_tree_dir (w_tree w) (n_ino n)) w) (\<lambda>(_, _, _, cp) w.
          wthen (api_io (remove_tree_path (we_api e) (we_net e) ws ti cp False) w) (\<lambda>_ w.
            (Inr (), upd_tree (\<lambda>t. fst (remove_tree_dir (we_now e) (n_ino n) t)) w)))))))"

end
