(* ===== verification/Writes_Rename.thy ===== *)
theory Writes_Rename
  imports Writes_Flush
begin

text \<open>
  Renaming in the write path (\<^verbatim>\<open>src/src/writes.rs\<close>): \<open>rename_home\<close> for files and directories
  inside the Home folder, \<open>rename_ws\<close> for tree paths and the documents filed in them, and
  \<open>rename\<close>, which picks the path and handles the documents of a context. Three cases recur: a
  pending create renamed before its close (only the open state is retargeted), a plain rename,
  and a rename over an existing file (the atomic save of an editor: the target's document gains
  the source's content, the surviving node keeps the source's inode).
\<close>

section \<open>Inside the Home folder\<close>

definition DEFAULT_BACKEND :: string where "DEFAULT_BACKEND = ''workspace:home''"

definition retarget_home :: "string \<Rightarrow> nat \<Rightarrow> string \<Rightarrow> open_write \<Rightarrow> open_write" where
  "retarget_home path dir nm s = (case ow_target s of
     FHomeFile _ _ _ \<Rightarrow> s\<lparr>ow_target := FHomeFile path dir nm\<rparr> | _ \<Rightarrow> s)"

definition follow_dir :: "string \<Rightarrow> string \<Rightarrow> open_write \<Rightarrow> open_write" where
  "follow_dir src dst s = (case ow_target s of
     FHomeFile path dir nm \<Rightarrow>
       (case strip_prefix (src @ ''/'') path of
          Some rest \<Rightarrow> s\<lparr>ow_target := FHomeFile (dst @ ''/'' @ rest) dir nm\<rparr> | None \<Rightarrow> s)
   | _ \<Rightarrow> s)"

definition drop_node :: "('h, 'n) wenv \<Rightarrow> nat option \<Rightarrow> ('h, 'n) wstore \<Rightarrow> ('h, 'n) wstore" where
  "drop_node e ino w = (case ino of
     Some i \<Rightarrow> upd_tree (\<lambda>t. snd (remove_node (we_now e) i t)) w | None \<Rightarrow> w)"

definition is_dir_at :: "('h, 'n) wstore \<Rightarrow> nat option \<Rightarrow> bool" where
  "is_dir_at w ino = (case Option.bind ino (tget (vt_nodes (w_tree w))) of
     Some n \<Rightarrow> View.is_dir n | None \<Rightarrow> False)"

definition in_use :: "('h, 'n) wstore \<Rightarrow> nat option \<Rightarrow> bool" where
  "in_use w ino = (case ino of Some i \<Rightarrow> has_state w i | None \<Rightarrow> False)"

definition move_overlay :: "nat \<Rightarrow> nat \<Rightarrow> string \<Rightarrow> ('h, 'n) wstore \<Rightarrow> ('h, 'n) wstore" where
  "move_overlay ino dir nm w = w\<lparr>w_overlay := (case tget (w_overlay w) ino of
     Some (_, _, mtime) \<Rightarrow> tput ino (dir, nm, mtime) (w_overlay w) | None \<Rightarrow> w_overlay w)\<rparr>"

definition unname_overlay :: "nat \<Rightarrow> string \<Rightarrow> ('h, 'n) wstore \<Rightarrow> ('h, 'n) wstore" where
  "unname_overlay dir nm w = w\<lparr>w_overlay_names := tdel (dir, nm) (w_overlay_names w)\<rparr>"

definition name_overlay :: "nat \<Rightarrow> string \<Rightarrow> nat \<Rightarrow> ('h, 'n) wstore \<Rightarrow> ('h, 'n) wstore" where
  "name_overlay dir nm ino w = w\<lparr>w_overlay_names := tput (dir, nm) ino (w_overlay_names w)\<rparr>"

definition rename_pending_home ::
    "('h, 'n) wenv \<Rightarrow> nat \<Rightarrow> nat \<times> string \<times> string \<Rightarrow> nat \<times> string \<times> string \<Rightarrow> ('h, 'n) wstore
       \<Rightarrow> (write_error + unit) \<times> ('h, 'n) wstore" where
  "rename_pending_home e ino src dst w = (case (src, dst) of
     ((src_dir, src_nm, src_path), dst_dir, dst_nm, dst_path) \<Rightarrow>
       let target = map_option n_ino (lookup_node (w_tree w) dst_dir dst_nm)
       in if is_dir_at w target then (Inl WExists, w)
          else if in_use w target then (Inl WExists, w)
          else
            let w = drop_node e target w
            in wthen (case w_mirror w of
                 Some m \<Rightarrow> mirror_io (rename_local (we_mirror e) (home_key src_path) (home_key dst_path)) m w
               | None \<Rightarrow> (Inr (), w))
             (\<lambda>_ w. (Inr (),
                let w = move_overlay ino dst_dir dst_nm
                      (name_overlay dst_dir dst_nm ino (unname_overlay src_dir src_nm w));
                    w = upd_state ino (\<lambda>s. (retarget_home dst_path dst_dir dst_nm s)\<lparr>ow_dirty := True\<rparr>) w
                in upd_mirror (\<lambda>m. note_open_write (home_key dst_path)
                     (note_close_write (home_key src_path) m)) w)))"

text \<open>A file may replace a file, a directory an empty directory; nothing that is open is
  replaced.\<close>

definition home_target_free ::
    "bool \<Rightarrow> nat option \<Rightarrow> ('h, 'n) wstore \<Rightarrow> (write_error + unit) \<times> ('h, 'n) wstore" where
  "home_target_free src_is_dir target w =
     (if target = None then (Inr (), w)
      else if src_is_dir \<noteq> is_dir_at w target
        then (Inl (if is_dir_at w target then WExists else WNotPermitted), w)
      else if is_dir_at w target \<and> \<not> no_children (w_tree w) (the target) then (Inl WNotEmpty, w)
      else if in_use w target then (Inl WExists, w)
      else (Inr (), w))"

definition move_home_mirror ::
    "('h, 'n) wenv \<Rightarrow> bool \<Rightarrow> nat option \<Rightarrow> string \<Rightarrow> string \<Rightarrow> 'h mirror \<Rightarrow> ('h, 'n) wstore
       \<Rightarrow> (write_error + unit) \<times> ('h, 'n) wstore" where
  "move_home_mirror e src_is_dir target src dst m w =
     (if src_is_dir then
        wthen (if target = None then (Inr (), w)
               else wthen (mirror_rmdir e (home_key dst) m w) (\<lambda>_ w. (Inr (), drop_node e target w)))
          (\<lambda>_ w. case w_mirror w of
             Some m \<Rightarrow> mirror_io (rename_dir_local (we_mirror e) (home_key src) (home_key dst)) m w
           | None \<Rightarrow> (Inr (), w))
      else mirror_io (rename_local (we_mirror e) (home_key src) (home_key dst)) m w)"

definition move_home_live ::
    "('h, 'n) wenv \<Rightarrow> bool \<Rightarrow> nat option \<Rightarrow> string \<Rightarrow> string \<Rightarrow> ('h, 'n) wstore
       \<Rightarrow> (write_error + unit) \<times> ('h, 'n) wstore" where
  "move_home_live e src_is_dir target src dst w =
     wthen (wopt WNotPermitted (the_ws w) w) (\<lambda>ws w.
     if src_is_dir then
       api_io (api_rename_directory (we_api e) (we_net e) (we_operation_id e) ws DEFAULT_BACKEND
         (home_key src) (home_key dst)) w
     else
       wthen (if target = None then (Inr (), w)
              else api_io (remove_home (we_api e) (we_net e) ws dst) w)
         (\<lambda>_. api_io (api_rename_object (we_api e) (we_net e) ws DEFAULT_BACKEND
            (home_key src) (home_key dst) None)))"

definition moved_home ::
    "('h, 'n) wenv \<Rightarrow> bool \<Rightarrow> nat \<Rightarrow> nat option \<Rightarrow> string \<Rightarrow> nat \<times> string \<times> string \<Rightarrow> ('h, 'n) wstore
       \<Rightarrow> ('h, 'n) wstore" where
  "moved_home e src_is_dir ino target src dst w = (case dst of (dst_dir, dst_nm, dst_path) \<Rightarrow>
     let w = (if target = Some ino then w else drop_node e target w);
         w = upd_tree (View_Home.rename_home (we_now e) ino dst_dir dst_nm) w;
         w = (if src_is_dir
              then w\<lparr>w_states := map (\<lambda>(i, s). (i, follow_dir src dst_path s)) (w_states w)\<rparr> else w)
     in upd_state ino (retarget_home dst_path dst_dir dst_nm) w)"

definition rename_home_inner ::
    "('h, 'n) wenv \<Rightarrow> nat \<times> string \<times> string \<Rightarrow> nat \<times> string \<times> string \<Rightarrow> ('h, 'n) wstore
       \<Rightarrow> (write_error + unit) \<times> ('h, 'n) wstore" where
  "rename_home_inner e src dst w = (case (src, dst) of
     ((src_dir, src_nm, src_dir_path), dst_dir, dst_nm, dst_dir_path) \<Rightarrow>
       let src_path = join_home_path src_dir_path src_nm;
           dst_path = join_home_path dst_dir_path dst_nm
       in if src_path = dst_path then (Inr (), w)
          else case tget (w_overlay_names w) (src_dir, src_nm) of
            Some ino \<Rightarrow> rename_pending_home e ino (src_dir, src_nm, src_path) (dst_dir, dst_nm, dst_path) w
          | None \<Rightarrow>
              wthen (wopt WNotFound (lookup_node (w_tree w) src_dir src_nm) w) (\<lambda>n w.
                let target = map_option n_ino (lookup_node (w_tree w) dst_dir dst_nm);
                    src_is_dir = is_dir_at w (Some (n_ino n))
                in wthen (home_target_free src_is_dir target w) (\<lambda>_ w.
                   wthen (case w_mirror w of
                       Some m \<Rightarrow> move_home_mirror e src_is_dir target src_path dst_path m w
                     | None \<Rightarrow> move_home_live e src_is_dir target src_path dst_path w) (\<lambda>_ w.
                     (Inr (), moved_home e src_is_dir (n_ino n) target src_path (dst_dir, dst_nm, dst_path) w)))))"

text \<open>None when neither side is Home; \<open>WCrossDir\<close> (the caller copies) when only one is.\<close>

definition wrename_home ::
    "('h, 'n) wenv \<Rightarrow> nat \<Rightarrow> string \<Rightarrow> nat \<Rightarrow> string \<Rightarrow> ('h, 'n) wstore
       \<Rightarrow> ((write_error + unit) \<times> ('h, 'n) wstore) option" where
  "wrename_home e src_dir src_nm dst_dir dst_nm w =
     (case (home_path (w_tree w) src_dir, home_path (w_tree w) dst_dir) of
        (Some (s, _), Some (d, _)) \<Rightarrow> Some (rename_home_inner e (src_dir, src_nm, s) (dst_dir, dst_nm, d) w)
      | (None, None) \<Rightarrow> None
      | _ \<Rightarrow> Some (Inl WCrossDir, w))"

section \<open>In a workspace tree\<close>

definition ws_set_filename ::
    "('h, 'n) wenv \<Rightarrow> string \<Rightarrow> string \<Rightarrow> string \<Rightarrow> string \<Rightarrow> nat \<Rightarrow> string \<Rightarrow> ('h, 'n) wstore
       \<Rightarrow> (write_error + unit) \<times> ('h, 'n) wstore" where
  "ws_set_filename e ws tree_id tree_type path i filename w =
     wthen (api_io (get_workspace_document (we_api e) (we_net e) ws i) w) (\<lambda>existing w.
     wthen (api_io (update_workspace_documents (we_api e) (we_net e) ws tree_id tree_type path
            [renamed_record existing i filename]) w) (\<lambda>_ w. (Inr (), w)))"

definition rename_pending_ws ::
    "nat \<Rightarrow> nat \<Rightarrow> string \<Rightarrow> nat \<Rightarrow> string \<Rightarrow> ('h, 'n) wstore \<Rightarrow> (write_error + unit) \<times> ('h, 'n) wstore" where
  "rename_pending_ws ino src_dir src_nm dst_dir dst_nm w =
     wthen (wopt WNotPermitted (locate_tree_dir (w_tree w) dst_dir) w) (\<lambda>(tree, ti, ty, path) w.
       let dst_doc = Option.bind (lookup_node (w_tree w) dst_dir dst_nm) (\<lambda>n.
             map_option (\<lambda>(_, _, _, _, i). i) (tree_file (w_tree w) (n_ino n)));
           w = move_overlay ino dst_dir dst_nm (unname_overlay src_dir src_nm w)
       in (Inr (), case dst_doc of
            Some i \<Rightarrow> upd_state ino (\<lambda>s. s\<lparr>ow_target := FWsExisting tree ti ty path i, ow_dirty := True\<rparr>) w
          | None \<Rightarrow> upd_state ino (\<lambda>s. case ow_target s of
                FWsCreate _ _ _ _ _ _ \<Rightarrow> s\<lparr>ow_target := FWsCreate tree ti ty path dst_dir dst_nm\<rparr> | _ \<Rightarrow> s)
              (name_overlay dst_dir dst_nm ino w)))"

definition move_tree_folder ::
    "('h, 'n) wenv \<Rightarrow> string \<Rightarrow> nat \<Rightarrow> nat \<Rightarrow> nat \<Rightarrow> string \<Rightarrow> ('h, 'n) wstore
       \<Rightarrow> (write_error + unit) \<times> ('h, 'n) wstore" where
  "move_tree_folder e ws ino src_dir dst_dir dst_nm w =
     (if lookup_node (w_tree w) dst_dir dst_nm \<noteq> None then (Inl WExists, w)
      else wthen (wopt WNotPermitted (locate_tree_dir (w_tree w) ino) w) (\<lambda>(tree, ti, _, src_path) w.
        wthen (if src_dir = dst_dir then (Inr (join_path (parent_of src_path) dst_nm), w)
               else wthen (wopt WNotPermitted (locate_tree_dir (w_tree w) dst_dir) w) (\<lambda>(tree', ti', _, path') w.
                 if ti' \<noteq> ti \<or> tree' \<noteq> tree then (Inl WCrossDir, w) else (Inr (join_path path' dst_nm), w)))
          (\<lambda>dst_path w.
        wthen (api_io (move_tree_path (we_api e) (we_net e) ws ti src_path dst_path) w) (\<lambda>_ w.
          (Inr (), upd_tree (move_tree_path_node ino dst_dir dst_nm tree) w)))))"

definition refile_document ::
    "('h, 'n) wenv \<Rightarrow> string \<Rightarrow> string \<times> string \<times> string \<times> string \<times> nat \<Rightarrow> nat \<Rightarrow> string \<Rightarrow> nat \<Rightarrow> string
       \<Rightarrow> ('h, 'n) wstore \<Rightarrow> (write_error + unit) \<times> ('h, 'n) wstore" where
  "refile_document e ws src ino src_nm dst_dir dst_nm w = (case src of (tree, ti, ty, path, i) \<Rightarrow>
     wthen (wopt WNotPermitted (locate_tree_dir (w_tree w) dst_dir) w) (\<lambda>(tree', ti', ty', path') w.
     if lookup_node (w_tree w) dst_dir dst_nm \<noteq> None then (Inl WExists, w)
     else wthen (api_io (link_tree_document (we_api e) (we_net e) ws ti' ty' path' [i]) w) (\<lambda>_ w.
       wthen (if dst_nm \<noteq> src_nm then ws_set_filename e ws ti' ty' path' i dst_nm w else (Inr (), w)) (\<lambda>_ w.
       wthen (api_io (remove_tree_document (we_api e) (we_net e) ws ti ty path [i] False) w) (\<lambda>_ w.
         (Inr (), upd_tree (move_tree_file ino dst_dir dst_nm tree tree') w))))))"

definition inline_bytes :: "('h, 'n) wstore \<Rightarrow> nat \<Rightarrow> string option" where
  "inline_bytes w ino = (case map_option n_content (tget (vt_nodes (w_tree w)) ino) of
     Some (NInline b) \<Rightarrow> Some b | _ \<Rightarrow> None)"

definition replace_ws_document ::
    "('h, 'n) wenv \<Rightarrow> string \<Rightarrow> string \<times> string \<times> string \<times> string \<times> nat \<Rightarrow> nat \<Rightarrow> nat \<Rightarrow> string
       \<Rightarrow> ('h, 'n) wstore \<Rightarrow> (write_error + unit) \<times> ('h, 'n) wstore" where
  "replace_ws_document e ws src ino dst_ino dst_nm w = (case src of (tree, ti, ty, path, i) \<Rightarrow>
     wthen (wopt WNotPermitted (tree_file (w_tree w) dst_ino) w) (\<lambda>(_, _, _, _, j) w.
     wthen (wopt WNotPermitted (inline_bytes w ino) w) (\<lambda>content w.
     wthen (flush_ws_update e tree ti ty path j content w) (\<lambda>_ w.
     wthen (ws_set_filename e ws ti ty path j dst_nm w) (\<lambda>_ w.
     wthen (api_io (remove_tree_document (we_api e) (we_net e) ws ti ty path [i] False) w) (\<lambda>_ w.
       (Inr (), upd_state ino (\<lambda>s. s\<lparr>ow_target := FWsExisting tree ti ty path j\<rparr>)
          (upd_tree (\<lambda>t. set_inline_content (we_now e) ino content (rebind_tree_file ino j
             (rename_entry ino dst_nm (remove_tree_file (we_now e) dst_ino t)))) w))))))))"

definition rename_ws ::
    "('h, 'n) wenv \<Rightarrow> nat \<Rightarrow> string \<Rightarrow> nat \<Rightarrow> string \<Rightarrow> ('h, 'n) wstore
       \<Rightarrow> (write_error + unit) \<times> ('h, 'n) wstore" where
  "rename_ws e src_dir src_nm dst_dir dst_nm w =
     wthen (wopt WNotPermitted (the_ws w) w) (\<lambda>ws w.
     case tget (w_overlay_names w) (src_dir, src_nm) of
       Some ino \<Rightarrow> rename_pending_ws ino src_dir src_nm dst_dir dst_nm w
     | None \<Rightarrow>
         wthen (wopt WNotFound (lookup_node (w_tree w) src_dir src_nm) w) (\<lambda>n w.
         if is_dir_at w (Some (n_ino n)) then move_tree_folder e ws (n_ino n) src_dir dst_dir dst_nm w
         else wthen (wopt WNotPermitted (tree_file (w_tree w) (n_ino n)) w) (\<lambda>src w.
           if src_dir \<noteq> dst_dir then refile_document e ws src (n_ino n) src_nm dst_dir dst_nm w
           else case lookup_node (w_tree w) dst_dir dst_nm of
             None \<Rightarrow> (case src of (_, ti, ty, path, i) \<Rightarrow>
               wthen (ws_set_filename e ws ti ty path i dst_nm w) (\<lambda>_ w.
                 (Inr (), upd_tree (rename_entry (n_ino n) dst_nm) w)))
           | Some d \<Rightarrow> replace_ws_document e ws src (n_ino n) (n_ino d) dst_nm w)))"

section \<open>The documents of a context\<close>

definition rename_pending_doc ::
    "nat \<Rightarrow> string \<Rightarrow> nat \<Rightarrow> string \<Rightarrow> nat \<Rightarrow> string \<Rightarrow> ('h, 'n) wstore \<Rightarrow> ('h, 'n) wstore" where
  "rename_pending_doc ino ctx src_dir src_nm dst_dir dst_nm w =
     (let dst_doc = Option.bind (lookup_node (w_tree w) dst_dir dst_nm) (\<lambda>n. doc_for_ino (w_tree w) (n_ino n));
          w = unname_overlay src_dir src_nm w;
          w = w\<lparr>w_overlay := (case tget (w_overlay w) ino of
                Some (dir, _, mtime) \<Rightarrow> tput ino (dir, dst_nm, mtime) (w_overlay w) | None \<Rightarrow> w_overlay w)\<rparr>
      in case dst_doc of
           Some (_, i) \<Rightarrow> upd_state ino (\<lambda>s. s\<lparr>ow_target := FExisting ctx i, ow_dirty := True\<rparr>) w
         | None \<Rightarrow> upd_state ino (\<lambda>s. case ow_target s of
               FCreate c d dir _ \<Rightarrow> s\<lparr>ow_target := FCreate c d dir dst_nm\<rparr> | _ \<Rightarrow> s)
             (name_overlay dst_dir dst_nm ino w))"

definition rename_document ::
    "('h, 'n) wenv \<Rightarrow> string \<Rightarrow> nat \<Rightarrow> nat \<Rightarrow> string \<Rightarrow> ('h, 'n) wstore \<Rightarrow> (write_error + unit) \<times> ('h, 'n) wstore" where
  "rename_document e ctx i ino nm w =
     wthen (api_io (get_document (we_api e) (we_net e) ctx i) w) (\<lambda>existing w.
     wthen (api_io (update_documents (we_api e) (we_net e) ctx [renamed_record existing i nm]) w) (\<lambda>_ w.
       (Inr (), upd_tree (rename_entry ino nm) (w\<lparr>w_names :=
          names_put (w_names w) ctx (or_default [] (tget (vt_ctx_ws (w_tree w)) ctx)) FLAT_DIR i nm\<rparr>))))"

definition replace_document ::
    "('h, 'n) wenv \<Rightarrow> string \<Rightarrow> nat \<Rightarrow> nat \<Rightarrow> nat \<Rightarrow> string \<Rightarrow> ('h, 'n) wstore \<Rightarrow> (write_error + unit) \<times> ('h, 'n) wstore" where
  "replace_document e ctx i ino dst_ino nm w =
     wthen (wopt WNotPermitted (doc_for_ino (w_tree w) dst_ino) w) (\<lambda>(_, j) w.
     wthen (wopt WNotPermitted (inline_bytes w ino) w) (\<lambda>content w.
     wthen (flush_update e ctx j content w) (\<lambda>_ w.
     wthen (api_io (remove_documents (we_api e) (we_net e) ctx [i]) w) (\<lambda>_ w.
       (Inr (), upd_state ino (\<lambda>s. s\<lparr>ow_target := FExisting ctx j\<rparr>)
          (upd_tree (\<lambda>t. set_inline_content (we_now e) ino content (bind_doc ctx j ino
             (rename_entry ino nm (unbind_doc ctx i (remove_doc_node (we_now e) dst_ino t))))) w))))))"

definition rename ::
    "('h, 'n) wenv \<Rightarrow> nat \<Rightarrow> string \<Rightarrow> nat \<Rightarrow> string \<Rightarrow> ('h, 'n) wstore
       \<Rightarrow> (write_error + unit) \<times> ('h, 'n) wstore" where
  "rename e src_dir src_nm dst_dir dst_nm w = (case wrename_home e src_dir src_nm dst_dir dst_nm w of
     Some r \<Rightarrow> r
   | None \<Rightarrow>
      if is_workspace (w_tree w) then rename_ws e src_dir src_nm dst_dir dst_nm w
      else if src_dir \<noteq> dst_dir then (Inl WCrossDir, w)
      else wthen (wopt WNotPermitted (writable_context w src_dir) w) (\<lambda>ctx w.
        case tget (w_overlay_names w) (src_dir, src_nm) of
          Some ino \<Rightarrow> (Inr (), rename_pending_doc ino ctx src_dir src_nm dst_dir dst_nm w)
        | None \<Rightarrow>
            wthen (wopt WNotFound (lookup_node (w_tree w) src_dir src_nm) w) (\<lambda>n w.
            wthen (wopt WNotPermitted (doc_for_ino (w_tree w) (n_ino n)) w) (\<lambda>(_, i) w.
              case lookup_node (w_tree w) dst_dir dst_nm of
                None \<Rightarrow> rename_document e ctx i (n_ino n) dst_nm w
              | Some d \<Rightarrow> replace_document e ctx i (n_ino n) (n_ino d) dst_nm w))))"

end
