(* ===== verification/View_Listing.thy ===== *)
theory View_Listing
  imports View_Trees View_Start
begin

text \<open>
  What a refresh of one directory shows. The contexts and the trees reconcile a directory with
  the wanted rows in the same way: drop every listed file whose name or document does not
  match, update the content of those that do, then add the missing rows. The common algorithm
  is \<open>settle_with\<close> and \<open>add_with\<close>; the locale \<open>listing\<close> states what it needs of the binding
  between files and documents, and is interpreted on both bindings of the mounted tree.
\<close>

section \<open>The common algorithm\<close>

definition set_row :: "nat \<Rightarrow> node_content \<Rightarrow> nat \<Rightarrow> view \<Rightarrow> view" where
  "set_row i c m t = (case tget (vt_nodes t) i of
     Some n \<Rightarrow> if n_content n \<noteq> c then upd_node i (\<lambda>n. n\<lparr>n_content := c, n_mtime := m\<rparr>) t else t
   | None \<Rightarrow> t)"

definition settle_one ::
    "(view \<Rightarrow> nat \<Rightarrow> nat option) \<Rightarrow> (nat \<Rightarrow> view \<Rightarrow> view) \<Rightarrow> (string, doc_row) table \<Rightarrow> string \<Rightarrow> nat \<Rightarrow> view \<Rightarrow> view" where
  "settle_one shown drp rows nm i t = (case tget rows nm of
     Some (d, c, m) \<Rightarrow> if shown t i = Some d then set_row i c m t else drp i t
   | None \<Rightarrow> drp i t)"

fun settle_with ::
    "(view \<Rightarrow> nat \<Rightarrow> nat option) \<Rightarrow> (nat \<Rightarrow> view \<Rightarrow> view) \<Rightarrow> (string, doc_row) table \<Rightarrow> (string \<times> nat) list
       \<Rightarrow> view \<Rightarrow> view" where
  "settle_with shown drp rows [] t = t"
| "settle_with shown drp rows ((nm, i) # xs) t = settle_with shown drp rows xs (settle_one shown drp rows nm i t)"

text \<open>The document a file shows is bound by \<open>bnd\<close>, applied to the fresh inode.\<close>

fun add_with ::
    "(nat \<Rightarrow> nat \<Rightarrow> view \<Rightarrow> view) \<Rightarrow> nat \<Rightarrow> nat \<Rightarrow> (string \<times> doc_row) list \<Rightarrow> view \<Rightarrow> view" where
  "add_with bnd now dir [] t = t"
| "add_with bnd now dir ((nm, d, c, m) # xs) t =
     add_with bnd now dir xs
       (if lookup_node t dir nm \<noteq> None then t
        else bnd (vt_next t) d (insert_node now (new_node (vt_next t) dir nm m c) (t\<lparr>vt_next := vt_next t + 1\<rparr>)))"

definition file_at :: "view \<Rightarrow> nat \<Rightarrow> string \<Rightarrow> nat \<Rightarrow> bool" where
  "file_at t dir nm i \<longleftrightarrow> child t dir nm = Some i \<and> (\<exists>n. nview t i = Some n \<and> \<not> is_dir n)"

definition row_of :: "(view \<Rightarrow> nat \<Rightarrow> nat option) \<Rightarrow> view \<Rightarrow> nat \<Rightarrow> string \<Rightarrow> (nat \<times> node_content) option" where
  "row_of shown t dir nm = Option.bind (child t dir nm) (\<lambda>i. Option.bind (shown t i) (\<lambda>d.
     map_option (\<lambda>n. (d, n_content n)) (nview t i)))"

definition wanted_row :: "(string, doc_row) table \<Rightarrow> string \<Rightarrow> (nat \<times> node_content) option" where
  "wanted_row rows nm = map_option (\<lambda>(d, c, _). (d, c)) (tget rows nm)"

definition plain_row :: "doc_row \<Rightarrow> bool" where
  "plain_row row = (case row of (_, c, _) \<Rightarrow> (case c of NDir \<Rightarrow> False | NHomeDir _ _ \<Rightarrow> False | _ \<Rightarrow> True))"

lemma file_kidless: "view_ok t \<Longrightarrow> file_at t dir nm i \<Longrightarrow> child t i s = None"
  by (metis file_at_def not_None_eq option.inject view_ok_link)

lemma child_nview: "view_ok t \<Longrightarrow> child t p s = Some i \<Longrightarrow> \<exists>n. nview t i = Some n \<and> n_parent n = p \<and> n_name n = s"
  by (metis view_ok_link)

lemma child_inj: "view_ok t \<Longrightarrow> child t p s = Some i \<Longrightarrow> child t q r = Some i \<Longrightarrow> p = q \<and> s = r"
  by (metis child_nview option.inject)

lemma nview_node: "nview t i = Some n \<longleftrightarrow> (\<exists>m. tget (vt_nodes t) i = Some m \<and> n = erase_time m)"
  by (auto simp: nview_def)

lemma drop_leaf:
  assumes ok: "view_ok t" and f: "file_at t dir nm i"
  shows "view_ok (snd (remove_node now i t))"
    "child (snd (remove_node now i t)) p s = (if p = dir \<and> s = nm then None else child t p s)"
    "nview (snd (remove_node now i t)) j = (if j = i then None else nview t j)"
proof -
  obtain n where n: "child t dir nm = Some i" "nview t i = Some n" "n_parent n = dir" "n_name n = nm"
    using f child_nview[OF ok] unfolding file_at_def by blast
  obtain q where q: "walk t ROOT_INO q = Some i" using view_ok_reach[OF ok n(2)] by blast
  have "i \<noteq> ROOT_INO" using view_ok_link[OF ok n(1)] by metis
  then have "q \<noteq> []" using q by auto
  then show "view_ok (snd (remove_node now i t))"
    using remove_leaf[OF ok q] file_kidless[OF ok f] by (simp add: erases_def)
  obtain m where m: "tget (vt_nodes t) i = Some m" "n = erase_time m" using n(2) nview_node by blast
  show "child (snd (remove_node now i t)) p s = (if p = dir \<and> s = nm then None else child t p s)"
    using child_remove[OF ok m(1)] n m file_kidless[OF ok f] by auto
  show "nview (snd (remove_node now i t)) j = (if j = i then None else nview t j)" by (rule nview_remove)
qed

lemma put_leaf:
  fixes c :: node_content and m now :: nat
  assumes ok: "view_ok t" and d: "nview t dir = Some dn" "is_dir dn" and free: "child t dir nm = None"
    and room: "vt_next t < FIRST_OVERLAY_INO"
  defines "u \<equiv> insert_node now (new_node (vt_next t) dir nm m c) (t\<lparr>vt_next := vt_next t + 1\<rparr>)"
  shows "view_ok u" "child u p s = (if p = dir \<and> s = nm then Some (vt_next t) else child t p s)"
    "nview u j = (if j = vt_next t then Some (erase_time (new_node (vt_next t) dir nm m c)) else nview t j)"
    "nview t (vt_next t) = None"
proof -
  let ?t = "t\<lparr>vt_next := vt_next t + 1\<rparr>" and ?n = "new_node (vt_next t) dir nm m c"
  have fresh: "nview t (vt_next t) = None" using ok room by (simp add: view_ok_def tables_ok_def)
  have tok: "view_ok ?t"
    using ok unfolding view_ok_def tables_ok_def links_ok_def by simp
  obtain q where q: "walk t ROOT_INO q = Some dir" using view_ok_reach[OF ok d(1)] by blast
  have kid: "tget (vt_children t) (vt_next t) = None" using ok fresh by (simp add: view_ok_def tables_ok_def)
  have neq: "vt_next t \<noteq> ROOT_INO" "vt_next t \<noteq> dir" using ok fresh d by (auto simp: view_ok_def)
  have p: "puts (q @ [nm]) (vt_next t) ?n ?t u"
    using insert_puts[OF tok, where n = ?n and q = q and now = now and d = dn] fresh q free d by (simp add: new_node_def u_def)
  then show "view_ok u" by (simp add: puts_def)
  show "child u p s = (if p = dir \<and> s = nm then Some (vt_next t) else child t p s)"
    using child_insert[of ?n ?t now p s] kid neq by (simp add: new_node_def u_def)
  show "nview u j = (if j = vt_next t then Some (erase_time ?n) else nview t j)"
    by (simp add: u_def nview_insert new_node_def)
  show "nview t (vt_next t) = None" by (rule fresh)
qed

lemma set_row_effect:
  assumes ok: "view_ok t" and f: "file_at t dir nm i" and c: "plain_row (d, c, m)"
  shows "view_ok (set_row i c m t)" "child (set_row i c m t) p s = child t p s"
    "j \<noteq> i \<Longrightarrow> nview (set_row i c m t) j = nview t j"
    "\<exists>n. nview (set_row i c m t) i = Some n \<and> n_content n = c \<and> \<not> is_dir n"
    "same_frame t (set_row i c m t)" "vt_next (set_row i c m t) = vt_next t"
proof -
  obtain n where n: "tget (vt_nodes t) i = Some n" "\<not> is_dir n"
    using f by (auto simp: file_at_def nview_node)
  let ?f = "\<lambda>n. n\<lparr>n_content := c, n_mtime := m\<rparr>"
  have nd: "\<not> is_dir (?f n)" using c by (auto simp: plain_row_def is_dir.simps split: node_content.splits)
  note u = upd_node_ok[OF ok n(1), of ?f] 
  show "view_ok (set_row i c m t)" "j \<noteq> i \<Longrightarrow> nview (set_row i c m t) j = nview t j"
    "same_frame t (set_row i c m t)" "vt_next (set_row i c m t) = vt_next t"
    using u ok n nd by (simp_all add: set_row_def)
  show "child (set_row i c m t) p s = child t p s"
    using n by (simp add: set_row_def upd_node_def child_def)
  show "\<exists>n. nview (set_row i c m t) i = Some n \<and> n_content n = c \<and> \<not> is_dir n"
    using u(3)[of i] n nd by (auto simp: set_row_def nview_def)
qed

section \<open>The contract of a binding\<close>

definition same_nodes :: "view \<Rightarrow> view \<Rightarrow> bool" where
  "same_nodes t u \<longleftrightarrow> vt_nodes u = vt_nodes t \<and> vt_children u = vt_children t \<and> vt_next u = vt_next t"

lemma same_nodes_view:
  assumes "same_nodes t u"
  shows "view_ok u = view_ok t" "child u p s = child t p s" "nview u i = nview t i" "vt_next u = vt_next t"
    "lookup_node u p s = lookup_node t p s"
  using assms view_ok_cong[of u t] by (auto simp: same_nodes_def child_def lookup_node_def)

definition row_kept ::
    "(view \<Rightarrow> nat \<Rightarrow> nat option) \<Rightarrow> (string, doc_row) table \<Rightarrow> view \<Rightarrow> string \<Rightarrow> nat \<Rightarrow> bool" where
  "row_kept shown rows t nm i \<longleftrightarrow> (\<exists>row. tget rows nm = Some row \<and> shown t i = Some (fst row))"

locale listing =
  fixes shown :: "view \<Rightarrow> nat \<Rightarrow> nat option" and drp :: "nat \<Rightarrow> view \<Rightarrow> view"
    and bnd :: "nat \<Rightarrow> nat \<Rightarrow> view \<Rightarrow> view" and good :: "view \<Rightarrow> bool" and now :: nat
  assumes drp_nodes: "same_nodes (snd (remove_node now i t)) (drp i t)"
    and drp_good: "good t \<Longrightarrow> good (drp i t)"
    and drp_shown: "good t \<Longrightarrow> j \<noteq> i \<Longrightarrow> shown (drp i t) j = shown t j"
    and bnd_nodes: "same_nodes t (bnd i d t)"
    and bnd_good: "good t \<Longrightarrow> i < vt_next t \<Longrightarrow> good (bnd i d t)"
    and bnd_shown: "good t \<Longrightarrow> shown t i = None \<Longrightarrow> shown (bnd i d t) i = Some d"
    and bnd_other: "good t \<Longrightarrow> j \<noteq> i \<Longrightarrow> shown t j \<noteq> Some d \<Longrightarrow> shown (bnd i d t) j = shown t j"
    and shown_frame: "vt_docs u = vt_docs t \<Longrightarrow> vt_ws u = vt_ws t \<Longrightarrow> shown u = shown t"
    and good_frame: "vt_docs u = vt_docs t \<Longrightarrow> vt_ws u = vt_ws t \<Longrightarrow> vt_next t \<le> vt_next u \<Longrightarrow> good t \<Longrightarrow> good u"
    and fresh: "good t \<Longrightarrow> vt_next t \<le> i \<Longrightarrow> i < FIRST_OVERLAY_INO \<Longrightarrow> shown t i = None"
begin

lemma drp_effect:
  assumes "view_ok t" "good t" "file_at t dir nm i"
  shows "view_ok (drp i t)" "good (drp i t)" "vt_next (drp i t) = vt_next t"
    "child (drp i t) p s = (if p = dir \<and> s = nm then None else child t p s)"
    "nview (drp i t) j = (if j = i then None else nview t j)"
    "j \<noteq> i \<Longrightarrow> shown (drp i t) j = shown t j"
  using same_nodes_view[OF drp_nodes[of i t]] drop_leaf[OF assms(1,3)] drp_good[OF assms(2)]
    drp_shown[OF assms(2)] by simp_all

lemma settle_one_effect:
  assumes ok: "view_ok t" "good t" "file_at t dir nm i" and pl: "\<forall>nm row. tget rows nm = Some row \<longrightarrow> plain_row row"
  defines "u \<equiv> settle_one shown drp rows nm i t"
  shows "view_ok u" "good u" "vt_next u = vt_next t"
    "p \<noteq> dir \<or> s \<noteq> nm \<Longrightarrow> child u p s = child t p s"
    "j \<noteq> i \<Longrightarrow> nview u j = nview t j" "j \<noteq> i \<Longrightarrow> shown u j = shown t j"
    "row_kept shown rows t nm i \<Longrightarrow> child u dir nm = Some i \<and> shown u i = shown t i \<and>
       (\<exists>n. nview u i = Some n \<and> \<not> is_dir n \<and> Some (n_content n) = map_option (fst \<circ> snd) (tget rows nm))"
    "\<not> row_kept shown rows t nm i \<Longrightarrow> child u dir nm = None"
proof -
  note d = drp_effect[OF ok]
  have c: "child t dir nm = Some i" using ok(3) by (simp add: file_at_def)
  have nk: "u = drp i t" if "\<not> row_kept shown rows t nm i"
    using that by (auto simp: row_kept_def u_def settle_one_def split: option.split)
  have k: "\<exists>e c m. tget rows nm = Some (e, c, m) \<and> plain_row (e, c, m) \<and> u = set_row i c m t \<and> shown u = shown t \<and> good u"
    if kp: "row_kept shown rows t nm i"
  proof -
    obtain e c m where r: "tget rows nm = Some (e, c, m)" "shown t i = Some e" using kp by (auto simp: row_kept_def)
    then have u: "u = set_row i c m t" by (simp add: u_def settle_one_def)
    have pr: "plain_row (e, c, m)" using pl r by blast
    have "shown u = shown t" "good u"
      using set_row_effect(5,6)[OF ok(1,3) pr] shown_frame[of u t] good_frame[of u t] ok(2)
      by (auto simp: u same_frame_def)
    then show ?thesis using r u pr by blast
  qed
  note s = set_row_effect[OF ok(1,3)]
  show "view_ok u" "good u" "vt_next u = vt_next t"
    "p \<noteq> dir \<or> s \<noteq> nm \<Longrightarrow> child u p s = child t p s"
    "j \<noteq> i \<Longrightarrow> nview u j = nview t j" "j \<noteq> i \<Longrightarrow> shown u j = shown t j"
    using k nk d s by (cases "row_kept shown rows t nm i"; force)+
  show "row_kept shown rows t nm i \<Longrightarrow> child u dir nm = Some i \<and> shown u i = shown t i \<and>
     (\<exists>n. nview u i = Some n \<and> \<not> is_dir n \<and> Some (n_content n) = map_option (fst \<circ> snd) (tget rows nm))"
    using k s(2,4) c by fastforce
  show "\<not> row_kept shown rows t nm i \<Longrightarrow> child u dir nm = None" using nk d by simp
qed

lemma settle_one_rest:
  assumes ok: "view_ok t" "good t" and xs: "distinct (map fst ((nm, i) # xs))"
    and f: "\<forall>(nm, i)\<in>set ((nm, i) # xs). file_at t dir nm i"
    and pl: "\<forall>nm row. tget rows nm = Some row \<longrightarrow> plain_row row" and m: "(s, j) \<in> set xs"
  defines "u \<equiv> settle_one shown drp rows nm i t"
  shows "j \<noteq> i" "s \<noteq> nm" "file_at u dir s j" "shown u j = shown t j"
proof -
  have f1: "file_at t dir nm i" and f2: "file_at t dir s j" using f m by auto
  note e = settle_one_effect[OF ok f1 pl, folded u_def]
  show n: "s \<noteq> nm" using xs m by force
  then show j: "j \<noteq> i" using child_inj[OF ok(1)] f1 f2 by (metis file_at_def)
  show "file_at u dir s j" using f2 e(4)[of dir s] e(5)[OF j] n by (simp add: file_at_def)
  show "shown u j = shown t j" using e(6)[OF j] .
qed

lemma settle_with_effect:
  assumes "view_ok t" "good t" "distinct (map fst xs)" "\<forall>(nm, i)\<in>set xs. file_at t dir nm i"
    and pl: "\<forall>nm row. tget rows nm = Some row \<longrightarrow> plain_row row"
  defines "u \<equiv> settle_with shown drp rows xs t"
  shows "view_ok u \<and> good u \<and> vt_next u = vt_next t
    \<and> (\<forall>p s. p \<noteq> dir \<or> s \<notin> fst ` set xs \<longrightarrow> child u p s = child t p s)
    \<and> (\<forall>j. j \<notin> snd ` set xs \<longrightarrow> nview u j = nview t j \<and> shown u j = shown t j)
    \<and> (\<forall>(nm, i)\<in>set xs. if row_kept shown rows t nm i
        then child u dir nm = Some i \<and> shown u i = shown t i
          \<and> (\<exists>n. nview u i = Some n \<and> \<not> is_dir n \<and> Some (n_content n) = map_option (fst \<circ> snd) (tget rows nm))
        else child u dir nm = None)"
  using assms(1-4) unfolding u_def
proof (induction xs arbitrary: t)
  case (Cons x xs)
  obtain nm i where x: "x = (nm, i)" by fastforce
  let ?v = "settle_one shown drp rows nm i t"
  let ?u = "settle_with shown drp rows xs ?v"
  have f: "file_at t dir nm i" using Cons.prems x by simp
  note e = settle_one_effect[OF Cons.prems(1,2) f pl]
  have new: "nm \<notin> fst ` set xs" using Cons.prems(3) x by simp
  note rest = settle_one_rest[OF Cons.prems(1,2) Cons.prems(3)[unfolded x] Cons.prems(4)[unfolded x] pl]
  note apart = rest(1)
  have fs: "\<forall>(s, j)\<in>set xs. file_at ?v dir s j" using rest(3) by blast
  have ih: "view_ok ?u \<and> good ?u \<and> vt_next ?u = vt_next ?v
    \<and> (\<forall>p s. p \<noteq> dir \<or> s \<notin> fst ` set xs \<longrightarrow> child ?u p s = child ?v p s)
    \<and> (\<forall>j. j \<notin> snd ` set xs \<longrightarrow> nview ?u j = nview ?v j \<and> shown ?u j = shown ?v j)
    \<and> (\<forall>(nm, i)\<in>set xs. if row_kept shown rows ?v nm i
        then child ?u dir nm = Some i \<and> shown ?u i = shown ?v i
          \<and> (\<exists>n. nview ?u i = Some n \<and> \<not> is_dir n \<and> Some (n_content n) = map_option (fst \<circ> snd) (tget rows nm))
        else child ?u dir nm = None)"
    by (rule Cons.IH) (use e Cons.prems fs in auto)
  have same: "row_kept shown rows ?v s j \<longleftrightarrow> row_kept shown rows t s j" "shown ?v j = shown t j" if "(s, j) \<in> set xs" for s j
    using e(6)[OF apart[OF that]] by (simp_all add: row_kept_def)
  have i: "i \<notin> snd ` set xs" using apart by force
  have hd: "if row_kept shown rows t nm i
        then child ?u dir nm = Some i \<and> shown ?u i = shown t i
          \<and> (\<exists>n. nview ?u i = Some n \<and> \<not> is_dir n \<and> Some (n_content n) = map_option (fst \<circ> snd) (tget rows nm))
        else child ?u dir nm = None"
    using ih e(7,8) new i by auto
  have tl: "\<forall>(nm, i)\<in>set xs. if row_kept shown rows t nm i
        then child ?u dir nm = Some i \<and> shown ?u i = shown t i
          \<and> (\<exists>n. nview ?u i = Some n \<and> \<not> is_dir n \<and> Some (n_content n) = map_option (fst \<circ> snd) (tget rows nm))
        else child ?u dir nm = None"
    using ih same by fastforce
  have fr: "\<forall>p s. p \<noteq> dir \<or> s \<notin> fst ` set (x # xs) \<longrightarrow> child ?u p s = child t p s"
    using ih e(4) x by auto
  have fj: "\<forall>j. j \<notin> snd ` set (x # xs) \<longrightarrow> nview ?u j = nview t j \<and> shown ?u j = shown t j"
    using ih e(5,6) x by auto
  have top: "view_ok ?u \<and> good ?u \<and> vt_next ?u = vt_next t" using ih e(3) by simp
  have step: "settle_with shown drp rows (x # xs) t = ?u" by (simp add: x)
  have rows: "\<forall>(nm, i)\<in>set (x # xs). if row_kept shown rows t nm i
        then child ?u dir nm = Some i \<and> shown ?u i = shown t i
          \<and> (\<exists>n. nview ?u i = Some n \<and> \<not> is_dir n \<and> Some (n_content n) = map_option (fst \<circ> snd) (tget rows nm))
        else child ?u dir nm = None"
    using hd tl unfolding x list.set ball_simps by simp
  show ?case unfolding step by (intro conjI; (rule fr fj rows | simp add: top))
qed simp

lemma add_one_effect:
  assumes ok: "view_ok t" "good t" and d: "nview t dir = Some dn" "is_dir dn" and free: "child t dir nm = None"
    and room: "vt_next t < FIRST_OVERLAY_INO" and pl: "plain_row (e, c, m)"
  defines "i \<equiv> vt_next t"
  defines "u \<equiv> bnd i e (insert_node now (new_node i dir nm m c) (t\<lparr>vt_next := i + 1\<rparr>))"
  shows "view_ok u" "good u" "vt_next u = vt_next t + 1"
    "child u p s = (if p = dir \<and> s = nm then Some i else child t p s)"
    "nview u j = (if j = i then Some (new_node i dir nm m c) else nview t j)"
    "nview t i = None" "shown u i = Some e" "j \<noteq> i \<Longrightarrow> shown t j \<noteq> Some e \<Longrightarrow> shown u j = shown t j"
proof -
  let ?v = "insert_node now (new_node i dir nm m c) (t\<lparr>vt_next := i + 1\<rparr>)"
  note v = put_leaf(1-3)[OF ok(1) d free room, where now = now and m = m and c = c, folded i_def]
    and v0 = put_leaf(4)[OF ok(1) d free room, folded i_def]
  note b = same_nodes_view[OF bnd_nodes[of ?v i e], folded u_def]
  have fr: "shown ?v = shown t" by (rule shown_frame) simp_all
  have g: "good ?v" by (rule good_frame[of _ t]) (simp_all add: ok i_def)
  have nd: "\<not> is_dir (new_node i dir nm m c)"
    using pl by (auto simp: plain_row_def is_dir.simps new_node_def split: node_content.splits)
  show "view_ok u" "child u p s = (if p = dir \<and> s = nm then Some i else child t p s)" "nview t i = None"
    using v v0 b by (simp_all add: i_def)
  show "nview u j = (if j = i then Some (new_node i dir nm m c) else nview t j)"
    using v b nd by (simp add: erase_time_def)
  show "good u" unfolding u_def by (rule bnd_good[OF g]) simp
  show "vt_next u = vt_next t + 1" using b by (simp add: i_def)
  have "shown ?v i = None" unfolding fr using fresh[OF ok(2), of i] room by (simp add: i_def)
  then show "shown u i = Some e" unfolding u_def by (rule bnd_shown[OF g])
  show "j \<noteq> i \<Longrightarrow> shown t j \<noteq> Some e \<Longrightarrow> shown u j = shown t j"
    unfolding u_def using bnd_other[OF g, of j i e] unfolding fr by simp
qed

lemma add_with_effect:
  assumes "view_ok t" "good t" "nview t dir = Some dn" "is_dir dn"
    "distinct (map fst ys)" "distinct (map (fst \<circ> snd) ys)" "\<forall>(nm, row)\<in>set ys. plain_row row"
    "vt_next t + length ys \<le> FIRST_OVERLAY_INO"
  defines "u \<equiv> add_with bnd now dir ys t"
  shows "view_ok u \<and> good u
    \<and> (\<forall>p s. p \<noteq> dir \<or> s \<notin> fst ` set ys \<or> child t p s \<noteq> None \<longrightarrow> child u p s = child t p s)
    \<and> (\<forall>j. nview t j \<noteq> None \<longrightarrow> nview u j = nview t j)
    \<and> (\<forall>j. nview t j \<noteq> None \<longrightarrow> (\<forall>(nm, e, _)\<in>set ys. child t dir nm = None \<longrightarrow> shown t j \<noteq> Some e)
         \<longrightarrow> shown u j = shown t j)
    \<and> (\<forall>(nm, e, c, _)\<in>set ys. child t dir nm = None \<longrightarrow>
         (\<exists>i n. child u dir nm = Some i \<and> shown u i = Some e \<and> nview u i = Some n \<and> n_content n = c))"
  using assms(1-8) unfolding u_def
proof (induction ys arbitrary: t)
  case (Cons y ys)
  obtain nm e c m where y: "y = (nm, e, c, m)" by (metis prod.exhaust)
  show ?case
  proof (cases "child t dir nm")
    case (Some i0)
    have l: "lookup_node t dir nm \<noteq> None" using lookup_node_None[OF Cons.prems(1)] Some by simp
    let ?u = "add_with bnd now dir ys t"
    have ih: "view_ok ?u \<and> good ?u
      \<and> (\<forall>p s. p \<noteq> dir \<or> s \<notin> fst ` set ys \<or> child t p s \<noteq> None \<longrightarrow> child ?u p s = child t p s)
      \<and> (\<forall>j. nview t j \<noteq> None \<longrightarrow> nview ?u j = nview t j)
      \<and> (\<forall>j. nview t j \<noteq> None \<longrightarrow> (\<forall>(nm, e, _)\<in>set ys. child t dir nm = None \<longrightarrow> shown t j \<noteq> Some e)
           \<longrightarrow> shown ?u j = shown t j)
      \<and> (\<forall>(nm, e, c, _)\<in>set ys. child t dir nm = None \<longrightarrow>
           (\<exists>i n. child ?u dir nm = Some i \<and> shown ?u i = Some e \<and> nview ?u i = Some n \<and> n_content n = c))"
      by (rule Cons.IH) (use Cons.prems y in simp_all)
    have C: "\<forall>p s. p \<noteq> dir \<or> s \<notin> fst ` set (y # ys) \<or> child t p s \<noteq> None \<longrightarrow> child ?u p s = child t p s"
      using ih by (auto simp: y)
    have step: "add_with bnd now dir (y # ys) t = ?u" using l by (simp add: y)
    show ?thesis unfolding step using ih C Some by (auto simp: y)
  next
    case None
    let ?i = "vt_next t"
    let ?v = "bnd ?i e (insert_node now (new_node ?i dir nm m c) (t\<lparr>vt_next := ?i + 1\<rparr>))"
    let ?u = "add_with bnd now dir ys ?v"
    have l: "lookup_node t dir nm = None" using lookup_node_None[OF Cons.prems(1)] None by simp
    have pl: "plain_row (e, c, m)" and room: "vt_next t < FIRST_OVERLAY_INO"
      using Cons.prems(7,8) y by auto
    note v = add_one_effect[OF Cons.prems(1-4) None room pl]
    have dirv: "nview ?v dir = Some dn" using v(5)[of dir] v(6) Cons.prems(3) by auto
    have ih: "view_ok ?u \<and> good ?u
      \<and> (\<forall>p s. p \<noteq> dir \<or> s \<notin> fst ` set ys \<or> child ?v p s \<noteq> None \<longrightarrow> child ?u p s = child ?v p s)
      \<and> (\<forall>j. nview ?v j \<noteq> None \<longrightarrow> nview ?u j = nview ?v j)
      \<and> (\<forall>j. nview ?v j \<noteq> None \<longrightarrow> (\<forall>(nm, e, _)\<in>set ys. child ?v dir nm = None \<longrightarrow> shown ?v j \<noteq> Some e)
           \<longrightarrow> shown ?u j = shown ?v j)
      \<and> (\<forall>(nm, e, c, _)\<in>set ys. child ?v dir nm = None \<longrightarrow>
           (\<exists>i n. child ?u dir nm = Some i \<and> shown ?u i = Some e \<and> nview ?u i = Some n \<and> n_content n = c))"
      by (rule Cons.IH) (use Cons.prems y v dirv in simp_all)
    have step: "add_with bnd now dir (y # ys) t = ?u" using l by (simp add: y)
    have nv: "nview ?v j = nview t j" if "nview t j \<noteq> None" for j using that v(5)[of j] v(6) by auto
    have C: "\<forall>p s. p \<noteq> dir \<or> s \<notin> fst ` set (y # ys) \<or> child t p s \<noteq> None \<longrightarrow> child ?u p s = child t p s"
      using ih v(4) None by (auto simp: y)
    have iC: "\<And>p s. p \<noteq> dir \<or> s \<notin> fst ` set ys \<or> child ?v p s \<noteq> None \<Longrightarrow> child ?u p s = child ?v p s"
      and iN: "\<And>j. nview ?v j \<noteq> None \<Longrightarrow> nview ?u j = nview ?v j"
      and iS: "\<And>j. nview ?v j \<noteq> None \<Longrightarrow> \<forall>(nm, e, _)\<in>set ys. child ?v dir nm = None \<longrightarrow> shown ?v j \<noteq> Some e
        \<Longrightarrow> shown ?u j = shown ?v j"
      and vg: "view_ok ?u" "good ?u"
      using ih by blast+
    have N: "\<forall>j. nview t j \<noteq> None \<longrightarrow> nview ?u j = nview t j" using iN nv by simp
    have S: "shown ?u j = shown t j" if a: "nview t j \<noteq> None"
      "\<forall>(nm, e, _)\<in>set (y # ys). child t dir nm = None \<longrightarrow> shown t j \<noteq> Some e" for j
    proof -
      have ne: "j \<noteq> ?i" using a(1) v(6) by auto
      have "shown t j \<noteq> Some e" using a(2) None by (simp add: y)
      then have sv: "shown ?v j = shown t j" using v(8)[OF ne] by simp
      have "\<forall>(s, e', _)\<in>set ys. child ?v dir s = None \<longrightarrow> shown ?v j \<noteq> Some e'"
      proof clarify
        fix s e' c' m' assume b: "(s, e', c', m') \<in> set ys" "child ?v dir s = None" "shown ?v j = Some e'"
        have "child t dir s = None" using b(2) v(4)[of dir s] by (simp split: if_splits)
        then show False using a(2) b(1,3) sv by fastforce
      qed
      then show ?thesis using iS[of j] sv nv[OF a(1)] a(1) by simp
    qed
    have hd: "\<exists>i n. child ?u dir nm = Some i \<and> shown ?u i = Some e \<and> nview ?u i = Some n \<and> n_content n = c"
    proof -
      have "nview ?v ?i = Some (new_node ?i dir nm m c)" "shown ?v ?i = Some e" using v by simp_all
      moreover have "\<forall>(s, e', _)\<in>set ys. child ?v dir s = None \<longrightarrow> Some e \<noteq> Some e'"
        using Cons.prems(6) by (force simp: y)
      ultimately have "nview ?u ?i = Some (new_node ?i dir nm m c)" "shown ?u ?i = Some e"
        using iN[of ?i] iS[of ?i] by simp_all
      moreover have "child ?u dir nm = Some ?i" using iC[of dir nm] v(4)[of dir nm] by simp
      ultimately show ?thesis by (simp add: new_node_def)
    qed
    have tl: "\<forall>(s, e', c', _)\<in>set ys. child t dir s = None \<longrightarrow>
         (\<exists>i n. child ?u dir s = Some i \<and> shown ?u i = Some e' \<and> nview ?u i = Some n \<and> n_content n = c')"
    proof clarify
      fix s e' c' m' assume a: "(s, e', c', m') \<in> set ys" "child t dir s = None"
      have "s \<noteq> nm" using Cons.prems(5) a(1) by (force simp: y)
      then have "child ?v dir s = None" using v(4) a(2) by simp
      then show "\<exists>i n. child ?u dir s = Some i \<and> shown ?u i = Some e' \<and> nview ?u i = Some n \<and> n_content n = c'"
        using ih a(1) by fastforce
    qed
    have rows: "\<forall>(nm, e, c, _)\<in>set (y # ys). child t dir nm = None \<longrightarrow>
         (\<exists>i n. child ?u dir nm = Some i \<and> shown ?u i = Some e \<and> nview ?u i = Some n \<and> n_content n = c)"
      using hd tl unfolding y list.set ball_simps by simp
    have S': "\<forall>j. nview t j \<noteq> None \<longrightarrow>
        (\<forall>(nm, e, _)\<in>set (y # ys). child t dir nm = None \<longrightarrow> shown t j \<noteq> Some e) \<longrightarrow> shown ?u j = shown t j"
      by (intro allI impI) (rule S)
    show ?thesis unfolding step by (intro conjI; rule vg C N S' rows)
  qed
qed auto

text \<open>Settling, then adding, leaves exactly the wanted rows; entries outside the settled list
  keep their names and hide the row of the same name.\<close>

lemma refresh_exact:
  assumes ok: "view_ok t" "good t" and dir: "nview t dir = Some dn" "is_dir dn"
    and xs: "distinct (map fst xs)" "\<forall>(nm, i)\<in>set xs. file_at t dir nm i"
    and rows: "tsorted rows" "distinct (map (fst \<circ> snd) rows)" "\<forall>(nm, row)\<in>set rows. plain_row row"
    and room: "vt_next t + length rows \<le> FIRST_OVERLAY_INO"
  defines "u \<equiv> add_with bnd now dir rows (settle_with shown drp rows xs t)"
  shows "view_ok u" "good u" "p \<noteq> dir \<Longrightarrow> child u p s = child t p s"
    "child t dir nm \<noteq> None \<Longrightarrow> nm \<notin> fst ` set xs \<Longrightarrow> child u dir nm = child t dir nm"
    "child t dir nm = None \<or> nm \<in> fst ` set xs \<Longrightarrow> row_of shown u dir nm = wanted_row rows nm"
    "child t dir nm = None \<or> nm \<in> fst ` set xs \<Longrightarrow> child u dir nm = None \<longleftrightarrow> tget rows nm = None"
proof -
  let ?v = "settle_with shown drp rows xs t"
  have pl: "\<forall>nm row. tget rows nm = Some row \<longrightarrow> plain_row row"
    using rows(3) by (auto dest: map_of_SomeD)
  have v: "view_ok ?v" "good ?v" "vt_next ?v = vt_next t"
    "\<And>p s. p \<noteq> dir \<or> s \<notin> fst ` set xs \<Longrightarrow> child ?v p s = child t p s"
    "\<And>j. j \<notin> snd ` set xs \<Longrightarrow> nview ?v j = nview t j \<and> shown ?v j = shown t j"
    and vx: "\<And>nm i. (nm, i) \<in> set xs \<Longrightarrow> if row_kept shown rows t nm i
        then child ?v dir nm = Some i \<and> shown ?v i = shown t i
          \<and> (\<exists>n. nview ?v i = Some n \<and> \<not> is_dir n \<and> Some (n_content n) = map_option (fst \<circ> snd) (tget rows nm))
        else child ?v dir nm = None"
    using settle_with_effect[OF ok xs pl] by auto
  have "dir \<notin> snd ` set xs" using xs(2) dir by (force simp: file_at_def)
  then have dv: "nview ?v dir = Some dn" using v(5) dir by simp
  have dist: "distinct (map fst rows)" using rows(1) by (rule tsorted_distinct)
  have u: "view_ok u" "good u"
    "\<And>p s. p \<noteq> dir \<or> s \<notin> fst ` set rows \<or> child ?v p s \<noteq> None \<Longrightarrow> child u p s = child ?v p s"
    "\<And>j. nview ?v j \<noteq> None \<Longrightarrow> nview u j = nview ?v j"
    "\<And>j. nview ?v j \<noteq> None \<Longrightarrow> \<forall>(nm, e, _)\<in>set rows. child ?v dir nm = None \<longrightarrow> shown ?v j \<noteq> Some e \<Longrightarrow>
       shown u j = shown ?v j"
    and un: "\<And>nm e c m. (nm, e, c, m) \<in> set rows \<Longrightarrow> child ?v dir nm = None \<Longrightarrow>
       (\<exists>i n. child u dir nm = Some i \<and> shown u i = Some e \<and> nview u i = Some n \<and> n_content n = c)"
    using add_with_effect[OF v(1,2) dv dir(2) dist rows(2,3)] room v(3) unfolding u_def by auto
  show "view_ok u" "good u" by (rule u)+
  show "p \<noteq> dir \<Longrightarrow> child u p s = child t p s" using u(3) v(4) by simp
  show "child t dir nm \<noteq> None \<Longrightarrow> nm \<notin> fst ` set xs \<Longrightarrow> child u dir nm = child t dir nm"
    using u(3)[of dir nm] v(4)[of dir nm] by simp
  have main: "row_of shown u dir nm = wanted_row rows nm \<and> (child u dir nm = None \<longleftrightarrow> tget rows nm = None)"
    if a: "child t dir nm = None \<or> nm \<in> fst ` set xs"
  proof (cases "child ?v dir nm")
    case None
    show ?thesis
    proof (cases "tget rows nm")
      case None
      then have "nm \<notin> fst ` set rows" by (simp add: map_of_eq_None_iff)
      then show ?thesis using u(3) \<open>child ?v dir nm = None\<close> None by (simp add: row_of_def wanted_row_def)
    next
      case (Some row)
      obtain e c m where r: "row = (e, c, m)" by (metis prod.exhaust)
      have "(nm, e, c, m) \<in> set rows" using Some r by (auto dest: map_of_SomeD)
      then obtain i n where "child u dir nm = Some i" "shown u i = Some e" "nview u i = Some n" "n_content n = c"
        using un \<open>child ?v dir nm = None\<close> by blast
      then show ?thesis using Some r by (simp add: row_of_def wanted_row_def)
    qed
  next
    case (Some i)
    have nx: "nm \<in> fst ` set xs" using a Some v(4)[of dir nm] by (cases "nm \<in> fst ` set xs") auto
    then obtain j where j: "(nm, j) \<in> set xs" by auto
    have k: "row_kept shown rows t nm j" "j = i" "shown ?v i = shown t i"
      "\<exists>n. nview ?v i = Some n \<and> Some (n_content n) = map_option (fst \<circ> snd) (tget rows nm)"
      using vx[OF j] Some by (auto split: if_splits)
    obtain e c m n where r: "tget rows nm = Some (e, c, m)" "shown t i = Some e" "nview ?v i = Some n" "n_content n = c"
      using k by (auto simp: row_kept_def)
    have "shown u i = shown ?v i"
    proof (rule u(5))
      show "nview ?v i \<noteq> None" using r by simp
      show "\<forall>(s, e', _)\<in>set rows. child ?v dir s = None \<longrightarrow> shown ?v i \<noteq> Some e'"
      proof clarify
        fix s e' c' m' assume b: "(s, e', c', m') \<in> set rows" "child ?v dir s = None" "shown ?v i = Some e'"
        have "e' = e" using b k r by simp
        moreover have "(nm, e, c, m) \<in> set rows" using r by (auto dest: map_of_SomeD)
        ultimately have "(s, e', c', m') = (nm, e, c, m)"
          using b(1) rows(2) inj_onD[of "fst \<circ> snd" "set rows" "(s, e', c', m')" "(nm, e, c, m)"]
          by (simp add: distinct_map)
        then have "s = nm" by simp
        then show False using b Some by simp
      qed
    qed
    moreover have "nview u i = Some n" "child u dir nm = Some i" using u(3,4) r Some by auto
    ultimately show ?thesis using r k by (simp add: row_of_def wanted_row_def)
  qed
  show "child t dir nm = None \<or> nm \<in> fst ` set xs \<Longrightarrow> row_of shown u dir nm = wanted_row rows nm"
    "child t dir nm = None \<or> nm \<in> fst ` set xs \<Longrightarrow> child u dir nm = None \<longleftrightarrow> tget rows nm = None"
    using main by simp_all
qed

end

section \<open>Trees\<close>

definition files_known :: "view \<Rightarrow> bool" where
  "files_known t \<longleftrightarrow> (\<exists>w. vt_ws t = Some w
     \<and> (\<forall>i. tget (ws_files w) i \<noteq> None \<longrightarrow> i < vt_next t \<or> FIRST_OVERLAY_INO \<le> i))"

definition bind_file :: "string \<Rightarrow> string \<Rightarrow> nat \<Rightarrow> nat \<Rightarrow> view \<Rightarrow> view" where
  "bind_file tree path i d = upd_ws (\<lambda>w. w\<lparr>ws_files := tput i \<lparr>wf_tree = tree, wf_path = path, wf_doc = d\<rparr> (ws_files w)\<rparr>)"

interpretation tree_files: listing shown_doc "drop_file now" "bind_file tree path" files_known now for now tree path
proof
  fix t i j d u
  show "same_nodes (snd (remove_node now i t)) (drop_file now i t)" "same_nodes t (bind_file tree path i d t)"
    by (simp_all add: drop_file_def bind_file_def upd_ws_def same_nodes_def)
  show "files_known t \<Longrightarrow> files_known (drop_file now i t)"
    by (auto simp: files_known_def drop_file_def upd_ws_def)
  show "files_known t \<Longrightarrow> j \<noteq> i \<Longrightarrow> shown_doc (drop_file now i t) j = shown_doc t j"
    by (auto simp: shown_doc_def drop_file_def upd_ws_def files_known_def)
  show "files_known t \<Longrightarrow> i < vt_next t \<Longrightarrow> files_known (bind_file tree path i d t)"
    by (auto simp: files_known_def bind_file_def upd_ws_def)
  show "files_known t \<Longrightarrow> shown_doc t i = None \<Longrightarrow> shown_doc (bind_file tree path i d t) i = Some d"
    "files_known t \<Longrightarrow> j \<noteq> i \<Longrightarrow> shown_doc t j \<noteq> Some d \<Longrightarrow> shown_doc (bind_file tree path i d t) j = shown_doc t j"
    by (auto simp: files_known_def bind_file_def upd_ws_def shown_doc_def)
  show "vt_docs u = vt_docs t \<Longrightarrow> vt_ws u = vt_ws t \<Longrightarrow> shown_doc u = shown_doc t"
    by (simp add: shown_doc_def fun_eq_iff)
  show "vt_docs u = vt_docs t \<Longrightarrow> vt_ws u = vt_ws t \<Longrightarrow> vt_next t \<le> vt_next u \<Longrightarrow> files_known t \<Longrightarrow> files_known u"
    by (auto simp: files_known_def dest: less_le_trans)
  show "files_known t \<Longrightarrow> vt_next t \<le> i \<Longrightarrow> i < FIRST_OVERLAY_INO \<Longrightarrow> shown_doc t i = None"
    unfolding files_known_def shown_doc_def by (metis bind.bind_lunit linorder_not_less map_option_is_None)
qed

lemma settle_files_with:
  "settle_files now dir rows xs (t, v, b) = Some (t', v', b') \<Longrightarrow> t' = settle_with shown_doc (drop_file now) rows xs t"
proof (induction xs arbitrary: t v b)
  case (Cons x xs)
  obtain nm i where x: "x = (nm, i)" by fastforce
  show ?case using Cons.prems
    by (auto simp: x settle_one_def set_row_def split: option.splits prod.splits if_splits dest!: Cons.IH)
qed simp

lemma settle_files_some:
  assumes "view_ok t" "files_known t" "distinct (map fst xs)" "\<forall>(nm, i)\<in>set xs. file_at t dir nm i"
    and pl: "\<forall>nm row. tget rows nm = Some row \<longrightarrow> plain_row row"
  shows "\<exists>v' b'. settle_files now dir rows xs (t, v, b) = Some (settle_with shown_doc (drop_file now) rows xs t, v', b')"
  using assms(1-4)
proof (induction xs arbitrary: t v b)
  case (Cons x xs)
  obtain nm i where x: "x = (nm, i)" by fastforce
  let ?u = "settle_one shown_doc (drop_file now) rows nm i t"
  have f: "file_at t dir nm i" using Cons.prems x by simp
  note e = tree_files.settle_one_effect[where now = now, OF Cons.prems(1,2) f pl]
  have rest: "\<forall>(s, j)\<in>set xs. file_at ?u dir s j"
    using tree_files.settle_one_rest(3)[OF Cons.prems(1,2) Cons.prems(3)[unfolded x] Cons.prems(4)[unfolded x] pl] by blast
  have ih: "\<exists>v' b'. settle_files now dir rows xs (?u, v, b) = Some (settle_with shown_doc (drop_file now) rows xs ?u, v', b')" for v b
    by (rule Cons.IH) (use e Cons.prems rest x in auto)
  obtain n where n: "tget (vt_nodes t) i = Some n" using f by (auto simp: file_at_def nview_node)
  show ?case using ih n
    by (auto simp: x settle_one_def set_row_def split: option.splits prod.splits if_splits)
qed simp

lemma add_files_with: "fst (add_files now dir tree path rows (t, v, b)) = add_with (bind_file tree path) now dir rows t"
proof (induction rows arbitrary: t v b)
  case (Cons r rows)
  show ?case by (cases r) (simp add: Cons.IH alloc_ino_def bind_file_def Let_def)
qed simp

text \<open>The wanted rows: one per document, in name order, no directories.\<close>

lemma plain_content: "plain_row (i, node_content_of x ws d c, m)"
  by (simp add: plain_row_def node_content_of_def split: content.split option.split)

lemma tput_rows: "set (tput k v t) \<subseteq> insert (k, v) (set t)" "length (tput k v t) \<le> Suc (length t)"
  by (induction k v t rule: tput.induct) auto

lemma tput_distinct_docs:
  assumes "distinct (map (fst \<circ> snd) rows)" "fst row \<notin> (fst \<circ> snd) ` set rows"
  shows "distinct (map (fst \<circ> snd) (tput nm row rows))"
  using assms
proof (induction rows)
  case (Cons r rows)
  obtain a b where r: "r = (a, b)" by (cases r)
  have sub: "(fst \<circ> snd) ` set (tput nm row rows) \<subseteq> insert (fst row) ((fst \<circ> snd) ` set rows)"
    using tput_rows(1)[of nm row rows] by force
  have "fst b \<notin> (fst \<circ> snd) ` set (tput nm row rows)" using sub Cons.prems r by auto
  then show ?case using Cons r by auto
qed simp

lemma disjoint_one_more: "A \<subseteq> insert a B \<Longrightarrow> a \<notin> C \<Longrightarrow> C \<inter> B = {} \<Longrightarrow> C \<inter> A = {}"
  by blast

lemma desired_docs_facts:
  assumes "desired_docs x ws ds taken rows = Some out" "tsorted rows" "distinct (map (fst \<circ> snd) rows)"
    "\<forall>(nm, row)\<in>set rows. plain_row row" "distinct (map d_id ds)" "d_id ` set ds \<inter> (fst \<circ> snd) ` set rows = {}"
  shows "tsorted out \<and> distinct (map (fst \<circ> snd) out) \<and> (\<forall>(nm, row)\<in>set out. plain_row row)
    \<and> length out \<le> length rows + length ds"
  using assms
proof (induction ds arbitrary: taken rows)
  case (Cons d ds)
  obtain base where b: "doc_name x d = Some base" using Cons.prems(1) by (cases "doc_name x d") auto
  let ?nm = "free_name taken base (d_id d)"
  let ?row = "(d_id d, node_content_of x (Some ws) d (content_of x d), d_updated d)"
  let ?rows = "tput ?nm ?row rows"
  have sub: "set ?rows \<subseteq> insert (?nm, ?row) (set rows)" by (rule tput_rows)
  have pl: "\<forall>(nm, row)\<in>set ?rows. plain_row row" using sub Cons.prems(4) plain_content by blast
  have di: "distinct (map (fst \<circ> snd) ?rows)" by (rule tput_distinct_docs[OF Cons.prems(3)]) (use Cons.prems(6) in auto)
  have fr: "d_id ` set ds \<inter> (fst \<circ> snd) ` set ?rows = {}"
  proof -
    have "(fst \<circ> snd) ` set ?rows \<subseteq> (fst \<circ> snd) ` insert (?nm, ?row) (set rows)"
      using sub by (rule image_mono)
    then have "(fst \<circ> snd) ` set ?rows \<subseteq> insert (d_id d) ((fst \<circ> snd) ` set rows)"
      unfolding image_insert o_apply fst_conv snd_conv .
    moreover have "d_id d \<notin> d_id ` set ds" using Cons.prems(5) by simp
    moreover have "d_id ` set ds \<inter> (fst \<circ> snd) ` set rows = {}" using Cons.prems(6) by simp
    ultimately show ?thesis by (rule disjoint_one_more)
  qed
  have len: "length ?rows \<le> Suc (length rows)" by (rule tput_rows)
  have eq: "desired_docs x ws ds (insert ?nm taken) ?rows = Some out" using Cons.prems(1) b by (simp add: Let_def)
  have "tsorted out \<and> distinct (map (fst \<circ> snd) out) \<and> (\<forall>(nm, row)\<in>set out. plain_row row)
    \<and> length out \<le> length ?rows + length ds"
    by (rule Cons.IH[OF eq _ di pl _ fr]) (use Cons.prems(2,5) in simp_all)
  then show ?case using len by (simp add: comp_def)
qed simp

definition subfolder :: "(view \<Rightarrow> nat \<Rightarrow> nat option) \<Rightarrow> view \<Rightarrow> nat \<Rightarrow> string \<Rightarrow> bool" where
  "subfolder shown t dir nm \<longleftrightarrow> (\<exists>i. child t dir nm = Some i \<and> shown t i = None)"

definition lists :: "(view \<Rightarrow> nat \<Rightarrow> nat option) \<Rightarrow> (string, doc_row) table \<Rightarrow> nat \<Rightarrow> view \<Rightarrow> view \<Rightarrow> bool" where
  "lists shown rows dir t u \<longleftrightarrow> (\<forall>nm.
     if subfolder shown t dir nm then child u dir nm = child t dir nm
     else row_of shown u dir nm = wanted_row rows nm \<and> (child u dir nm = None \<longleftrightarrow> tget rows nm = None))"

lemma doc_files_facts:
  assumes ok: "view_ok t" and w: "vt_ws t = Some w"
    and files: "\<forall>nm i. child t dir nm = Some i \<and> shown_doc t i \<noteq> None \<longrightarrow> (\<exists>n. nview t i = Some n \<and> \<not> is_dir n)"
  shows "distinct (map fst (doc_files t w dir))" "\<forall>(nm, i)\<in>set (doc_files t w dir). file_at t dir nm i"
    "nm \<in> fst ` set (doc_files t w dir) \<longleftrightarrow> child t dir nm \<noteq> None \<and> \<not> subfolder shown_doc t dir nm"
proof -
  have sh: "shown_doc t i = None \<longleftrightarrow> tget (ws_files w) i = None" for i by (simp add: shown_doc_def w)
  have m: "(nm, i) \<in> set (doc_files t w dir) \<longleftrightarrow> child t dir nm = Some i \<and> shown_doc t i \<noteq> None" for nm i
    unfolding sh by (auto simp: doc_files_def kids_child[OF ok])
  show "distinct (map fst (doc_files t w dir))"
    using kids_distinct[OF ok] by (auto simp: doc_files_def distinct_map_filter)
  show "\<forall>(nm, i)\<in>set (doc_files t w dir). file_at t dir nm i" using files m by (auto simp: file_at_def)
  show "nm \<in> fst ` set (doc_files t w dir) \<longleftrightarrow> child t dir nm \<noteq> None \<and> \<not> subfolder shown_doc t dir nm"
    using m by (force simp: subfolder_def)
qed

lemma touch_node_effect:
  assumes "view_ok t"
  shows "view_ok (touch_node now i t)" "child (touch_node now i t) p s = child t p s"
    "files_known (touch_node now i t) = files_known t" "row_of shown_doc (touch_node now i t) p s = row_of shown_doc t p s"
proof -
  have c: "child (touch_node now i t) p s = child t p s" for p s
    by (simp add: touch_node_def upd_node_def child_def split: option.split)
  have k: "vt_ws (touch_node now i t) = vt_ws t" "vt_next (touch_node now i t) = vt_next t"
    by (simp_all add: touch_node_def upd_node_def split: option.split)
  have n: "view_ok (touch_node now i t) \<and> map_option n_content (nview (touch_node now i t) j) = map_option n_content (nview t j)" for j
  proof (cases "tget (vt_nodes t) i")
    case (Some m)
    show ?thesis using upd_node_ok(1,3)[OF assms Some, of "\<lambda>n. n\<lparr>n_mtime := now\<rparr>"] Some
      by (simp add: touch_node_def is_dir.simps nview_def)
  qed (simp add: touch_node_def upd_node_def assms)
  have r: "row_of shown_doc u p s = Option.bind (child u p s) (\<lambda>i. Option.bind (shown_doc u i) (\<lambda>d.
     map_option (Pair d) (map_option n_content (nview u i))))" for u
    by (simp add: row_of_def option.map_comp comp_def)
  show "view_ok (touch_node now i t)" "child (touch_node now i t) p s = child t p s" using n c by blast+
  show "files_known (touch_node now i t) = files_known t" by (simp add: files_known_def k)
  show "row_of shown_doc (touch_node now i t) p s = row_of shown_doc t p s"
    unfolding r using n c k by (simp add: shown_doc_def)
qed

text \<open>C19: refreshing a tree directory never panics on a well-formed view, keeps it well-formed,
  changes no other directory, leaves the subfolders alone (a document whose name is taken by a
  subfolder stays hidden), and otherwise lists exactly the wanted rows: each name with its
  document and content, and nothing else.\<close>

theorem tree_listing_exact:
  assumes ok: "view_ok t" "files_known t" and w: "vt_ws t = Some w" "tget (ws_paths w) (tree, norm_path path) = Some dir"
    and dir: "nview t dir = Some dn" "is_dir dn"
    and files: "\<forall>nm i. child t dir nm = Some i \<and> shown_doc t i \<noteq> None \<longrightarrow> (\<exists>n. nview t i = Some n \<and> \<not> is_dir n)"
    and ids: "distinct (map d_id docs)" and room: "vt_next t + length docs \<le> FIRST_OVERLAY_INO"
    and rows: "desired_docs x (ws_id w) (by_placement docs) {} [] = Some rows"
  shows "\<exists>u v. apply_tree_documents x now tree path docs t = Some (u, v) \<and> view_ok u \<and> files_known u
    \<and> lists shown_doc rows dir t u \<and> (\<forall>p nm. p \<noteq> dir \<longrightarrow> child u p nm = child t p nm)"
proof -
  let ?xs = "doc_files t w dir" and ?path = "norm_path path"
  let ?s = "settle_with shown_doc (drop_file now) rows ?xs t"
  let ?u = "add_with (bind_file tree ?path) now dir rows ?s"
  have di: "distinct (map d_id (by_placement docs))"
    using ids by (simp add: by_placement_def distinct_map) 
  have r: "tsorted rows" "distinct (map (fst \<circ> snd) rows)" "\<forall>(nm, row)\<in>set rows. plain_row row"
    "length rows \<le> length docs"
    using desired_docs_facts[OF rows _ _ _ di] by (simp_all add: by_placement_def)
  have pl: "\<forall>nm row. tget rows nm = Some row \<longrightarrow> plain_row row" using r(3) by (auto dest: map_of_SomeD)
  note xs = doc_files_facts[OF ok(1) w(1) files]
  have room': "vt_next t + length rows \<le> FIRST_OVERLAY_INO" using room r(4) by simp
  note e = tree_files.refresh_exact[where tree = tree and path = ?path and now = now,
      OF ok dir xs(1,2) r(1-3) room']
  obtain v b where st: "settle_files now dir rows ?xs (t, inv0, False) = Some (?s, v, b)"
    using settle_files_some[OF ok xs(1,2) pl] by blast
  obtain v' b' where ad: "add_files now dir tree ?path rows (?s, v, b) = (?u, v', b')"
    using add_files_with[of now dir tree ?path rows ?s v b] by (metis prod.collapse fst_conv)
  define u where "u = (if b' then touch_node now dir ?u else ?u)"
  have ap: "\<exists>v. apply_tree_documents x now tree path docs t = Some (u, v)"
    using w rows st ad by (auto simp: apply_tree_documents_def u_def)
  have u: "view_ok u" "files_known u" "child u p s = child ?u p s" "row_of shown_doc u p s = row_of shown_doc ?u p s" for p s
    using touch_node_effect[OF e(1)] e(1,2) by (simp_all add: u_def)
  have "lists shown_doc rows dir t u"
    unfolding lists_def
  proof
    fix nm
    show "if subfolder shown_doc t dir nm then child u dir nm = child t dir nm
      else row_of shown_doc u dir nm = wanted_row rows nm \<and> (child u dir nm = None \<longleftrightarrow> tget rows nm = None)"
    proof (cases "subfolder shown_doc t dir nm")
      case True
      then show ?thesis using e(4)[of nm] xs(3)[of nm] u(3) by (auto simp: subfolder_def)
    next
      case False
      then have "child t dir nm = None \<or> nm \<in> fst ` set ?xs" using xs(3) by blast
      then show ?thesis using e(5,6)[of nm] False u(3,4) by simp
    qed
  qed
  then show ?thesis using ap u e(3) by auto
qed

section \<open>Contexts\<close>

definition doc_of :: "view \<Rightarrow> nat \<Rightarrow> nat option" where
  "doc_of t i = map_option snd (doc_for_ino t i)"

definition docs_known :: "view \<Rightarrow> bool" where
  "docs_known t \<longleftrightarrow> (\<forall>i\<in>snd ` set (vt_docs t). i < vt_next t \<or> FIRST_OVERLAY_INO \<le> i)"

lemma find_tput: "j \<noteq> i \<Longrightarrow> find (\<lambda>(_, v). v = j) xs \<noteq> Some (k, j) \<Longrightarrow>
    find (\<lambda>(_, v). v = j) (tput k i xs) = find (\<lambda>(_, v). v = j) xs"
  by (induction k i xs rule: tput.induct) (auto split: if_splits)

lemma find_tput_new: "i \<notin> snd ` set xs \<Longrightarrow> find (\<lambda>(_, v). v = i) (tput k i xs) = Some (k, i)"
  by (induction k i xs rule: tput.induct) auto

lemma find_filter_other: "j \<noteq> i \<Longrightarrow> find (\<lambda>(_, v). v = j) (filter (\<lambda>(_, v). v \<noteq> i) xs) = find (\<lambda>(_, v). v = j) xs"
  by (induction xs) auto

lemma doc_of_None: "doc_of t i = None \<longleftrightarrow> i \<notin> snd ` set (vt_docs t)"
  by (force simp: doc_of_def doc_for_ino_def find_None_iff)

interpretation context_docs: listing doc_of "remove_doc_node now" "\<lambda>i d. bind_doc ctx d i" docs_known now for now ctx
proof
  fix t i j d u
  show "same_nodes (snd (remove_node now i t)) (remove_doc_node now i t)" "same_nodes t (bind_doc ctx d i t)"
    by (simp_all add: remove_doc_node_def unbind_ino_def bind_doc_def same_nodes_def)
  show "docs_known t \<Longrightarrow> docs_known (remove_doc_node now i t)"
    by (auto simp: docs_known_def remove_doc_node_def unbind_ino_def)
  show "docs_known t \<Longrightarrow> j \<noteq> i \<Longrightarrow> doc_of (remove_doc_node now i t) j = doc_of t j"
    by (simp add: doc_of_def doc_for_ino_def remove_doc_node_def unbind_ino_def find_filter_other)
  show "docs_known t \<Longrightarrow> i < vt_next t \<Longrightarrow> docs_known (bind_doc ctx d i t)"
    using tput_rows(1)[of "(ctx, d)" i "vt_docs t"] by (force simp: docs_known_def bind_doc_def)
  show "docs_known t \<Longrightarrow> doc_of t i = None \<Longrightarrow> doc_of (bind_doc ctx d i t) i = Some d"
    unfolding doc_of_None by (simp add: doc_of_def doc_for_ino_def bind_doc_def find_tput_new)
  show "doc_of (bind_doc ctx d i t) j = doc_of t j" if a: "docs_known t" "j \<noteq> i" "doc_of t j \<noteq> Some d"
  proof -
    have "find (\<lambda>(_, v). v = j) (vt_docs t) \<noteq> Some ((ctx, d), j)"
      using a(3) by (auto simp: doc_of_def doc_for_ino_def)
    from find_tput[OF a(2) this] show ?thesis by (simp add: doc_of_def doc_for_ino_def bind_doc_def)
  qed
  show "vt_docs u = vt_docs t \<Longrightarrow> vt_ws u = vt_ws t \<Longrightarrow> doc_of u = doc_of t"
    by (simp add: doc_of_def doc_for_ino_def fun_eq_iff)
  show "vt_docs u = vt_docs t \<Longrightarrow> vt_ws u = vt_ws t \<Longrightarrow> vt_next t \<le> vt_next u \<Longrightarrow> docs_known t \<Longrightarrow> docs_known u"
    by (auto simp: docs_known_def dest: less_le_trans)
  show "docs_known t \<Longrightarrow> vt_next t \<le> i \<Longrightarrow> i < FIRST_OVERLAY_INO \<Longrightarrow> doc_of t i = None"
    unfolding doc_of_None by (auto simp: docs_known_def)
qed

lemma settle_one_defer:
  "vt_defer (settle_one doc_of (remove_doc_node now) rows nm i t) = vt_defer t"
  by (simp add: settle_one_def set_row_def upd_node_def remove_doc_node_def unbind_ino_def split: option.split prod.split)

lemma settle_docs_some:
  assumes "view_ok t" "docs_known t" "distinct (map fst xs)" "\<forall>(nm, i)\<in>set xs. file_at t dir nm i" "\<not> vt_defer t"
    and pl: "\<forall>nm row. tget rows nm = Some row \<longrightarrow> plain_row row"
  shows "\<exists>v' b'. settle_docs now dir rows xs (t, v, b) = Some (settle_with doc_of (remove_doc_node now) rows xs t, v', b')"
  using assms(1-5)
proof (induction xs arbitrary: t v b)
  case (Cons x xs)
  obtain nm i where x: "x = (nm, i)" by fastforce
  let ?u = "settle_one doc_of (remove_doc_node now) rows nm i t"
  have f: "file_at t dir nm i" using Cons.prems x by simp
  note e = context_docs.settle_one_effect[where now = now, OF Cons.prems(1,2) f pl]
  have rest: "\<forall>(s, j)\<in>set xs. file_at ?u dir s j"
    using context_docs.settle_one_rest(3)[OF Cons.prems(1,2) Cons.prems(3)[unfolded x] Cons.prems(4)[unfolded x] pl] by blast
  have ih: "\<exists>v' b'. settle_docs now dir rows xs (?u, v, b) = Some (settle_with doc_of (remove_doc_node now) rows xs ?u, v', b')" for v b
    by (rule Cons.IH) (use e Cons.prems rest x settle_one_defer in auto)
  obtain n where n: "tget (vt_nodes t) i = Some n" using f by (auto simp: file_at_def nview_node)
  have dd: "map_option snd (doc_for_ino t i) = doc_of t i" by (simp add: doc_of_def)
  show ?case using ih n Cons.prems(5)
    by (auto simp: x settle_one_def set_row_def dd split: option.splits prod.splits if_splits)
qed simp

lemma add_docs_with: "fst (add_docs now dir ctx rows (t, v, b)) = add_with (\<lambda>i d. bind_doc ctx d i) now dir rows t"
proof (induction rows arbitrary: t v b)
  case (Cons r rows)
  show ?case by (cases r) (simp add: Cons.IH alloc_ino_def Let_def)
qed simp

lemma name_docs_facts:
  assumes "name_docs x ctx ws url ds st = Some st'" "tsorted (nm_desired st)"
    "distinct (map (fst \<circ> snd) (nm_desired st))" "\<forall>(nm, row)\<in>set (nm_desired st). plain_row row"
    "distinct (map d_id ds)" "d_id ` set ds \<inter> (fst \<circ> snd) ` set (nm_desired st) = {}"
  shows "tsorted (nm_desired st') \<and> distinct (map (fst \<circ> snd) (nm_desired st'))
    \<and> (\<forall>(nm, row)\<in>set (nm_desired st'). plain_row row) \<and> length (nm_desired st') \<le> length (nm_desired st) + length ds"
  using assms
proof (induction ds arbitrary: st)
  case (Cons d ds)
  obtain st1 where s1: "name_doc x ctx ws url d st = Some st1" "name_docs x ctx ws url ds st1 = Some st'"
    using Cons.prems(1) by (auto simp: bind_eq_Some_conv)
  obtain nm row where row: "nm_desired st1 = tput nm row (nm_desired st)" "fst row = d_id d" "plain_row row"
  proof -
    obtain r where r: "render x d = Some r" using s1(1) by (auto simp: name_doc_def)
    obtain n db where n: "choose_name ctx (or_default [] ws) url (d_id d) (rd_base_name r) (nm_store st) (nm_taken st) = (n, db)"
      by fastforce
    have "nm_desired st1 = tput n (d_id d, node_content_of x ws d (rd_content r), d_updated d) (nm_desired st)"
      using s1(1) r n by (auto simp: name_doc_def Let_def)
    then show thesis by (rule that) (simp_all add: plain_content)
  qed
  have sub: "set (nm_desired st1) \<subseteq> insert (nm, row) (set (nm_desired st))" unfolding row(1) by (rule tput_rows)
  have pl: "\<forall>(nm, row)\<in>set (nm_desired st1). plain_row row" using sub Cons.prems(4) row(3) by blast
  have di: "distinct (map (fst \<circ> snd) (nm_desired st1))"
    unfolding row(1) by (rule tput_distinct_docs[OF Cons.prems(3)]) (use Cons.prems(6) row(2) in auto)
  have fr: "d_id ` set ds \<inter> (fst \<circ> snd) ` set (nm_desired st1) = {}"
  proof -
    have "(fst \<circ> snd) ` set (nm_desired st1) \<subseteq> (fst \<circ> snd) ` insert (nm, row) (set (nm_desired st))"
      using sub by (rule image_mono)
    then have "(fst \<circ> snd) ` set (nm_desired st1) \<subseteq> insert (d_id d) ((fst \<circ> snd) ` set (nm_desired st))"
      unfolding image_insert o_apply snd_conv row(2) .
    moreover have "d_id d \<notin> d_id ` set ds" using Cons.prems(5) by simp
    moreover have "d_id ` set ds \<inter> (fst \<circ> snd) ` set (nm_desired st) = {}" using Cons.prems(6) by simp
    ultimately show ?thesis by (rule disjoint_one_more)
  qed
  have len: "length (nm_desired st1) \<le> Suc (length (nm_desired st))" unfolding row(1) by (rule tput_rows)
  have srt: "tsorted (nm_desired st1)" unfolding row(1) using Cons.prems(2) by simp
  have "tsorted (nm_desired st') \<and> distinct (map (fst \<circ> snd) (nm_desired st'))
    \<and> (\<forall>(nm, row)\<in>set (nm_desired st'). plain_row row) \<and> length (nm_desired st') \<le> length (nm_desired st1) + length ds"
    by (rule Cons.IH[OF s1(2) srt di pl _ fr]) (use Cons.prems(5) in simp)
  then show ?case using len by (simp add: comp_def)
qed (simp add: comp_def)


end
