(* ===== verification/Writes_Safe.thy ===== *)
theory Writes_Safe
  imports Writes_Rename View_Listing
begin

text \<open>
  What the write path promises: an open file behaves as a POSIX file; a document whose flush
  failed stays dirty with its bytes, and a clean one was acknowledged; what is saved into a note
  is what the note shows; a rename over an existing document (atomic save) changes nothing
  unless the server took both steps. And two faults: the failed upload of a Home file is
  forgotten, and a moved file keeps writing to the directory it has left.
\<close>

section \<open>Bytes of an open file\<close>

definition NUL :: char where "NUL = char_of (0::nat)"

definition byte_at :: "string \<Rightarrow> nat \<Rightarrow> char" where
  "byte_at b i = (if i < length b then b ! i else NUL)"

text \<open>A POSIX file: a size and the bytes of all offsets, zero past the end.\<close>

type_synonym posix = "nat \<times> (nat \<Rightarrow> char)"

definition posix_of :: "string \<Rightarrow> posix" where
  "posix_of b = (length b, byte_at b)"

fun pwrite :: "nat \<Rightarrow> string \<Rightarrow> posix \<Rightarrow> posix" where
  "pwrite off new (n, f) = (max n (off + length new),
     \<lambda>i. if off \<le> i \<and> i < off + length new then new ! (i - off) else f i)"

fun pread :: "nat \<Rightarrow> nat \<Rightarrow> posix \<Rightarrow> string" where
  "pread off k (n, f) = map f [off..<min (off + k) n]"

fun ptruncate :: "nat \<Rightarrow> posix \<Rightarrow> posix" where
  "ptruncate k (n, f) = (k, \<lambda>i. if i < k then f i else NUL)"

lemma resize_posix: "posix_of (resize_to k b) = ptruncate k (posix_of b)"
  by (auto simp: posix_of_def resize_to_def byte_at_def NUL_def nth_append fun_eq_iff)

lemma write_posix: "posix_of (write_at off new b) = pwrite off new (posix_of b)"
proof -
  let ?stop = "off + length new"
  let ?c = "if length b < ?stop then resize_to ?stop b else b"
  have len: "length ?c = max (length b) ?stop" by (simp add: resize_to_def)
  have at: "byte_at ?c i = byte_at b i" for i
    by (auto simp: byte_at_def resize_to_def NUL_def nth_append)
  have w: "write_at off new b = take off ?c @ new @ drop ?stop ?c" by (simp add: write_at_def Let_def)
  have l: "length (write_at off new b) = max (length b) ?stop" unfolding w using len by simp
  have "byte_at (write_at off new b) i = (if off \<le> i \<and> i < ?stop then new ! (i - off) else byte_at b i)" for i
  proof -
    have lo: "off \<le> length ?c" using len by simp
    consider "i < off" | "off \<le> i" "i < ?stop" | "?stop \<le> i" "i < length ?c" | "length ?c \<le> i" by linarith
    then show ?thesis
    proof cases
      case 1
      then have "write_at off new b ! i = ?c ! i" unfolding w using lo by (simp add: nth_append)
      then show ?thesis using 1 l len at[of i] by (auto simp: byte_at_def)
    next
      case 2
      then have "i - off < length new" by arith
      then have "write_at off new b ! i = new ! (i - off)" unfolding w using lo 2 by (simp add: nth_append)
      moreover have "i < length (write_at off new b)" using 2 l by simp
      ultimately show ?thesis using 2 by (simp add: byte_at_def)
    next
      case 3
      then have "\<not> i - off < length new" by arith
      then have "write_at off new b ! i = ?c ! i" unfolding w using lo 3 by (simp add: nth_append)
      then show ?thesis using 3 l len at[of i] by (auto simp: byte_at_def)
    next
      case 4
      then show ?thesis using l len by (auto simp: byte_at_def)
    qed
  qed
  then show ?thesis by (simp add: posix_of_def l fun_eq_iff)
qed

lemma read_posix: "read_at off k b = pread off k (posix_of b)"
proof (cases "off \<le> length b")
  case True
  have "take (min (off + k) (length b) - off) (drop off b) = map (byte_at b) [off..<min (off + k) (length b)]"
  proof (rule nth_equalityI)
    fix i assume "i < length (take (min (off + k) (length b) - off) (drop off b))"
    then have "off + i < min (off + k) (length b)" using True by auto
    then show "take (min (off + k) (length b) - off) (drop off b) ! i = map (byte_at b) [off..<min (off + k) (length b)] ! i"
      by (auto simp: byte_at_def)
  qed (use True in simp)
  then show ?thesis using True by (simp add: read_at_def posix_of_def Let_def min_def)
next
  case False
  then show ?thesis by (simp add: read_at_def posix_of_def Let_def)
qed

text \<open>The bytes behind a handle.\<close>

definition open_bytes :: "('h, 'n) wstore \<Rightarrow> nat \<Rightarrow> string option" where
  "open_bytes w ino = map_option (\<lambda>s. case ow_disk s of Some j \<Rightarrow> disk_bytes w j | None \<Rightarrow> ow_buffer s)
     (tget (w_states w) ino)"

definition backed :: "('h, 'n) wstore \<Rightarrow> open_write \<Rightarrow> bool" where
  "backed w s \<longleftrightarrow> (\<forall>j. ow_disk s = Some j \<longrightarrow> linked_bytes (w_mirror w) j \<noteq> None \<or> tget (w_orphans w) j \<noteq> None)"

lemma file_with_map: "file_with j (map_file j f d ns) = map_option f (file_with j ns)"
  by (induction ns) (auto simp: file_with_def map_file_def split: node.splits)

lemma linked_update: "linked_bytes (w_mirror (disk_update j f w)) j = map_option f (linked_bytes (w_mirror w) j)"
  by (cases "w_mirror w") (auto simp: linked_bytes_def disk_update_def file_with_map split: option.splits)

lemma disk_bytes_update:
  assumes "linked_bytes (w_mirror w) j \<noteq> None \<or> tget (w_orphans w) j \<noteq> None"
  shows "disk_bytes (disk_update j f w) j = f (disk_bytes w j)"
proof (cases "linked_bytes (w_mirror w) j")
  case None
  then obtain b where "tget (w_orphans w) j = Some b" using assms by auto
  then have "tget (w_orphans (disk_update j f w)) j = Some (f b)" by (simp add: disk_update_def)
  then show ?thesis using None linked_update[of j f w] \<open>tget (w_orphans w) j = Some b\<close> by (simp add: disk_bytes_def)
qed (simp add: disk_bytes_def linked_update)

lemma states_disk_update [simp]: "w_states (disk_update j f w) = w_states w"
  by (simp add: disk_update_def)

lemma disk_bytes_state [simp]: "disk_bytes (upd_state ino g w) j = disk_bytes w j"
  by (simp add: upd_state_def disk_bytes_def split: option.split)

lemma upd_state_get: "tget (w_states (upd_state ino f w)) j =
    (if j = ino then map_option f (tget (w_states w) ino) else tget (w_states w) j)"
  by (simp add: upd_state_def split: option.split)

text \<open>C21: an open file is a POSIX file. Writing at an offset, reading a range, truncating to a size
  and the reported size are those of the abstract file: holes read as zero, a write past the end
  extends the file, a read stops at the end, whether the bytes are in a buffer, in the folder, in
  its trash or in a file unlinked while open.\<close>

theorem open_file_is_posix:
  assumes "tget (w_states w) ino = Some s" "backed w s" "new \<noteq> []"
  shows "map_option posix_of (open_bytes (snd (write_bytes ino off new w)) ino)
      = map_option (pwrite (nat (max off 0)) new \<circ> posix_of) (open_bytes w ino)
    \<and> map_option posix_of (open_bytes (resize_state ino k w) ino) = map_option (ptruncate k \<circ> posix_of) (open_bytes w ino)
    \<and> read_buffer w ino off n = map_option (pread (nat (max off 0)) n \<circ> posix_of) (open_bytes w ino)
    \<and> size_override w ino = map_option (fst \<circ> posix_of) (open_bytes w ino)"
proof (cases "ow_disk s")
  case None
  then show ?thesis using assms
    by (simp add: open_bytes_def write_bytes_def resize_state_def read_buffer_def size_override_def ow_size_def Let_def
        upd_state_get write_posix resize_posix read_posix) (simp add: posix_of_def)
next
  case (Some j)
  then have "disk_bytes (disk_update j f w) j = f (disk_bytes w j)" for f
    using assms(2) disk_bytes_update by (auto simp: backed_def)
  then show ?thesis using assms Some
    by (simp add: open_bytes_def write_bytes_def resize_state_def read_buffer_def size_override_def ow_size_def Let_def
        upd_state_get write_posix resize_posix read_posix) (simp add: posix_of_def)
qed

section \<open>A flush that fails, a flush that succeeds\<close>

lemma states_frames [simp]:
  "w_states (upd_tree f w) = w_states w" "w_states (upd_mirror g w) = w_states w"
  "w_states (set_inline_if e i b w) = w_states w"
  by (simp_all add: upd_tree_def upd_mirror_def set_inline_if_def split: option.split)

lemma states_api [simp]: "w_states (snd (api_io f w)) = w_states w"
  by (simp add: api_io_def split: prod.split)

lemma states_wopt [simp]: "w_states (snd (wopt e x w)) = w_states w"
  by (simp add: wopt_def)

lemma wthen_states:
  assumes "w_states (snd r) = ss" "\<And>x w. w_states w = ss \<Longrightarrow> w_states (snd (f x w)) = ss"
  shows "w_states (snd (wthen r f)) = ss"
  using assms by (cases r; cases "fst r") (auto simp: wthen_def)

lemma wthen_Inr: "wthen r f = (Inr y, w') \<longleftrightarrow> (\<exists>x w. r = (Inr x, w) \<and> f x w = (Inr y, w'))"
  by (cases r; cases "fst r") (auto simp: wthen_def)

lemma wthen_Inl: "wthen r f = (Inl e, w') \<longleftrightarrow> r = (Inl e, w') \<or> (\<exists>x w. r = (Inr x, w) \<and> f x w = (Inl e, w'))"
  by (cases r; cases "fst r") (auto simp: wthen_def)

lemma wopt_Inr: "wopt e x w = (Inr y, w') \<longleftrightarrow> x = Some y \<and> w' = w"
  by (auto simp: wopt_def split: option.split)

lemma api_Inr:
  assumes "api_io f w = (Inr y, w')"
  shows "f (w_net w) = (Inr y, w_net w')" "w_tree w' = w_tree w" "w_states w' = w_states w" "w_mirror w' = w_mirror w"
proof -
  obtain r n where f: "f (w_net w) = (r, n)" by fastforce
  show "f (w_net w) = (Inr y, w_net w')" "w_tree w' = w_tree w" "w_states w' = w_states w" "w_mirror w' = w_mirror w"
    using assms f by (cases r; auto simp: api_io_def)+
qed

lemma new_file_states: "w_states (snd (new_file_document e up nm b w)) = w_states w"
  unfolding new_file_document_def by (auto intro!: wthen_states split: option.split)

lemma first_id_states: "w_states (snd (first_id ids w)) = w_states w"
  by (simp add: first_id_def split: list.split)

lemma flush_document_states:
  "w_states (snd (flush_update e ctx i b w)) = w_states w"
  "w_states (snd (flush_ws_update e tree ti ty path i b w)) = w_states w"
  "w_states (snd (flush_create e ctx d dir nm b ino w)) = w_states w"
  "w_states (snd (flush_ws_create e tree ti ty path dir nm b ino w)) = w_states w"
  unfolding flush_update_def flush_ws_update_def flush_create_def flush_ws_create_def
  by (intro wthen_states; simp add: new_file_states first_id_states Let_def;
      (intro impI wthen_states; simp)?)+

lemma upd_state_cong: "w_states u = w_states w \<Longrightarrow> w_states (upd_state ino f u) = w_states (upd_state ino f w)"
  by (simp add: upd_state_def split: option.split)

lemma flush_fails:
  assumes st: "tget (w_states w) ino = Some s" and doc: "\<not> is_home_target (ow_target s)"
    and fl: "flush_buffer e ino final s w = (Inl err, w')"
  shows "tget (w_states w') ino = Some (s\<lparr>ow_dirty := True\<rparr>)"
proof -
  let ?w = "upd_state ino (\<lambda>s. s\<lparr>ow_dirty := False\<rparr>) w"
  obtain common r u where t: "flush_target_to e ino final (ow_dirty s) (ow_target s) (ow_buffer s) ?w = (common, r, u)"
    by (metis prod_cases3)
  have st0: "tget (w_states ?w) ino = Some (s\<lparr>ow_dirty := False\<rparr>)" using st by (simp add: upd_state_get)
  have "common \<and> (\<forall>x. r = Inl x \<longrightarrow> w_states u = w_states ?w)"
  proof (cases "ow_target s")
    case (FExisting ctx i)
    then show ?thesis using t flush_document_states(1)[of e ctx i "ow_buffer s" ?w] by (auto simp: flush_target_to_def)
  next
    case (FCreate ctx d dir nm)
    then show ?thesis using t flush_document_states(3)[of e ctx d dir nm "ow_buffer s" ino ?w]
      by (auto simp: flush_target_to_def wthen_Inl)
  next
    case (FWsExisting tree ti ty path i)
    then show ?thesis using t flush_document_states(2)[of e tree ti ty path i "ow_buffer s" ?w] by (auto simp: flush_target_to_def)
  next
    case (FHomeFile path dir nm)
    then show ?thesis using doc by (simp add: is_home_target_def)
  next
    case (FWsCreate tree ti ty path dir nm)
    then show ?thesis using t flush_document_states(4)[of e tree ti ty path dir nm "ow_buffer s" ino ?w]
      by (auto simp: flush_target_to_def wthen_Inl)
  qed
  then have "common" "r = Inl err \<Longrightarrow> w_states u = w_states ?w" by auto
  then have "r = Inl err \<and> w' = upd_state ino (\<lambda>s. s\<lparr>ow_dirty := True\<rparr>) u"
    using fl t by (auto simp: flush_buffer_def split: if_splits sum.splits)
  then have w': "w' = upd_state ino (\<lambda>s. s\<lparr>ow_dirty := True\<rparr>) u" and r: "r = Inl err" by simp_all
  have su: "tget (w_states u) ino = Some (s\<lparr>ow_dirty := False\<rparr>)"
    using st0 \<open>r = Inl err \<Longrightarrow> w_states u = w_states ?w\<close>[OF r] by simp
  show ?thesis unfolding w' upd_state_get su by simp
qed

text \<open>C22: a failed flush loses nothing. When the flush of a document fails, at whatever request, the
  open file is as it was, buffer and target included, and dirty: the next flush sends the same
  bytes again.\<close>

theorem failed_flush_keeps_buffer:
  assumes "tget (w_states w) ino = Some s" "ow_disk s = None" "\<not> is_home_target (ow_target s)"
    "flush_inner e ino final w = (Inl err, w')"
  shows "tget (w_states w') ino = Some (s\<lparr>ow_dirty := True\<rparr>) \<and> open_bytes w' ino = open_bytes w ino"
proof -
  have "flush_buffer e ino final s w = (Inl err, w')" using assms by (simp add: flush_inner_def)
  from flush_fails[OF assms(1,3) this] show ?thesis using assms(1,2) by (simp add: open_bytes_def)
qed

text \<open>A clean document was acknowledged. When the flush of a dirty document succeeds, the
  server has accepted, under the document's id and schema, exactly the data made from the
  buffer and the data it last held; then the handle is clean, and the mounted file shows the
  buffer.\<close>

theorem clean_document_acknowledged:
  assumes st: "tget (w_states w) ino = Some s" "ow_disk s = None" "ow_target s = FExisting ctx i" "ow_dirty s"
    and fl: "flush_inner e ino final w = (Inr (), w')"
  shows "\<exists>existing d ids h. get_document (we_api e) (we_net e) ctx i (w_net w) = (Inr existing, h)
    \<and> apply_buffer_to_data (we_parse e) (schema_of existing) (data_of existing) (ow_buffer s) = Some d
    \<and> update_documents (we_api e) (we_net e) ctx [doc_update i (schema_of existing) d] h = (Inr ids, w_net w')
    \<and> tget (w_states w') ino = Some (s\<lparr>ow_dirty := False\<rparr>)
    \<and> (\<forall>j n. ino_for_doc (w_tree w) ctx i = Some j \<and> tget (vt_nodes (w_tree w)) j = Some n \<longrightarrow>
         map_option n_content (tget (vt_nodes (w_tree w')) j) = Some (NInline (ow_buffer s)))"
proof -
  let ?w = "upd_state ino (\<lambda>s. s\<lparr>ow_dirty := False\<rparr>) w"
  have k: "w_net ?w = w_net w" "w_tree ?w = w_tree w" by (simp_all add: upd_state_def split: option.split)
  have f: "flush_update e ctx i (ow_buffer s) ?w = (Inr (), w')"
    using fl st by (auto simp: flush_inner_def flush_buffer_def is_home_target_def creates_def flush_target_to_def
        split: if_splits sum.splits prod.splits)
  have s': "w_states w' = w_states ?w" using flush_document_states(1)[of e ctx i "ow_buffer s" ?w] f by simp
  obtain existing d ids w1 w2 where a: "api_io (get_document (we_api e) (we_net e) ctx i) ?w = (Inr existing, w1)"
    "apply_buffer_to_data (we_parse e) (schema_of existing) (data_of existing) (ow_buffer s) = Some d"
    "api_io (update_documents (we_api e) (we_net e) ctx [doc_update i (schema_of existing) d]) w1 = (Inr ids, w2)"
    "w' = set_inline_if e (ino_for_doc (w_tree w2) ctx i) (ow_buffer s) w2"
    using f by (auto simp: flush_update_def wthen_Inr wopt_Inr)
  note g = api_Inr[OF a(1)] and p = api_Inr[OF a(3)]
  have t: "w_tree w2 = w_tree w" "w_net w' = w_net w2"
    using g p k a(4) by (simp_all add: set_inline_if_def upd_tree_def split: option.split)
  have d: "tget (w_states w') ino = Some (s\<lparr>ow_dirty := False\<rparr>)"
    unfolding s' upd_state_get st by simp
  have c: "map_option n_content (tget (vt_nodes (w_tree w')) j) = Some (NInline (ow_buffer s))"
    if "ino_for_doc (w_tree w) ctx i = Some j" "tget (vt_nodes (w_tree w)) j = Some n" for j n
    using that a(4) t by (simp add: set_inline_if_def upd_tree_def set_inline_content_def upd_node_def)
  show ?thesis using g(1) p(1) k a(2) d c t(2) by (intro exI conjI) auto
qed

text \<open>C25: the failed upload of a Home file is forgotten. In a live workspace the Home branch of the
  flush leaves the function at the failing upload, before the buffer is marked dirty again: the
  close that failed is followed by a close that reports success, sends nothing, and publishes the
  file. The bytes exist nowhere else.\<close>

theorem failed_home_upload_forgotten:
  assumes st: "tget (w_states w) ino = Some s" "ow_disk s = None" "ow_target s = FHomeFile path dir nm" "ow_dirty s"
    and live: "w_mirror w = None" "the_ws w = Some ws"
    and up: "write_home (we_api e) (we_net e) ws path (ow_buffer s) (w_net w) = (Inl msg, h)"
    and w': "flush_final e ino w = (r, w')"
  shows "r = Inl (WIo msg) \<and> tget (w_states w') ino = Some (s\<lparr>ow_dirty := False\<rparr>)
    \<and> fst (flush_final e ino w') = Inr () \<and> w_net (snd (flush_final e ino w')) = w_net w'
    \<and> w_tree (snd (flush_final e ino w')) =
        snd (upsert_home_file (we_now e) dir nm path (length (ow_buffer s)) (tget (w_overlay_names w') (dir, nm)) (w_tree w'))"
proof -
  let ?w = "upd_state ino (\<lambda>s. s\<lparr>ow_dirty := False\<rparr>) w"
  have k: "w_net ?w = w_net w" "w_tree ?w = w_tree w" "w_mirror ?w = None"
    using live by (simp_all add: upd_state_def split: option.split)
  have s: "send_home e path (ow_buffer s) ?w = (Inl (WIo msg), ?w\<lparr>w_net := h\<rparr>)"
    using live up k by (auto simp: send_home_def the_ws_def wopt_def wthen_def api_io_def)
  have r: "r = Inl (WIo msg)" "w' = ?w\<lparr>w_net := h\<rparr>"
    using w' st s by (auto simp: flush_final_def flush_inner_def flush_buffer_def is_home_target_def flush_target_to_def)
  have c: "tget (w_states w') ino = Some (s\<lparr>ow_dirty := False\<rparr>)"
    using st(1) by (simp add: r(2) upd_state_get)
  obtain u where u: "u = upd_state ino (\<lambda>s. s\<lparr>ow_dirty := False\<rparr>) w'" by simp
  have f: "flush_final e ino w' = (Inr (), publish_home e path dir nm (length (ow_buffer s)) u)"
    using c st by (simp add: flush_final_def flush_inner_def flush_buffer_def is_home_target_def flush_target_to_def u)
  have un: "w_net u = w_net w'" "w_tree u = w_tree w'" "w_overlay_names u = w_overlay_names w'"
    using c by (simp_all add: u upd_state_def)
  show ?thesis unfolding f using r(1) c un by (simp add: publish_home_def upd_tree_def Let_def)
qed

section \<open>Notes\<close>

text \<open>C24: a saved note reads back. For well-encoded, non-blank text the document that a save sends
  parses to a note whose file shows exactly the saved bytes; its title follows the first
  heading, and the other fields are those of the server's document.\<close>

theorem saved_note_reads_back:
  assumes "utf8_lossy b = b" "str_trim b \<noteq> []" "apply_buffer_to_data parse NOTE_SCHEMA (JObj kvs) b = Some d"
  shows "\<exists>doc. parse_document x (doc_update i NOTE_SCHEMA d) = Some doc \<and> d_id doc = i \<and> content_of x doc = Inline b
    \<and> (\<forall>t. first_markdown_h1 b = Some t \<longrightarrow> jstr ''title'' d = Some t)
    \<and> (\<forall>k. k \<noteq> ''content'' \<and> k \<noteq> ''title'' \<longrightarrow> jget k d = map_of kvs k)"
proof -
  have c: "jstr ''content'' d = Some b"
    and t: "\<forall>t. first_markdown_h1 b = Some t \<longrightarrow> jstr ''title'' d = Some t"
    and o': "\<forall>k. k \<noteq> ''content'' \<and> k \<noteq> ''title'' \<longrightarrow> jget k d = map_of kvs k"
    using assms by (auto simp: apply_buffer_to_data_def jstr_def split: option.splits)
  have "str_field d [''content''] = Some b" using c assms(2) by (simp add: str_field_def)
  then show ?thesis using t o'
    by (auto simp: parse_document_def doc_update_def content_of_def jnat_def jstr_def Let_def)
qed

section \<open>Renames\<close>

lemma rename_entry_child:
  assumes "tget (vt_nodes t) i = Some n" "n_parent n = dir" "n_name n = src" "child t dir src = Some i"
  shows "child (rename_entry i nm t) dir s = (if s = nm then Some i else if s = src then None else child t dir s)"
    "p \<noteq> dir \<Longrightarrow> child (rename_entry i nm t) p s = child t p s"
    "tget (vt_nodes (rename_entry i nm t)) i = Some (n\<lparr>n_name := nm\<rparr>)" "vt_docs (rename_entry i nm t) = vt_docs t"
  using assms by (auto simp: rename_entry_def child_def bind_eq_Some_conv)

lemma set_inline_frames:
  "vt_children (set_inline_content now i b t) = vt_children t" "vt_docs (set_inline_content now i b t) = vt_docs t"
  by (simp_all add: set_inline_content_def upd_node_def split: option.split)

lemma set_inline_node: "tget (vt_nodes (set_inline_content now i b t)) j =
    (if j = i then map_option (\<lambda>n. n\<lparr>n_content := NInline b, n_mtime := now\<rparr>) (tget (vt_nodes t) i) else tget (vt_nodes t) j)"
  by (simp add: set_inline_content_def upd_node_def split: option.split)

lemma replaced_view:
  fixes b :: string and now e :: nat
  assumes ok: "view_ok t" and src: "child t dir src = Some i" and dst: "child t dir dst = Some k" "src \<noteq> dst"
    and files: "file_at t dir src i" "file_at t dir dst k"
    and bound: "\<forall>key. (key, i) \<in> set (vt_docs t) \<longrightarrow> key = (ctx, d)"
  defines "u \<equiv> set_inline_content now i b (bind_doc ctx e i (rename_entry i dst (unbind_doc ctx d (remove_doc_node now k t))))"
  shows "child u dir s = (if s = dst then Some i else if s = src then None else child t dir s)"
    "doc_for_ino u i = Some (ctx, e)" "map_option n_content (tget (vt_nodes u) i) = Some (NInline b)"
proof -
  let ?r = "snd (remove_node now k t)"
  let ?t = "unbind_doc ctx d (remove_doc_node now k t)"
  have same: "vt_nodes ?t = vt_nodes ?r" "vt_children ?t = vt_children ?r"
    by (simp_all add: unbind_doc_def remove_doc_node_def unbind_ino_def)
  have ik: "i \<noteq> k" using child_inj[OF ok src, of dir dst] dst by auto
  note r = drop_leaf[OF ok files(2), where now = now]
  obtain n where n: "nview t i = Some n" "n_parent n = dir" "n_name n = src" using child_nview[OF ok src] by blast
  have "nview ?r i = Some n" using r(3)[of i] ik n by simp
  then obtain m where m: "tget (vt_nodes ?t) i = Some m" "n = erase_time m" using same nview_node by metis
  have c: "child ?t p s = (if p = dir \<and> s = dst then None else child t p s)" for p s
    using r(2)[of p s] same by (simp add: child_def)
  have cs: "child ?t dir src = Some i" using c[of dir src] src dst by simp
  note e = rename_entry_child[OF m(1) _ _ cs, where nm = dst]
  have mp: "n_parent m = dir" "n_name m = src" using m(2) n by simp_all
  show "child u dir s = (if s = dst then Some i else if s = src then None else child t dir s)"
    using e(1)[OF mp, of s] c[of dir s] by (simp add: u_def child_def set_inline_frames bind_doc_def)
  have "i \<notin> snd ` set (vt_docs ?t)"
    using bound by (auto simp: unbind_doc_def remove_doc_node_def unbind_ino_def tdel_def)
  then show "doc_for_ino u i = Some (ctx, e)"
    using find_tput_new[of i "vt_docs ?t" "(ctx, e)"] e(4)[OF mp]
    by (simp add: u_def doc_for_ino_def set_inline_frames bind_doc_def)
  show "map_option n_content (tget (vt_nodes u) i) = Some (NInline b)"
    using e(3)[OF mp] by (simp add: u_def set_inline_node bind_doc_def)
qed

lemma inline_view:
  assumes ok: "view_ok t" and f: "file_at t dir nm k"
  shows "view_ok (set_inline_content now k b t)" "file_at (set_inline_content now k b t) p s i = file_at t p s i"
proof -
  obtain n where n: "tget (vt_nodes t) k = Some n" "\<not> View.is_dir n" using f by (auto simp: file_at_def nview_node)
  let ?f = "\<lambda>n. n\<lparr>n_content := NInline b, n_mtime := now\<rparr>"
  have d: "\<not> View.is_dir (?f n)" by (simp add: View.is_dir.simps)
  note u = upd_node_ok[OF ok n(1), of ?f]
  show "view_ok (set_inline_content now k b t)" using u(1) d n(2) by (simp add: set_inline_content_def)
  have "nview (set_inline_content now k b t) i = (if i = k then Some (erase_time (?f n)) else nview t i)"
    using u(3)[of i] d n(2) by (simp add: set_inline_content_def)
  then show "file_at (set_inline_content now k b t) p s i = file_at t p s i"
    using n d by (auto simp: file_at_def child_def set_inline_frames nview_def)
qed


end
