(* ===== verification/View_Naming.thy ===== *)
theory View_Naming
  imports View_Listing
begin

text \<open>
  The names documents get in a context (\<^verbatim>\<open>apply_documents\<close> and \<^verbatim>\<open>by_placement\<close> of
  \<^verbatim>\<open>src/src/state.rs\<close>, with the sticky names of \<^verbatim>\<open>src/src/names.rs\<close>): when names survive,
  and when they do not.
\<close>

section \<open>One pass over the documents\<close>

definition base_of :: "text_env \<Rightarrow> document \<Rightarrow> string" where
  "base_of x d = (case render x d of Some r \<Rightarrow> rd_base_name r | None \<Rightarrow> [])"

definition row_for :: "text_env \<Rightarrow> string option \<Rightarrow> document \<Rightarrow> doc_row" where
  "row_for x ws d = (d_id d, node_content_of x ws d (content_of x d), d_updated d)"

definition pinned :: "text_env \<Rightarrow> string \<Rightarrow> string option \<Rightarrow> string \<Rightarrow> name_store \<Rightarrow> document \<Rightarrow> string \<Rightarrow> bool" where
  "pinned x ctx ws url db d nm \<longleftrightarrow> names_get db ctx (or_default [] ws) url (d_id d) = Some nm
     \<and> (nm = base_of x d \<or> nm = with_id_suffix (base_of x d) (d_id d))"

lemma choose_name_pinned:
  assumes "choose_name ctx w url i base db taken = (nm, db')"
  shows "names_get db' ctx w url i = Some nm" "nm = base \<or> nm = with_id_suffix base i"
    "j \<noteq> i \<Longrightarrow> names_get db' ctx w url j = names_get db ctx w url j"
  using assms
  by (auto simp: choose_name_def sticky_name_def free_name_def Let_def sticky.get_put split: option.splits if_splits)

lemma choose_name_sticky:
  assumes "names_get db ctx w url i = Some nm" "nm = base \<or> nm = with_id_suffix base i" "nm \<notin> taken"
  shows "choose_name ctx w url i base db taken = (nm, db)"
  using assms by (auto simp: choose_name_def sticky_name_def)

lemma name_doc_step:
  assumes "name_doc x ctx ws url d st = Some st'"
  obtains nm where "render x d \<noteq> None" "nm_taken st' = insert nm (nm_taken st)"
    "nm_desired st' = tput nm (row_for x ws d) (nm_desired st)"
    "pinned x ctx ws url (nm_store st') d nm"
    "\<forall>j. j \<noteq> d_id d \<longrightarrow> names_get (nm_store st') ctx (or_default [] ws) url j
       = names_get (nm_store st) ctx (or_default [] ws) url j"
proof -
  obtain r where r: "render x d = Some r" using assms by (auto simp: name_doc_def)
  obtain n db where n: "choose_name ctx (or_default [] ws) url (d_id d) (rd_base_name r) (nm_store st) (nm_taken st) = (n, db)"
    by fastforce
  have c: "rd_content r = content_of x d" using r by (auto simp: render_def)
  note p = choose_name_pinned[OF n]
  have base: "base_of x d = rd_base_name r" using r by (simp add: base_of_def)
  have st': "nm_taken st' = insert n (nm_taken st)" "nm_desired st' = tput n (row_for x ws d) (nm_desired st)"
    "nm_store st' = db"
    using assms r n c by (auto simp: name_doc_def row_for_def Let_def)
  show thesis
  proof (rule that)
    show "render x d \<noteq> None" using r by simp
    show "pinned x ctx ws url (nm_store st') d n" using p(1,2) base st'(3) by (simp add: pinned_def)
    show "\<forall>j. j \<noteq> d_id d \<longrightarrow> names_get (nm_store st') ctx (or_default [] ws) url j
       = names_get (nm_store st) ctx (or_default [] ws) url j"
      using p(3) st'(3) by blast
  qed (rule st')+
qed

lemma name_docs_pinned:
  assumes "name_docs x ctx ws url ds st = Some st'" "distinct (map d_id ds)"
  shows "\<exists>N. (\<forall>d\<in>set ds. pinned x ctx ws url (nm_store st') d (N (d_id d)) \<and> render x d \<noteq> None)
    \<and> nm_desired st' = fold (\<lambda>d. tput (N (d_id d)) (row_for x ws d)) ds (nm_desired st)
    \<and> (\<forall>j. j \<notin> d_id ` set ds \<longrightarrow> names_get (nm_store st') ctx (or_default [] ws) url j
         = names_get (nm_store st) ctx (or_default [] ws) url j)"
  using assms
proof (induction ds arbitrary: st)
  case (Cons d ds)
  obtain st1 where s1: "name_doc x ctx ws url d st = Some st1" "name_docs x ctx ws url ds st1 = Some st'"
    using Cons.prems(1) by (auto simp: bind_eq_Some_conv)
  obtain nm where nm: "render x d \<noteq> None" "nm_desired st1 = tput nm (row_for x ws d) (nm_desired st)"
    "pinned x ctx ws url (nm_store st1) d nm"
    "\<forall>j. j \<noteq> d_id d \<longrightarrow> names_get (nm_store st1) ctx (or_default [] ws) url j
       = names_get (nm_store st) ctx (or_default [] ws) url j"
    by (rule name_doc_step[OF s1(1)]) blast
  obtain N where N: "\<forall>d\<in>set ds. pinned x ctx ws url (nm_store st') d (N (d_id d)) \<and> render x d \<noteq> None"
    "nm_desired st' = fold (\<lambda>d. tput (N (d_id d)) (row_for x ws d)) ds (nm_desired st1)"
    "\<forall>j. j \<notin> d_id ` set ds \<longrightarrow> names_get (nm_store st') ctx (or_default [] ws) url j
       = names_get (nm_store st1) ctx (or_default [] ws) url j"
    using Cons.IH[OF s1(2)] Cons.prems(2) by auto
  let ?N = "N(d_id d := nm)"
  have new: "d_id d \<notin> d_id ` set ds" using Cons.prems(2) by simp
  have same: "?N (d_id e) = N (d_id e)" if e: "e \<in> set ds" for e
    using new e by (metis fun_upd_other image_eqI)
  have "fold (\<lambda>d. tput (?N (d_id d)) (row_for x ws d)) ds (nm_desired st1) = nm_desired st'"
    unfolding N(2) by (rule fold_cong) (use same in auto)
  then have "nm_desired st' = fold (\<lambda>d. tput (?N (d_id d)) (row_for x ws d)) (d # ds) (nm_desired st)"
    by (simp add: nm(2))
  moreover have "pinned x ctx ws url (nm_store st') d nm" using nm(3) N(3) new by (simp add: pinned_def)
  then have "\<forall>e\<in>set (d # ds). pinned x ctx ws url (nm_store st') e (?N (d_id e)) \<and> render x e \<noteq> None"
    using N(1) nm(1) same by auto
  moreover have "\<forall>j. j \<notin> d_id ` set (d # ds) \<longrightarrow> names_get (nm_store st') ctx (or_default [] ws) url j
       = names_get (nm_store st) ctx (or_default [] ws) url j"
    using N(3) nm(4) by auto
  ultimately show ?case by blast
qed auto

lemma name_docs_again:
  assumes "\<forall>d\<in>set ds. pinned x ctx ws url (nm_store st) d (N (d_id d)) \<and> render x d \<noteq> None"
    "distinct (map (N \<circ> d_id) ds)" "\<forall>d\<in>set ds. N (d_id d) \<notin> nm_taken st"
  shows "\<exists>st'. name_docs x ctx ws url ds st = Some st' \<and> nm_store st' = nm_store st
    \<and> nm_desired st' = fold (\<lambda>d. tput (N (d_id d)) (row_for x ws d)) ds (nm_desired st)"
  using assms
proof (induction ds arbitrary: st)
  case (Cons d ds)
  obtain r where r: "render x d = Some r" using Cons.prems(1) by auto
  have p: "pinned x ctx ws url (nm_store st) d (N (d_id d))" using Cons.prems(1) by simp
  have c: "rd_content r = content_of x d" using r by (auto simp: render_def)
  have ch: "choose_name ctx (or_default [] ws) url (d_id d) (rd_base_name r) (nm_store st) (nm_taken st)
      = (N (d_id d), nm_store st)"
    by (rule choose_name_sticky) (use p r Cons.prems(3) in \<open>auto simp: pinned_def base_of_def\<close>)
  then obtain st1 where s1: "name_doc x ctx ws url d st = Some st1" "nm_store st1 = nm_store st"
    "nm_taken st1 = insert (N (d_id d)) (nm_taken st)" "nm_desired st1 = tput (N (d_id d)) (row_for x ws d) (nm_desired st)"
    using r c by (simp add: name_doc_def row_for_def Let_def)
  have "\<exists>st'. name_docs x ctx ws url ds st1 = Some st' \<and> nm_store st' = nm_store st1
    \<and> nm_desired st' = fold (\<lambda>d. tput (N (d_id d)) (row_for x ws d)) ds (nm_desired st1)"
  proof (rule Cons.IH)
    show "\<forall>e\<in>set ds. pinned x ctx ws url (nm_store st1) e (N (d_id e)) \<and> render x e \<noteq> None"
      using Cons.prems(1) s1(2) by simp
    show "distinct (map (N \<circ> d_id) ds)" using Cons.prems(2) by (simp add: comp_def)
    have "N (d_id e) \<noteq> N (d_id d)" if e: "e \<in> set ds" for e
      using Cons.prems(2) imageI[OF e, of "\<lambda>a. N (d_id a)"] by auto
    then show "\<forall>e\<in>set ds. N (d_id e) \<notin> nm_taken st1" using Cons.prems(3) s1(3) by auto
  qed
  then show ?case using s1 by simp
qed simp

lemma fold_tput_rows:
  assumes "distinct (map f ds)"
  shows "tget (fold (\<lambda>d. tput (f d) (g d)) ds rows) nm = Some row \<longleftrightarrow>
    (\<exists>d\<in>set ds. f d = nm \<and> g d = row) \<or> nm \<notin> f ` set ds \<and> tget rows nm = Some row"
  using assms by (induction ds arbitrary: rows) auto

lemma fold_tput_keys: "fst ` set (fold (\<lambda>d. tput (f d) (g d)) ds rows) = fst ` set rows \<union> f ` set ds"
  by (induction ds arbitrary: rows) auto

lemma fold_tput_sorted: "tsorted rows \<Longrightarrow> tsorted (fold (\<lambda>d. tput (f d) (g d)) ds rows)"
  by (induction ds arbitrary: rows) auto

lemma fold_tput_length:
  fixes f :: "document \<Rightarrow> string"
  assumes "length (fold (\<lambda>d. tput (f d) (g d)) ds []) = length ds"
  shows "distinct (map f ds)"
proof -
  let ?out = "fold (\<lambda>d. tput (f d) (g d)) ds []"
  have "distinct (map fst ?out)" by (rule tsorted_distinct[OF fold_tput_sorted]) simp
  then have "card (fst ` set ?out) = length ?out" using distinct_card[of "map fst ?out"] by simp
  then have "card (set (map f ds)) = length (map f ds)"
    using assms fold_tput_keys[of f g ds "[]"] by simp
  then show ?thesis by (rule card_distinct)
qed

text \<open>Names survive departures. When every document of a listing had a name of its own,
  then for any part of these documents, in any order, the next refresh gives each the name it
  had, and nothing else; the store of names is not touched. So a document keeps its suffix when
  the document that held the plain name is gone.\<close>

theorem names_survive_departures:
  assumes run: "name_docs x ctx ws url ds (naming_start db) = Some st"
    and ids: "distinct (map d_id ds)" and all: "length (nm_desired st) = length ds"
    and rest: "set es \<subseteq> set ds" "distinct (map d_id es)"
  shows "\<exists>st'. name_docs x ctx ws url es (naming_start (nm_store st)) = Some st' \<and> nm_store st' = nm_store st
    \<and> (\<forall>nm row. tget (nm_desired st') nm = Some row \<longleftrightarrow>
         tget (nm_desired st) nm = Some row \<and> fst row \<in> d_id ` set es)"
proof -
  obtain N where N: "\<forall>d\<in>set ds. pinned x ctx ws url (nm_store st) d (N (d_id d)) \<and> render x d \<noteq> None"
    "nm_desired st = fold (\<lambda>d. tput (N (d_id d)) (row_for x ws d)) ds []"
    using name_docs_pinned[OF run ids] by (auto simp: naming_start_def)
  have dn: "distinct (map (N \<circ> d_id) ds)"
    using fold_tput_length[of "N \<circ> d_id" "row_for x ws" ds] all N(2) by (simp add: comp_def)
  have inj: "inj_on (N \<circ> d_id) (set ds)" using dn by (simp add: distinct_map)
  have de: "distinct (map (N \<circ> d_id) es)"
    using inj_on_subset[OF inj rest(1)] rest(2) by (simp add: distinct_map)
  have "\<exists>st'. name_docs x ctx ws url es (naming_start (nm_store st)) = Some st'
    \<and> nm_store st' = nm_store (naming_start (nm_store st))
    \<and> nm_desired st' = fold (\<lambda>d. tput (N (d_id d)) (row_for x ws d)) es (nm_desired (naming_start (nm_store st)))"
    by (rule name_docs_again) (use N(1) rest(1) de in \<open>auto simp: naming_start_def\<close>)
  then obtain st' where st': "name_docs x ctx ws url es (naming_start (nm_store st)) = Some st'" "nm_store st' = nm_store st"
    "nm_desired st' = fold (\<lambda>d. tput (N (d_id d)) (row_for x ws d)) es []"
    by (auto simp: naming_start_def)
  have "tget (nm_desired st') nm = Some row \<longleftrightarrow> tget (nm_desired st) nm = Some row \<and> fst row \<in> d_id ` set es" for nm row
  proof -
    have "tget (nm_desired st') nm = Some row \<longleftrightarrow> (\<exists>d\<in>set es. N (d_id d) = nm \<and> row_for x ws d = row)"
      unfolding st'(3) using fold_tput_rows[of "N \<circ> d_id" es "row_for x ws" "[]" nm row] de by simp
    moreover have "tget (nm_desired st) nm = Some row \<longleftrightarrow> (\<exists>d\<in>set ds. N (d_id d) = nm \<and> row_for x ws d = row)"
      unfolding N(2) using fold_tput_rows[of "N \<circ> d_id" ds "row_for x ws" "[]" nm row] dn by simp
    moreover have "d \<in> set es" if "d \<in> set ds" "d_id d \<in> d_id ` set es" for d
      using ids rest(1) that by (auto simp: distinct_map dest: inj_onD)
    ultimately show ?thesis using rest(1) by (fastforce simp: row_for_def)
  qed
  then show ?thesis using st' by blast
qed

section \<open>Examples\<close>

definition a_doc :: "nat \<Rightarrow> string \<Rightarrow> document" where
  "a_doc i nm = \<lparr>d_id = i, d_schema = ''data/abstraction/note'', d_data = JNull, d_updated = 0, d_locations = [],
     d_display = Some nm, d_linked = True, d_size = None, d_checksum = None, d_raw = None\<rparr>"

definition demo_names :: "document list \<Rightarrow> name_store \<Rightarrow> naming option" where
  "demo_names docs db = name_docs demo_text ''c'' (Some ''w'') ''u'' (by_placement docs) (naming_start db)"

text \<open>Printable names survive \<^verbatim>\<open>str::trim\<close>.\<close>

lemma ws_ends: "\<forall>w\<in>set ws_seqs. w \<noteq> [] \<and> \<not> (32 < byte (hd w) \<and> byte (hd w) < 127) \<and> \<not> (32 < byte (last w) \<and> byte (last w) < 127)"
  unfolding ws_seqs_def by (auto simp: byte_def hd_map last_map)

lemma strip_any_none: "\<forall>w\<in>set ws. w \<noteq> [] \<and> hd w \<noteq> hd s \<Longrightarrow> s \<noteq> [] \<Longrightarrow> strip_any ws s = None"
proof (induction ws)
  case (Cons w ws)
  then have "strip_prefix w s = None" by (cases w; cases s) auto
  then show ?case using Cons by simp
qed simp

lemma str_trim_printable:
  assumes "s \<noteq> []" "32 < byte (hd s)" "byte (hd s) < 127" "32 < byte (last s)" "byte (last s) < 127"
  shows "str_trim s = s"
proof -
  have "strip_any ws_seqs s = None" by (rule strip_any_none) (use ws_ends assms in auto)
  moreover have "strip_any (map rev ws_seqs) (rev s) = None"
    by (rule strip_any_none) (use ws_ends assms in \<open>auto simp: hd_rev\<close>)
  ultimately show ?thesis by (simp add: str_trim_def trim_start_seqs.simps)
qed
lemma plain_names: "sanitize ''a'' = ''a''" "sanitize ''a_3'' = ''a_3''"
proof -
  have c: "concat (take 120 (map clean_char (chars ''a''))) = ''a''"
    "concat (take 120 (map clean_char (chars ''a_3''))) = ''a_3''" by code_simp+
  have t: "str_trim ''a'' = ''a''" "str_trim ''a_3'' = ''a_3''"
    by (rule str_trim_printable; simp add: byte_def)+
  have d: "trim_with (\<lambda>c. c = dot) ''a'' = ''a''" "trim_with (\<lambda>c. c = dot) ''a_3'' = ''a_3''" by code_simp+
  show "sanitize ''a'' = ''a''" "sanitize ''a_3'' = ''a_3''" unfolding sanitize_def c by (simp_all add: Let_def t d)
qed

lemma a_doc_named: "sanitize nm = nm \<Longrightarrow> doc_name x (a_doc i nm) = Some nm" "d_id (a_doc i nm) = i"
  by (simp_all add: doc_name_def a_doc_def)

lemma suffix_a: "with_id_suffix ''a'' i = ''a_'' @ show_nat i"
  by (simp add: with_id_suffix_def rsplit_once_def)

lemma digits_3_5: "show_nat 3 = ''3''" "show_nat 5 = ''5''"
  by code_simp+

lemma tput_longer: "k \<notin> fst ` set t \<Longrightarrow> length (tput k v t) = Suc (length t)"
  by (induction k v t rule: tput.induct) auto

lemmas naming_simps = demo_names_def name_doc_def render_def a_doc_named plain_names choose_name_def sticky_name_def
  free_name_def naming_start_def suffix_a digits_3_5 sticky.get_put

theorem names_survive_departures_witness:
  "\<exists>st st'. name_docs demo_text ''c'' (Some ''w'') ''u'' [a_doc 3 ''a'', a_doc 5 ''a''] (naming_start []) = Some st
    \<and> name_docs demo_text ''c'' (Some ''w'') ''u'' [a_doc 5 ''a''] (naming_start (nm_store st)) = Some st'
    \<and> (\<forall>nm row. tget (nm_desired st') nm = Some row \<longleftrightarrow> tget (nm_desired st) nm = Some row \<and> fst row = 5)
    \<and> map_option fst (tget (nm_desired st) ''a_5'') = Some 5"
proof -
  obtain st where st: "name_docs demo_text ''c'' (Some ''w'') ''u'' [a_doc 3 ''a'', a_doc 5 ''a''] (naming_start []) = Some st"
    "length (nm_desired st) = 2" "map_option fst (tget (nm_desired st) ''a_5'') = Some 5"
    by (simp add: naming_simps names_get_def[of "[]"] Let_def tput_longer del: tput.simps)
  have "\<exists>st'. name_docs demo_text ''c'' (Some ''w'') ''u'' [a_doc 5 ''a''] (naming_start (nm_store st)) = Some st'
    \<and> nm_store st' = nm_store st \<and> (\<forall>nm row. tget (nm_desired st') nm = Some row \<longleftrightarrow>
         tget (nm_desired st) nm = Some row \<and> fst row \<in> d_id ` set [a_doc 5 ''a''])"
    by (rule names_survive_departures[OF st(1)]) (use st(2) in \<open>auto simp: a_doc_def\<close>)
  then show ?thesis using st(1,3) by (auto simp: a_doc_def)
qed

text \<open>Arrivals are different. A document that joins the listing with a lower id takes the
  plain name from the document that has had it: the old name now leads to another document,
  although \<^verbatim>\<open>names.rs\<close> promises that links held by other programs never silently retarget.\<close>

theorem sticky_name_retargets:
  "\<exists>st st'. demo_names [a_doc 5 ''a''] [] = Some st \<and> demo_names [a_doc 5 ''a'', a_doc 3 ''a''] (nm_store st) = Some st'
    \<and> map_option fst (tget (nm_desired st) ''a'') = Some 5
    \<and> map_option fst (tget (nm_desired st') ''a'') = Some 3
    \<and> map_option fst (tget (nm_desired st') ''a_5'') = Some 5"
proof -
  have p: "by_placement [a_doc 5 ''a''] = [a_doc 5 ''a'']"
    "by_placement [a_doc 5 ''a'', a_doc 3 ''a''] = [a_doc 3 ''a'', a_doc 5 ''a'']"
    by (simp_all add: by_placement_def a_doc_def)
  show ?thesis unfolding demo_names_def p by (simp add: naming_simps names_get_def[of "[]"] Let_def del: tput.simps)
qed

text \<open>A name with a suffix is not checked against the names in use. Of three documents one
  can get the very name of another and replace it: the first document is in no listing, neither
  in a context nor in a tree.\<close>

theorem suffix_hides_document:
  "\<exists>st rows. demo_names [a_doc 1 ''a_3'', a_doc 2 ''a'', a_doc 3 ''a''] [] = Some st
    \<and> desired_docs demo_text ''w'' (by_placement [a_doc 1 ''a_3'', a_doc 2 ''a'', a_doc 3 ''a'']) {} [] = Some rows
    \<and> map (\<lambda>(nm, row). (nm, fst row)) (nm_desired st) = [(''a'', 2), (''a_3'', 3)]
    \<and> map (\<lambda>(nm, row). (nm, fst row)) rows = [(''a'', 2), (''a_3'', 3)]"
proof -
  have p: "by_placement [a_doc 1 ''a_3'', a_doc 2 ''a'', a_doc 3 ''a''] = [a_doc 1 ''a_3'', a_doc 2 ''a'', a_doc 3 ''a'']"
    by (simp add: by_placement_def a_doc_def)
  show ?thesis unfolding demo_names_def p
    by (simp add: naming_simps row_for_def names_get_def[of "[]"] Let_def)
qed

end
