(* ===== verification/View_Faults.thy ===== *)
theory View_Faults
  imports View_Naming
begin

text \<open>
  Witnesses for the listings and three faults of the refresh: a document that comes back while
  its removal was deferred, a context that comes back with the same documents, and a trash entry
  replaced by another of the same name.
\<close>

section \<open>A tree\<close>

definition demo_selection :: workspace_selection where
  "demo_selection = \<lparr>sel_trees = [''t''], sel_home = False, sel_backends = False\<rparr>"

definition demo_tree :: view where
  "demo_tree = fst (the (apply_trees 1 [\<lparr>ti_id = ''1'', ti_name = ''t'', ti_type = ''context''\<rparr>]
     (workspace_selected 1 ''w'' ''W'' demo_selection)))"

lemma demo_tree_is: "demo_tree = (bare 1 None)\<lparr>vt_ws := Some \<lparr>ws_id = ''w'', ws_name = ''W'', ws_selection = demo_selection,
   ws_trees = [(''t'', \<lparr>wt_id = ''1'', wt_type = ''context'', wt_root = ROOT_INO\<rparr>)], ws_paths = [((''t'', ''/''), ROOT_INO)], ws_files = []\<rparr>\<rparr>"
  by (simp add: demo_tree_def apply_trees_def workspace_selected_def demo_selection_def is_explicit_def
      includes_home_def single_tree_def includes_tree_def add_ws_tree_def upd_ws_def prune_ws_def Let_def
      bare_def insert_node_def new_node_def touch_dir_def ROOT_INO_def is_dir.simps tkeys_def)

lemma demo_tree_ok: "view_ok demo_tree" "files_known demo_tree" "nview demo_tree ROOT_INO = nview (bare 1 None) ROOT_INO"
  "child demo_tree p s = None" "vt_next demo_tree = 16"
  using bare_ok[of 1 None] view_ok_cong[of demo_tree "bare 1 None"]
  by (simp_all add: demo_tree_is files_known_def child_def bare_def insert_node_def new_node_def Let_def FIRST_DYNAMIC_INO_def ROOT_INO_def)

lemma demo_rows: "desired_docs demo_text ''w'' [a_doc 3 ''a'', a_doc 5 ''a''] {} [] =
    Some (tput ''a_5'' (row_for demo_text (Some ''w'') (a_doc 5 ''a'')) (tput ''a'' (row_for demo_text (Some ''w'') (a_doc 3 ''a'')) []))"
  by (simp add: naming_simps row_for_def Let_def del: tput.simps)

theorem tree_listing_exact_witness:
  "\<exists>u v. apply_tree_documents demo_text 9 ''t'' ''/'' [a_doc 3 ''a'', a_doc 5 ''a''] demo_tree = Some (u, v) \<and> view_ok u
    \<and> map_option fst (row_of shown_doc u ROOT_INO ''a'') = Some 3 \<and> map_option fst (row_of shown_doc u ROOT_INO ''a_5'') = Some 5
    \<and> child u ROOT_INO ''b'' = None"
proof -
  let ?rows = "tput ''a_5'' (row_for demo_text (Some ''w'') (a_doc 5 ''a'')) (tput ''a'' (row_for demo_text (Some ''w'') (a_doc 3 ''a'')) [])"
  obtain dn where dn: "nview demo_tree ROOT_INO = Some dn" "is_dir dn"
    using demo_tree_ok(3) by (simp add: bare_nview new_node_def is_dir.simps)
  have np: "norm_path ''/'' = ''/''" by code_simp
  have p: "by_placement [a_doc 3 ''a'', a_doc 5 ''a''] = [a_doc 3 ''a'', a_doc 5 ''a'']" by (simp add: by_placement_def a_doc_def)
  obtain w where w: "vt_ws demo_tree = Some w" "tget (ws_paths w) (''t'', norm_path ''/'') = Some ROOT_INO" "ws_id w = ''w''"
    unfolding np by (simp add: demo_tree_is)
  have "\<exists>u v. apply_tree_documents demo_text 9 ''t'' ''/'' [a_doc 3 ''a'', a_doc 5 ''a''] demo_tree = Some (u, v) \<and> view_ok u
    \<and> files_known u \<and> lists shown_doc ?rows ROOT_INO demo_tree u
    \<and> (\<forall>p nm. p \<noteq> ROOT_INO \<longrightarrow> child u p nm = child demo_tree p nm)"
  proof (rule tree_listing_exact[OF demo_tree_ok(1,2) w(1,2) dn])
    show "\<forall>nm i. child demo_tree ROOT_INO nm = Some i \<and> shown_doc demo_tree i \<noteq> None \<longrightarrow> (\<exists>n. nview demo_tree i = Some n \<and> \<not> is_dir n)"
      by (simp add: demo_tree_ok)
    show "distinct (map d_id [a_doc 3 ''a'', a_doc 5 ''a''])" by (simp add: a_doc_def)
    show "vt_next demo_tree + length [a_doc 3 ''a'', a_doc 5 ''a''] \<le> FIRST_OVERLAY_INO"
      by (simp add: demo_tree_ok FIRST_OVERLAY_INO_def)
    show "desired_docs demo_text (ws_id w) (by_placement [a_doc 3 ''a'', a_doc 5 ''a'']) {} [] = Some ?rows"
      unfolding p w(3) by (rule demo_rows)
  qed
  then obtain u v where u: "apply_tree_documents demo_text 9 ''t'' ''/'' [a_doc 3 ''a'', a_doc 5 ''a''] demo_tree = Some (u, v)"
    "view_ok u" "lists shown_doc ?rows ROOT_INO demo_tree u" by blast
  have l: "row_of shown_doc u ROOT_INO nm = wanted_row ?rows nm \<and> (child u ROOT_INO nm = None \<longleftrightarrow> tget ?rows nm = None)" for nm
    using u(3) by (simp add: lists_def subfolder_def demo_tree_ok)
  have "map_option fst (wanted_row ?rows ''a'') = Some 3" "map_option fst (wanted_row ?rows ''a_5'') = Some 5" "tget ?rows ''b'' = None"
    by (simp_all add: wanted_row_def row_for_def a_doc_def del: tput.simps)
  then show ?thesis using u l by metis
qed

section \<open>A context\<close>

lemma context_start:
  "view_ok (context_rooted 1 ''c'')" "docs_known (context_rooted 1 ''c'')" "child (context_rooted 1 ''c'') p s = None"
  "vt_next (context_rooted 1 ''c'') = 16" "\<not> vt_defer (context_rooted 1 ''c'')"
  "nview (context_rooted 1 ''c'') ROOT_INO = nview (bare 1 (Some ''c'')) ROOT_INO"
  using bare_ok[of 1 "Some ''c''"] bare_child[of 1 "Some ''c''"]
  by (simp_all add: context_rooted_def docs_known_def) (simp_all add: bare_def FIRST_DYNAMIC_INO_def)


section \<open>A document that comes back\<close>

lemma settle_docs_defer:
  "settle_docs now dir rows xs (t, v, b) = Some (u, v', b') \<Longrightarrow> vt_defer t \<Longrightarrow>
    vt_children u = vt_children t \<and> vt_tombstones t \<subseteq> vt_tombstones u
    \<and> (\<forall>i. tget (vt_nodes t) i \<noteq> None \<longrightarrow> tget (vt_nodes u) i \<noteq> None)"
proof (induction xs arbitrary: t v b)
  case (Cons x xs)
  obtain nm i where x: "x = (nm, i)" by fastforce
  show ?case using Cons.prems
    by (fastforce simp: x tombstone_def upd_node_def split: option.splits prod.splits if_splits dest!: Cons.IH)
qed simp

lemma child_insert_other:
  assumes "child t p s = Some i" "p \<noteq> n_parent n \<or> s \<noteq> n_name n"
  shows "child (insert_node now n t) p s = Some i"
proof -
  obtain c where c: "tget (vt_children t) p = Some c" "tget c s = Some i"
    using assms(1) by (auto simp: child_def bind_eq_Some_conv)
  show ?thesis
  proof (cases "p = n_parent n")
    case True
    then show ?thesis using c assms(2) by (auto simp: child_def insert_node_def Let_def)
  next
    case False
    then show ?thesis using c by (auto simp: child_def insert_node_def Let_def)
  qed
qed

lemma lookup_insert_other:
  assumes "lookup_node t p s \<noteq> None" "p \<noteq> n_parent n \<or> s \<noteq> n_name n"
  shows "lookup_node (insert_node now n t) p s \<noteq> None"
proof -
  obtain i where i: "child t p s = Some i" "tget (vt_nodes t) i \<noteq> None"
    using assms(1) by (auto simp: lookup_node_def bind_eq_Some_conv)
  have "nview (insert_node now n t) i \<noteq> None" using i(2) by (simp add: nview_insert) (simp add: nview_def)
  then show ?thesis using child_insert_other[OF i(1) assms(2)] by (simp add: lookup_node_def nview_None)
qed

lemma add_docs_keeps:
  "add_docs now dir ctx rows (t, v, b) = (u, v', b') \<Longrightarrow> lookup_node t dir nm \<noteq> None \<Longrightarrow> child t dir nm = Some i \<Longrightarrow>
    child u dir nm = Some i \<and> vt_tombstones u = vt_tombstones t"
proof (induction rows arbitrary: t v b)
  case (Cons r rows)
  obtain nm' d c m where r: "r = (nm', d, c, m)" by (metis prod.exhaust)
  show ?case
  proof (cases "lookup_node t dir nm' = None")
    case False
    then show ?thesis using Cons by (simp add: r)
  next
    case True
    then have ne: "nm \<noteq> nm'" using Cons.prems(2) by auto
    let ?n = "new_node (vt_next t) dir nm' m c" and ?t = "t\<lparr>vt_next := vt_next t + 1\<rparr>"
    let ?u = "bind_doc ctx d (vt_next t) (insert_node now ?n ?t)"
    have l: "lookup_node (insert_node now ?n ?t) dir nm \<noteq> None"
      by (rule lookup_insert_other) (use Cons.prems(2) ne in \<open>auto simp: lookup_node_def new_node_def\<close>)
    have c: "child (insert_node now ?n ?t) dir nm = Some i"
      by (rule child_insert_other) (use Cons.prems(3) ne in \<open>auto simp: new_node_def\<close>)
    have "lookup_node ?u dir nm \<noteq> None" "child ?u dir nm = Some i"
      using l c same_nodes_view[of "insert_node now ?n ?t" ?u] by (simp_all add: same_nodes_def bind_doc_def)
    moreover have "vt_tombstones ?u = vt_tombstones t" by (simp add: bind_doc_def)
    ultimately show ?thesis using Cons.IH[of ?u] Cons.prems(1) True by (simp add: r alloc_ino_def Let_def)
  qed
qed simp

text \<open>While removals are deferred, a tombstone outlives the return of its document. Whatever
  a refresh lists, also the very document that had left, the entry keeps its name and its
  tombstone, so the next unlink of that name takes the tombstone: it is answered as a local
  cleanup, and the removal the user asked for never reaches the server.\<close>

theorem returned_document_keeps_tombstone:
  assumes "reconcile_doc_dir now dir ctx rows (t, v0) = Some (u, v, b)" "vt_defer t"
    "lookup_node t dir nm \<noteq> None" "child t dir nm = Some i" "i \<in> vt_tombstones t"
  shows "child u dir nm = Some i \<and> fst (take_tombstone dir nm u) = Some i"
proof -
  obtain t1 v1 b1 where s: "settle_docs now dir rows (own_files t dir) (t, v0, False) = Some (t1, v1, b1)"
    using assms(1) by (auto simp: reconcile_doc_dir_def)
  obtain v2 b2 where a: "add_docs now dir ctx rows (t1, v1, b1) = (u, v2, b2)"
    using assms(1) s by (auto simp: reconcile_doc_dir_def split: prod.splits)
  have k: "vt_children t1 = vt_children t" "vt_tombstones t \<subseteq> vt_tombstones t1"
    "\<forall>i. tget (vt_nodes t) i \<noteq> None \<longrightarrow> tget (vt_nodes t1) i \<noteq> None"
    using settle_docs_defer[OF s assms(2)] by blast+
  have c: "child t1 dir nm = Some i" using k(1) assms(4) by (simp add: child_def)
  moreover have "lookup_node t1 dir nm \<noteq> None" using k(3) assms(3,4) c by (simp add: lookup_node_def)
  ultimately have "child u dir nm = Some i \<and> vt_tombstones u = vt_tombstones t1" using add_docs_keeps[OF a] by blast
  then show ?thesis using k(2) assms(5) by (auto simp: take_tombstone_def)
qed

definition demo_deferred :: view where
  "demo_deferred = set_deferred_removals True
     (adopt_document 1 ROOT_INO ''a'' ''c'' 3 20 ''x'' (context_rooted 1 ''c''))"

text \<open>The document leaves, comes back under its name, and the unlink is swallowed.\<close>

theorem returned_document_keeps_tombstone_witness:
  "\<exists>t v b u v' b'. reconcile_doc_dir 2 ROOT_INO ''c'' [] (demo_deferred, inv0) = Some (t, v, b)
    \<and> reconcile_doc_dir 3 ROOT_INO ''c'' [(''a'', 3, NInline ''x'', 0)] (t, inv0) = Some (u, v', b')
    \<and> fst (take_tombstone ROOT_INO ''a'' demo_deferred) = None
    \<and> child u ROOT_INO ''a'' = Some 20 \<and> doc_of u 20 = Some 3 \<and> fst (take_tombstone ROOT_INO ''a'' u) = Some 20"
proof -
  note ev = demo_deferred_def set_deferred_removals_def adopt_document_def bind_doc_def context_rooted_def bare_def
    insert_node_def new_node_def touch_dir_def ROOT_INO_def is_dir.simps Let_def
  obtain t v b where t: "reconcile_doc_dir 2 ROOT_INO ''c'' [] (demo_deferred, inv0) = Some (t, v, b)"
    "vt_defer t" "lookup_node t ROOT_INO ''a'' \<noteq> None" "child t ROOT_INO ''a'' = Some 20" "20 \<in> vt_tombstones t"
    "doc_for_ino t 20 = Some (''c'', 3)" "vt_children t = vt_children demo_deferred" "vt_nodes t = vt_nodes demo_deferred"
    by (simp add: reconcile_doc_dir_def own_files_def kids_def tombstone_def lookup_node_def child_def doc_for_ino_def ev)
  obtain u v' b' where u: "reconcile_doc_dir 3 ROOT_INO ''c'' [(''a'', 3, NInline ''x'', 0)] (t, inv0) = Some (u, v', b')"
    "doc_for_ino u 20 = Some (''c'', 3)"
    using t(2,3,6,7,8) by (auto simp: reconcile_doc_dir_def own_files_def kids_def ev)
  have "child u ROOT_INO ''a'' = Some 20 \<and> fst (take_tombstone ROOT_INO ''a'' u) = Some 20"
    by (rule returned_document_keeps_tombstone[OF u(1) t(2-5)])
  moreover have "fst (take_tombstone ROOT_INO ''a'' demo_deferred) = None"
    by (simp add: take_tombstone_def child_def ev)
  ultimately show ?thesis using t(1) u by (auto simp: doc_of_def)
qed

section \<open>A context that comes back\<close>

lemma remove_sigs:
  "vt_sigs (fst (remove_below now k i s)) = vt_sigs (fst s)"
  "vt_sigs (fst (remove_kids now k is s)) = vt_sigs (fst s)"
proof (induction now k i s and now k "is" s rule: remove_below_remove_kids.induct)
  case (4 now k i "is" s)
  obtain t v where e: "remove_below now k i s = (t, v)" by fastforce
  obtain n t2 where r: "remove_node now i t = (n, t2)" by fastforce
  have "vt_sigs t2 = vt_sigs t" using remove_frames(12)[of now i t] r by simp
  then show ?case using 4 e r by (cases n) auto
qed simp_all

lemma drop_context_sigs: "vt_sigs (fst (drop_context now c s)) = vt_sigs (fst s)"
proof (cases "tget (vt_ctxs (fst s)) c")
  case (Some i)
  let ?s = "(fst s\<lparr>vt_ctxs := tdel c (vt_ctxs (fst s))\<rparr>, snd s)"
  obtain t v where e: "remove_subtree now i ?s = (t, v)" by fastforce
  have "vt_sigs t = vt_sigs (fst s)"
    using remove_sigs(1)[of now "length (vt_nodes (fst ?s))" i ?s] e by (simp add: remove_subtree_def)
  moreover obtain n t2 where r: "remove_node now i t = (n, t2)" by fastforce
  moreover have "vt_sigs t2 = vt_sigs t" using remove_frames(12)[of now i t] r by simp
  ultimately show ?thesis using Some e by (cases s) (auto simp: drop_context_def Let_def split: option.splits)
next
  case None
  then show ?thesis by (cases s) (simp add: drop_context_def)
qed

lemma insert_sigs: "vt_sigs (snd (add_dir now p nm c t)) = vt_sigs t"
  by (simp add: add_dir_def alloc_ino_def)

lemma add_contexts_sigs: "add_contexts x now cs (t, v, new) = Some (u, v', new') \<Longrightarrow> vt_sigs u = vt_sigs t"
proof (induction cs arbitrary: t v new)
  case (Cons c cs)
  have k: "vt_sigs (know_context c t) = vt_sigs t" for t by (simp add: know_context_def)
  have m: "vt_sigs t' = vt_sigs t" if "refresh_meta now i meta (t, v) = Some (t', v')" for i meta t' v'
    using that by (auto simp: refresh_meta_def upd_node_def split: option.splits if_splits)
  have n: "vt_sigs t' = vt_sigs t" if "new_context now meta c (t, v) = (t', v')" for meta t' v'
    using that by (auto simp: new_context_def Let_def insert_sigs k alloc_ino_def add_dir_def split: if_splits)
  show ?case using Cons.prems
    by (auto simp: k bind_eq_Some_conv split: if_splits option.splits prod.splits dest!: Cons.IH dest: m n)
qed simp

lemma reconcile_sigs:
  assumes "reconcile_doc_dir now dir ctx rows (t, v) = Some (u, v', b)"
  shows "vt_sigs u = vt_sigs t"
proof -
  have s: "settle_docs now dir rows xs (t, v, b) = Some (u, v', b') \<Longrightarrow> vt_sigs u = vt_sigs t" for xs t v b u v' b'
  proof (induction xs arbitrary: t v b)
    case (Cons x xs)
    then show ?case
      by (cases x) (auto simp: tombstone_def upd_node_def remove_doc_node_def unbind_ino_def
          split: option.splits prod.splits if_splits dest!: Cons.IH)
  qed simp
  have a: "vt_sigs (fst (add_docs now dir ctx rs (t, v, b))) = vt_sigs t" for rs t v b
  proof (induction rs arbitrary: t v b)
    case (Cons r rs)
    show ?case by (cases r) (simp add: Cons.IH alloc_ino_def bind_doc_def Let_def)
  qed simp
  obtain t1 v1 b1 where t1: "settle_docs now dir rows (own_files t dir) (t, v, False) = Some (t1, v1, b1)"
    using assms by (auto simp: reconcile_doc_dir_def)
  show ?thesis using assms t1 s[OF t1] a[of rows t1 v1 b1] by (auto simp: reconcile_doc_dir_def split: prod.splits)
qed

text \<open>The signature of a context's groups outlives the context. When a context disappears
  and comes back with the same documents, the refresh finds the old signature and does not build
  \<^verbatim>\<open>.by-schema\<close>: the directory stays as it was created, empty.\<close>

theorem reappearing_context_without_groups:
  assumes "apply_contexts x n1 [] t = Some (t1, v1, new1)" "apply_contexts x n2 cs t1 = Some (t2, v2, new2)"
    "tget (vt_ctxs t2) ctx = Some dir"
    "name_docs x ctx (tget (vt_ctx_ws t2) ctx) (or_default FLAT_NAME_KEY (tget (vt_ctx_urls t2) ctx))
       (by_placement docs) (naming_start db) = Some st"
    "tget (vt_sigs t) ctx = Some (group_signature hash (nm_grouped st))"
    "apply_documents x hash n3 ctx docs db t2 = Some (t3, v3, db')"
  shows "\<exists>b. reconcile_doc_dir n3 dir ctx (nm_desired st) (t2, inv0) = Some (t3, v3, b)"
proof -
  have drop: "vt_sigs (fst (fold (drop_context n) is s)) = vt_sigs (fst s)" for n s "is"
    by (induction "is" arbitrary: s) (simp_all add: drop_context_sigs)
  have keep: "vt_sigs u = vt_sigs t" if a: "apply_contexts x n cs t = Some (u, v, new)" for n cs t u v new
  proof -
    let ?s = "fold (drop_context n) (filter (\<lambda>i. i \<notin> c_id ` set cs) (tkeys (vt_ctxs t))) (t, inv0)"
    have "add_contexts x n cs (fst ?s, snd ?s, []) = Some (u, v, new)"
      using a by (simp add: apply_contexts_def split_beta)
    then show ?thesis using add_contexts_sigs drop[of n _ "(t, inv0)"] by fastforce
  qed
  have "tget (vt_sigs t2) ctx = Some (group_signature hash (nm_grouped st))"
    using assms(5) keep[OF assms(1)] keep[OF assms(2)] by simp
  moreover obtain t' v' b where r: "reconcile_doc_dir n3 dir ctx (nm_desired st) (t2, inv0) = Some (t', v', b)"
    using assms(3,4,6) by (auto simp: apply_documents_def bind_eq_Some_conv)
  moreover have "vt_sigs t' = vt_sigs t2" by (rule reconcile_sigs[OF r])
  ultimately show ?thesis using assms(3,4,6) by (auto simp: apply_documents_def)
qed

definition demo_context :: context_info where
  "demo_context = \<lparr>c_id = ''c'', c_url = ''u'', c_workspace = Some ''w'', c_raw = JNull\<rparr>"

text \<open>The view after the context has gone: only the signature of its one document is left.\<close>

definition demo_gone :: "naming \<Rightarrow> view" where
  "demo_gone st = (context_rooted 1 ''c'')\<lparr>vt_sigs := [(''c'', group_signature length (nm_grouped st))]\<rparr>"

lemma demo_gone_back:
  fixes st :: naming
  defines "t2 \<equiv> fst (new_context 2 ''{}'' demo_context (demo_gone st, inv0))"
  shows "\<exists>v. apply_contexts demo_text 2 [demo_context] (demo_gone st) = Some (t2, v, [''c''])"
    "view_ok t2" "docs_known t2" "\<not> vt_defer t2" "vt_next t2 = 18" "nview t2 ROOT_INO = nview (bare 1 (Some ''c'')) ROOT_INO"
    "child t2 ROOT_INO s = (if s = CONTEXT_META_FILE then Some 17 else if s = BY_SCHEMA_DIR then Some 16 else None)"
    "tget (vt_ctxs t2) ''c'' = Some ROOT_INO" "tget (vt_ctx_ws t2) ''c'' = Some ''w''" "tget (vt_ctx_urls t2) ''c'' = Some ''u''"
proof -
  let ?t = "demo_gone st"
  let ?b = "know_context demo_context (?t\<lparr>vt_ctxs := tput ''c'' ROOT_INO (vt_ctxs ?t)\<rparr>)"
  let ?s = "snd (add_dir 2 ROOT_INO BY_SCHEMA_DIR NDir ?b)"
  let ?u = "snd (add_dir 2 ROOT_INO CONTEXT_META_FILE (NInline ''{}'') ?s)"
  have root: "vt_context_root ?t = Some ''c''" "vt_ctxs ?t = []"
    by (simp_all add: demo_gone_def context_rooted_def bare_def)
  have t2: "t2 = ?u" "contexts_parent t2 = ROOT_INO"
    by (simp_all add: t2_def new_context_def root demo_context_def Let_def add_dir_def alloc_ino_def know_context_def contexts_parent_def)
  show "\<exists>v. apply_contexts demo_text 2 [demo_context] ?t = Some (t2, v, [''c''])"
    by (auto simp: apply_contexts_def root tkeys_def demo_text_def t2_def demo_context_def split: prod.splits)
  have b: "view_ok ?b" "child ?b p s = None" "nview ?b j = nview (bare 1 (Some ''c'')) j" "vt_next ?b = 16"
    "docs_known ?b" "\<not> vt_defer ?b" for p s j
    using view_ok_cong[of ?b "context_rooted 1 ''c''"] context_start(1,4)
    by (simp_all add: demo_gone_def know_context_def docs_known_def child_def)
       (simp_all add: context_rooted_def bare_def insert_node_def new_node_def Let_def)
  let ?d = "erase_time (new_node ROOT_INO ROOT_INO [] 1 NDir)"
  have d: "nview ?b ROOT_INO = Some ?d" "is_dir ?d" by (simp_all add: b bare_nview) (simp add: new_node_def is_dir.simps)
  have r1: "vt_next ?b < FIRST_OVERLAY_INO" unfolding b(4) by (simp add: FIRST_OVERLAY_INO_def)
  have s: "?s = insert_node 2 (new_node (vt_next ?b) ROOT_INO BY_SCHEMA_DIR 2 NDir) (?b\<lparr>vt_next := vt_next ?b + 1\<rparr>)"
    by (simp add: add_dir_def alloc_ino_def)
  note s1 = put_leaf(1-3)[OF b(1) d b(2) r1, where now = 2 and m = 2 and c = NDir and nm = BY_SCHEMA_DIR, folded s]
  have ns: "vt_next ?s = 17" by (simp add: s b(4))
  have ds: "nview ?s ROOT_INO = Some ?d" using s1(3)[where j = ROOT_INO] d b(4) by (simp add: ROOT_INO_def)
  have r2: "vt_next ?s < FIRST_OVERLAY_INO" unfolding ns by (simp add: FIRST_OVERLAY_INO_def)
  have fs: "child ?s ROOT_INO CONTEXT_META_FILE = None" using s1(2) b(2) by simp
  have u: "?u = insert_node 2 (new_node (vt_next ?s) ROOT_INO CONTEXT_META_FILE 2 (NInline ''{}'')) (?s\<lparr>vt_next := vt_next ?s + 1\<rparr>)"
    by (simp add: add_dir_def alloc_ino_def)
  note u1 = put_leaf(1-3)[OF s1(1) ds d(2) fs r2, where now = 2 and m = 2 and c = "NInline ''{}''", folded u]
  show "view_ok t2" unfolding t2 by (rule u1)
  show "child t2 ROOT_INO s = (if s = CONTEXT_META_FILE then Some 17 else if s = BY_SCHEMA_DIR then Some 16 else None)"
    unfolding t2 using u1(2)[where p = ROOT_INO and s = s] s1(2)[where p = ROOT_INO and s = s] b(2,4) ns by simp
  show "nview t2 ROOT_INO = nview (bare 1 (Some ''c'')) ROOT_INO"
    unfolding t2 using u1(3)[where j = ROOT_INO] ns ds d(1) b(3) by (simp add: ROOT_INO_def)
  have k: "vt_docs t2 = vt_docs ?b" "vt_defer t2 = vt_defer ?b" "vt_next t2 = vt_next ?b + 2" "vt_ctxs t2 = vt_ctxs ?b"
    "vt_ctx_ws t2 = vt_ctx_ws ?b" "vt_ctx_urls t2 = vt_ctx_urls ?b"
    unfolding t2 u by (simp_all add: s)
  show "docs_known t2" "\<not> vt_defer t2" "vt_next t2 = 18"
    using b by (auto simp: docs_known_def k)
  show "tget (vt_ctxs t2) ''c'' = Some ROOT_INO" "tget (vt_ctx_ws t2) ''c'' = Some ''w''" "tget (vt_ctx_urls t2) ''c'' = Some ''u''"
    unfolding k by (simp_all add: know_context_def demo_context_def)
qed

theorem reappearing_context_without_groups_witness:
  "\<exists>st t2 v2 t3 v3 db b. name_docs demo_text ''c'' (Some ''w'') ''u'' [a_doc 3 ''a''] (naming_start []) = Some st
    \<and> nm_grouped st \<noteq> [] \<and> apply_contexts demo_text 2 [demo_context] (demo_gone st) = Some (t2, v2, [''c''])
    \<and> apply_documents demo_text length 3 ''c'' [a_doc 3 ''a''] [] t2 = Some (t3, v3, db)
    \<and> reconcile_doc_dir 3 ROOT_INO ''c'' (nm_desired st) (t2, inv0) = Some (t3, v3, b)"
proof -
  have p: "by_placement [a_doc 3 ''a''] = [a_doc 3 ''a'']" by (simp add: by_placement_def a_doc_def)
  obtain st where st: "name_docs demo_text ''c'' (Some ''w'') ''u'' [a_doc 3 ''a''] (naming_start []) = Some st"
    and grouped: "nm_grouped st \<noteq> []"
    by (simp add: naming_simps names_get_def[of "[]"] Let_def)
  define t2 where "t2 = fst (new_context 2 ''{}'' demo_context (demo_gone st, inv0))"
  note g = demo_gone_back[where st = st, folded t2_def]
  obtain v2 where a2: "apply_contexts demo_text 2 [demo_context] (demo_gone st) = Some (t2, v2, [''c''])" using g(1) by blast
  have a1: "apply_contexts demo_text 1 [] (demo_gone st) = Some (demo_gone st, inv0, [])"
    by (simp add: apply_contexts_def tkeys_def demo_gone_def) (simp add: context_rooted_def bare_def)
  have url: "or_default FLAT_NAME_KEY (tget (vt_ctx_urls t2) ''c'') = ''u''" by (simp add: g)
  have n: "name_docs demo_text ''c'' (tget (vt_ctx_ws t2) ''c'') (or_default FLAT_NAME_KEY (tget (vt_ctx_urls t2) ''c''))
      (by_placement [a_doc 3 ''a'']) (naming_start []) = Some st"
    unfolding url g(9) p by (rule st)
  have "(nm, i) \<notin> set (own_files t2 ROOT_INO)" for nm i
    by (auto simp: own_files_def kids_child[OF g(2)] g(7) split: if_splits)
  then have "own_files t2 ROOT_INO = []" by (metis list.set_intros(1) neq_Nil_conv prod.collapse)
  then obtain u v b where r: "reconcile_doc_dir 3 ROOT_INO ''c'' (nm_desired st) (t2, inv0) = Some (u, v, b)"
    by (cases "add_docs 3 ROOT_INO ''c'' (nm_desired st) (t2, inv0, False)") (auto simp: reconcile_doc_dir_def)
  have gone: "tget (vt_sigs (demo_gone st)) ''c'' = Some (group_signature length (nm_grouped st))" by (simp add: demo_gone_def)
  obtain t3 v3 db where a3: "apply_documents demo_text length 3 ''c'' [a_doc 3 ''a''] [] t2 = Some (t3, v3, db)"
  proof -
    have "\<exists>z. apply_documents demo_text length 3 ''c'' [a_doc 3 ''a''] [] t2 = Some z"
      using r n g(8) by (simp add: apply_documents_def Let_def split_beta)
    then show thesis using that by (metis prod_cases3)
  qed
  show ?thesis
    using reappearing_context_without_groups[OF a1 a2 g(8) n gone a3] st grouped a2 a3 by blast
qed

section \<open>The trash\<close>

text \<open>A refresh of the trash compares names only. An entry whose name is wanted again keeps the
  document it was made for, also when the name now stands for another document; an unlink there
  destroys the document that the entry no longer shows on the server.\<close>

theorem trash_keeps_stale_document:
  assumes "vt_ws t = Some w" "child t TRASH_INO nm = Some i" "lookup_node t TRASH_INO nm \<noteq> None"
    "desired_docs x (ws_id w) (by_placement docs) {} [] = Some rows"
    "\<forall>s\<in>fst ` set (kids t TRASH_INO). tget rows s \<noteq> None"
    "apply_trash_documents x now docs t = Some (u, v)" "shown_doc t i = Some d" "i < vt_next t"
  shows "child u TRASH_INO nm = Some i \<and> shown_doc u i = Some d"
proof -
  have dt: "drop_trash now rows ks s = s" if "\<forall>s\<in>fst ` set ks. tget rows s \<noteq> None" for ks s
    using that
  proof (induction ks)
    case (Cons k ks)
    then show ?case by (cases k; cases s) auto
  qed simp
  have ad: "child (fst (add_files now dir tree path rs (t, v, b))) dir nm = Some i
      \<and> shown_doc (fst (add_files now dir tree path rs (t, v, b))) i = shown_doc t i"
    if "child t dir nm = Some i" "lookup_node t dir nm \<noteq> None" "i < vt_next t" for dir tree path rs t v b
    using that
  proof (induction rs arbitrary: t v b)
    case (Cons r rs)
    obtain nm' d c m where r: "r = (nm', d, c, m)" by (metis prod.exhaust)
    show ?case
    proof (cases "lookup_node t dir nm' = None")
      case True
      then have ne: "nm \<noteq> nm'" using Cons.prems(2) by auto
      let ?v = "insert_node now (new_node (vt_next t) dir nm' m c) (t\<lparr>vt_next := vt_next t + 1\<rparr>)"
      let ?u = "bind_file tree path (vt_next t) d ?v"
      have "lookup_node ?v dir nm \<noteq> None"
        by (rule lookup_insert_other) (use Cons.prems(2) ne in \<open>auto simp: lookup_node_def new_node_def\<close>)
      moreover have "child ?v dir nm = Some i"
        by (rule child_insert_other) (use Cons.prems(1) ne in \<open>auto simp: new_node_def\<close>)
      ultimately have "lookup_node ?u dir nm \<noteq> None" "child ?u dir nm = Some i"
        using same_nodes_view[of ?v ?u] by (simp_all add: same_nodes_def bind_file_def upd_ws_def)
      moreover have "i < vt_next ?u" "shown_doc ?u i = shown_doc t i"
        using Cons.prems(3) by (cases "vt_ws t"; simp add: bind_file_def upd_ws_def shown_doc_def)+
      ultimately show ?thesis using Cons.IH[of ?u] True
        by (simp add: r alloc_ino_def Let_def bind_file_def)
    qed (use Cons in \<open>simp add: r\<close>)
  qed simp
  have "u = fst (add_files now TRASH_INO TRASH_TREE_NAME TRASH_PATH rows (t, inv0, False))"
    using assms(1,4,6) dt[OF assms(5)] by (auto simp: apply_trash_documents_def split: prod.splits)
  then show ?thesis using ad[OF assms(2,3,8)] assms(7) by simp
qed

definition demo_trash :: view where
  "demo_trash = fst (add_files 2 TRASH_INO TRASH_TREE_NAME TRASH_PATH [(''a'', 3, NInline ''x'', 0)]
     (workspace_rooted 1 ''w'' ''W'', inv0, False))"

text \<open>Document 5 of the same name replaces document 3 in the trash: the entry still stands for 3.\<close>

theorem trash_keeps_stale_document_witness:
  "\<exists>u v. apply_trash_documents demo_text 3 [a_doc 5 ''a''] demo_trash = Some (u, v)
    \<and> child u TRASH_INO ''a'' = Some 16 \<and> shown_doc u 16 = Some 3"
proof -
  have rows: "desired_docs demo_text ''w'' (by_placement [a_doc 5 ''a'']) {} [] = Some [(''a'', row_for demo_text (Some ''w'') (a_doc 5 ''a''))]"
    by (simp add: by_placement_def naming_simps row_for_def Let_def)
  have t: "kids demo_trash TRASH_INO = [(''a'', 16)]" "child demo_trash TRASH_INO ''a'' = Some 16"
    "lookup_node demo_trash TRASH_INO ''a'' \<noteq> None" "vt_next demo_trash = 17"
    "map_option ws_id (vt_ws demo_trash) = Some ''w''" "shown_doc demo_trash 16 = Some 3"
    by code_simp+
  then obtain w where w: "vt_ws demo_trash = Some w" "ws_id w = ''w''" by auto
  obtain u v where u: "apply_trash_documents demo_text 3 [a_doc 5 ''a''] demo_trash = Some (u, v)"
  proof -
    have "\<exists>z. apply_trash_documents demo_text 3 [a_doc 5 ''a''] demo_trash = Some z"
      using w rows by (simp add: apply_trash_documents_def Let_def)
    then show thesis using that by auto
  qed
  have "child u TRASH_INO ''a'' = Some 16 \<and> shown_doc u 16 = Some 3"
    by (rule trash_keeps_stale_document[OF w(1) t(2,3) rows[folded w(2)] _ u t(6)]) (simp_all add: t)
  then show ?thesis using u by blast
qed

end
