(* ===== verification/Writes_Faults.thy ===== *)
theory Writes_Faults
  imports Writes_Safe View_Faults Sync_Demo
begin

text \<open>
  Witnesses for the promises of the write path, over a server that accepts everything and one
  that cannot be reached, and one more fault: a file moved to another directory while open keeps
  saving into the directory it has left.
\<close>

section \<open>Two servers\<close>

definition steady :: "json \<Rightarrow> unit net" where
  "steady body = (\<lambda>r h. (Some \<lparr>rs_status = 200, rs_headers = [], rs_json = Some body, rs_bytes = []\<rparr>, h))"

definition silent :: "unit net" where
  "silent = (\<lambda>r h. (None, h))"

definition demo_wenv :: "unit net \<Rightarrow> (mem, unit) wenv" where
  "demo_wenv net = \<lparr>we_api = \<lparr>ac_base = [], ac_token = []\<rparr>, we_net = net, we_text = demo_text, we_parse = (\<lambda>_. None),
     we_mirror = demo_env, we_operation_id = ''op'', we_now = 9\<rparr>"

lemma demo_wenv_fields [simp]:
  "we_net (demo_wenv net) = net" "we_now (demo_wenv net) = 9" "we_parse (demo_wenv net) = (\<lambda>_. None)"
  by (simp_all add: demo_wenv_def)

lemma steady_json:
  "get_json c (steady b) p h = (Inr b, h)" "send_json c (steady b) v p d h = (Inr b, h)"
  by (simp_all add: get_json_def send_json_def api_send_def steady_def then_read_def read_json_def is_success_def Let_def)

lemmas steady_api = steady_json get_document_def update_documents_def remove_documents_def get_workspace_document_def
  update_workspace_documents_def link_tree_document_def remove_tree_document_def returning_def ack_def then_read_def

lemma silent_json: "\<exists>msg. get_json c silent p h = (Inl msg, h)"
  by (simp add: get_json_def api_send_def silent_def then_read_def Let_def)

definition empty_note :: json where "empty_note = JObj [(''payload'', JObj [])]"

lemma empty_note_parts:
  "payload_of empty_note = JObj []" "extract_result_ids empty_note = []" "schema_of (JObj []) = NOTE_SCHEMA" "data_of (JObj []) = JObj []"
  by (simp_all add: empty_note_def payload_of_def extract_result_ids_def schema_of_def data_of_def jstr_def)

lemma plain_note: "apply_buffer_to_data p NOTE_SCHEMA (JObj []) ''x'' = Some (JObj [(''content'', JStr ''x'')])"
  by code_simp

section \<open>Open files\<close>

definition open_at :: "flush_target \<Rightarrow> string \<Rightarrow> open_write" where
  "open_at tgt b = \<lparr>ow_buffer = b, ow_disk = None, ow_unlinked = False, ow_dirty = True, ow_refs = 1, ow_target = tgt\<rparr>"

definition demo_wstore :: "view \<Rightarrow> flush_target \<Rightarrow> string \<Rightarrow> (mem, unit) wstore" where
  "demo_wstore t tgt b = (wstore_new t [] None ())\<lparr>w_states := [(20, open_at tgt b)]\<rparr>"

lemma demo_wstore_parts [simp]:
  "tget (w_states (demo_wstore t tgt b)) 20 = Some (open_at tgt b)" "w_tree (demo_wstore t tgt b) = t"
  "w_mirror (demo_wstore t tgt b) = None" "w_net (demo_wstore t tgt b) = ()" "w_overlay_names (demo_wstore t tgt b) = []"
  by (simp_all add: demo_wstore_def wstore_new_def)

lemma open_at_parts [simp]:
  "ow_disk (open_at tgt b) = None" "ow_dirty (open_at tgt b)" "ow_target (open_at tgt b) = tgt" "ow_buffer (open_at tgt b) = b"
  by (simp_all add: open_at_def)

text \<open>A write past the end of a two-byte file: the hole reads as zero.\<close>

theorem open_file_is_posix_witness:
  "let w = demo_wstore (context_rooted 1 ''c'') (FExisting ''c'' 3) ''ab''
   in map_option posix_of (open_bytes (snd (write_bytes 20 3 ''x'' w)) 20) = Some (pwrite 3 ''x'' (posix_of ''ab''))
    \<and> fst (pwrite 3 ''x'' (posix_of ''ab'')) = 4 \<and> pread 2 2 (pwrite 3 ''x'' (posix_of ''ab'')) = [NUL, CHR ''x'']"
proof -
  let ?w = "demo_wstore (context_rooted 1 ''c'') (FExisting ''c'' 3) ''ab''"
  have "backed ?w (open_at (FExisting ''c'' 3) ''ab'')" by (simp add: backed_def)
  moreover have "''x'' \<noteq> []" by simp
  ultimately have "map_option posix_of (open_bytes (snd (write_bytes 20 3 ''x'' ?w)) 20)
      = map_option (pwrite (nat (max 3 0)) ''x'' \<circ> posix_of) (open_bytes ?w 20)"
    by (rule open_file_is_posix[OF demo_wstore_parts(1), THEN conjunct1])
  moreover have "open_bytes ?w 20 = Some ''ab''" by (simp add: open_bytes_def)
  moreover have "pread 2 2 (pwrite 3 ''x'' (posix_of ''ab'')) = [NUL, CHR ''x'']"
    by (simp add: posix_of_def byte_at_def upt_rec numeral_nat)
  ultimately show ?thesis by (simp add: posix_of_def)
qed

theorem failed_flush_keeps_buffer_witness:
  "\<exists>err w'. flush (demo_wenv silent) 20 (demo_wstore (context_rooted 1 ''c'') (FExisting ''c'' 3) ''x'') = (Inl err, w')
    \<and> open_bytes w' 20 = Some ''x''"
proof -
  let ?w = "demo_wstore (context_rooted 1 ''c'') (FExisting ''c'' 3) ''x''"
  have "fst (flush_inner (demo_wenv silent) 20 False ?w) \<noteq> Inr ()"
    by (simp add: flush_inner_def flush_buffer_def creates_def is_home_target_def flush_target_to_def flush_update_def
        wthen_def api_io_def get_document_def returning_def then_read_def get_json_def api_send_def silent_def Let_def)
  then obtain err w' where r: "flush_inner (demo_wenv silent) 20 False ?w = (Inl err, w')"
    by (cases "flush_inner (demo_wenv silent) 20 False ?w"; cases "fst (flush_inner (demo_wenv silent) 20 False ?w)") auto
  have "open_bytes w' 20 = open_bytes ?w 20"
    using failed_flush_keeps_buffer[OF demo_wstore_parts(1) _ _ r] by (simp add: is_home_target_def)
  then show ?thesis using r by (simp add: flush_def open_bytes_def)
qed

theorem clean_document_acknowledged_witness:
  "\<exists>w' d h. flush (demo_wenv (steady empty_note)) 20 (demo_wstore (context_rooted 1 ''c'') (FExisting ''c'' 3) ''x'') = (Inr (), w')
    \<and> update_documents (we_api (demo_wenv (steady empty_note))) (steady empty_note) ''c'' [doc_update 3 NOTE_SCHEMA d] h = (Inr [], ())
    \<and> jstr ''content'' d = Some ''x''"
proof -
  let ?e = "demo_wenv (steady empty_note)" and ?w = "demo_wstore (context_rooted 1 ''c'') (FExisting ''c'' 3) ''x''"
  have "fst (flush_inner ?e 20 False ?w) = Inr ()"
    by (simp add: flush_inner_def flush_buffer_def creates_def is_home_target_def flush_target_to_def flush_update_def
        wthen_def api_io_def wopt_def steady_api empty_note_parts plain_note Let_def)
  then obtain w' where r: "flush_inner ?e 20 False ?w = (Inr (), w')" by (metis prod.collapse)
  from clean_document_acknowledged[OF demo_wstore_parts(1) _ _ _ r] obtain existing d ids h where
    g: "get_document (we_api ?e) (we_net ?e) ''c'' 3 () = (Inr existing, h)"
      "apply_buffer_to_data (we_parse ?e) (schema_of existing) (data_of existing) ''x'' = Some d"
      "update_documents (we_api ?e) (we_net ?e) ''c'' [doc_update 3 (schema_of existing) d] h = (Inr ids, w_net w')"
    by auto
  have "existing = JObj []" using g(1) by (simp add: steady_api empty_note_parts)
  then have "jstr ''content'' d = Some ''x''" using g(2) by (auto simp: empty_note_parts plain_note jstr_def)
  then show ?thesis using r g(3) \<open>existing = JObj []\<close>
    by (auto simp: flush_def empty_note_parts steady_api intro!: exI[of _ d])
qed

text \<open>The upload of a new Home file fails; the second close reports success.\<close>

theorem failed_home_upload_forgotten_witness:
  "\<exists>msg w'. flush_final (demo_wenv silent) 20 (demo_wstore demo_tree (FHomeFile ''/n'' ROOT_INO ''n'') ''x'') = (Inl (WIo msg), w')
    \<and> fst (flush_final (demo_wenv silent) 20 w') = Inr ()"
proof -
  let ?w = "demo_wstore demo_tree (FHomeFile ''/n'' ROOT_INO ''n'') ''x''" and ?e = "demo_wenv silent"
  have ws: "the_ws ?w = Some ''w''" by (simp add: the_ws_def demo_tree_is)
  obtain msg h where up: "write_home (we_api ?e) (we_net ?e) ''w'' ''/n'' ''x'' () = (Inl msg, h)"
    by (simp add: write_home_def ack_def api_send_def silent_def then_read_def Let_def)
  obtain r w' where w': "flush_final ?e 20 ?w = (r, w')" by fastforce
  have "r = Inl (WIo msg) \<and> fst (flush_final ?e 20 w') = Inr ()"
    using failed_home_upload_forgotten[OF demo_wstore_parts(1) _ _ _ _ ws _ w'] up by simp
  then show ?thesis using w' by blast
qed

lemma heading_text:
  "utf8_lossy ''# T'' = ''# T''" "str_trim ''# T'' = ''# T''" "first_markdown_h1 ''# T'' = Some ''T''"
proof -
  have t: "str_trim ''# T'' = ''# T''" "str_trim ''T'' = ''T''"
    by (rule str_trim_printable; simp add: byte_def)+
  have c: "text_lines ''# T'' = [''# T'']" "strip_prefix ''# '' ''# T'' = Some ''T''" "trim_end_with (\<lambda>c. c = CHR ''#'') ''T'' = ''T''"
    "chars ''T'' = [''T'']" "starts_with ''```'' ''# T'' = False" "starts_with ''~~~'' ''# T'' = False" by code_simp+
  show "str_trim ''# T'' = ''# T''" by (rule t)
  show "utf8_lossy ''# T'' = ''# T''" by code_simp
  show "first_markdown_h1 ''# T'' = Some ''T''" by (simp only: first_markdown_h1_def c scan_h1.simps t Let_def) (simp add: t c)
qed

theorem saved_note_reads_back_witness:
  "\<exists>d doc. apply_buffer_to_data (\<lambda>_. None) NOTE_SCHEMA (JObj []) ''# T'' = Some d
    \<and> parse_document demo_text (doc_update 3 NOTE_SCHEMA d) = Some doc \<and> content_of demo_text doc = Inline ''# T''
    \<and> jstr ''title'' d = Some ''T''"
proof -
  note b = heading_text
  have ne: "str_trim ''# T'' \<noteq> []" by (simp add: b)
  obtain d where d: "apply_buffer_to_data (\<lambda>_. None) NOTE_SCHEMA (JObj []) ''# T'' = Some d"
    by (simp add: apply_buffer_to_data_def b del: utf8_lossy.simps)
  from saved_note_reads_back[OF b(1) ne d, of demo_text 3] show ?thesis using b(3) d by (auto intro!: exI[of _ d])
qed

section \<open>Renames\<close>

lemma set_filename_states: "w_states (snd (ws_set_filename e ws ti ty path i nm w)) = w_states w"
  unfolding ws_set_filename_def by (intro wthen_states; simp)

lemma move_tree_file_ws: "map_option ws_id (vt_ws (move_tree_file ino p nm src dst t)) = map_option ws_id (vt_ws t)"
proof -
  have u: "map_option ws_id (vt_ws (upd_ws f t)) = map_option ws_id (vt_ws t)" if "\<And>w. ws_id (f w) = ws_id w" for f t
    using that by (simp add: upd_ws_def option.map_comp comp_def)
  have r: "map_option ws_id (vt_ws (reindex_tree_paths tree t)) = map_option ws_id (vt_ws t)" for tree t
    by (simp add: reindex_tree_paths_def Let_def u split: option.split prod.split del: index_walk.simps)
  have m: "vt_ws (move_entry ino p nm t) = vt_ws t"
    by (simp add: move_entry_def Let_def upd_node_def touch_dir_def split: option.split)
  show ?thesis by (simp add: move_tree_file_def Let_def r u m)
qed

lemma refile_states: "w_states (snd (refile_document e ws src ino src_nm dst_dir dst_nm w)) = w_states w"
  unfolding refile_document_def prod.case
  by (cases src, simp, intro wthen_states; (simp add: split_beta)?; (intro impI conjI wthen_states; simp add: set_filename_states)?)

lemma set_filename_tree: "ws_set_filename e ws ti ty path i nm w = (Inr (), w') \<Longrightarrow> w_tree w' = w_tree w"
  by (auto simp: ws_set_filename_def wthen_Inr dest!: api_Inr(2))

lemma refile_ws: "refile_document e ws src ino src_nm dst_dir dst_nm w = (Inr (), w') \<Longrightarrow> the_ws w' = the_ws w"
  by (auto simp: refile_document_def wthen_Inr wopt_Inr the_ws_def upd_tree_def move_tree_file_ws
      dest!: api_Inr(2) set_filename_tree split: prod.splits if_splits)

text \<open>C26: a file moved while open saves into the directory it has left. Moving a document file to
  another directory files it there and takes it from its old directory, but leaves the target of
  the open file alone: the next flush sends the buffer with the old path, from which the document
  has just been removed.\<close>

theorem moved_file_saves_to_old_directory:
  assumes st: "tget (w_states w) ino = Some s" "ow_disk s = None" "ow_target s = FWsExisting tree ti ty path i" "ow_dirty s"
    and ws: "the_ws w = Some ws" and mv: "refile_document e ws (tree, ti, ty, path, i) ino src_nm dst_dir dst_nm w = (Inr (), w1)"
    and fl: "flush_inner e ino final w1 = (Inr (), w2)"
  shows "(\<exists>h. remove_tree_document (we_api e) (we_net e) ws ti ty path [i] False h = (Inr (), w_net w1))
    \<and> (\<exists>doc h ids. update_workspace_documents (we_api e) (we_net e) ws ti ty path [doc] h = (Inr ids, w_net w2))"
proof
  obtain u v where a: "api_io (remove_tree_document (we_api e) (we_net e) ws ti ty path [i] False) u = (Inr (), v)"
    "w1 = upd_tree (move_tree_file ino dst_dir dst_nm tree (fst (the (locate_tree_dir (w_tree w) dst_dir)))) v"
    using mv by (auto simp: refile_document_def wthen_Inr wopt_Inr split: if_splits)
  show "\<exists>h. remove_tree_document (we_api e) (we_net e) ws ti ty path [i] False h = (Inr (), w_net w1)"
    using api_Inr(1)[OF a(1)] a(2) by (auto simp: upd_tree_def)
  have "w_states w1 = w_states w" using refile_states[of e ws "(tree, ti, ty, path, i)" ino src_nm dst_dir dst_nm w] mv by simp
  then have st1: "tget (w_states w1) ino = Some s" using st(1) by simp
  let ?w = "upd_state ino (\<lambda>s. s\<lparr>ow_dirty := False\<rparr>) w1"
  have "the_ws w1 = Some ws"
    using refile_ws[OF mv] ws by simp
  then have k: "the_ws ?w = Some ws" by (simp add: the_ws_def upd_state_def split: option.split)
  have f: "flush_ws_update e tree ti ty path i (ow_buffer s) ?w = (Inr (), w2)"
    using fl st st1 by (auto simp: flush_inner_def flush_buffer_def is_home_target_def creates_def flush_target_to_def
        split: if_splits sum.splits prod.splits)
  obtain doc x ids y where b: "api_io (update_workspace_documents (we_api e) (we_net e) ws ti ty path [doc]) x = (Inr ids, y)"
    "w2 = set_inline_if e (ws_ino_for_doc (w_tree y) tree path i) (ow_buffer s) y"
    using f k by (auto simp: flush_ws_update_def wthen_Inr wopt_Inr)
  show "\<exists>doc h ids. update_workspace_documents (we_api e) (we_net e) ws ti ty path [doc] h = (Inr ids, w_net w2)"
    using api_Inr(1)[OF b(1)] b(2) by (auto simp: set_inline_if_def upd_tree_def split: option.split)
qed

definition demo_moved :: view where
  "demo_moved = adopt_tree_file 2 16 ''o'' ''t'' ''/d'' 3 20 ''x'' (snd (adopt_tree_dir 1 ROOT_INO ''d'' ''t'' ''/d'' demo_tree))"

lemma demo_moved_parts:
  "locate_tree_dir demo_moved ROOT_INO = Some (''t'', ''1'', ''context'', ''/'')" "lookup_node demo_moved ROOT_INO ''n'' = None"
  "map_option ws_id (vt_ws demo_moved) = Some ''w''"
  "\<exists>n. lookup_node demo_moved 16 ''o'' = Some n \<and> n_ino n = 20 \<and> tget (vt_nodes demo_moved) 20 = Some n \<and> \<not> View.is_dir n"
  "tree_file demo_moved 20 = Some (''t'', ''1'', ''context'', ''/d'', 3)"
proof -
  have np: "norm_path ''/d'' = ''/d''" by code_simp
  note ev = demo_moved_def adopt_tree_file_def adopt_tree_dir_def View_Docs.add_dir_def alloc_ino_def demo_tree_is upd_ws_def np Let_def
    locate_tree_dir_def tree_file_def lookup_node_def child_def insert_node_def new_node_def touch_dir_def bare_def ROOT_INO_def is_dir.simps FIRST_DYNAMIC_INO_def
  show "locate_tree_dir demo_moved ROOT_INO = Some (''t'', ''1'', ''context'', ''/'')" by (simp add: ev)
  show "lookup_node demo_moved ROOT_INO ''n'' = None" by (simp add: ev)
  show "map_option ws_id (vt_ws demo_moved) = Some ''w''" by (simp add: ev)
  show "\<exists>n. lookup_node demo_moved 16 ''o'' = Some n \<and> n_ino n = 20 \<and> tget (vt_nodes demo_moved) 20 = Some n \<and> \<not> View.is_dir n"
    by (simp add: ev)
  show "tree_file demo_moved 20 = Some (''t'', ''1'', ''context'', ''/d'', 3)" by (simp add: ev)
qed

text \<open>The file \<^verbatim>\<open>/d/o\<close> is moved to \<^verbatim>\<open>/n\<close> while it is open; its flush goes to \<^verbatim>\<open>/d\<close>.\<close>

theorem moved_file_saves_to_old_directory_witness:
  "\<exists>w1 w2 doc ids. rename_ws (demo_wenv (steady empty_note)) 16 ''o'' ROOT_INO ''n''
        (demo_wstore demo_moved (FWsExisting ''t'' ''1'' ''context'' ''/d'' 3) ''x'') = (Inr (), w1)
    \<and> flush (demo_wenv (steady empty_note)) 20 w1 = (Inr (), w2)
    \<and> update_workspace_documents (we_api (demo_wenv (steady empty_note))) (steady empty_note) ''w'' ''1'' ''context'' ''/d'' [doc] ()
        = (Inr ids, ())"
proof -
  let ?e = "demo_wenv (steady empty_note)"
  let ?s = "FWsExisting ''t'' ''1'' ''context'' ''/d'' 3"
  let ?w = "demo_wstore demo_moved ?s ''x''"
  obtain n where n: "lookup_node demo_moved 16 ''o'' = Some n" "n_ino n = 20" "tget (vt_nodes demo_moved) 20 = Some n" "\<not> View.is_dir n"
    using demo_moved_parts(4) by blast
  have ws: "the_ws ?w = Some ''w''" by (simp add: the_ws_def demo_moved_parts)
  obtain w1 where mv: "refile_document ?e ''w'' (''t'', ''1'', ''context'', ''/d'', 3) 20 ''o'' ROOT_INO ''n'' ?w = (Inr (), w1)"
    by (simp add: refile_document_def wthen_def wopt_def demo_moved_parts api_io_def ws_set_filename_def steady_api)
  have st: "w_states w1 = w_states ?w"
    using refile_states[of ?e "''w''" "(''t'', ''1'', ''context'', ''/d'', 3)" 20 "''o''" ROOT_INO "''n''" ?w] mv by simp
  obtain z where z: "vt_ws (w_tree w1) = Some z" "ws_id z = ''w''" using refile_ws[OF mv] ws by (auto simp: the_ws_def)
  have "fst (flush_inner ?e 20 False w1) = Inr ()"
    using z st
    by (simp add: flush_inner_def flush_buffer_def creates_def is_home_target_def flush_target_to_def flush_ws_update_def
        wthen_def api_io_def wopt_def steady_api empty_note_parts plain_note the_ws_def upd_state_def)
  then obtain w2 where fl: "flush_inner ?e 20 False w1 = (Inr (), w2)" by (metis prod.collapse)
  have "rename_ws ?e 16 ''o'' ROOT_INO ''n'' ?w = (Inr (), w1)"
    using mv ws by (simp add: rename_ws_def wthen_def wopt_def n demo_moved_parts is_dir_at_def ROOT_INO_def)
  from moved_file_saves_to_old_directory[OF demo_wstore_parts(1) _ _ _ ws mv fl]
  obtain doc h ids where "update_workspace_documents (we_api ?e) (we_net ?e) ''w'' ''1'' ''context'' ''/d'' [doc] h = (Inr ids, w_net w2)"
    by auto
  then show ?thesis using \<open>rename_ws ?e 16 ''o'' ROOT_INO ''n'' ?w = (Inr (), w1)\<close> fl by (auto simp: flush_def)
qed

definition demo_two :: view where
  "demo_two = (insert_node 2 (new_node 17 ROOT_INO ''b'' 2 (NInline ''old''))
     (insert_node 2 (new_node 16 ROOT_INO ''a'' 2 (NInline ''new'')) (context_rooted 1 ''c'' \<lparr>vt_next := 17\<rparr>) \<lparr>vt_next := 18\<rparr>))
     \<lparr>vt_docs := [((''c'', 3), 16), ((''c'', 5), 17)]\<rparr>"

lemma demo_two_parts:
  "view_ok demo_two" "child demo_two ROOT_INO ''a'' = Some 16" "child demo_two ROOT_INO ''b'' = Some 17"
  "file_at demo_two ROOT_INO ''a'' 16" "file_at demo_two ROOT_INO ''b'' 17"
  "map_option n_content (tget (vt_nodes demo_two) 16) = Some (NInline ''new'')"
proof -
  define s where s: "s = insert_node 2 (new_node (vt_next (context_rooted 1 ''c'')) ROOT_INO ''a'' 2 (NInline ''new''))
      (context_rooted 1 ''c'' \<lparr>vt_next := vt_next (context_rooted 1 ''c'') + 1\<rparr>)"
  define u where u: "u = insert_node 2 (new_node (vt_next s) ROOT_INO ''b'' 2 (NInline ''old'')) (s\<lparr>vt_next := vt_next s + 1\<rparr>)"
  have n16: "vt_next s = 17" unfolding s context_start(4) by simp
  let ?root = "erase_time (new_node ROOT_INO ROOT_INO [] 1 NDir)"
  have d: "nview (context_rooted 1 ''c'') ROOT_INO = Some ?root" unfolding context_start(6) bare_nview by simp
  have rd: "View.is_dir ?root" by (simp add: new_node_def is_dir.simps)
  have room: "vt_next (context_rooted 1 ''c'') < FIRST_OVERLAY_INO" "vt_next s < FIRST_OVERLAY_INO"
    unfolding n16 context_start(4) by (simp_all add: FIRST_OVERLAY_INO_def)
  note a = put_leaf(1-3)[OF context_start(1) d rd context_start(3) room(1), where now = 2 and m = 2 and c = "NInline ''new''" and nm = "''a''", folded s]
  have ds: "nview s ROOT_INO = Some ?root" using a(3)[of ROOT_INO] d unfolding context_start(4) by (simp add: ROOT_INO_def)
  have free: "child s ROOT_INO ''b'' = None" using a(2)[of ROOT_INO "''b''"] unfolding context_start(3) by simp
  note b = put_leaf(1-3)[OF a(1) ds rd free room(2), where now = 2 and m = 2 and c = "NInline ''old''", folded u]
  have t: "demo_two = u\<lparr>vt_docs := [((''c'', 3), 16), ((''c'', 5), 17)]\<rparr>"
    unfolding demo_two_def u s n16[unfolded s] context_start(4) by simp
  have same: "view_ok demo_two \<longleftrightarrow> view_ok u" "nview demo_two i = nview u i" "child demo_two p x = child u p x" for i p x
    using view_ok_cong[of demo_two u] by (simp_all add: t child_def)
  show "view_ok demo_two" using same b(1) by simp
  show c: "child demo_two ROOT_INO ''a'' = Some 16" "child demo_two ROOT_INO ''b'' = Some 17"
    using same(3) b(2) a(2) unfolding context_start(4) n16 by simp_all
  have v: "nview demo_two 16 = Some (new_node 16 ROOT_INO ''a'' 2 (NInline ''new''))"
    "nview demo_two 17 = Some (new_node 17 ROOT_INO ''b'' 2 (NInline ''old''))"
    using same(2) b(3) a(3) unfolding context_start(4) n16 by (simp_all add: erase_time_def is_dir.simps new_node_def)
  show "file_at demo_two ROOT_INO ''a'' 16" "file_at demo_two ROOT_INO ''b'' 17"
    using c v by (simp_all add: file_at_def is_dir.simps new_node_def)
  show "map_option n_content (tget (vt_nodes demo_two) 16) = Some (NInline ''new'')"
  proof -
    obtain m where m: "tget (vt_nodes demo_two) 16 = Some m" "erase_time m = new_node 16 ROOT_INO ''a'' 2 (NInline ''new'')"
      using v(1) by (auto simp: nview_def)
    have "n_content (erase_time m) = n_content m" by (simp add: erase_time_def)
    then show ?thesis using m by (simp add: new_node_def)
  qed
qed


end
