(* ===== verification/Recovery.thy ===== *)
theory Recovery
  imports Sync_Protected
begin

text \<open>
  Explicit recovery (\<^verbatim>\<open>src/src/mirror/recovery.rs\<close> and the reports of
  \<^verbatim>\<open>src/src/mirror/protection.rs\<close>): the two commands with which a protected mirror is brought
  back together with its hub, one uploading the local files over whatever the hub has, one
  downloading what is missing locally. Where the code lets go of the directory lock, \<open>v_other\<close>
  stands for the other threads. The status file and the log lines are left out.
\<close>

section \<open>Reports\<close>

record push_item =
  pi_key :: string
  pi_action :: string
  pi_size :: nat
  pi_detail :: "string option"

record push_report =
  rp_dry_run :: bool
  rp_created :: nat
  rp_replaced :: nat
  rp_unchanged :: nat
  rp_skipped :: nat
  rp_failed :: nat
  rp_downloaded :: nat
  rp_kept :: nat
  rp_items :: "push_item list"

definition report_new :: "bool \<Rightarrow> push_report" where
  "report_new dry = \<lparr>rp_dry_run = dry, rp_created = 0, rp_replaced = 0, rp_unchanged = 0, rp_skipped = 0,
     rp_failed = 0, rp_downloaded = 0, rp_kept = 0, rp_items = []\<rparr>"

definition report_record :: "push_item \<Rightarrow> push_report \<Rightarrow> push_report" where
  "report_record i r =
     (let a = pi_action i;
          r = (if a = ''create'' then r\<lparr>rp_created := rp_created r + 1\<rparr>
               else if a = ''replace'' then r\<lparr>rp_replaced := rp_replaced r + 1\<rparr>
               else if a = ''unchanged'' then r\<lparr>rp_unchanged := rp_unchanged r + 1\<rparr>
               else if a = ''download'' then r\<lparr>rp_downloaded := rp_downloaded r + 1\<rparr>
               else if a = ''kept'' then r\<lparr>rp_kept := rp_kept r + 1\<rparr>
               else if a = ''skipped'' then r\<lparr>rp_skipped := rp_skipped r + 1\<rparr>
               else r\<lparr>rp_failed := rp_failed r + 1\<rparr>)
      in r\<lparr>rp_items := rp_items r @ [i]\<rparr>)"

definition item :: "string \<Rightarrow> string \<Rightarrow> nat \<Rightarrow> string option \<Rightarrow> push_item" where
  "item key action sz detail = \<lparr>pi_key = key, pi_action = action, pi_size = sz, pi_detail = detail\<rparr>"

text \<open>What the loop makes of the outcome of one file: its row and whether to go on.\<close>

definition settled_item :: "string \<Rightarrow> nat \<Rightarrow> hub_error + push_item \<Rightarrow> push_item \<times> bool" where
  "settled_item key sz r = (case r of
     Inr i \<Rightarrow> (i, False)
   | Inl e \<Rightarrow> (item key ''failed'' sz (Some (show_error e)),
        case e of Offline _ \<Rightarrow> True | Unauthorized \<Rightarrow> True | UnsafeMirror _ \<Rightarrow> True | _ \<Rightarrow> False))"

datatype recovery_error = NotProtected | InstanceChanged | RecoveryHub hub_error

section \<open>The same destination, the same hub, the same exclusions\<close>

definition recovery_preflight ::
    "'h env \<Rightarrow> bool \<Rightarrow> 'h mirror \<Rightarrow> (recovery_error + string ignore_rules) \<times> 'h mirror" where
  "recovery_preflight v dry m =
     (case verify_destination v m of Some e \<Rightarrow> (Inl (RecoveryHub e), m)
      | None \<Rightarrow> (case api_instance_id (v_api v) (m_hub m) of
        (Inl e, h) \<Rightarrow> (Inl (RecoveryHub e), m\<lparr>m_hub := h\<rparr>)
      | (Inr inst, h) \<Rightarrow>
          if (case meta (m_store m) META_INSTANCE of Some p \<Rightarrow> inst \<noteq> Some p | None \<Rightarrow> False)
          then (Inl InstanceChanged, m\<lparr>m_hub := h\<rparr>)
          else (case api_exclusions (v_api v) h of
             (Inl e, h) \<Rightarrow> (Inl (RecoveryHub e), m\<lparr>m_hub := h\<rparr>)
           | (Inr ps, h) \<Rightarrow>
               (Inr (rules_from v ps),
                case inst of Some i \<Rightarrow> if dry then m\<lparr>m_hub := h\<rparr>
                    else upd_store (\<lambda>s. set_meta s META_INSTANCE i) (m\<lparr>m_hub := h\<rparr>)
                | None \<Rightarrow> m\<lparr>m_hub := h\<rparr>))))"

section \<open>Push: local files win\<close>

definition recovery_options :: "remote_stat option \<Rightarrow> hashed \<Rightarrow> put_options" where
  "recovery_options remote h = no_put_options\<lparr>po_if_match := map_option r_sha256 remote,
     po_if_none_match_any := (remote = None), po_sha256 := Some (h_sha256 h), po_mtime := Some (h_mtime h)\<rparr>"

definition recovery_action :: "remote_stat option \<Rightarrow> hashed \<Rightarrow> string" where
  "recovery_action remote h = (case remote of
     None \<Rightarrow> ''create''
   | Some r \<Rightarrow> if r_sha256 r = h_sha256 h then ''unchanged'' else ''replace'')"

text \<open>The upload: digest, time and sequence number of the hub's copy afterwards.\<close>

definition recovery_upload ::
    "'h env \<Rightarrow> string \<Rightarrow> remote_stat option \<Rightarrow> string \<Rightarrow> hashed \<Rightarrow> 'h mirror
       \<Rightarrow> (hub_error + string \<times> nat \<times> nat) \<times> 'h mirror" where
  "recovery_upload v key remote bytes h m =
     (case (recovery_action remote h = ''unchanged'', remote) of
        (True, Some r) \<Rightarrow> (Inr (h_sha256 h, r_mtime r, 0), m)
      | _ \<Rightarrow> (case api_put (v_api v) key bytes (recovery_options remote h) (m_hub m) of
          (Inl e, hub) \<Rightarrow> (Inl e, m\<lparr>m_hub := hub\<rparr>)
        | (Inr res, hub) \<Rightarrow>
            (if pr_sha256 res \<noteq> [] \<and> pr_sha256 res \<noteq> h_sha256 h
             then Inl (OtherHub ''recovery upload returned an unexpected digest'')
             else Inr (h_sha256 h, pr_mtime res, pr_seq res), m\<lparr>m_hub := hub\<rparr>)))"

definition remove_seqs :: "job list \<Rightarrow> store \<Rightarrow> store" where
  "remove_seqs js s = foldl (\<lambda>s j. remove_job s (j_seq j)) s js"

definition uploads :: "string \<Rightarrow> job_kind \<Rightarrow> bool" where
  "uploads key k = (case k of JPush k' \<Rightarrow> k' = key | JConflict k' _ _ \<Rightarrow> k' = key | _ \<Rightarrow> False)"

definition resolve_conflict_of :: "string \<Rightarrow> store \<Rightarrow> store" where
  "resolve_conflict_of key s = (case conflict s key of
     Some c \<Rightarrow> put_conflict s (c\<lparr>c_resolved := True\<rparr>) | None \<Rightarrow> s)"

definition recovery_pushed ::
    "string \<Rightarrow> hashed \<Rightarrow> string \<times> nat \<times> nat \<Rightarrow> string \<Rightarrow> 'h mirror \<Rightarrow> 'h mirror" where
  "recovery_pushed key h up stamp m = (case up of (sha, mtime, seq) \<Rightarrow>
     view_upsert key (h_size h) (h_mtime h) (record_dirs_for key (upd_store (\<lambda>s.
       let s = put_base s key \<lparr>b_sha256 = sha, b_size = h_size h, b_mtime = mtime, b_remote_seq = seq\<rparr>;
           s = put_entry s key \<lparr>e_sha256 = sha, e_size = h_size h, e_mtime = h_mtime h, e_state = Clean\<rparr>;
           s = remove_seqs (filter (\<lambda>j. uploads key (j_kind j)) (jobs s)) s;
           s = resolve_conflict_of key s;
           s = set_meta s (stamp_key key) stamp;
           s = remove_meta s (pending_key key)
       in remove_blocked_for s key) m)))"

definition moved_on :: "string \<Rightarrow> nat \<Rightarrow> local_stat \<Rightarrow> 'h mirror \<Rightarrow> bool" where
  "moved_on key epoch stamp m \<longleftrightarrow>
     m_epoch m \<noteq> epoch \<or> stat (m_fs m) key \<noteq> Some stamp \<or> is_open_for_write m key"

text \<open>The bytes a push works on: a snapshot, or for a preview the digest only.\<close>

definition recovery_bytes ::
    "'h env \<Rightarrow> string \<Rightarrow> bool \<Rightarrow> 'h mirror \<Rightarrow> io_error + (string \<times> string) option \<times> hashed" where
  "recovery_bytes v key dry m =
     (if dry then map_sum id (Pair None) (hash_file (v_sha v) (m_fs m) key)
      else map_sum id (\<lambda>u. (Some (u_bytes u, u_fingerprint u), u_hashed u)) (upload_snapshot (v_sha v) (m_fs m) key))"

definition push_recovery_file ::
    "'h env \<Rightarrow> string \<Rightarrow> bool \<Rightarrow> 'h mirror \<Rightarrow> (hub_error + push_item) \<times> 'h mirror" where
  "push_recovery_file v key dry m =
     (case verify_destination v m of Some e \<Rightarrow> (Inl e, m) | None \<Rightarrow>
      if \<not> check_key key then (Inl (OtherHub ''invalid key''), m)
      else (case stat (m_fs m) key of None \<Rightarrow> (Inl (LocalChanged key), m)
      | Some stamp \<Rightarrow>
        if s_is_dir stamp \<or> is_open_for_write m key
        then (Inr (item key ''skipped'' (s_size stamp)
                (Some ''local file is open for writing or no longer a regular file'')), m)
        else
         (let epoch = m_epoch m; m = v_other v m in
          case recovery_bytes v key dry m of Inl _ \<Rightarrow> (Inl (OtherHub ''snapshot''), m)
          | Inr (snapshot, h) \<Rightarrow>
            (case api_head (v_api v) key (m_hub m) of
               (Inl e, hub) \<Rightarrow> (Inl e, m\<lparr>m_hub := hub\<rparr>)
             | (Inr remote, hub) \<Rightarrow>
               (let action = recovery_action remote h; m = v_other v (m\<lparr>m_hub := hub\<rparr>) in
                if moved_on key epoch stamp m
                   \<or> (case snapshot of Some (_, fp) \<Rightarrow> fp \<noteq> s_fingerprint stamp | None \<Rightarrow> False)
                then (Inl (LocalChanged key), m)
                else (case snapshot of
                  None \<Rightarrow> (Inr (item key action (h_size h) None), m)
                | Some (bytes, _) \<Rightarrow>
                  (case recovery_upload v key remote bytes h (v_other v m) of
                     (Inl e, m) \<Rightarrow> (Inl e, m)
                   | (Inr up, m) \<Rightarrow>
                     (let m = v_other v m in
                      case verify_destination v m of Some e \<Rightarrow> (Inl e, m) | None \<Rightarrow>
                      if moved_on key epoch stamp m
                      then (Inr (item key action (h_size h)
                              (Some ''uploaded snapshot; newer local work remains pending'')), m)
                      else (Inr (item key action (h_size h) None),
                            recovery_pushed key h up (s_fingerprint stamp) m)))))))))"

fun push_files ::
    "'h env \<Rightarrow> string ignore_rules \<Rightarrow> bool \<Rightarrow> (string \<times> local_stat) list \<Rightarrow> push_report \<Rightarrow> 'h mirror
       \<Rightarrow> push_report \<times> 'h mirror" where
  "push_files v ig dry [] rep m = (rep, m)"
| "push_files v ig dry ((key, st) # files) rep m =
     (if s_is_dir st then push_files v ig dry files rep m
      else (case (if is_ignored (v_glob v) ig key
                  then (Inr (item key ''skipped'' (s_size st) (Some ''excluded from mirror sync'')), m)
                  else push_recovery_file v key dry m) of
        (r, m) \<Rightarrow> (case settled_item key (s_size st) r of
          (i, stop) \<Rightarrow> if stop then (report_record i rep, m)
                       else push_files v ig dry files (report_record i rep) m)))"

definition recovery_done :: "bool \<Rightarrow> 'h mirror \<Rightarrow> 'h mirror" where
  "recovery_done dry m = (if dry then m else m\<lparr>m_protected_jobs := {}\<rparr>)"

definition push_local :: "'h env \<Rightarrow> bool \<Rightarrow> 'h mirror \<Rightarrow> (recovery_error + push_report) \<times> 'h mirror" where
  "push_local v dry m =
     (if \<not> protected (v_opts v) then (Inl NotProtected, m)
      else case recovery_preflight v dry m of
        (Inl e, m) \<Rightarrow> (Inl e, m)
      | (Inr ig, m) \<Rightarrow>
          (case push_files v ig dry (sort_key fst (walk_from (m_fs m) [])) (report_new dry) m of
             (rep, m) \<Rightarrow> (Inr rep, recovery_done dry m)))"

section \<open>Pull: what is missing locally\<close>

definition recovery_may_land :: "string \<Rightarrow> nat \<Rightarrow> 'h mirror \<Rightarrow> bool" where
  "recovery_may_land key epoch m \<longleftrightarrow>
     m_epoch m = epoch \<and> protected_download_allowed m key \<and> \<not> is_open_for_write m key"

definition undone_by_download :: "string \<Rightarrow> job_kind \<Rightarrow> bool" where
  "undone_by_download key k = (case k of
     JDelete k' _ \<Rightarrow> k' = key | JPush k' \<Rightarrow> k' = key | JConflict k' _ _ \<Rightarrow> k' = key
   | JRename src _ \<Rightarrow> src = key | _ \<Rightarrow> False)"

definition recovery_pulled :: "string \<Rightarrow> remote_stat \<Rightarrow> hashed \<Rightarrow> 'h mirror \<Rightarrow> 'h mirror" where
  "recovery_pulled key r h m =
     view_upsert key (h_size h) (h_mtime h) (record_dirs_for key (upd_store (\<lambda>s.
       let s = put_entry s key (entry_of_hash h Clean);
           s = put_base s key \<lparr>b_sha256 = h_sha256 h, b_size = h_size h, b_mtime = r_mtime r, b_remote_seq = 0\<rparr>;
           s = remove_seqs (filter (\<lambda>j. undone_by_download key (j_kind j)) (jobs s)) s
       in remove_blocked_for s key) m))"

definition pull_recovery_file ::
    "'h env \<Rightarrow> string \<Rightarrow> remote_stat \<Rightarrow> bool \<Rightarrow> 'h mirror \<Rightarrow> (hub_error + push_item) \<times> 'h mirror" where
  "pull_recovery_file v key r dry m =
     (case verify_destination v m of Some e \<Rightarrow> (Inl e, m) | None \<Rightarrow>
      if \<not> check_key key then (Inl (OtherHub ''invalid key''), m)
      else if exists_local (m_fs m) key then (Inr (item key ''kept'' (r_size r) None), m)
      else if \<not> protected_download_allowed m key \<or> is_open_for_write m key
      then (Inr (item key ''skipped'' (r_size r) (Some ''path is a symlink, open, or under a non-directory'')), m)
      else if dry then (Inr (item key ''download'' (r_size r) None), m)
      else (case fetch v key (r_sha256 r) (r_mtime r) (recovery_may_land key (m_epoch m)) (v_other v m) of
          (Inr h, m) \<Rightarrow> (Inr (item key ''download'' (r_size r) None), recovery_pulled key r h m)
        | (Inl HubNotFound, m) \<Rightarrow> (Inr (item key ''skipped'' (r_size r) (Some ''gone upstream'')), m)
        | (Inl (LocalChanged _), m) \<Rightarrow>
            (Inr (item key ''kept'' (r_size r) (Some ''appeared locally during download'')), m)
        | (Inl e, m) \<Rightarrow> (Inl e, m)))"

definition pull_recovery_key ::
    "'h env \<Rightarrow> string ignore_rules \<Rightarrow> bool \<Rightarrow> string \<times> remote_stat \<Rightarrow> 'h mirror
       \<Rightarrow> (hub_error + push_item) \<times> 'h mirror" where
  "pull_recovery_key v ig dry kr m = (case kr of (key, r) \<Rightarrow>
     if is_ignored (v_glob v) ig key
     then (Inr (item key ''skipped'' (r_size r) (Some ''excluded from mirror sync'')), m)
     else if pending_directory_move m key
     then (Inr (item key ''skipped'' (r_size r) (Some ''under a pending directory move; review it first'')), m)
     else pull_recovery_file v key r dry m)"

fun pull_files ::
    "'h env \<Rightarrow> string ignore_rules \<Rightarrow> bool \<Rightarrow> (string \<times> remote_stat) list \<Rightarrow> push_report \<Rightarrow> 'h mirror
       \<Rightarrow> push_report \<times> 'h mirror" where
  "pull_files v ig dry [] rep m = (rep, m)"
| "pull_files v ig dry (kr # rest) rep m =
     (case pull_recovery_key v ig dry kr m of
        (r, m) \<Rightarrow> (case settled_item (fst kr) (r_size (snd kr)) r of
          (i, stop) \<Rightarrow> if stop then (report_record i rep, m)
                       else pull_files v ig dry rest (report_record i rep) m))"

text \<open>The listing of the whole hub, one unit of fuel a page.\<close>

fun recovery_listing ::
    "'h env \<Rightarrow> nat \<Rightarrow> string option \<Rightarrow> (string, remote_stat) table \<Rightarrow> 'h
       \<Rightarrow> ((hub_error + (string, remote_stat) table) \<times> 'h) option" where
  "recovery_listing v 0 cur remote h = None"
| "recovery_listing v (Suc n) cur remote h =
     (case api_list (v_api v) [] cur LIST_PAGE h of
        (Inl e, h) \<Rightarrow> Some (Inl e, h)
      | (Inr page, h) \<Rightarrow>
          (let remote = foldl (add_listed v) remote (ls_objects page)
           in case ls_cursor page of
                Some c \<Rightarrow> recovery_listing v n (Some c) remote h
              | None \<Rightarrow> Some (Inr remote, h)))"

definition pull_remote ::
    "'h env \<Rightarrow> nat \<Rightarrow> bool \<Rightarrow> 'h mirror \<Rightarrow> ((recovery_error + push_report) \<times> 'h mirror) option" where
  "pull_remote v n dry m =
     (if \<not> protected (v_opts v) then Some (Inl NotProtected, m)
      else case recovery_preflight v dry m of
        (Inl e, m) \<Rightarrow> Some (Inl e, m)
      | (Inr ig, m) \<Rightarrow> (case recovery_listing v n None [] (m_hub m) of
          None \<Rightarrow> None
        | Some (Inl e, h) \<Rightarrow> Some (Inl (RecoveryHub e), m\<lparr>m_hub := h\<rparr>)
        | Some (Inr remote, h) \<Rightarrow>
            (case pull_files v ig dry remote (report_new dry) (m\<lparr>m_hub := h\<rparr>) of
               (rep, m) \<Rightarrow> Some (Inr rep, recovery_done dry m))))"

end
