(* ===== verification/Recovery_Safe.thy ===== *)
theory Recovery_Safe
  imports Recovery Sync_Transfer
begin

text \<open>
  What recovery promises: it removes and replaces nothing in the folder and deletes and moves
  nothing on the hub, every upload is conditional on what the hub was just seen to hold, a
  preview only reads, a file reported as pushed or downloaded is in sync, and the report has a
  row for every file.
\<close>

section \<open>Nothing is lost\<close>

definition conditional_put :: "put_options \<Rightarrow> bool" where
  "conditional_put po \<longleftrightarrow> po_if_none_match_any po \<or> po_if_match po \<noteq> None"

lemma recovery_options_conditional: "conditional_put (recovery_options remote h)"
  by (cases remote) (simp_all add: conditional_put_def recovery_options_def)

context additive
begin

lemma K_preflight: "K m \<Longrightarrow> K (snd (recovery_preflight v dry m))"
proof -
  assume K: "K m"
  have "K (m\<lparr>m_hub := h\<rparr>)" "K (upd_store f (m\<lparr>m_hub := h\<rparr>))" if "H h" for h f
    using K that by (simp_all add: K_def)
  moreover have "H h" if "api_instance_id (v_api v) (m_hub m) = (r, h)" for r h
    using hub_call(1)[OF K that] by (simp add: K_def)
  moreover have "H h" if "api_exclusions (v_api v) h0 = (r, h)" "H h0" for r h h0
    using hub that by (fastforce simp: additive_hub_def)
  ultimately show ?thesis using K
    by (auto simp: recovery_preflight_def split: option.split sum.split prod.split)
qed

end

text \<open>The contract of a push: every conditional upload keeps \<open>H\<close>.\<close>

locale recovering = additive +
  assumes conditional: "conditional_put po \<Longrightarrow> H h \<Longrightarrow> H (snd (api_put (v_api v) k b po h))"
begin

lemma K_upload: "K m \<Longrightarrow> K (snd (recovery_upload v key remote bytes h m))"
proof -
  assume K: "K m"
  have "K (m\<lparr>m_hub := hub\<rparr>)" if "api_put (v_api v) key bytes (recovery_options remote h) (m_hub m) = (r, hub)" for r hub
    using conditional[OF recovery_options_conditional, of "m_hub m" key bytes remote h] K that by (simp add: K_def)
  then show ?thesis using K by (auto simp: recovery_upload_def split: option.split bool.split prod.split sum.split)
qed

lemma K_pushed: "K m \<Longrightarrow> K (recovery_pushed key h up st m)"
  by (simp add: recovery_pushed_def K_def split: prod.split)

lemma K_push_file: "K m \<Longrightarrow> K (snd (push_recovery_file v key dry m))"
proof -
  assume K: "K m"
  then have K1: "K (v_other v m)" by (rule K_other)
  have hd: "K ((v_other v m)\<lparr>m_hub := hub\<rparr>)" if "api_head (v_api v) key (m_hub (v_other v m)) = (r, hub)" for r hub
    by (rule hub_call(5)[OF K1 that])
  have up: "K m2" if "api_head (v_api v) key (m_hub (v_other v m)) = (rr, hub)"
    "recovery_upload v key remote b h (v_other v (v_other v ((v_other v m)\<lparr>m_hub := hub\<rparr>))) = (r, m2)" for rr hub remote b h r m2
    using K_upload[OF K_other[OF K_other[OF hd[OF that(1)]]], of key remote b h] that(2) by simp
  show ?thesis using K
    by (auto simp: push_recovery_file_def Let_def intro!: K_pushed intro: hd up
        split: option.split sum.split prod.split)
qed

lemma K_push_files: "K m \<Longrightarrow> K (snd (push_files v ig dry files rep m))"
proof (induction files arbitrary: rep m)
  case (Cons f files)
  obtain key st where f: "f = (key, st)" by fastforce
  then show ?case using Cons K_push_file[OF Cons.prems, of key dry]
    by (auto split: prod.split)
qed simp

lemma K_push_local: "K m \<Longrightarrow> K (snd (push_local v dry m))"
proof -
  assume K: "K m"
  have "K m1" if "recovery_preflight v dry m = (r, m1)" for r m1 using K_preflight[OF K, of dry] that by simp
  moreover have "K m2" if "push_files v ig dry fs rep m1 = (r, m2)" "K m1" for ig fs rep m1 r m2
    using K_push_files[OF that(2), of ig dry fs rep] that(1) by simp
  ultimately show ?thesis using K
    by (fastforce simp: push_local_def recovery_done_def K_def split: sum.split prod.split)
qed

end

text \<open>A pull needs less: it uploads nothing.\<close>

context additive
begin

lemma K_pulled: "K m \<Longrightarrow> K (recovery_pulled key r h m)"
  by (simp add: recovery_pulled_def K_def Let_def)

lemma K_pull_key: "K m \<Longrightarrow> K (snd (pull_recovery_key v ig dry kr m))"
proof -
  assume K: "K m"
  have "K m1" if "fetch v key (r_sha256 r) (r_mtime r) (recovery_may_land key (m_epoch m)) (v_other v m) = (x, m1)" for key r x m1
    using K_fetch[of "v_other v m" "recovery_may_land key (m_epoch m)" key "r_sha256 r" "r_mtime r"] K_other[OF K] that
    by (simp add: recovery_may_land_def)
  then show ?thesis using K
    by (auto simp: pull_recovery_key_def pull_recovery_file_def intro!: K_pulled
        split: option.split sum.split prod.split hub_error.split)
qed

lemma K_pull_files: "K m \<Longrightarrow> K (snd (pull_files v ig dry rest rep m))"
proof (induction rest arbitrary: rep m)
  case (Cons kr rest)
  then show ?case using K_pull_key[OF Cons.prems, of ig dry kr] by (auto split: prod.split)
qed simp

lemma H_listing: "H h \<Longrightarrow> recovery_listing v n cur remote h = Some (r, h') \<Longrightarrow> H h'"
proof (induction n arbitrary: cur remote h)
  case (Suc n)
  have l: "H h1" if "api_list (v_api v) [] cur LIST_PAGE h = (x, h1)" for x h1
    using hub Suc.prems(1) that unfolding additive_hub_def by (metis snd_conv)
  then show ?case using Suc by (auto simp: Let_def split: prod.splits sum.splits option.splits)
qed simp

lemma K_pull_remote:
  assumes "K m" "pull_remote v n dry m = Some (r, m')"
  shows "K m'"
proof -
  have pre: "K m1" if "recovery_preflight v dry m = (r, m1)" for r m1
    using K_preflight[OF assms(1), of dry] that by simp
  have l: "K (m1\<lparr>m_hub := h\<rparr>)" if "recovery_listing v n None [] (m_hub m1) = Some (r, h)" "K m1" for m1 r h
    using H_listing[OF _ that(1)] that(2) by (simp add: K_def)
  have f: "K m2" if "pull_files v ig dry rest rep m1 = (r, m2)" "K m1" for ig rest rep m1 r m2
    using K_pull_files[OF that(2), of ig dry rest rep] that(1) by simp
  have d: "K m1 \<Longrightarrow> K (recovery_done dry m1)" for m1 by (simp add: recovery_done_def K_def)
  show ?thesis using assms
    by (auto simp: pull_remote_def intro!: d dest: pre l f split: sum.splits prod.splits option.splits if_splits)
qed

end

text \<open>Requests that take nothing away: reads, the creation of a directory, and uploads on the
  condition that the name is free or holds what the sender has seen there.\<close>

definition cautious :: "client \<Rightarrow> request \<Rightarrow> bool" where
  "cautious c q \<longleftrightarrow> rq_method q = ''GET'' \<or> rq_method q = ''HEAD''
     \<or> rq_method q = ''POST'' \<and> rq_url q = home_url c ''mkdir''
     \<or> rq_method q = ''PUT'' \<and> (map_of (rq_headers q) ''if-none-match'' = Some ''*''
         \<or> map_of (rq_headers q) ''if-match'' \<noteq> None)"

lemma harmless_cautious: "harmless c q \<Longrightarrow> cautious c q"
  by (auto simp: harmless_def cautious_def)

lemma cautious_put: "conditional_put po \<Longrightarrow> cautious c (sent c (rq ''PUT'' u (put_headers c po) b))"
  by (auto simp: cautious_def conditional_put_def put_headers_if_match put_headers_if_none)

definition all_cautious :: "client \<Rightarrow> request list \<times> 'g \<Rightarrow> bool" where
  "all_cautious c st \<longleftrightarrow> list_all (cautious c) (fst st)"

text \<open>Whatever holds of a request holds of all requests its retries log.\<close>

lemma retries_all:
  "P (sent c r) \<Longrightarrow> list_all P (fst st) \<Longrightarrow> list_all P (fst (snd (with_retries c (logged net) r st)))"
  using with_retries_log[of c net r "fst st" "snd st"] by (auto simp: list_all_iff)

lemma call_all:
  "P (sent c r) \<Longrightarrow> list_all P (fst st) \<Longrightarrow> list_all P (fst (snd (call_json c (logged net) r st)))"
  using retries_all[of P c r st net] call_json_log[of c net r st] by simp

lemmas hub_calls = additive_hub_def http_hub_def instance_id_def ping_def exclusions_def list_objects_def
  get_changes_def head_object_def get_object_def hub_mkdir_def split_def Let_def

lemma additive_conditional: "additive_put po \<Longrightarrow> conditional_put po"
  by (auto simp: additive_put_def conditional_put_def)

lemma put_cautious:
  "conditional_put po \<Longrightarrow> all_cautious c st \<Longrightarrow> all_cautious c (snd (put_object c (logged net) k b po st))"
  using call_all[of "cautious c", OF cautious_put[of po c "object_url c k" "ByteBody b"], of st net]
  by (simp add: put_object_def split_def all_cautious_def)

lemma http_hub_cautious: "additive_hub (http_hub c (logged net)) (all_cautious c)"
  using call_all[of "cautious c" c _ _ net, OF harmless_cautious] retries_all[of "cautious c" c _ _ net, OF harmless_cautious]
    put_cautious[OF additive_conditional, of _ c _ net]
  by (simp add: hub_calls all_cautious_def split: sum.split)

lemma recovering_wire:
  assumes "protected (v_opts v)" "bystanders v" "v_api v = http_hub c (logged net)"
  shows "recovering v f0 (all_cautious c)"
proof -
  have "additive v f0 (all_cautious c)"
    unfolding additive_def using assms http_hub_cautious spares_trans by (auto simp: bystanders_def)
  then show ?thesis
    unfolding recovering_def recovering_axioms_def assms(3) http_hub_def by (auto intro: put_cautious)
qed

interpretation wired: recovering
  "undisturbed (v\<lparr>v_opts := (v_opts v)\<lparr>protected := True\<rparr>, v_api := http_hub c (logged net)\<rparr>)" f0 "all_cautious c"
  for v and c and net :: "'g net" and f0
  by (rule recovering_wire) (simp_all add: undisturbed_def bystanders_def)


section \<open>A preview only reads\<close>

text \<open>The contract of a preview: the reads of the hub keep \<open>H\<close>, and nobody else is at work.\<close>

definition read_only_hub :: "'h hub_api \<Rightarrow> ('h \<Rightarrow> bool) \<Rightarrow> bool" where
  "read_only_hub api H \<longleftrightarrow>
     (\<forall>h. H h \<longrightarrow> H (snd (api_instance_id api h)) \<and> H (snd (api_exclusions api h))
        \<and> (\<forall>p c n. H (snd (api_list api p c n h))) \<and> (\<forall>k. H (snd (api_head api k h))))"

definition only_read :: "('h \<Rightarrow> bool) \<Rightarrow> 'h mirror \<Rightarrow> 'h mirror \<Rightarrow> bool" where
  "only_read H m m' \<longleftrightarrow> (\<exists>h. m' = m\<lparr>m_hub := h\<rparr> \<and> (H (m_hub m) \<longrightarrow> H h))"

locale previewing =
  fixes v :: "'h env" and H :: "'h \<Rightarrow> bool"
  assumes alone: "v_other v m = m" and reads: "read_only_hub (v_api v) H"
begin

lemma only_read_refl: "only_read H m m"
  unfolding only_read_def by (rule exI[of _ "m_hub m"]) simp

lemma only_read_trans: "only_read H m m1 \<Longrightarrow> only_read H m1 m2 \<Longrightarrow> only_read H m m2"
  by (auto simp: only_read_def)

lemma only_read_hub:
  "api_instance_id (v_api v) (m_hub m) = (r1, h) \<Longrightarrow> only_read H m (m\<lparr>m_hub := h\<rparr>)"
  "api_head (v_api v) k (m_hub m) = (r2, h) \<Longrightarrow> only_read H m (m\<lparr>m_hub := h\<rparr>)"
  "api_instance_id (v_api v) (m_hub m) = (r1, h) \<Longrightarrow> api_exclusions (v_api v) h = (r3, h') \<Longrightarrow>
     only_read H m (m\<lparr>m_hub := h'\<rparr>)"
  using reads unfolding read_only_hub_def only_read_def by (metis snd_conv)+

lemma preview_preflight: "only_read H m (snd (recovery_preflight v True m))"
  by (auto simp: recovery_preflight_def intro: only_read_refl only_read_hub split: option.split sum.split prod.split)

lemma preview_push_file: "only_read H m (snd (push_recovery_file v key True m))"
proof -
  have "only_read H m (m\<lparr>m_hub := hub\<rparr>)" if "api_head (v_api v) key (m_hub m) = (r, hub)" for r hub
    by (rule only_read_hub(2)[OF that])
  then show ?thesis
    by (auto simp: push_recovery_file_def recovery_bytes_def alone Let_def map_sum_def intro: only_read_refl
        split: option.split sum.split prod.split)
qed

lemma preview_push_files: "only_read H m (snd (push_files v ig True files rep m))"
proof (induction files arbitrary: rep m)
  case (Cons f files)
  obtain key st where f: "f = (key, st)" by fastforce
  obtain r m1 where r: "push_recovery_file v key True m = (r, m1)" by fastforce
  have "only_read H m m1" using preview_push_file[of m key] r by simp
  then have "only_read H m (snd (push_files v ig True files rep' m1))" for rep'
    using only_read_trans[OF _ Cons.IH] by blast
  then show ?case using Cons.IH \<open>only_read H m m1\<close> by (auto simp: f r intro: only_read_refl split: prod.split)
qed (simp add: only_read_refl)

lemma preview_push: "only_read H m (snd (push_local v True m))"
proof -
  obtain r m1 where p: "recovery_preflight v True m = (r, m1)" by fastforce
  then have m1: "only_read H m m1" using preview_preflight[of m] by simp
  then have "only_read H m (snd (push_files v ig True fs rep m1))" for ig fs rep
    using only_read_trans[OF _ preview_push_files] by blast
  then show ?thesis using m1
    by (auto simp: push_local_def p recovery_done_def intro: only_read_refl split: sum.split prod.split) (metis snd_conv)
qed

lemma preview_pull_key: "snd (pull_recovery_key v ig True kr m) = m"
  by (auto simp: pull_recovery_key_def pull_recovery_file_def split: prod.split option.split)

lemma preview_pull_files: "snd (pull_files v ig True rest rep m) = m"
proof (induction rest arbitrary: rep)
  case (Cons kr rest)
  obtain r m1 where r: "pull_recovery_key v ig True kr m = (r, m1)" by fastforce
  then have "m1 = m" using preview_pull_key[of ig kr m] by simp
  then show ?case using Cons.IH r by (auto split: prod.split)
qed simp

lemma listing_reads: "H h \<Longrightarrow> recovery_listing v n cur remote h = Some (r, h') \<Longrightarrow> H h'"
proof (induction n arbitrary: cur remote h)
  case (Suc n)
  have l: "H h1" if "api_list (v_api v) [] cur LIST_PAGE h = (x, h1)" for x h1
    using reads Suc.prems(1) that unfolding read_only_hub_def by (metis snd_conv)
  then show ?case using Suc by (auto simp: Let_def split: prod.splits sum.splits option.splits)
qed simp

lemma preview_pull:
  assumes "pull_remote v n True m = Some (r, m')"
  shows "only_read H m m'"
proof -
  obtain x m1 where p: "recovery_preflight v True m = (x, m1)" by fastforce
  then have m1: "only_read H m m1" using preview_preflight[of m] by simp
  have "only_read H m1 (m1\<lparr>m_hub := h\<rparr>)" if "recovery_listing v n None [] (m_hub m1) = Some (y, h)" for y h
    using listing_reads[OF _ that] by (auto simp: only_read_def)
  note l = only_read_trans[OF m1 this]
  have f: "m3 = m2" if "pull_files v ig True rest rep m2 = (y, m3)" for ig rest rep m2 y m3
    using preview_pull_files[of ig rest rep m2] that by simp
  show ?thesis using assms m1 l
    by (auto simp: pull_remote_def p recovery_done_def intro: only_read_refl dest: f
        split: if_splits sum.splits prod.splits option.splits)
qed

end

definition reading :: "request \<Rightarrow> bool" where
  "reading q \<longleftrightarrow> rq_method q = ''GET'' \<or> rq_method q = ''HEAD''"

lemma http_hub_reads: "read_only_hub (http_hub c (logged net)) (\<lambda>st. list_all reading (fst st))"
  using call_all[of reading c _ _ net] retries_all[of reading c _ _ net]
  by (simp add: read_only_hub_def hub_calls reading_def split: sum.split)

interpretation preview: previewing
  "undisturbed (v\<lparr>v_api := http_hub c (logged net)\<rparr>)" "\<lambda>st. list_all reading (fst st)"
  for v and c and net :: "'g net"
  by unfold_locales (simp_all add: undisturbed_def http_hub_reads)

text \<open>A preview only reads. A recovery with \<^verbatim>\<open>dry_run\<close> leaves folder, ledger, queue and view
  exactly as they are and sends nothing but GET and HEAD requests.\<close>

theorem recovery_preview_reads_only:
  fixes v :: "(request list \<times> 'g) env"
  assumes "v = undisturbed (v0\<lparr>v_api := http_hub c (logged net)\<rparr>)" "fst (m_hub m) = []"
  shows "(push_local v True m = (r, m1) \<longrightarrow> (\<exists>h. m1 = m\<lparr>m_hub := h\<rparr> \<and> list_all reading (fst h)))
    \<and> (pull_remote v n True m = Some (r, m2) \<longrightarrow> (\<exists>h. m2 = m\<lparr>m_hub := h\<rparr> \<and> list_all reading (fst h)))"
proof -
  have "push_local v True m = (r, m1) \<Longrightarrow> only_read (\<lambda>st. list_all reading (fst st)) m m1"
    using preview.preview_push[where v = v0 and c = c and net = net and m = m] unfolding assms(1) by simp
  moreover have "pull_remote v n True m = Some (r, m2) \<Longrightarrow> only_read (\<lambda>st. list_all reading (fst st)) m m2"
    unfolding assms(1) by (rule preview.preview_pull)
  ultimately show ?thesis using assms(2) by (auto simp: only_read_def)
qed

section \<open>What a push leaves behind\<close>

lemma remove_seqs_frames:
  "entry (remove_seqs js s) i = entry s i" "base (remove_seqs js s) i = base s i"
  "jobs_tbl (remove_seqs js s) = filter (\<lambda>(q, _). q \<notin> j_seq ` set js) (jobs_tbl s)"
proof -
  have t: "remove_seqs js s = s\<lparr>jobs_tbl := foldl (\<lambda>t j. tdel (j_seq j) t) (jobs_tbl s) js\<rparr>"
    by (induction js arbitrary: s) (simp_all add: remove_seqs_def remove_job_def)
  show "entry (remove_seqs js s) i = entry s i" "base (remove_seqs js s) i = base s i"
    "jobs_tbl (remove_seqs js s) = filter (\<lambda>(q, _). q \<notin> j_seq ` set js) (jobs_tbl s)"
    by (simp_all add: t entry_def base_def foldl_tdel_filter)
qed

lemma removed_jobs_gone:
  assumes "j \<in> set (jobs (remove_seqs (filter (\<lambda>j. P (j_kind j)) (jobs s0)) s))" "jobs s0 = jobs s"
  shows "\<not> P (j_kind j)"
proof
  assume P: "P (j_kind j)"
  obtain q j0 where j: "(q, j0) \<in> set (jobs_tbl s)" "q \<notin> j_seq ` set (filter (\<lambda>j. P (j_kind j)) (jobs s0))" "j = j0\<lparr>j_seq := q\<rparr>"
    using assms(1) by (auto simp: jobs_def remove_seqs_frames)
  then have "j \<in> set (filter (\<lambda>j. P (j_kind j)) (jobs s0))" using P assms(2) by (force simp: jobs_def)
  then show False using j(2,3) by force
qed

lemma record_dirs_frames:
  "entry (record_dirs ds s) i = entry s i" "base (record_dirs ds s) i = base s i" "jobs (record_dirs ds s) = jobs s"
  by (induction ds arbitrary: s) (simp_all add: add_dir_def entry_def base_def jobs_def)

lemma blocked_frames:
  "entry (remove_blocked_for s k) i = entry s i" "base (remove_blocked_for s k) i = base s i"
  "jobs (remove_blocked_for s k) = jobs s" "entry (resolve_conflict_of k s) i = entry s i"
  "base (resolve_conflict_of k s) i = base s i" "jobs (resolve_conflict_of k s) = jobs s"
  by (simp_all add: remove_blocked_for_def resolve_conflict_of_def entry_def base_def jobs_def put_conflict_def
      split: option.split)

lemma settled_frames:
  "jobs (set_meta s k x) = jobs s" "jobs (remove_meta s k) = jobs s" "jobs (put_entry s k e) = jobs s" "jobs (put_base s k b) = jobs s"
  "entry (put_entry s k e) i = (if i = k then Some e else entry s i)" "base (put_base s k b) i = (if i = k then Some b else base s i)"
  by (simp_all add: set_meta_def remove_meta_def put_entry_def put_base_def jobs_def entry_def base_def)

lemma pushed_store:
  assumes m'_def: "m' = recovery_pushed key h (sha, mtime, sq) st m"
  shows "entry (m_store m') i = (if i = key then Some \<lparr>e_sha256 = sha, e_size = h_size h, e_mtime = h_mtime h, e_state = Clean\<rparr>
      else entry (m_store m) i)"
    "base (m_store m') i = (if i = key then Some \<lparr>b_sha256 = sha, b_size = h_size h, b_mtime = mtime, b_remote_seq = sq\<rparr>
      else base (m_store m) i)"
    "j \<in> set (jobs (m_store m')) \<Longrightarrow> \<not> uploads key (j_kind j)" "m_fs m' = m_fs m" "m_hub m' = m_hub m"
proof -
  note ev = m'_def recovery_pushed_def view_upsert_def with_view_def record_dirs_for_def upd_store_def Let_def
      record_dirs_frames blocked_frames settled_frames remove_seqs_frames frames
  show "entry (m_store m') i = (if i = key then Some \<lparr>e_sha256 = sha, e_size = h_size h, e_mtime = h_mtime h, e_state = Clean\<rparr>
      else entry (m_store m) i)"
    "base (m_store m') i = (if i = key then Some \<lparr>b_sha256 = sha, b_size = h_size h, b_mtime = mtime, b_remote_seq = sq\<rparr>
      else base (m_store m) i)"
    "m_fs m' = m_fs m" "m_hub m' = m_hub m" by (simp_all add: ev)
  let ?s = "put_entry (put_base (m_store m) key \<lparr>b_sha256 = sha, b_size = h_size h, b_mtime = mtime, b_remote_seq = sq\<rparr>)
    key \<lparr>e_sha256 = sha, e_size = h_size h, e_mtime = h_mtime h, e_state = Clean\<rparr>"
  assume "j \<in> set (jobs (m_store m'))"
  then have "j \<in> set (jobs (remove_seqs (filter (\<lambda>j. uploads key (j_kind j)) (jobs ?s)) ?s))" by (simp add: ev)
  then show "\<not> uploads key (j_kind j)" by (rule removed_jobs_gone) (rule refl)
qed

lemma undone_store:
  assumes m'_def: "m' = recovery_pulled key r h m"
  shows "entry (m_store m') i = (if i = key then Some (entry_of_hash h Clean) else entry (m_store m) i)"
    "base (m_store m') i = (if i = key then Some \<lparr>b_sha256 = h_sha256 h, b_size = h_size h, b_mtime = r_mtime r, b_remote_seq = 0\<rparr>
      else base (m_store m) i)"
    "j \<in> set (jobs (m_store m')) \<Longrightarrow> \<not> undone_by_download key (j_kind j)" "m_fs m' = m_fs m"
proof -
  note ev = m'_def recovery_pulled_def view_upsert_def with_view_def record_dirs_for_def upd_store_def Let_def
      record_dirs_frames blocked_frames settled_frames remove_seqs_frames frames
  show "entry (m_store m') i = (if i = key then Some (entry_of_hash h Clean) else entry (m_store m) i)"
    "base (m_store m') i = (if i = key then Some \<lparr>b_sha256 = h_sha256 h, b_size = h_size h, b_mtime = r_mtime r, b_remote_seq = 0\<rparr>
      else base (m_store m) i)"
    "m_fs m' = m_fs m" by (simp_all add: ev)
  let ?s = "put_base (put_entry (m_store m) key (entry_of_hash h Clean)) key
    \<lparr>b_sha256 = h_sha256 h, b_size = h_size h, b_mtime = r_mtime r, b_remote_seq = 0\<rparr>"
  assume "j \<in> set (jobs (m_store m'))"
  then have "j \<in> set (jobs (remove_seqs (filter (\<lambda>j. undone_by_download key (j_kind j)) (jobs ?s)) ?s))" by (simp add: ev)
  then show "\<not> undone_by_download key (j_kind j)" by (rule removed_jobs_gone) (rule refl)
qed

lemma snapshot_file:
  "recovery_bytes v key False m = Inr (Some (bytes, fp), h) \<Longrightarrow>
     \<exists>fm. symlink_metadata (m_fs m) key = Inr (File bytes fm) \<and> h = \<lparr>h_sha256 = v_sha v bytes, h_size = length bytes, h_mtime = ms_of fm\<rparr>"
  by (auto simp: recovery_bytes_def upload_snapshot_def map_sum_def split: if_splits sum.splits node.splits)


section \<open>The report\<close>

definition report_total :: "push_report \<Rightarrow> nat" where
  "report_total r = rp_created r + rp_replaced r + rp_unchanged r + rp_skipped r + rp_failed r + rp_downloaded r + rp_kept r"

lemma report_record_total:
  "report_total (report_record i r) = report_total r + 1" "rp_items (report_record i r) = rp_items r @ [i]"
  by (simp_all add: report_record_def report_total_def Let_def)

lemma push_file_key: "push_recovery_file v key dry m = (Inr i, m') \<Longrightarrow> pi_key i = key"
  by (auto simp: push_recovery_file_def Let_def item_def split: option.splits sum.splits prod.splits if_splits)

lemma settled_item_key:
  assumes "settled_item key sz r = (i, stop)" "\<And>i'. r = Inr i' \<Longrightarrow> pi_key i' = key"
  shows "pi_key i = key" "stop \<Longrightarrow> pi_action i = ''failed''"
  using assms by (auto simp: settled_item_def item_def split: sum.splits hub_error.splits)

definition plain_files :: "(string \<times> local_stat) list \<Rightarrow> string list" where
  "plain_files fs = map fst (filter (\<lambda>(k, st). \<not> s_is_dir st) fs)"

lemma push_files_report:
  assumes "push_files v ig dry files rep m = (rep', m')"
  shows "\<exists>new. rp_items rep' = rp_items rep @ new \<and> report_total rep' = report_total rep + length new
    \<and> prefix (map pi_key new) (plain_files files)
    \<and> (map pi_key new = plain_files files \<or> new \<noteq> [] \<and> pi_action (last new) = ''failed'')"
  using assms
proof (induction files arbitrary: rep m)
  case (Cons f files)
  obtain key st where f: "f = (key, st)" by fastforce
  show ?case
  proof (cases "s_is_dir st")
    case True
    then show ?thesis using Cons by (simp add: f plain_files_def)
  next
    case False
    obtain r m1 where r: "(if is_ignored (v_glob v) ig key
        then (Inr (item key ''skipped'' (s_size st) (Some ''excluded from mirror sync'')), m)
        else push_recovery_file v key dry m) = (r, m1)" by fastforce
    obtain i stop where i: "settled_item key (s_size st) r = (i, stop)" by fastforce
    have "pi_key j = key" if "r = Inr j" for j
      using r that push_file_key[of v key dry m j m1] by (auto simp: item_def split: if_splits)
    note k = settled_item_key[OF i this]
    have run: "push_files v ig dry (f # files) rep m
        = (if stop then (report_record i rep, m1) else push_files v ig dry files (report_record i rep) m1)"
      using False by (simp add: f r i)
    show ?thesis
    proof (cases stop)
      case True
      then show ?thesis using Cons.prems k run False
        by (intro exI[of _ "[i]"]) (auto simp: f report_record_total plain_files_def)
    next
      case go: False
      then have "push_files v ig dry files (report_record i rep) m1 = (rep', m')" using Cons.prems run by simp
      from Cons.IH[OF this] obtain new where "rp_items rep' = rp_items (report_record i rep) @ new"
        "report_total rep' = report_total (report_record i rep) + length new" "prefix (map pi_key new) (plain_files files)"
        "map pi_key new = plain_files files \<or> new \<noteq> [] \<and> pi_action (last new) = ''failed''" by blast
      then show ?thesis using k False
        by (intro exI[of _ "i # new"]) (auto simp: f report_record_total plain_files_def)
    qed
  qed
qed (simp add: plain_files_def)

lemma preflight_folder: "recovery_preflight v dry m = (r, m') \<Longrightarrow> m_fs m' = m_fs m"
  by (auto simp: recovery_preflight_def upd_store_def split: option.splits sum.splits prod.splits if_splits)

text \<open>The report of a push is complete. Its counts add up to its rows, and its rows are the
  local files in the order of their names, one each, up to the last file or up to the failure
  (offline, unauthorized, unsafe folder) that stopped the push.\<close>

theorem push_report_complete:
  assumes "push_local v dry m = (Inr rep, m')"
  shows "report_total rep = length (rp_items rep)
    \<and> prefix (map pi_key (rp_items rep)) (plain_files (sort_key fst (walk_from (m_fs m) [])))
    \<and> (map pi_key (rp_items rep) = plain_files (sort_key fst (walk_from (m_fs m) []))
       \<or> rp_items rep \<noteq> [] \<and> pi_action (last (rp_items rep)) = ''failed'')"
proof -
  obtain ig m1 m2 where p: "recovery_preflight v dry m = (Inr ig, m1)"
    "push_files v ig dry (sort_key fst (walk_from (m_fs m1) [])) (report_new dry) m1 = (rep, m2)"
    using assms by (auto simp: push_local_def split: if_splits sum.splits prod.splits)
  show ?thesis using push_files_report[OF p(2)] unfolding preflight_folder[OF p(1)]
    by (auto simp: report_new_def report_total_def)
qed

section \<open>A push over a hub that accepts everything\<close>

definition polite_net :: "unit net" where
  "polite_net r h = (Some \<lparr>rs_status = (if rq_method r = ''HEAD'' then 404 else 200), rs_headers = [],
     rs_json = Some (JObj []), rs_bytes = []\<rparr>, h)"

definition polite_env :: "(request list \<times> unit) env" where
  "polite_env = (env_at (http_hub demo_client (logged polite_net)))\<lparr>v_opts := default_options\<lparr>protected := True\<rparr>, v_glob := (\<lambda>p k. False)\<rparr>"

lemma polite_retries: "with_retries c (logged polite_net) r st =
   (Inr \<lparr>rs_status = (if rq_method (sent c r) = ''HEAD'' then 404 else 200), rs_headers = [], rs_json = Some (JObj []), rs_bytes = []\<rparr>,
    (fst st @ [sent c r], ()))"
  by (simp add: with_retries_def logged_def polite_net_def numeral_3_eq_3 sent_def)

lemma polite_hub:
  "api_instance_id (v_api polite_env) st = (Inr None, (fst st @ [sent demo_client (rq ''GET'' (hc_base demo_client @ ''/rest/v2/ping'') [] NoBody)], ()))"
  "api_exclusions (v_api polite_env) st = (Inr [], (fst st @ [sent demo_client (rq ''GET'' (backend_url demo_client) [] NoBody)], ()))"
  "api_head (v_api polite_env) k st = (Inr None, (fst st @ [sent demo_client (rq ''HEAD'' (object_url demo_client k) [] NoBody)], ()))"
  "\<exists>x. api_put (v_api polite_env) k b po st = (Inr x, (fst st @ [sent demo_client (rq ''PUT'' (object_url demo_client k) (put_headers demo_client po) (ByteBody b))], ()))
     \<and> pr_sha256 x = []"
  by (simp_all add: polite_env_def env_at_def http_hub_def instance_id_def ping_def call_json_def polite_retries json_ok_def
      is_success_def payload_of_def jstr_def exclusions_def exclusions_of_def Let_def head_object_def put_object_def parse_put_def
      demo_client_def client_new_def)

lemma polite_push:
  "\<exists>m'. push_local polite_env dry (mirror_at ([], ())) =
     (Inr (report_record (item ''a'' ''create'' 1 None) (report_new dry)), m') \<and> length (fst (m_hub m')) = (if dry then 3 else 4)"
proof -
  let ?m = "mirror_at ([] :: request list, ())"
  have ig: "\<not> is_ignored (v_glob polite_env) (rules_from polite_env []) ''a''"
    by (simp add: is_ignored_def polite_env_def starts_with_iff list_ex_iff)
  have alone: "v_other polite_env m = m" "v_verify polite_env f = None" "protected (v_opts polite_env)" for m f
    by (simp_all add: polite_env_def env_at_def)
  obtain h1 where pre: "recovery_preflight polite_env dry ?m = (Inr (rules_from polite_env []), ?m\<lparr>m_hub := h1\<rparr>)" "length (fst h1) = 2"
    by (simp add: recovery_preflight_def verify_destination_def alone polite_hub mirror_at_def empty_store_def meta_def)
  have "\<not> walk_skips [] ''a''" "hd (split_on slash []) \<noteq> MARKER" by code_simp+
  then have w: "sort_key fst (walk_from demo_folder []) = [(''a'', walk_stat (File ''x'' demo_meta))]"
    by (simp add: walk_from_def walk_below_def demo_folder_def)
  have k: "check_key ''a''" by code_simp
  have "parent_key ''a'' = []" by code_simp
  then have an: "ancestors ''a'' = []" by (simp add: ancestors.simps)
  have st: "stat demo_folder ''a'' = Some (stat_of (File ''x'' demo_meta))"
    by (simp add: stat_def demo_folder_def symlink_metadata_def an)
  obtain h2 where hd: "api_head (v_api polite_env) ''a'' h1 = (Inr None, h2)" "length (fst h2) = 3"
    using pre(2) by (simp add: polite_hub)
  let ?h = "\<lparr>h_sha256 = v_sha polite_env ''x'', h_size = 1, h_mtime = ms_of demo_meta\<rparr>"
  define m1 where m1: "m1 = ?m\<lparr>m_hub := h1\<rparr>"
  have m1s: "m_fs m1 = demo_folder" "m_hub m1 = h1" "\<not> is_open_for_write (m1\<lparr>m_hub := h\<rparr>) ''a''" "\<not> is_open_for_write m1 ''a''" for h
    by (simp_all add: m1 mirror_at_def is_open_for_write_def)
  have bs: "recovery_bytes polite_env ''a'' d m1 = Inr (if d then None else Some (''x'', fingerprint demo_meta), ?h)" for d
    using k by (simp add: m1s recovery_bytes_def hash_file_def upload_snapshot_def demo_folder_def symlink_metadata_def an map_sum_def)
  obtain x h3 where put: "api_put (v_api polite_env) ''a'' ''x'' (recovery_options None ?h) h2 = (Inr x, h3)" "pr_sha256 x = []" "length (fst h3) = 4"
    using polite_hub(4)[of "''a''" "''x''" "recovery_options None ?h" h2] hd(2) by auto
  have act: "recovery_action None h = ''create''" for h by (simp add: recovery_action_def)
  have up: "recovery_upload polite_env ''a'' None ''x'' ?h (m1\<lparr>m_hub := h2\<rparr>)
      = (Inr (h_sha256 ?h, pr_mtime x, pr_seq x), m1\<lparr>m_hub := h3\<rparr>)"
    using put by (simp add: recovery_upload_def act del: One_nat_def)
  note ev = verify_destination_def alone k bs st stat_of_def m1s moved_on_def hd(1) up act Let_def
  obtain m' where m': "push_recovery_file polite_env ''a'' dry m1 = (Inr (item ''a'' ''create'' 1 None), m')"
    "m_hub m' = (if dry then h2 else h3)"
  proof (cases dry)
    case True
    then show ?thesis using that by (simp add: push_recovery_file_def ev del: One_nat_def)
  next
    case False
    then show ?thesis using that by (simp add: push_recovery_file_def ev pushed_store(5)[OF refl] del: One_nat_def)
  qed
  have "push_files polite_env (rules_from polite_env []) dry [(''a'', walk_stat (File ''x'' demo_meta))] (report_new dry) m1
     = (report_record (item ''a'' ''create'' 1 None) (report_new dry), m')"
    using ig m' by (simp add: walk_stat_def stat_of_def settled_item_def)
  then show ?thesis using pre(1) m'(2) hd(2) put(3) by (simp add: push_local_def alone m1[symmetric] m1s w recovery_done_def)
qed


theorem recovery_preview_reads_only_witness:
  "\<exists>h. push_local polite_env True (mirror_at ([], ())) =
       (Inr (report_record (item ''a'' ''create'' 1 None) (report_new True)), (mirror_at ([], ()))\<lparr>m_hub := h\<rparr>)
     \<and> list_all reading (fst h) \<and> length (fst h) = 3"
proof -
  obtain m' where m': "push_local polite_env True (mirror_at ([], ())) =
       (Inr (report_record (item ''a'' ''create'' 1 None) (report_new True)), m')" "length (fst (m_hub m')) = 3"
    using polite_push[of True] by auto
  have "polite_env = undisturbed (polite_env\<lparr>v_api := http_hub demo_client (logged polite_net)\<rparr>)"
    "fst (m_hub (mirror_at ([] :: request list, ()))) = []"
    by (simp_all add: polite_env_def env_at_def undisturbed_def mirror_at_def)
  from recovery_preview_reads_only[OF this] m'(1) obtain h where "m' = (mirror_at ([], ()))\<lparr>m_hub := h\<rparr>" "list_all reading (fst h)"
    by blast
  then show ?thesis using m' by (intro exI[of _ h]) simp
qed

theorem push_report_complete_witness:
  "\<exists>rep m'. push_local polite_env False (mirror_at ([], ())) = (Inr rep, m') \<and> report_total rep = 1
     \<and> prefix (map pi_key (rp_items rep)) (plain_files (sort_key fst (walk_from demo_folder [])))"
proof -
  obtain m' where m': "push_local polite_env False (mirror_at ([], ())) =
       (Inr (report_record (item ''a'' ''create'' 1 None) (report_new False)), m')"
    using polite_push[of False] by auto
  have "m_fs (mirror_at ([] :: request list, ())) = demo_folder" by (simp add: mirror_at_def)
  then show ?thesis using push_report_complete[OF m'] m'
    by (auto simp: report_record_total report_new_def)
qed


end
