(* ===== verification/Identity.thy ===== *)
theory Identity
  imports Store_Moves Api
begin

text \<open>
  The identity of a local replica (\<^verbatim>\<open>src/src/mirror/identity.rs\<close> and the first half of
  \<^verbatim>\<open>Mirror::open_with_progress\<close>): a marker file in the mirrored folder, the identity of its
  directories, and the binding in the ledger have to agree before a missing file may be read as
  a deletion. The disk is an explicit state: the mountpoint with its marker, its \<^verbatim>\<open>Home\<close> and its
  other names, and the ledgers by data directory. Paths are lists of segments. The URL parser,
  the JSON printer and path canonicalisation are parameters; a marker that cannot be read or
  parsed is \<open>BadMarker\<close>. Temporary files and fsync are left out.
\<close>

section \<open>Directories\<close>

type_synonym path = "string list"

text \<open>What \<^verbatim>\<open>stat\<close> and \<^verbatim>\<open>statfs\<close> say of a directory, and whether another mirror has locked it.\<close>

record dir_stat =
  dt_dev :: nat
  dt_ino :: nat
  dt_fs_type :: int
  dt_fsid :: "int \<times> int"
  dt_created :: "(nat \<times> nat) option"
  dt_linked :: bool
  dt_locked :: bool

datatype slot = Missing | NotDir | IsDir dir_stat

record dir_id =
  di_device :: nat
  di_inode :: nat

definition dir_id_of :: "dir_stat \<Rightarrow> dir_id" where
  "dir_id_of s = \<lparr>di_device = dt_dev s, di_inode = dt_ino s\<rparr>"

record persistent_id =
  pid_fs_type :: int
  pid_fsid :: "int \<times> int"
  pid_device_fallback :: "nat option"
  pid_inode :: nat
  pid_created :: "(nat \<times> nat) option"

definition persistent_id_of :: "dir_stat \<Rightarrow> persistent_id" where
  "persistent_id_of s = \<lparr>pid_fs_type = dt_fs_type s, pid_fsid = dt_fsid s,
     pid_device_fallback = (if dt_fsid s = (0, 0) then Some (dt_dev s) else None),
     pid_inode = dt_ino s, pid_created = dt_created s\<rparr>"

section \<open>The marker\<close>

record marker =
  mk_format :: string
  mk_version :: nat
  mk_server :: string
  mk_workspace :: string
  mk_backend :: string
  mk_mirror_id :: string
  mk_home :: string
  mk_root_directory :: dir_id
  mk_home_directory :: dir_id

datatype marker_file = NoMarker | BadMarker | MarkerFile marker

record mountpoint =
  mp_root :: slot
  mp_home :: slot
  mp_marker :: marker_file
  mp_others :: "string list"

record disk =
  dk_mount :: mountpoint
  dk_ledgers :: "(path, database) table"

record url =
  ur_scheme :: string
  ur_host :: "string option"
  ur_username :: string
  ur_password :: "string option"
  ur_query :: "string option"
  ur_fragment :: "string option"
  ur_text :: string

datatype canonical = CanonOk path | CanonMissing | CanonError

record ident_env =
  ie_url :: "string \<Rightarrow> url option"
  ie_marker_json :: "marker \<Rightarrow> string"
  ie_pair_json :: "persistent_id \<times> persistent_id \<Rightarrow> string"
  ie_canonicalize :: "path \<Rightarrow> canonical"
  ie_new_dir :: dir_stat
  ie_new_home :: dir_stat
  ie_operation_id :: string

datatype identity_error =
    BadServerUrl | BadHomePath | DirectoryError | InUse | DataDirInside | InvalidMarker | NotEmptyUnmarked
  | StaleLedger | MarkerMismatch | InodeChanged | LedgerRefused open_error | MarkerExists
  | IdentityChanged | NoHistory | SeveralHistories "path list" | LookupFailed | WrongWorkspace

definition server_identity :: "ident_env \<Rightarrow> string \<Rightarrow> identity_error + string" where
  "server_identity x raw = (case ie_url x raw of
     None \<Rightarrow> Inl BadServerUrl
   | Some u \<Rightarrow>
       if (ur_scheme u = ''http'' \<or> ur_scheme u = ''https'') \<and> ur_host u \<noteq> None \<and> ur_username u = []
          \<and> ur_password u = None \<and> ur_query u = None \<and> ur_fragment u = None
       then Inr (trim_end_with (\<lambda>c. c = slash) (ur_text u)) else Inl BadServerUrl)"

function prospective_path :: "ident_env \<Rightarrow> path \<Rightarrow> path option" where
  "prospective_path x p = (case ie_canonicalize x p of
     CanonOk q \<Rightarrow> Some q
   | CanonMissing \<Rightarrow> if p = [] then None else map_option (\<lambda>q. q @ [last p]) (prospective_path x (butlast p))
   | CanonError \<Rightarrow> None)"
  by pat_completeness auto
termination by (relation "measure (\<lambda>(x, p). length p)") auto

declare prospective_path.simps [simp del]

definition read_marker :: "mountpoint \<Rightarrow> identity_error + marker option" where
  "read_marker mp = (case mp_marker mp of
     NoMarker \<Rightarrow> Inr None | BadMarker \<Rightarrow> Inl InvalidMarker | MarkerFile m \<Rightarrow> Inr (Some m))"

definition mount_empty :: "mountpoint \<Rightarrow> bool" where
  "mount_empty mp \<longleftrightarrow> mp_marker mp = NoMarker \<and> mp_home mp = Missing \<and> mp_others mp = []"

definition identity_preflight :: "mountpoint \<Rightarrow> identity_error + unit" where
  "identity_preflight mp = (case read_marker mp of
     Inl e \<Rightarrow> Inl e
   | Inr (Some _) \<Rightarrow> Inr ()
   | Inr None \<Rightarrow> if mount_empty mp then Inr () else Inl NotEmptyUnmarked)"

section \<open>Preparing the destination\<close>

record mirror_config =
  cf_mountpoint :: path
  cf_home_dir :: path
  cf_data_dir :: path
  cf_server :: string
  cf_workspace :: string
  cf_backend :: string
  cf_accept_device_change :: bool

record destination =
  de_marker :: marker
  de_fresh :: bool
  de_root_directory :: dir_id
  de_home_directory :: dir_id
  de_persistent :: string
  de_accept_device_change :: bool

abbreviation OWN_HOME :: string where "OWN_HOME \<equiv> ''.''"

definition home_layout :: "mirror_config \<Rightarrow> identity_error + string" where
  "home_layout c =
     (if cf_home_dir c = cf_mountpoint c then Inr OWN_HOME
      else if cf_home_dir c = cf_mountpoint c @ [''Home''] then Inr ''Home'' else Inl BadHomePath)"

text \<open>\<^verbatim>\<open>open_directory\<close>: an exclusive lock on a real directory.\<close>

definition lock_dir :: "slot \<Rightarrow> identity_error + dir_stat" where
  "lock_dir s = (case s of
     IsDir d \<Rightarrow> if dt_locked d then Inl InUse else Inr (d\<lparr>dt_locked := True\<rparr>)
   | _ \<Rightarrow> Inl DirectoryError)"

definition home_slot :: "mountpoint \<Rightarrow> string \<Rightarrow> slot" where
  "home_slot mp home = (if home = OWN_HOME then mp_root mp else mp_home mp)"

definition directory_id :: "slot \<Rightarrow> identity_error + dir_id" where
  "directory_id s = (case s of IsDir d \<Rightarrow> Inr (dir_id_of d) | _ \<Rightarrow> Inl DirectoryError)"

definition data_dir_outside :: "ident_env \<Rightarrow> mirror_config \<Rightarrow> identity_error + unit" where
  "data_dir_outside x c = (case (prospective_path x (cf_data_dir c), ie_canonicalize x (cf_mountpoint c)) of
     (Some d, CanonOk p) \<Rightarrow> if prefix p d then Inl DataDirInside else Inr ()
   | _ \<Rightarrow> Inl DirectoryError)"

definition check_fresh :: "mirror_config \<Rightarrow> disk \<Rightarrow> identity_error + unit" where
  "check_fresh c k = (case identity_preflight (dk_mount k) of
     Inl e \<Rightarrow> Inl e
   | Inr _ \<Rightarrow> if tget (dk_ledgers k) (cf_data_dir c) \<noteq> None then Inl StaleLedger else Inr ())"

definition marker_fits :: "mirror_config \<Rightarrow> string \<Rightarrow> string \<Rightarrow> marker \<Rightarrow> bool" where
  "marker_fits c server home m \<longleftrightarrow> mk_format m = ''canvas-fuse-mirror'' \<and> mk_version m = 1 \<and> mk_server m = server
     \<and> mk_workspace m = cf_workspace c \<and> mk_backend m = cf_backend c \<and> mk_home m = home
     \<and> length (mk_mirror_id m) = 32"

definition upd_mount :: "(mountpoint \<Rightarrow> mountpoint) \<Rightarrow> disk \<Rightarrow> disk" where
  "upd_mount f k = k\<lparr>dk_mount := f (dk_mount k)\<rparr>"

text \<open>\<^verbatim>\<open>create_dir_all\<close> of the mountpoint.\<close>

definition make_mountpoint :: "ident_env \<Rightarrow> disk \<Rightarrow> disk" where
  "make_mountpoint x k = (case mp_root (dk_mount k) of
     Missing \<Rightarrow> upd_mount (\<lambda>mp. mp\<lparr>mp_root := IsDir (ie_new_dir x)\<rparr>) k | _ \<Rightarrow> k)"

text \<open>The marker of a fresh replica, its mirror id still to be drawn.\<close>

definition new_marker :: "mirror_config \<Rightarrow> string \<Rightarrow> string \<Rightarrow> dir_id \<Rightarrow> dir_id \<Rightarrow> marker" where
  "new_marker c server home r h = \<lparr>mk_format = ''canvas-fuse-mirror'', mk_version = 1, mk_server = server,
     mk_workspace = cf_workspace c, mk_backend = cf_backend c, mk_mirror_id = [], mk_home = home,
     mk_root_directory = r, mk_home_directory = h\<rparr>"

text \<open>The second half of \<^verbatim>\<open>prepare\<close>, the root locked and the marker accepted: \<open>d\<close> is the root.\<close>

definition identify ::
    "ident_env \<Rightarrow> mirror_config \<Rightarrow> string \<Rightarrow> string \<Rightarrow> marker option \<Rightarrow> dir_stat \<Rightarrow> disk
       \<Rightarrow> (identity_error + destination) \<times> disk" where
  "identify x c server home previous d k =
     (let hd = (if home = OWN_HOME then IsDir d else mp_home (dk_mount k)) in
      case directory_id hd of Inl e \<Rightarrow> (Inl e, k)
      | Inr h_id \<Rightarrow>
        (case (if home = OWN_HOME then Inr d else lock_dir hd) of Inl e \<Rightarrow> (Inl e, k)
         | Inr hs \<Rightarrow>
           (let r_id = dir_id_of d;
                m = or_default (new_marker c server home r_id h_id) previous
            in if di_inode (mk_root_directory m) \<noteq> di_inode r_id \<or> di_inode (mk_home_directory m) \<noteq> di_inode h_id
               then (Inl InodeChanged, k)
               else (Inr \<lparr>de_marker = (if previous = None then m\<lparr>mk_mirror_id := ie_operation_id x\<rparr> else m),
                       de_fresh = (previous = None), de_root_directory = r_id, de_home_directory = h_id,
                       de_persistent = ie_pair_json x (persistent_id_of d, persistent_id_of hs),
                       de_accept_device_change = cf_accept_device_change c\<rparr>,
                     upd_mount (\<lambda>mp. mp\<lparr>mp_root := IsDir d,
                       mp_home := (if home = OWN_HOME then mp_home mp else IsDir hs)\<rparr>) k))))"

definition prepare :: "ident_env \<Rightarrow> mirror_config \<Rightarrow> disk \<Rightarrow> (identity_error + destination) \<times> disk" where
  "prepare x c k =
     (case home_layout c of Inl e \<Rightarrow> (Inl e, k) | Inr home \<Rightarrow>
      (case server_identity x (cf_server c) of Inl e \<Rightarrow> (Inl e, k) | Inr server \<Rightarrow>
       (let k = make_mountpoint x k in
        case lock_dir (mp_root (dk_mount k)) of Inl e \<Rightarrow> (Inl e, k) | Inr d \<Rightarrow>
        (case data_dir_outside x c of Inl e \<Rightarrow> (Inl e, k) | Inr _ \<Rightarrow>
         (case read_marker (dk_mount k) of Inl e \<Rightarrow> (Inl e, k)
          | Inr None \<Rightarrow>
            (case check_fresh c k of Inl e \<Rightarrow> (Inl e, k) | Inr _ \<Rightarrow>
             (let k = (if home = OWN_HOME then k else upd_mount (\<lambda>mp. mp\<lparr>mp_home := IsDir (ie_new_home x)\<rparr>) k)
              in identify x c server home None d k))
          | Inr (Some m) \<Rightarrow>
            if marker_fits c server home m then identify x c server home (Some m) d k
            else (Inl MarkerMismatch, k))))))"

section \<open>The ledger and the marker\<close>

definition empty_database :: database where
  "empty_database = \<lparr>d_existing = [], d_store = empty_store,
     d_v1 = \<lparr>l_entries = [], l_bases = [], l_trash = [], l_conflicts = []\<rparr>\<rparr>"

definition open_store ::
    "ident_env \<Rightarrow> destination \<Rightarrow> path \<Rightarrow> disk \<Rightarrow> (identity_error + database \<times> legacy option) \<times> disk" where
  "open_store x de dir k =
     (let d = or_default empty_database (tget (dk_ledgers k) dir);
          m = de_marker de
      in case open_bound d (ie_marker_json x m) (de_persistent de)
             (mk_root_directory m = de_root_directory de \<and> mk_home_directory m = de_home_directory de)
             (de_accept_device_change de) of
           Inl e \<Rightarrow> (Inl (LedgerRefused e), k\<lparr>dk_ledgers := tput dir d (dk_ledgers k)\<rparr>)
         | Inr (d', l) \<Rightarrow> (Inr (d', l), k\<lparr>dk_ledgers := tput dir d' (dk_ledgers k)\<rparr>))"

definition verify :: "destination \<Rightarrow> mountpoint \<Rightarrow> identity_error + unit" where
  "verify de mp =
     (if (case mp_root mp of IsDir d \<Rightarrow> dt_linked d | _ \<Rightarrow> False)
         \<and> read_marker mp = Inr (Some (de_marker de))
         \<and> directory_id (home_slot mp (mk_home (de_marker de))) = Inr (de_home_directory de)
      then Inr () else Inl IdentityChanged)"

text \<open>\<^verbatim>\<open>hard_link\<close> never overwrites: an existing marker makes the commit fail.\<close>

definition commit :: "destination \<Rightarrow> disk \<Rightarrow> (identity_error + unit) \<times> disk" where
  "commit de k =
     (if de_fresh de
      then if mp_marker (dk_mount k) \<noteq> NoMarker then (Inl MarkerExists, k)
           else (let k = upd_mount (\<lambda>mp. mp\<lparr>mp_marker := MarkerFile (de_marker de)\<rparr>) k
                 in (verify de (dk_mount k), k))
      else (verify de (dk_mount k), k))"

text \<open>\<open>opened\<close> is the directory the local store has opened for Home.\<close>

definition verify_local :: "destination \<Rightarrow> slot \<Rightarrow> mountpoint \<Rightarrow> identity_error + unit" where
  "verify_local de opened mp =
     (if directory_id opened = Inr (de_home_directory de) then verify de mp else Inl IdentityChanged)"

text \<open>A destination that is dropped closes its directories, which releases their locks.\<close>

definition unlock :: "slot \<Rightarrow> slot" where
  "unlock s = (case s of IsDir d \<Rightarrow> IsDir (d\<lparr>dt_locked := False\<rparr>) | _ \<Rightarrow> s)"

definition drop_destination :: "destination \<Rightarrow> disk \<Rightarrow> disk" where
  "drop_destination de = upd_mount (\<lambda>mp. mp\<lparr>mp_root := unlock (mp_root mp),
     mp_home := (if mk_home (de_marker de) = OWN_HOME then mp_home mp else unlock (mp_home mp))\<rparr>)"

definition open_replica ::
    "ident_env \<Rightarrow> mirror_config \<Rightarrow> disk \<Rightarrow> (identity_error + destination \<times> database \<times> legacy option) \<times> disk" where
  "open_replica x c k = (case prepare x c k of (Inl e, k) \<Rightarrow> (Inl e, k)
   | (Inr de, k) \<Rightarrow> (case open_store x de (cf_data_dir c) k of (Inl e, k) \<Rightarrow> (Inl e, drop_destination de k)
     | (Inr (d, l), k) \<Rightarrow> (case commit de k of (Inl e, k) \<Rightarrow> (Inl e, drop_destination de k)
       | (Inr _, k) \<Rightarrow>
           (case verify_local de (home_slot (dk_mount k) (mk_home (de_marker de))) (dk_mount k) of
              Inl e \<Rightarrow> (Inl e, drop_destination de k) | Inr _ \<Rightarrow> (Inr (de, d, l), k)))))"

definition matches_legacy_device :: "destination \<Rightarrow> nat \<Rightarrow> nat \<Rightarrow> bool" where
  "matches_legacy_device de recorded current \<longleftrightarrow> recorded = current
     \<or> recorded = di_device (mk_home_directory (de_marker de)) \<and> current = di_device (de_home_directory de)"

section \<open>Finding the ledger of a marked folder\<close>

definition marker_for_server :: "ident_env \<Rightarrow> string \<Rightarrow> marker \<Rightarrow> identity_error + unit" where
  "marker_for_server x server m = (case server_identity x server of
     Inl e \<Rightarrow> if mk_format m = ''canvas-fuse-mirror'' \<and> mk_version m = 1 then Inl e else Inl MarkerMismatch
   | Inr s \<Rightarrow> if mk_format m = ''canvas-fuse-mirror'' \<and> mk_version m = 1 \<and> mk_server m = s
              then Inr () else Inl MarkerMismatch)"

text \<open>\<open>children\<close> lists the directories in a directory, None when it cannot be read.\<close>

definition data_dir_candidates :: "(path \<Rightarrow> path list option) \<Rightarrow> path \<Rightarrow> path \<Rightarrow> path list option" where
  "data_dir_candidates children dflt canvas_home =
     (if dflt = [] then None else Option.bind (children canvas_home) (\<lambda>remotes.
     map_option (\<lambda>wss. dflt # map (\<lambda>w. w @ [''mounts'', last dflt]) (concat wss))
       (those (map (\<lambda>r. children (r @ [''fuse'', ''workspaces''])) remotes))))"

fun matching_ledgers ::
    "ident_env \<Rightarrow> disk \<Rightarrow> string \<Rightarrow> path list \<Rightarrow> path list \<Rightarrow> path list option" where
  "matching_ledgers x k binding [] visited = Some []"
| "matching_ledgers x k binding (p # ps) visited =
     (case tget (dk_ledgers k) p of
        None \<Rightarrow> matching_ledgers x k binding ps visited
      | Some d \<Rightarrow> (case ie_canonicalize x p of
          CanonOk q \<Rightarrow>
            if q \<in> set visited then matching_ledgers x k binding ps visited
            else map_option (\<lambda>ms. if replica_binding d = Some binding then q # ms else ms)
                   (matching_ledgers x k binding ps (q # visited))
        | _ \<Rightarrow> None))"

definition find_data_dir ::
    "ident_env \<Rightarrow> (path \<Rightarrow> path list option) \<Rightarrow> string \<Rightarrow> path \<Rightarrow> path \<Rightarrow> disk \<Rightarrow> identity_error + path" where
  "find_data_dir x children server dflt canvas_home k = (case read_marker (dk_mount k) of
     Inl e \<Rightarrow> Inl e
   | Inr None \<Rightarrow> Inr dflt
   | Inr (Some m) \<Rightarrow> (case marker_for_server x server m of
       Inl e \<Rightarrow> Inl e
     | Inr _ \<Rightarrow> (case data_dir_candidates children dflt canvas_home of
         None \<Rightarrow> Inl DirectoryError
       | Some cs \<Rightarrow> (case matching_ledgers x k (ie_marker_json x m) cs [] of
           None \<Rightarrow> Inl DirectoryError
         | Some [] \<Rightarrow> Inl NoHistory
         | Some [p] \<Rightarrow> Inr p
         | Some ps \<Rightarrow> Inl (SeveralHistories ps)))))"

section \<open>The name of the workspace\<close>

definition cached_workspace ::
    "ident_env \<Rightarrow> json option \<Rightarrow> string \<Rightarrow> string \<Rightarrow> mountpoint \<Rightarrow> identity_error + workspace_info option" where
  "cached_workspace x cache server requested mp = (case read_marker mp of
     Inl e \<Rightarrow> Inl e
   | Inr None \<Rightarrow> Inr None
   | Inr (Some m) \<Rightarrow> (case marker_for_server x server m of
       Inl e \<Rightarrow> Inl e
     | Inr _ \<Rightarrow>
         (let cached = (case cache of Some v \<Rightarrow> if jstr ''id'' v = Some (mk_workspace m) then Some v else None | None \<Rightarrow> None);
              name = Option.bind cached (jstr ''name'');
              selector = Option.bind cached (jstr ''selector'')
          in if requested \<noteq> mk_workspace m \<and> name \<noteq> Some requested \<and> selector \<noteq> Some requested then Inr None
             else Inr (Some \<lparr>wi_id = mk_workspace m, wi_name = or_default requested name\<rparr>))))"

text \<open>\<open>lookup\<close> asks the hub; the result says whether the replica existed already.\<close>

definition resolve_workspace ::
    "ident_env \<Rightarrow> json option \<Rightarrow> string \<Rightarrow> string \<Rightarrow> (string \<Rightarrow> workspace_info option) \<Rightarrow> mountpoint
       \<Rightarrow> identity_error + workspace_info \<times> bool" where
  "resolve_workspace x cache server requested lookup mp = (case cached_workspace x cache server requested mp of
     Inl e \<Rightarrow> Inl e
   | Inr (Some w) \<Rightarrow> Inr (w, True)
   | Inr None \<Rightarrow> (case read_marker mp of
       Inl e \<Rightarrow> Inl e
     | Inr previous \<Rightarrow> (case lookup requested of
         None \<Rightarrow> Inl LookupFailed
       | Some w \<Rightarrow>
           if (case previous of Some m \<Rightarrow> wi_id w \<noteq> mk_workspace m | None \<Rightarrow> False) then Inl WrongWorkspace
           else Inr (w, previous \<noteq> None))))"

definition cache_workspace :: "string \<Rightarrow> workspace_info \<Rightarrow> json" where
  "cache_workspace requested w =
     JObj [(''id'', JStr (wi_id w)), (''name'', JStr (wi_name w)), (''selector'', JStr requested)]"

end
