(* ===== verification/Identity_Safe.thy ===== *)
theory Identity_Safe
  imports Identity
begin

text \<open>
  What the identity of a replica guarantees: a folder is opened only with the ledger that was
  made for it (or with none), a fresh replica starts from an empty folder and an empty ledger,
  the replica opens again after a reboot that renumbered the devices, the search for a lost
  ledger finds only the one bound to the marker, and a workspace name never leads an existing
  replica to another workspace.
\<close>

section \<open>Opening\<close>

lemma identify_facts:
  assumes "identify x c server home previous d k = (Inr de, k')"
  shows "de_marker de = (case previous of Some m \<Rightarrow> m | None \<Rightarrow> (de_marker de)\<lparr>mk_mirror_id := ie_operation_id x\<rparr>)"
    "de_fresh de \<longleftrightarrow> previous = None" "dk_ledgers k' = dk_ledgers k" "mp_marker (dk_mount k') = mp_marker (dk_mount k)"
    "mp_root (dk_mount k') = IsDir d" "de_root_directory de = dir_id_of d"
    "di_inode (mk_root_directory (de_marker de)) = dt_ino d"
    "di_inode (mk_home_directory (de_marker de)) = di_inode (de_home_directory de)"
    "previous = None \<Longrightarrow> de_marker de = (new_marker c server home (dir_id_of d) (de_home_directory de))\<lparr>mk_mirror_id := ie_operation_id x\<rparr>"
    "\<exists>hs. home_slot (dk_mount k') home = IsDir hs \<and> de_home_directory de = dir_id_of hs
       \<and> de_persistent de = ie_pair_json x (persistent_id_of d, persistent_id_of hs)"
  using assms
  by (auto simp: identify_def Let_def upd_mount_def new_marker_def dir_id_of_def home_slot_def directory_id_def lock_dir_def
      split: sum.splits if_splits option.splits slot.splits)

lemma prepare_facts:
  assumes "prepare x c k = (Inr de, k')"
  obtains server home d k0 where "home_layout c = Inr home" "server_identity x (cf_server c) = Inr server"
    "lock_dir (mp_root (dk_mount (make_mountpoint x k))) = Inr d" "data_dir_outside x c = Inr ()" "dk_ledgers k0 = dk_ledgers k"
    "mp_marker (dk_mount k0) = mp_marker (dk_mount k)"
    "mp_marker (dk_mount k) = NoMarker \<and> check_fresh c (make_mountpoint x k) = Inr () \<and>
       identify x c server home None d k0 = (Inr de, k')
     \<or> (\<exists>m. mp_marker (dk_mount k) = MarkerFile m \<and> marker_fits c server home m \<and>
       identify x c server home (Some m) d k0 = (Inr de, k'))"
proof -
  obtain home server where h: "home_layout c = Inr home" "server_identity x (cf_server c) = Inr server"
    using assms by (auto simp: prepare_def split: sum.splits)
  let ?k = "make_mountpoint x k"
  have mk: "dk_ledgers ?k = dk_ledgers k" "mp_marker (dk_mount ?k) = mp_marker (dk_mount k)"
    by (simp_all add: make_mountpoint_def upd_mount_def split: slot.split)
  obtain d where d: "lock_dir (mp_root (dk_mount ?k)) = Inr d" "data_dir_outside x c = Inr ()"
    using assms h by (auto simp: prepare_def Let_def split: sum.splits)
  have run: "(case read_marker (dk_mount ?k) of Inl e \<Rightarrow> (Inl e, ?k)
      | Inr None \<Rightarrow> (case check_fresh c ?k of Inl e \<Rightarrow> (Inl e, ?k) | Inr _ \<Rightarrow>
             identify x c server home None d
               (if home = OWN_HOME then ?k else upd_mount (\<lambda>mp. mp\<lparr>mp_home := IsDir (ie_new_home x)\<rparr>) ?k))
      | Inr (Some m) \<Rightarrow> if marker_fits c server home m then identify x c server home (Some m) d ?k else (Inl MarkerMismatch, ?k))
     = (Inr de, k')"
    using assms h d unfolding prepare_def Let_def by simp
  show ?thesis
  proof (cases "mp_marker (dk_mount k)")
    case NoMarker
    then have r: "read_marker (dk_mount ?k) = Inr None" using mk by (simp add: read_marker_def)
    let ?k0 = "if home = OWN_HOME then ?k else upd_mount (\<lambda>mp. mp\<lparr>mp_home := IsDir (ie_new_home x)\<rparr>) ?k"
    show ?thesis
      by (rule that[OF h d, of ?k0]) (use run r NoMarker mk in \<open>auto simp: upd_mount_def split: sum.splits\<close>)
  next
    case BadMarker
    then show ?thesis using run mk by (simp add: read_marker_def)
  next
    case (MarkerFile m)
    then show ?thesis using run mk by (intro that[OF h d, of ?k]) (auto simp: read_marker_def split: if_splits)
  qed
qed

lemma commit_facts:
  assumes "commit de k = (Inr (), k')"
  shows "dk_ledgers k' = dk_ledgers k" "mp_root (dk_mount k') = mp_root (dk_mount k)" "mp_home (dk_mount k') = mp_home (dk_mount k)"
    "mp_marker (dk_mount k') = MarkerFile (de_marker de)"
  using assms
  by (auto simp: commit_def verify_def upd_mount_def read_marker_def Let_def split: if_splits slot.splits marker_file.splits)

definition known_ledger :: "mirror_config \<Rightarrow> disk \<Rightarrow> database" where
  "known_ledger c k = or_default empty_database (tget (dk_ledgers k) (cf_data_dir c))"

text \<open>C29: A folder is opened only with its own ledger. When a replica opens, its folder carries the
  marker and its ledger the same marker in its binding. Either the folder was empty and
  unmarked and there was no ledger, and the ledger has no entries; or the folder carried that
  very marker, made for this server, workspace, backend and layout, in the directories with the
  recorded inodes, and the ledger was bound to that marker or was a new file without tables; its
  sync history is unchanged. So the history of one folder is never read against another.\<close>

theorem opened_replica_owns_its_ledger:
  assumes op: "open_replica x c k = (Inr (de, d, l), k')" and ok: "store_ok (d_store (known_ledger c k))"
  shows "mp_marker (dk_mount k') = MarkerFile (de_marker de) \<and> tget (dk_ledgers k') (cf_data_dir c) = Some d
    \<and> replica_binding d = Some (ie_marker_json x (de_marker de))
    \<and> entries (d_store d) = entries (d_store (known_ledger c k)) \<and> jobs (d_store d) = jobs (d_store (known_ledger c k))
    \<and> (if de_fresh de
       then mount_empty (dk_mount (make_mountpoint x k)) \<and> tget (dk_ledgers k) (cf_data_dir c) = None \<and> entries (d_store d) = []
       else mp_marker (dk_mount k) = MarkerFile (de_marker de)
         \<and> (\<exists>server home. server_identity x (cf_server c) = Inr server \<and> marker_fits c server home (de_marker de))
         \<and> di_inode (mk_root_directory (de_marker de)) = di_inode (de_root_directory de)
         \<and> di_inode (mk_home_directory (de_marker de)) = di_inode (de_home_directory de)
         \<and> (replica_binding (known_ledger c k) = Some (ie_marker_json x (de_marker de)) \<or> d_existing (known_ledger c k) = []))"
proof -
  obtain k1 k2 where p: "prepare x c k = (Inr de, k1)" "open_store x de (cf_data_dir c) k1 = (Inr (d, l), k2)"
    "commit de k2 = (Inr (), k')"
    using op by (auto simp: open_replica_def split: prod.splits sum.splits)
  obtain server home r k0 where h: "home_layout c = Inr home" "server_identity x (cf_server c) = Inr server"
    "dk_ledgers k0 = dk_ledgers k" "mp_marker (dk_mount k0) = mp_marker (dk_mount k)"
    and cases: "mp_marker (dk_mount k) = NoMarker \<and> check_fresh c (make_mountpoint x k) = Inr () \<and>
       identify x c server home None r k0 = (Inr de, k1)
     \<or> (\<exists>m. mp_marker (dk_mount k) = MarkerFile m \<and> marker_fits c server home m \<and>
       identify x c server home (Some m) r k0 = (Inr de, k1))"
    using prepare_facts[OF p(1)] by metis
  have k1: "dk_ledgers k1 = dk_ledgers k" "mp_marker (dk_mount k1) = mp_marker (dk_mount k)"
    using cases h identify_facts(3,4) by metis+
  obtain lm where ob: "open_bound (known_ledger c k) (ie_marker_json x (de_marker de)) (de_persistent de) lm
      (de_accept_device_change de) = Inr (d, l)" "k2 = k1\<lparr>dk_ledgers := tput (cf_data_dir c) d (dk_ledgers k1)\<rparr>"
    using p(2) k1 by (auto simp: open_store_def known_ledger_def Let_def split: sum.splits)
  note b = open_bound_checks_replica[OF ob(1) ok]
  have hist: "entries (d_store d) = entries (d_store (known_ledger c k))" "jobs (d_store d) = jobs (d_store (known_ledger c k))"
    using b by (simp_all add: set_meta_def jobs_def)
  have mk: "mp_marker (dk_mount k') = MarkerFile (de_marker de)" "dk_ledgers k' = dk_ledgers k2"
    using commit_facts[OF p(3)] by simp_all
  have led: "tget (dk_ledgers k') (cf_data_dir c) = Some d" using mk(2) ob(2) by simp
  show ?thesis
  proof (cases "mp_marker (dk_mount k) = NoMarker")
    case True
    then have f: "check_fresh c (make_mountpoint x k) = Inr ()" "identify x c server home None r k0 = (Inr de, k1)"
      using cases by auto
    then have "de_fresh de" using identify_facts(2) by blast
    moreover have "mount_empty (dk_mount (make_mountpoint x k))" "tget (dk_ledgers k) (cf_data_dir c) = None"
      using f(1) True
      by (auto simp: check_fresh_def identity_preflight_def read_marker_def make_mountpoint_def upd_mount_def
          split: sum.splits if_splits slot.splits option.splits marker_file.splits)
    moreover from this have "entries (d_store (known_ledger c k)) = []"
      by (simp add: known_ledger_def empty_database_def empty_store_def)
    ultimately show ?thesis using mk led hist b by simp
  next
    case False
    then obtain m where m: "mp_marker (dk_mount k) = MarkerFile m" "marker_fits c server home m"
      "identify x c server home (Some m) r k0 = (Inr de, k1)" using cases by blast
    note i = identify_facts[OF m(3)]
    have "de_marker de = m" "\<not> de_fresh de" using i by simp_all
    then show ?thesis using m mk led hist b i(6,7,8) h(2) by (auto simp: dir_id_of_def)
  qed
qed

section \<open>Opening again\<close>

text \<open>The same directory after a reboot: unlocked, perhaps with another device number, but on the
  same filesystem with the same inode and birth time.\<close>

definition same_directory :: "slot \<Rightarrow> slot \<Rightarrow> bool" where
  "same_directory s t \<longleftrightarrow> (\<exists>a b. s = IsDir a \<and> t = IsDir b \<and> dt_ino b = dt_ino a \<and> dt_fs_type b = dt_fs_type a
     \<and> dt_fsid b = dt_fsid a \<and> dt_created b = dt_created a \<and> (dt_fsid a = (0, 0) \<longrightarrow> dt_dev b = dt_dev a)
     \<and> dt_linked b \<and> \<not> dt_locked b)"

lemma same_directory_id:
  assumes "same_directory (IsDir a) t"
  obtains b where "t = IsDir b" "persistent_id_of b = persistent_id_of a" "di_inode (dir_id_of b) = di_inode (dir_id_of a)"
    "dt_linked b" "\<not> dt_locked b"
  using assms by (auto simp: same_directory_def persistent_id_of_def dir_id_of_def intro: that)

lemma same_home:
  assumes "home_layout c = Inr home" "same_directory (mp_root m) (mp_root m2)"
    "home_layout c = Inr ''Home'' \<longrightarrow> same_directory (mp_home m) (mp_home m2)" "home_slot m home = IsDir a"
  obtains b where "home_slot m2 home = IsDir b" "persistent_id_of b = persistent_id_of a"
    "di_inode (dir_id_of b) = di_inode (dir_id_of a)" "dt_linked b" "\<not> dt_locked b"
proof -
  have "same_directory (home_slot m home) (home_slot m2 home)"
    using assms(1-3) by (auto simp: home_layout_def home_slot_def split: if_splits)
  then show ?thesis unfolding assms(4) by (rule same_directory_id) (rule that)
qed

lemma persistent_lock [simp]:
  "persistent_id_of (b\<lparr>dt_locked := z\<rparr>) = persistent_id_of b" "dir_id_of (b\<lparr>dt_locked := z\<rparr>) = dir_id_of b"
  by (simp_all add: persistent_id_of_def dir_id_of_def)

lemma verified_home:
  assumes "verify de mp = Inr ()"
  shows "directory_id (home_slot mp (mk_home (de_marker de))) = Inr (de_home_directory de)"
  using assms by (simp add: verify_def split: if_splits)

text \<open>Preparing a folder that already has the marker, its directories unlocked.\<close>

lemma prepare_again:
  assumes "home_layout c = Inr home" "server_identity x (cf_server c) = Inr server" "data_dir_outside x c = Inr ()"
    and fits: "marker_fits c server home m" and marker: "mp_marker (dk_mount k) = MarkerFile m"
    and r: "mp_root (dk_mount k) = IsDir r" "dt_linked r" "\<not> dt_locked r"
    and h: "home_slot (dk_mount k) home = IsDir h" "dt_linked h" "\<not> dt_locked h"
    and inodes: "di_inode (mk_root_directory m) = di_inode (dir_id_of r)" "di_inode (mk_home_directory m) = di_inode (dir_id_of h)"
  obtains de k' where "prepare x c k = (Inr de, k')" "de_marker de = m" "\<not> de_fresh de"
    "de_persistent de = ie_pair_json x (persistent_id_of r, persistent_id_of h)" "dk_ledgers k' = dk_ledgers k"
    "verify de (dk_mount k') = Inr ()"
proof -
  define k' where k': "k' = upd_mount (\<lambda>mp. mp\<lparr>mp_root := IsDir (r\<lparr>dt_locked := True\<rparr>),
     mp_home := (if home = OWN_HOME then mp_home mp else IsDir (h\<lparr>dt_locked := True\<rparr>))\<rparr>) k"
  define de where de: "de = \<lparr>de_marker = m, de_fresh = False, de_root_directory = dir_id_of r,
     de_home_directory = dir_id_of h, de_persistent = ie_pair_json x (persistent_id_of r, persistent_id_of h),
     de_accept_device_change = cf_accept_device_change c\<rparr>"
  have same: "home = OWN_HOME \<Longrightarrow> h = r" using r(1) h(1) by (simp add: home_slot_def)
  have mk: "make_mountpoint x k = k" using r(1) by (simp add: make_mountpoint_def)
  have "identify x c server home (Some m) (r\<lparr>dt_locked := True\<rparr>) k = (Inr de, k')"
    using inodes h same
    by (cases "home = OWN_HOME") (simp_all add: identify_def directory_id_def lock_dir_def Let_def k' de home_slot_def)
  then have "prepare x c k = (Inr de, k')"
    using assms(1-5) r by (simp add: prepare_def mk lock_dir_def read_marker_def)
  then show ?thesis
  proof (rule that)
    show "verify de (dk_mount k') = Inr ()"
      using fits marker r(2) h(2) same
      by (auto simp: verify_def k' de upd_mount_def read_marker_def home_slot_def directory_id_def marker_fits_def)
  qed (simp_all add: de k' upd_mount_def)
qed

text \<open>C30: A replica opens again. After a successful open, the next one, with the same settings, the
  folder and ledger it left, and the same directories (locks released, device numbers possibly
  renumbered by a reboot), succeeds: it finds the same marker and the same ledger, and does not
  take the replica for a fresh one.\<close>

theorem reopens_after_reboot:
  assumes op: "open_replica x c k = (Inr (de, d, l), k')" and ok: "store_ok (d_store (known_ledger c k))"
    and "length (ie_operation_id x) = 32"
    and disk: "dk_ledgers k2 = dk_ledgers k'" "mp_marker (dk_mount k2) = mp_marker (dk_mount k')"
    and dirs: "same_directory (mp_root (dk_mount k')) (mp_root (dk_mount k2))"
      "home_layout c = Inr ''Home'' \<longrightarrow> same_directory (mp_home (dk_mount k')) (mp_home (dk_mount k2))"
  shows "\<exists>de2 k3. open_replica x c k2 = (Inr (de2, d, None), k3) \<and> de_marker de2 = de_marker de \<and> \<not> de_fresh de2"
proof -
  obtain k1 k2' where p: "prepare x c k = (Inr de, k1)" "open_store x de (cf_data_dir c) k1 = (Inr (d, l), k2')"
    "commit de k2' = (Inr (), k')"
    using op by (auto simp: open_replica_def split: prod.splits sum.splits)
  obtain server home r k0 where h: "home_layout c = Inr home" "server_identity x (cf_server c) = Inr server"
    "data_dir_outside x c = Inr ()" "dk_ledgers k0 = dk_ledgers k"
    and cases: "mp_marker (dk_mount k) = NoMarker \<and> check_fresh c (make_mountpoint x k) = Inr () \<and>
       identify x c server home None r k0 = (Inr de, k1)
     \<or> (\<exists>m. mp_marker (dk_mount k) = MarkerFile m \<and> marker_fits c server home m \<and>
       identify x c server home (Some m) r k0 = (Inr de, k1))"
    using prepare_facts[OF p(1)] by metis
  then obtain prev where i: "identify x c server home prev r k0 = (Inr de, k1)"
    and prev: "prev = None \<or> (\<exists>m. prev = Some m \<and> marker_fits c server home m)" by blast
  note f = identify_facts[OF i]
  have fits: "marker_fits c server home (de_marker de)"
    using prev f(1,9) assms(3) by (auto simp: marker_fits_def new_marker_def)
  obtain hs where hs: "home_slot (dk_mount k1) home = IsDir hs" "de_home_directory de = dir_id_of hs"
    "de_persistent de = ie_pair_json x (persistent_id_of r, persistent_id_of hs)" using f(10) by blast
  obtain lm where ob: "open_bound (known_ledger c k) (ie_marker_json x (de_marker de)) (de_persistent de) lm
      (de_accept_device_change de) = Inr (d, l)" "k2' = k1\<lparr>dk_ledgers := tput (cf_data_dir c) d (dk_ledgers k1)\<rparr>"
    using p(2) f(3) h(4) by (auto simp: open_store_def known_ledger_def Let_def split: sum.splits)
  have same: "mp_root (dk_mount k') = IsDir r" "home_slot (dk_mount k') home = IsDir hs"
    "mp_marker (dk_mount k') = MarkerFile (de_marker de)" "tget (dk_ledgers k') (cf_data_dir c) = Some d"
    using commit_facts[OF p(3)] ob(2) f(5) hs(1) by (auto simp: home_slot_def split: if_splits)
  obtain r2 where r2: "mp_root (dk_mount k2) = IsDir r2" "persistent_id_of r2 = persistent_id_of r"
    "di_inode (dir_id_of r2) = di_inode (dir_id_of r)" "dt_linked r2" "\<not> dt_locked r2"
    using same_directory_id dirs(1) unfolding same(1) by metis
  obtain h2 where h2: "home_slot (dk_mount k2) home = IsDir h2" "persistent_id_of h2 = persistent_id_of hs"
    "di_inode (dir_id_of h2) = di_inode (dir_id_of hs)" "dt_linked h2" "\<not> dt_locked h2"
    by (rule same_home[OF h(1) dirs same(2)])
  have inodes: "di_inode (mk_root_directory (de_marker de)) = di_inode (dir_id_of r2)"
    "di_inode (mk_home_directory (de_marker de)) = di_inode (dir_id_of h2)"
    using f(7,8) r2(3) h2(3) hs(2) by (simp_all add: dir_id_of_def)
  obtain de2 k3 where prep: "prepare x c k2 = (Inr de2, k3)" and
    dest: "de_marker de2 = de_marker de" "\<not> de_fresh de2" "de_persistent de2 = de_persistent de"
      "dk_ledgers k3 = dk_ledgers k2" "verify de2 (dk_mount k3) = Inr ()"
    using prepare_again[OF h(1-3) fits _ r2(1,4,5) h2(1,4,5) inodes] disk(2) same(3) r2(2) h2(2) hs(3) by metis
  have again: "open_bound d (ie_marker_json x (de_marker de)) (de_persistent de) lm' a = Inr (d, None)" for lm' a
    using open_bound_checks_replica[OF ob(1) ok] by blast
  have "open_store x de2 (cf_data_dir c) k3 = (Inr (d, None), k3\<lparr>dk_ledgers := tput (cf_data_dir c) d (dk_ledgers k3)\<rparr>)"
    unfolding open_store_def dest(1,3) by (simp add: again dest(4) disk(1) same(4))
  then have "open_replica x c k2 = (Inr (de2, d, None), k3\<lparr>dk_ledgers := tput (cf_data_dir c) d (dk_ledgers k3)\<rparr>)"
    using prep dest(2,5) verified_home[OF dest(5)] by (simp add: open_replica_def verify_local_def commit_def)
  then show ?thesis using dest(1,2) by blast
qed

section \<open>The lost ledger, the name\<close>

lemma matching_ledgers_sound:
  assumes "matching_ledgers x k b ps visited = Some ms" "q \<in> set ms"
  shows "\<exists>p d. p \<in> set ps \<and> tget (dk_ledgers k) p = Some d \<and> replica_binding d = Some b \<and> ie_canonicalize x p = CanonOk q"
  using assms
proof (induction ps arbitrary: visited ms)
  case (Cons p ps)
  then show ?case
    by (fastforce split: option.splits canonical.splits if_splits dest: Cons.IH)
qed simp

text \<open>The search for a lost ledger trusts nothing but the binding. Whatever directory it returns
  for a marked folder holds a ledger that is bound to that marker, and the marker belongs to the
  requested server.\<close>

theorem found_ledger_is_bound:
  assumes "find_data_dir x children server dflt canvas_home k = Inr q" "mp_marker (dk_mount k) = MarkerFile m"
  shows "server_identity x server = Inr (mk_server m)
    \<and> (\<exists>p d. ie_canonicalize x p = CanonOk q \<and> tget (dk_ledgers k) p = Some d \<and> replica_binding d = Some (ie_marker_json x m))"
proof -
  have s: "server_identity x server = Inr (mk_server m)"
    using assms by (auto simp: find_data_dir_def read_marker_def marker_for_server_def split: sum.splits if_splits)
  obtain cs where "matching_ledgers x k (ie_marker_json x m) cs [] = Some [q]"
    using assms by (auto simp: find_data_dir_def read_marker_def split: sum.splits option.splits list.splits)
  from matching_ledgers_sound[OF this, of q] show ?thesis using s by auto
qed

text \<open>A workspace name never leads an existing replica elsewhere. Whatever the name cache holds
  and the hub answers, the workspace a marked folder is opened for has the id in the marker.\<close>

theorem resolved_workspace_matches_marker:
  assumes "resolve_workspace x cache server requested lookup mp = Inr (w, known)" "mp_marker mp = MarkerFile m"
  shows "wi_id w = mk_workspace m \<and> known"
  using assms
  by (auto simp: resolve_workspace_def cached_workspace_def read_marker_def Let_def
      split: sum.splits option.splits if_splits)

section \<open>A first mount, a reboot, a second mount\<close>

definition demo_dir :: "nat \<Rightarrow> dir_stat" where
  "demo_dir dev = \<lparr>dt_dev = dev, dt_ino = 7, dt_fs_type = 1, dt_fsid = (3, 4), dt_created = None, dt_linked = True, dt_locked = False\<rparr>"

definition demo_ident :: ident_env where
  "demo_ident = \<lparr>ie_url = (\<lambda>s. Some \<lparr>ur_scheme = ''https'', ur_host = Some s, ur_username = [], ur_password = None,
       ur_query = None, ur_fragment = None, ur_text = s\<rparr>),
     ie_marker_json = mk_mirror_id, ie_pair_json = (\<lambda>p. ''p''), ie_canonicalize = CanonOk,
     ie_new_dir = demo_dir 1, ie_new_home = demo_dir 1, ie_operation_id = replicate 32 (CHR ''a'')\<rparr>"

definition demo_config :: mirror_config where
  "demo_config = \<lparr>cf_mountpoint = [''m''], cf_home_dir = [''m''], cf_data_dir = [''s''], cf_server = ''h'', cf_workspace = ''w'',
     cf_backend = ''b'', cf_accept_device_change = False\<rparr>"

definition demo_disk :: disk where
  "demo_disk = \<lparr>dk_mount = \<lparr>mp_root = Missing, mp_home = Missing, mp_marker = NoMarker, mp_others = []\<rparr>, dk_ledgers = []\<rparr>"

definition demo_dest :: destination where
  "demo_dest = (let d = \<lparr>di_device = 1, di_inode = 7\<rparr> in
     \<lparr>de_marker = (new_marker demo_config ''h'' OWN_HOME d d)\<lparr>mk_mirror_id := replicate 32 (CHR ''a'')\<rparr>,
      de_fresh = True, de_root_directory = d, de_home_directory = d, de_persistent = ''p'', de_accept_device_change = False\<rparr>)"

definition demo_mount :: "nat \<Rightarrow> bool \<Rightarrow> mountpoint" where
  "demo_mount dev z = \<lparr>mp_root = IsDir ((demo_dir dev)\<lparr>dt_locked := z\<rparr>), mp_home = Missing,
     mp_marker = MarkerFile (de_marker demo_dest), mp_others = []\<rparr>"

lemma demo_open:
  "\<exists>d l t. open_replica demo_ident demo_config demo_disk = (Inr (demo_dest, d, l), \<lparr>dk_mount = demo_mount 1 True, dk_ledgers = t\<rparr>)"
proof -
  have t: "trim_end_with (\<lambda>c. c = slash) ''h'' = ''h''" by code_simp
  have lay: "home_layout demo_config = Inr OWN_HOME" by (simp add: home_layout_def demo_config_def)
  have srv: "server_identity demo_ident (cf_server demo_config) = Inr ''h''"
    by (simp add: server_identity_def demo_ident_def demo_config_def t)
  have out: "data_dir_outside demo_ident demo_config = Inr ()"
    by (simp add: data_dir_outside_def demo_ident_def demo_config_def prospective_path.simps)
  let ?k = "\<lparr>dk_mount = \<lparr>mp_root = IsDir ((demo_dir 1)\<lparr>dt_locked := True\<rparr>), mp_home = Missing, mp_marker = NoMarker, mp_others = []\<rparr>,
    dk_ledgers = []\<rparr> :: disk"
  have p: "prepare demo_ident demo_config demo_disk = (Inr demo_dest, ?k)"
    unfolding prepare_def lay srv out
    by (simp add: make_mountpoint_def demo_disk_def upd_mount_def demo_ident_def lock_dir_def demo_dir_def read_marker_def
        check_fresh_def identity_preflight_def mount_empty_def identify_def directory_id_def dir_id_of_def new_marker_def
        demo_dest_def demo_config_def Let_def)
  have s: "\<exists>d l t. open_store demo_ident demo_dest (cf_data_dir demo_config) ?k = (Inr (d, l), ?k\<lparr>dk_ledgers := t\<rparr>)"
    by (simp add: open_store_def demo_dest_def new_marker_def empty_database_def open_bound_def open_inner_bound
        check_binding_def read_meta_def Let_def)
  then obtain d l t where s: "open_store demo_ident demo_dest (cf_data_dir demo_config) ?k = (Inr (d, l), ?k\<lparr>dk_ledgers := t\<rparr>)"
    by blast
  have c: "commit demo_dest (?k\<lparr>dk_ledgers := t\<rparr>) = (Inr (), \<lparr>dk_mount = demo_mount 1 True, dk_ledgers = t\<rparr>)"
    by (simp add: commit_def demo_mount_def demo_dest_def new_marker_def verify_def upd_mount_def read_marker_def home_slot_def
        directory_id_def dir_id_of_def demo_dir_def Let_def)
  have "verify_local demo_dest (home_slot (demo_mount 1 True) (mk_home (de_marker demo_dest))) (demo_mount 1 True) = Inr ()"
    by (simp add: verify_local_def demo_mount_def demo_dest_def new_marker_def verify_def read_marker_def home_slot_def
        directory_id_def dir_id_of_def demo_dir_def Let_def)
  then show ?thesis using p s c by (simp add: open_replica_def)
qed

lemma demo_store_ok: "store_ok (d_store (known_ledger demo_config demo_disk))"
  by (simp add: known_ledger_def demo_disk_def empty_database_def)

theorem opened_replica_owns_its_ledger_witness:
  "\<exists>de d l k'. open_replica demo_ident demo_config demo_disk = (Inr (de, d, l), k')
    \<and> mp_marker (dk_mount k') = MarkerFile (de_marker de) \<and> replica_binding d = Some (ie_marker_json demo_ident (de_marker de))"
proof -
  obtain d l t where o: "open_replica demo_ident demo_config demo_disk = (Inr (demo_dest, d, l), \<lparr>dk_mount = demo_mount 1 True, dk_ledgers = t\<rparr>)"
    using demo_open by blast
  show ?thesis using opened_replica_owns_its_ledger[OF o demo_store_ok] o by blast
qed

theorem reopens_after_reboot_witness:
  "\<exists>d t de2 k3. open_replica demo_ident demo_config \<lparr>dk_mount = demo_mount 5 False, dk_ledgers = t\<rparr> = (Inr (de2, d, None), k3)
    \<and> de_marker de2 = de_marker demo_dest \<and> \<not> de_fresh de2"
proof -
  obtain d l t where o: "open_replica demo_ident demo_config demo_disk = (Inr (demo_dest, d, l), \<lparr>dk_mount = demo_mount 1 True, dk_ledgers = t\<rparr>)"
    using demo_open by blast
  have "\<exists>de2 k3. open_replica demo_ident demo_config \<lparr>dk_mount = demo_mount 5 False, dk_ledgers = t\<rparr> = (Inr (de2, d, None), k3)
      \<and> de_marker de2 = de_marker demo_dest \<and> \<not> de_fresh de2"
    by (rule reopens_after_reboot[OF o demo_store_ok])
      (simp_all add: demo_ident_def demo_mount_def same_directory_def demo_dir_def home_layout_def demo_config_def)
  then show ?thesis by blast
qed

definition demo_bound_disk :: disk where
  "demo_bound_disk = \<lparr>dk_mount = demo_mount 1 False,
     dk_ledgers = [([''s''], empty_database\<lparr>d_existing := [''meta_v2''], d_store := set_meta empty_store META_BINDING (replicate 32 (CHR ''a''))\<rparr>)]\<rparr>"

theorem found_ledger_is_bound_witness:
  "find_data_dir demo_ident (\<lambda>_. Some []) ''h'' [''s''] [] demo_bound_disk = Inr [''s'']
    \<and> server_identity demo_ident ''h'' = Inr (mk_server (de_marker demo_dest))"
proof -
  have t: "trim_end_with (\<lambda>c. c = slash) ''h'' = ''h''" by code_simp
  have f: "find_data_dir demo_ident (\<lambda>_. Some []) ''h'' [''s''] [] demo_bound_disk = Inr [''s'']"
    by (simp add: find_data_dir_def demo_bound_disk_def demo_mount_def read_marker_def demo_ident_def marker_for_server_def
        server_identity_def t demo_dest_def new_marker_def demo_config_def data_dir_candidates_def replica_binding_def
        read_meta_def meta_def set_meta_def empty_database_def Let_def)
  show ?thesis using found_ledger_is_bound[OF f] f by (simp add: demo_bound_disk_def demo_mount_def)
qed

theorem resolved_workspace_matches_marker_witness:
  "\<exists>w. resolve_workspace demo_ident None ''h'' ''name'' (\<lambda>_. Some \<lparr>wi_id = ''w'', wi_name = ''name''\<rparr>) (demo_mount 1 False) = Inr (w, True)
    \<and> wi_id w = mk_workspace (de_marker demo_dest)"
proof -
  have t: "trim_end_with (\<lambda>c. c = slash) ''h'' = ''h''" by code_simp
  have f: "resolve_workspace demo_ident None ''h'' ''name'' (\<lambda>_. Some \<lparr>wi_id = ''w'', wi_name = ''name''\<rparr>) (demo_mount 1 False)
      = Inr (\<lparr>wi_id = ''w'', wi_name = ''name''\<rparr>, True)"
    by (simp add: resolve_workspace_def cached_workspace_def demo_mount_def read_marker_def demo_ident_def marker_for_server_def
        server_identity_def t demo_dest_def new_marker_def demo_config_def Let_def)
  show ?thesis using resolved_workspace_matches_marker[OF f, of "de_marker demo_dest"] f by (simp add: demo_mount_def)
qed

end
