(* ===== verification/Worker.thy ===== *)
theory Worker
  imports Writes
begin

text \<open>
  The refresh worker (\<^verbatim>\<open>src/src/worker.rs\<close>): it fetches listings, hands them to the operations of
  the mounted tree, and tells the kernel and the nudge thread what changed. Tree, names and the
  server are those of the write path (\<open>wstore\<close>); what goes to the kernel, to the nudge thread and
  to the event stream is recorded. A refresh holds the lock of the write path, so it is one
  step. None is a panic of the thread, or a listing whose pages do not end. Job sets and sets of
  directories are walked in order.
\<close>

datatype notice = NDelete nat nat string | NInval nat

datatype poke = PDir "string list" | PUnlink "string list" | PFile "string list"

datatype refresh_job = RefreshAll | RefreshContext string | MirrorInvalidations | MirrorNudge | MirrorReconnect

record ('h, 'n) desk =
  dk_store :: "('h, 'n) wstore"
  dk_notices :: "notice list"
  dk_pokes :: "poke list"
  dk_subscribed :: "string list"
  dk_mirror_queue :: "invalidation list"
  dk_reconnects :: nat

record ('h, 'n) worker =
  k_w :: "('h, 'n) wenv"
  k_hash :: "(string \<times> string list) list \<Rightarrow> nat"
  k_pages :: nat
  k_filter :: "string set option"
  k_workspace :: "string option"
  k_notifier :: bool
  k_nudger :: bool

definition dk_tree :: "('h, 'n) desk \<Rightarrow> view" where
  "dk_tree s = w_tree (dk_store s)"

definition set_tree :: "view \<Rightarrow> ('h, 'n) desk \<Rightarrow> ('h, 'n) desk" where
  "set_tree t s = s\<lparr>dk_store := (dk_store s)\<lparr>w_tree := t\<rparr>\<rparr>"

definition set_net :: "'n \<Rightarrow> ('h, 'n) desk \<Rightarrow> ('h, 'n) desk" where
  "set_net n s = s\<lparr>dk_store := (dk_store s)\<lparr>w_net := n\<rparr>\<rparr>"

section \<open>Telling the kernel\<close>

definition kernel_notices :: "bool \<Rightarrow> invalidation \<Rightarrow> notice list" where
  "kernel_notices nudger v =
     map (\<lambda>(p, c, nm). NDelete p c nm) (iv_removed v)
     @ (if nudger then [] else map (\<lambda>(p, c, nm). NDelete p c nm) (iv_vanished v))
     @ map NInval (iv_changed v) @ map NInval (iv_dirty v)"

definition nudged_dirs :: "view \<Rightarrow> invalidation \<Rightarrow> nat list" where
  "nudged_dirs t v = sort (remdups (iv_dirty v @ map fst (iv_removed v)
     @ List.map_filter (\<lambda>i. map_option n_parent (tget (vt_nodes t) i)) (iv_changed v)))"

definition pokes_of :: "view \<Rightarrow> invalidation \<Rightarrow> poke list" where
  "pokes_of t v =
     map PDir (List.map_filter (path_of t) (nudged_dirs t v))
     @ map PFile (List.map_filter (path_of t) (iv_added v @ iv_changed v))
     @ map PUnlink (List.map_filter (\<lambda>(_, i, _). path_of t i) (iv_vanished v))"

definition notify :: "('h, 'n) worker \<Rightarrow> invalidation \<Rightarrow> ('h, 'n) desk \<Rightarrow> ('h, 'n) desk" where
  "notify k v s =
     (let s = (if \<not> k_nudger k
               then set_tree (fold (\<lambda>(_, i, _). drop_tombstoned (we_now (k_w k)) i) (iv_vanished v) (dk_tree s)) s
               else s)
      in if \<not> k_notifier k \<or> inv_is_empty v then s
         else s\<lparr>dk_notices := dk_notices s @ kernel_notices (k_nudger k) v,
                dk_pokes := dk_pokes s @ (if k_nudger k then pokes_of (dk_tree s) v else [])\<rparr>)"

section \<open>One context\<close>

definition other_workspace :: "('h, 'n) worker \<Rightarrow> context_info \<Rightarrow> bool" where
  "other_workspace k c \<longleftrightarrow> (case k_workspace k of Some w \<Rightarrow> c_workspace c \<noteq> Some w | None \<Rightarrow> False)"

text \<open>The documents of a context, once its metadata has been looked at.\<close>

definition refresh_documents :: "('h, 'n) worker \<Rightarrow> string \<Rightarrow> ('h, 'n) desk \<Rightarrow> ('h, 'n) desk option" where
  "refresh_documents k ctx s =
     (let e = k_w k; w = dk_store s in
      case list_documents (we_text e) (we_api e) (we_net e) (k_pages k) ctx (w_net w) of
        (None, n) \<Rightarrow> None
      | (Some (Inl _), n) \<Rightarrow> Some (set_net n s)
      | (Some (Inr docs), n) \<Rightarrow>
          map_option (\<lambda>(t, v, db).
            let s = notify k v (s\<lparr>dk_store := w\<lparr>w_net := n, w_tree := t, w_names := db\<rparr>\<rparr>)
            in s\<lparr>dk_subscribed := dk_subscribed s @ [ctx]\<rparr>)
            (apply_documents (we_text e) (k_hash k) (we_now e) ctx docs (w_names w) (w_tree w)))"

definition refresh_context :: "('h, 'n) worker \<Rightarrow> string \<Rightarrow> ('h, 'n) desk \<Rightarrow> ('h, 'n) desk option" where
  "refresh_context k ctx s =
     (if (case k_filter k of Some ids \<Rightarrow> ctx \<notin> ids | None \<Rightarrow> False) then Some s
      else let e = k_w k in
       case get_context (we_api e) (we_net e) ctx (w_net (dk_store s)) of
         (Inl _, n) \<Rightarrow> Some (set_net n s)
       | (Inr c, n) \<Rightarrow>
          (let s = set_net n s in
           if c_id c \<noteq> ctx \<or> other_workspace k c then Some s
           else Option.bind (update_context_meta (we_text e) (we_now e) c (dk_tree s)) (\<lambda>(t, v).
             refresh_documents k ctx (notify k v (set_tree t s)))))"

section \<open>Everything\<close>

fun each :: "('a \<Rightarrow> 's \<Rightarrow> 's option) \<Rightarrow> 'a list \<Rightarrow> 's \<Rightarrow> 's option" where
  "each f [] s = Some s"
| "each f (x # xs) s = Option.bind (f x s) (each f xs)"

definition refresh_paths :: "('h, 'n) worker \<Rightarrow> string \<Rightarrow> tree_info \<Rightarrow> ('h, 'n) desk \<Rightarrow> ('h, 'n) desk option" where
  "refresh_paths k ws r s =
     (let e = k_w k in
      case list_tree_paths (we_api e) (we_net e) ws (ti_id r) (w_net (dk_store s)) of
        (Inl _, n) \<Rightarrow> Some (set_net n s)
      | (Inr ps, n) \<Rightarrow>
          map_option (\<lambda>(t, v). notify k v (set_tree t (set_net n s)))
            (apply_tree_paths (we_now e) (ti_name r) ps (dk_tree s)))"

definition refresh_trash :: "('h, 'n) worker \<Rightarrow> string \<Rightarrow> ('h, 'n) desk \<Rightarrow> ('h, 'n) desk option" where
  "refresh_trash k ws s =
     (let e = k_w k in
      case list_trash (we_text e) (we_api e) (we_net e) ws (w_net (dk_store s)) of
        (Inl _, n) \<Rightarrow> Some (set_net n s)
      | (Inr docs, n) \<Rightarrow>
          map_option (\<lambda>(t, v). notify k v (set_tree t (set_net n s)))
            (apply_trash_documents (we_text e) (we_now e) docs (dk_tree s)))"

definition refresh_path :: "('h, 'n) worker \<Rightarrow> string \<Rightarrow> string \<times> string \<Rightarrow> ('h, 'n) desk \<Rightarrow> ('h, 'n) desk option" where
  "refresh_path k ws tp s = (case tp of (nm, path) \<Rightarrow> (case ws_tree_meta (dk_tree s) nm of
     None \<Rightarrow> Some s
   | Some (tree, ty) \<Rightarrow>
       (let e = k_w k in
        case list_tree_documents (we_text e) (we_api e) (we_net e) (k_pages k) ws tree ty path (w_net (dk_store s)) of
          (None, n) \<Rightarrow> None
        | (Some (Inl _), n) \<Rightarrow> Some (set_net n s)
        | (Some (Inr docs), n) \<Rightarrow>
            map_option (\<lambda>(t, v). notify k v (set_tree t (set_net n s)))
              (apply_tree_documents (we_text e) (we_now e) nm path docs (dk_tree s)))))"

definition refresh_workspace :: "('h, 'n) worker \<Rightarrow> ('h, 'n) desk \<Rightarrow> ('h, 'n) desk option" where
  "refresh_workspace k s = (case vt_ws (dk_tree s) of
     None \<Rightarrow> Some s
   | Some w \<Rightarrow>
      (let sel = ws_selection w; ws = ws_id w; e = k_w k in
       if sel_home sel \<and> sel_trees sel = [] then Some s
       else case list_trees (we_api e) (we_net e) ws (w_net (dk_store s)) of
         (Inl _, n) \<Rightarrow> Some (set_net n s)
       | (Inr rs, n) \<Rightarrow>
          (let rs = filter (\<lambda>r. includes_tree sel (ti_name r)) rs in
           Option.bind (apply_trees (we_now e) rs (dk_tree s)) (\<lambda>(t, v).
           Option.bind (each (refresh_paths k ws) rs (notify k v (set_tree t (set_net n s)))) (\<lambda>s.
           Option.bind (if is_explicit sel then Some s else refresh_trash k ws s) (\<lambda>s.
             each (refresh_path k ws) (ws_path_keys (dk_tree s)) s))))))"

definition mounted_contexts :: "('h, 'n) worker \<Rightarrow> context_info list \<Rightarrow> context_info list" where
  "mounted_contexts k cs = filter (\<lambda>c. \<not> other_workspace k c)
     (case k_filter k of Some ids \<Rightarrow> filter (\<lambda>c. c_id c \<in> ids) cs | None \<Rightarrow> cs)"

definition refresh_all :: "('h, 'n) worker \<Rightarrow> ('h, 'n) desk \<Rightarrow> ('h, 'n) desk option" where
  "refresh_all k s =
     (if is_workspace (dk_tree s) then refresh_workspace k s
      else let e = k_w k in
       case list_contexts (we_api e) (we_net e) (w_net (dk_store s)) of
         (Inl _, n) \<Rightarrow> Some (set_net n s)
       | (Inr cs, n) \<Rightarrow>
          (let cs = mounted_contexts k cs in
           Option.bind (apply_contexts (we_text e) (we_now e) cs (dk_tree s)) (\<lambda>(t, v, _).
             each (\<lambda>c. refresh_context k (c_id c)) cs (notify k v (set_tree t (set_net n s))))))"

section \<open>The queue\<close>

definition flush_mirror_invalidations :: "('h, 'n) worker \<Rightarrow> ('h, 'n) desk \<Rightarrow> ('h, 'n) desk" where
  "flush_mirror_invalidations k s = fold (notify k) (dk_mirror_queue s) (s\<lparr>dk_mirror_queue := []\<rparr>)"

definition on_mirror :: "('h mirror \<Rightarrow> 'h mirror) \<Rightarrow> ('h, 'n) desk \<Rightarrow> ('h, 'n) desk" where
  "on_mirror f s = s\<lparr>dk_store := upd_mirror f (dk_store s)\<rparr>"

text \<open>One burst of jobs, each once: the mirror first, then one refresh of everything or of the
  contexts named.\<close>

definition worker_round :: "('h, 'n) worker \<Rightarrow> refresh_job list \<Rightarrow> ('h, 'n) desk \<Rightarrow> ('h, 'n) desk option" where
  "worker_round k js s =
     (let s = (if MirrorInvalidations \<in> set js then flush_mirror_invalidations k s else s);
          s = (if MirrorReconnect \<in> set js \<and> w_mirror (dk_store s) \<noteq> None
               then s\<lparr>dk_reconnects := dk_reconnects s + 1\<rparr> else s);
          s = (if MirrorNudge \<in> set js then on_mirror wake s else s)
      in if RefreshAll \<in> set js then refresh_all k s
         else each (\<lambda>j s. case j of RefreshContext ctx \<Rightarrow> refresh_context k ctx s | _ \<Rightarrow> Some s) (remdups js) s)"

section \<open>The nudge thread\<close>

text \<open>The nudge thread (\<^verbatim>\<open>src/src/nudge.rs\<close>) turns one burst of pokes into system calls on paths of
  the mount: each file is touched once, each departed document removed once, and the marker is
  created in each directory, and removed if that succeeded (\<open>made\<close>).\<close>

datatype syscall = SysTouch "string list" | SysRemove "string list" | SysCreate "string list"

definition path_set :: "string list list \<Rightarrow> string list list" where
  "path_set ps = sort (remdups ps)"

definition nudge_round :: "string \<Rightarrow> (string list \<Rightarrow> bool) \<Rightarrow> poke list \<Rightarrow> syscall list" where
  "nudge_round marker made ps =
     map SysTouch (path_set (List.map_filter (\<lambda>p. case p of PFile f \<Rightarrow> Some f | _ \<Rightarrow> None) ps))
     @ map SysRemove (path_set (List.map_filter (\<lambda>p. case p of PUnlink f \<Rightarrow> Some f | _ \<Rightarrow> None) ps))
     @ concat (map (\<lambda>d. let m = d @ [marker] in SysCreate m # (if made m then [SysRemove m] else []))
         (path_set (List.map_filter (\<lambda>p. case p of PDir d \<Rightarrow> Some d | _ \<Rightarrow> None) ps)))"

end
