(* ===== verification/Fuse.thy ===== *)
theory Fuse
  imports Writes_Rename Blobs
begin

text \<open>
  The FUSE adapter (\<^verbatim>\<open>src/src/fsimpl.rs\<close>): what each request of the kernel does to the mounted
  tree, the write path and the blob cache, and what it answers. An answer is an error name
  (\<open>Inl\<close>) or a value. Names are byte strings, \<open>fe_utf8\<close> says which are valid UTF-8; the reserved
  name of the virtual marker (\<^verbatim>\<open>nudge.rs\<close>) is \<open>fe_nudge\<close>. The time stamps of an attribute are all
  the modification time and its constant fields are left out. Requests of no bytes at all are
  not sent by the kernel.
\<close>

section \<open>State and answers\<close>

record ('h, 'n) fuse =
  fs_writes :: "('h, 'n) wstore"
  fs_blobs :: blob_store

record ('h, 'n) fenv =
  fe_w :: "('h, 'n) wenv"
  fe_utf8 :: "string \<Rightarrow> bool"
  fe_nudge :: string
  fe_uid :: nat
  fe_gid :: nat

definition NUDGE_INO :: nat where "NUDGE_INO = 6"

definition nudge_file :: "string option \<Rightarrow> string" where
  "nudge_file nm = or_default ''.canvas-tmp'' nm"

text \<open>The first name set wins.\<close>

definition set_nudge_file :: "string \<Rightarrow> string option \<Rightarrow> string option" where
  "set_nudge_file nm cur = (if str_trim nm = [] then cur else if cur = None then Some (str_trim nm) else cur)"

record file_attr =
  fa_ino :: nat
  fa_size :: nat
  fa_blocks :: nat
  fa_mtime :: nat
  fa_dir :: bool
  fa_perm :: nat
  fa_uid :: nat
  fa_gid :: nat

definition fs_tree :: "('h, 'n) fuse \<Rightarrow> view" where
  "fs_tree s = w_tree (fs_writes s)"

definition file_attr :: "('h, 'n) fenv \<Rightarrow> nat \<Rightarrow> nat \<Rightarrow> nat \<Rightarrow> bool \<Rightarrow> file_attr" where
  "file_attr e ino sz mtime dir = \<lparr>fa_ino = ino, fa_size = sz, fa_blocks = (sz + 511) div 512, fa_mtime = mtime,
     fa_dir = dir, fa_perm = (if dir then 493 else 420), fa_uid = fe_uid e, fa_gid = fe_gid e\<rparr>"

definition blob_key :: "string \<Rightarrow> nat \<Rightarrow> string option \<Rightarrow> string" where
  "blob_key ws doc checksum = or_default (ws @ ''/'' @ show_nat doc) checksum"

text \<open>A file without a size is downloaded once, in the cache afterwards.\<close>

definition sized :: "('h, 'n) fenv \<Rightarrow> string \<Rightarrow> nat \<Rightarrow> string option \<Rightarrow> ('h, 'n) fuse \<Rightarrow> nat \<times> ('h, 'n) fuse" where
  "sized e ws doc checksum s =
     (let key = blob_key ws doc checksum; c = bs_cache (fs_blobs s); w = fs_writes s;
          (fetched, n) = (if fst (lru_get c key) \<noteq> None then (None, w_net w)
            else case fetch_content (we_api (fe_w e)) (we_net (fe_w e)) ws doc (w_net w) of
              (Inl _, n) \<Rightarrow> (None, n) | (Inr bytes, n) \<Rightarrow> (Some bytes, n));
          (sz, c) = resolve_size fetched key c
      in (sz, s\<lparr>fs_writes := w\<lparr>w_net := n\<rparr>, fs_blobs := (fs_blobs s)\<lparr>bs_cache := c\<rparr>\<rparr>))"

definition attr :: "('h, 'n) fenv \<Rightarrow> view_node \<Rightarrow> ('h, 'n) fuse \<Rightarrow> file_attr \<times> ('h, 'n) fuse" where
  "attr e n s =
     (let (sz, s) = (case size_override (fs_writes s) (n_ino n) of
            Some buffered \<Rightarrow> (buffered, s)
          | None \<Rightarrow> (case n_content n of
              NRemote ws doc None checksum \<Rightarrow> sized e ws doc checksum s
            | _ \<Rightarrow> (node_size n, s)))
      in (file_attr e (n_ino n) sz (n_mtime n) (View.is_dir n), s))"

definition nudge_attr :: "('h, 'n) fenv \<Rightarrow> file_attr" where
  "nudge_attr e = file_attr e NUDGE_INO 0 (we_now (fe_w e)) False"

definition overlay_file :: "('h, 'n) fenv \<Rightarrow> overlay_entry \<Rightarrow> file_attr" where
  "overlay_file e o' = file_attr e (ov_ino o') (ov_size o') (ov_mtime o') False"

definition attr_for_ino :: "('h, 'n) fenv \<Rightarrow> nat \<Rightarrow> ('h, 'n) fuse \<Rightarrow> file_attr option \<times> ('h, 'n) fuse" where
  "attr_for_ino e ino s = (case tget (vt_nodes (fs_tree s)) ino of
     Some n \<Rightarrow> (case attr e n s of (a, s) \<Rightarrow> (Some a, s))
   | None \<Rightarrow> (map_option (overlay_file e) (overlay_attr (fs_writes s) ino), s))"

section \<open>Looking\<close>

definition ensure_home_loaded :: "('h, 'n) fenv \<Rightarrow> nat \<Rightarrow> ('h, 'n) fuse \<Rightarrow> ('h, 'n) fuse" where
  "ensure_home_loaded e ino s =
     (let w = fs_writes s in
      if w_mirror w \<noteq> None then s
      else case home_path (w_tree w) ino of
        None \<Rightarrow> s
      | Some (path, loaded) \<Rightarrow>
          if loaded then s
          else (case the_ws w of
            None \<Rightarrow> s
          | Some ws \<Rightarrow>
            (case list_home (we_api (fe_w e)) (we_net (fe_w e)) ws path (w_net w) of
               (Inl _, n) \<Rightarrow> s\<lparr>fs_writes := w\<lparr>w_net := n\<rparr>\<rparr>
             | (Inr es, n) \<Rightarrow>
                 s\<lparr>fs_writes := upd_tree (\<lambda>t. fst (apply_home_entries (we_now (fe_w e)) ino es t)) (w\<lparr>w_net := n\<rparr>)\<rparr>)))"

type_synonym ('a, 'h, 'n) answer = "(string + 'a) \<times> ('h, 'n) fuse"

definition fs_lookup :: "('h, 'n) fenv \<Rightarrow> nat \<Rightarrow> string \<Rightarrow> ('h, 'n) fuse \<Rightarrow> (file_attr, 'h, 'n) answer" where
  "fs_lookup e parent nm s =
     (if \<not> fe_utf8 e nm \<or> nm = fe_nudge e then (Inl ''ENOENT'', s)
      else case lookup_node (fs_tree s) parent nm of
        Some n \<Rightarrow> (case attr e n s of (a, s) \<Rightarrow> (Inr a, s))
      | None \<Rightarrow>
          (let s = ensure_home_loaded e parent s in
           case lookup_node (fs_tree s) parent nm of
             Some n \<Rightarrow> (case attr e n s of (a, s) \<Rightarrow> (Inr a, s))
           | None \<Rightarrow> (case lookup_overlay (fs_writes s) parent nm of
               Some o' \<Rightarrow> (Inr (overlay_file e o'), s)
             | None \<Rightarrow> (Inl ''ENOENT'', s))))"

definition or_enoent :: "'a option \<times> 's \<Rightarrow> (string + 'a) \<times> 's" where
  "or_enoent r = (case r of (Some a, s) \<Rightarrow> (Inr a, s) | (None, s) \<Rightarrow> (Inl ''ENOENT'', s))"

definition fs_getattr :: "('h, 'n) fenv \<Rightarrow> nat \<Rightarrow> ('h, 'n) fuse \<Rightarrow> (file_attr, 'h, 'n) answer" where
  "fs_getattr e ino s = (if ino = NUDGE_INO then (Inr (nudge_attr e), s) else or_enoent (attr_for_ino e ino s))"

text \<open>An operation of the write path, its error as an error name.\<close>

definition on_writes ::
    "(('h, 'n) wstore \<Rightarrow> (write_error + 'a) \<times> ('h, 'n) wstore) \<Rightarrow> ('h, 'n) fuse \<Rightarrow> ('a, 'h, 'n) answer" where
  "on_writes f s = (case f (fs_writes s) of (r, w) \<Rightarrow> (map_sum errno id r, s\<lparr>fs_writes := w\<rparr>))"

definition fs_setattr :: "('h, 'n) fenv \<Rightarrow> nat \<Rightarrow> nat option \<Rightarrow> ('h, 'n) fuse \<Rightarrow> (file_attr, 'h, 'n) answer" where
  "fs_setattr e ino sz s =
     (if ino = NUDGE_INO then (Inr (nudge_attr e), s)
      else case (case sz of None \<Rightarrow> (Inr (), s) | Some n \<Rightarrow> on_writes (Writes_Flush.truncate (fe_w e) ino n) s) of
        (Inl err, s) \<Rightarrow> (Inl err, s)
      | (Inr _, s) \<Rightarrow> or_enoent (attr_for_ino e ino s))"

section \<open>Opening, creating, removing\<close>

text \<open>The access mode is the lowest two bits of the flags, \<^verbatim>\<open>O_TRUNC\<close> is bit nine. A handle of 0
  reads; the inode number as a handle writes.\<close>

definition wants_write :: "nat \<Rightarrow> bool" where
  "wants_write flags \<longleftrightarrow> flags mod 4 \<noteq> 0"

definition wants_truncate :: "nat \<Rightarrow> bool" where
  "wants_truncate flags \<longleftrightarrow> odd (flags div 512)"

definition fs_open :: "('h, 'n) fenv \<Rightarrow> nat \<Rightarrow> nat \<Rightarrow> ('h, 'n) fuse \<Rightarrow> (nat, 'h, 'n) answer" where
  "fs_open e ino flags s =
     (if ino = NUDGE_INO \<or> \<not> wants_write flags then (Inr 0, s)
      else case on_writes (if overlay_attr (fs_writes s) ino \<noteq> None then open_overlay ino (wants_truncate flags)
                           else open_existing (fe_w e) ino (wants_truncate flags)) s of
        (Inl err, s) \<Rightarrow> (Inl err, s) | (Inr _, s) \<Rightarrow> (Inr ino, s))"

definition fs_create :: "('h, 'n) fenv \<Rightarrow> nat \<Rightarrow> string \<Rightarrow> ('h, 'n) fuse \<Rightarrow> (file_attr \<times> nat, 'h, 'n) answer" where
  "fs_create e parent nm s =
     (if \<not> fe_utf8 e nm then (Inl ''EINVAL'', s)
      else if nm = fe_nudge e then (Inr (nudge_attr e, 0), s)
      else case on_writes (create (fe_w e) parent nm) s of
        (Inl err, s) \<Rightarrow> (Inl err, s)
      | (Inr o', s) \<Rightarrow> (Inr (file_attr e (ov_ino o') 0 (ov_mtime o') False, ov_ino o'), s))"

definition fs_mknod :: "('h, 'n) fenv \<Rightarrow> string \<Rightarrow> ('h, 'n) fuse \<Rightarrow> (file_attr, 'h, 'n) answer" where
  "fs_mknod e nm s = (if fe_utf8 e nm \<and> nm = fe_nudge e then Inr (nudge_attr e) else Inl ''ENOSYS'', s)"

definition fs_mkdir :: "('h, 'n) fenv \<Rightarrow> nat \<Rightarrow> string \<Rightarrow> ('h, 'n) fuse \<Rightarrow> (file_attr, 'h, 'n) answer" where
  "fs_mkdir e parent nm s =
     (if \<not> fe_utf8 e nm then (Inl ''EINVAL'', s)
      else case on_writes (wmkdir (fe_w e) parent nm) s of
        (Inl err, s) \<Rightarrow> (Inl err, s)
      | (Inr ino, s) \<Rightarrow> (Inr (file_attr e ino 0 (we_now (fe_w e)) True), s))"

definition fs_rmdir :: "('h, 'n) fenv \<Rightarrow> nat \<Rightarrow> string \<Rightarrow> ('h, 'n) fuse \<Rightarrow> (unit, 'h, 'n) answer" where
  "fs_rmdir e parent nm s =
     (if \<not> fe_utf8 e nm then (Inl ''ENOENT'', s) else on_writes (wrmdir (fe_w e) parent nm) s)"

definition fs_unlink :: "('h, 'n) fenv \<Rightarrow> nat \<Rightarrow> string \<Rightarrow> ('h, 'n) fuse \<Rightarrow> (unit, 'h, 'n) answer" where
  "fs_unlink e parent nm s =
     (if \<not> fe_utf8 e nm then (Inl ''ENOENT'', s)
      else if nm = fe_nudge e then (Inr (), s)
      else case take_tombstone parent nm (fs_tree s) of
        (Some ino, t) \<Rightarrow> (Inr (), s\<lparr>fs_writes := upd_tree (\<lambda>_. drop_tombstoned (we_now (fe_w e)) ino t) (fs_writes s)\<rparr>)
      | (None, t) \<Rightarrow> on_writes (unlink (fe_w e) parent nm) (s\<lparr>fs_writes := upd_tree (\<lambda>_. t) (fs_writes s)\<rparr>))"

definition fs_rename :: "('h, 'n) fenv \<Rightarrow> nat \<Rightarrow> string \<Rightarrow> nat \<Rightarrow> string \<Rightarrow> ('h, 'n) fuse \<Rightarrow> (unit, 'h, 'n) answer" where
  "fs_rename e parent nm parent' nm' s =
     (if \<not> (fe_utf8 e nm \<and> fe_utf8 e nm') then (Inl ''EINVAL'', s)
      else on_writes (rename (fe_w e) parent nm parent' nm') s)"

section \<open>Bytes\<close>

definition fs_write :: "nat \<Rightarrow> int \<Rightarrow> string \<Rightarrow> ('h, 'n) fuse \<Rightarrow> (nat, 'h, 'n) answer" where
  "fs_write ino offset bytes s =
     (if ino = NUDGE_INO then (Inr (length bytes), s) else on_writes (write_bytes ino offset bytes) s)"

definition fs_flush :: "('h, 'n) fenv \<Rightarrow> nat \<Rightarrow> nat \<Rightarrow> ('h, 'n) fuse \<Rightarrow> (unit, 'h, 'n) answer" where
  "fs_flush e ino fh s = (if fh = 0 then (Inr (), s) else on_writes (flush (fe_w e) ino) s)"

definition fs_fsync :: "('h, 'n) fenv \<Rightarrow> nat \<Rightarrow> nat \<Rightarrow> ('h, 'n) fuse \<Rightarrow> (unit, 'h, 'n) answer" where
  "fs_fsync e ino fh s = (if fh = 0 then (Inr (), s) else on_writes (flush (fe_w e) ino) s)"

definition fs_release :: "('h, 'n) fenv \<Rightarrow> nat \<Rightarrow> nat \<Rightarrow> ('h, 'n) fuse \<Rightarrow> (unit, 'h, 'n) answer" where
  "fs_release e ino fh s =
     (if fh = 0 then (Inr (), s)
      else case on_writes (flush_final (fe_w e) ino) s of
        (r, s) \<Rightarrow> (r, s\<lparr>fs_writes := release ino (fs_writes s)\<rparr>))"

text \<open>A blob that is not in the cache is answered later (\<open>Later\<close>), by the download.\<close>

datatype read_answer = Bytes string | Later

definition read_blob :: "string \<Rightarrow> nat \<Rightarrow> string option \<Rightarrow> pending_read \<Rightarrow> ('h, 'n) fuse \<Rightarrow> (read_answer, 'h, 'n) answer" where
  "read_blob ws doc checksum p s =
     (let j = \<lparr>fj_key = blob_key ws doc checksum, fj_workspace = ws, fj_doc = doc\<rparr>;
          b = read_cache j p (fs_blobs s)
      in case fst (lru_get (bs_cache (fs_blobs s)) (fj_key j)) of
           Some blob \<Rightarrow> (Inr (Bytes (reply_slice blob (p_offset p) (p_size p))), s\<lparr>fs_blobs := b\<rparr>)
         | None \<Rightarrow> (Inr Later, s\<lparr>fs_blobs := read_wait j p b\<rparr>))"

fun io_name :: "io_error \<Rightarrow> string" where
  "io_name NotFound = ''ENOENT''"
| "io_name _ = ''EIO''"

definition read_home_file ::
    "('h, 'n) fenv \<Rightarrow> string \<Rightarrow> nat \<Rightarrow> int \<Rightarrow> nat \<Rightarrow> ('h, 'n) fuse \<Rightarrow> (read_answer, 'h, 'n) answer" where
  "read_home_file e path file_size offset sz s =
     (let w = fs_writes s in
      if offset < 0 \<or> file_size \<le> nat offset then (Inr (Bytes []), s)
      else case w_mirror w of
        Some m \<Rightarrow> (map_sum io_name Bytes (mirror_read (trim_with (\<lambda>c. c = slash) path) offset sz m), s)
      | None \<Rightarrow>
          (let start = nat offset; stop = min (start + sz - 1) (file_size - 1) in
           case the_ws w of
             None \<Rightarrow> (Inl ''EIO'', s)
           | Some ws \<Rightarrow>
               (case read_home_range (we_api (fe_w e)) (we_net (fe_w e)) ws path start stop (w_net w) of
                  (Inl _, n) \<Rightarrow> (Inl ''EIO'', s\<lparr>fs_writes := w\<lparr>w_net := n\<rparr>\<rparr>)
                | (Inr bytes, n) \<Rightarrow> (Inr (Bytes bytes), s\<lparr>fs_writes := w\<lparr>w_net := n\<rparr>\<rparr>))))"

definition fs_read ::
    "('h, 'n) fenv \<Rightarrow> nat \<Rightarrow> pending_read \<Rightarrow> ('h, 'n) fuse \<Rightarrow> (read_answer, 'h, 'n) answer" where
  "fs_read e ino p s =
     (if ino = NUDGE_INO then (Inr (Bytes []), s)
      else case read_buffer (fs_writes s) ino (p_offset p) (p_size p) of
        Some bytes \<Rightarrow> (Inr (Bytes bytes), s)
      | None \<Rightarrow> (case tget (vt_nodes (fs_tree s)) ino of
          None \<Rightarrow> (Inl ''ENOENT'', s)
        | Some n \<Rightarrow> (case n_content n of
            NDir \<Rightarrow> (Inl ''EISDIR'', s)
          | NHomeDir _ _ \<Rightarrow> (Inl ''EISDIR'', s)
          | NInline bytes \<Rightarrow> (Inr (Bytes (reply_slice bytes (p_offset p) (p_size p))), s)
          | NHomeFile path sz \<Rightarrow> read_home_file e path sz (p_offset p) (p_size p) s
          | NRemote ws doc _ checksum \<Rightarrow> read_blob ws doc checksum p s)))"

section \<open>Listing a directory\<close>

type_synonym dir_row = "nat \<times> bool \<times> string"

definition tree_rows :: "string \<Rightarrow> view_node \<Rightarrow> nat \<Rightarrow> view \<Rightarrow> dir_row list" where
  "tree_rows nudge d ino t = (ino, True, ''.'') # (n_parent d, True, ''..'') #
     map (\<lambda>n. (n_ino n, View.is_dir n, n_name n)) (filter (\<lambda>n. n_name n \<noteq> nudge) (or_default [] (list_dir t ino)))"

text \<open>Pending files follow, unless their name is listed already.\<close>

fun add_pending :: "string \<Rightarrow> (nat \<times> string) list \<Rightarrow> dir_row list \<Rightarrow> dir_row list" where
  "add_pending nudge [] rows = rows"
| "add_pending nudge ((i, nm) # xs) rows =
     add_pending nudge xs
       (if nm \<noteq> nudge \<and> nm \<notin> (\<lambda>(_, _, n). n) ` set rows then rows @ [(i, False, nm)] else rows)"

text \<open>The rows of a directory, and the part of them that goes into one answer: \<open>room\<close> rows from
  the offset on, each with the offset to go on from.\<close>

definition dir_rows :: "('h, 'n) fenv \<Rightarrow> nat \<Rightarrow> ('h, 'n) fuse \<Rightarrow> string + dir_row list" where
  "dir_rows e ino s = (case tget (vt_nodes (fs_tree s)) ino of
     None \<Rightarrow> Inl ''ENOENT''
   | Some d \<Rightarrow>
       if \<not> View.is_dir d then Inl ''ENOTDIR''
       else Inr (add_pending (fe_nudge e) (overlay_entries (fs_writes s) ino)
              (tree_rows (fe_nudge e) d ino (fs_tree s))))"

definition fs_readdir ::
    "('h, 'n) fenv \<Rightarrow> nat \<Rightarrow> nat \<Rightarrow> nat \<Rightarrow> ('h, 'n) fuse \<Rightarrow> ((nat \<times> dir_row) list, 'h, 'n) answer" where
  "fs_readdir e ino offset room s =
     (let s = ensure_home_loaded e ino s
      in (map_sum id (\<lambda>rows. take room (drop offset (enumerate 1 rows))) (dir_rows e ino s), s))"

definition fs_statfs :: "nat \<times> nat \<times> nat \<times> nat \<times> nat \<times> nat \<times> nat \<times> nat" where
  "fs_statfs = (2 ^ 32, 2 ^ 32, 2 ^ 32, 0, 2 ^ 20, 4096, 255, 4096)"

end
