(* ===== verification/Fuse_Safe.thy ===== *)
theory Fuse_Safe
  imports Fuse View_Ok
begin

text \<open>
  What the kernel sees: a directory lists exactly the names that a lookup finds, with the same
  inodes, whatever the size of the answers; the marker of the nudge thread stays virtual.
\<close>

section \<open>A listing in pages\<close>

text \<open>The kernel asks again from the offset it was given last, until an answer is empty.\<close>

fun dir_pages :: "('h, 'n) fenv \<Rightarrow> nat \<Rightarrow> nat \<Rightarrow> nat \<Rightarrow> nat \<Rightarrow> ('h, 'n) fuse \<Rightarrow> dir_row list" where
  "dir_pages e dir room 0 offset s = []"
| "dir_pages e dir room (Suc k) offset s = (case fs_readdir e dir offset room s of
     (Inr (r # rs), s) \<Rightarrow> map snd (r # rs) @ dir_pages e dir room k (fst (last (r # rs))) s
   | _ \<Rightarrow> [])"

lemma dir_pages_rows:
  assumes "ensure_home_loaded e dir s = s" "dir_rows e dir s = Inr rows" "0 < room" "length rows - offset < k"
  shows "dir_pages e dir room k offset s = drop offset rows"
  using assms(4)
proof (induction k arbitrary: offset)
  case (Suc k)
  let ?p = "take room (drop offset (enumerate 1 rows))"
  have p: "fs_readdir e dir offset room s = (Inr ?p, s)" by (simp add: fs_readdir_def assms(1,2) Let_def)
  show ?case
  proof (cases "drop offset rows = []")
    case True
    then have "drop offset (enumerate 1 rows) = []" by simp
    then show ?thesis using True by (simp add: p)
  next
    case False
    define n where "n = min room (length rows - offset)"
    have o: "offset < length rows" "0 < n" using False assms(3) by (auto simp: n_def)
    have len: "length ?p = n" by (simp add: n_def)
    then obtain r rs where c: "?p = r # rs" using o(2) by (cases ?p) auto
    have "fst (last ?p) = offset + n"
      using o len by (simp add: last_conv_nth nth_enumerate_eq n_def)
    moreover have "map snd ?p = take room (drop offset rows)"
      by (simp flip: take_map drop_map)
    moreover have "dir_pages e dir room k (offset + n) s = drop (offset + n) rows" using Suc.prems o by (intro Suc.IH) arith
    moreover have "take room (drop offset rows) @ drop (offset + n) rows = drop offset rows"
    proof (cases "room \<le> length rows - offset")
      case True
      then show ?thesis using append_take_drop_id[of room "drop offset rows"] by (simp add: n_def add.commute)
    qed (use o in \<open>simp add: n_def\<close>)
    moreover have "dir_pages e dir room (Suc k) offset s = map snd ?p @ dir_pages e dir room k (fst (last ?p)) s"
      unfolding dir_pages.simps p c by simp
    ultimately show ?thesis by simp
  qed
qed simp

section \<open>Listing and lookup\<close>

text \<open>The two tables of the pending files name the same files.\<close>

definition overlay_ok :: "('h, 'n) wstore \<Rightarrow> bool" where
  "overlay_ok w \<longleftrightarrow> tsorted (w_overlay w)
     \<and> (\<forall>dir nm i. tget (w_overlay_names w) (dir, nm) = Some i \<longleftrightarrow> (\<exists>m. tget (w_overlay w) i = Some (dir, nm, m)))"

lemma overlay_entries_iff:
  assumes "overlay_ok w"
  shows "(i, nm) \<in> set (overlay_entries w dir) \<longleftrightarrow> tget (w_overlay_names w) (dir, nm) = Some i"
proof -
  have "tget (w_overlay_names w) (dir, nm) = Some i \<longleftrightarrow> (\<exists>m. (i, dir, nm, m) \<in> set (w_overlay w))"
    using assms by (auto simp: overlay_ok_def tsorted_lookup)
  then show ?thesis by (force simp: overlay_entries_def)
qed

lemma overlay_entries_distinct: "overlay_ok w \<Longrightarrow> distinct (map snd (overlay_entries w dir))"
proof -
  assume ok: "overlay_ok w"
  then have d: "distinct (map fst (w_overlay w))" by (simp add: overlay_ok_def tsorted_distinct)
  have "map fst (overlay_entries w dir) = map fst (filter (\<lambda>(_, d, _, _). d = dir) (w_overlay w))"
    by (simp add: overlay_entries_def case_prod_unfold)
  then have "distinct (map fst (overlay_entries w dir))" using d by (simp only: distinct_map_filter)
  moreover have "inj_on snd (set (overlay_entries w dir))"
    using overlay_entries_iff[OF ok] by (fastforce simp: inj_on_def)
  ultimately show ?thesis by (simp add: distinct_map)
qed

lemma lookup_overlay_iff:
  assumes "overlay_ok w"
  shows "(\<exists>o'. lookup_overlay w dir nm = Some o' \<and> ov_ino o' = i) \<longleftrightarrow> (i, nm) \<in> set (overlay_entries w dir)"
proof (cases "tget (w_overlay_names w) (dir, nm)")
  case (Some j)
  then obtain m where "tget (w_overlay w) j = Some (dir, nm, m)" using assms by (auto simp: overlay_ok_def)
  then have "\<exists>o'. lookup_overlay w dir nm = Some o' \<and> ov_ino o' = j" using Some by (simp add: lookup_overlay_def overlay_row_def)
  then show ?thesis using Some by (auto simp: overlay_entries_iff[OF assms])
qed (simp add: lookup_overlay_def overlay_entries_iff[OF assms])

lemma add_pending_rows:
  "add_pending nudge xs rows = rows @ map (\<lambda>(i, nm). (i, False, nm))
     (filter (\<lambda>(i, nm). nm \<noteq> nudge \<and> nm \<notin> (\<lambda>(_, _, n). n) ` set rows) xs)"
  if "distinct (map snd xs)"
  using that
proof (induction xs arbitrary: rows)
  case (Cons x xs)
  obtain i nm where x: "x = (i, nm)" by (cases x)
  have f: "filter (\<lambda>(j, n). n \<noteq> nudge \<and> n \<notin> (\<lambda>(_, _, n). n) ` set (rows @ [(i, False, nm)])) xs
     = filter (\<lambda>(j, n). n \<noteq> nudge \<and> n \<notin> (\<lambda>(_, _, n). n) ` set rows) xs"
    using Cons.prems x by (intro filter_cong) (auto simp: image_iff)
  show ?case using Cons x by (simp add: f[simplified])
qed simp

lemma tree_rows_iff:
  assumes ok: "view_ok t" and nm: "nm \<notin> {''.'', ''..''}"
  shows "(i, z, nm) \<in> set (tree_rows nudge d dir t) \<longleftrightarrow>
    nm \<noteq> nudge \<and> (\<exists>n. lookup_node t dir nm = Some n \<and> n_ino n = i \<and> View.is_dir n = z)"
proof -
  have name: "n_name m = k" if m: "lookup_node t dir k = Some m" for m k
  proof -
    have "child t dir k = Some (n_ino m)" "nview t (n_ino m) = Some (erase_time m)" using lookup_node_child[OF ok m] by simp_all
    then show ?thesis using view_ok_link[OF ok] by (metis erase_time_simps(3) option.inject)
  qed
  have "m \<in> set (or_default [] (list_dir t dir)) \<longleftrightarrow> lookup_node t dir (n_name m) = Some m" for m
  proof -
    have "m \<in> set (or_default [] (list_dir t dir)) \<longleftrightarrow> (\<exists>k j. (k, j) \<in> set (kids t dir) \<and> tget (vt_nodes t) j = Some m)"
      by (cases "tget (vt_children t) dir") (force simp: list_dir_def kids_def map_filter_def)+
    also have "\<dots> \<longleftrightarrow> (\<exists>k j. child t dir k = Some j \<and> tget (vt_nodes t) j = Some m)" using kids_child[OF ok] by simp
    also have "\<dots> \<longleftrightarrow> (\<exists>k. lookup_node t dir k = Some m)" by (auto simp: lookup_node_def bind_eq_Some_conv)
    finally show ?thesis using name by metis
  qed
  then have "(\<exists>m. m \<in> set (or_default [] (list_dir t dir)) \<and> n_name m = nm \<and> P m) \<longleftrightarrow> (\<exists>m. lookup_node t dir nm = Some m \<and> P m)" for P
    using name by metis
  moreover have "(i, z, nm) \<in> set (tree_rows nudge d dir t) \<longleftrightarrow> (\<exists>m. m \<in> set (or_default [] (list_dir t dir)) \<and> n_name m = nm
      \<and> (nm \<noteq> nudge \<and> n_ino m = i \<and> View.is_dir m = z))"
    using nm by (auto simp: tree_rows_def)
  ultimately show ?thesis by auto
qed

lemma tree_rows_names: "view_ok t \<Longrightarrow> (\<exists>i z. (i, z, nm) \<in> set (tree_rows nudge d dir t)) \<longleftrightarrow>
    nm \<in> {''.'', ''..''} \<or> nm \<noteq> nudge \<and> lookup_node t dir nm \<noteq> None"
  using tree_rows_iff[of t nm _ _ nudge d dir] by (cases "nm \<in> {''.'', ''..''}") (auto simp: tree_rows_def)

lemma attr_facts: "attr e n s = (a, s') \<Longrightarrow> fa_ino a = n_ino n \<and> fa_dir a = View.is_dir n"
  by (auto simp: attr_def file_attr_def Let_def split: prod.splits)

lemma lookup_iff:
  assumes "overlay_ok (fs_writes s)" "ensure_home_loaded e dir s = s" "fe_utf8 e nm"
  shows "(\<exists>a s'. fs_lookup e dir nm s = (Inr a, s') \<and> fa_ino a = i \<and> fa_dir a = z) \<longleftrightarrow> nm \<noteq> fe_nudge e \<and>
    ((\<exists>n. lookup_node (fs_tree s) dir nm = Some n \<and> n_ino n = i \<and> View.is_dir n = z)
     \<or> lookup_node (fs_tree s) dir nm = None \<and> \<not> z \<and> (i, nm) \<in> set (overlay_entries (fs_writes s) dir))"
proof (cases "nm = fe_nudge e")
  case False
  show ?thesis
  proof (cases "lookup_node (fs_tree s) dir nm")
    case (Some n)
    obtain a s' where a: "attr e n s = (a, s')" by (cases "attr e n s")
    have "fs_lookup e dir nm s = (Inr a, s')" using False assms(3) Some a by (simp add: fs_lookup_def)
    then show ?thesis using False Some attr_facts[OF a] by auto
  next
    case None
    have "fs_lookup e dir nm s = (case lookup_overlay (fs_writes s) dir nm of
        Some o' \<Rightarrow> (Inr (overlay_file e o'), s) | None \<Rightarrow> (Inl ''ENOENT'', s))"
      using False assms(2,3) None by (simp add: fs_lookup_def)
    then have "(\<exists>a s'. fs_lookup e dir nm s = (Inr a, s') \<and> fa_ino a = i \<and> fa_dir a = z) \<longleftrightarrow>
        (\<exists>o'. lookup_overlay (fs_writes s) dir nm = Some o' \<and> ov_ino o' = i) \<and> \<not> z"
      by (auto simp: overlay_file_def file_attr_def split: option.splits)
    then show ?thesis using None False lookup_overlay_iff[OF assms(1)] by auto
  qed
qed (simp add: fs_lookup_def)


section \<open>The marker of the nudge thread\<close>

text \<open>The marker is virtual. Creating, looking up, opening, writing, truncating, reading, closing
  and removing the reserved name in any directory succeeds (a fresh lookup misses) and changes
  nothing: no document comes of it and no request is sent. No directory lists the name, even
  when a document or a pending file has it.\<close>

theorem marker_is_virtual:
  assumes "fe_utf8 e (fe_nudge e)" "fe_nudge e \<notin> {''.'', ''..''}" "dir_rows e dir s = Inr rows"
  shows "fs_lookup e dir (fe_nudge e) s = (Inl ''ENOENT'', s)
   \<and> fs_create e dir (fe_nudge e) s = (Inr (nudge_attr e, 0), s)
   \<and> fs_mknod e (fe_nudge e) s = (Inr (nudge_attr e), s) \<and> fs_unlink e dir (fe_nudge e) s = (Inr (), s)
   \<and> fs_getattr e NUDGE_INO s = (Inr (nudge_attr e), s) \<and> fs_setattr e NUDGE_INO sz s = (Inr (nudge_attr e), s)
   \<and> fs_open e NUDGE_INO flags s = (Inr 0, s) \<and> fs_write NUDGE_INO offset bytes s = (Inr (length bytes), s)
   \<and> fs_read e NUDGE_INO p s = (Inr (Bytes []), s)
   \<and> fs_flush e ino 0 s = (Inr (), s) \<and> fs_fsync e ino 0 s = (Inr (), s) \<and> fs_release e ino 0 s = (Inr (), s)
   \<and> (i, z, fe_nudge e) \<notin> set rows"
proof -
  have add: "(i, z, nudge) \<notin> set rows \<Longrightarrow> (i, z, nudge) \<notin> set (add_pending nudge xs rows)" for nudge xs rows
  proof (induction xs arbitrary: rows)
    case (Cons x xs)
    obtain j n where "x = (j, n)" by (cases x)
    then show ?case using Cons.IH[of rows] Cons.IH[of "rows @ [(j, False, n)]"] Cons.prems by (cases "nudge = n") auto
  qed simp
  have "(i, z, fe_nudge e) \<notin> set rows"
  proof -
    obtain d where "rows = add_pending (fe_nudge e) (overlay_entries (fs_writes s) dir) (tree_rows (fe_nudge e) d dir (fs_tree s))"
      using assms(3) by (auto simp: dir_rows_def split: option.splits if_splits)
    then show ?thesis using assms(2) by (auto intro!: add simp: tree_rows_def)
  qed
  then show ?thesis using assms(1)
    by (simp add: fs_lookup_def fs_create_def fs_mknod_def fs_unlink_def fs_getattr_def fs_setattr_def fs_open_def
        fs_write_def fs_read_def fs_flush_def fs_fsync_def fs_release_def)
qed

end
