(* ===== verification/Worker_Safe.thy ===== *)
theory Worker_Safe
  imports Worker Fuse_Safe Writes_Faults
begin

text \<open>
  What a refresh achieves and what it leaves alone: after a refresh of everything the mount shows
  exactly the contexts that belong to it; a document that left is collected without a request;
  and a fault of the write path, a file renamed over another that is still pending.
\<close>

section \<open>The contexts of a mount\<close>

text \<open>Which contexts the tree knows; everything but \<open>apply_contexts\<close> leaves it alone.\<close>

definition ctx_frame :: "view \<Rightarrow> (string, nat) table \<times> string option \<times> bool" where
  "ctx_frame t = (vt_ctxs t, vt_context_root t, is_workspace t)"

lemma ctx_frame_node [simp]:
  "ctx_frame (snd (remove_node now i t)) = ctx_frame t" "ctx_frame (insert_node now n t) = ctx_frame t"
  "ctx_frame (upd_node i f t) = ctx_frame t" "ctx_frame (t\<lparr>vt_next := a\<rparr>) = ctx_frame t"
  "ctx_frame (t\<lparr>vt_docs := ds\<rparr>) = ctx_frame t" "ctx_frame (t\<lparr>vt_sigs := sg\<rparr>) = ctx_frame t"
  "ctx_frame (t\<lparr>vt_tombstones := ts\<rparr>) = ctx_frame t"
  by (auto simp: ctx_frame_def is_workspace_def upd_node_def split: option.split)

lemma ctx_frame_removed: "remove_node now i t = (n, u) \<Longrightarrow> ctx_frame u = ctx_frame t"
  using ctx_frame_node(1)[of now i t] by simp

lemma remove_subtree_ctxs: "remove_subtree now i (t, v) = (u, v') \<Longrightarrow> ctx_frame u = ctx_frame t"
proof -
  have "ctx_frame (fst (remove_below now k i s)) = ctx_frame (fst s)"
    and "ctx_frame (fst (remove_kids now k is s)) = ctx_frame (fst s)" for k s "is"
  proof (induction now k i s and now k "is" s rule: remove_below_remove_kids.induct)
    case (4 now k i "is" s)
    obtain t v where e: "remove_below now k i s = (t, v)" by fastforce
    obtain n t2 where r: "remove_node now i t = (n, t2)" by fastforce
    show ?case using 4 e r ctx_frame_removed[OF r] by (cases n) auto
  qed simp_all
  then show "remove_subtree now i (t, v) = (u, v') \<Longrightarrow> ctx_frame u = ctx_frame t"
    by (metis fst_conv remove_subtree_def)
qed

lemma drop_tombstoned_ctxs [simp]: "ctx_frame (drop_tombstoned now i t) = ctx_frame t"
proof -
  have h: "ctx_frame (u\<lparr>vt_docs := ds, vt_ws := map_option f (vt_ws u)\<rparr>) = ctx_frame u" for f u ds
    by (simp add: ctx_frame_def is_workspace_def)
  show ?thesis by (simp add: drop_tombstoned_def unbind_ino_def Let_def h del: remove_frames(6))
qed

lemma refresh_meta_ctxs: "refresh_meta now i mt (t, v) = Some (u, v') \<Longrightarrow> ctx_frame u = ctx_frame t"
  by (auto simp: refresh_meta_def split: option.splits if_splits)

lemma reconcile_ctxs:
  assumes "reconcile_doc_dir now dir ctx rows (t, v) = Some (u, v', b)"
  shows "ctx_frame u = ctx_frame t"
proof -
  have s: "settle_docs now dir rows xs (t, v, b) = Some (u, v', b') \<Longrightarrow> ctx_frame u = ctx_frame t" for xs t v b u v' b'
  proof (induction xs arbitrary: t v b)
    case (Cons x xs)
    then show ?case
      by (cases x) (auto simp: tombstone_def remove_doc_node_def unbind_ino_def
          split: option.splits prod.splits if_splits dest!: Cons.IH)
  qed simp
  have a: "ctx_frame (fst (add_docs now dir ctx rs (t, v, b))) = ctx_frame t" for rs t v b
  proof (induction rs arbitrary: t v b)
    case (Cons r rs)
    show ?case by (cases r) (simp add: Cons.IH alloc_ino_def bind_doc_def Let_def)
  qed simp
  obtain t1 v1 b1 where t1: "settle_docs now dir rows (own_files t dir) (t, v, False) = Some (t1, v1, b1)"
    using assms by (auto simp: reconcile_doc_dir_def)
  show ?thesis using assms t1 s[OF t1] a[of rows t1 v1 b1] by (auto simp: reconcile_doc_dir_def split: prod.splits)
qed

lemma groups_ctxs: "ctx_frame (add_groups now root gs t) = ctx_frame t"
proof (induction gs arbitrary: t)
  case (Cons g gs)
  have f: "ctx_frame (add_grouped_files now dir es t) = ctx_frame t" for dir es t
  proof (induction es arbitrary: t)
    case (Cons x es)
    then show ?case by (cases x) (simp add: alloc_ino_def Let_def)
  qed simp
  have a: "View_Docs.add_dir now p nm c t = (i, u) \<Longrightarrow> ctx_frame u = ctx_frame t" for p nm c i u
    by (auto simp: View_Docs.add_dir_def alloc_ino_def)
  show ?case by (cases g) (auto simp: Cons.IH f split: prod.split dest: a)
qed simp

lemma apply_documents_ctxs:
  assumes "apply_documents x hash now ctx docs db t = Some (u, v, db')"
  shows "ctx_frame u = ctx_frame t"
  using assms
  by (auto simp: apply_documents_def rebuild_by_schema_def Let_def bind_eq_Some_conv groups_ctxs
      split: option.splits if_splits prod.splits dest!: reconcile_ctxs remove_subtree_ctxs)

lemma notify_ctxs [simp]: "ctx_frame (dk_tree (notify k v s)) = ctx_frame (dk_tree s)"
proof -
  have "ctx_frame (fold (\<lambda>(_, i, _). drop_tombstoned now i) xs t) = ctx_frame t" for now t and xs :: "(nat \<times> nat \<times> string) list"
    by (induction xs arbitrary: t) auto
  then show ?thesis by (simp add: notify_def Let_def dk_tree_def set_tree_def)
qed

lemma refresh_context_ctxs:
  assumes "refresh_context k ctx s = Some s'"
  shows "ctx_frame (dk_tree s') = ctx_frame (dk_tree s)"
proof -
  have d: "ctx_frame (dk_tree s') = ctx_frame (dk_tree s)" if "refresh_documents k ctx s = Some s'" for ctx s s'
  proof -
    have n: "ctx_frame (dk_tree (r\<lparr>dk_subscribed := z\<rparr>)) = ctx_frame (dk_tree r)" for r :: "('a, 'b) desk" and z
      by (simp add: dk_tree_def)
    show ?thesis using that
      by (auto simp: refresh_documents_def set_net_def Let_def n split: prod.splits option.splits sum.splits)
        (auto simp: dk_tree_def dest: apply_documents_ctxs)
  qed
  have m: "ctx_frame t = ctx_frame (dk_tree s)" if "update_context_meta x now c (dk_tree s) = Some (t, v)" for x now c t v s
    using that by (auto simp: update_context_meta_def split: option.splits dest: refresh_meta_ctxs)
  show ?thesis using assms
    by (auto simp: refresh_context_def Let_def bind_eq_Some_conv split: if_splits prod.splits sum.splits option.splits dest!: d m)
      (auto simp: dk_tree_def set_net_def set_tree_def)
qed

lemma drop_context_ctxs:
  "tget (vt_ctxs (fst (drop_context now c s))) d = (if d = c then None else tget (vt_ctxs (fst s)) d)
   \<and> vt_context_root (fst (drop_context now c s)) = vt_context_root (fst s)"
proof (cases "tget (vt_ctxs (fst s)) c")
  case (Some i)
  let ?t = "fst s\<lparr>vt_ctxs := tdel c (vt_ctxs (fst s))\<rparr>"
  obtain t v where e: "remove_subtree now i (?t, snd s) = (t, v)" by fastforce
  obtain n u where r: "remove_node now i t = (n, u)" by fastforce
  have "vt_ctxs t = vt_ctxs ?t \<and> vt_context_root t = vt_context_root ?t"
    using remove_subtree_ctxs[OF e] by (simp add: ctx_frame_def)
  moreover have "vt_ctxs u = vt_ctxs t \<and> vt_context_root u = vt_context_root t"
    using ctx_frame_removed[OF r] by (simp add: ctx_frame_def)
  ultimately show ?thesis using Some e r
    by (cases s) (auto simp: drop_context_def Let_def split: option.split)
qed (cases s, simp add: drop_context_def)

lemma drop_contexts_ctxs:
  "tget (vt_ctxs (fst (fold (drop_context now) cs s))) d = (if d \<in> set cs then None else tget (vt_ctxs (fst s)) d)
   \<and> vt_context_root (fst (fold (drop_context now) cs s)) = vt_context_root (fst s)"
  by (induction cs arbitrary: s) (simp_all add: drop_context_ctxs)

lemma add_contexts_ctxs:
  "add_contexts x now cs (t, v, new) = Some (u, v', new') \<Longrightarrow> vt_context_root t = None \<Longrightarrow>
    (tget (vt_ctxs u) d \<noteq> None \<longleftrightarrow> tget (vt_ctxs t) d \<noteq> None \<or> d \<in> c_id ` set cs)"
proof (induction cs arbitrary: t v new)
  case (Cons c cs)
  show ?case
  proof (cases "tget (vt_ctxs t) (c_id c)")
    case (Some i)
    then obtain t1 v1 where m: "refresh_meta now i (x_pretty x (c_raw c)) (t, v) = Some (t1, v1)"
      and a: "add_contexts x now cs (know_context c t1, v1, new) = Some (u, v', new')"
      using Cons.prems by (auto simp: bind_eq_Some_conv)
    have "vt_ctxs (know_context c t1) = vt_ctxs t" "vt_context_root (know_context c t1) = None"
      using refresh_meta_ctxs[OF m] Cons.prems(2) by (simp_all add: know_context_def ctx_frame_def)
    then show ?thesis using Cons.IH[OF a] Some by auto
  next
    case None
    obtain t1 v1 where n: "new_context now (x_pretty x (c_raw c)) c (t, v) = (t1, v1)" by fastforce
    have a: "add_contexts x now cs (t1, v1, new @ [c_id c]) = Some (u, v', new')"
      using Cons.prems None n by simp
    have "\<exists>i. vt_ctxs t1 = tput (c_id c) i (vt_ctxs t)" "vt_context_root t1 = None"
      using n Cons.prems(2) by (auto simp: new_context_def View_Docs.add_dir_def alloc_ino_def know_context_def Let_def)
    then show ?thesis using Cons.IH[OF a] by (auto split: if_splits)
  qed
qed simp

lemma apply_contexts_shows:
  assumes "apply_contexts x now cs t = Some (u, v, new)" "vt_context_root t = None"
  shows "tget (vt_ctxs u) d \<noteq> None \<longleftrightarrow> d \<in> c_id ` set cs"
proof -
  let ?stale = "filter (\<lambda>i. i \<notin> c_id ` set cs) (tkeys (vt_ctxs t))"
  obtain t1 v1 where f: "fold (drop_context now) ?stale (t, inv0) = (t1, v1)" by fastforce
  have a: "add_contexts x now cs (t1, v1, []) = Some (u, v, new)" using assms(1) f by (simp add: apply_contexts_def)
  have "tget (vt_ctxs t1) d = (if d \<in> set ?stale then None else tget (vt_ctxs t) d) \<and> vt_context_root t1 = vt_context_root t" for d
    using drop_contexts_ctxs[of now ?stale "(t, inv0)" d] f by simp
  moreover have "tget (vt_ctxs t) d \<noteq> None \<longleftrightarrow> d \<in> set (tkeys (vt_ctxs t))"
    by (simp add: tkeys_def map_of_eq_None_iff)
  ultimately show ?thesis using add_contexts_ctxs[OF a] assms(2) by auto
qed

lemma each_keeps:
  assumes "each f xs s = Some s'" "\<And>x s s'. f x s = Some s' \<Longrightarrow> P s' = P s"
  shows "P s' = P s"
  using assms(1)
proof (induction xs arbitrary: s)
  case (Cons x xs)
  then show ?case using assms(2) by (auto simp: bind_eq_Some_conv)
qed simp


section \<open>A document that left\<close>

lemma drop_tombstoned_tree:
  "child (drop_tombstoned now i t) p nm = child (snd (remove_node now i t)) p nm"
  "tget (vt_nodes (drop_tombstoned now i t)) j = tget (vt_nodes (snd (remove_node now i t))) j"
  "vt_tombstones (drop_tombstoned now i t) = vt_tombstones t - {i}"
proof -
  have r: "snd (remove_node now i (t\<lparr>vt_tombstones := ts\<rparr>)) = snd (remove_node now i t)\<lparr>vt_tombstones := ts\<rparr>" for ts
    by (simp add: remove_node_def touch_dir_def Let_def split: option.split)
  show "child (drop_tombstoned now i t) p nm = child (snd (remove_node now i t)) p nm"
    "tget (vt_nodes (drop_tombstoned now i t)) j = tget (vt_nodes (snd (remove_node now i t))) j"
    "vt_tombstones (drop_tombstoned now i t) = vt_tombstones t - {i}"
    by (simp_all add: drop_tombstoned_def unbind_ino_def r child_def Let_def)
qed

lemma drop_tombstoned_gone:
  "tget (vt_nodes (drop_tombstoned now i t)) j = None \<longleftrightarrow> j = i \<or> tget (vt_nodes t) j = None"
  unfolding drop_tombstoned_tree(2) nview_None[symmetric] nview_remove by simp

lemma drop_all_gone:
  "(\<exists>p nm. (p, j, nm) \<in> set xs) \<or> tget (vt_nodes t) j = None \<Longrightarrow>
    tget (vt_nodes (fold (\<lambda>(_, i, _). drop_tombstoned now i) xs t)) j = None"
  by (induction xs arbitrary: t) (auto simp: drop_tombstoned_gone)

text \<open>A document that left is collected, and only here. Without a nudge thread the worker takes
  its entry out of the tree itself. With one, the thread is asked to unlink the path of the entry,
  and that unlink is answered by the tree alone: it succeeds, the entry is gone and the tombstone
  with it, and no open file, no folder and no server has seen anything of it.\<close>

theorem departed_document_collected:
  assumes left: "(dir, i, nm) \<in> set (iv_vanished v)" "path_of (dk_tree s) i = Some p" "k_notifier k"
    and tomb: "view_ok (dk_tree s)" "child (dk_tree s) dir nm = Some i" "i \<in> vt_tombstones (dk_tree s)"
    and name: "fe_utf8 e nm" "nm \<noteq> fe_nudge e"
  shows "if k_nudger k
    then PUnlink p \<in> set (dk_pokes (notify k v s)) \<and> dk_store (notify k v s) = dk_store s
      \<and> (\<forall>b. \<exists>t. fs_unlink e dir nm \<lparr>fs_writes = dk_store s, fs_blobs = b\<rparr>
            = (Inr (), \<lparr>fs_writes = (dk_store s)\<lparr>w_tree := t\<rparr>, fs_blobs = b\<rparr>)
          \<and> child t dir nm = None \<and> i \<notin> vt_tombstones t)
    else tget (vt_nodes (dk_tree (notify k v s))) i = None"
proof (cases "k_nudger k")
  case True
  have ne: "\<not> inv_is_empty v" using left(1) by (auto simp: inv_is_empty_def)
  have "set (List.map_filter f xs) = {y. \<exists>x\<in>set xs. f x = Some y}" for f :: "nat \<times> nat \<times> string \<Rightarrow> string list option" and xs
    by (force simp: map_filter_def)
  then have "PUnlink p \<in> PUnlink ` set (List.map_filter (\<lambda>(_, i, _). path_of (dk_tree s) i) (iv_vanished v))"
    using left(1,2) by (simp only:) (rule imageI, simp, rule bexI[of _ "(dir, i, nm)"], simp_all)
  then have "PUnlink p \<in> set (pokes_of (dk_tree s) v)" by (simp only: pokes_of_def set_append set_map Un_iff simp_thms)
  moreover have "notify k v s = s\<lparr>dk_notices := dk_notices s @ kernel_notices True v, dk_pokes := dk_pokes s @ pokes_of (dk_tree s) v\<rparr>"
    using True ne left(3) by (simp add: notify_def)
  ultimately have p: "PUnlink p \<in> set (dk_pokes (notify k v s))" "dk_store (notify k v s) = dk_store s" by simp_all
  let ?t = "drop_tombstoned (we_now (fe_w e)) i ((dk_tree s)\<lparr>vt_tombstones := vt_tombstones (dk_tree s) - {i}\<rparr>)"
  obtain n where n: "tget (vt_nodes (dk_tree s)) i = Some n" "n_parent n = dir" "n_name n = nm"
  proof -
    obtain m where m: "nview (dk_tree s) i = Some m" "n_parent m = dir" "n_name m = nm"
      using view_ok_link[OF tomb(1,2)] by metis
    then show ?thesis using that by (auto simp: nview_def)
  qed
  have r: "snd (remove_node now i (t\<lparr>vt_tombstones := ts\<rparr>)) = snd (remove_node now i t)\<lparr>vt_tombstones := ts\<rparr>" for ts t now
    by (simp add: remove_node_def touch_dir_def Let_def split: option.split)
  have c: "child (t\<lparr>vt_tombstones := ts\<rparr>) dir nm = child t dir nm" for t ts by (simp add: child_def)
  have "child ?t dir nm = None"
    unfolding drop_tombstoned_tree(1) r c child_remove[OF tomb(1) n(1)] using n by simp
  moreover have "i \<notin> vt_tombstones ?t" by (simp add: drop_tombstoned_tree(3))
  moreover have "fs_unlink e dir nm \<lparr>fs_writes = dk_store s, fs_blobs = b\<rparr>
      = (Inr (), \<lparr>fs_writes = (dk_store s)\<lparr>w_tree := ?t\<rparr>, fs_blobs = b\<rparr>)" for b
    using name tomb(2,3) by (simp add: fs_unlink_def take_tombstone_def fs_tree_def dk_tree_def upd_tree_def)
  ultimately show ?thesis using True p by auto
next
  case False
  have "dk_tree (notify k v s) = fold (\<lambda>(_, i, _). drop_tombstoned (we_now (k_w k)) i) (iv_vanished v) (dk_tree s)"
    using False by (simp add: notify_def Let_def dk_tree_def set_tree_def)
  then show ?thesis using False drop_all_gone[of i "iv_vanished v" "dk_tree s"] left(1) by auto
qed

section \<open>A file renamed over a pending one\<close>

text \<open>C33: A rename over a file that is still pending does not replace it. In a context, when a new
  file is renamed to the name of another new file that has not been closed yet, the name leads to
  the renamed file, but the other keeps its buffer, and both are set to create a document of that
  name: the one that POSIX has replaced comes back as a second document when it is closed.\<close>

theorem rename_over_pending_file:
  assumes kind: "\<not> is_workspace (w_tree w)" "home_path (w_tree w) dir = None" "writable_context w dir = Some ctx"
    and src: "tget (w_overlay_names w) (dir, a) = Some i" "tget (w_states w) i = Some s" "ow_target s = FCreate ctx d dir a"
    and dst: "tget (w_overlay_names w) (dir, b) = Some j" "tget (w_states w) j = Some s'" "ow_target s' = FCreate ctx d dir b"
    and "i \<noteq> j" "a \<noteq> b" "lookup_node (w_tree w) dir b = None"
    and r: "rename e dir a dir b w = (r, w')"
  shows "r = Inr () \<and> tget (w_overlay_names w') (dir, b) = Some i
    \<and> tget (w_states w') i = Some (s\<lparr>ow_target := FCreate ctx d dir b\<rparr>) \<and> tget (w_states w') j = Some s'
    \<and> tget (w_overlay w') j = tget (w_overlay w) j"
  using assms
  by (auto simp: rename_def wrename_home_def wthen_def wopt_def rename_pending_doc_def unname_overlay_def name_overlay_def
      upd_state_def Let_def split: option.splits)

section \<open>A small mount\<close>

text \<open>One document in the tree, one pending file beside it.\<close>

definition demo_shelf :: view where
  "demo_shelf = insert_node 1 (new_node 16 ROOT_INO ''a'' 1 (NInline ''x'')) ((context_rooted 1 ''c'')\<lparr>vt_next := 17\<rparr>)"

definition demo_fenv :: "(mem, unit) fenv" where
  "demo_fenv = \<lparr>fe_w = demo_wenv silent, fe_utf8 = (\<lambda>_. True), fe_nudge = ''.canvas-tmp'', fe_uid = 0, fe_gid = 0\<rparr>"

definition demo_pending :: "(mem, unit) wstore" where
  "demo_pending = (wstore_new demo_shelf [] None ())\<lparr>w_overlay := [(30, ROOT_INO, ''b'', 9)], w_overlay_names := [((ROOT_INO, ''b''), 30)]\<rparr>"

definition demo_fuse :: "(mem, unit) fuse" where
  "demo_fuse = \<lparr>fs_writes = demo_pending, fs_blobs = blob_start 0\<rparr>"

lemmas shelf_simps = demo_shelf_def context_rooted_def bare_def insert_node_def new_node_def touch_dir_def ROOT_INO_def is_dir.simps Let_def

lemma demo_shelf_ok: "view_ok demo_shelf" "child demo_shelf ROOT_INO ''a'' = Some 16"
proof -
  have d: "nview (context_rooted 1 ''c'') ROOT_INO = Some (erase_time (new_node ROOT_INO ROOT_INO [] 1 NDir))"
    by (simp only: context_start(6) bare_nview if_True simp_thms)
  have "vt_next (context_rooted 1 ''c'') < FIRST_OVERLAY_INO"
    unfolding context_start(4) by (simp add: FIRST_OVERLAY_INO_def)
  from put_leaf(1,2)[where now = 1 and m = 1 and nm = "''a''" and c = "NInline ''x''", OF context_start(1) d _ context_start(3) this]
  show "view_ok demo_shelf" "child demo_shelf ROOT_INO ''a'' = Some 16"
    unfolding context_start(4) by (simp_all add: demo_shelf_def is_dir.simps new_node_def)
qed

lemma demo_shelf_nodes:
  "tget (vt_nodes demo_shelf) ROOT_INO = Some \<lparr>n_ino = 1, n_parent = 1, n_name = [], n_mtime = 1, n_content = NDir\<rparr>"
  "lookup_node demo_shelf ROOT_INO ''a'' = Some \<lparr>n_ino = 16, n_parent = 1, n_name = ''a'', n_mtime = 1, n_content = NInline ''x''\<rparr>"
  "lookup_node demo_shelf ROOT_INO ''b'' = None" "home_path demo_shelf ROOT_INO = None"
  by (simp_all add: shelf_simps lookup_node_def child_def home_path_def)

lemma demo_pending_parts [simp]:
  "w_tree demo_pending = demo_shelf" "w_mirror demo_pending = None" "w_states demo_pending = []"
  "w_overlay demo_pending = [(30, ROOT_INO, ''b'', 9)]" "w_overlay_names demo_pending = [((ROOT_INO, ''b''), 30)]"
  by (simp_all add: demo_pending_def wstore_new_def)


theorem departed_document_collected_witness:
  "\<exists>k :: (mem, unit) worker. \<exists>s v. PUnlink [''a''] \<in> set (dk_pokes (notify k v s))
    \<and> (\<exists>t. fs_unlink demo_fenv ROOT_INO ''a'' \<lparr>fs_writes = dk_store s, fs_blobs = blob_start 0\<rparr>
          = (Inr (), \<lparr>fs_writes = (dk_store s)\<lparr>w_tree := t\<rparr>, fs_blobs = blob_start 0\<rparr>)
        \<and> child t ROOT_INO ''a'' = None)"
proof -
  define t where "t = demo_shelf\<lparr>vt_tombstones := {16}\<rparr>"
  define s :: "(mem, unit) desk" where "s = \<lparr>dk_store = demo_pending\<lparr>w_tree := t\<rparr>, dk_notices = [], dk_pokes = [],
    dk_subscribed = [], dk_mirror_queue = [], dk_reconnects = 0\<rparr>"
  define k :: "(mem, unit) worker" where "k = \<lparr>k_w = demo_wenv silent, k_hash = length, k_pages = 0, k_filter = None,
    k_workspace = None, k_notifier = True, k_nudger = True\<rparr>"
  have dt: "dk_tree s = t" by (simp add: s_def dk_tree_def)
  have same: "child (u\<lparr>vt_tombstones := z\<rparr>) p nm = child u p nm" "walk (u\<lparr>vt_tombstones := z\<rparr>) i ps = walk u i ps"
    "nview (u\<lparr>vt_tombstones := z\<rparr>) i = nview u i" for u z p nm i ps
  proof -
    show c: "child (u\<lparr>vt_tombstones := z\<rparr>) p nm = child u p nm" for p nm by (simp add: child_def)
    show "walk (u\<lparr>vt_tombstones := z\<rparr>) i ps = walk u i ps" by (induction ps arbitrary: i) (simp_all add: c)
  qed (simp add: nview_def)
  have t: "view_ok t" "child t ROOT_INO ''a'' = Some 16"
    using demo_shelf_ok by (simp_all add: t_def view_ok_def tables_ok_def links_ok_def same)
  have "path_of t 16 = Some [''a'']"
    by (simp add: t_def path_of_def shelf_simps numeral_nat)
  from departed_document_collected[of ROOT_INO 16 "''a''" "inv0\<lparr>iv_vanished := [(ROOT_INO, 16, ''a'')]\<rparr>" s _ k demo_fenv, unfolded dt, OF _ this _ t]
  have "PUnlink [''a''] \<in> set (dk_pokes (notify k (inv0\<lparr>iv_vanished := [(ROOT_INO, 16, ''a'')]\<rparr>) s))
    \<and> (\<exists>t. fs_unlink demo_fenv ROOT_INO ''a'' \<lparr>fs_writes = dk_store s, fs_blobs = blob_start 0\<rparr>
          = (Inr (), \<lparr>fs_writes = (dk_store s)\<lparr>w_tree := t\<rparr>, fs_blobs = blob_start 0\<rparr>)
        \<and> child t ROOT_INO ''a'' = None)"
    by (simp add: k_def t_def demo_fenv_def) blast
  then show ?thesis by blast
qed

theorem marker_is_virtual_witness:
  "fs_create demo_fenv ROOT_INO ''.canvas-tmp'' demo_fuse = (Inr (nudge_attr demo_fenv, 0), demo_fuse)
   \<and> (\<exists>rows. dir_rows demo_fenv ROOT_INO demo_fuse = Inr rows \<and> (6, False, ''.canvas-tmp'') \<notin> set rows)"
proof -
  have f: "fs_tree demo_fuse = demo_shelf" by (simp add: demo_fuse_def fs_tree_def)
  obtain rows where r: "dir_rows demo_fenv ROOT_INO demo_fuse = Inr rows"
    using demo_shelf_nodes(1) demo_shelf_nodes(2) by (auto simp: dir_rows_def f is_dir.simps)
  show ?thesis
    using marker_is_virtual[OF _ _ r, where i = 6 and z = False] r by (simp add: demo_fenv_def)
qed

theorem rename_over_pending_file_witness:
  "\<exists>w w' s s'. rename (demo_wenv silent) ROOT_INO ''b'' ROOT_INO ''n'' w = (Inr (), w')
    \<and> tget (w_states w') 30 = Some s \<and> ow_target s = FCreate ''c'' [] ROOT_INO ''n''
    \<and> tget (w_states w') 31 = Some s' \<and> ow_target s' = FCreate ''c'' [] ROOT_INO ''n'' \<and> ow_dirty s'"
proof -
  let ?s = "\<lambda>nm. open_at (FCreate ''c'' [] ROOT_INO nm) ''x''"
  define w where "w = demo_pending\<lparr>w_overlay := [(30, ROOT_INO, ''b'', 9), (31, ROOT_INO, ''n'', 9)],
    w_overlay_names := [((ROOT_INO, ''b''), 30), ((ROOT_INO, ''n''), 31)], w_states := [(30, ?s ''b''), (31, ?s ''n'')]\<rparr>"
  obtain r w' where r: "rename (demo_wenv silent) ROOT_INO ''b'' ROOT_INO ''n'' w = (r, w')" by fastforce
  have "r = Inr () \<and> tget (w_overlay_names w') (ROOT_INO, ''n'') = Some 30
    \<and> tget (w_states w') 30 = Some ((?s ''b'')\<lparr>ow_target := FCreate ''c'' [] ROOT_INO ''n''\<rparr>) \<and> tget (w_states w') 31 = Some (?s ''n'')
    \<and> tget (w_overlay w') 31 = tget (w_overlay w) 31"
    by (rule rename_over_pending_file[OF _ _ _ _ _ _ _ _ _ _ _ _ r, where ctx = "''c''"])
      (simp_all add: w_def demo_shelf_nodes writable_context_def locate_context_dir_def is_workspace_def,
       simp_all add: shelf_simps lookup_node_def child_def)
  then show ?thesis using r by (intro exI[of _ w] exI[of _ w']) simp
qed

definition answers_once :: "json \<Rightarrow> bool net" where
  "answers_once body = (\<lambda>r h. (if h then Some \<lparr>rs_status = 200, rs_headers = [], rs_json = Some body, rs_bytes = []\<rparr> else None, False))"

definition two_contexts :: json where
  "two_contexts = JObj [(''payload'', JArr [JObj [(''id'', JStr ''c1''), (''workspaceId'', JStr ''w1'')],
     JObj [(''id'', JStr ''c2''), (''workspaceId'', JStr ''w2'')]])]"


end
