(* ===== verification/Watch.thy ===== *)
theory Watch
  imports Sync_Scan "HOL-Library.Multiset"
begin

text \<open>
  The watcher of the mirrored folder (\<^verbatim>\<open>src/src/mirror/watch.rs\<close>): one inotify watch per directory,
  the events turned into keys to look at, and what the mirror makes of them
  (\<^verbatim>\<open>Mirror::open_with_progress\<close>). The kernel's side is a table of watches by inode with a limit;
  adding a watch to an inode that has one returns it. A batch of events is handled against the
  folder as it is then. The order of \<^verbatim>\<open>readdir\<close> is key order, event buffers hold whole events.
\<close>

section \<open>Watches\<close>

datatype event_flag = InCreate | InCloseWrite | InMovedTo | InMovedFrom | InDelete | InAttrib
  | InDeleteSelf | InMoveSelf | InIsDir | InOverflow | InIgnored

record inotify_event =
  ev_wd :: nat
  ev_mask :: "event_flag set"
  ev_cookie :: nat
  ev_name :: string

record local_changes =
  ch_paths :: "string set"
  ch_rescan :: bool

text \<open>The mirrored folder itself has no node; its inode is None.\<close>

record inotify =
  in_watches :: "(nat, nat option) table"
  in_next :: nat
  in_limit :: nat

record watches =
  wt_kernel :: inotify
  wt_dirs :: "(nat, string) table"
  wt_own_moves :: "nat set"

definition no_watches :: "nat \<Rightarrow> watches" where
  "no_watches limit = \<lparr>wt_kernel = \<lparr>in_watches = [], in_next = 1, in_limit = limit\<rparr>, wt_dirs = [], wt_own_moves = {}\<rparr>"

definition dir_inode :: "folder \<Rightarrow> string \<Rightarrow> nat option" where
  "dir_inode f key = (if key = [] then None else map_option (\<lambda>n. m_ino (node_meta n)) (tget (f_nodes f) key))"

definition add_watch :: "folder \<Rightarrow> string \<Rightarrow> inotify \<Rightarrow> nat option \<times> inotify" where
  "add_watch f key k =
     (let i = dir_inode f key in
      case find (\<lambda>(_, j). j = i) (in_watches k) of
        Some (wd, _) \<Rightarrow> (Some wd, k)
      | None \<Rightarrow>
          if in_limit k \<le> length (in_watches k) then (None, k)
          else (Some (in_next k), k\<lparr>in_watches := tput (in_next k) i (in_watches k), in_next := in_next k + 1\<rparr>))"

definition subdirs :: "folder \<Rightarrow> string \<Rightarrow> string list" where
  "subdirs f key =
     map fst (filter (\<lambda>(k, n). k \<noteq> [] \<and> parent_key k = key \<and> (case n of Dir _ _ \<Rightarrow> True | _ \<Rightarrow> False)) (f_nodes f))"

text \<open>How much longer the keys below a directory can be: the measure of the walk.\<close>

definition depth_left :: "folder \<Rightarrow> string \<Rightarrow> nat" where
  "depth_left f k = Suc (Max (insert 0 (length ` fst ` set (f_nodes f)))) - length k"

lemma subdirs_less: "c \<in> set (subdirs f k) \<Longrightarrow> depth_left f c < depth_left f k"
proof -
  assume "c \<in> set (subdirs f k)"
  then have c: "c \<in> fst ` set (f_nodes f)" "c \<noteq> []" "parent_key c = k" by (auto simp: subdirs_def)
  have "length c \<le> Max (insert 0 (length ` fst ` set (f_nodes f)))" using c(1) by (auto intro!: Max_ge)
  moreover have "length k < length c" using c parent_key_shorter[of c] by (cases "k = []") auto
  ultimately show ?thesis by (simp add: depth_left_def)
qed

text \<open>\<^verbatim>\<open>add_tree\<close>: a stack of directories; a watch is installed before the directory is read. False
  is a failed system call.\<close>

function add_tree_loop :: "'h env \<Rightarrow> 'h mirror \<Rightarrow> string list \<Rightarrow> watches \<Rightarrow> bool \<times> watches" where
  "add_tree_loop v m [] w = (True, w)"
| "add_tree_loop v m (k # ks) w =
     (if k \<noteq> [] \<and> (ignored v m k \<or> \<not> Local_Fs.is_dir (m_fs m) k) then add_tree_loop v m ks w
      else case add_watch (m_fs m) k (wt_kernel w) of
        (None, kn) \<Rightarrow> (False, w\<lparr>wt_kernel := kn\<rparr>)
      | (Some wd, kn) \<Rightarrow>
          add_tree_loop v m (rev (subdirs (m_fs m) k) @ ks) (w\<lparr>wt_kernel := kn, wt_dirs := tput wd k (wt_dirs w)\<rparr>))"
  by pat_completeness auto
termination
proof (relation "inv_image (mult {(x, y). (x :: nat) < y}) (\<lambda>(v, m, ks, w). mset (map (depth_left (m_fs m)) ks))")
  show "wf (inv_image (mult {(x :: nat, y). x < y})
      (\<lambda>(v :: 'h env, m :: 'h mirror, ks, w :: watches). mset (map (depth_left (m_fs m)) ks)))"
    by (intro wf_inv_image wf_mult wf)
next
  fix m :: "'h mirror" and k ks
  have "(mset (map (depth_left (m_fs m)) ks) + mset (map (depth_left (m_fs m)) (rev (subdirs (m_fs m) k))),
      mset (map (depth_left (m_fs m)) ks) + {#depth_left (m_fs m) k#}) \<in> mult {(x, y). x < y}"
    by (rule one_step_implies_mult) (auto dest: subdirs_less)
  then show "((v, m, rev (subdirs (m_fs m) k) @ ks, w'), (v, m, k # ks, w)) \<in> inv_image (mult {(x, y). (x :: nat) < y})
      (\<lambda>(v, m, ks, w). mset (map (depth_left (m_fs m)) ks))" for v w w'
    by (simp add: union_commute)
qed (simp add: subset_implies_mult)

declare add_tree_loop.simps [simp del]

definition add_tree :: "'h env \<Rightarrow> 'h mirror \<Rightarrow> string \<Rightarrow> watches \<Rightarrow> bool \<times> watches" where
  "add_tree v m root w = add_tree_loop v m [root] w"

definition remove_tree :: "string \<Rightarrow> watches \<Rightarrow> watches" where
  "remove_tree key w =
     (let out = (\<lambda>d. key = [] \<or> under d key);
          gone = map fst (filter (\<lambda>(_, d). out d) (wt_dirs w))
      in w\<lparr>wt_dirs := filter (\<lambda>(_, d). \<not> out d) (wt_dirs w),
           wt_kernel := (wt_kernel w)\<lparr>in_watches := fold tdel gone (in_watches (wt_kernel w))\<rparr>\<rparr>)"

section \<open>Events\<close>

definition note_path :: "string \<Rightarrow> local_changes \<Rightarrow> local_changes" where
  "note_path key c = c\<lparr>ch_paths := insert key (ch_paths c)\<rparr>"

definition event_key :: "string \<Rightarrow> string \<Rightarrow> string" where
  "event_key parent nm = (if parent = [] then nm else parent @ ''/'' @ nm)"

text \<open>A directory that comes or goes takes its watches along.\<close>

definition dir_event ::
    "'h env \<Rightarrow> 'h mirror \<Rightarrow> event_flag set \<Rightarrow> string \<Rightarrow> watches \<Rightarrow> local_changes \<Rightarrow> bool \<times> watches \<times> local_changes" where
  "dir_event v m fl key w c =
     (let w = (if InDelete \<in> fl \<or> InMovedFrom \<in> fl then remove_tree key w else w);
          (ok, w) = (if InCreate \<in> fl \<or> InMovedTo \<in> fl then add_tree v m key w else (True, w))
      in (ok, w, if ok then note_path key c else c))"

definition watch_event ::
    "'h env \<Rightarrow> 'h mirror \<Rightarrow> inotify_event \<Rightarrow> watches \<Rightarrow> local_changes \<Rightarrow> bool \<times> watches \<times> local_changes" where
  "watch_event v m e w c =
     (let fl = ev_mask e; nm = ev_name e in
      if InOverflow \<in> fl then (True, w, c\<lparr>ch_rescan := True\<rparr>)
      else if InIgnored \<in> fl then (True, w, c)
      else case tget (wt_dirs w) (ev_wd e) of
        None \<Rightarrow> (True, w, c)
      | Some parent \<Rightarrow>
          if nm = [] then (True, w, if parent = [] then c\<lparr>ch_rescan := True\<rparr> else c)
          else if ends_with PART_SUFFIX nm
          then (True, if InMovedFrom \<in> fl then w\<lparr>wt_own_moves := insert (ev_cookie e) (wt_own_moves w)\<rparr> else w, c)
          else if InMovedTo \<in> fl \<and> ev_cookie e \<in> wt_own_moves w
          then (True, w\<lparr>wt_own_moves := wt_own_moves w - {ev_cookie e}\<rparr>, c)
          else (let key = event_key parent nm in
            if ignored v m key then (True, w, c)
            else if InIsDir \<in> fl then dir_event v m fl key w c
            else (True, w, if InCreate \<in> fl then c else note_path key c)))"

fun watch_events ::
    "'h env \<Rightarrow> 'h mirror \<Rightarrow> inotify_event list \<Rightarrow> watches \<Rightarrow> local_changes \<Rightarrow> bool \<times> watches \<times> local_changes" where
  "watch_events v m [] w c = (True, w, c)"
| "watch_events v m (e # es) w c = (case watch_event v m e w c of
     (ok, w, c) \<Rightarrow> if ok then watch_events v m es w c else (False, w, c))"

text \<open>One batch; after an overflow everything is watched anew. None is an error.\<close>

definition watch_read :: "'h env \<Rightarrow> 'h mirror \<Rightarrow> inotify_event list \<Rightarrow> watches \<Rightarrow> local_changes option \<times> watches" where
  "watch_read v m es w = (case watch_events v m es w \<lparr>ch_paths = {}, ch_rescan = False\<rparr> of
     (ok, w, c) \<Rightarrow>
       if \<not> ok then (None, w)
       else if ch_rescan c
       then (case add_tree v m [] (remove_tree [] (w\<lparr>wt_own_moves := {}\<rparr>)) of
               (ok, w) \<Rightarrow> (if ok then Some c else None, w))
       else (Some c, w))"

text \<open>The loop of the thread: what it reports, and whether it goes on.\<close>

definition watch_round ::
    "'h env \<Rightarrow> 'h mirror \<Rightarrow> inotify_event list \<Rightarrow> watches \<Rightarrow> local_changes option \<times> bool \<times> watches" where
  "watch_round v m es w = (case watch_read v m es w of
     (None, w) \<Rightarrow> (Some \<lparr>ch_paths = {}, ch_rescan = True\<rparr>, False, w)
   | (Some c, w) \<Rightarrow> (if ch_rescan c \<or> ch_paths c \<noteq> {} then Some c else None, True, w))"

definition MAX_PENDING :: nat where "MAX_PENDING = 8192"

text \<open>What the mirror does with a report.\<close>

definition note_changes :: "local_changes \<Rightarrow> 'h mirror \<Rightarrow> 'h mirror" where
  "note_changes c m =
     (let ps = m_pending_paths m \<union> ch_paths c;
          rescan = m_pending_rescan m \<or> ch_rescan c \<or> card ps > MAX_PENDING
      in wake (m\<lparr>m_pending_rescan := rescan, m_pending_paths := (if rescan then {} else ps)\<rparr>))"

definition watch_step :: "'h env \<Rightarrow> inotify_event list \<Rightarrow> 'h mirror \<times> watches \<Rightarrow> 'h mirror \<times> bool \<times> watches" where
  "watch_step v es s = (case s of (m, w) \<Rightarrow> (case watch_round v m es w of
     (r, alive, w) \<Rightarrow> ((case r of Some c \<Rightarrow> note_changes c m | None \<Rightarrow> m), alive, w)))"

end
