(* ===== verification/Watch_Safe.thy ===== *)
theory Watch_Safe
  imports Watch Sync_Demo
begin

text \<open>
  What the watcher of the mirrored folder is for: every directory that is not excluded is watched,
  unless the kernel's limit is reached, and every change in a watched directory reaches the next
  scan of the mirror.
\<close>

section \<open>Every directory is watched\<close>

definition watchable :: "'h env \<Rightarrow> 'h mirror \<Rightarrow> string \<Rightarrow> bool" where
  "watchable v m k \<longleftrightarrow> k = [] \<or> (\<forall>p\<in>insert k (set (ancestors k)). Local_Fs.is_dir (m_fs m) p \<and> \<not> ignored v m p)"

definition inodes_distinct :: "folder \<Rightarrow> bool" where
  "inodes_distinct f \<longleftrightarrow> (\<forall>a b. Local_Fs.is_dir f a \<longrightarrow> Local_Fs.is_dir f b \<longrightarrow> dir_inode f a = dir_inode f b \<longrightarrow> a = b)"

text \<open>The tables of the program and of the kernel agree, and only directories that are wanted have
  a watch.\<close>

definition watches_ok :: "'h env \<Rightarrow> 'h mirror \<Rightarrow> watches \<Rightarrow> bool" where
  "watches_ok v m w \<longleftrightarrow> tsorted (in_watches (wt_kernel w))
     \<and> (\<forall>wd. tget (wt_dirs w) wd = None \<longleftrightarrow> tget (in_watches (wt_kernel w)) wd = None)
     \<and> (\<forall>wd i. tget (in_watches (wt_kernel w)) wd = Some i \<longrightarrow> wd < in_next (wt_kernel w))
     \<and> (\<forall>wd k. tget (wt_dirs w) wd = Some k \<longrightarrow> watchable v m k \<and> tget (in_watches (wt_kernel w)) wd = Some (dir_inode (m_fs m) k))"

definition above :: "string \<Rightarrow> string \<Rightarrow> bool" where
  "above p k \<longleftrightarrow> p = [] \<or> p = k \<or> p \<in> set (ancestors k)"

lemma is_dir_node: "Local_Fs.is_dir f k \<Longrightarrow> \<exists>l mt. tget (f_nodes f) k = Some (Dir l mt)"
  by (auto simp: Local_Fs.is_dir_def stat_def symlink_metadata_def stat_of_def split: option.splits sum.splits node.splits if_splits)

lemma watchable_above: "watchable v m k \<Longrightarrow> above p k \<Longrightarrow> watchable v m p"
proof -
  assume k: "watchable v m k" "above p k"
  have "set (ancestors p) \<subseteq> set (ancestors k)" if "p \<in> set (ancestors k)" for p
    using that
  proof (induction k rule: ancestors.induct)
    case (1 k)
    show ?case using 1 by (subst (2) ancestors.simps, subst (asm) (2) ancestors.simps) (auto split: if_splits)
  qed
  moreover have "ancestors [] = []" by (simp add: ancestors.simps parent_key_def rsplit_once_def)
  ultimately show ?thesis using k by (auto simp: above_def watchable_def)
qed

lemma watchable_child:
  "c \<noteq> [] \<Longrightarrow> watchable v m c \<longleftrightarrow> watchable v m (parent_key c) \<and> Local_Fs.is_dir (m_fs m) c \<and> \<not> ignored v m c"
  by (subst watchable_def, subst ancestors.simps) (auto simp: watchable_def)

lemma above_child: "above p k \<Longrightarrow> p \<noteq> k \<Longrightarrow> \<exists>c. above c k \<and> c \<noteq> [] \<and> parent_key c = p"
proof (induction k rule: ancestors.induct)
  case (1 k)
  show ?case
  proof (cases "parent_key k = p")
    case True
    then show ?thesis using 1(2,3) by (cases "k = []") (auto simp: above_def ancestors.simps[of "[]"] parent_key_def rsplit_once_def)
  next
    case False
    then have k: "parent_key k \<noteq> []" "above p (parent_key k)"
      using 1(2,3) by (auto simp: above_def ancestors.simps[of k] split: if_splits)
    then obtain c where "above c (parent_key k)" "c \<noteq> []" "parent_key c = p"
      using 1(1) False by metis
    then show ?thesis using k(1) by (auto simp: above_def ancestors.simps[of k])
  qed
qed

lemma watchable_subdir:
  assumes "watchable v m c" "c \<noteq> []"
  shows "c \<in> set (subdirs (m_fs m) (parent_key c))"
proof -
  obtain l mt where "tget (f_nodes (m_fs m)) c = Some (Dir l mt)"
    using is_dir_node assms by (metis watchable_child)
  then show ?thesis using assms(2) by (force simp: subdirs_def dest: map_of_SomeD)
qed

lemma dir_inode_inj:
  assumes "inodes_distinct (m_fs m)" "watchable v m a" "watchable v m b" "dir_inode (m_fs m) a = dir_inode (m_fs m) b"
  shows "a = b"
proof (cases "a = [] \<or> b = []")
  case True
  have "dir_inode (m_fs m) c \<noteq> None" if "watchable v m c" "c \<noteq> []" for c
    using that is_dir_node[of "m_fs m" c] by (auto simp: dir_inode_def watchable_child)
  then show ?thesis using True assms by (metis dir_inode_def)
qed (use assms in \<open>auto simp: inodes_distinct_def watchable_child\<close>)

lemma add_watch_ok:
  assumes ok: "watches_ok v m w" "inodes_distinct (m_fs m)" "watchable v m k"
    and add: "add_watch (m_fs m) k (wt_kernel w) = (r, kn)"
  shows "case r of Some wd \<Rightarrow> watches_ok v m (w\<lparr>wt_kernel := kn, wt_dirs := tput wd k (wt_dirs w)\<rparr>)
      \<and> (\<forall>d j. tget (wt_dirs w) d = Some j \<longrightarrow> tget (tput wd k (wt_dirs w)) d = Some j)
      \<and> in_limit kn = in_limit (wt_kernel w)
    | None \<Rightarrow> kn = wt_kernel w \<and> in_limit kn \<le> length (in_watches kn)"
proof (cases "find (\<lambda>(_, j). j = dir_inode (m_fs m) k) (in_watches (wt_kernel w))")
  case None
  let ?n = "in_next (wt_kernel w)"
  have "tget (in_watches (wt_kernel w)) ?n = None" using ok(1) by (auto simp: watches_ok_def intro: ccontr)
  then have "tget (wt_dirs w) ?n = None" using ok(1) by (simp add: watches_ok_def)
  then show ?thesis
    using None add ok by (auto simp: add_watch_def Let_def watches_ok_def less_Suc_eq split: if_splits)
next
  case (Some p)
  obtain wd j where p: "p = (wd, j)" by (cases p)
  have "(wd, j) \<in> set (in_watches (wt_kernel w))" "j = dir_inode (m_fs m) k"
    using Some p by (auto simp: find_Some_iff) (metis nth_mem)
  then have wd: "tget (in_watches (wt_kernel w)) wd = Some (dir_inode (m_fs m) k)"
    using ok(1) by (auto simp: watches_ok_def tsorted_lookup)
  then obtain k' where k': "tget (wt_dirs w) wd = Some k'" using ok(1) by (cases "tget (wt_dirs w) wd") (auto simp: watches_ok_def)
  then have "k' = k" using dir_inode_inj[OF ok(2), of v k' k] ok(1,3) wd by (auto simp: watches_ok_def)
  then show ?thesis using Some p add ok(1) k' by (auto simp: add_watch_def Let_def watches_ok_def)
qed

definition watched :: "watches \<Rightarrow> string \<Rightarrow> bool" where
  "watched w k \<longleftrightarrow> (\<exists>wd. tget (wt_dirs w) wd = Some k)"

lemma add_tree_loop_covers:
  assumes "watches_ok v m w" "inodes_distinct (m_fs m)"
    and "\<forall>k\<in>set ks. k = [] \<or> watchable v m (parent_key k)"
    and "\<forall>k. watchable v m k \<and> (\<exists>r\<in>R. above r k) \<longrightarrow> watched w k \<or> (\<exists>p\<in>set ks. above p k)"
    and "add_tree_loop v m ks w = (ok, w')"
  shows "watches_ok v m w' \<and> in_limit (wt_kernel w') = in_limit (wt_kernel w) \<and> (\<forall>k. watched w k \<longrightarrow> watched w' k)
    \<and> (if ok then \<forall>k. watchable v m k \<and> (\<exists>r\<in>R. above r k) \<longrightarrow> watched w' k
        else in_limit (wt_kernel w') \<le> length (in_watches (wt_kernel w')))"
  using assms
proof (induction v m ks w rule: add_tree_loop.induct)
  case (1 v m w)
  then show ?case by (auto simp: add_tree_loop.simps)
next
  case (2 v m k ks w)
  show ?case
  proof (cases "k \<noteq> [] \<and> (ignored v m k \<or> \<not> Local_Fs.is_dir (m_fs m) k)")
    case True
    then have "\<not> watchable v m k" by (auto simp: watchable_def)
    then have "\<forall>k'. watchable v m k' \<longrightarrow> \<not> above k k'" using watchable_above by blast
    then show ?thesis using 2(1)[OF True] 2(3-7) True by (auto simp: add_tree_loop.simps)
  next
    case False
    have k: "watchable v m k" using False 2(5) by (cases "k = []") (auto simp: watchable_def[of v m "[]"] watchable_child)
    obtain r kn where add: "add_watch (m_fs m) k (wt_kernel w) = (r, kn)" by fastforce
    note a = add_watch_ok[OF 2(3,4) k add]
    show ?thesis
    proof (cases r)
      case None
      then show ?thesis using a add False 2(3,7) by (auto simp: add_tree_loop.simps watched_def)
    next
      case (Some wd)
      let ?w = "w\<lparr>wt_kernel := kn, wt_dirs := tput wd k (wt_dirs w)\<rparr>" and ?ks = "rev (subdirs (m_fs m) k) @ ks"
      have "\<forall>d j. tget (wt_dirs w) d = Some j \<longrightarrow> tget (wt_dirs ?w) d = Some j" using a Some by simp
      then have grow: "\<forall>k'. watched w k' \<longrightarrow> watched ?w k'" unfolding watched_def by blast
      have new: "watched ?w k" by (auto simp: watched_def intro!: exI[of _ wd])
      have "\<forall>k'. watchable v m k' \<and> (\<exists>r\<in>R. above r k') \<longrightarrow> watched ?w k' \<or> (\<exists>p\<in>set ?ks. above p k')"
      proof (intro allI impI)
        fix k' assume k': "watchable v m k' \<and> (\<exists>r\<in>R. above r k')"
        then consider "watched w k'" | "k' = k" | p where "p \<in> set ks" "above p k'" | "above k k'" "k' \<noteq> k"
          using 2(6) by auto
        then show "watched ?w k' \<or> (\<exists>p\<in>set ?ks. above p k')"
        proof cases
          case 4
          then obtain c where c: "above c k'" "c \<noteq> []" "parent_key c = k" using above_child by metis
          then have "c \<in> set (subdirs (m_fs m) k)" using k' watchable_above watchable_subdir by metis
          then show ?thesis using c by auto
        qed (use grow new in auto)
      qed
      moreover have "\<forall>k'\<in>set ?ks. k' = [] \<or> watchable v m (parent_key k')"
        using 2(5) k by (auto simp: subdirs_def)
      moreover have "add_tree_loop v m ?ks ?w = (ok, w')"
        using 2(7) False add Some by (auto simp: add_tree_loop.simps)
      ultimately show ?thesis
        using 2(2)[OF False add[symmetric] Some _ 2(4)] a Some grow by auto
    qed
  qed
qed

text \<open>What holds of the two tables whatever has happened to the folder meanwhile.\<close>

definition tables_agree :: "watches \<Rightarrow> bool" where
  "tables_agree w \<longleftrightarrow> tsorted (wt_dirs w) \<and> tsorted (in_watches (wt_kernel w))
     \<and> (\<forall>wd. tget (wt_dirs w) wd = None \<longleftrightarrow> tget (in_watches (wt_kernel w)) wd = None)
     \<and> (\<forall>wd i. tget (in_watches (wt_kernel w)) wd = Some i \<longrightarrow> wd < in_next (wt_kernel w))"

definition kernel_full :: "watches \<Rightarrow> bool" where
  "kernel_full w \<longleftrightarrow> in_limit (wt_kernel w) \<le> length (in_watches (wt_kernel w))"

lemma add_watch_tables:
  assumes t: "tables_agree w" and add: "add_watch f k (wt_kernel w) = (r, kn)"
  shows "case r of Some wd \<Rightarrow> tables_agree (w\<lparr>wt_kernel := kn, wt_dirs := tput wd k (wt_dirs w)\<rparr>)
    | None \<Rightarrow> kn = wt_kernel w \<and> kernel_full w"
proof (cases "find (\<lambda>(_, j). j = dir_inode f k) (in_watches (wt_kernel w))")
  case None
  then show ?thesis using t add
    by (auto simp: add_watch_def Let_def tables_agree_def kernel_full_def less_Suc_eq split: if_splits)
next
  case (Some p)
  obtain wd j where p: "p = (wd, j)" by (cases p)
  have "(wd, j) \<in> set (in_watches (wt_kernel w))"
    using Some p by (auto simp: find_Some_iff) (metis nth_mem)
  then have "tget (in_watches (wt_kernel w)) wd = Some j" using t by (simp add: tables_agree_def tsorted_lookup)
  then show ?thesis using Some p add t by (auto simp: add_watch_def Let_def tables_agree_def)
qed

lemma add_tree_loop_tables:
  "tables_agree w \<Longrightarrow> add_tree_loop v m ks w = (ok, w') \<Longrightarrow> tables_agree w' \<and> (ok \<or> kernel_full w')"
proof (induction v m ks w rule: add_tree_loop.induct)
  case (2 v m k ks w)
  show ?case
  proof (cases "k \<noteq> [] \<and> (ignored v m k \<or> \<not> Local_Fs.is_dir (m_fs m) k)")
    case True
    then show ?thesis using 2(1)[OF True 2(3)] 2(4) by (simp add: add_tree_loop.simps)
  next
    case False
    obtain r kn where add: "add_watch (m_fs m) k (wt_kernel w) = (r, kn)" by fastforce
    note a = add_watch_tables[OF 2(3) add]
    show ?thesis
    proof (cases r)
      case None
      then show ?thesis using a add False 2(3,4) by (auto simp: add_tree_loop.simps)
    next
      case (Some wd)
      then show ?thesis using 2(2)[OF False add[symmetric] Some] a add False 2(4) by (auto simp: add_tree_loop.simps)
    qed
  qed
qed (simp add: add_tree_loop.simps)

lemma tsorted_tdels: "tsorted t \<Longrightarrow> tsorted (fold tdel ks t)"
  and tget_tdels: "tget (fold tdel ks t) k = (if k \<in> set ks then None else tget t k)"
  by (induction ks arbitrary: t) auto

lemma remove_tree_tables:
  assumes "tables_agree w"
  shows "tables_agree (remove_tree key w)"
    and "tget (wt_dirs (remove_tree key w)) wd
      = (case tget (wt_dirs w) wd of Some d \<Rightarrow> if key = [] \<or> under d key then None else Some d | None \<Rightarrow> None)"
proof -
  let ?out = "\<lambda>d. key = [] \<or> under d key"
  have d: "tget (wt_dirs (remove_tree key w)) wd
      = (case tget (wt_dirs w) wd of Some d \<Rightarrow> if ?out d then None else Some d | None \<Rightarrow> None)" for wd
  proof -
    have "wt_dirs (remove_tree key w) = filter (\<lambda>(_, d). \<not> ?out d) (wt_dirs w)" "tsorted (wt_dirs w)"
      using assms by (simp_all add: remove_tree_def Let_def tables_agree_def)
    then show ?thesis by (simp only: tget_filter) (auto split: option.splits)
  qed
  then show "tget (wt_dirs (remove_tree key w)) wd
      = (case tget (wt_dirs w) wd of Some d \<Rightarrow> if ?out d then None else Some d | None \<Rightarrow> None)" .
  have "wd \<in> set (map fst (filter (\<lambda>(_, d). ?out d) (wt_dirs w))) \<longleftrightarrow> (\<exists>d. tget (wt_dirs w) wd = Some d \<and> ?out d)" for wd
    using assms by (auto simp: tables_agree_def tsorted_lookup image_iff)
  then have g: "tget (in_watches (wt_kernel (remove_tree key w))) wd
      = (if \<exists>d. tget (wt_dirs w) wd = Some d \<and> ?out d then None else tget (in_watches (wt_kernel w)) wd)" for wd
    by (simp add: remove_tree_def Let_def tget_tdels)
  have "in_next (wt_kernel (remove_tree key w)) = in_next (wt_kernel w)" "tsorted (wt_dirs (remove_tree key w))"
    "tsorted (in_watches (wt_kernel (remove_tree key w)))"
    using assms by (simp_all add: remove_tree_def Let_def tables_agree_def tsorted_tdels)
  then show "tables_agree (remove_tree key w)"
    using assms unfolding tables_agree_def g d by (auto split: option.splits if_splits) (metis not_None_eq)
qed

lemma watch_event_tables:
  "tables_agree w \<Longrightarrow> watch_event v m e w c = (ok, w', c') \<Longrightarrow> tables_agree w' \<and> (ok \<or> kernel_full w')"
proof -
  assume t: "tables_agree w" and e: "watch_event v m e w c = (ok, w', c')"
  have d: "tables_agree w2 \<and> (ok2 \<or> kernel_full w2)" if "dir_event v m fl key w c = (ok2, w2, c2)" for fl key ok2 w2 c2
    using that t remove_tree_tables(1)[OF t]
    by (auto simp: dir_event_def Let_def add_tree_def split: prod.splits if_splits dest: add_tree_loop_tables)
  have o: "tables_agree (w\<lparr>wt_own_moves := x\<rparr>)" for x using t by (simp add: tables_agree_def)
  show ?thesis using e t d o by (auto simp: watch_event_def Let_def split: if_splits option.splits)
qed

lemma watch_events_tables:
  "tables_agree w \<Longrightarrow> watch_events v m es w c = (ok, w', c') \<Longrightarrow> tables_agree w' \<and> (ok \<or> kernel_full w')"
proof (induction es arbitrary: w c)
  case (Cons e es)
  obtain ok1 w1 c1 where e: "watch_event v m e w c = (ok1, w1, c1)" by (cases "watch_event v m e w c") auto
  show ?case using Cons watch_event_tables[OF Cons.prems(1) e] e by (cases ok1) auto
qed simp

lemma emptied_ok: "tables_agree w \<Longrightarrow> watches_ok v m (remove_tree [] w)"
  using remove_tree_tables[of w "[]"] by (auto simp: tables_agree_def watches_ok_def split: option.splits)

lemma fresh_tables: "tables_agree (no_watches limit)" "remove_tree [] (no_watches limit) = no_watches limit"
  by (simp_all add: tables_agree_def no_watches_def remove_tree_def)

text \<open>Watching anew, from whatever was watched before.\<close>

lemma rewatch:
  assumes "tables_agree w" "inodes_distinct (m_fs m)" "add_tree v m [] (remove_tree [] w) = (ok, w')"
  shows "tables_agree w' \<and> (if ok then \<forall>k. watched w' k \<longleftrightarrow> watchable v m k else kernel_full w')"
proof -
  let ?w = "remove_tree [] w"
  have ok: "watches_ok v m ?w" by (rule emptied_ok[OF assms(1)])
  have "\<not> watched ?w k" for k
    using remove_tree_tables(2)[OF assms(1), of "[]"] by (auto simp: watched_def split: option.splits)
  then have "watches_ok v m w' \<and> (if ok then \<forall>k. watchable v m k \<longrightarrow> watched w' k else kernel_full w')"
    using add_tree_loop_covers[OF ok assms(2), of "[[]]" "{[]}" ok w'] assms(3)
    by (auto simp: add_tree_def above_def kernel_full_def split: if_splits)
  moreover have "watched w' k \<Longrightarrow> watches_ok v m w' \<Longrightarrow> watchable v m k" for k
    by (auto simp: watched_def watches_ok_def)
  moreover have "tables_agree w'"
    using add_tree_loop_tables[OF remove_tree_tables(1)[OF assms(1), of "[]"], of v m "[[]]" ok w'] assms(3)
    by (simp add: add_tree_def)
  ultimately show ?thesis by (auto split: if_splits)
qed

lemma overflow_rescans:
  "watch_events v m es w c = (True, w', c') \<Longrightarrow> ch_rescan c \<or> InOverflow \<in> (\<Union>e\<in>set es. ev_mask e) \<Longrightarrow> ch_rescan c'"
proof (induction es arbitrary: w c)
  case (Cons a es)
  have k: "ch_rescan c2" if "watch_event v m a w c = (ok2, w2, c2)" "ch_rescan c \<or> InOverflow \<in> ev_mask a" for ok2 w2 c2
    using that by (auto simp: watch_event_def dir_event_def note_path_def Let_def split: if_splits option.splits prod.splits)
  show ?case using Cons k by (auto split: prod.splits if_splits)
qed simp

text \<open>C35: the watcher covers the folder. When it starts, and again after the kernel has dropped events,
  exactly the directories that are not excluded, and lie in no excluded directory, have a watch,
  whatever was watched before and whatever has happened since; only when the kernel has no watch
  left does it fail, and then it asks for a scan of the whole folder.\<close>

theorem watches_cover_folder:
  assumes "inodes_distinct (m_fs m)" "add_tree v m [] (no_watches limit) = (ok, w0)"
    and t: "tables_agree w" and s: "watch_step v es (m, w) = (m', alive, w')"
  shows "(if ok then \<forall>k. watched w0 k \<longleftrightarrow> watchable v m k else kernel_full w0)
    \<and> tables_agree w'
    \<and> (if alive then InOverflow \<in> (\<Union>e\<in>set es. ev_mask e) \<longrightarrow> (\<forall>k. watched w' k \<longleftrightarrow> watchable v m k)
       else kernel_full w' \<and> m_pending_rescan m' \<and> m_woken m')"
proof -
  have start: "if ok then \<forall>k. watched w0 k \<longleftrightarrow> watchable v m k else kernel_full w0"
    using rewatch[OF fresh_tables(1) assms(1), unfolded fresh_tables(2), OF assms(2)] by (rule conjunct2)
  obtain ok1 w1 c where e: "watch_events v m es w \<lparr>ch_paths = {}, ch_rescan = False\<rparr> = (ok1, w1, c)"
    by (cases "watch_events v m es w \<lparr>ch_paths = {}, ch_rescan = False\<rparr>") auto
  have t1: "tables_agree w1" "ok1 \<or> kernel_full w1" using watch_events_tables[OF t e] by simp_all
  have "tables_agree (w1\<lparr>wt_own_moves := {}\<rparr>)" using t1(1) by (simp add: tables_agree_def)
  note again = rewatch[OF this assms(1)]
  obtain ok2 w2 where a: "add_tree v m [] (remove_tree [] (w1\<lparr>wt_own_moves := {}\<rparr>)) = (ok2, w2)" by fastforce
  have over: "ok1 \<Longrightarrow> InOverflow \<in> (\<Union>e\<in>set es. ev_mask e) \<Longrightarrow> ch_rescan c"
    using overflow_rescans[of v m es w _ w1 c] e by simp
  show ?thesis
    using start s e t1 over a again[OF a]
    by (auto simp: watch_step_def watch_round_def watch_read_def note_changes_def wake_def Let_def split: if_splits)
qed

section \<open>Every change is looked at\<close>

lemma watch_event_grows:
  "watch_event v m e w c = (ok, w', c') \<Longrightarrow> ch_paths c \<subseteq> ch_paths c' \<and> (ch_rescan c \<longrightarrow> ch_rescan c')
    \<and> (finite (ch_paths c) \<longrightarrow> finite (ch_paths c'))"
  by (auto simp: watch_event_def dir_event_def note_path_def Let_def split: if_splits option.splits prod.splits)

lemma watch_events_grow:
  "watch_events v m es w c = (ok, w', c') \<Longrightarrow> ch_paths c \<subseteq> ch_paths c' \<and> (ch_rescan c \<longrightarrow> ch_rescan c')
    \<and> (finite (ch_paths c) \<longrightarrow> finite (ch_paths c'))"
proof (induction es arbitrary: w c)
  case (Cons e es)
  obtain ok1 w1 c1 where e: "watch_event v m e w c = (ok1, w1, c1)" by (cases "watch_event v m e w c") auto
  show ?case using Cons.IH[of w1 c1] Cons.prems watch_event_grows[OF e] e by (auto split: if_splits)
qed simp

lemma watch_events_append:
  "watch_events v m (es @ fs) w c = (case watch_events v m es w c of
     (ok, w, c) \<Rightarrow> if ok then watch_events v m fs w c else (False, w, c))"
  by (induction es arbitrary: w c) (auto split: prod.splits)

lemma event_roots_cover: "p \<in> set ps \<Longrightarrow> \<exists>r\<in>set (foldl (\<lambda>roots p. if list_ex (\<lambda>r. under p r) roots then roots else roots @ [p]) rs ps). under p r"
proof -
  let ?f = "\<lambda>roots p. if list_ex (\<lambda>r. under p r) roots then roots else roots @ [p]"
  have keep: "set rs \<subseteq> set (foldl ?f rs ps)" for rs ps
  proof (induction ps arbitrary: rs)
    case (Cons a ps)
    show ?case using Cons[of "?f rs a"] by (auto split: if_splits)
  qed simp
  have u: "under p p" by (simp add: under_iff)
  show "p \<in> set ps \<Longrightarrow> \<exists>r\<in>set (foldl ?f rs ps). under p r"
  proof (induction ps arbitrary: rs)
    case (Cons a ps)
    show ?case
    proof (cases "p = a")
      case True
      have "\<exists>r\<in>set (?f rs a). under a r" using u by (auto simp: list_ex_iff)
      then obtain r where r: "r \<in> set (?f rs a)" "under a r" by blast
      then have "r \<in> set (foldl ?f (?f rs a) ps)" using keep by blast
      then show ?thesis using r(2) True by auto
    qed (use Cons in auto)
  qed simp
qed

text \<open>C36: no change in a watched directory is lost. An event for a name that is not excluded, is not
  one of the mirror's own landings and is not merely the creation of a file that its writer has not
  closed yet, wherever it stands in a batch, makes the mirror's next look at its local events scan
  the path or a directory above it, and the engine is woken; that also holds when the kernel runs
  out of watches later in the same batch.\<close>

theorem change_reaches_scan:
  assumes step: "watch_step v (pre @ e # post) (m, w) = (m', alive, w')"
    and before: "watch_events v m pre w \<lparr>ch_paths = {}, ch_rescan = False\<rparr> = (True, w1, c1)"
    and dir: "tget (wt_dirs w1) (ev_wd e) = Some parent" "InIgnored \<notin> ev_mask e" "ev_name e \<noteq> []"
    and name: "\<not> ends_with PART_SUFFIX (ev_name e)" "\<not> ignored v m (event_key parent (ev_name e))"
    and own: "InMovedTo \<in> ev_mask e \<longrightarrow> ev_cookie e \<notin> wt_own_moves w1"
    and closed: "InCreate \<in> ev_mask e \<longrightarrow> InIsDir \<in> ev_mask e"
    and fin: "finite (m_pending_paths m)"
  shows "m_woken m' \<and> (\<exists>roots priority. process_local_events v m'
      = snd (scan_paths v roots priority (m'\<lparr>m_pending_rescan := False, m_pending_paths := {}\<rparr>))
    \<and> (\<exists>r\<in>set roots. r = [] \<or> under (event_key parent (ev_name e)) r))"
proof -
  let ?key = "event_key parent (ev_name e)" and ?c = "\<lparr>ch_paths = {}, ch_rescan = False\<rparr>"
  obtain ok2 w2 c2 where e: "watch_event v m e w1 c1 = (ok2, w2, c2)" by (cases "watch_event v m e w1 c1") auto
  have noted: "ok2 \<Longrightarrow> ch_rescan c2 \<or> ?key \<in> ch_paths c2"
    using e dir name own closed
    by (auto simp: watch_event_def dir_event_def note_path_def Let_def split: if_splits prod.splits)
  obtain ok3 w3 c3 where all: "watch_events v m (pre @ e # post) w ?c = (ok3, w3, c3)"
    by (cases "watch_events v m (pre @ e # post) w ?c") auto
  have "ok3 \<Longrightarrow> ch_rescan c3 \<or> ?key \<in> ch_paths c3"
    using noted all e before watch_events_grow[of v m post w2 c2 ok3 w3 c3]
    by (auto simp: watch_events_append split: if_splits)
  moreover have "finite (ch_paths c3)" using watch_events_grow[OF all] by simp
  ultimately have "\<exists>c. m' = note_changes c m \<and> (ch_rescan c \<or> ?key \<in> ch_paths c) \<and> finite (ch_paths c)"
    using step all by (auto simp: watch_step_def watch_round_def watch_read_def split: prod.splits if_splits)
  then obtain c where c: "m' = note_changes c m" "ch_rescan c \<or> ?key \<in> ch_paths c" "finite (ch_paths c)" by blast
  have p: "m_woken m'" "m_pending_rescan m' \<or> ?key \<in> m_pending_paths m'" "finite (m_pending_paths m')"
    using c fin by (auto simp: note_changes_def wake_def Let_def)
  show ?thesis
  proof (cases "m_pending_rescan m'")
    case True
    then show ?thesis using p(1) by (auto simp: process_local_events_def scan_local_def Let_def)
  next
    case False
    then have k: "?key \<in> m_pending_paths m'" using p(2) by simp
    then have "\<exists>r\<in>set (event_roots (m_pending_paths m')). under ?key r"
      unfolding event_roots_def by (intro event_roots_cover) (simp add: p(3))
    then show ?thesis using p(1) False k by (auto simp: process_local_events_def Let_def)
  qed
qed

section \<open>A small folder\<close>

text \<open>A directory \<open>d\<close>, and \<open>.g\<close>, which is excluded.\<close>

definition demo_tree :: "mem mirror" where
  "demo_tree = demo_mirror\<lparr>m_fs := demo_folder\<lparr>f_nodes := [(''.g'', Dir 0 (demo_meta\<lparr>m_ino := 3\<rparr>)), (''d'', Dir 0 demo_meta)]\<rparr>\<rparr>"

definition demo_watches :: watches where
  "demo_watches = \<lparr>wt_kernel = \<lparr>in_watches = [(1, None), (2, Some 1)], in_next = 3, in_limit = 9\<rparr>,
     wt_dirs = [(1, []), (2, ''d'')], wt_own_moves = {}\<rparr>"

lemma demo_ancestors [simp]: "ancestors ''d'' = []" "ancestors ''.g'' = []"
  by (simp_all add: ancestors.simps parent_key_def rsplit_once_def)

lemma demo_dirs: "Local_Fs.is_dir (m_fs demo_tree) k \<longleftrightarrow> k = ''d'' \<or> k = ''.g''"
proof -
  have "Local_Fs.is_dir (m_fs demo_tree) k \<Longrightarrow> k = ''d'' \<or> k = ''.g''"
    using is_dir_node[of "m_fs demo_tree" k] by (auto simp: demo_tree_def split: if_splits)
  moreover have "Local_Fs.is_dir (m_fs demo_tree) ''d''" "Local_Fs.is_dir (m_fs demo_tree) ''.g''"
    by (simp_all add: Local_Fs.is_dir_def stat_def symlink_metadata_def demo_tree_def stat_of_def)
  ultimately show ?thesis by blast
qed

lemma demo_ignored [simp]: "ignored demo_env demo_tree ''d'' = False" "ignored demo_env demo_tree ''d/n'' = False" "ignored demo_env demo_tree ''.g''"
  by (simp_all add: ignored_def is_ignored_def demo_tree_def demo_mirror_def mirror_at_def ignore_new_def starts_with_def)

lemma demo_add_tree: "add_tree demo_env demo_tree [] (no_watches 9) = (True, demo_watches)"
proof -
  have "subdirs (m_fs demo_tree) [] = [''.g'', ''d'']" "subdirs (m_fs demo_tree) ''d'' = []"
    by (simp_all add: subdirs_def demo_tree_def parent_key_def rsplit_once_def)
  moreover have "dir_inode (m_fs demo_tree) [] = None" "dir_inode (m_fs demo_tree) ''d'' = Some 1"
    by (simp_all add: dir_inode_def demo_tree_def demo_meta_def)
  ultimately show ?thesis
    by (simp add: add_tree_def add_tree_loop.simps demo_dirs add_watch_def Let_def no_watches_def demo_watches_def)
qed

lemma demo_inodes: "inodes_distinct (m_fs demo_tree)"
  by (auto simp: inodes_distinct_def demo_dirs dir_inode_def) (auto simp: demo_tree_def demo_meta_def)

theorem watches_cover_folder_witness:
  "\<exists>w. add_tree demo_env demo_tree [] (no_watches 9) = (True, w) \<and> watched w [] \<and> watched w ''d'' \<and> \<not> watched w ''.g''"
proof -
  obtain m' alive w' where s: "watch_step demo_env [] (demo_tree, demo_watches) = (m', alive, w')"
    by (cases "watch_step demo_env [] (demo_tree, demo_watches)") auto
  have t: "tables_agree demo_watches" by (auto simp: tables_agree_def demo_watches_def tsorted_def)
  have "watchable demo_env demo_tree []" "watchable demo_env demo_tree ''d''" "\<not> watchable demo_env demo_tree ''.g''"
    by (simp_all add: watchable_def demo_dirs)
  then show ?thesis
    using watches_cover_folder[OF demo_inodes demo_add_tree t s] demo_add_tree by (intro exI[of _ demo_watches]) simp
qed

theorem change_reaches_scan_witness:
  "\<exists>m' alive w'. watch_step demo_env [\<lparr>ev_wd = 2, ev_mask = {InCloseWrite}, ev_cookie = 0, ev_name = ''n''\<rparr>] (demo_tree, demo_watches)
     = (m', alive, w') \<and> m_woken m'
   \<and> (\<exists>roots priority. process_local_events demo_env m'
        = snd (scan_paths demo_env roots priority (m'\<lparr>m_pending_rescan := False, m_pending_paths := {}\<rparr>))
      \<and> (\<exists>r\<in>set roots. r = [] \<or> under ''d/n'' r))"
proof -
  let ?e = "\<lparr>ev_wd = 2, ev_mask = {InCloseWrite}, ev_cookie = 0, ev_name = ''n''\<rparr>"
  obtain m' alive w' where s: "watch_step demo_env ([] @ ?e # []) (demo_tree, demo_watches) = (m', alive, w')"
    by (cases "watch_step demo_env ([] @ ?e # []) (demo_tree, demo_watches)") auto
  have k: "event_key ''d'' ''n'' = ''d/n''" by (simp add: event_key_def)
  have "finite (m_pending_paths demo_tree)" by (simp add: demo_tree_def demo_mirror_def mirror_at_def)
  then show ?thesis
    using change_reaches_scan[OF s, of demo_watches "\<lparr>ch_paths = {}, ch_rescan = False\<rparr>" "''d''"] s k
    by (auto simp: demo_watches_def ends_with_def strip_suffix_def PART_SUFFIX_def)
qed

end
