(* ===== verification/Setup.thy ===== *)
theory Setup
  imports Identity Render
begin

text \<open>
  What happens before a mount exists: finding the server and its credentials (\<^verbatim>\<open>config.rs\<close>), the
  client certificate (\<^verbatim>\<open>tls.rs\<close>), what to mount (\<^verbatim>\<open>main.rs\<close>), where its state lives and which mounts
  run (\<^verbatim>\<open>runtime.rs\<close>). Environment variables, configuration files, URLs and certificates are
  parameters. Absolute paths are lists of segments. Printing is left out.
\<close>

section \<open>The client certificate\<close>

record tls_files =
  tf_cert :: path
  tf_key :: path

datatype tls_error = BadUrl | NotHttps | NoCertFile | NoKeyFile | EncryptedKey | BadChain | EmptyChain | BadKey
  | KeyMismatch | NotValidNow | BadOrder | BadPkcs8

text \<open>\<open>'c\<close> is a certificate, \<open>'k\<close> a private key.\<close>

record ('c, 'k) tls_env =
  te_url :: "string \<Rightarrow> url option"
  te_read :: "path \<Rightarrow> string option"
  te_chain :: "string \<Rightarrow> 'c list option"
  te_key :: "string \<Rightarrow> 'k option"
  te_matches :: "'c \<Rightarrow> 'k \<Rightarrow> bool"
  te_valid_now :: "'c \<Rightarrow> bool"
  te_signed_by :: "'c \<Rightarrow> 'c \<Rightarrow> bool"
  te_pkcs8 :: "'k \<Rightarrow> string option"

fun chain_error :: "('c, 'k) tls_env \<Rightarrow> 'c list \<Rightarrow> tls_error option" where
  "chain_error x [] = None"
| "chain_error x (c # cs) =
     (if \<not> te_valid_now x c then Some NotValidNow
      else if (case cs of issuer # _ \<Rightarrow> \<not> te_signed_by x c issuer | [] \<Rightarrow> False) then Some BadOrder
      else chain_error x cs)"

definition tls_load :: "('c, 'k) tls_env \<Rightarrow> tls_files \<Rightarrow> string \<Rightarrow> tls_error + string \<times> string" where
  "tls_load x f server = (case te_url x server of None \<Rightarrow> Inl BadUrl | Some u \<Rightarrow>
     if ur_scheme u \<noteq> ''https'' \<or> ur_username u \<noteq> [] \<or> ur_password u \<noteq> None then Inl NotHttps
     else case te_read x (tf_cert f) of None \<Rightarrow> Inl NoCertFile | Some cert \<Rightarrow>
     (case te_read x (tf_key f) of None \<Rightarrow> Inl NoKeyFile | Some key \<Rightarrow>
     if sublist ''ENCRYPTED'' (utf8_lossy key) then Inl EncryptedKey
     else case te_chain x cert of None \<Rightarrow> Inl BadChain | Some [] \<Rightarrow> Inl EmptyChain | Some (leaf # cs) \<Rightarrow>
     (case te_key x key of None \<Rightarrow> Inl BadKey | Some k \<Rightarrow>
     if \<not> te_matches x leaf k then Inl KeyMismatch
     else case chain_error x (leaf # cs) of Some e \<Rightarrow> Inl e
     | None \<Rightarrow> (case te_pkcs8 x k of None \<Rightarrow> Inl BadPkcs8 | Some pem \<Rightarrow> Inr (cert, pem)))))"

text \<open>A redirect while a certificate is in use: \<open>origin\<close> is that of the server, \<open>previous\<close> the
  number of URLs visited before.\<close>

datatype redirect = Follow | CrossOrigin | TooMany

definition redirect_policy :: "(url \<Rightarrow> 'o) \<Rightarrow> 'o \<Rightarrow> url \<Rightarrow> nat \<Rightarrow> redirect" where
  "redirect_policy origin_of origin u previous =
     (if origin_of u \<noteq> origin \<or> ur_username u \<noteq> [] \<or> ur_password u \<noteq> None then CrossOrigin
      else if previous \<ge> 10 then TooMany else Follow)"

section \<open>The server\<close>

record endpoint =
  ep_server :: string
  ep_token :: string
  ep_tls :: "(string \<times> string) option"
  ep_source :: string

datatype config_error = TlsHalf | NoHomeDir | NoRemotes | NoRemoteName | UnknownRemote string | NoUrl string
  | NoToken string | BadTlsConfig | BadRemoteUrl | OriginChanged | TlsError tls_error

text \<open>\<open>cx_origin\<close> is None for a URL that does not parse; \<open>cx_path\<close> turns a value into a path.\<close>

record ('c, 'k, 'o) conf_env =
  cx_var :: "string \<Rightarrow> string option"
  cx_home :: "path option"
  cx_path :: "string \<Rightarrow> path"
  cx_json :: "path \<Rightarrow> json option"
  cx_origin :: "string \<Rightarrow> 'o option"
  cx_tls :: "('c, 'k) tls_env"

definition set_var :: "('c, 'k, 'o) conf_env \<Rightarrow> string \<Rightarrow> string option" where
  "set_var x nm = (case cx_var x nm of Some v \<Rightarrow> if v = [] then None else Some v | None \<Rightarrow> None)"

definition canvas_config_dir :: "('c, 'k, 'o) conf_env \<Rightarrow> path option" where
  "canvas_config_dir x = (case set_var x ''CANVAS_USER_HOME'' of
     Some home \<Rightarrow> Some (cx_path x home @ [''config''])
   | None \<Rightarrow> map_option (\<lambda>h. h @ [''.canvas'', ''config'']) (cx_home x))"

text \<open>The certificate given explicitly: the flags, else the environment, and then both halves.\<close>

definition tls_override ::
    "('c, 'k, 'o) conf_env \<Rightarrow> string option \<Rightarrow> string option \<Rightarrow> config_error + tls_files option" where
  "tls_override x cert_flag key_flag =
     (let env_cert = set_var x ''CANVAS_TLS_CERT''; env_key = set_var x ''CANVAS_TLS_KEY'';
          chosen = (if cert_flag \<noteq> None \<or> key_flag \<noteq> None then Some (cert_flag, key_flag)
            else if env_cert \<noteq> None \<or> env_key \<noteq> None then Some (env_cert, env_key) else None)
      in case chosen of
           None \<Rightarrow> Inr None
         | Some (Some c, Some k) \<Rightarrow> Inr (Some \<lparr>tf_cert = cx_path x c, tf_key = cx_path x k\<rparr>)
         | Some _ \<Rightarrow> Inl TlsHalf)"

definition load_for :: "('c, 'k, 'o) conf_env \<Rightarrow> tls_files option \<Rightarrow> string \<Rightarrow> config_error + (string \<times> string) option" where
  "load_for x files server = (case files of None \<Rightarrow> Inr None
     | Some f \<Rightarrow> (case tls_load (cx_tls x) f server of Inl e \<Rightarrow> Inl (TlsError e) | Inr i \<Rightarrow> Inr (Some i)))"

definition token_at :: "string \<Rightarrow> json \<Rightarrow> string option" where
  "token_at section v = (case Option.bind (jget section v) (jstr ''token'') of
     Some t \<Rightarrow> if t = [] then None else Some t | None \<Rightarrow> None)"

definition remote_name :: "('c, 'k, 'o) conf_env \<Rightarrow> path \<Rightarrow> string option \<Rightarrow> string option" where
  "remote_name x dir remote_flag = (case remote_flag of Some nm \<Rightarrow> Some nm
     | None \<Rightarrow> Option.bind (cx_json x (dir @ [''cli-session.json''])) (jstr ''boundRemote''))"

text \<open>The certificate of the remote, if there is one; a record can also be written as an array.\<close>

definition remote_tls :: "('c, 'k, 'o) conf_env \<Rightarrow> json \<Rightarrow> config_error + tls_files option" where
  "remote_tls x remote = (case jget ''tls'' remote of
     None \<Rightarrow> Inr None
   | Some JNull \<Rightarrow> Inr None
   | Some (JArr [JStr c, JStr k]) \<Rightarrow> Inr (Some \<lparr>tf_cert = cx_path x c, tf_key = cx_path x k\<rparr>)
   | Some v \<Rightarrow> (case (jstr ''certFile'' v, jstr ''keyFile'' v) of
       (Some c, Some k) \<Rightarrow> Inr (Some \<lparr>tf_cert = cx_path x c, tf_key = cx_path x k\<rparr>)
     | _ \<Rightarrow> Inl BadTlsConfig))"

text \<open>A URL given explicitly must not inherit the certificate of another host.\<close>

definition origin_kept ::
    "('c, 'k, 'o) conf_env \<Rightarrow> string option \<Rightarrow> string option \<Rightarrow> string option \<Rightarrow> tls_files option \<Rightarrow> json \<Rightarrow> string
       \<Rightarrow> config_error + unit" where
  "origin_kept x server_flag cert_flag key_flag files remote server =
     (if files \<noteq> None \<and> (server_flag \<noteq> None \<or> set_var x ''CANVAS_SERVER'' \<noteq> None)
         \<and> cert_flag = None \<and> key_flag = None \<and> set_var x ''CANVAS_TLS_CERT'' = None
      then (case jstr ''url'' remote of
          None \<Rightarrow> Inr ()
        | Some original \<Rightarrow> (case (cx_origin x original, cx_origin x server) of
            (Some a, Some b) \<Rightarrow> if a = b then Inr () else Inl OriginChanged
          | _ \<Rightarrow> Inl BadRemoteUrl))
      else Inr ())"

definition first_of :: "'a option \<Rightarrow> 'a option \<Rightarrow> 'a option" where
  "first_of a b = (case a of Some v \<Rightarrow> Some v | None \<Rightarrow> b)"

text \<open>The remote of the configuration, the values given explicitly before its own.\<close>

definition from_remote ::
    "('c, 'k, 'o) conf_env \<Rightarrow> string option \<Rightarrow> string option \<Rightarrow> string option \<Rightarrow> tls_files option
       \<Rightarrow> string option \<Rightarrow> string option \<Rightarrow> string \<Rightarrow> json \<Rightarrow> config_error + endpoint" where
  "from_remote x server_flag cert_flag key_flag override server token nm remote =
     (case first_of server (jstr ''url'' remote) of None \<Rightarrow> Inl (NoUrl nm) | Some srv \<Rightarrow>
     (case first_of token (first_of (token_at ''auth'' remote) (token_at ''device'' remote)) of
       None \<Rightarrow> Inl (NoToken nm) | Some tok \<Rightarrow>
     (case (case override of Some f \<Rightarrow> Inr (Some f) | None \<Rightarrow> remote_tls x remote) of Inl e \<Rightarrow> Inl e | Inr files \<Rightarrow>
     (case origin_kept x server_flag cert_flag key_flag files remote srv of Inl e \<Rightarrow> Inl e | Inr _ \<Rightarrow>
     (case load_for x files srv of Inl e \<Rightarrow> Inl e
      | Inr tls \<Rightarrow> Inr \<lparr>ep_server = srv, ep_token = tok, ep_tls = tls, ep_source = ''remote '' @ nm\<rparr>)))))"

text \<open>The configuration of the command-line client.\<close>

definition from_config ::
    "('c, 'k, 'o) conf_env \<Rightarrow> string option \<Rightarrow> string option \<Rightarrow> string option \<Rightarrow> string option \<Rightarrow> tls_files option
       \<Rightarrow> string option \<Rightarrow> string option \<Rightarrow> config_error + endpoint" where
  "from_config x server_flag remote_flag cert_flag key_flag override server token =
     (case canvas_config_dir x of None \<Rightarrow> Inl NoHomeDir | Some dir \<Rightarrow>
     (case cx_json x (dir @ [''remotes.json'']) of None \<Rightarrow> Inl NoRemotes | Some remotes \<Rightarrow>
     (case remote_name x dir remote_flag of None \<Rightarrow> Inl NoRemoteName | Some nm \<Rightarrow>
     (case jget nm remotes of None \<Rightarrow> Inl (UnknownRemote nm)
      | Some remote \<Rightarrow> from_remote x server_flag cert_flag key_flag override server token nm remote))))"

definition resolve_with_tls ::
    "('c, 'k, 'o) conf_env \<Rightarrow> string option \<Rightarrow> string option \<Rightarrow> string option \<Rightarrow> string option \<Rightarrow> string option
       \<Rightarrow> config_error + endpoint" where
  "resolve_with_tls x server_flag token_flag remote_flag cert_flag key_flag =
     (case tls_override x cert_flag key_flag of Inl e \<Rightarrow> Inl e | Inr override \<Rightarrow>
      (let server = first_of server_flag (set_var x ''CANVAS_SERVER'');
           token = first_of token_flag (set_var x ''CANVAS_API_TOKEN'')
       in case (server, token, remote_flag) of
         (Some s, Some t, None) \<Rightarrow> (case load_for x override s of Inl e \<Rightarrow> Inl e
           | Inr tls \<Rightarrow> Inr \<lparr>ep_server = s, ep_token = t, ep_tls = tls, ep_source = ''flags/env''\<rparr>)
       | _ \<Rightarrow> from_config x server_flag remote_flag cert_flag key_flag override server token))"

definition resolve_server :: "('c, 'k, 'o) conf_env \<Rightarrow> string option \<Rightarrow> string option \<Rightarrow> config_error + string" where
  "resolve_server x server_flag remote_flag =
     map_sum id ep_server (resolve_with_tls x server_flag (Some []) remote_flag None None)"

end
