(* ===== verification/Mounts.thy ===== *)
theory Mounts
  imports Setup
begin

text \<open>
  What to mount and where its state lives (\<^verbatim>\<open>resolve_root\<close>, \<^verbatim>\<open>resolve_selection\<close> and \<^verbatim>\<open>cmd_mount\<close> of
  \<^verbatim>\<open>main.rs\<close>, the path functions of \<^verbatim>\<open>runtime.rs\<close>), and the record of the mounts that run
  (\<^verbatim>\<open>runtime.rs\<close>, \<^verbatim>\<open>cmd_unmount\<close>, \<^verbatim>\<open>cmd_status\<close> and \<^verbatim>\<open>mirror_socket\<close>). Processes and the kernel's mount
  table are part of an explicit state; how a daemon reacts to a signal is a parameter. Names that are
  joined to a path are single segments.
\<close>

section \<open>What to mount\<close>

datatype plan_error = NoMountpoint | TwoSelectors | EmptySelector | BadSelector string | TwoWorkspaces string string
  | EmptyTree | BadBackend | BackendsClash | SelectionNeedsWorkspace | MirrorNeedsHome | MirrorNeedsWorkspace
  | AlreadyMounted nat | StaleMount | PlanIdentity identity_error | PlanConfig config_error

text \<open>The optional first positional argument: with one argument it is the mountpoint.\<close>

definition positionals :: "(string \<Rightarrow> path) \<Rightarrow> string option \<Rightarrow> path option \<Rightarrow> plan_error + string option \<times> path" where
  "positionals to_path selector mountpoint = (case (selector, mountpoint) of
     (Some sel, Some p) \<Rightarrow> Inr (Some sel, p)
   | (Some only, None) \<Rightarrow> Inr (None, to_path only)
   | (None, Some p) \<Rightarrow> Inr (None, p)
   | (None, None) \<Rightarrow> Inl NoMountpoint)"

fun flag_contexts :: "string option \<Rightarrow> string list \<Rightarrow> plan_error + string option \<times> string list" where
  "flag_contexts ws [] = Inr (ws, [])"
| "flag_contexts ws (c # cs) = (case split_once slash (trim_with (\<lambda>c. c = slash) c) of
     Some (w, i) \<Rightarrow>
       if ws \<noteq> None \<and> ws \<noteq> Some w then Inl (TwoWorkspaces (the ws) w)
       else map_sum id (apsnd (Cons i)) (flag_contexts (Some w) cs)
   | None \<Rightarrow> map_sum id (apsnd (Cons c)) (flag_contexts ws cs))"

definition resolve_root ::
    "string option \<Rightarrow> string option \<Rightarrow> string list \<Rightarrow> plan_error + string option \<times> string list" where
  "resolve_root selector workspace contexts = (case selector of
     Some sel \<Rightarrow>
       (case filter (\<lambda>p. p \<noteq> []) (split_on slash (trim_with (\<lambda>c. c = slash) sel)) of
          [] \<Rightarrow> Inl EmptySelector
        | [ws] \<Rightarrow> Inr (Some ws, [])
        | [ws, section] \<Rightarrow> if eq_ignore_case section ''contexts'' then Inr (Some ws, []) else Inl (BadSelector sel)
        | [ws, section, i] \<Rightarrow> if eq_ignore_case section ''contexts'' then Inr (Some ws, [i]) else Inl (BadSelector sel)
        | _ \<Rightarrow> Inl (BadSelector sel))
   | None \<Rightarrow> flag_contexts workspace contexts)"

text \<open>Trees are sorted, duplicates go.\<close>

definition resolve_selection ::
    "string list \<Rightarrow> string list \<Rightarrow> bool \<Rightarrow> bool \<Rightarrow> string option \<Rightarrow> string list \<Rightarrow> bool \<Rightarrow> plan_error + workspace_selection" where
  "resolve_selection trees backends include_backends no_backends workspace contexts mirror =
     (if list_ex (\<lambda>t. str_trim t = []) trees then Inl EmptyTree
      else if list_ex (\<lambda>b. b \<noteq> ''workspace:home'') backends then Inl BadBackend
      else let sel = \<lparr>sel_trees = remdups (sort trees), sel_home = (backends \<noteq> []), sel_backends = include_backends\<rparr> in
       if no_backends \<and> (include_backends \<or> ''backends'' \<in> set (sel_trees sel)) then Inl BackendsClash
       else if (is_explicit sel \<or> include_backends \<or> no_backends) \<and> \<not> (workspace \<noteq> None \<and> contexts = [])
       then Inl SelectionNeedsWorkspace
       else if mirror \<and> \<not> (workspace \<noteq> None \<and> contexts = [] \<and> includes_home sel) then Inl MirrorNeedsHome
       else Inr sel)"

section \<open>Where the state lives\<close>

definition sanitize_segment :: "text_env \<Rightarrow> string \<Rightarrow> string" where
  "sanitize_segment x s =
     (let cleaned = concat (map (\<lambda>g. if x_alnum x g \<or> g \<in> {''-'', ''_'', ''.'', ''@''} then g else ''_'') (chars s));
          trimmed = trim_with (\<lambda>c. c = CHR ''.'' \<or> c = CHR ''_'') cleaned
      in if trimmed = [] then ''default'' else trimmed)"

definition hex_nibble :: "nat \<Rightarrow> char" where
  "hex_nibble n = (if n < 10 then char_of (48 + n) else char_of (87 + n))"

fun show_hex :: "nat \<Rightarrow> string" where
  "show_hex n = (if n < 16 then [hex_nibble n] else show_hex (n div 16) @ [hex_nibble (n mod 16)])"

declare show_hex.simps [simp del]

definition padded_hex :: "nat \<Rightarrow> 64 word \<Rightarrow> string" where
  "padded_hex width h = (let s = show_hex (unat h) in replicate (width - length s) (CHR ''0'') @ s)"

definition path_text :: "path \<Rightarrow> string" where
  "path_text p = slash # join_with ''/'' p"

definition mounts_name :: "text_env \<Rightarrow> path \<Rightarrow> string" where
  "mounts_name x mp = sanitize_segment x (trim_with (\<lambda>c. c = slash) (path_text mp)) @ ''.'' @ padded_hex 8 (fnv1a (path_text mp))"

definition mount_data_dir :: "text_env \<Rightarrow> path \<Rightarrow> string \<Rightarrow> string list \<Rightarrow> path \<Rightarrow> path" where
  "mount_data_dir x home remote contexts mp =
     (let base = home @ [''.canvas'', sanitize_segment x remote, ''fuse'']
      in case contexts of
           [c] \<Rightarrow> base @ [''contexts'', sanitize_segment x c]
         | _ \<Rightarrow> base @ [''mounts'', mounts_name x mp])"

definition workspace_data_dir :: "text_env \<Rightarrow> path \<Rightarrow> string \<Rightarrow> string \<Rightarrow> path" where
  "workspace_data_dir x home remote ws =
     home @ [''.canvas'', sanitize_segment x remote, ''fuse'', ''workspaces'', sanitize_segment x ws]"

definition workspace_mount_data_dir :: "text_env \<Rightarrow> path \<Rightarrow> string \<Rightarrow> string \<Rightarrow> path \<Rightarrow> path" where
  "workspace_mount_data_dir x home remote ws mp =
     workspace_data_dir x home remote ws @ [''mounts'', last (mount_data_dir x home remote [] mp)]"

text \<open>\<^verbatim>\<open>server.rsplit("://").next()\<close> up to the first slash: the host and port of a URL.\<close>

function after_scheme :: "string \<Rightarrow> string" where
  "after_scheme s = (case s of
     [] \<Rightarrow> []
   | c # cs \<Rightarrow> if sublist ''://'' s then (case strip_prefix ''://'' s of Some r \<Rightarrow> after_scheme r | None \<Rightarrow> after_scheme cs) else s)"
  by pat_completeness auto
termination
  by (relation "measure length") (auto simp: strip_prefix_Some split: if_splits)

declare after_scheme.simps [simp del]

definition host_label :: "string \<Rightarrow> string" where
  "host_label server = hd (split_on slash (after_scheme server))"

definition mirror_data_dir ::
    "ident_env \<Rightarrow> text_env \<Rightarrow> (path \<Rightarrow> path list option) \<Rightarrow> path \<Rightarrow> string \<Rightarrow> string \<Rightarrow> path \<Rightarrow> disk \<Rightarrow> identity_error + path" where
  "mirror_data_dir i x children home server ws mp k =
     find_data_dir i children server (workspace_mount_data_dir x home (host_label server) ws mp) (home @ [''.canvas'']) k"

definition file_base :: "text_env \<Rightarrow> path \<Rightarrow> string" where
  "file_base x mp = concat (map (\<lambda>g. if x_alnum x g then g else ''_'') (chars (trim_with (\<lambda>c. c = slash) (path_text mp))))
     @ ''.'' @ padded_hex 8 (fnv1a (path_text mp))"

definition state_file_for :: "text_env \<Rightarrow> path \<Rightarrow> path \<Rightarrow> path" where
  "state_file_for x state_dir mp = state_dir @ [''mounts'', file_base x mp @ ''.json'']"

definition status_file_for :: "text_env \<Rightarrow> path \<Rightarrow> path \<Rightarrow> path" where
  "status_file_for x state_dir mp = state_dir @ [''mounts'', file_base x mp @ ''.status.json'']"

definition default_log_file :: "text_env \<Rightarrow> path \<Rightarrow> path \<Rightarrow> path" where
  "default_log_file x state_dir mp = state_dir @ [''mounts'', file_base x mp @ ''.log'']"

definition control_socket_for :: "path \<Rightarrow> path \<Rightarrow> path" where
  "control_socket_for state_dir mp = state_dir @ [''mounts'', hex016 (fnv1a (path_text mp)) @ ''.sock'']"

section \<open>The running mounts\<close>

record mount_state =
  ms_mountpoint :: path
  ms_server :: string
  ms_pid :: nat
  ms_contexts :: "string list option"
  ms_log_file :: "path option"
  ms_workspace :: "string option"
  ms_mirror :: bool

text \<open>The state directory, the processes and \<^verbatim>\<open>/proc/mounts\<close> as lines.\<close>

record system =
  sy_states :: "(path, mount_state) table"
  sy_status :: "path set"
  sy_alive :: "nat set"
  sy_proc :: "string list"

record sys_env =
  se_text :: text_env
  se_state_dir :: path
  se_home :: path
  se_canonicalize :: "path \<Rightarrow> path option"

definition write_state :: "sys_env \<Rightarrow> mount_state \<Rightarrow> system \<Rightarrow> system" where
  "write_state e st s = s\<lparr>sy_states := tput (state_file_for (se_text e) (se_state_dir e) (ms_mountpoint st)) st (sy_states s)\<rparr>"

definition remove_state :: "sys_env \<Rightarrow> path \<Rightarrow> system \<Rightarrow> system" where
  "remove_state e mp s = s\<lparr>sy_states := tdel (state_file_for (se_text e) (se_state_dir e) mp) (sy_states s),
     sy_status := sy_status s - {status_file_for (se_text e) (se_state_dir e) mp}\<rparr>"

definition read_state :: "sys_env \<Rightarrow> path \<Rightarrow> system \<Rightarrow> mount_state option" where
  "read_state e mp s = tget (sy_states s) (state_file_for (se_text e) (se_state_dir e) mp)"

definition list_states :: "system \<Rightarrow> mount_state list" where
  "list_states s = map snd (sy_states s)"

definition pid_alive :: "nat \<Rightarrow> system \<Rightarrow> bool" where
  "pid_alive pid s \<longleftrightarrow> pid \<in> sy_alive s"

text \<open>A directory given by the user: a mountpoint, or the only one right below it.\<close>

definition resolve_mount :: "sys_env \<Rightarrow> path \<Rightarrow> system \<Rightarrow> mount_state option" where
  "resolve_mount e arg s =
     (let canon = or_default arg (se_canonicalize e arg) in
      case read_state e canon s of
        Some st \<Rightarrow> Some st
      | None \<Rightarrow> (case filter (\<lambda>st. ms_mountpoint st \<noteq> [] \<and> butlast (ms_mountpoint st) = canon) (list_states s) of
          [st] \<Rightarrow> Some st | _ \<Rightarrow> None))"

text \<open>Fields are separated by white space; the kernel escapes a space as \<^verbatim>\<open>\040\<close>.\<close>

definition fields_of :: "string \<Rightarrow> string list" where
  "fields_of line = filter (\<lambda>f. f \<noteq> []) (split_on CHR '' '' (map (\<lambda>c. if c = CHR 0x09 then CHR '' '' else c) line))"

definition escaped :: "path \<Rightarrow> string" where
  "escaped mp = replace_chars {CHR '' ''} [CHR 0x5C, CHR ''0'', CHR ''4'', CHR ''0''] (path_text mp)"

definition mounts_here :: "path \<Rightarrow> string \<Rightarrow> bool" where
  "mounts_here mp line \<longleftrightarrow> (case fields_of line of
     dev # m # fstype # _ \<Rightarrow> m = escaped mp \<and> starts_with ''fuse.canvas'' fstype | _ \<Rightarrow> False)"

definition is_mounted :: "path \<Rightarrow> system \<Rightarrow> bool" where
  "is_mounted mp s \<longleftrightarrow> list_ex (mounts_here mp) (sy_proc s)"

definition kernel_unmount :: "path \<Rightarrow> system \<Rightarrow> system" where
  "kernel_unmount mp s = s\<lparr>sy_proc := filter (\<lambda>l. \<not> mounts_here mp l) (sy_proc s)\<rparr>"

definition status_word :: "bool \<Rightarrow> bool \<Rightarrow> string" where
  "status_word alive mounted = (if alive then if mounted then ''ok'' else ''broken'' else if mounted then ''orphaned'' else ''stale'')"

text \<open>The states with their health; what a crash has left is removed once it has been reported.\<close>

definition cmd_status :: "sys_env \<Rightarrow> system \<Rightarrow> (mount_state \<times> bool \<times> bool) list \<times> system" where
  "cmd_status e s =
     (map (\<lambda>st. (st, pid_alive (ms_pid st) s, is_mounted (ms_mountpoint st) s)) (list_states s),
      fold (\<lambda>st s. if \<not> pid_alive (ms_pid st) s \<and> \<not> is_mounted (ms_mountpoint st) s then remove_state e (ms_mountpoint st) s else s)
        (list_states s) s)"

datatype socket_error = UnknownMount | NotAMirror | DaemonGone nat

definition mirror_socket :: "sys_env \<Rightarrow> path \<Rightarrow> system \<Rightarrow> socket_error + path" where
  "mirror_socket e arg s = (case resolve_mount e arg s of
     None \<Rightarrow> Inl UnknownMount
   | Some st \<Rightarrow>
       if \<not> ms_mirror st then Inl NotAMirror
       else if \<not> pid_alive (ms_pid st) s then Inl (DaemonGone (ms_pid st))
       else Inr (control_socket_for (se_state_dir e) (ms_mountpoint st)))"

section \<open>Unmounting\<close>

text \<open>What a daemon does in the time it is given after SIGTERM; it removes its state first. SIGKILL
  ends it in any case. \<open>re_forced\<close> says whether \<^verbatim>\<open>fusermount3 -uz\<close> succeeds.\<close>

record reaction =
  re_unmounts :: bool
  re_forced :: bool

datatype unmounted = Unmounted | Forced | NotMounted | CleanedUp | ForceFailed

definition terminate :: "sys_env \<Rightarrow> reaction \<Rightarrow> path \<Rightarrow> nat \<Rightarrow> system \<Rightarrow> system" where
  "terminate e r mp pid s =
     (let s = (if re_unmounts r then kernel_unmount mp (remove_state e mp s) else s)
      in s\<lparr>sy_alive := sy_alive s - {pid}\<rparr>)"

definition force_unmount :: "sys_env \<Rightarrow> reaction \<Rightarrow> path \<Rightarrow> bool \<Rightarrow> system \<Rightarrow> unmounted \<times> system" where
  "force_unmount e r mp known s =
     (let s = remove_state e mp s in
      if is_mounted mp s then if re_forced r then (Forced, kernel_unmount mp s) else (ForceFailed, s)
      else if known then (CleanedUp, s) else (NotMounted, s))"

definition cmd_unmount :: "sys_env \<Rightarrow> reaction \<Rightarrow> path \<Rightarrow> system \<Rightarrow> unmounted \<times> system" where
  "cmd_unmount e r arg s =
     (let mp = or_default arg (se_canonicalize e arg) in
      case read_state e mp s of
        None \<Rightarrow> force_unmount e r mp False s
      | Some st \<Rightarrow>
          if pid_alive (ms_pid st) s
          then (let s = terminate e r mp (ms_pid st) s
                in if \<not> is_mounted mp s then (Unmounted, remove_state e mp s) else force_unmount e r mp True s)
          else force_unmount e r mp True s)"

section \<open>Planning a mount\<close>

record mount_args =
  ma_mountpoint :: path
  ma_contexts :: "string list"
  ma_workspace :: "string option"
  ma_selection :: workspace_selection
  ma_contexts_only :: bool
  ma_remote :: "string option"
  ma_data_dir :: "path option"
  ma_mirror :: bool

text \<open>The flags of \<^verbatim>\<open>mount\<close> that decide what is mounted, and what becomes of them.\<close>

record mount_flags =
  mf_selector :: "string option"
  mf_mountpoint :: "path option"
  mf_root :: "string option"
  mf_contexts :: "string list"
  mf_workspace :: "string option"
  mf_trees :: "string list"
  mf_backends :: "string list"
  mf_include_backends :: bool
  mf_no_backends :: bool
  mf_contexts_only :: bool
  mf_remote :: "string option"
  mf_data_dir :: "path option"
  mf_mirror :: bool

definition mount_command :: "(string \<Rightarrow> path) \<Rightarrow> mount_flags \<Rightarrow> plan_error + mount_args" where
  "mount_command to_path f =
     (case positionals to_path (mf_selector f) (mf_mountpoint f) of Inl e \<Rightarrow> Inl e | Inr (selector, mp) \<Rightarrow>
      if selector \<noteq> None \<and> (mf_root f \<noteq> None \<or> mf_workspace f \<noteq> None \<or> mf_contexts f \<noteq> []) then Inl TwoSelectors
      else case resolve_root (first_of selector (mf_root f)) (mf_workspace f) (mf_contexts f) of Inl e \<Rightarrow> Inl e | Inr (ws, cs) \<Rightarrow>
        (case resolve_selection (mf_trees f) (mf_backends f) (mf_include_backends f) (mf_no_backends f) ws cs (mf_mirror f) of
           Inl e \<Rightarrow> Inl e
         | Inr sel \<Rightarrow> Inr \<lparr>ma_mountpoint = mp, ma_contexts = cs, ma_workspace = ws, ma_selection = sel,
             ma_contexts_only = mf_contexts_only f, ma_remote = mf_remote f, ma_data_dir = mf_data_dir f, ma_mirror = mf_mirror f\<rparr>))"

record mount_plan =
  pl_mountpoint :: path
  pl_data_dir :: path
  pl_workspace :: "string option"
  pl_context_root :: "string option"

definition workspace_mount :: "mount_args \<Rightarrow> string option" where
  "workspace_mount a = (if ma_contexts a = [] \<and> \<not> ma_contexts_only a then ma_workspace a else None)"

definition context_root :: "mount_args \<Rightarrow> string option" where
  "context_root a = (case ma_contexts a of [c] \<Rightarrow> Some c | _ \<Rightarrow> None)"

definition planned_mountpoint :: "mount_args \<Rightarrow> path" where
  "planned_mountpoint a =
     (if is_explicit (ma_selection a) \<or> ma_contexts_only a then ma_mountpoint a
      else case (workspace_mount a, context_root a) of
        (Some ws, _) \<Rightarrow> ma_mountpoint a @ [ws]
      | (None, Some c) \<Rightarrow> ma_mountpoint a @ [c]
      | (None, None) \<Rightarrow> ma_mountpoint a)"

definition live_data_dir :: "sys_env \<Rightarrow> string \<Rightarrow> mount_args \<Rightarrow> path \<Rightarrow> path" where
  "live_data_dir e server a mp =
     (let label = or_default (host_label server) (ma_remote a); x = se_text e; home = se_home e in
      case workspace_mount a of
        Some ws \<Rightarrow> if is_explicit (ma_selection a) then workspace_mount_data_dir x home label ws mp
                   else workspace_data_dir x home label ws
      | None \<Rightarrow> mount_data_dir x home label (ma_contexts a) mp)"

text \<open>\<open>forced\<close> says whether a mount that a crash has left can be cleared, \<open>children\<close> lists directories,
  \<open>k\<close> is the disk under the mountpoint.\<close>

definition plan_mount ::
    "sys_env \<Rightarrow> ident_env \<Rightarrow> (path \<Rightarrow> path list option) \<Rightarrow> bool \<Rightarrow> string \<Rightarrow> mount_args \<Rightarrow> disk \<Rightarrow> system
       \<Rightarrow> (plan_error + mount_plan) \<times> system" where
  "plan_mount e i children forced server a k s =
     (if ma_mirror a \<and> workspace_mount a = None then (Inl MirrorNeedsWorkspace, s)
      else let mp = or_default (planned_mountpoint a) (se_canonicalize e (planned_mountpoint a)) in
       case (case read_state e mp s of
          Some st \<Rightarrow> if pid_alive (ms_pid st) s \<and> is_mounted mp s then Some (AlreadyMounted (ms_pid st)) else None
        | None \<Rightarrow> None) of
         Some err \<Rightarrow> (Inl err, s)
       | None \<Rightarrow>
         if ma_mirror a \<and> is_mounted mp s \<and> \<not> forced then (Inl StaleMount, s)
         else let s = (if ma_mirror a then kernel_unmount mp s else s) in
          case (case (ma_data_dir a, workspace_mount a) of
              (Some d, _) \<Rightarrow> Inr d
            | (None, Some ws) \<Rightarrow> if ma_mirror a then mirror_data_dir i (se_text e) children (se_home e) server ws mp k
                                else Inr (live_data_dir e server a mp)
            | (None, None) \<Rightarrow> Inr (live_data_dir e server a mp)) of
            Inl err \<Rightarrow> (Inl (PlanIdentity err), s)
          | Inr d \<Rightarrow>
             (case (if ma_mirror a then identity_preflight (dk_mount k) else Inr ()) of
                Inl err \<Rightarrow> (Inl (PlanIdentity err), s)
              | Inr _ \<Rightarrow> (Inr \<lparr>pl_mountpoint = mp, pl_data_dir = d, pl_workspace = workspace_mount a,
                           pl_context_root = context_root a\<rparr>, s)))"

end
