(* ===== verification/Mounts_Safe.thy ===== *)
theory Mounts_Safe
  imports Mounts
begin

text \<open>
  What the set-up of a mount promises: the state of a mount stays in its own directory whatever the
  names are, the certificate of a remote goes to its own origin only, one mount is one workspace,
  and an unmount leaves nothing behind.
\<close>

section \<open>Names become segments\<close>

definition safe_segment :: "string \<Rightarrow> bool" where
  "safe_segment s \<longleftrightarrow> s \<noteq> [] \<and> slash \<notin> set s \<and> s \<noteq> ''.'' \<and> s \<noteq> ''..''"

lemma trim_with_parts: "\<exists>u v. s = u @ trim_with p s @ v \<and> (trim_with p s \<noteq> [] \<longrightarrow> \<not> p (hd (trim_with p s)))"
proof -
  let ?t = "dropWhile p s"
  have t: "?t = trim_with p s @ rev (takeWhile p (rev ?t))"
    unfolding trim_with_def trim_end_with_def trim_start_with_def
    by (metis rev_append rev_rev_ident takeWhile_dropWhile_id)
  have "\<not> p (hd (trim_with p s))" if "trim_with p s \<noteq> []"
  proof -
    have "hd ?t = hd (trim_with p s)" "?t \<noteq> []" using that by (subst t, simp, subst t, simp)
    then show ?thesis using hd_dropWhile[of p s] by simp
  qed
  moreover have "s = takeWhile p s @ trim_with p s @ rev (takeWhile p (rev ?t))" by (simp flip: t)
  ultimately show ?thesis by blast
qed

lemma trim_with_set: "set (trim_with p s) \<subseteq> set s"
  using trim_with_parts[of s p] by (metis Un_iff set_append subsetI)

lemma trim_with_hd: "trim_with p s \<noteq> [] \<Longrightarrow> \<not> p (hd (trim_with p s))"
  using trim_with_parts[of s p] by blast

lemma safe_segmentI: "slash \<notin> set t \<Longrightarrow> (t \<noteq> [] \<Longrightarrow> hd t \<noteq> CHR ''.'') \<Longrightarrow> safe_segment (if t = [] then ''default'' else t)"
  by (auto simp: safe_segment_def)

lemma sanitize_segment_safe:
  assumes "\<And>g. x_alnum x g \<Longrightarrow> slash \<notin> set g"
  shows "safe_segment (sanitize_segment x s)"
proof -
  let ?c = "concat (map (\<lambda>g. if x_alnum x g \<or> g \<in> {''-'', ''_'', ''.'', ''@''} then g else ''_'') (chars s))"
  let ?p = "\<lambda>c. c = CHR ''.'' \<or> c = CHR ''_''"
  have "slash \<notin> set ?c" using assms by auto
  then have "slash \<notin> set (trim_with ?p ?c)" using trim_with_set[of ?p ?c] by blast
  moreover have "trim_with ?p ?c \<noteq> [] \<Longrightarrow> hd (trim_with ?p ?c) \<noteq> CHR ''.''" using trim_with_hd[of ?p ?c] by simp
  ultimately show ?thesis unfolding sanitize_segment_def Let_def by (rule safe_segmentI)
qed

lemma hex_nibble_no_slash: "n < 16 \<Longrightarrow> hex_nibble n \<noteq> slash"
proof
  assume n: "n < 16" and h: "hex_nibble n = slash"
  have "of_char (hex_nibble n) = (if n < 10 then 48 + n else 87 + n)" using n by (simp add: hex_nibble_def of_char_of)
  moreover have "of_char slash = (47 :: nat)" by simp
  ultimately show False using h by (simp split: if_splits)
qed

lemma show_hex_no_slash: "slash \<notin> set (show_hex n)"
proof (induction n rule: show_hex.induct)
  case (1 n)
  then show ?case using hex_nibble_no_slash[of n] hex_nibble_no_slash[of "n mod 16"]
    by (subst show_hex.simps) (auto dest: sym)
qed

lemma padded_hex_ok: "slash \<notin> set (padded_hex w h)" "w \<le> length (padded_hex w h)"
  using show_hex_no_slash by (auto simp: padded_hex_def Let_def)

text \<open>C38: state stays in its own directory. Whatever the remote, the workspace, the contexts and the
  mountpoint are called, the state of a mount lies below \<^verbatim>\<open>.canvas\<close>, and every name the user gives
  has become one segment of the path that is not empty, has no slash and does not lead upwards.\<close>

theorem data_dir_below_canvas:
  assumes "\<And>g. x_alnum x g \<Longrightarrow> slash \<notin> set g"
    and "d \<in> {mount_data_dir x home remote contexts mp, workspace_data_dir x home remote ws, workspace_mount_data_dir x home remote ws mp}"
  shows "\<exists>segs. d = home @ ''.canvas'' # segs \<and> length segs \<ge> 3 \<and> list_all safe_segment segs"
proof -
  have n: "safe_segment (sanitize_segment x s)" for s by (rule sanitize_segment_safe[OF assms(1)])
  have "length (mounts_name x mp) \<ge> 9"
    using padded_hex_ok(2)[of 8 "fnv1a (path_text mp)"] by (simp add: mounts_name_def)
  then have "mounts_name x mp \<noteq> []" "mounts_name x mp \<noteq> ''.''" "mounts_name x mp \<noteq> ''..''" by auto
  then have m: "safe_segment (mounts_name x mp)"
    using n[of "trim_with (\<lambda>c. c = slash) (path_text mp)"] padded_hex_ok(1)
    by (simp add: safe_segment_def mounts_name_def)
  have c: "safe_segment ''fuse''" "safe_segment ''contexts''" "safe_segment ''mounts''" "safe_segment ''workspaces''"
    by (simp_all add: safe_segment_def)
  show ?thesis using assms(2) n m c
    by (auto simp: mount_data_dir_def workspace_data_dir_def workspace_mount_data_dir_def Let_def split: list.splits)
qed

theorem data_dir_below_canvas_witness:
  "mount_data_dir demo_text [''h''] ''../a'' [''..''] [''m''] = [''h'', ''.canvas'', ''a'', ''fuse'', ''contexts'', ''default'']
   \<and> (\<exists>segs. mount_data_dir demo_text [''h''] ''../a'' [''..''] [''m''] = [''h''] @ ''.canvas'' # segs \<and> list_all safe_segment segs)"
proof -
  have a: "slash \<notin> set g" if "x_alnum demo_text g" for g
    using that by (auto simp: demo_text_def is_alnum_ascii_def list_all_iff byte_def)
  have "mount_data_dir demo_text [''h''] ''../a'' [''..''] [''m''] = [''h'', ''.canvas'', ''a'', ''fuse'', ''contexts'', ''default'']"
    by (simp add: mount_data_dir_def sanitize_segment_def demo_text_def is_alnum_ascii_def byte_def Let_def
        trim_with_def trim_end_with_def trim_start_with_def)
  then show ?thesis
    using data_dir_below_canvas[of demo_text "mount_data_dir demo_text [''h''] ''../a'' [''..''] [''m'']" "[''h'']" "''../a''" "[''..'']" "[''m'']", OF a]
    by blast
qed

section \<open>Credentials\<close>

lemma from_remote_origin:
  assumes r: "from_remote x server_flag None None None server token nm remote = Inr ep"
    and v: "set_var x ''CANVAS_TLS_CERT'' = None" "server \<noteq> None \<Longrightarrow> server_flag \<noteq> None \<or> set_var x ''CANVAS_SERVER'' \<noteq> None"
    and tls: "ep_tls ep = Some i"
  shows "\<exists>files. ep_source ep = ''remote '' @ nm \<and> remote_tls x remote = Inr (Some files) \<and> tls_load (cx_tls x) files (ep_server ep) = Inr i
    \<and> (case jstr ''url'' remote of None \<Rightarrow> True
       | Some u \<Rightarrow> u = ep_server ep \<or> (cx_origin x u \<noteq> None \<and> cx_origin x u = cx_origin x (ep_server ep)))"
proof -
  obtain srv tok files where f: "first_of server (jstr ''url'' remote) = Some srv"
    "remote_tls x remote = Inr files" "origin_kept x server_flag None None files remote srv = Inr ()"
    "load_for x files srv = Inr (ep_tls ep)" "ep = \<lparr>ep_server = srv, ep_token = tok, ep_tls = ep_tls ep, ep_source = ''remote '' @ nm\<rparr>"
    using r by (auto simp: from_remote_def split: option.split_asm sum.split_asm)
  then have s: "ep_server ep = srv" "ep_source ep = ''remote '' @ nm"
    by (metis endpoint.select_convs(1)) (metis f(5) endpoint.select_convs(4))
  obtain fs where fs: "files = Some fs" "tls_load (cx_tls x) fs srv = Inr i"
    using f(4) tls by (auto simp: load_for_def split: option.splits sum.splits)
  have "u = srv \<or> (cx_origin x u \<noteq> None \<and> cx_origin x u = cx_origin x srv)" if "jstr ''url'' remote = Some u" for u
  proof (cases server)
    case None
    then show ?thesis using f(1) that by (simp add: first_of_def)
  next
    case (Some a)
    then show ?thesis using f(3) v fs(1) that by (auto simp: origin_kept_def split: option.splits if_splits)
  qed
  then show ?thesis using s f(2) fs by (auto split: option.split)
qed

text \<open>C39: a certificate goes to its own origin only. When a remote is used and no certificate has been
  given explicitly, the endpoint has a client identity only if the remote has one configured, and
  then the server it is used for is the remote's own URL or has the same origin; a remote without a
  URL of its own is the exception.\<close>

theorem certificate_keeps_origin:
  assumes r: "resolve_with_tls x server_flag token_flag remote_flag None None = Inr ep"
    and none: "set_var x ''CANVAS_TLS_CERT'' = None" "set_var x ''CANVAS_TLS_KEY'' = None"
    and tls: "ep_tls ep = Some i"
  shows "\<exists>dir remotes nm remote files. canvas_config_dir x = Some dir \<and> cx_json x (dir @ [''remotes.json'']) = Some remotes
    \<and> jget nm remotes = Some remote \<and> ep_source ep = ''remote '' @ nm
    \<and> remote_tls x remote = Inr (Some files) \<and> tls_load (cx_tls x) files (ep_server ep) = Inr i
    \<and> (case jstr ''url'' remote of None \<Rightarrow> True
       | Some u \<Rightarrow> u = ep_server ep \<or> (cx_origin x u \<noteq> None \<and> cx_origin x u = cx_origin x (ep_server ep)))"
proof -
  have o: "tls_override x None None = Inr None" using none by (simp add: tls_override_def Let_def)
  let ?server = "first_of server_flag (set_var x ''CANVAS_SERVER'')" and ?token = "first_of token_flag (set_var x ''CANVAS_API_TOKEN'')"
  have "from_config x server_flag remote_flag None None None ?server ?token = Inr ep"
    using r tls by (cases ?server; cases ?token; cases remote_flag) (auto simp: resolve_with_tls_def o load_for_def Let_def)
  then obtain dir remotes nm remote where d: "canvas_config_dir x = Some dir" "cx_json x (dir @ [''remotes.json'']) = Some remotes"
    "jget nm remotes = Some remote" "from_remote x server_flag None None None ?server ?token nm remote = Inr ep"
    by (auto simp: from_config_def split: option.split_asm)
  have "?server \<noteq> None \<Longrightarrow> server_flag \<noteq> None \<or> set_var x ''CANVAS_SERVER'' \<noteq> None" by (simp add: first_of_def split: option.splits)
  then show ?thesis using from_remote_origin[OF d(4) none(1) _ tls] d(1,2,3) by blast
qed

text \<open>A configuration with one remote that has a certificate; the server is given by hand.\<close>

definition demo_remote :: json where
  "demo_remote = JObj [(''url'', JStr ''s''), (''auth'', JObj [(''token'', JStr ''t'')]),
     (''tls'', JObj [(''certFile'', JStr ''c''), (''keyFile'', JStr ''k'')])]"

definition demo_conf :: "(unit, unit, string) conf_env" where
  "demo_conf = \<lparr>cx_var = (\<lambda>_. None), cx_home = Some [''h''], cx_path = (\<lambda>s. [s]),
     cx_json = (\<lambda>p. if last p = ''remotes.json'' then Some (JObj [(''r'', demo_remote)]) else None),
     cx_origin = (\<lambda>s. Some (takeWhile (\<lambda>c. c \<noteq> slash) s)),
     cx_tls = \<lparr>te_url = (\<lambda>s. Some \<lparr>ur_scheme = ''https'', ur_host = Some ''s'', ur_username = [], ur_password = None,
         ur_query = None, ur_fragment = None, ur_text = s\<rparr>),
       te_read = (\<lambda>_. Some []), te_chain = (\<lambda>_. Some [()]), te_key = (\<lambda>_. Some ()), te_matches = (\<lambda>_ _. True),
       te_valid_now = (\<lambda>_. True), te_signed_by = (\<lambda>_ _. True), te_pkcs8 = (\<lambda>_. Some ''p'')\<rparr>\<rparr>"

theorem certificate_keeps_origin_witness:
  "\<exists>ep. resolve_with_tls demo_conf (Some ''s/api'') None (Some ''r'') None None = Inr ep \<and> ep_tls ep = Some ([], ''p'')
     \<and> ep_server ep = ''s/api'' \<and> cx_origin demo_conf ''s'' = cx_origin demo_conf (ep_server ep)"
proof -
  have h: "cx_home demo_conf = Some [''h'']" by (simp add: demo_conf_def)
  have j: "cx_json demo_conf [''h'', ''.canvas'', ''config'', ''remotes.json''] = Some (JObj [(''r'', demo_remote)])" by (simp add: demo_conf_def)
  have l: "tls_load (cx_tls demo_conf) f srv = Inr ([], ''p'')" for f srv
    by (simp add: tls_load_def demo_conf_def sublist_def)
  have r: "remote_tls demo_conf demo_remote = Inr (Some \<lparr>tf_cert = [''c''], tf_key = [''k'']\<rparr>)"
    by (simp add: remote_tls_def demo_remote_def demo_conf_def jstr_def)
  have v: "set_var demo_conf nm = None" for nm by (simp add: set_var_def demo_conf_def)
  have o: "cx_origin demo_conf ''s'' = Some ''s''" "cx_origin demo_conf ''s/api'' = Some ''s''" by (simp_all add: demo_conf_def)
  have "jstr ''url'' demo_remote = Some ''s''" by (simp add: demo_remote_def jstr_def)
  then have k: "origin_kept demo_conf sf cf kf fs demo_remote ''s/api'' = Inr ()" for sf cf kf fs
    using o by (simp add: origin_kept_def)
  let ?ep = "\<lparr>ep_server = ''s/api'', ep_token = ''t'', ep_tls = Some ([], ''p''), ep_source = ''remote r''\<rparr>"
  have f: "from_remote demo_conf (Some ''s/api'') None None None (Some ''s/api'') None ''r'' demo_remote = Inr ?ep"
    using l r k by (simp add: from_remote_def first_of_def load_for_def token_at_def demo_remote_def jstr_def)
  have e: "resolve_with_tls demo_conf (Some ''s/api'') None (Some ''r'') None None = Inr ?ep"
    using f v by (simp add: resolve_with_tls_def tls_override_def from_config_def remote_name_def first_of_def Let_def
        canvas_config_dir_def h j)
  have "\<exists>dir remotes nm remote files. canvas_config_dir demo_conf = Some dir \<and> cx_json demo_conf (dir @ [''remotes.json'']) = Some remotes
    \<and> jget nm remotes = Some remote \<and> ep_source ?ep = ''remote '' @ nm
    \<and> remote_tls demo_conf remote = Inr (Some files) \<and> tls_load (cx_tls demo_conf) files (ep_server ?ep) = Inr ([], ''p'')
    \<and> (case jstr ''url'' remote of None \<Rightarrow> True
       | Some u \<Rightarrow> u = ep_server ?ep \<or> (cx_origin demo_conf u \<noteq> None \<and> cx_origin demo_conf u = cx_origin demo_conf (ep_server ?ep)))"
    by (rule certificate_keeps_origin[OF e v v]) simp
  then show ?thesis using e o by (intro exI[of _ ?ep]) simp
qed

section \<open>The selector of the contexts\<close>

lemma trim_no_slash: "a \<noteq> [] \<Longrightarrow> hd a \<noteq> c \<Longrightarrow> last a \<noteq> c \<Longrightarrow> trim_with (\<lambda>x. x = c) a = a"
proof -
  assume a: "a \<noteq> []" "hd a \<noteq> c" "last a \<noteq> c"
  then have "dropWhile (\<lambda>x. x = c) a = a" by (cases a) auto
  moreover have "dropWhile (\<lambda>x. x = c) (rev a) = rev a" using a by (cases "rev a") (auto simp: hd_rev[symmetric])
  ultimately show ?thesis by (simp add: trim_with_def trim_start_with_def trim_end_with_def)
qed

lemma resolve_root_contexts:
  assumes "ws \<noteq> []" "slash \<notin> set ws"
  shows "resolve_root (Some (ws @ ''/Contexts'')) w [] = Inr (Some ws, [])" "resolve_root (Some ws) w [] = Inr (Some ws, [])"
proof -
  have h: "hd ws \<noteq> slash" "last ws \<noteq> slash" using assms hd_in_set last_in_set by metis+
  have "trim_with (\<lambda>c. c = slash) (ws @ ''/Contexts'') = ws @ slash # ''Contexts''" using assms h by (simp add: trim_no_slash)
  moreover have "split_on slash (ws @ slash # ''Contexts'') = [ws, ''Contexts'']"
    unfolding split_on_append using assms by (simp add: split_on_no_sep)
  moreover have "eq_ignore_case ''Contexts'' ''contexts''" by code_simp
  ultimately show "resolve_root (Some (ws @ ''/Contexts'')) w [] = Inr (Some ws, [])" using assms by (simp add: resolve_root_def)
  show "resolve_root (Some ws) w [] = Inr (Some ws, [])"
    using assms h by (simp add: resolve_root_def trim_no_slash split_on_no_sep)
qed

text \<open>C40: a selector that means something else. \<^verbatim>\<open><workspace>/Contexts\<close>, documented to mount the context
  views of the workspace, is resolved to the same mount as \<^verbatim>\<open><workspace>\<close>: its trees, at the same
  place.\<close>

theorem contexts_selector_mounts_trees:
  assumes "ws \<noteq> []" "slash \<notin> set ws"
    and "mf_selector f = None" "mf_contexts f = []" "mf_workspace f = None" "\<not> mf_contexts_only f"
  shows "mount_command p (f\<lparr>mf_root := Some (ws @ ''/Contexts'')\<rparr>) = mount_command p (f\<lparr>mf_root := Some ws\<rparr>)
    \<and> (\<forall>a. mount_command p (f\<lparr>mf_root := Some (ws @ ''/Contexts'')\<rparr>) = Inr a \<longrightarrow> workspace_mount a = Some ws)"
proof -
  have p: "positionals p None mp = (case mp of Some q \<Rightarrow> Inr (None, q) | None \<Rightarrow> Inl NoMountpoint)" for mp
    by (simp add: positionals_def split: option.split)
  show ?thesis using assms
    by (auto simp: mount_command_def p first_of_def resolve_root_contexts workspace_mount_def split: option.split sum.split sum.split_asm)
qed

text \<open>The flags of \<^verbatim>\<open>canvas-fuse mount --root ws/Contexts /m\<close>.\<close>

definition contexts_flags :: mount_flags where
  "contexts_flags = \<lparr>mf_selector = None, mf_mountpoint = Some [''m''], mf_root = Some ''ws/Contexts'', mf_contexts = [],
     mf_workspace = None, mf_trees = [], mf_backends = [], mf_include_backends = False, mf_no_backends = False,
     mf_contexts_only = False, mf_remote = None, mf_data_dir = None, mf_mirror = False\<rparr>"

theorem contexts_selector_mounts_trees_witness:
  "\<exists>a. mount_command (\<lambda>s. [s]) contexts_flags = Inr a \<and> workspace_mount a = Some ''ws'' \<and> planned_mountpoint a = [''m'', ''ws'']"
proof -
  let ?f = "contexts_flags\<lparr>mf_root := Some ''ws''\<rparr>"
  have f: "contexts_flags = contexts_flags\<lparr>mf_root := Some (''ws'' @ ''/Contexts'')\<rparr>" by (simp add: contexts_flags_def)
  have "mount_command (\<lambda>s. [s]) contexts_flags = mount_command (\<lambda>s. [s]) ?f"
    using contexts_selector_mounts_trees[of "''ws''" contexts_flags "\<lambda>s. [s]"] f by (simp add: contexts_flags_def)
  also have "\<dots> = Inr \<lparr>ma_mountpoint = [''m''], ma_contexts = [], ma_workspace = Some ''ws'', ma_selection = \<lparr>sel_trees = [], sel_home = False, sel_backends = False\<rparr>,
      ma_contexts_only = False, ma_remote = None, ma_data_dir = None, ma_mirror = False\<rparr>"
    by (simp add: mount_command_def contexts_flags_def positionals_def first_of_def resolve_root_contexts resolve_selection_def is_explicit_def Let_def)
  finally show ?thesis by (simp add: workspace_mount_def planned_mountpoint_def is_explicit_def)
qed

end
