(* ===== verification/Events.thy ===== *)
theory Events
  imports Worker
begin

text \<open>
  The event stream (\<^verbatim>\<open>src/src/events.rs\<close>): what the callbacks of the socket do. The socket client
  itself is third-party: a callback is a step, its input the name of the event and its payload.
  The subscriber keeps the channels the server has confirmed on this socket; \<open>su_asked\<close> records the
  subscribe requests that were sent on it. Jobs go to the queue of the worker.
\<close>

datatype payload = Text "json list" | Binary

record subscriber =
  su_connected :: bool
  su_confirmed :: "string set"
  su_asked :: "string list"

definition no_subscriber :: subscriber where
  "no_subscriber = \<lparr>su_connected = False, su_confirmed = {}, su_asked = []\<rparr>"

text \<open>A new socket: nothing has been asked on it.\<close>

definition set_client :: "subscriber \<Rightarrow> subscriber" where
  "set_client s = s\<lparr>su_connected := True, su_asked := []\<rparr>"

definition reset_confirmed :: "subscriber \<Rightarrow> subscriber" where
  "reset_confirmed s = s\<lparr>su_confirmed := {}\<rparr>"

definition confirm :: "string \<Rightarrow> subscriber \<Rightarrow> subscriber" where
  "confirm channel s = s\<lparr>su_confirmed := insert channel (su_confirmed s)\<rparr>"

definition subscribe_raw :: "string \<Rightarrow> subscriber \<Rightarrow> subscriber" where
  "subscribe_raw channel s =
     (if channel \<in> su_confirmed s \<or> \<not> su_connected s then s else s\<lparr>su_asked := su_asked s @ [channel]\<rparr>)"

definition context_channel :: "string \<Rightarrow> string" where
  "context_channel ctx = ''context:'' @ ctx"

definition subscribe :: "string \<Rightarrow> subscriber \<Rightarrow> subscriber" where
  "subscribe ctx = subscribe_raw (context_channel ctx)"

definition subscribe_workspace :: "string \<Rightarrow> subscriber \<Rightarrow> subscriber" where
  "subscribe_workspace ws = subscribe_raw (''workspace:'' @ ws)"

fun first_payload_value :: "payload \<Rightarrow> json option" where
  "first_payload_value (Text (v # _)) = Some v"
| "first_payload_value _ = None"

definition channel_from_payload :: "payload \<Rightarrow> string option" where
  "channel_from_payload p = Option.bind (first_payload_value p) (jstr ''channel'')"

definition context_id_of :: "payload \<Rightarrow> string option" where
  "context_id_of p = Option.bind (first_payload_value p)
     (\<lambda>v. case jstr ''contextId'' v of Some i \<Rightarrow> Some i | None \<Rightarrow> jstr ''id'' v)"

section \<open>Callbacks\<close>

text \<open>\<open>ws\<close> says whether the mount shows a workspace; it is decided once.\<close>

definition on_authenticated :: "bool \<Rightarrow> view \<Rightarrow> subscriber \<Rightarrow> subscriber \<times> refresh_job list" where
  "on_authenticated ws t s =
     (let s = reset_confirmed (set_client s)
      in (if ws then (case vt_ws t of Some w \<Rightarrow> subscribe_workspace (ws_id w) s | None \<Rightarrow> s)
          else fold subscribe (tkeys (vt_ctxs t)) s,
          [RefreshAll, MirrorReconnect]))"

definition on_subscribed :: "payload \<Rightarrow> subscriber \<Rightarrow> subscriber" where
  "on_subscribed p s = (case channel_from_payload p of Some c \<Rightarrow> confirm c s | None \<Rightarrow> s)"

definition workspace_jobs :: "string \<Rightarrow> refresh_job list" where
  "workspace_jobs nm =
     (if starts_with ''tree.'' nm \<or> starts_with ''document.'' nm then [RefreshAll] else [])
     @ (if nm = ''backend.changed'' \<or> starts_with ''sync.conflict.'' nm then [MirrorNudge] else [])"

definition context_jobs :: "string \<Rightarrow> payload \<Rightarrow> refresh_job list" where
  "context_jobs nm p =
     (if \<not> (starts_with ''document.'' nm \<or> nm \<in> {''context.url.set'', ''context.updated'', ''context.created'', ''context.deleted''})
      then []
      else if nm \<in> {''context.created'', ''context.deleted''} then [RefreshAll]
      else case context_id_of p of Some ctx \<Rightarrow> [RefreshContext ctx] | None \<Rightarrow> [RefreshAll])"

definition on_any :: "bool \<Rightarrow> string \<Rightarrow> payload \<Rightarrow> refresh_job list" where
  "on_any ws nm p = (if ws then workspace_jobs nm else context_jobs nm p)"

datatype error_report = SourceError string string string | NotReady string | SocketError string

text \<open>How an error of the server is reported; \<open>shown\<close> prints a payload without a message.\<close>

definition on_error :: "(payload \<Rightarrow> string) \<Rightarrow> payload \<Rightarrow> error_report" where
  "on_error shown p =
     (let v = first_payload_value p;
          retryable = or_default False (Option.bind (Option.bind v (jget ''retryable'')) as_bool);
          msg = or_default (shown p) (Option.bind v (\<lambda>v. case jstr ''message'' v of Some m \<Rightarrow> Some m
            | None \<Rightarrow> (case jstr ''error'' v of Some m \<Rightarrow> Some m | None \<Rightarrow> as_str v)));
          source = Option.bind v (\<lambda>v. Option.bind (jstr ''workspaceId'' v) (\<lambda>w. map_option (Pair w) (jstr ''source'' v)))
      in case source of Some (w, src) \<Rightarrow> SourceError w src msg
         | None \<Rightarrow> if retryable then NotReady msg else SocketError msg)"

section \<open>The life of a socket\<close>

text \<open>What can happen to the subscriber: the socket is authenticated anew, the server confirms a
  channel, any other event arrives, or the worker has refreshed a context and asks for its
  channel.\<close>

datatype stream_event = Authenticated view | Subscribed payload | Event string payload | Refreshed string

record stream =
  st_subscriber :: subscriber
  st_jobs :: "refresh_job list"

definition stream_step :: "bool \<Rightarrow> stream_event \<Rightarrow> stream \<Rightarrow> stream" where
  "stream_step ws ev s = (case ev of
     Authenticated t \<Rightarrow> (case on_authenticated ws t (st_subscriber s) of
       (u, js) \<Rightarrow> s\<lparr>st_subscriber := u, st_jobs := st_jobs s @ js\<rparr>)
   | Subscribed p \<Rightarrow> s\<lparr>st_subscriber := on_subscribed p (st_subscriber s)\<rparr>
   | Event nm p \<Rightarrow> s\<lparr>st_jobs := st_jobs s @ on_any ws nm p\<rparr>
   | Refreshed ctx \<Rightarrow> if ws then s else s\<lparr>st_subscriber := subscribe ctx (st_subscriber s)\<rparr>)"

text \<open>The attempts to connect: the seconds waited after each failure, and whether there is a client
  when the attempts end (with success, or because the mount is stopped).\<close>

fun supervise :: "nat \<Rightarrow> bool list \<Rightarrow> nat list \<times> bool" where
  "supervise delay [] = ([], False)"
| "supervise delay (True # rs) = ([], True)"
| "supervise delay (False # rs) = (case supervise (min (delay * 2) 30) rs of (ds, ok) \<Rightarrow> (delay # ds, ok))"

section \<open>What the stream keeps\<close>

definition asked_or_confirmed :: "string \<Rightarrow> subscriber \<Rightarrow> bool" where
  "asked_or_confirmed c s \<longleftrightarrow> c \<in> set (su_asked s) \<or> c \<in> su_confirmed s"

lemma subscribe_raw_asks: "su_connected s \<Longrightarrow> asked_or_confirmed c (subscribe_raw c s)"
  and subscribe_raw_keeps: "asked_or_confirmed d s \<Longrightarrow> asked_or_confirmed d (subscribe_raw c s)"
  and subscribe_raw_client [simp]: "su_connected (subscribe_raw c s) = su_connected s"
  by (auto simp: asked_or_confirmed_def subscribe_raw_def)

lemma subscribe_asks: "su_connected s \<Longrightarrow> asked_or_confirmed (context_channel c) (subscribe c s)"
  and subscribe_keeps: "asked_or_confirmed d s \<Longrightarrow> asked_or_confirmed d (subscribe c s)"
  and subscribe_client [simp]: "su_connected (subscribe c s) = su_connected s"
  by (simp_all add: subscribe_def subscribe_raw_asks subscribe_raw_keeps)

lemma subscribe_all_client [simp]: "su_connected (fold subscribe cs s) = su_connected s"
  by (induction cs arbitrary: s) simp_all

lemma subscribe_all_asks:
  assumes "su_connected s" "c \<in> set cs"
  shows "asked_or_confirmed (context_channel c) (fold subscribe cs s)"
proof -
  have keep: "asked_or_confirmed d s \<Longrightarrow> asked_or_confirmed d (fold subscribe cs s)" for d cs s
    by (induction cs arbitrary: s) (simp_all add: subscribe_keeps)
  from assms show ?thesis
    by (induction cs arbitrary: s) (auto intro: keep subscribe_asks)
qed

lemma stream_step_keeps:
  "asked_or_confirmed c (st_subscriber s) \<Longrightarrow> \<nexists>t. ev = Authenticated t \<Longrightarrow>
    asked_or_confirmed c (st_subscriber (stream_step ws ev s))"
  by (cases ev) (auto simp: stream_step_def on_subscribed_def confirm_def subscribe_keeps
      asked_or_confirmed_def[of _ "_\<lparr>su_confirmed := _\<rparr>"] asked_or_confirmed_def[of _ "st_subscriber s"] split: option.split)

lemma stream_steps_keep:
  "asked_or_confirmed c (st_subscriber s) \<Longrightarrow> \<forall>t. Authenticated t \<notin> set evs \<Longrightarrow>
    asked_or_confirmed c (st_subscriber (fold (stream_step ws) evs s))"
proof (induction evs arbitrary: s)
  case (Cons ev evs)
  have "asked_or_confirmed c (st_subscriber (stream_step ws ev s))"
    by (rule stream_step_keeps) (use Cons.prems in auto)
  then show ?case using Cons by simp
qed simp

lemma stream_jobs_keep: "set (st_jobs s) \<subseteq> set (st_jobs (fold (stream_step ws) evs s))"
proof (induction evs arbitrary: s)
  case (Cons ev evs)
  have "set (st_jobs s) \<subseteq> set (st_jobs (stream_step ws ev s))"
    by (cases ev) (auto simp: stream_step_def split: prod.split)
  then show ?case using Cons[of "stream_step ws ev s"] by auto
qed simp

lemma supervise_waits: "fst (supervise d rs) = map (\<lambda>n. min (d * 2 ^ n) 30) [0..<length (fst (supervise d rs))]"
  if "d \<le> 30"
  using that
proof (induction d rs rule: supervise.induct)
  case (3 d rs)
  have "min (min (d * 2) 30 * 2 ^ n) 30 = min (d * 2 ^ Suc n) (30 :: nat)" for n
  proof (cases "d * 2 \<le> 30")
    case False
    then have "30 * 1 \<le> d * 2 * 2 ^ n" by (intro mult_le_mono) simp_all
    then have "30 \<le> d * 2 ^ Suc n" by simp
    moreover have "30 * 1 \<le> (30 :: nat) * 2 ^ n" by (intro mult_le_mono) simp_all
    moreover have "min (d * 2) 30 = 30" using False by simp
    ultimately show ?thesis by (simp only: min_absorb2 mult_1_right)
  qed (simp add: mult.assoc)
  then show ?case using 3 by (auto split: prod.split simp: map_upt_Suc simp del: upt_Suc)
qed simp_all

lemma stream_jobs_grow: "\<exists>js. st_jobs (fold (stream_step ws) evs s) = st_jobs s @ js
    \<and> (\<forall>nm p. Event nm p \<in> set evs \<longrightarrow> set (on_any ws nm p) \<subseteq> set js)"
proof (induction evs arbitrary: s)
  case (Cons ev evs)
  obtain js where js: "st_jobs (fold (stream_step ws) evs (stream_step ws ev s)) = st_jobs (stream_step ws ev s) @ js"
    "\<forall>nm p. Event nm p \<in> set evs \<longrightarrow> set (on_any ws nm p) \<subseteq> set js" using Cons by blast
  have "\<exists>j. st_jobs (stream_step ws ev s) = st_jobs s @ j \<and> (\<forall>nm p. ev = Event nm p \<longrightarrow> j = on_any ws nm p)"
    by (cases ev) (auto simp: stream_step_def split: prod.split)
  then obtain j where "st_jobs (stream_step ws ev s) = st_jobs s @ j" "\<forall>nm p. ev = Event nm p \<longrightarrow> j = on_any ws nm p" by blast
  then show ?case using js by (intro exI[of _ "j @ js"]) (auto, blast)
qed simp

lemma refreshed_stays_asked:
  assumes "Refreshed c \<in> set evs" "\<forall>t. Authenticated t \<notin> set evs" "su_connected (st_subscriber s)"
  shows "asked_or_confirmed (context_channel c) (st_subscriber (fold (stream_step False) evs s))"
  using assms
proof (induction evs arbitrary: s)
  case (Cons ev evs)
  have "su_connected (st_subscriber (stream_step False ev s))"
    using Cons.prems by (cases ev) (auto simp: stream_step_def on_subscribed_def confirm_def split: option.split)
  moreover have "asked_or_confirmed (context_channel c) (st_subscriber (stream_step False (Refreshed c) s))"
    using Cons.prems(3) by (simp add: stream_step_def subscribe_asks)
  ultimately show ?case using Cons stream_steps_keep[of "context_channel c" "stream_step False ev s" evs False]
    by (cases "ev = Refreshed c") auto
qed simp



end
