(* ===== verification/Mount.thy ===== *)
theory Mount
  imports Mounts Context_Selection Events Watch Fuse Sync_Cycle
begin

text \<open>
  Making a mount (\<^verbatim>\<open>mount_with_session\<close> of \<^verbatim>\<open>src/src/lib.rs\<close> and \<^verbatim>\<open>Mirror::open_with_progress\<close>): the
  checks, the workspace or the contexts are looked up, the mirror is opened, its folder watched and
  scanned, the tree is filled, and what the threads work on is put together. The host is an explicit
  state: the disk under the mountpoint, the bytes of Home, what is kept in the data directory, the
  network and the hub. Threads, the kernel session and progress messages are left out; a session
  that cannot be started is an error. None is a panic, or a listing whose pages do not end.
\<close>

section \<open>Opening the mirror\<close>

record ('h, 'n) host =
  ho_disk :: disk
  ho_folder :: folder
  ho_names :: name_store
  ho_workspace_cache :: "json option"
  ho_net :: 'n
  ho_hub :: 'h

datatype mount_error =
    SelectionNeedsTrees | MirrorNeedsHomeBackend | MountIdentity identity_error | NoWorkspace string
  | MountSelection selection_error | MissingTree string | TreesFailed string | WatchLimit | NoSession

record ('h, 'n) mount_env =
  me_api :: api_client
  me_net :: "'n net"
  me_text :: text_env
  me_parse :: "string \<Rightarrow> json option"
  me_hash :: "(string \<times> string list) list \<Rightarrow> nat"
  me_pages :: nat
  me_ident :: ident_env
  me_mirror :: "'h env"
  me_legacy_cache :: "string \<Rightarrow> string option"
  me_watch_limit :: nat
  me_operation_id :: string
  me_session :: bool
  me_now :: nat

text \<open>The exclusions of the last run on line, so that a mount off line applies the same rules.\<close>

definition saved_exclusions :: "store \<Rightarrow> string list" where
  "saved_exclusions s = (case meta s ''exclusions'' of Some saved \<Rightarrow> split_on CHR 0x0A saved | None \<Rightarrow> [])"

definition new_mirror :: "store \<Rightarrow> folder \<Rightarrow> string ignore_rules \<Rightarrow> 'h \<Rightarrow> 'h mirror" where
  "new_mirror s f rules h = \<lparr>m_store = s, m_fs = f, m_hub = h, m_open_writes = {}, m_epoch = 0, m_skipped = [],
     m_recheck = {}, m_protected_jobs = {}, m_state = Idle, m_last_error = None, m_last_full = False,
     m_ignore = rules, m_pending_rescan = False, m_pending_paths = {}, m_view = [], m_woken = False\<rparr>"

text \<open>Watches are live before the first scan.\<close>

definition start_mirror ::
    "('h, 'n) mount_env \<Rightarrow> database \<Rightarrow> legacy option \<Rightarrow> folder \<Rightarrow> 'h \<Rightarrow> mount_error + 'h mirror \<times> watches" where
  "start_mirror e d legacy f h =
     (let v = me_mirror e;
          rules = rules_from v (saved_exclusions (d_store d));
          g = \<lparr>mg_store = d_store d, mg_fs = f\<rparr>;
          g = (case legacy of None \<Rightarrow> g
             | Some l \<Rightarrow> migrate_legacy (me_legacy_cache e) (v_now v) (is_ignored (v_glob v) rules) l g);
          m = new_mirror (mg_store g) (mg_fs g) rules h
      in case add_tree v m [] (no_watches (me_watch_limit e)) of
           (False, _) \<Rightarrow> Inl WatchLimit
         | (True, w) \<Rightarrow> Inr (snd (scan_local v m), w))"

definition open_mirror ::
    "('h, 'n) mount_env \<Rightarrow> mirror_config \<Rightarrow> ('h, 'n) host \<Rightarrow> (mount_error + 'h mirror \<times> watches) \<times> ('h, 'n) host" where
  "open_mirror e c s = (case open_replica (me_ident e) c (ho_disk s) of
     (Inl err, k) \<Rightarrow> (Inl (MountIdentity err), s\<lparr>ho_disk := k\<rparr>)
   | (Inr (_, d, l), k) \<Rightarrow>
       (case start_mirror e d l (ho_folder s) (ho_hub s) of
          Inl err \<Rightarrow> (Inl err, s\<lparr>ho_disk := k\<rparr>)
        | Inr (m, w) \<Rightarrow> (Inr (m, w), s\<lparr>ho_disk := k, ho_folder := m_fs m\<rparr>)))"

section \<open>What is mounted\<close>

record mount_options =
  mo_server :: string
  mo_mountpoint :: path
  mo_data_dir :: path
  mo_enable_ws :: bool
  mo_enable_nudge :: bool
  mo_resync_secs :: nat
  mo_contexts :: "string list option"
  mo_context_root :: "string option"
  mo_at_root :: bool
  mo_workspace :: "string option"
  mo_selection :: workspace_selection
  mo_context_workspace :: "string option"
  mo_blob_bytes :: nat
  mo_mirror :: "mirror_options option"

definition check_options :: "mount_options \<Rightarrow> mount_error + unit" where
  "check_options o' =
     (if (is_explicit (mo_selection o') \<or> sel_backends (mo_selection o'))
         \<and> (mo_workspace o' = None \<or> mo_context_root o' \<noteq> None \<or> mo_contexts o' \<noteq> None)
      then Inl SelectionNeedsTrees
      else if mo_mirror o' \<noteq> None \<and> (mo_workspace o' = None \<or> \<not> includes_home (mo_selection o'))
      then Inl MirrorNeedsHomeBackend else Inr ())"

definition lookup_workspace :: "('h, 'n) mount_env \<Rightarrow> string \<Rightarrow> 'n \<Rightarrow> (mount_error + workspace_info) \<times> 'n" where
  "lookup_workspace e nm n = (case get_workspace (me_api e) (me_net e) nm n of
     (Inl _, n) \<Rightarrow> (Inl (NoWorkspace nm), n) | (Inr w, n) \<Rightarrow> (Inr w, n))"

text \<open>The contexts of a context mount, their names resolved once.\<close>

definition resolve_contexts :: "('h, 'n) mount_env \<Rightarrow> mount_options \<Rightarrow> 'n \<Rightarrow> (mount_error + context_selection) \<times> 'n" where
  "resolve_contexts e o' n =
     (case (case mo_context_workspace o' of None \<Rightarrow> (Inr None, n)
          | Some nm \<Rightarrow> (case lookup_workspace e nm n of (Inl err, n) \<Rightarrow> (Inl err, n) | (Inr w, n) \<Rightarrow> (Inr (Some (wi_id w)), n))) of
        (Inl err, n) \<Rightarrow> (Inl err, n)
      | (Inr ws, n) \<Rightarrow>
          (let (cs, n) = (if mo_contexts o' = None \<and> mo_context_root o' = None then (None, n)
              else case list_contexts (me_api e) (me_net e) n of (Inl _, n) \<Rightarrow> (None, n) | (Inr cs, n) \<Rightarrow> (Some cs, n))
           in case select_contexts (x_lower_str (me_text e)) (\<lambda>_. cs) (mo_contexts o') (mo_context_root o') ws of
                Inl err \<Rightarrow> (Inl (MountSelection err), n) | Inr sel \<Rightarrow> (Inr sel, n)))"

text \<open>The workspace of a mirror: from the marker and the cache, else from the hub. The second
  component says whether the replica existed already.\<close>

definition resolve_mirrored :: "('h, 'n) mount_env \<Rightarrow> mount_options \<Rightarrow> string \<Rightarrow> ('h, 'n) host
    \<Rightarrow> (mount_error + workspace_info \<times> bool) \<times> 'n" where
  "resolve_mirrored e o' nm s =
     (let mp = dk_mount (ho_disk s); cache = ho_workspace_cache s;
          (found, n) = (case cached_workspace (me_ident e) cache (mo_server o') nm mp of
             Inr None \<Rightarrow> (case lookup_workspace e nm (ho_net s) of (Inl _, n) \<Rightarrow> (None, n) | (Inr w, n) \<Rightarrow> (Some w, n))
           | _ \<Rightarrow> (None, ho_net s))
      in (map_sum MountIdentity id (resolve_workspace (me_ident e) cache (mo_server o') nm (\<lambda>_. found) mp), n))"

definition check_trees :: "('h, 'n) mount_env \<Rightarrow> mount_options \<Rightarrow> workspace_info \<Rightarrow> bool \<Rightarrow> 'n \<Rightarrow> (mount_error + unit) \<times> 'n" where
  "check_trees e o' w resumed n =
     (if resumed \<or> sel_trees (mo_selection o') = [] then (Inr (), n)
      else case list_trees (me_api e) (me_net e) (wi_id w) n of
        (Inl msg, n) \<Rightarrow> (if mo_mirror o' \<noteq> None then Inr () else Inl (TreesFailed msg), n)
      | (Inr available, n) \<Rightarrow>
          (case find (\<lambda>nm. nm \<notin> ti_name ` set available) (sel_trees (mo_selection o')) of
             Some nm \<Rightarrow> Inl (MissingTree nm) | None \<Rightarrow> Inr (), n))"

definition no_selection :: context_selection where
  "no_selection = \<lparr>cs_filter = None, cs_root = None, cs_workspace = None\<rparr>"

text \<open>The empty tree of the mount, and which contexts it is for.\<close>

definition mount_tree :: "('h, 'n) mount_env \<Rightarrow> mount_options \<Rightarrow> ('h, 'n) host
    \<Rightarrow> (mount_error + view \<times> context_selection) \<times> 'n" where
  "mount_tree e o' s = (case mo_workspace o' of
     None \<Rightarrow> (case resolve_contexts e o' (ho_net s) of
         (Inl err, n) \<Rightarrow> (Inl err, n)
       | (Inr sel, n) \<Rightarrow> (Inr ((case cs_root sel of Some c \<Rightarrow> context_rooted (me_now e) c
             | None \<Rightarrow> if mo_at_root o' then context_collection (me_now e) else bare (me_now e) None), sel), n))
   | Some nm \<Rightarrow>
       (case (if mo_mirror o' \<noteq> None then resolve_mirrored e o' nm s
              else (case lookup_workspace e nm (ho_net s) of (Inl err, n) \<Rightarrow> (Inl err, n) | (Inr w, n) \<Rightarrow> (Inr (w, False), n))) of
          (Inl err, n) \<Rightarrow> (Inl err, n)
        | (Inr (w, resumed), n) \<Rightarrow>
            (case check_trees e o' w resumed n of
               (Inl err, n) \<Rightarrow> (Inl err, n)
             | (Inr _, n) \<Rightarrow> (Inr (workspace_selected (me_now e) (wi_id w) (wi_name w) (mo_selection o'), no_selection), n))))"

definition mirror_config_of :: "mount_options \<Rightarrow> mirror_options \<Rightarrow> view \<Rightarrow> mirror_config" where
  "mirror_config_of o' mo t = \<lparr>cf_mountpoint = mo_mountpoint o',
     cf_home_dir = (if home_root_ino t = ROOT_INO then mo_mountpoint o' else mo_mountpoint o' @ [''Home'']),
     cf_data_dir = mo_data_dir o', cf_server = mo_server o', cf_workspace = (case vt_ws t of Some w \<Rightarrow> ws_id w | None \<Rightarrow> []),
     cf_backend = ''workspace:home'', cf_accept_device_change = accept_device_change mo\<rparr>"

text \<open>Home is built from the ledger, so that it can be read whether or not the hub is up; only then
  is the name of the workspace cached.\<close>

definition mount_mirror :: "('h, 'n) mount_env \<Rightarrow> mount_options \<Rightarrow> view \<Rightarrow> ('h, 'n) host
    \<Rightarrow> (mount_error + view \<times> ('h mirror \<times> watches) option) \<times> ('h, 'n) host" where
  "mount_mirror e o' t s = (case (mo_mirror o', vt_ws t) of
     (Some mo, Some w) \<Rightarrow>
       (case open_mirror e (mirror_config_of o' mo t) s of
          (Inl err, s) \<Rightarrow> (Inl err, s)
        | (Inr (m, ws), s) \<Rightarrow>
            (let t = fst (apply_home_snapshot (me_now e) (snapshot_files m) (dirs (m_store m)) (set_home_mirrored True t));
                 cached = cache_workspace (or_default [] (mo_workspace o')) \<lparr>wi_id = ws_id w, wi_name = ws_name w\<rparr>
             in (Inr (t, Some (m, ws)), s\<lparr>ho_workspace_cache := Some cached\<rparr>)))
   | _ \<Rightarrow> (Inr (t, None), s))"

section \<open>The mount\<close>

text \<open>A mount that stands: the state of the session thread, of the worker and of the event stream.\<close>

record ('h, 'n) mounted =
  mt_desk :: "('h, 'n) desk"
  mt_blobs :: blob_store
  mt_worker :: "('h, 'n) worker"
  mt_jobs :: "refresh_job list"
  mt_watches :: "watches option"
  mt_subscriber :: subscriber
  mt_stream :: bool
  mt_resync :: nat

definition wenv_of :: "('h, 'n) mount_env \<Rightarrow> ('h, 'n) wenv" where
  "wenv_of e = \<lparr>we_api = me_api e, we_net = me_net e, we_text = me_text e, we_parse = me_parse e,
     we_mirror = me_mirror e, we_operation_id = me_operation_id e, we_now = me_now e\<rparr>"

definition new_desk :: "('h, 'n) wstore \<Rightarrow> ('h, 'n) desk" where
  "new_desk w = \<lparr>dk_store = w, dk_notices = [], dk_pokes = [], dk_subscribed = [], dk_mirror_queue = [], dk_reconnects = 0\<rparr>"

definition worker_of :: "('h, 'n) mount_env \<Rightarrow> context_selection \<Rightarrow> bool \<Rightarrow> bool \<Rightarrow> ('h, 'n) worker" where
  "worker_of e sel notifier nudger = \<lparr>k_w = wenv_of e, k_hash = me_hash e, k_pages = me_pages e,
     k_filter = cs_filter sel, k_workspace = cs_workspace sel, k_notifier = notifier, k_nudger = nudger\<rparr>"

text \<open>A live mount is filled from the server before it stands; a mirror is filled afterwards.\<close>

definition bootstrap :: "('h, 'n) mount_env \<Rightarrow> context_selection \<Rightarrow> bool \<Rightarrow> ('h, 'n) desk \<Rightarrow> ('h, 'n) desk option" where
  "bootstrap e sel mirrored s = (if mirrored then Some s else refresh_all (worker_of e sel False False) s)"

definition stand_up :: "('h, 'n) mount_env \<Rightarrow> mount_options \<Rightarrow> context_selection \<Rightarrow> watches option \<Rightarrow> ('h, 'n) desk \<Rightarrow> ('h, 'n) mounted" where
  "stand_up e o' sel ws s = \<lparr>
     mt_desk = new_desk ((dk_store s)\<lparr>w_tree := set_deferred_removals (mo_enable_nudge o') (dk_tree s)\<rparr>),
     mt_blobs = blob_start (mo_blob_bytes o'), mt_worker = worker_of e sel True (mo_enable_nudge o'),
     mt_jobs = (if ws \<noteq> None then [RefreshAll] else []), mt_watches = ws, mt_subscriber = no_subscriber,
     mt_stream = mo_enable_ws o', mt_resync = max (mo_resync_secs o') 5\<rparr>"

definition mount :: "('h, 'n) mount_env \<Rightarrow> mount_options \<Rightarrow> ('h, 'n) host \<Rightarrow> ((mount_error + ('h, 'n) mounted) \<times> ('h, 'n) host) option" where
  "mount e o' s =
     (case check_options o' of Inl err \<Rightarrow> Some (Inl err, s) | Inr _ \<Rightarrow>
      (let s = s\<lparr>ho_disk := make_mountpoint (me_ident e) (ho_disk s)\<rparr> in
       case (if mo_mirror o' \<noteq> None then identity_preflight (dk_mount (ho_disk s)) else Inr ()) of
         Inl err \<Rightarrow> Some (Inl (MountIdentity err), s)
       | Inr _ \<Rightarrow>
         (let s = s\<lparr>ho_names := names_open (ho_names s)\<rparr> in
          case mount_tree e o' s of
            (Inl err, n) \<Rightarrow> Some (Inl err, s\<lparr>ho_net := n\<rparr>)
          | (Inr (t, sel), n) \<Rightarrow>
             (case mount_mirror e o' t (s\<lparr>ho_net := n\<rparr>) of
                (Inl err, s) \<Rightarrow> Some (Inl err, s)
              | (Inr (t, mw), s) \<Rightarrow>
                  map_option (\<lambda>d. let s = s\<lparr>ho_net := w_net (dk_store d), ho_names := w_names (dk_store d)\<rparr> in
                      if \<not> me_session e then (Inl NoSession, s)
                      else (Inr (stand_up e o' sel (map_option snd mw) d), s))
                    (bootstrap e sel (mo_mirror o' \<noteq> None)
                      (new_desk (wstore_new t (ho_names s) (map_option fst mw) (ho_net s))))))))"

end
